(* ===== verification/Prelude.thy ===== *)
theory Prelude
  imports
    Main
    "HOL-Library.Char_ord"
    "HOL-Library.List_Lexorder"
    "HOL-Library.Sublist"
begin

text \<open>
  What every component shares: the named collections, time, Python strings and
  dictionaries, JSON values, and the table operations the code issues through
  SQLAlchemy (\<open>select\<close>, \<open>update\<close> with its row count, \<open>delete\<close>, \<open>add\<close>).

  A table is the list of its rows. An operation on the database is a function that
  returns its result, or the exception it raises, together with the database it leaves.
  A clock reading, a generated identifier and a random token are arguments of the
  operation that takes them from the environment.
\<close>

section \<open>Collections\<close>

named_theorems time_defs \<open>the time units\<close>
named_theorems table_simps \<open>facts on the table operations\<close>
named_theorems op_defs \<open>unfolding of the operations of a component\<close>

section \<open>Results and time\<close>

type_synonym ('e, 'a, 'db) outcome = "('e + 'a) \<times> 'db"

abbreviation raised :: "('e, 'a, 'db) outcome \<Rightarrow> bool" where
  "raised r \<equiv> isl (fst r)"

text \<open>The next step of an operation, which is skipped when this one raised.\<close>

definition and_then ::
  "('e, 'a, 'db) outcome \<Rightarrow> ('a \<Rightarrow> 'db \<Rightarrow> ('e, 'b, 'db) outcome) \<Rightarrow> ('e, 'b, 'db) outcome" where
  "and_then m f = (case m of (Inl e, s) \<Rightarrow> (Inl e, s) | (Inr a, s) \<Rightarrow> f a s)"

lemma and_then_simps [simp]:
  "and_then (Inl e, s) f = (Inl e, s)" "and_then (Inr a, s) f = f a s"
  by (simp_all add: and_then_def)

lemma and_then_Inr:
  "and_then m f = (Inr b, s) \<longleftrightarrow> (\<exists>a s'. m = (Inr a, s') \<and> f a s' = (Inr b, s))"
  by (cases m; cases "fst m") auto

lemma and_then_unit: "and_then (r, s) f = (Inr b, s') \<Longrightarrow> r = Inr ()"
  by (cases r) simp_all

text \<open>
  Instants and durations count microseconds, the resolution of \<open>datetime\<close>; every stored
  instant is UTC, so the naive and the aware readings of the code are one number.
\<close>

type_synonym time = int

definition seconds :: "int \<Rightarrow> time" where
  "seconds n = 1000000 * n"

definition minutes :: "int \<Rightarrow> time" where
  "minutes n = seconds (60 * n)"

definition hours :: "int \<Rightarrow> time" where
  "hours n = seconds (3600 * n)"

definition days :: "int \<Rightarrow> time" where
  "days n = seconds (86400 * n)"

lemmas unit_defs [time_defs] = seconds_def minutes_def hours_def days_def

lemma seconds_mono [simp]: "seconds a \<le> seconds b \<longleftrightarrow> a \<le> b" "seconds a < seconds b \<longleftrightarrow> a < b"
  by (simp_all add: seconds_def)

lemma seconds_pos [simp]: "0 < seconds n \<longleftrightarrow> 0 < n" "0 \<le> seconds n \<longleftrightarrow> 0 \<le> n"
  by (simp_all add: seconds_def)

text \<open>\<open>min(hi, max(lo, x))\<close>, the clamp the settings use.\<close>

definition clamp :: "int \<Rightarrow> int \<Rightarrow> int \<Rightarrow> int" where
  "clamp lo hi x = min hi (max lo x)"

lemma clamp_le [simp]: "clamp lo hi x \<le> hi"
  by (simp add: clamp_def)

lemma clamp_ge [intro]: "lo \<le> hi \<Longrightarrow> lo \<le> clamp lo hi x"
  by (simp add: clamp_def)

section \<open>Python strings\<close>

text \<open>
  A Python string is a list of characters whose code points are below 256. The
  classes of characters are those Python uses for the code points in that range.
\<close>

definition is_space :: "char \<Rightarrow> bool" where
  "is_space c = (let n = (of_char c :: nat) in
     9 \<le> n \<and> n \<le> 13 \<or> 28 \<le> n \<and> n \<le> 32 \<or> n = 133 \<or> n = 160)"

definition lstrip :: "string \<Rightarrow> string" where
  "lstrip s = dropWhile is_space s"

definition rstrip :: "string \<Rightarrow> string" where
  "rstrip s = rev (dropWhile is_space (rev s))"

definition strip :: "string \<Rightarrow> string" where
  "strip s = rstrip (lstrip s)"

text \<open>\<open>s.split()\<close>: the maximal runs of characters that are not white space.\<close>

fun split_ws_aux :: "string \<Rightarrow> string \<Rightarrow> string list" where
  "split_ws_aux acc [] = (if acc = [] then [] else [rev acc])"
| "split_ws_aux acc (c # cs) =
     (if is_space c then (if acc = [] then split_ws_aux [] cs else rev acc # split_ws_aux [] cs)
      else split_ws_aux (c # acc) cs)"

definition split_ws :: "string \<Rightarrow> string list" where
  "split_ws s = split_ws_aux [] s"

text \<open>\<open>s.split(sep)\<close> for a separator of one character.\<close>

fun split_on_aux :: "char \<Rightarrow> string \<Rightarrow> string \<Rightarrow> string list" where
  "split_on_aux sep acc [] = [rev acc]"
| "split_on_aux sep acc (c # cs) =
     (if c = sep then rev acc # split_on_aux sep [] cs else split_on_aux sep (c # acc) cs)"

definition split_on :: "char \<Rightarrow> string \<Rightarrow> string list" where
  "split_on sep s = split_on_aux sep [] s"

text \<open>\<open>sep.join(parts)\<close>.\<close>

fun join_with :: "string \<Rightarrow> string list \<Rightarrow> string" where
  "join_with sep [] = []"
| "join_with sep [x] = x"
| "join_with sep (x # y # ys) = x @ sep @ join_with sep (y # ys)"

abbreviation startswith :: "string \<Rightarrow> string \<Rightarrow> bool" where
  "startswith s p \<equiv> prefix p s"

abbreviation endswith :: "string \<Rightarrow> string \<Rightarrow> bool" where
  "endswith s p \<equiv> suffix p s"

definition is_lower_alpha :: "char \<Rightarrow> bool" where
  "is_lower_alpha c = (let n = (of_char c :: nat) in 97 \<le> n \<and> n \<le> 122)"

definition is_upper_alpha :: "char \<Rightarrow> bool" where
  "is_upper_alpha c = (let n = (of_char c :: nat) in 65 \<le> n \<and> n \<le> 90)"

definition is_digit :: "char \<Rightarrow> bool" where
  "is_digit c = (let n = (of_char c :: nat) in 48 \<le> n \<and> n \<le> 57)"

definition lower_char :: "char \<Rightarrow> char" where
  "lower_char c = (let n = (of_char c :: nat) in
     if 65 \<le> n \<and> n \<le> 90 \<or> 192 \<le> n \<and> n \<le> 222 \<and> n \<noteq> 215 then char_of (n + 32) else c)"

definition lower :: "string \<Rightarrow> string" where
  "lower s = map lower_char s"

text \<open>\<open>x or None\<close> for a string, and \<open>x or ""\<close> for a nullable one.\<close>

definition or_none :: "string \<Rightarrow> string option" where
  "or_none s = (if s = [] then None else Some s)"

definition or_empty :: "string option \<Rightarrow> string" where
  "or_empty s = (case s of None \<Rightarrow> [] | Some x \<Rightarrow> x)"

lemma or_empty_simps [simp]: "or_empty None = []" "or_empty (Some x) = x"
  by (simp_all add: or_empty_def)

text \<open>The truth of a nullable string.\<close>

definition truthy_str :: "string option \<Rightarrow> bool" where
  "truthy_str s = (case s of None \<Rightarrow> False | Some x \<Rightarrow> x \<noteq> [])"

lemma truthy_str_simps [simp]: "\<not> truthy_str None" "truthy_str (Some x) \<longleftrightarrow> x \<noteq> []"
  by (simp_all add: truthy_str_def)

lemma truthy_str_iff: "truthy_str s \<longleftrightarrow> or_empty s \<noteq> []"
  by (cases s) simp_all

lemma length_rstrip: "length (rstrip s) \<le> length s"
  using length_dropWhile_le [of is_space "rev s"] by (simp add: rstrip_def)

lemma length_strip: "length (strip s) \<le> length s"
proof -
  have "length (strip s) \<le> length (lstrip s)"
    by (simp add: strip_def length_rstrip)
  also have "\<dots> \<le> length s"
    by (simp add: lstrip_def length_dropWhile_le)
  finally show ?thesis .
qed

lemma split_ws_aux_no_space:
  "\<lbrakk> w \<in> set (split_ws_aux acc s); \<forall>c \<in> set acc. \<not> is_space c \<rbrakk>
   \<Longrightarrow> w \<noteq> [] \<and> (\<forall>c \<in> set w. \<not> is_space c)"
proof (induction s arbitrary: acc)
  case Nil
  then show ?case by (simp split: if_splits)
next
  case (Cons c s)
  show ?case
  proof (cases "is_space c")
    case True
    then show ?thesis using Cons.prems Cons.IH [of "[]"] by (cases "acc = []") auto
  next
    case False
    then show ?thesis using Cons.prems Cons.IH [of "c # acc"] by simp
  qed
qed

lemma split_ws_word: "w \<in> set (split_ws s) \<Longrightarrow> w \<noteq> [] \<and> (\<forall>c \<in> set w. \<not> is_space c)"
  unfolding split_ws_def by (rule split_ws_aux_no_space) auto

text \<open>Splitting a joined list of words gives the words back.\<close>

lemma split_ws_aux_word:
  "\<forall>c \<in> set w. \<not> is_space c \<Longrightarrow> split_ws_aux acc (w @ s) = split_ws_aux (rev w @ acc) s"
  by (induction w arbitrary: acc) auto

definition is_word :: "string \<Rightarrow> bool" where
  "is_word w \<longleftrightarrow> w \<noteq> [] \<and> (\<forall>c \<in> set w. \<not> is_space c)"

lemma is_space_blank [simp]: "is_space (CHR '' '')"
  by (simp add: is_space_def)

lemma split_ws_join: "\<forall>w \<in> set ws. is_word w \<Longrightarrow> split_ws (join_with '' '' ws) = ws"
proof (induction ws rule: induct_list012)
  case 1
  then show ?case by (simp add: split_ws_def)
next
  case (2 w)
  then show ?case using split_ws_aux_word [of w "[]" "[]"]
    by (simp add: split_ws_def is_word_def)
next
  case (3 w v ws)
  then have "split_ws_aux [] (w @ '' '' @ join_with '' '' (v # ws)) = w # v # ws"
    by (simp add: split_ws_def is_word_def split_ws_aux_word)
  then show ?case by (simp add: split_ws_def)
qed

lemma is_word_split_ws: "w \<in> set (split_ws s) \<Longrightarrow> is_word w"
  using split_ws_word by (simp add: is_word_def)

section \<open>JSON values and Python dictionaries\<close>

datatype json =
    JNull
  | JBool bool
  | JInt int
  | JStr string
  | JList "json list"
  | JObj "(string \<times> json) list"

type_synonym dict = "(string \<times> json) list"

text \<open>
  A text column that holds JSON is the value \<open>json.loads\<close> reads from it, or
  \<open>Malformed\<close> where \<open>json.loads\<close> raises.
\<close>

datatype json_text = Json json | Malformed

fun truthy :: "json \<Rightarrow> bool" where
  "truthy JNull = False"
| "truthy (JBool b) = b"
| "truthy (JInt n) = (n \<noteq> 0)"
| "truthy (JStr s) = (s \<noteq> [])"
| "truthy (JList xs) = (xs \<noteq> [])"
| "truthy (JObj kvs) = (kvs \<noteq> [])"

definition dget :: "dict \<Rightarrow> string \<Rightarrow> json \<Rightarrow> json" where
  "dget d k dflt = (case map_of d k of None \<Rightarrow> dflt | Some v \<Rightarrow> v)"

definition dhas :: "dict \<Rightarrow> string \<Rightarrow> bool" where
  "dhas d k = (map_of d k \<noteq> None)"

text \<open>\<open>d[k] = v\<close>: an existing key keeps its place, a new one goes last.\<close>

fun dset :: "dict \<Rightarrow> string \<Rightarrow> json \<Rightarrow> dict" where
  "dset [] k v = [(k, v)]"
| "dset ((k', v') # d) k v = (if k' = k then (k, v) # d else (k', v') # dset d k v)"

definition dpop :: "dict \<Rightarrow> string \<Rightarrow> dict" where
  "dpop d k = filter (\<lambda>(k', _). k' \<noteq> k) d"

lemma map_of_dset [simp]: "map_of (dset d k v) = (map_of d)(k \<mapsto> v)"
  by (induction d k v rule: dset.induct) (auto simp: fun_eq_iff)

lemma map_of_dpop [simp]: "map_of (dpop d k) = (map_of d)(k := None)"
  by (induction d) (auto simp: dpop_def fun_eq_iff)

lemma dget_dset [simp]: "dget (dset d k v) k' dflt = (if k' = k then v else dget d k' dflt)"
  by (simp add: dget_def)

lemma dget_dpop [simp]: "dget (dpop d k) k' dflt = (if k' = k then dflt else dget d k' dflt)"
  by (simp add: dget_def)

text \<open>\<open>isinstance(v, str)\<close> and the string it is.\<close>

fun as_str :: "json \<Rightarrow> string option" where
  "as_str (JStr s) = Some s"
| "as_str _ = None"

fun as_obj :: "json \<Rightarrow> dict option" where
  "as_obj (JObj d) = Some d"
| "as_obj _ = None"

fun as_list :: "json \<Rightarrow> json list option" where
  "as_list (JList xs) = Some xs"
| "as_list _ = None"

text \<open>The decimal text \<open>str(n)\<close> of an integer.\<close>

fun digits_of :: "nat \<Rightarrow> string" where
  "digits_of n = (if n < 10 then [char_of (48 + n)] else digits_of (n div 10) @ [char_of (48 + n mod 10)])"

declare digits_of.simps [simp del]

definition str_int :: "int \<Rightarrow> string" where
  "str_int n = (if n < 0 then ''-'' @ digits_of (nat (- n)) else digits_of (nat n))"

text \<open>\<open>str(x or "")\<close> of a value that is a string, an integer or absent.\<close>

fun str_or_empty :: "json \<Rightarrow> string" where
  "str_or_empty (JStr s) = s"
| "str_or_empty (JInt n) = (if n = 0 then [] else str_int n)"
| "str_or_empty (JBool b) = (if b then ''True'' else [])"
| "str_or_empty _ = []"

text \<open>\<open>str(v)\<close> of a value that is a string, a number, a truth value or \<open>None\<close>.\<close>

fun py_str :: "json \<Rightarrow> string" where
  "py_str (JStr s) = s"
| "py_str (JInt n) = str_int n"
| "py_str (JBool b) = (if b then ''True'' else ''False'')"
| "py_str _ = ''None''"

text \<open>\<open>isinstance(v, (str, int))\<close>.\<close>

fun is_str_or_int :: "json \<Rightarrow> bool" where
  "is_str_or_int (JStr _) = True"
| "is_str_or_int (JInt _) = True"
| "is_str_or_int (JBool _) = True"
| "is_str_or_int _ = False"

section \<open>Tables\<close>

text \<open>\<open>select(T).where(P).limit(1)\<close> and \<open>scalar_one_or_none\<close> over a unique key.\<close>

definition first_where :: "('r \<Rightarrow> bool) \<Rightarrow> 'r list \<Rightarrow> 'r option" where
  "first_where P rs = List.find P rs"

definition get_by :: "('r \<Rightarrow> 'k) \<Rightarrow> 'k \<Rightarrow> 'r list \<Rightarrow> 'r option" where
  "get_by key k rs = List.find (\<lambda>r. key r = k) rs"

text \<open>\<open>update(T).where(P).values(f)\<close> and its row count, \<open>delete(T).where(P)\<close>, \<open>add\<close>.\<close>

definition update_where :: "('r \<Rightarrow> bool) \<Rightarrow> ('r \<Rightarrow> 'r) \<Rightarrow> 'r list \<Rightarrow> 'r list" where
  "update_where P f rs = map (\<lambda>r. if P r then f r else r) rs"

definition rowcount :: "('r \<Rightarrow> bool) \<Rightarrow> 'r list \<Rightarrow> nat" where
  "rowcount P rs = length (filter P rs)"

definition delete_where :: "('r \<Rightarrow> bool) \<Rightarrow> 'r list \<Rightarrow> 'r list" where
  "delete_where P rs = filter (\<lambda>r. \<not> P r) rs"

definition add_row :: "'r \<Rightarrow> 'r list \<Rightarrow> 'r list" where
  "add_row r rs = rs @ [r]"

text \<open>\<open>count > 0\<close> and \<open>limit(1)\<close> probes.\<close>

definition exists_where :: "('r \<Rightarrow> bool) \<Rightarrow> 'r list \<Rightarrow> bool" where
  "exists_where P rs = list_ex P rs"

text \<open>A primary key or unique column: no two rows share its value.\<close>

definition unique_key :: "('r \<Rightarrow> 'k) \<Rightarrow> 'r list \<Rightarrow> bool" where
  "unique_key key rs = distinct (map key rs)"

lemma exists_where_iff [table_simps]: "exists_where P rs \<longleftrightarrow> (\<exists>r \<in> set rs. P r)"
  by (simp add: exists_where_def list_ex_iff)

lemma first_where_SomeD: "first_where P rs = Some r \<Longrightarrow> r \<in> set rs \<and> P r"
  by (auto simp: first_where_def find_Some_iff)

lemma first_where_None: "first_where P rs = None \<longleftrightarrow> (\<forall>r \<in> set rs. \<not> P r)"
  by (auto simp: first_where_def find_None_iff)

lemma get_by_SomeD: "get_by key k rs = Some r \<Longrightarrow> r \<in> set rs \<and> key r = k"
  by (auto simp: get_by_def find_Some_iff)

lemma get_by_None: "get_by key k rs = None \<longleftrightarrow> (\<forall>r \<in> set rs. key r \<noteq> k)"
  by (auto simp: get_by_def find_None_iff)

lemma get_by_Nil [simp]: "get_by key k [] = None"
  by (simp add: get_by_def)

lemma get_by_Cons [simp]: "get_by key k (r # rs) = (if key r = k then Some r else get_by key k rs)"
  by (simp add: get_by_def)

lemma set_update_where [table_simps]: "set (update_where P f rs) = (\<lambda>r. if P r then f r else r) ` set rs"
  by (simp add: update_where_def)

lemma set_delete_where [table_simps]: "set (delete_where P rs) = {r \<in> set rs. \<not> P r}"
  by (simp add: delete_where_def)

lemma set_add_row [table_simps]: "set (add_row r rs) = insert r (set rs)"
  by (simp add: add_row_def)

lemma length_update_where [simp]: "length (update_where P f rs) = length rs"
  by (simp add: update_where_def)

lemma update_where_none: "\<forall>r \<in> set rs. \<not> P r \<Longrightarrow> update_where P f rs = rs"
  by (induction rs) (simp_all add: update_where_def)

text \<open>An update whose rows no longer match leaves nothing that matches more.\<close>

lemma exists_where_update_dead:
  "(\<And>r. \<not> P (f r)) \<Longrightarrow> (\<And>r. P r \<Longrightarrow> Q r) \<Longrightarrow> \<not> exists_where P (update_where Q f rs)"
  by (induction rs) (auto simp: exists_where_def update_where_def)

lemma exists_where_update_other:
  "(\<And>r. \<not> P (f r)) \<Longrightarrow> exists_where P (update_where Q f rs) \<Longrightarrow> exists_where P rs"
  by (induction rs) (auto simp: exists_where_def update_where_def split: if_splits)

lemma keys_update_where:
  "(\<And>r. key (f r) = key r) \<Longrightarrow> map key (update_where P f rs) = map key rs"
  by (simp add: update_where_def)

lemma keys_image_update_where:
  "(\<And>r. key (f r) = key r) \<Longrightarrow> key ` set (update_where P f rs) = key ` set rs"
  using keys_update_where [of key f P rs] by (metis list.set_map)

lemma unique_key_update_where [table_simps]:
  "(\<And>r. key (f r) = key r) \<Longrightarrow> unique_key key (update_where P f rs) = unique_key key rs"
  by (simp add: unique_key_def keys_update_where)

lemma distinct_map_filter_key: "distinct (map key rs) \<Longrightarrow> distinct (map key (filter P rs))"
  by (induction rs) auto

lemma unique_key_delete_where: "unique_key key rs \<Longrightarrow> unique_key key (delete_where P rs)"
  by (simp add: unique_key_def delete_where_def distinct_map_filter_key)

lemma unique_key_add_row: "unique_key key (add_row r rs) \<longleftrightarrow> unique_key key rs \<and> key r \<notin> key ` set rs"
  by (auto simp: unique_key_def add_row_def)

lemma unique_keyD: "\<lbrakk> unique_key key rs; r \<in> set rs; r' \<in> set rs; key r = key r' \<rbrakk> \<Longrightarrow> r = r'"
  by (auto simp: unique_key_def distinct_map inj_on_def)

lemma get_by_unique: "\<lbrakk> unique_key key rs; r \<in> set rs \<rbrakk> \<Longrightarrow> get_by key (key r) rs = Some r"
  by (induction rs) (auto simp: unique_key_def)

lemma get_by_iff: "unique_key key rs \<Longrightarrow> get_by key k rs = Some r \<longleftrightarrow> r \<in> set rs \<and> key r = k"
  using get_by_SomeD [of key k rs r] get_by_unique [of key rs r] by blast

lemma get_by_update_where:
  "(\<And>r. key (f r) = key r) \<Longrightarrow>
   get_by key k (update_where P f rs) = map_option (\<lambda>r. if P r then f r else r) (get_by key k rs)"
  by (induction rs) (auto simp: update_where_def)

lemma get_by_add_row:
  "get_by key k (add_row r rs) =
     (case get_by key k rs of Some x \<Rightarrow> Some x | None \<Rightarrow> if key r = k then Some r else None)"
  by (induction rs) (auto simp: add_row_def)

text \<open>
  The row count of an update that names a row by a unique key is 0 or 1, and is 1
  exactly when that row is there and meets the other conditions.
\<close>

lemma rowcount_key:
  assumes "unique_key key rs"
  shows "rowcount (\<lambda>r. key r = k \<and> P r) rs =
     (case get_by key k rs of None \<Rightarrow> 0 | Some r \<Rightarrow> if P r then 1 else 0)"
  using assms
proof (induction rs)
  case Nil
  then show ?case by (simp add: rowcount_def)
next
  case (Cons r rs)
  have "filter (\<lambda>r'. key r' = key r \<and> P r') rs = []"
    using Cons.prems by (auto simp: unique_key_def filter_empty_conv image_iff)
  then show ?case
    using Cons by (auto simp: rowcount_def unique_key_def)
qed

lemma rowcount_key_exists:
  assumes "unique_key key rs"
  shows "rowcount (\<lambda>r. key r = k \<and> P r) rs = (if exists_where (\<lambda>r. key r = k \<and> P r) rs then 1 else 0)"
proof (cases "get_by key k rs")
  case None
  then have "\<forall>r \<in> set rs. key r \<noteq> k" by (simp only: get_by_None)
  then show ?thesis using None rowcount_key [OF assms, of k P] by (simp add: exists_where_iff)
next
  case (Some r)
  then have r: "r \<in> set rs" "key r = k" by (auto dest: get_by_SomeD)
  have "r' = r" if "r' \<in> set rs" "key r' = k" for r'
    using unique_keyD [OF assms that(1) r(1)] that(2) r(2) by simp
  then have "exists_where (\<lambda>r. key r = k \<and> P r) rs \<longleftrightarrow> P r"
    unfolding exists_where_iff using r by blast
  then show ?thesis using Some rowcount_key [OF assms, of k P] by simp
qed

lemma rowcount_zero: "rowcount P rs = 0 \<longleftrightarrow> (\<forall>r \<in> set rs. \<not> P r)"
  by (simp add: rowcount_def filter_empty_conv)

lemma rowcount_one_exists: "rowcount P rs = 1 \<Longrightarrow> \<exists>r \<in> set rs. P r"
  using rowcount_zero [of P rs] by fastforce

lemma rowcount_update_le:
  assumes "\<And>r. Q (f r) \<Longrightarrow> Q r"
  shows "rowcount Q (update_where P f rs) \<le> rowcount Q rs"
proof (induction rs)
  case Nil
  then show ?case by (simp add: rowcount_def update_where_def)
next
  case (Cons r rs)
  then show ?case using assms [of r] by (simp add: rowcount_def update_where_def)
qed

lemma rowcount_update_less:
  assumes "r \<in> set rs" "P r" "Q r" "\<And>r. \<not> Q (f r)"
  shows "rowcount Q (update_where P f rs) < rowcount Q rs"
  using assms(1)
proof (induction rs)
  case Nil
  then show ?case by simp
next
  case (Cons x rs)
  have le: "rowcount Q (update_where P f rs) \<le> rowcount Q rs"
    using assms(4) by (intro rowcount_update_le) blast
  show ?case
  proof (cases "x = r")
    case True
    then show ?thesis using assms le by (simp add: rowcount_def update_where_def)
  next
    case False
    then have "rowcount Q (update_where P f rs) < rowcount Q rs" using Cons by simp
    then show ?thesis using assms(4) [of x] by (simp add: rowcount_def update_where_def)
  qed
qed

lemma rowcount_delete_le: "rowcount Q (delete_where P rs) \<le> rowcount Q rs"
  by (induction rs) (auto simp: rowcount_def delete_where_def)

lemma rowcount_add_row [simp]: "rowcount Q (add_row r rs) = rowcount Q rs + (if Q r then 1 else 0)"
  by (simp add: rowcount_def add_row_def)

text \<open>\<open>order_by(k).limit(1)\<close>: the first row with the least key.\<close>

fun min_by :: "('r \<Rightarrow> 'k::linorder) \<Rightarrow> 'r list \<Rightarrow> 'r option" where
  "min_by k [] = None"
| "min_by k (r # rs) = (case min_by k rs of None \<Rightarrow> Some r | Some m \<Rightarrow> if k r \<le> k m then Some r else Some m)"

lemma min_by_None [simp]: "min_by k rs = None \<longleftrightarrow> rs = []"
  by (cases rs) (auto split: option.splits)

lemma min_by_SomeD: "min_by k rs = Some m \<Longrightarrow> m \<in> set rs \<and> (\<forall>r \<in> set rs. k m \<le> k r)"
proof (induction rs arbitrary: m)
  case Nil
  then show ?case by simp
next
  case (Cons r rs)
  show ?case
  proof (cases "min_by k rs")
    case None
    then show ?thesis using Cons.prems by simp
  next
    case (Some x)
    then have "x \<in> set rs" "\<forall>y \<in> set rs. k x \<le> k y" using Cons.IH by blast+
    then show ?thesis using Cons.prems Some by (auto split: if_splits intro: order_trans)
  qed
qed

end
