(* ===== verification/Models_User.thy ===== *)
theory Models_User
  imports Prelude
begin

text \<open>
  Rows of models/user.py, models/authorization.py and models/audit.py: every table
  the model uses is a record with the columns of its SQLAlchemy class, in the order and
  with the nullability of the class (\<open>Mapped[T | None]\<close> is \<open>T option\<close>). A
  relationship attribute is a join on the key it names and has no field of its own.
\<close>

datatype account_type = Account_Public | Account_Operational

datatype user_role = Role_Admin | Role_Editor | Role_Author | Role_Moderator | Role_Viewer

datatype mfa_type = MFA_Totp | MFA_Hotp | MFA_Plugin

datatype follower_direction = Dir_Inbound | Dir_Outbound

datatype follower_state = Follow_Pending | Follow_Accepted | Follow_Rejected | Follow_Undone

datatype object_relation_name = Relation_Editor | Relation_Comment_Moderator

record user =
  u_id :: string
  u_username :: string
  u_display_name :: string
  u_email :: "string option"
  u_locale :: "string option"
  u_account_type :: account_type
  u_role :: user_role
  u_is_active :: bool
  u_legacy_password_hash :: "string option"
  u_legacy_password_enabled :: bool
  u_require_uv :: bool
  u_require_stepup :: bool
  u_sso_disabled :: bool
  u_federation_opt_out :: bool
  u_comment_trusted :: bool
  u_failed_login_count :: int
  u_locked_until :: "time option"
  u_bio :: "string option"
  u_website :: "string option"
  u_created_at :: time
  u_updated_at :: time

record webauthn_credential =
  wc_id :: string
  wc_user_id :: string
  wc_label :: string
  wc_credential_id :: string
  wc_public_key :: string
  wc_sign_count :: int
  wc_transport :: "string option"
  wc_is_platform :: "bool option"
  wc_uv_capable :: bool
  wc_aaguid :: "string option"
  wc_transports :: "string option"
  wc_authenticator_attachment :: "string option"
  wc_backup_eligible :: "bool option"
  wc_backup_state :: "bool option"
  wc_verification_status :: string
  wc_created_at :: time
  wc_last_used_at :: "time option"

record mfa_device =
  md_id :: string
  md_user_id :: string
  md_device_type :: mfa_type
  md_label :: string
  md_secret_enc :: string
  md_is_active :: bool
  md_verification_status :: string
  md_plugin_id :: "string option"
  md_created_at :: time
  md_last_used_at :: "time option"

record auth_pending =
  ap_id :: string
  ap_user_id :: "string option"
  ap_purpose :: string
  ap_challenge :: "string option"
  ap_label :: "string option"
  ap_username :: "string option"
  ap_display_name :: "string option"
  ap_email :: "string option"
  ap_context :: "json_text option"
  ap_created_at :: time
  ap_expires_at :: time
  ap_consumed_at :: "time option"

record external_identity =
  ei_id :: string
  ei_user_id :: string
  ei_provider_id :: string
  ei_issuer :: string
  ei_subject :: string
  ei_created_at :: time
  ei_last_login_at :: time
  ei_profile :: "string option"

record stepup_grant =
  sg_id :: string
  sg_user_id :: string
  sg_session_id :: string
  sg_action :: string
  sg_target :: string
  sg_auth_method :: string
  sg_assurance_level :: string
  sg_confirming_credential_id :: "string option"
  sg_confirming_mfa_device_id :: "string option"
  sg_created_at :: time
  sg_expires_at :: time
  sg_consumed_at :: "time option"

record actor_keypair =
  ak_id :: string
  ak_user_id :: string
  ak_key_id_url :: string
  ak_public_key_pem :: string
  ak_private_key_enc :: string
  ak_algorithm :: string
  ak_created_at :: time
  ak_rotated_at :: "time option"

record follower =
  fo_id :: string
  fo_local_user_id :: string
  fo_remote_actor_uri :: string
  fo_remote_display_name :: "string option"
  fo_remote_inbox_uri :: "string option"
  fo_direction :: follower_direction
  fo_state :: follower_state
  fo_activity_id :: "string option"
  fo_created_at :: time
  fo_updated_at :: time

record user_session =
  us_id :: string
  us_user_id :: string
  us_created_at :: time
  us_expires_at :: time
  us_last_seen_at :: time
  us_client_ip :: "string option"
  us_user_agent :: "string option"
  us_is_tls :: bool
  us_is_cli :: bool
  us_is_valid :: bool
  us_auth_method :: string
  us_assurance_level :: string

record object_relation =
  orl_id :: string
  orl_subject_user_id :: string
  orl_object_type :: string
  orl_object_id :: string
  orl_relation :: object_relation_name
  orl_created_at :: time
  orl_granted_by_user_id :: "string option"

record audit_event =
  ae_id :: int
  ae_event_type :: string
  ae_actor_id :: "string option"
  ae_actor_name :: "string option"
  ae_target_id :: "string option"
  ae_ip :: "string option"
  ae_user_agent :: "string option"
  ae_outcome :: string
  ae_detail :: "string option"
  ae_created_at :: time

end
