(* ===== verification/Models_Content.thy ===== *)
theory Models_Content
  imports Prelude
begin

text \<open>
  Rows of models/content.py, models/notification.py, models/mail.py and models/settings.py: every table
  the model uses is a record with the columns of its SQLAlchemy class, in the order and
  with the nullability of the class (\<open>Mapped[T | None]\<close> is \<open>T option\<close>). A
  relationship attribute is a join on the key it names and has no field of its own.
\<close>

datatype post_status = Post_Draft | Post_Published | Post_Scheduled | Post_Archived

datatype post_visibility = Visibility_Public | Visibility_Hidden | Visibility_Private

datatype author_role = Authorship_Primary | Authorship_Coauthor

datatype comment_status = Comment_Pending_Confirmation | Comment_Pending_Moderation | Comment_Approved | Comment_Rejected | Comment_Spam | Comment_Deleted

datatype revision_status = Revision_Pending | Revision_Approved | Revision_Rejected

datatype mail_status = Mail_Pending | Mail_Leased | Mail_Retry | Mail_Sent | Mail_Dead | Mail_Cancelled

record post =
  po_id :: string
  po_short_id :: string
  po_author_id :: string
  po_slug :: string
  po_slug_old :: "string option"
  po_title :: string
  po_body_md :: string
  po_body_html :: string
  po_body_json :: "json option"
  po_excerpt :: "string option"
  po_status :: post_status
  po_visibility :: post_visibility
  po_lang :: "string option"
  po_ap_object_id :: "string option"
  po_captcha_type :: "string option"
  po_comments_enabled :: "bool option"
  po_guest_confirmation_required :: "bool option"
  po_comment_moderation_mode :: "string option"
  po_is_pinned :: bool
  po_is_featured :: bool
  po_noindex :: bool
  po_reading_time_min :: int
  po_published_at :: "time option"
  po_created_at :: time
  po_updated_at :: time

record post_author =
  pa_id :: string
  pa_post_id :: string
  pa_user_id :: string
  pa_role :: author_role
  pa_position :: int
  pa_created_at :: time
  pa_added_by_user_id :: "string option"

record comment =
  co_id :: string
  co_post_id :: string
  co_author_user_id :: "string option"
  co_remote_actor_id :: "string option"
  co_remote_object_uri :: "string option"
  co_federation_inbox_activity_id :: "string option"
  co_author_name :: string
  co_author_email :: "string option"
  co_author_url :: "string option"
  co_body :: string
  co_status :: comment_status
  co_confirmation_token_hash :: "string option"
  co_confirmation_expires_at :: "time option"
  co_confirmation_sent_at :: "time option"
  co_confirmed_at :: "time option"
  co_approved_at :: "time option"
  co_published_at :: "time option"
  co_edited_at :: "time option"
  co_parent_id :: "string option"
  co_quote_of_id :: "string option"
  co_mod_note :: "string option"
  co_ip_address :: "string option"
  co_user_agent :: "string option"
  co_country_code :: "string option"
  co_rdap_json :: "string option"
  co_created_at :: time

record comment_revision =
  cr_id :: string
  cr_comment_id :: string
  cr_editor_user_id :: "string option"
  cr_revision_number :: int
  cr_previous_body :: string
  cr_body :: string
  cr_status :: revision_status
  cr_pending_key :: "string option"
  cr_is_author_edit :: bool
  cr_created_at :: time

record comment_vote =
  cv_id :: string
  cv_user_id :: string
  cv_comment_id :: string
  cv_value :: int
  cv_created_at :: time
  cv_updated_at :: time

record moderation_decision =
  mo_id :: string
  mo_target_type :: string
  mo_target_id :: string
  mo_actor_user_id :: "string option"
  mo_outcome :: string
  mo_reason_code :: string
  mo_human_reason :: "string option"
  mo_rule_reference :: "string option"
  mo_restriction_type :: string
  mo_decision_source :: string
  mo_created_at :: time
  mo_supersedes_decision_id :: "string option"

record moderation_appeal =
  ma_id :: string
  ma_decision_id :: string
  ma_appellant_user_id :: "string option"
  ma_statement :: string
  ma_created_at :: time
  ma_state :: string
  ma_reviewer_user_id :: "string option"
  ma_reviewed_at :: "time option"
  ma_outcome :: "string option"
  ma_reviewer_reason :: "string option"
  ma_replacement_decision_id :: "string option"
  ma_self_review_exception :: bool

record post_access_token =
  pt_id :: string
  pt_post_id :: string
  pt_label :: string
  pt_token_hash :: string
  pt_max_uses :: "int option"
  pt_use_count :: int
  pt_expires_at :: "time option"
  pt_created_at :: time

record notification_event =
  ne_id :: string
  ne_user_id :: string
  ne_notification_type :: string
  ne_payload :: dict
  ne_target_path :: "string option"
  ne_importance :: string
  ne_dedupe_key :: "string option"
  ne_source_type :: "string option"
  ne_source_id :: "string option"
  ne_read_at :: "time option"
  ne_archived_at :: "time option"
  ne_created_at :: time

record channel_preference =
  cp_user_id :: string
  cp_live_wss_enabled :: bool
  cp_web_push_enabled :: bool
  cp_updated_at :: time

record type_preference =
  tp_id :: string
  tp_user_id :: string
  tp_notification_type :: string
  tp_enabled :: bool
  tp_live_wss_enabled :: bool
  tp_web_push_enabled :: bool
  tp_email_enabled :: bool
  tp_updated_at :: time

record ws_ticket =
  wt_token_hash :: string
  wt_user_id :: string
  wt_session_id :: string
  wt_purpose :: string
  wt_expected_origin :: string
  wt_expires_at :: time
  wt_consumed_at :: "time option"

record push_subscription =
  ps_id :: string
  ps_user_id :: string
  ps_endpoint :: string
  ps_endpoint_hash :: string
  ps_p256dh :: string
  ps_auth_secret :: string
  ps_created_at :: time
  ps_last_success_at :: "time option"
  ps_failure_count :: int
  ps_disabled_at :: "time option"

record push_delivery =
  pd_id :: string
  pd_notification_id :: string
  pd_subscription_id :: string
  pd_status :: string
  pd_attempts :: int
  pd_max_attempts :: int
  pd_next_attempt_at :: "time option"
  pd_lease_owner :: "string option"
  pd_lease_until :: "time option"
  pd_last_error :: "string option"
  pd_created_at :: time
  pd_updated_at :: time

record mail_item =
  mq_id :: string
  mq_idempotency_key :: string
  mq_recipient :: string
  mq_recipient_kind :: string
  mq_visible_to :: "string list"
  mq_visible_cc :: "string list"
  mq_subject :: string
  mq_body_text :: string
  mq_body_html :: "string option"
  mq_headers :: "(string \<times> string) list"
  mq_profile_id :: string
  mq_message_type :: "string option"
  mq_template_id :: "string option"
  mq_template_locale :: "string option"
  mq_template_revision :: "string option"
  mq_message_id :: string
  mq_envelope_sender :: "string option"
  mq_pgp_encrypted :: bool
  mq_status :: mail_status
  mq_priority :: int
  mq_attempts :: int
  mq_max_attempts :: int
  mq_next_attempt_at :: "time option"
  mq_lease_owner :: "string option"
  mq_lease_until :: "time option"
  mq_last_error :: "string option"
  mq_dsn_status :: "string option"
  mq_dsn_enhanced_code :: "string option"
  mq_dsn_envid :: "string option"
  mq_verp_token :: "string option"
  mq_created_at :: time
  mq_updated_at :: time
  mq_sent_at :: "time option"

record site_setting =
  ss_key :: string
  ss_value :: json_text
  ss_updated_at :: time
  ss_updated_by :: "string option"

end
