(* ===== verification/Models_Federation.thy ===== *)
theory Models_Federation
  imports Prelude
begin

text \<open>
  Rows of models/federation.py and models/oidc.py: every table
  the model uses is a record with the columns of its SQLAlchemy class, in the order and
  with the nullability of the class (\<open>Mapped[T | None]\<close> is \<open>T option\<close>). A
  relationship attribute is a join on the key it names and has no field of its own.
\<close>

record instance_identity =
  ii_id :: int
  ii_canonical_origin :: string
  ii_created_at :: time

record local_actor =
  la_id :: string
  la_user_id :: string
  la_actor_uri :: string
  la_preferred_username :: string
  la_enabled :: bool
  la_current_keypair_id :: "string option"
  la_created_at :: time
  la_updated_at :: time

record key_history =
  kh_id :: string
  kh_actor_id :: string
  kh_key_id :: string
  kh_public_key_pem :: string
  kh_fingerprint_sha256 :: string
  kh_created_at :: time
  kh_retired_at :: time

record remote_actor =
  ra_id :: string
  ra_actor_uri :: string
  ra_domain :: string
  ra_actor_type :: string
  ra_preferred_username :: "string option"
  ra_display_name :: "string option"
  ra_summary_text :: "string option"
  ra_inbox_uri :: string
  ra_shared_inbox_uri :: "string option"
  ra_fetched_at :: time
  ra_expires_at :: time
  ra_etag :: "string option"
  ra_modified :: "string option"
  ra_health_state :: string
  ra_last_error :: "string option"

record remote_key =
  rk_id :: string
  rk_remote_actor_id :: string
  rk_key_id :: string
  rk_owner_uri :: string
  rk_public_key_pem :: string
  rk_fetched_at :: time
  rk_expires_at :: time

record signature_failures =
  sf_id :: int
  sf_date_bucket :: int
  sf_category :: string
  sf_failure_count :: int

record inbox_activity =
  ia_id :: string
  ia_activity_uri :: string
  ia_activity_type :: string
  ia_actor_uri :: string
  ia_target_actor_id :: "string option"
  ia_source_domain :: string
  ia_body_sha256 :: string
  ia_payload_json :: json_text
  ia_processing_state :: string
  ia_attempt_count :: int
  ia_last_error :: "string option"
  ia_lease_owner :: "string option"
  ia_lease_until :: "time option"
  ia_received_at :: time
  ia_processed_at :: "time option"

record outbox_activity =
  oa_id :: string
  oa_activity_uri :: string
  oa_actor_uri :: string
  oa_activity_type :: string
  oa_object_uri :: string
  oa_payload_json :: json_text
  oa_source_type :: string
  oa_source_id :: string
  oa_source_revision :: string
  oa_audience_public :: bool
  oa_created_at :: time

record delivery =
  dl_id :: string
  dl_activity_id :: string
  dl_target_inbox :: string
  dl_domain :: string
  dl_status :: string
  dl_attempts :: int
  dl_max_attempts :: int
  dl_next_attempt_at :: time
  dl_lease_owner :: "string option"
  dl_lease_until :: "time option"
  dl_response_status :: "int option"
  dl_last_error :: "string option"
  dl_delivered_at :: "time option"
  dl_created_at :: time
  dl_updated_at :: time

record domain_rule =
  dr_id :: string
  dr_domain :: string
  dr_rule :: string
  dr_include_subdomains :: bool
  dr_note :: "string option"
  dr_created_at :: time
  dr_created_by :: "string option"

record oidc_provider =
  op_id :: string
  op_name :: string
  op_issuer :: string
  op_discovery_url :: "string option"
  op_client_id :: string
  op_client_secret_enc :: "string option"
  op_scopes :: string
  op_enabled :: bool
  op_auto_create :: bool
  op_discovery_status :: string
  op_jwks_status :: string
  op_last_check_at :: "time option"
  op_last_success_at :: "time option"
  op_last_error_class :: "string option"
  op_created_at :: time
  op_updated_at :: time

record oidc_server =
  os_id :: int
  os_issuer :: string
  os_enabled :: bool
  os_updated_at :: time

record oauth_client =
  oc_client_id :: string
  oc_name :: string
  oc_client_type :: string
  oc_secret_hash :: "string option"
  oc_redirect_uris :: string
  oc_allowed_scopes :: string
  oc_enabled :: bool
  oc_created_at :: time
  oc_updated_at :: time

record oauth_grant =
  og_id :: string
  og_user_id :: string
  og_client_id :: string
  og_scopes :: string
  og_granted_at :: time
  og_revoked_at :: "time option"

record oauth_code =
  od_id :: string
  od_code_hash :: string
  od_client_id :: string
  od_grant_id :: string
  od_user_id :: string
  od_redirect_uri :: string
  od_scopes :: string
  od_code_challenge :: string
  od_nonce :: "string option"
  od_expires_at :: time
  od_consumed_at :: "time option"

record token_family =
  tf_id :: string
  tf_grant_id :: string
  tf_client_id :: string
  tf_user_id :: string
  tf_revoked_at :: "time option"
  tf_created_at :: time
  tf_expires_at :: time

record oauth_token =
  ot_id :: string
  ot_token_hash :: string
  ot_token_type :: string
  ot_family_id :: string
  ot_scopes :: string
  ot_expires_at :: time
  ot_consumed_at :: "time option"
  ot_revoked_at :: "time option"
  ot_created_at :: time

record oidc_subject =
  oj_id :: string
  oj_user_id :: string
  oj_subject :: string
  oj_created_at :: time

record signing_key =
  sk_kid :: string
  sk_private_key_enc :: string
  sk_public_key_pem :: string
  sk_created_at :: time
  sk_retire_after :: "time option"
  sk_is_current :: bool

end
