(* ===== verification/Database.thy ===== *)
theory Database
  imports Models_User Models_Content Models_Federation
begin

text \<open>
  The state every component works on: one field per table, the audit log file that
  \<open>core/audit.py\<close> always writes, and the configuration the operations read. An
  operation of the program is a function from the database to its result and the
  database it leaves; \<open>write_audit_event\<close> is the first of them, since every other
  component calls it.
\<close>

section \<open>Configuration\<close>

text \<open>The settings the modelled operations read (\<open>core/config.py\<close>).\<close>

record config =
  cfg_stepup_ttl :: int
  cfg_admin_session_ttl :: int
  cfg_legacy_password_enabled :: bool
  cfg_require_uv :: bool
  cfg_db_audit_log :: bool
  cfg_base_url :: string
  cfg_default_lang :: string

text \<open>A configuration for the concrete runs of the theories.\<close>

definition demo_config :: config where
  "demo_config = \<lparr>cfg_stepup_ttl = 900, cfg_admin_session_ttl = 3600,
     cfg_legacy_password_enabled = False, cfg_require_uv = True, cfg_db_audit_log = True,
     cfg_base_url = ''https://a.test'', cfg_default_lang = ''de''\<rparr>"

section \<open>The database\<close>

record db =
  users :: "user list"
  webauthn_credentials :: "webauthn_credential list"
  mfa_devices :: "mfa_device list"
  auth_pendings :: "auth_pending list"
  external_identities :: "external_identity list"
  stepup_grants :: "stepup_grant list"
  actor_keypairs :: "actor_keypair list"
  followers :: "follower list"
  user_sessions :: "user_session list"
  object_relations :: "object_relation list"
  posts :: "post list"
  post_authors :: "post_author list"
  comments :: "comment list"
  comment_revisions :: "comment_revision list"
  comment_votes :: "comment_vote list"
  moderation_decisions :: "moderation_decision list"
  moderation_appeals :: "moderation_appeal list"
  notification_events :: "notification_event list"
  channel_preferences :: "channel_preference list"
  type_preferences :: "type_preference list"
  ws_tickets :: "ws_ticket list"
  push_subscriptions :: "push_subscription list"
  push_deliveries :: "push_delivery list"
  mail_queue :: "mail_item list"
  site_settings :: "site_setting list"
  instance_identities :: "instance_identity list"
  local_actors :: "local_actor list"
  key_histories :: "key_history list"
  remote_actors :: "remote_actor list"
  remote_keys :: "remote_key list"
  signature_failures_daily :: "signature_failures list"
  inbox_activities :: "inbox_activity list"
  outbox_activities :: "outbox_activity list"
  deliveries :: "delivery list"
  domain_rules :: "domain_rule list"
  oidc_providers :: "oidc_provider list"
  oidc_servers :: "oidc_server list"
  oauth_clients :: "oauth_client list"
  oauth_grants :: "oauth_grant list"
  oauth_codes :: "oauth_code list"
  token_families :: "token_family list"
  oauth_tokens :: "oauth_token list"
  oidc_subjects :: "oidc_subject list"
  signing_keys :: "signing_key list"
  audit_events :: "audit_event list"
  audit_log :: "audit_event list"

definition empty_db :: db where
  "empty_db = \<lparr>users = [], webauthn_credentials = [], mfa_devices = [], auth_pendings = [],
     external_identities = [], stepup_grants = [], actor_keypairs = [], followers = [],
     user_sessions = [], object_relations = [], posts = [], post_authors = [], comments = [],
     comment_revisions = [], comment_votes = [], moderation_decisions = [],
     moderation_appeals = [], notification_events = [], channel_preferences = [],
     type_preferences = [], ws_tickets = [], push_subscriptions = [], push_deliveries = [],
     mail_queue = [], site_settings = [], instance_identities = [], local_actors = [],
     key_histories = [], remote_actors = [], remote_keys = [], signature_failures_daily = [],
     inbox_activities = [], outbox_activities = [], deliveries = [], domain_rules = [],
     oidc_providers = [], oidc_servers = [], oauth_clients = [], oauth_grants = [],
     oauth_codes = [], token_families = [], oauth_tokens = [], oidc_subjects = [],
     signing_keys = [], audit_events = [], audit_log = []\<rparr>"

lemma empty_tables [simp]:
  "users empty_db = []"
  "webauthn_credentials empty_db = []"
  "mfa_devices empty_db = []"
  "auth_pendings empty_db = []"
  "external_identities empty_db = []"
  "stepup_grants empty_db = []"
  "actor_keypairs empty_db = []"
  "followers empty_db = []"
  "user_sessions empty_db = []"
  "object_relations empty_db = []"
  "posts empty_db = []"
  "post_authors empty_db = []"
  "comments empty_db = []"
  "comment_revisions empty_db = []"
  "comment_votes empty_db = []"
  "moderation_decisions empty_db = []"
  "moderation_appeals empty_db = []"
  "notification_events empty_db = []"
  "channel_preferences empty_db = []"
  "type_preferences empty_db = []"
  "ws_tickets empty_db = []"
  "push_subscriptions empty_db = []"
  "push_deliveries empty_db = []"
  "mail_queue empty_db = []"
  "site_settings empty_db = []"
  "instance_identities empty_db = []"
  "local_actors empty_db = []"
  "key_histories empty_db = []"
  "remote_actors empty_db = []"
  "remote_keys empty_db = []"
  "signature_failures_daily empty_db = []"
  "inbox_activities empty_db = []"
  "outbox_activities empty_db = []"
  "deliveries empty_db = []"
  "domain_rules empty_db = []"
  "oidc_providers empty_db = []"
  "oidc_servers empty_db = []"
  "oauth_clients empty_db = []"
  "oauth_grants empty_db = []"
  "oauth_codes empty_db = []"
  "token_families empty_db = []"
  "oauth_tokens empty_db = []"
  "oidc_subjects empty_db = []"
  "signing_keys empty_db = []"
  "audit_events empty_db = []"
  "audit_log empty_db = []"
  by (simp_all add: empty_db_def)

section \<open>The audit log\<close>

text \<open>
  One event goes to the log file always, and to the table \<open>audit_events\<close> only with an
  open session and \<open>db_audit_log\<close> set. The user agent is cut to 512 characters in the
  row. The file entry is kept here with the columns of a row.
\<close>

definition write_audit_event ::
  "config \<Rightarrow> time \<Rightarrow> string \<Rightarrow> string \<Rightarrow> string option \<Rightarrow> string option \<Rightarrow> string option
   \<Rightarrow> string option \<Rightarrow> string option \<Rightarrow> string option \<Rightarrow> bool \<Rightarrow> db \<Rightarrow> db" where
  "write_audit_event cfg now event_type outcome ip actor_id actor_name target_id user_agent
     detail has_session db =
   (let entry = \<lparr>ae_id = int (length (audit_log db)), ae_event_type = event_type,
          ae_actor_id = actor_id, ae_actor_name = actor_name, ae_target_id = target_id,
          ae_ip = ip, ae_user_agent = or_none (take 512 (or_empty user_agent)),
          ae_outcome = outcome, ae_detail = detail, ae_created_at = now\<rparr>;
        logged = db\<lparr>audit_log := add_row entry (audit_log db)\<rparr>
    in if \<not> has_session then logged
       else if \<not> cfg_db_audit_log cfg then logged
       else logged\<lparr>audit_events := add_row entry (audit_events db)\<rparr>)"

text \<open>The call most components make: actor, target and detail, in the caller's session.\<close>

definition audit ::
  "config \<Rightarrow> time \<Rightarrow> string \<Rightarrow> string \<Rightarrow> string option \<Rightarrow> string option \<Rightarrow> string \<Rightarrow> db \<Rightarrow> db" where
  "audit cfg now event_type outcome actor_id target_id detail db =
     write_audit_event cfg now event_type outcome None actor_id None target_id None
       (or_none detail) True db"

text \<open>An audit call leaves every table of the program as it was.\<close>

lemma write_audit_frame [simp]:
  "users (write_audit_event cfg now et oc ip ai an ti ua dt ses db) = users db"
  "webauthn_credentials (write_audit_event cfg now et oc ip ai an ti ua dt ses db) = webauthn_credentials db"
  "mfa_devices (write_audit_event cfg now et oc ip ai an ti ua dt ses db) = mfa_devices db"
  "auth_pendings (write_audit_event cfg now et oc ip ai an ti ua dt ses db) = auth_pendings db"
  "external_identities (write_audit_event cfg now et oc ip ai an ti ua dt ses db) = external_identities db"
  "stepup_grants (write_audit_event cfg now et oc ip ai an ti ua dt ses db) = stepup_grants db"
  "actor_keypairs (write_audit_event cfg now et oc ip ai an ti ua dt ses db) = actor_keypairs db"
  "followers (write_audit_event cfg now et oc ip ai an ti ua dt ses db) = followers db"
  "user_sessions (write_audit_event cfg now et oc ip ai an ti ua dt ses db) = user_sessions db"
  "object_relations (write_audit_event cfg now et oc ip ai an ti ua dt ses db) = object_relations db"
  "posts (write_audit_event cfg now et oc ip ai an ti ua dt ses db) = posts db"
  "post_authors (write_audit_event cfg now et oc ip ai an ti ua dt ses db) = post_authors db"
  "comments (write_audit_event cfg now et oc ip ai an ti ua dt ses db) = comments db"
  "comment_revisions (write_audit_event cfg now et oc ip ai an ti ua dt ses db) = comment_revisions db"
  "comment_votes (write_audit_event cfg now et oc ip ai an ti ua dt ses db) = comment_votes db"
  "moderation_decisions (write_audit_event cfg now et oc ip ai an ti ua dt ses db) = moderation_decisions db"
  "moderation_appeals (write_audit_event cfg now et oc ip ai an ti ua dt ses db) = moderation_appeals db"
  "notification_events (write_audit_event cfg now et oc ip ai an ti ua dt ses db) = notification_events db"
  "channel_preferences (write_audit_event cfg now et oc ip ai an ti ua dt ses db) = channel_preferences db"
  "type_preferences (write_audit_event cfg now et oc ip ai an ti ua dt ses db) = type_preferences db"
  "ws_tickets (write_audit_event cfg now et oc ip ai an ti ua dt ses db) = ws_tickets db"
  "push_subscriptions (write_audit_event cfg now et oc ip ai an ti ua dt ses db) = push_subscriptions db"
  "push_deliveries (write_audit_event cfg now et oc ip ai an ti ua dt ses db) = push_deliveries db"
  "mail_queue (write_audit_event cfg now et oc ip ai an ti ua dt ses db) = mail_queue db"
  "site_settings (write_audit_event cfg now et oc ip ai an ti ua dt ses db) = site_settings db"
  "instance_identities (write_audit_event cfg now et oc ip ai an ti ua dt ses db) = instance_identities db"
  "local_actors (write_audit_event cfg now et oc ip ai an ti ua dt ses db) = local_actors db"
  "key_histories (write_audit_event cfg now et oc ip ai an ti ua dt ses db) = key_histories db"
  "remote_actors (write_audit_event cfg now et oc ip ai an ti ua dt ses db) = remote_actors db"
  "remote_keys (write_audit_event cfg now et oc ip ai an ti ua dt ses db) = remote_keys db"
  "signature_failures_daily (write_audit_event cfg now et oc ip ai an ti ua dt ses db) = signature_failures_daily db"
  "inbox_activities (write_audit_event cfg now et oc ip ai an ti ua dt ses db) = inbox_activities db"
  "outbox_activities (write_audit_event cfg now et oc ip ai an ti ua dt ses db) = outbox_activities db"
  "deliveries (write_audit_event cfg now et oc ip ai an ti ua dt ses db) = deliveries db"
  "domain_rules (write_audit_event cfg now et oc ip ai an ti ua dt ses db) = domain_rules db"
  "oidc_providers (write_audit_event cfg now et oc ip ai an ti ua dt ses db) = oidc_providers db"
  "oidc_servers (write_audit_event cfg now et oc ip ai an ti ua dt ses db) = oidc_servers db"
  "oauth_clients (write_audit_event cfg now et oc ip ai an ti ua dt ses db) = oauth_clients db"
  "oauth_grants (write_audit_event cfg now et oc ip ai an ti ua dt ses db) = oauth_grants db"
  "oauth_codes (write_audit_event cfg now et oc ip ai an ti ua dt ses db) = oauth_codes db"
  "token_families (write_audit_event cfg now et oc ip ai an ti ua dt ses db) = token_families db"
  "oauth_tokens (write_audit_event cfg now et oc ip ai an ti ua dt ses db) = oauth_tokens db"
  "oidc_subjects (write_audit_event cfg now et oc ip ai an ti ua dt ses db) = oidc_subjects db"
  "signing_keys (write_audit_event cfg now et oc ip ai an ti ua dt ses db) = signing_keys db"
  by (simp_all add: write_audit_event_def Let_def)

lemma audit_frame [simp]:
  "users (audit cfg now et oc ai ti dt db) = users db"
  "webauthn_credentials (audit cfg now et oc ai ti dt db) = webauthn_credentials db"
  "mfa_devices (audit cfg now et oc ai ti dt db) = mfa_devices db"
  "auth_pendings (audit cfg now et oc ai ti dt db) = auth_pendings db"
  "external_identities (audit cfg now et oc ai ti dt db) = external_identities db"
  "stepup_grants (audit cfg now et oc ai ti dt db) = stepup_grants db"
  "actor_keypairs (audit cfg now et oc ai ti dt db) = actor_keypairs db"
  "followers (audit cfg now et oc ai ti dt db) = followers db"
  "user_sessions (audit cfg now et oc ai ti dt db) = user_sessions db"
  "object_relations (audit cfg now et oc ai ti dt db) = object_relations db"
  "posts (audit cfg now et oc ai ti dt db) = posts db"
  "post_authors (audit cfg now et oc ai ti dt db) = post_authors db"
  "comments (audit cfg now et oc ai ti dt db) = comments db"
  "comment_revisions (audit cfg now et oc ai ti dt db) = comment_revisions db"
  "comment_votes (audit cfg now et oc ai ti dt db) = comment_votes db"
  "moderation_decisions (audit cfg now et oc ai ti dt db) = moderation_decisions db"
  "moderation_appeals (audit cfg now et oc ai ti dt db) = moderation_appeals db"
  "notification_events (audit cfg now et oc ai ti dt db) = notification_events db"
  "channel_preferences (audit cfg now et oc ai ti dt db) = channel_preferences db"
  "type_preferences (audit cfg now et oc ai ti dt db) = type_preferences db"
  "ws_tickets (audit cfg now et oc ai ti dt db) = ws_tickets db"
  "push_subscriptions (audit cfg now et oc ai ti dt db) = push_subscriptions db"
  "push_deliveries (audit cfg now et oc ai ti dt db) = push_deliveries db"
  "mail_queue (audit cfg now et oc ai ti dt db) = mail_queue db"
  "site_settings (audit cfg now et oc ai ti dt db) = site_settings db"
  "instance_identities (audit cfg now et oc ai ti dt db) = instance_identities db"
  "local_actors (audit cfg now et oc ai ti dt db) = local_actors db"
  "key_histories (audit cfg now et oc ai ti dt db) = key_histories db"
  "remote_actors (audit cfg now et oc ai ti dt db) = remote_actors db"
  "remote_keys (audit cfg now et oc ai ti dt db) = remote_keys db"
  "signature_failures_daily (audit cfg now et oc ai ti dt db) = signature_failures_daily db"
  "inbox_activities (audit cfg now et oc ai ti dt db) = inbox_activities db"
  "outbox_activities (audit cfg now et oc ai ti dt db) = outbox_activities db"
  "deliveries (audit cfg now et oc ai ti dt db) = deliveries db"
  "domain_rules (audit cfg now et oc ai ti dt db) = domain_rules db"
  "oidc_providers (audit cfg now et oc ai ti dt db) = oidc_providers db"
  "oidc_servers (audit cfg now et oc ai ti dt db) = oidc_servers db"
  "oauth_clients (audit cfg now et oc ai ti dt db) = oauth_clients db"
  "oauth_grants (audit cfg now et oc ai ti dt db) = oauth_grants db"
  "oauth_codes (audit cfg now et oc ai ti dt db) = oauth_codes db"
  "token_families (audit cfg now et oc ai ti dt db) = token_families db"
  "oauth_tokens (audit cfg now et oc ai ti dt db) = oauth_tokens db"
  "oidc_subjects (audit cfg now et oc ai ti dt db) = oidc_subjects db"
  "signing_keys (audit cfg now et oc ai ti dt db) = signing_keys db"
  by (simp_all add: audit_def)

lemma audit_appends: "prefix (audit_log db) (audit_log (audit cfg now et oc ai ti dt db))"
  by (simp add: audit_def write_audit_event_def Let_def add_row_def)

end
