(* ===== verification/Contracts.thy ===== *)
theory Contracts
  imports Prelude
begin

text \<open>
  The interfaces several components share. \<open>one_shot\<close> is the contract of every
  conditional update that consumes a token, ticket, grant or ceremony; \<open>lease_queue\<close> the
  contract of the three durable queues (mail outbox, federation inbox, federation
  deliveries); \<open>grant_store\<close> the contract of the plugin state and capability stores. The
  components interpret them on their own operations.
\<close>

section \<open>One-shot consumption\<close>

text \<open>Attempts on a store of one-shot items, one after the other, and whether each succeeded.\<close>

fun attempts :: "('k \<Rightarrow> time \<Rightarrow> 'db \<Rightarrow> bool \<times> 'db) \<Rightarrow> ('k \<times> time) list \<Rightarrow> 'db \<Rightarrow> bool list" where
  "attempts consume [] db = []"
| "attempts consume ((k, t) # ats) db =
     (let (ok, db') = consume k t db in ok # attempts consume ats db')"

fun attempts_db :: "('k \<Rightarrow> time \<Rightarrow> 'db \<Rightarrow> bool \<times> 'db) \<Rightarrow> ('k \<times> time) list \<Rightarrow> 'db \<Rightarrow> 'db" where
  "attempts_db consume [] db = db"
| "attempts_db consume ((k, t) # ats) db = attempts_db consume ats (snd (consume k t db))"

text \<open>The successful attempts on the item \<open>i\<close>.\<close>

definition wins :: "('k \<Rightarrow> 'i) \<Rightarrow> 'i \<Rightarrow> ('k \<times> time) list \<Rightarrow> bool list \<Rightarrow> nat" where
  "wins item i ats oks = length (filter (\<lambda>((k, _), ok). item k = i \<and> ok) (zip ats oks))"

lemma length_attempts [simp]: "length (attempts consume ats db) = length ats"
  by (induction ats arbitrary: db) (auto split: prod.splits)

lemma wins_Nil [simp]: "wins item i [] oks = 0"
  by (simp add: wins_def)

lemma wins_Cons [simp]:
  "wins item i ((k, t) # ats) (ok # oks) = (if item k = i \<and> ok then 1 else 0) + wins item i ats oks"
  by (simp add: wins_def)

text \<open>
  A request \<open>k\<close> names the item \<open>item k\<close>. A request that succeeds leaves no request on the
  same item able to succeed, whatever the clock then says, and no request makes another
  item able to succeed that was not.
\<close>

locale one_shot =
  fixes consume :: "'k \<Rightarrow> time \<Rightarrow> 'db \<Rightarrow> bool \<times> 'db"
    and live :: "'k \<Rightarrow> time \<Rightarrow> 'db \<Rightarrow> bool"
    and item :: "'k \<Rightarrow> 'i"
    and inv :: "'db \<Rightarrow> bool"
  assumes consume_iff_live: "inv db \<Longrightarrow> fst (consume k t db) \<longleftrightarrow> live k t db"
    and consume_inv: "inv db \<Longrightarrow> inv (snd (consume k t db))"
    and consumed_dead: "\<lbrakk> inv db; fst (consume k t db); item k' = item k \<rbrakk>
          \<Longrightarrow> \<not> live k' t' (snd (consume k t db))"
    and never_revived: "\<lbrakk> inv db; live k' t' (snd (consume k t db)) \<rbrakk> \<Longrightarrow> live k' t' db"
begin

lemma dead_stays_dead:
  assumes "inv db" and "\<And>k t. item k = i \<Longrightarrow> \<not> live k t db"
  shows "wins item i ats (attempts consume ats db) = 0"
  using assms
proof (induction ats arbitrary: db)
  case Nil
  then show ?case by simp
next
  case (Cons a ats)
  obtain k t where a: "a = (k, t)" by force
  let ?db' = "snd (consume k t db)"
  have "wins item i ats (attempts consume ats ?db') = 0"
    using Cons.prems by (intro Cons.IH) (auto simp: consume_inv dest: never_revived)
  moreover have "\<not> (item k = i \<and> fst (consume k t db))"
    using Cons.prems consume_iff_live by blast
  ultimately show ?case by (simp add: a case_prod_beta Let_def)
qed

lemma consumed_at_most_once:
  assumes "inv db"
  shows "wins item i ats (attempts consume ats db) \<le> 1"
  using assms
proof (induction ats arbitrary: db)
  case Nil
  then show ?case by simp
next
  case (Cons a ats)
  obtain k t where a: "a = (k, t)" by force
  let ?db' = "snd (consume k t db)"
  have inv': "inv ?db'" using Cons.prems by (rule consume_inv)
  show ?case
  proof (cases "item k = i \<and> fst (consume k t db)")
    case True
    then have "wins item i ats (attempts consume ats ?db') = 0"
      using Cons.prems inv' by (intro dead_stays_dead) (auto dest: consumed_dead)
    then show ?thesis using True by (simp add: a case_prod_beta Let_def)
  next
    case False
    then show ?thesis using Cons.IH [OF inv'] by (auto simp: a case_prod_beta Let_def)
  qed
qed

lemma attempts_inv: "inv db \<Longrightarrow> inv (attempts_db consume ats db)"
  by (induction ats arbitrary: db) (auto simp: consume_inv)

end

section \<open>Leases on a queue\<close>

text \<open>The claims of several workers, one after the other, with the job each got.\<close>

fun claims :: "('w \<Rightarrow> time \<Rightarrow> 'db \<Rightarrow> string option \<times> 'db) \<Rightarrow> ('w \<times> time) list \<Rightarrow> 'db
    \<Rightarrow> (time \<times> string option) list" where
  "claims claim [] db = []"
| "claims claim ((w, t) # ws) db = (let (j, db') = claim w t db in (t, j) # claims claim ws db')"

text \<open>
  \<open>holder db j\<close> is the worker that holds the job \<open>j\<close> and the end of its lease. A claim
  takes a job no worker holds a running lease on, holds it for the length of the lease,
  and leaves the running leases of the other jobs alone.
\<close>

locale lease_queue =
  fixes claim :: "'w \<Rightarrow> time \<Rightarrow> 'db \<Rightarrow> string option \<times> 'db"
    and holder :: "'db \<Rightarrow> string \<Rightarrow> ('w \<times> time) option"
    and lease :: time
    and inv :: "'db \<Rightarrow> bool"
  assumes lease_pos: "0 < lease"
    and claim_inv: "inv db \<Longrightarrow> inv (snd (claim w t db))"
    and claim_holds: "\<lbrakk> inv db; fst (claim w t db) = Some j \<rbrakk>
          \<Longrightarrow> holder (snd (claim w t db)) j = Some (w, t + lease)"
    and claim_free: "\<lbrakk> inv db; fst (claim w t db) = Some j; holder db j = Some (w', u) \<rbrakk> \<Longrightarrow> u \<le> t"
    and claim_frame: "\<lbrakk> inv db; holder db j = Some (w', u); t < u \<rbrakk>
          \<Longrightarrow> holder (snd (claim w t db)) j = Some (w', u)"
begin

lemma claims_times: "(t, r) \<in> set (claims claim ws db) \<Longrightarrow> t \<in> snd ` set ws"
proof (induction ws arbitrary: db)
  case Nil
  then show ?case by simp
next
  case (Cons a ws)
  obtain w t0 where a: "a = (w, t0)" by force
  have "t = t0 \<or> (t, r) \<in> set (claims claim ws (snd (claim w t0 db)))"
    using Cons.prems by (auto simp: a case_prod_beta Let_def)
  then show ?case using Cons.IH by (auto simp: a)
qed

lemma held_not_claimed:
  assumes "inv db" "sorted (map snd ws)" "holder db j = Some (w', u)"
    "(t, Some j) \<in> set (claims claim ws db)"
  shows "u \<le> t"
  using assms
proof (induction ws arbitrary: db)
  case Nil
  then show ?case by simp
next
  case (Cons a ws)
  obtain w t0 where a: "a = (w, t0)" by force
  let ?db' = "snd (claim w t0 db)"
  have split: "(t, Some j) = (t0, fst (claim w t0 db)) \<or> (t, Some j) \<in> set (claims claim ws ?db')"
    using Cons.prems(4) by (simp add: a case_prod_beta Let_def)
  show ?case
  proof (cases "t0 < u")
    case True
    have "(t, Some j) \<in> set (claims claim ws ?db')"
      using split True claim_free [OF Cons.prems(1) _ Cons.prems(3), of w t0] by fastforce
    then show ?thesis
      using Cons.IH [of ?db'] Cons.prems claim_frame [OF Cons.prems(1,3) True] claim_inv by simp
  next
    case False
    have "t = t0 \<or> t \<in> snd ` set ws"
      using split claims_times by blast
    then have "t0 \<le> t" using Cons.prems(2) by (auto simp: a)
    then show ?thesis using False by simp
  qed
qed

lemma leases_disjoint:
  assumes "inv db" "sorted (map snd ws)"
  shows "sorted_wrt (\<lambda>a b. snd a \<noteq> None \<and> snd a = snd b \<longrightarrow> fst a + lease \<le> fst b) (claims claim ws db)"
  using assms
proof (induction ws arbitrary: db)
  case Nil
  then show ?case by simp
next
  case (Cons a ws)
  obtain w t where a: "a = (w, t)" by force
  let ?db' = "snd (claim w t db)"
  have inv': "inv ?db'" using Cons.prems(1) by (rule claim_inv)
  have later: "t + lease \<le> t'"
    if "(t', r') \<in> set (claims claim ws ?db')" "fst (claim w t db) = Some j" "r' = Some j" for t' r' j
  proof -
    have "sorted (map snd ws)" using Cons.prems(2) by (simp add: a)
    then show ?thesis
      using held_not_claimed [OF inv' _ claim_holds [OF Cons.prems(1) that(2)]] that by blast
  qed
  have "sorted_wrt (\<lambda>a b. snd a \<noteq> None \<and> snd a = snd b \<longrightarrow> fst a + lease \<le> fst b) (claims claim ws ?db')"
    using Cons.IH [OF inv'] Cons.prems(2) by (simp add: a)
  then show ?case using later by (fastforce simp: a case_prod_beta Let_def)
qed

end

section \<open>Queues in a table\<close>

text \<open>
  The claim the push, inbox and delivery workers share: rows past saving are settled first
  (\<open>prune\<close>), the first due row in an order is chosen, and a conditional update takes it; a
  row count other than one gives the caller nothing.
\<close>

definition lease_claim ::
  "('r \<Rightarrow> string) \<Rightarrow> ('r \<Rightarrow> 'r) \<Rightarrow> ('r \<Rightarrow> bool) \<Rightarrow> ('r \<Rightarrow> 'k::linorder) \<Rightarrow> ('r \<Rightarrow> 'r) \<Rightarrow> 'r list
   \<Rightarrow> string option \<times> 'r list" where
  "lease_claim key prune due ord grab rs =
     (let rs1 = map prune rs in
      case min_by ord (filter due rs1) of
        None \<Rightarrow> (None, rs1)
      | Some c \<Rightarrow>
          (let P = (\<lambda>r. key r = key c \<and> due r) in
           (if rowcount P rs1 = 1 then Some (key c) else None, update_where P grab rs1)))"

locale lease_rows =
  fixes key :: "'r \<Rightarrow> string"
    and prune :: "time \<Rightarrow> 'r \<Rightarrow> 'r"
    and due :: "time \<Rightarrow> 'r \<Rightarrow> bool"
    and ord :: "'r \<Rightarrow> 'k::linorder"
    and grab :: "'w \<Rightarrow> time \<Rightarrow> 'r \<Rightarrow> 'r"
    and held :: "'r \<Rightarrow> ('w \<times> time) option"
    and lease :: time
    and row_ok :: "'r \<Rightarrow> bool"
  assumes lease_pos: "0 < lease"
    and key_kept: "key (prune t r) = key r" "key (grab w t r) = key r"
    and grab_held: "held (grab w t r) = Some (w, t + lease)"
    and prune_running: "\<lbrakk> row_ok r; held r = Some (w, u); t < u \<rbrakk> \<Longrightarrow> prune t r = r"
    and prune_due: "\<lbrakk> row_ok r; due t (prune t r) \<rbrakk> \<Longrightarrow> prune t r = r"
    and due_free: "\<lbrakk> row_ok r; due t r; held r = Some (w, u) \<rbrakk> \<Longrightarrow> u \<le> t"
    and ok_kept: "row_ok r \<Longrightarrow> row_ok (prune t r)" "\<lbrakk> row_ok r; due t r \<rbrakk> \<Longrightarrow> row_ok (grab w t r)"
begin

abbreviation claim :: "'w \<Rightarrow> time \<Rightarrow> 'r list \<Rightarrow> string option \<times> 'r list" where
  "claim w t rs \<equiv> lease_claim key (prune t) (due t) ord (grab w t) rs"

abbreviation rows_ok :: "'r list \<Rightarrow> bool" where
  "rows_ok rs \<equiv> unique_key key rs \<and> list_all row_ok rs"

abbreviation holder :: "'r list \<Rightarrow> string \<Rightarrow> ('w \<times> time) option" where
  "holder rs j \<equiv> Option.bind (get_by key j rs) held"

lemma get_prune: "get_by key j (map (prune t) rs) = map_option (prune t) (get_by key j rs)"
  by (induction rs) (auto simp: key_kept)

lemma prune_ok: "rows_ok rs \<Longrightarrow> rows_ok (map (prune t) rs)"
  by (auto simp: unique_key_def comp_def key_kept list_all_iff ok_kept)

lemma claim_cases:
  assumes ok: "rows_ok rs"
  obtains (none) "claim w t rs = (None, map (prune t) rs)"
  | (some) c where "c \<in> set rs" "due t c" "prune t c = c"
      "claim w t rs = (Some (key c), update_where (\<lambda>r. key r = key c \<and> due t r) (grab w t) (map (prune t) rs))"
proof (cases "min_by ord (filter (due t) (map (prune t) rs))")
  case None
  then have "claim w t rs = (None, map (prune t) rs)" by (simp add: lease_claim_def)
  then show ?thesis by (rule none)
next
  case (Some c)
  let ?rs = "map (prune t) rs"
  have c: "c \<in> set ?rs" "due t c" using min_by_SomeD [OF Some] by auto
  then obtain r where r: "r \<in> set rs" "c = prune t r" by auto
  then have "prune t r = r" using ok c(2) by (intro prune_due) (auto simp: list_all_iff)
  then have cr: "c \<in> set rs" "prune t c = c" using r by simp_all
  have u: "unique_key key ?rs" using prune_ok [OF ok] by simp
  have "rowcount (\<lambda>r. key r = key c \<and> due t r) ?rs = 1"
    using rowcount_key [OF u, of "key c" "due t"] get_by_unique [OF u c(1)] c(2) by simp
  then have "claim w t rs = (Some (key c), update_where (\<lambda>r. key r = key c \<and> due t r) (grab w t) ?rs)"
    using Some by (simp add: lease_claim_def Let_def)
  then show ?thesis using some cr c(2) by blast
qed

lemma get_grab:
  "get_by key j (update_where (\<lambda>r. key r = k \<and> due t r) (grab w t) (map (prune t) rs)) =
     map_option (\<lambda>r. let r' = prune t r in if key r' = k \<and> due t r' then grab w t r' else r') (get_by key j rs)"
  by (simp add: get_by_update_where key_kept get_prune option.map_comp comp_def Let_def)

lemma grab_ok:
  assumes "rows_ok rs"
  shows "rows_ok (update_where (\<lambda>r. key r = k \<and> due t r) (grab w t) (map (prune t) rs))"
proof -
  have "list_all row_ok (map (prune t) rs)" using prune_ok [OF assms] by simp
  then have "list_all row_ok (update_where (\<lambda>r. key r = k \<and> due t r) (grab w t) (map (prune t) rs))"
    by (auto simp: list_all_iff set_update_where ok_kept)
  then show ?thesis using prune_ok [OF assms] by (simp add: unique_key_update_where key_kept)
qed

end

sublocale lease_rows \<subseteq> queue: lease_queue claim holder lease rows_ok
proof (unfold_locales, goal_cases)
  case 1
  show ?case by (rule lease_pos)
next
  case (2 rs w t)
  from 2 show ?case
  proof (cases rule: claim_cases [where rs = rs and w = w and t = t])
    case none
    then show ?thesis using prune_ok [OF 2] by simp
  next
    case (some c)
    then show ?thesis using grab_ok [OF 2] by simp
  qed
next
  case (3 rs w t j)
  from 3(1) show ?case
  proof (cases rule: claim_cases [where rs = rs and w = w and t = t])
    case none
    then show ?thesis using 3(2) by simp
  next
    case (some c)
    have "get_by key (key c) rs = Some c" using some(1) 3(1) by (simp add: get_by_unique)
    then show ?thesis using 3(2) some by (auto simp: get_grab grab_held Let_def)
  qed
next
  case (4 rs w t j w' u)
  from 4(1) show ?case
  proof (cases rule: claim_cases [where rs = rs and w = w and t = t])
    case none
    then show ?thesis using 4(2) by simp
  next
    case (some c)
    have "get_by key (key c) rs = Some c" using some(1) 4(1) by (simp add: get_by_unique)
    then have "held c = Some (w', u)" using 4(2,3) some(4) by simp
    moreover have "row_ok c" using some(1) 4(1) by (simp add: list_all_iff)
    ultimately show ?thesis using some(2) due_free by blast
  qed
next
  case (5 rs j w' u t w)
  then obtain r where r: "get_by key j rs = Some r" "held r = Some (w', u)"
    by (auto simp: bind_eq_Some_conv)
  have ok: "row_ok r" using r(1) 5(1) by (auto dest: get_by_SomeD simp: list_all_iff)
  have p: "prune t r = r" using prune_running [OF ok r(2) 5(3)] .
  have d: "\<not> due t r" using due_free [OF ok _ r(2), of t] 5(3) by force
  from 5(1) show ?case
  proof (cases rule: claim_cases [where rs = rs and w = w and t = t])
    case none
    then show ?thesis using r p by (simp add: get_prune)
  next
    case (some c)
    then show ?thesis using r p d by (simp add: get_grab Let_def)
  qed
qed

text \<open>Claims on a database whose table is claimed on.\<close>

lemma claims_on_table:
  assumes "\<And>w t db. fst (claim' w t db) = fst (claim w t (tab db))"
    and "\<And>w t db. tab (snd (claim' w t db)) = snd (claim w t (tab db))"
  shows "claims claim' ws db = claims claim ws (tab db)"
proof (induction ws arbitrary: db)
  case (Cons a ws)
  then show ?case using assms by (cases a) (simp add: case_prod_beta Let_def)
qed simp

section \<open>Grant stores\<close>

text \<open>A sequence of writes to a store, each leaving the store for the next.\<close>

fun replay :: "('k \<Rightarrow> 'c \<Rightarrow> bool \<Rightarrow> 's \<Rightarrow> ('e + unit) \<times> 's) \<Rightarrow> ('k \<times> 'c \<times> bool) list \<Rightarrow> 's \<Rightarrow> 's" where
  "replay set_g [] s = s"
| "replay set_g ((k, c, b) # ws) s = replay set_g ws (snd (set_g k c b s))"

lemma replay_append: "replay set_g (ws @ ws') s = replay set_g ws' (replay set_g ws s)"
  by (induction set_g ws s rule: replay.induct) simp_all

text \<open>
  A store of named permissions per subject: what was last written for a pair is what a
  read gives, and no write changes another pair. \<open>writable\<close> are the pairs the store
  accepts; a refused write leaves the store as it was.
\<close>

locale grant_store =
  fixes granted :: "'s \<Rightarrow> 'k \<Rightarrow> 'c \<Rightarrow> bool"
    and set_grant :: "'k \<Rightarrow> 'c \<Rightarrow> bool \<Rightarrow> 's \<Rightarrow> ('e + unit) \<times> 's"
    and writable :: "'k \<Rightarrow> 'c \<Rightarrow> bool"
    and inv :: "'s \<Rightarrow> bool"
  assumes write_inv: "inv s \<Longrightarrow> inv (snd (set_grant k c b s))"
    and refused: "\<lbrakk> inv s; \<not> writable k c \<rbrakk> \<Longrightarrow> isl (fst (set_grant k c b s)) \<and> snd (set_grant k c b s) = s"
    and read_back: "\<lbrakk> inv s; writable k c \<rbrakk> \<Longrightarrow> granted (snd (set_grant k c b s)) k c = b"
    and others: "\<lbrakk> inv s; (k', c') \<noteq> (k, c) \<rbrakk> \<Longrightarrow> granted (snd (set_grant k c b s)) k' c' = granted s k' c'"
begin

lemma replay_inv: "inv s \<Longrightarrow> inv (replay set_grant ws s)"
  by (induction ws arbitrary: s) (auto simp: write_inv)

text \<open>After any sequence of writes a pair has the value of the last write to it.\<close>

lemma replay_untouched:
  "\<lbrakk> inv s; \<forall>(k', c', b) \<in> set ws. (k', c') \<noteq> (k, c) \<rbrakk> \<Longrightarrow> granted (replay set_grant ws s) k c = granted s k c"
  by (induction ws arbitrary: s) (auto simp: others write_inv)

lemma last_write_wins:
  assumes "inv s" "writable k c" "\<forall>(k', c', b') \<in> set ws'. (k', c') \<noteq> (k, c)"
  shows "granted (replay set_grant (ws @ (k, c, b) # ws') s) k c = b"
proof -
  have "inv (replay set_grant ws s)" using assms(1) by (rule replay_inv)
  then show ?thesis using assms(2,3) by (simp add: replay_append replay_untouched read_back write_inv)
qed

lemma never_granted:
  assumes "inv s" "\<not> writable k c" "\<not> granted s k c"
  shows "\<not> granted (replay set_grant ws s) k c"
  using assms
proof (induction ws arbitrary: s)
  case Nil
  then show ?case by simp
next
  case (Cons w ws)
  obtain k' c' b where w: "w = (k', c', b)" by (cases w)
  have "\<not> granted (snd (set_grant k' c' b s)) k c"
    using Cons.prems refused others by (cases "(k', c') = (k, c)") auto
  then show ?case using Cons by (simp add: w write_inv)
qed

end

end
