(* ===== verification/Pending.thy ===== *)
theory Pending
  imports Database Contracts
begin

text \<open>
  \<open>auth/pending.py\<close>: short-lived authentication state (a login attempt, an enrolment, a
  recovery) that is created with a lifetime and consumed at most once. \<open>consume_pending\<close>
  reads the row, checks it, and then issues a conditional update; other requests can run
  between the two, so the model has them as two steps.
\<close>

section \<open>Operations\<close>

definition RECOVERY_AUTHORIZATION_PURPOSE :: string where
  "RECOVERY_AUTHORIZATION_PURPOSE = ''recovery_authorization''"

record pending_fields =
  pf_challenge :: "string option"
  pf_label :: "string option"
  pf_username :: "string option"
  pf_display_name :: "string option"
  pf_email :: "string option"
  pf_context :: "dict option"

definition create_pending ::
  "time \<Rightarrow> string \<Rightarrow> string \<Rightarrow> string option \<Rightarrow> int \<Rightarrow> pending_fields \<Rightarrow> db \<Rightarrow> auth_pending \<times> db" where
  "create_pending now new_id purpose user_id ttl_seconds extra db =
     (let kept = delete_where
            (\<lambda>p. ap_expires_at p \<le> now
               \<or> ap_consumed_at p \<noteq> None \<and> ap_purpose p \<noteq> RECOVERY_AUTHORIZATION_PURPOSE)
            (auth_pendings db);
          pending = \<lparr>ap_id = new_id, ap_user_id = user_id, ap_purpose = purpose,
            ap_challenge = pf_challenge extra, ap_label = pf_label extra,
            ap_username = pf_username extra, ap_display_name = pf_display_name extra,
            ap_email = pf_email extra,
            ap_context = Some (Json (JObj (case pf_context extra of None \<Rightarrow> [] | Some d \<Rightarrow> d))),
            ap_created_at = now, ap_expires_at = now + seconds (max 1 ttl_seconds),
            ap_consumed_at = None\<rparr>
      in (pending, db\<lparr>auth_pendings := add_row pending kept\<rparr>))"

text \<open>One request to consume: the identifier, the purpose and the user it must belong to, if any.\<close>

type_synonym pending_request = "string \<times> string \<times> string option"

definition consume_read :: "pending_request \<Rightarrow> time \<Rightarrow> db \<Rightarrow> auth_pending option" where
  "consume_read = (\<lambda>(pending_id, purpose, user_id) now db.
     (case get_by ap_id pending_id (auth_pendings db) of
        None \<Rightarrow> None
      | Some pending \<Rightarrow>
          if ap_purpose pending \<noteq> purpose then None
          else if user_id \<noteq> None \<and> ap_user_id pending \<noteq> user_id then None
          else if ap_consumed_at pending \<noteq> None \<or> ap_expires_at pending \<le> now then None
          else Some pending))"

definition update_matches :: "pending_request \<Rightarrow> time \<Rightarrow> auth_pending \<Rightarrow> bool" where
  "update_matches = (\<lambda>(pending_id, purpose, user_id) now p.
     ap_id p = pending_id \<and> (ap_purpose p = purpose \<and> ap_consumed_at p = None \<and> now < ap_expires_at p))"

definition consume_update :: "pending_request \<Rightarrow> time \<Rightarrow> db \<Rightarrow> bool \<times> db" where
  "consume_update req now db =
     (rowcount (update_matches req now) (auth_pendings db) = 1,
      db\<lparr>auth_pendings := update_where (update_matches req now)
           (\<lambda>p. p\<lparr>ap_consumed_at := Some now\<rparr>) (auth_pendings db)\<rparr>)"

text \<open>
  The whole operation, at one reading of the clock. The row it returns is the one the
  session holds, with the values it had when it was read.
\<close>

definition consume_pending :: "pending_request \<Rightarrow> time \<Rightarrow> db \<Rightarrow> auth_pending option \<times> db" where
  "consume_pending req now db =
     (case consume_read req now db of
        None \<Rightarrow> (None, db)
      | Some pending \<Rightarrow>
          (let (matched, db') = consume_update req now db in
           if matched then (Some pending, db') else (None, db')))"

section \<open>The update is one-shot\<close>

abbreviation pendings_inv :: "db \<Rightarrow> bool" where
  "pendings_inv db \<equiv> unique_key ap_id (auth_pendings db)"

definition pending_live :: "pending_request \<Rightarrow> time \<Rightarrow> db \<Rightarrow> bool" where
  "pending_live req now db \<longleftrightarrow> exists_where (update_matches req now) (auth_pendings db)"

lemma rowcount_pending:
  assumes "pendings_inv db"
  shows "rowcount (update_matches req now) (auth_pendings db) = (if pending_live req now db then 1 else 0)"
proof -
  obtain i purpose uid where req: "req = (i, purpose, uid)" by (cases req)
  show ?thesis
    unfolding req update_matches_def split pending_live_def
    by (rule rowcount_key_exists [OF assms])
qed

lemma consume_update_ok: "pendings_inv db \<Longrightarrow> fst (consume_update req now db) = pending_live req now db"
  by (simp add: consume_update_def rowcount_pending)

lemma consume_update_inv: "pendings_inv (snd (consume_update req now db)) = pendings_inv db"
  by (simp add: consume_update_def unique_key_update_where)

lemma consume_update_miss: "\<not> pending_live req now db \<Longrightarrow> snd (consume_update req now db) = db"
  by (simp add: consume_update_def update_where_none pending_live_def exists_where_iff)

text \<open>No request, at whatever time, can consume a row that is consumed or gone.\<close>

lemma pending_live_unconsumed:
  "pending_live req now db \<Longrightarrow> \<exists>p \<in> set (auth_pendings db). ap_id p = fst req \<and> ap_consumed_at p = None"
  by (cases req) (auto simp: pending_live_def exists_where_iff update_matches_def)

lemma consume_update_dead:
  assumes "pendings_inv db" "pending_live req now db"
    "p \<in> set (auth_pendings (snd (consume_update req now db)))" "ap_id p = fst req"
  shows "ap_consumed_at p \<noteq> None"
proof -
  obtain i purpose uid where req: "req = (i, purpose, uid)" by (cases req)
  from assms(2) obtain q where q: "q \<in> set (auth_pendings db)" "update_matches req now q" "ap_id q = i"
    by (auto simp: pending_live_def exists_where_iff req update_matches_def)
  from assms(3) obtain r where r: "r \<in> set (auth_pendings db)"
    "p = (if update_matches req now r then r\<lparr>ap_consumed_at := Some now\<rparr> else r)"
    by (auto simp: consume_update_def set_update_where)
  then have "ap_id r = i" using assms(4) by (simp add: req split: if_splits)
  then have "r = q" using unique_keyD [OF assms(1) r(1) q(1)] q(3) by simp
  then show ?thesis using r q by simp
qed

lemma consume_update_unconsumed:
  "p \<in> set (auth_pendings (snd (consume_update req now db))) \<Longrightarrow> ap_consumed_at p = None
   \<Longrightarrow> p \<in> set (auth_pendings db)"
  by (auto simp: consume_update_def set_update_where split: if_splits)

interpretation pending: one_shot consume_update pending_live fst pendings_inv
proof (unfold_locales, goal_cases)
  case (1 db k t)
  then show ?case by (rule consume_update_ok)
next
  case (2 db k t)
  then show ?case by (simp only: consume_update_inv)
next
  case (3 db k t k' t')
  then have "pending_live k t db" by (simp only: consume_update_ok)
  then show ?case using 3 consume_update_dead pending_live_unconsumed by metis
next
  case (4 db k' t' k t)
  then show ?case
    by (auto simp: pending_live_def exists_where_iff consume_update_def set_update_where
        update_matches_def split: if_splits prod.splits)
qed

section \<open>One request alone\<close>

definition consumable :: "pending_request \<Rightarrow> time \<Rightarrow> db \<Rightarrow> auth_pending \<Rightarrow> bool" where
  "consumable = (\<lambda>(pending_id, purpose, user_id) now db p.
     p \<in> set (auth_pendings db) \<and> ap_id p = pending_id \<and> ap_purpose p = purpose
     \<and> (user_id = None \<or> ap_user_id p = user_id) \<and> ap_consumed_at p = None \<and> now < ap_expires_at p)"

lemma consume_read_iff:
  assumes "pendings_inv db"
  shows "consume_read req now db = Some p \<longleftrightarrow> consumable req now db p"
proof -
  obtain i purpose uid where req: "req = (i, purpose, uid)" by (cases req)
  have "consume_read req now db = Some p \<longleftrightarrow>
      get_by ap_id i (auth_pendings db) = Some p \<and> ap_purpose p = purpose
      \<and> (uid = None \<or> ap_user_id p = uid) \<and> ap_consumed_at p = None \<and> now < ap_expires_at p"
    by (cases "get_by ap_id i (auth_pendings db)") (auto simp: consume_read_def req)
  also have "get_by ap_id i (auth_pendings db) = Some p \<longleftrightarrow> p \<in> set (auth_pendings db) \<and> ap_id p = i"
    by (rule get_by_iff [OF assms])
  finally show ?thesis by (auto simp: consumable_def req)
qed

lemma consumable_live: "consumable req now db p \<Longrightarrow> pending_live req now db"
  by (cases req) (auto simp: consumable_def pending_live_def exists_where_iff update_matches_def)

lemma create_keeps:
  "\<lbrakk> p \<in> set (auth_pendings db); now < ap_expires_at p; ap_consumed_at p = None \<rbrakk>
   \<Longrightarrow> p \<in> set (auth_pendings (snd (create_pending now i purpose uid ttl f db)))"
  by (simp add: create_pending_def Let_def set_add_row set_delete_where)

lemma create_inv:
  "\<lbrakk> pendings_inv db; i \<notin> ap_id ` set (auth_pendings db) \<rbrakk>
   \<Longrightarrow> pendings_inv (snd (create_pending now i purpose uid ttl f db))"
  by (auto simp: create_pending_def Let_def unique_key_add_row unique_key_delete_where set_delete_where)

section \<open>Requests that overlap\<close>

text \<open>
  A schedule interleaves the two steps of any number of consumers, numbered, with the
  creation of other rows. A consumer that read a row goes on to its update; the ones
  whose update also matched are the winners.
\<close>

datatype pending_event =
    Ev_create time string string "string option" int pending_fields
  | Ev_read nat pending_request time
  | Ev_update nat time

record pending_run =
  pr_db :: db
  pr_seen :: "(nat \<times> pending_request) list"
  pr_winners :: "(nat \<times> string) list"

fun pending_step :: "pending_event \<Rightarrow> pending_run \<Rightarrow> pending_run" where
  "pending_step (Ev_create now i purpose uid ttl f) s =
     s\<lparr>pr_db := snd (create_pending now i purpose uid ttl f (pr_db s))\<rparr>"
| "pending_step (Ev_read n req t) s =
     (case consume_read req t (pr_db s) of
        None \<Rightarrow> s
      | Some _ \<Rightarrow> s\<lparr>pr_seen := (n, req) # pr_seen s\<rparr>)"
| "pending_step (Ev_update n t) s =
     (case map_of (pr_seen s) n of
        None \<Rightarrow> s
      | Some req \<Rightarrow>
          (let (matched, db') = consume_update req t (pr_db s) in
           s\<lparr>pr_db := db',
             pr_winners := (if matched then [(n, fst req)] else []) @ pr_winners s\<rparr>))"

definition run_pending :: "pending_event list \<Rightarrow> pending_run \<Rightarrow> pending_run" where
  "run_pending es s = fold pending_step es s"

fun created_id :: "pending_event \<Rightarrow> string list" where
  "created_id (Ev_create _ i _ _ _ _) = [i]"
| "created_id _ = []"

definition wins_of :: "string \<Rightarrow> pending_run \<Rightarrow> nat" where
  "wins_of i s = length (filter (\<lambda>(_, j). j = i) (pr_winners s))"

definition all_ids :: "pending_run \<Rightarrow> string set" where
  "all_ids s = ap_id ` set (auth_pendings (pr_db s)) \<union> snd ` set (pr_winners s)"

text \<open>
  The invariant: identifiers are unique, no consumer won a row more than once, and a row
  somebody won is consumed for as long as it is in the table.
\<close>

definition run_ok :: "pending_run \<Rightarrow> bool" where
  "run_ok s \<longleftrightarrow> pendings_inv (pr_db s)
     \<and> (\<forall>i. wins_of i s \<le> 1)
     \<and> (\<forall>p \<in> set (auth_pendings (pr_db s)). wins_of (ap_id p) s > 0 \<longrightarrow> ap_consumed_at p \<noteq> None)"

lemma wins_of_pos: "wins_of i s > 0 \<longleftrightarrow> i \<in> snd ` set (pr_winners s)"
  by (force simp: wins_of_def filter_empty_conv)

lemma create_rows:
  "p \<in> set (auth_pendings (snd (create_pending now i purpose uid ttl f db)))
   \<Longrightarrow> p \<in> set (auth_pendings db) \<or> ap_id p = i"
  by (auto simp: create_pending_def Let_def set_add_row set_delete_where)

lemma pending_step_create:
  assumes "run_ok s" "i \<notin> all_ids s"
  shows "run_ok (pending_step (Ev_create now i purpose uid ttl f) s)
    \<and> all_ids (pending_step (Ev_create now i purpose uid ttl f) s) \<subseteq> insert i (all_ids s)"
proof -
  let ?s = "pending_step (Ev_create now i purpose uid ttl f) s"
  have wins: "wins_of j ?s = wins_of j s" for j by (simp add: wins_of_def)
  have none: "\<not> wins_of i s > 0" using assms(2) by (simp only: wins_of_pos all_ids_def) blast
  have "pendings_inv (pr_db ?s)"
    using assms by (simp add: run_ok_def all_ids_def create_inv)
  moreover have "ap_consumed_at p \<noteq> None"
    if "p \<in> set (auth_pendings (pr_db ?s))" "wins_of (ap_id p) s > 0" for p
  proof -
    have "p \<in> set (auth_pendings (snd (create_pending now i purpose uid ttl f (pr_db s))))"
      using that(1) by simp
    from create_rows [OF this] have "p \<in> set (auth_pendings (pr_db s))"
      using that(2) none by auto
    then show ?thesis using assms(1) that(2) by (simp add: run_ok_def)
  qed
  ultimately have "run_ok ?s" using assms(1) unfolding run_ok_def wins by blast
  moreover have "all_ids ?s \<subseteq> insert i (all_ids s)"
    using create_rows by (fastforce simp: all_ids_def)
  ultimately show ?thesis by blast
qed

lemma pending_step_update:
  assumes "run_ok s"
  shows "run_ok (pending_step (Ev_update n t) s) \<and> all_ids (pending_step (Ev_update n t) s) \<subseteq> all_ids s"
proof (cases "map_of (pr_seen s) n")
  case None
  then show ?thesis using assms by simp
next
  case (Some req)
  let ?db = "snd (consume_update req t (pr_db s))"
  have inv: "pendings_inv (pr_db s)" using assms by (simp add: run_ok_def)
  have keys: "ap_id ` set (auth_pendings ?db) = ap_id ` set (auth_pendings (pr_db s))"
    by (simp add: consume_update_def keys_image_update_where)
  show ?thesis
  proof (cases "pending_live req t (pr_db s)")
    case True
    then have step: "pending_step (Ev_update n t) s
        = s\<lparr>pr_db := ?db, pr_winners := (n, fst req) # pr_winners s\<rparr>" (is "_ = ?s")
      using Some consume_update_ok [OF inv, of req t] by (simp add: case_prod_beta Let_def)
    have wins: "wins_of j ?s = (if j = fst req then 1 else 0) + wins_of j s" for j
      by (auto simp: wins_of_def)
    obtain q where q: "q \<in> set (auth_pendings (pr_db s))" "ap_id q = fst req" "ap_consumed_at q = None"
      using pending_live_unconsumed [OF True] by blast
    then have zero: "wins_of (fst req) s = 0" using assms by (metis run_ok_def neq0_conv)
    have dead: "ap_consumed_at p \<noteq> None"
      if "p \<in> set (auth_pendings ?db)" "ap_id p = fst req \<or> wins_of (ap_id p) s > 0" for p
      using that consume_update_dead [OF inv True that(1)] consume_update_unconsumed [OF that(1)] assms
      by (auto simp: run_ok_def)
    have "run_ok ?s" using assms inv zero dead
      unfolding run_ok_def wins by (simp add: consume_update_inv split: if_splits)
    moreover have "all_ids ?s \<subseteq> all_ids s" using q keys by (force simp: all_ids_def)
    ultimately show ?thesis unfolding step by blast
  next
    case False
    then have "pending_step (Ev_update n t) s = s"
      using Some consume_update_ok [OF inv, of req t] consume_update_miss [OF False]
      by (simp add: case_prod_beta Let_def)
    then show ?thesis using assms by simp
  qed
qed

lemma pending_step_read:
  "run_ok (pending_step (Ev_read n req t) s) = run_ok s"
  "all_ids (pending_step (Ev_read n req t) s) = all_ids s"
  by (simp_all add: run_ok_def all_ids_def wins_of_def split: option.splits)

lemma run_pending_ok:
  assumes "run_ok s" "distinct (concat (map created_id es))"
    "set (concat (map created_id es)) \<inter> all_ids s = {}"
  shows "run_ok (run_pending es s)"
  using assms
proof (induction es arbitrary: s)
  case Nil
  then show ?case by (simp add: run_pending_def)
next
  case (Cons e es)
  have "run_ok (pending_step e s)
    \<and> all_ids (pending_step e s) \<subseteq> set (created_id e) \<union> all_ids s"
  proof (cases e)
    case (Ev_create now i purpose uid ttl f)
    then show ?thesis using pending_step_create [OF Cons.prems(1)] Cons.prems(3) by auto
  next
    case (Ev_read n req t)
    then show ?thesis using Cons.prems(1) by (simp add: pending_step_read del: pending_step.simps)
  next
    case (Ev_update n t)
    then show ?thesis using pending_step_update [OF Cons.prems(1)] by auto
  qed
  moreover have "set (concat (map created_id es)) \<inter> (set (created_id e) \<union> all_ids s) = {}"
    "distinct (concat (map created_id es))"
    using Cons.prems(2,3) by auto
  ultimately have "run_ok (run_pending es (pending_step e s))" by (intro Cons.IH) auto
  then show ?case by (simp add: run_pending_def)
qed

section \<open>Properties\<close>

text \<open>
  C4. A pending record is consumed at most once, however the reads and the conditional
  updates of concurrent requests interleave with each other and with new records.
\<close>

theorem pending_consumed_once:
  assumes "unique_key ap_id (auth_pendings db)"
    and "distinct (concat (map created_id es))"
    and "set (concat (map created_id es)) \<inter> ap_id ` set (auth_pendings db) = {}"
  shows "wins_of i (run_pending es \<lparr>pr_db = db, pr_seen = [], pr_winners = []\<rparr>) \<le> 1"
proof -
  let ?s = "\<lparr>pr_db = db, pr_seen = [], pr_winners = []\<rparr>"
  have "run_ok ?s" using assms(1) by (simp add: run_ok_def wins_of_def)
  then have "run_ok (run_pending es ?s)"
    using assms(2,3) by (intro run_pending_ok) (simp_all add: all_ids_def)
  then show ?thesis by (simp add: run_ok_def)
qed

definition demo_fields :: pending_fields where
  "demo_fields = \<lparr>pf_challenge = None, pf_label = None, pf_username = None, pf_display_name = None,
     pf_email = None, pf_context = None\<rparr>"

definition demo_events :: "pending_event list" where
  "demo_events =
    [Ev_create 0 ''a'' ''stepup'' (Some ''u'') 60 demo_fields,
     Ev_read 1 (''a'', ''stepup'', Some ''u'') 1, Ev_read 2 (''a'', ''stepup'', Some ''u'') 1,
     Ev_update 2 2, Ev_update 1 2]"

theorem pending_consumed_once_witness:
  "wins_of ''a'' (run_pending demo_events \<lparr>pr_db = empty_db, pr_seen = [], pr_winners = []\<rparr>) \<le> 1"
  by (rule pending_consumed_once) (simp_all add: unique_key_def demo_events_def)

text \<open>
  A request on its own consumes exactly the live record of its identifier, purpose and
  user: it returns that record and marks it; in every other case it returns nothing and
  leaves the table as it was.
\<close>

theorem consume_pending_correct:
  assumes "unique_key ap_id (auth_pendings db)"
  shows "case consume_pending req now db of
      (Some p, db') \<Rightarrow> consumable req now db p
        \<and> auth_pendings db' = update_where (\<lambda>q. ap_id q = ap_id p)
             (\<lambda>q. q\<lparr>ap_consumed_at := Some now\<rparr>) (auth_pendings db)
    | (None, db') \<Rightarrow> (\<forall>p. \<not> consumable req now db p) \<and> db' = db"
proof (cases "consume_read req now db")
  case None
  then show ?thesis using consume_read_iff [OF assms, of req now] by (simp add: consume_pending_def)
next
  case (Some p)
  then have p: "consumable req now db p" using consume_read_iff [OF assms] by blast
  obtain i purpose uid where req: "req = (i, purpose, uid)" by (cases req)
  have "update_matches req now q \<longleftrightarrow> ap_id q = ap_id p" if "q \<in> set (auth_pendings db)" for q
    using p unique_keyD [OF assms that, of p]
    by (auto simp: consumable_def req update_matches_def)
  then have "update_where (update_matches req now) f (auth_pendings db)
      = update_where (\<lambda>q. ap_id q = ap_id p) f (auth_pendings db)" for f
    by (simp add: update_where_def)
  then show ?thesis
    using Some p consumable_live [OF p] rowcount_pending [OF assms, of req now]
    by (simp add: consume_pending_def consume_update_def)
qed

theorem consume_pending_correct_witness:
  "case consume_pending (''a'', ''stepup'', None) 0 empty_db of
     (Some p, db') \<Rightarrow> consumable (''a'', ''stepup'', None) 0 empty_db p
   | (None, db') \<Rightarrow> db' = empty_db"
  using consume_pending_correct [of empty_db "(''a'', ''stepup'', None)" 0]
  by (auto simp: unique_key_def split: prod.splits option.splits)

text \<open>
  Clean-up is safe and round trips: a record just created can be consumed for its
  lifetime, which is at least a second; creating other records in between, whose
  clean-up runs then, neither removes it nor makes any dead record consumable.
\<close>

theorem created_pending_consumable:
  assumes "unique_key ap_id (auth_pendings db)" "i \<notin> ap_id ` set (auth_pendings db)"
    and "create_pending now i purpose uid ttl f db = (p, db1)"
    and "j \<noteq> i" "j \<notin> ap_id ` set (auth_pendings db)"
    and "now \<le> now1" "now1 < now + seconds (max 1 ttl)"
  shows "fst (consume_pending (i, purpose, uid) now1
            (snd (create_pending now1 j purpose2 uid2 ttl2 f2 db1))) = Some p
    \<and> (fst req \<noteq> j \<longrightarrow> consumable req t (snd (create_pending now1 j purpose2 uid2 ttl2 f2 db1)) q
         \<longrightarrow> consumable req t db1 q)"
proof -
  let ?db2 = "snd (create_pending now1 j purpose2 uid2 ttl2 f2 db1)"
  have p: "ap_id p = i" "ap_purpose p = purpose" "ap_user_id p = uid" "ap_consumed_at p = None"
    "ap_expires_at p = now + seconds (max 1 ttl)" "p \<in> set (auth_pendings db1)"
    using assms(3) by (auto simp: create_pending_def Let_def set_add_row)
  have inv1: "pendings_inv db1" using create_inv [OF assms(1,2)] assms(3) by (metis snd_conv)
  have "j \<notin> ap_id ` set (auth_pendings db1)"
    using create_rows [of _ now i purpose uid ttl f db] assms(3,4,5) by fastforce
  then have inv2: "pendings_inv ?db2" by (rule create_inv [OF inv1])
  have "p \<in> set (auth_pendings ?db2)" using p assms(7) by (intro create_keeps) simp_all
  then have live: "consumable (i, purpose, uid) now1 ?db2 p"
    using p assms(7) by (simp add: consumable_def)
  then have "consume_read (i, purpose, uid) now1 ?db2 = Some p"
    using consume_read_iff [OF inv2] by blast
  moreover have "fst (consume_update (i, purpose, uid) now1 ?db2)"
    using consume_update_ok [OF inv2] consumable_live [OF live] by blast
  ultimately have "fst (consume_pending (i, purpose, uid) now1 ?db2) = Some p"
    by (simp add: consume_pending_def case_prod_beta Let_def)
  moreover have "consumable req t ?db2 q \<Longrightarrow> fst req \<noteq> j \<Longrightarrow> consumable req t db1 q"
    using create_rows [of q now1 j purpose2 uid2 ttl2 f2 db1]
    by (auto simp: consumable_def split: prod.splits)
  ultimately show ?thesis by blast
qed

theorem created_pending_consumable_witness:
  "fst (consume_pending (''a'', ''stepup'', Some ''u'') 1
     (snd (create_pending 1 ''b'' ''webauthn_login'' None 60 demo_fields
       (snd (create_pending 0 ''a'' ''stepup'' (Some ''u'') 60 demo_fields empty_db)))))
   = Some (fst (create_pending 0 ''a'' ''stepup'' (Some ''u'') 60 demo_fields empty_db))"
  using created_pending_consumable [of empty_db "''a''" 0 "''stepup''" "Some ''u''" 60 demo_fields
      "fst (create_pending 0 ''a'' ''stepup'' (Some ''u'') 60 demo_fields empty_db)"
      "snd (create_pending 0 ''a'' ''stepup'' (Some ''u'') 60 demo_fields empty_db)" "''b''" 1
      "''webauthn_login''" None 60 demo_fields]
  by (simp add: unique_key_def seconds_def)

end
