(* ===== verification/Stepup.thy ===== *)
theory Stepup
  imports Database Contracts
begin

text \<open>
  \<open>auth/stepup.py\<close>: grants that permit one sensitive operation, once, to one user in one
  browser session on one target. The cookie session lists the identifiers of the grants
  it was given; the rows are on the server. An operation acts on the cookie session and
  the database.
\<close>

section \<open>Policies and scopes\<close>

datatype scope = On_target | On_instance

definition STEPUP_POLICIES :: "(string \<times> scope) list" where
  "STEPUP_POLICIES =
    [(''change_roles'', On_target),
     (''modify_auth_policy'', On_instance),
     (''toggle_federation'', On_instance),
     (''toggle_actor_federation'', On_target),
     (''install_plugin'', On_target),
     (''enable_plugin'', On_target),
     (''disable_plugin'', On_target),
     (''plugin_capability_change'', On_target),
     (''trust_theme'', On_target),
     (''edit_mail_template'', On_target),
     (''generate_export'', On_instance),
     (''rotate_key'', On_target),
     (''change_security_settings'', On_instance),
     (''change_webauthn_settings'', On_instance),
     (''unlock_webauthn_rp_id'', On_instance),
     (''lock_webauthn_rp_id'', On_instance),
     (''delete_post'', On_target),
     (''add_webauthn_credential'', On_target),
     (''remove_webauthn_credential'', On_target),
     (''add_totp_credential'', On_target),
     (''remove_totp_credential'', On_target),
     (''change_password'', On_target),
     (''enable_password'', On_target),
     (''disable_password'', On_target),
     (''set_breakglass_password'', On_target),
     (''admin_credential_reset'', On_target),
     (''link_external_identity'', On_target),
     (''unlink_external_identity'', On_target),
     (''manage_oidc_provider'', On_instance),
     (''rotate_oidc_client_secret'', On_instance),
     (''manage_oauth_client'', On_instance),
     (''rotate_oidc_signing_key'', On_instance)]"

datatype stepup_cause =
    Unregistered_operation string
  | Requires_target string
  | Scoped_to_instance string
  | No_database_session
  | Grants_disabled
  | No_evidence_method
  | Stepup_required string

text \<open>The class of the exception that carries the cause.\<close>

datatype stepup_error = Value_Error stepup_cause | Permission_Error stepup_cause

definition effective_stepup_ttl :: "config \<Rightarrow> int" where
  "effective_stepup_ttl cfg = min 300 (max 0 (cfg_stepup_ttl cfg))"

definition require_stepup :: "string \<Rightarrow> stepup_cause + bool" where
  "require_stepup operation =
     (if operation \<notin> fst ` set STEPUP_POLICIES then Inl (Unregistered_operation operation)
      else Inr True)"

definition validate_scope :: "string \<Rightarrow> string option \<Rightarrow> stepup_cause + unit" where
  "validate_scope action target =
     (if map_of STEPUP_POLICIES action = Some On_target \<and> \<not> truthy_str target
      then Inl (Requires_target action)
      else if map_of STEPUP_POLICIES action = Some On_instance
           \<and> target \<noteq> None \<and> target \<noteq> Some ''instance''
      then Inl (Scoped_to_instance action)
      else Inr ())"

definition target_key :: "string option \<Rightarrow> string" where
  "target_key target = (if truthy_str target then or_empty target else ''instance'')"

text \<open>\<open>require_stepup\<close> and then \<open>_validate_scope\<close>, as every operation starts.\<close>

definition check_scope :: "string \<Rightarrow> string option \<Rightarrow> stepup_cause + unit" where
  "check_scope operation target =
     (case require_stepup operation of Inl c \<Rightarrow> Inl c | Inr _ \<Rightarrow> validate_scope operation target)"

section \<open>The cookie session\<close>

definition GRANTS_KEY :: string where
  "GRANTS_KEY = ''_arborpress_stepup_grants''"

definition session_grant_ids :: "dict \<Rightarrow> string list" where
  "session_grant_ids session =
     (case dget session GRANTS_KEY (JList []) of
        JList xs \<Rightarrow> List.map_filter as_str xs
      | _ \<Rightarrow> [])"

definition session_id_of :: "dict \<Rightarrow> string" where
  "session_id_of session = str_or_empty (dget session ''session_id'' JNull)"

definition set_grant_ids :: "string list \<Rightarrow> dict \<Rightarrow> dict" where
  "set_grant_ids ids session = dset session GRANTS_KEY (JList (map JStr ids))"

section \<open>Evidence and audit\<close>

record evidence =
  ev_auth_method :: string
  ev_assurance_level :: string
  ev_confirming_credential_id :: "string option"
  ev_confirming_mfa_device_id :: "string option"

definition grant_evidence :: "stepup_grant \<Rightarrow> evidence" where
  "grant_evidence g = \<lparr>ev_auth_method = sg_auth_method g,
     ev_assurance_level = sg_assurance_level g,
     ev_confirming_credential_id = sg_confirming_credential_id g,
     ev_confirming_mfa_device_id = sg_confirming_mfa_device_id g\<rparr>"

definition audit_stepup ::
  "config \<Rightarrow> time \<Rightarrow> string \<Rightarrow> string \<Rightarrow> string \<Rightarrow> string \<Rightarrow> string \<Rightarrow> string option
   \<Rightarrow> string option \<Rightarrow> string option \<Rightarrow> string option \<Rightarrow> db \<Rightarrow> db" where
  "audit_stepup cfg now event_type outcome user_id action target auth_method assurance
     credential device db =
   audit cfg now event_type outcome (Some user_id)
     (if length target \<le> 36 then Some target else None)
     (''action='' @ action @ '';target='' @ target
      @ '';auth_method='' @ (if truthy_str auth_method then or_empty auth_method else ''unknown'')
      @ '';assurance='' @ (if truthy_str assurance then or_empty assurance else ''unknown'')
      @ '';confirming_credential_id='' @ or_empty credential
      @ '';confirming_mfa_device_id='' @ or_empty device) db"

section \<open>Matching grants\<close>

text \<open>The conditions every query puts on a grant beside its identifier.\<close>

definition grant_in_scope ::
  "time \<Rightarrow> string \<Rightarrow> string \<Rightarrow> string \<Rightarrow> string \<Rightarrow> stepup_grant \<Rightarrow> bool" where
  "grant_in_scope now user_id session_id action target g \<longleftrightarrow>
     sg_user_id g = user_id \<and> sg_session_id g = session_id \<and> sg_action g = action
     \<and> sg_target g = target \<and> sg_consumed_at g = None \<and> now < sg_expires_at g"

definition is_stepup_active ::
  "config \<Rightarrow> time \<Rightarrow> dict \<Rightarrow> string \<Rightarrow> string \<Rightarrow> string option \<Rightarrow> db \<Rightarrow> stepup_error + bool" where
  "is_stepup_active cfg now session user_id action target db =
     (if action \<notin> fst ` set STEPUP_POLICIES then Inr False
      else case validate_scope action target of
        Inl c \<Rightarrow> Inl (Value_Error c)
      | Inr _ \<Rightarrow>
          (let ids = session_grant_ids session; session_id = session_id_of session in
           if ids = [] \<or> session_id = [] \<or> effective_stepup_ttl cfg \<le> 0 then Inr False
           else Inr (exists_where (\<lambda>g. sg_id g \<in> set ids
                  \<and> grant_in_scope now user_id session_id action (target_key target) g)
                  (stepup_grants db))))"

section \<open>Issuing a grant\<close>

definition grant_stepup ::
  "config \<Rightarrow> time \<Rightarrow> string \<Rightarrow> string \<Rightarrow> string \<Rightarrow> string option \<Rightarrow> string \<Rightarrow> string
   \<Rightarrow> string option \<Rightarrow> string option \<Rightarrow> dict \<times> db \<Rightarrow> (stepup_error, unit, dict \<times> db) outcome" where
  "grant_stepup cfg now new_id user_id action target auth_method assurance credential device =
   (\<lambda>(session, db).
     case check_scope action target of
       Inl c \<Rightarrow> (Inl (Value_Error c), session, db)
     | Inr _ \<Rightarrow>
        (let session_id = session_id_of session; ttl = effective_stepup_ttl cfg in
         if session_id = [] then (Inl (Value_Error No_database_session), session, db)
         else if ttl \<le> 0 then (Inl (Permission_Error Grants_disabled), session, db)
         else
          (let pruned = delete_where
                 (\<lambda>g. sg_expires_at g \<le> now \<or> sg_consumed_at g \<noteq> None) (stepup_grants db);
               grant = \<lparr>sg_id = new_id, sg_user_id = user_id, sg_session_id = session_id,
                 sg_action = action, sg_target = target_key target,
                 sg_auth_method = auth_method, sg_assurance_level = assurance,
                 sg_confirming_credential_id = credential,
                 sg_confirming_mfa_device_id = device, sg_created_at = now,
                 sg_expires_at = now + seconds ttl, sg_consumed_at = None\<rparr>;
               ids = session_grant_ids session @ [new_id]
           in (Inr (),
               set_grant_ids (drop (length ids - 12) ids) session,
               audit_stepup cfg now ''sensitive_stepup_granted'' ''success'' user_id action
                 (target_key target) (Some auth_method) (Some assurance) credential device
                 (db\<lparr>stepup_grants := add_row grant pruned\<rparr>)))))"

section \<open>Using a grant\<close>

text \<open>One request on a grant: its identifier, the scope and the evidence asked for.\<close>

type_synonym grant_request =
  "string \<times> string \<times> string \<times> string \<times> string \<times> (string \<times> string) list option"

definition evidence_ok :: "(string \<times> string) list option \<Rightarrow> stepup_grant \<Rightarrow> bool" where
  "evidence_ok required g =
     (case required of
        None \<Rightarrow> True
      | Some methods \<Rightarrow> (sg_auth_method g, sg_assurance_level g) \<in> set methods)"

definition request_matches :: "time \<Rightarrow> grant_request \<Rightarrow> stepup_grant \<Rightarrow> bool" where
  "request_matches now = (\<lambda>(grant_id, user_id, session_id, action, target, required) g.
     sg_id g = grant_id
     \<and> (grant_in_scope now user_id session_id action target g \<and> evidence_ok required g))"

text \<open>The conditional update that consumes a grant, and whether its row count is 1.\<close>

definition consume_grant :: "grant_request \<Rightarrow> time \<Rightarrow> db \<Rightarrow> bool \<times> db" where
  "consume_grant req now db =
     (rowcount (request_matches now req) (stepup_grants db) = 1,
      db\<lparr>stepup_grants := update_where (request_matches now req)
           (\<lambda>g. g\<lparr>sg_consumed_at := Some now\<rparr>) (stepup_grants db)\<rparr>)"

text \<open>The loop over the identifiers in the cookie: the first that matches ends it.\<close>

fun try_grants ::
  "bool \<Rightarrow> time \<Rightarrow> string \<Rightarrow> string \<Rightarrow> string \<Rightarrow> string \<Rightarrow> (string \<times> string) list option
   \<Rightarrow> string list \<Rightarrow> db \<Rightarrow> stepup_grant option \<times> db" where
  "try_grants consume now uid sid op target required [] db = (None, db)"
| "try_grants consume now uid sid op target required (i # ids) db =
     (if consume then
        (let (matched, db') = consume_grant (i, uid, sid, op, target, required) now db in
         if matched then (get_by sg_id i (stepup_grants db'), db')
         else try_grants consume now uid sid op target required ids db')
      else
        (case first_where (request_matches now (i, uid, sid, op, target, required))
                (stepup_grants db) of
           Some g \<Rightarrow> (Some g, db)
         | None \<Rightarrow> try_grants consume now uid sid op target required ids db))"

definition assert_stepup ::
  "config \<Rightarrow> time \<Rightarrow> string \<Rightarrow> string \<Rightarrow> string option \<Rightarrow> bool \<Rightarrow> (string \<times> string) list option
   \<Rightarrow> dict \<times> db \<Rightarrow> (stepup_error, evidence, dict \<times> db) outcome" where
  "assert_stepup cfg now user_id operation target consume required = (\<lambda>(session, db).
     case check_scope operation target of
       Inl c \<Rightarrow>
         (Inl (Permission_Error c), session,
          write_audit_event cfg now ''sensitive_stepup_failed'' ''failure'' None (Some user_id) None
            (if truthy_str target \<and> length (or_empty target) \<le> 36 then target else None) None
            (Some (''unregistered_or_invalid_action='' @ operation)) False db)
     | Inr _ \<Rightarrow>
        (if required = Some [] then (Inl (Value_Error No_evidence_method), session, db)
         else
          (let session_id = session_id_of session; expected = target_key target;
               ids = session_grant_ids session;
               (found, db') =
                 (if session_id \<noteq> [] \<and> ids \<noteq> [] \<and> effective_stepup_ttl cfg > 0
                  then try_grants consume now user_id session_id operation expected required ids db
                  else (None, db))
           in case found of
                Some g \<Rightarrow>
                  if consume then
                    (Inr (grant_evidence g),
                     set_grant_ids (filter (\<lambda>i. i \<noteq> sg_id g) ids) session,
                     audit_stepup cfg now ''sensitive_stepup_consumed'' ''success'' user_id
                       operation expected (Some (sg_auth_method g)) (Some (sg_assurance_level g))
                       (sg_confirming_credential_id g) (sg_confirming_mfa_device_id g) db')
                  else (Inr (grant_evidence g), session, db')
              | None \<Rightarrow>
                  (Inl (Permission_Error (Stepup_required operation)), session,
                   audit_stepup cfg now ''sensitive_stepup_failed'' ''failure'' user_id
                     operation expected
                     (map_option (\<lambda>ms. join_with '','' (map fst ms)) required)
                     None None None db'))))"

definition revoke_stepup :: "time \<Rightarrow> string \<Rightarrow> dict \<times> db \<Rightarrow> dict \<times> db" where
  "revoke_stepup now user_id = (\<lambda>(session, db).
     let ids = session_grant_ids session;
         db' = (if ids \<noteq> [] then
            db\<lparr>stepup_grants := update_where
              (\<lambda>g. sg_id g \<in> set ids \<and> sg_user_id g = user_id
                 \<and> sg_session_id g = session_id_of session \<and> sg_consumed_at g = None)
              (\<lambda>g. g\<lparr>sg_consumed_at := Some now\<rparr>) (stepup_grants db)\<rparr>
          else db)
     in (set_grant_ids [] session, db'))"

section \<open>Facts on single operations\<close>

lemma map_filter_as_str [simp]: "List.map_filter as_str (map JStr xs) = xs"
  by (induction xs) (simp_all add: List.map_filter_simps)

lemma grant_ids_set [simp]: "session_grant_ids (set_grant_ids ids session) = ids"
  by (simp add: session_grant_ids_def set_grant_ids_def)

lemma session_id_set [simp]: "session_id_of (set_grant_ids ids session) = session_id_of session"
  by (simp add: session_id_of_def set_grant_ids_def GRANTS_KEY_def)

lemma stepup_ttl_bounds: "0 \<le> effective_stepup_ttl cfg" "effective_stepup_ttl cfg \<le> 300"
  by (simp_all add: effective_stepup_ttl_def)

lemma audit_stepup_grants [simp]:
  "stepup_grants (audit_stepup cfg now et oc ui ac ta am al cc cm db) = stepup_grants db"
  by (simp add: audit_stepup_def)

abbreviation grants_inv :: "db \<Rightarrow> bool" where
  "grants_inv db \<equiv> unique_key sg_id (stepup_grants db)"

definition grant_live :: "grant_request \<Rightarrow> time \<Rightarrow> db \<Rightarrow> bool" where
  "grant_live req now db \<longleftrightarrow> exists_where (request_matches now req) (stepup_grants db)"

lemma grant_live_iff:
  "grant_live (i, uid, sid, op, target, required) now db \<longleftrightarrow>
   (\<exists>g \<in> set (stepup_grants db). sg_id g = i \<and> grant_in_scope now uid sid op target g
      \<and> evidence_ok required g)"
  by (simp add: grant_live_def exists_where_iff request_matches_def)

lemma rowcount_request:
  assumes "grants_inv db"
  shows "rowcount (request_matches now req) (stepup_grants db) = (if grant_live req now db then 1 else 0)"
proof -
  obtain i uid sid op target required where req: "req = (i, uid, sid, op, target, required)"
    by (metis prod.exhaust)
  show ?thesis
    unfolding req request_matches_def split grant_live_def by (rule rowcount_key_exists [OF assms])
qed

lemma consume_grant_ok [simp]: "grants_inv db \<Longrightarrow> fst (consume_grant req now db) = grant_live req now db"
  by (simp add: consume_grant_def rowcount_request)

lemma consume_grant_inv [simp]: "grants_inv (snd (consume_grant req now db)) = grants_inv db"
  by (simp add: consume_grant_def unique_key_update_where)

lemma consume_grant_miss: "\<not> grant_live req now db \<Longrightarrow> snd (consume_grant req now db) = db"
  by (simp add: consume_grant_def update_where_none grant_live_def exists_where_iff)

lemma consumed_grant_dead:
  assumes "grants_inv db" "grant_live req now db" "fst req' = fst req"
  shows "\<not> grant_live req' now' (snd (consume_grant req now db))"
proof
  obtain i uid sid op target required where req: "req = (i, uid, sid, op, target, required)"
    by (metis prod.exhaust)
  obtain uid' sid' op' target' required' where
    req': "req' = (i, uid', sid', op', target', required')"
    using assms(3) req by (metis fst_conv prod.exhaust)
  from assms(2) obtain g where g: "g \<in> set (stepup_grants db)" "request_matches now req g" "sg_id g = i"
    by (auto simp: grant_live_def exists_where_iff req request_matches_def)
  assume "grant_live req' now' (snd (consume_grant req now db))"
  then obtain r where r: "r \<in> set (stepup_grants db)" "sg_id r = i" "sg_consumed_at r = None"
    "\<not> request_matches now req r"
    by (auto simp: req' grant_live_iff consume_grant_def set_update_where grant_in_scope_def
        split: if_splits)
  show False using unique_keyD [OF assms(1) r(1) g(1)] r g by simp
qed

lemma grant_never_revived:
  "grant_live req' now' (snd (consume_grant req now db)) \<Longrightarrow> grant_live req' now' db"
  by (cases req; cases req')
    (auto simp: grant_live_iff consume_grant_def set_update_where grant_in_scope_def
      split: if_splits)

interpretation stepup: one_shot consume_grant grant_live fst grants_inv
proof (unfold_locales, goal_cases)
  case (1 db k t)
  then show ?case by (rule consume_grant_ok)
next
  case (2 db k t)
  then show ?case by (simp only: consume_grant_inv)
next
  case (3 db k t k' t')
  then have "grant_live k t db" by (simp only: consume_grant_ok)
  then show ?case using 3 by (intro consumed_grant_dead)
next
  case (4 db k' t' k t)
  then show ?case by (blast dest: grant_never_revived)
qed

lemma get_consumed_grant:
  assumes "grants_inv db" "grant_live (i, rest) now db"
  shows "\<exists>g \<in> set (stepup_grants db). request_matches now (i, rest) g \<and> sg_id g = i
     \<and> get_by sg_id i (stepup_grants (snd (consume_grant (i, rest) now db)))
         = Some (g\<lparr>sg_consumed_at := Some now\<rparr>)"
proof -
  obtain uid sid op target required where rest: "rest = (uid, sid, op, target, required)"
    by (cases rest)
  obtain g where g: "g \<in> set (stepup_grants db)" "request_matches now (i, rest) g"
    using assms(2) by (auto simp: grant_live_def exists_where_iff)
  then have i: "sg_id g = i" by (simp add: rest request_matches_def)
  then have "get_by sg_id i (stepup_grants db) = Some g"
    using get_by_unique [OF assms(1) g(1)] by simp
  then have "get_by sg_id i (stepup_grants (snd (consume_grant (i, rest) now db)))
      = Some (g\<lparr>sg_consumed_at := Some now\<rparr>)"
    using g(2) by (simp add: consume_grant_def get_by_update_where)
  then show ?thesis using g i by blast
qed

lemma try_grants_spec:
  assumes "grants_inv db"
  shows "case try_grants True now uid sid op target required ids db of
      (None, db') \<Rightarrow> db' = db \<and> (\<forall>i \<in> set ids. \<not> grant_live (i, uid, sid, op, target, required) now db)
    | (Some g, db') \<Rightarrow> \<exists>g0 \<in> set (stepup_grants db). sg_id g0 \<in> set ids
        \<and> grant_in_scope now uid sid op target g0 \<and> evidence_ok required g0
        \<and> g = g0\<lparr>sg_consumed_at := Some now\<rparr>
        \<and> db' = snd (consume_grant (sg_id g0, uid, sid, op, target, required) now db)"
  using assms
proof (induction ids)
  case Nil
  then show ?case by simp
next
  case (Cons i ids)
  let ?req = "(i, uid, sid, op, target, required)"
  show ?case
  proof (cases "grant_live ?req now db")
    case True
    from get_consumed_grant [OF Cons.prems True] obtain g where
      "g \<in> set (stepup_grants db)" "request_matches now ?req g" "sg_id g = i"
      "get_by sg_id i (stepup_grants (snd (consume_grant ?req now db)))
         = Some (g\<lparr>sg_consumed_at := Some now\<rparr>)"
      by blast
    then show ?thesis using True Cons.prems
      by (auto simp: case_prod_beta Let_def request_matches_def)
  next
    case False
    then show ?thesis
      using Cons by (auto simp: case_prod_beta Let_def consume_grant_miss split: option.splits)
  qed
qed

lemma first_request:
  "grants_inv db \<Longrightarrow> (\<exists>g. first_where (request_matches now req) (stepup_grants db) = Some g)
     \<longleftrightarrow> grant_live req now db"
  by (cases "first_where (request_matches now req) (stepup_grants db)")
    (auto simp: grant_live_def exists_where_iff first_where_None dest: first_where_SomeD)

text \<open>The condition under which a call of \<open>assert_stepup\<close> succeeds.\<close>

definition stepup_satisfied ::
  "config \<Rightarrow> time \<Rightarrow> string \<Rightarrow> string \<Rightarrow> string option \<Rightarrow> (string \<times> string) list option
   \<Rightarrow> dict \<Rightarrow> db \<Rightarrow> bool" where
  "stepup_satisfied cfg now uid op target required session db \<longleftrightarrow>
     check_scope op target = Inr () \<and> required \<noteq> Some [] \<and> effective_stepup_ttl cfg > 0
     \<and> session_id_of session \<noteq> []
     \<and> (\<exists>g \<in> set (stepup_grants db). sg_id g \<in> set (session_grant_ids session)
          \<and> grant_in_scope now uid (session_id_of session) op (target_key target) g
          \<and> evidence_ok required g)"

lemma stepup_satisfied_live:
  "stepup_satisfied cfg now uid op target required session db \<longleftrightarrow>
     check_scope op target = Inr () \<and> required \<noteq> Some [] \<and> effective_stepup_ttl cfg > 0
     \<and> session_id_of session \<noteq> []
     \<and> (\<exists>i \<in> set (session_grant_ids session).
          grant_live (i, uid, session_id_of session, op, target_key target, required) now db)"
  by (auto simp: stepup_satisfied_def grant_live_iff)

lemma assert_stepup_consuming:
  assumes "grants_inv db"
  shows "case assert_stepup cfg now uid op target True required (session, db) of
      (Inr ev, session', db') \<Rightarrow> stepup_satisfied cfg now uid op target required session db
        \<and> (\<exists>g \<in> set (stepup_grants db). sg_id g \<in> set (session_grant_ids session)
            \<and> grant_in_scope now uid (session_id_of session) op (target_key target) g
            \<and> evidence_ok required g \<and> ev = grant_evidence g
            \<and> session' = set_grant_ids (filter (\<lambda>i. i \<noteq> sg_id g) (session_grant_ids session)) session
            \<and> stepup_grants db' = stepup_grants (snd (consume_grant
                 (sg_id g, uid, session_id_of session, op, target_key target, required) now db)))
    | (Inl e, session', db') \<Rightarrow> \<not> stepup_satisfied cfg now uid op target required session db
        \<and> session' = session \<and> stepup_grants db' = stepup_grants db"
proof (cases "check_scope op target")
  case (Inl c)
  then show ?thesis
    by (simp add: assert_stepup_def stepup_satisfied_def write_audit_event_def Let_def)
next
  case (Inr u)
  let ?ids = "session_grant_ids session"
  let ?sid = "session_id_of session"
  show ?thesis
  proof (cases "required = Some [] \<or> ?sid = [] \<or> ?ids = [] \<or> effective_stepup_ttl cfg \<le> 0")
    case True
    then show ?thesis using Inr
      by (auto simp: assert_stepup_def stepup_satisfied_def Let_def)
  next
    case False
    then have pos: "?sid \<noteq> [] \<and> ?ids \<noteq> [] \<and> effective_stepup_ttl cfg > 0" "required \<noteq> Some []"
      by auto
    let ?tried = "try_grants True now uid ?sid op (target_key target) required ?ids db"
    have spec: "case ?tried of
      (None, db') \<Rightarrow> db' = db \<and> (\<forall>i \<in> set ?ids. \<not> grant_live (i, uid, ?sid, op, target_key target, required) now db)
    | (Some g, db') \<Rightarrow> \<exists>g0 \<in> set (stepup_grants db). sg_id g0 \<in> set ?ids
        \<and> grant_in_scope now uid ?sid op (target_key target) g0 \<and> evidence_ok required g0
        \<and> g = g0\<lparr>sg_consumed_at := Some now\<rparr>
        \<and> db' = snd (consume_grant (sg_id g0, uid, ?sid, op, target_key target, required) now db)"
      by (rule try_grants_spec [OF assms])
    obtain found db' where tried: "?tried = (found, db')" by force
    show ?thesis
    proof (cases found)
      case None
      then show ?thesis using spec tried pos Inr
        by (auto simp: assert_stepup_def stepup_satisfied_live Let_def)
    next
      case (Some g)
      with spec tried obtain g0 where g0: "g0 \<in> set (stepup_grants db)" "sg_id g0 \<in> set ?ids"
        "grant_in_scope now uid ?sid op (target_key target) g0" "evidence_ok required g0"
        "g = g0\<lparr>sg_consumed_at := Some now\<rparr>"
        "db' = snd (consume_grant (sg_id g0, uid, ?sid, op, target_key target, required) now db)"
        by auto
      have "grant_evidence g = grant_evidence g0" "sg_id g = sg_id g0"
        by (simp_all add: g0 grant_evidence_def)
      then show ?thesis using g0 tried Some pos Inr
        by (auto simp: assert_stepup_def stepup_satisfied_def Let_def intro!: bexI [of _ g0])
    qed
  qed
qed


lemma try_grants_reading:
  assumes "grants_inv db"
  shows "case try_grants False now uid sid op target required ids db of
      (None, db') \<Rightarrow> db' = db \<and> (\<forall>i \<in> set ids. \<not> grant_live (i, uid, sid, op, target, required) now db)
    | (Some g, db') \<Rightarrow> db' = db \<and> g \<in> set (stepup_grants db) \<and> sg_id g \<in> set ids
        \<and> grant_in_scope now uid sid op target g \<and> evidence_ok required g"
proof (induction ids)
  case Nil
  then show ?case by simp
next
  case (Cons i ids)
  let ?req = "(i, uid, sid, op, target, required)"
  show ?case
  proof (cases "first_where (request_matches now ?req) (stepup_grants db)")
    case None
    then have "\<not> grant_live ?req now db"
      by (simp add: first_where_None grant_live_def exists_where_iff)
    then show ?thesis using Cons None by (auto split: option.splits)
  next
    case (Some g)
    then show ?thesis by (auto simp: request_matches_def dest!: first_where_SomeD)
  qed
qed

lemma assert_stepup_reading:
  assumes "grants_inv db"
  shows "case assert_stepup cfg now uid op target False required (session, db) of
      (Inr ev, session', db') \<Rightarrow> stepup_satisfied cfg now uid op target required session db
        \<and> session' = session \<and> db' = db
    | (Inl e, session', db') \<Rightarrow> \<not> stepup_satisfied cfg now uid op target required session db
        \<and> session' = session \<and> stepup_grants db' = stepup_grants db"
proof (cases "check_scope op target = Inr () \<and> required \<noteq> Some [] \<and> session_id_of session \<noteq> []
    \<and> session_grant_ids session \<noteq> [] \<and> effective_stepup_ttl cfg > 0")
  case True
  let ?tried = "try_grants False now uid (session_id_of session) op (target_key target) required
    (session_grant_ids session) db"
  obtain found db' where tried: "?tried = (found, db')" by force
  show ?thesis
    using try_grants_reading [OF assms, where now = now and uid = uid and sid = "session_id_of session"
        and op = op and target = "target_key target" and required = required
        and ids = "session_grant_ids session"] tried True
    by (cases found) (auto simp: assert_stepup_def stepup_satisfied_live grant_live_iff Let_def)
next
  case False
  then show ?thesis
    by (cases "check_scope op target")
      (auto simp: assert_stepup_def stepup_satisfied_def Let_def write_audit_event_def)
qed

text \<open>The step-up operations write no table but their own and the audit tables.\<close>

lemma consume_grant_frame [simp]:
  "users (snd (consume_grant req now db)) = users db"
  "webauthn_credentials (snd (consume_grant req now db)) = webauthn_credentials db"
  "mfa_devices (snd (consume_grant req now db)) = mfa_devices db"
  "external_identities (snd (consume_grant req now db)) = external_identities db"
  "oidc_providers (snd (consume_grant req now db)) = oidc_providers db"
  by (simp_all add: consume_grant_def)

lemma try_grants_frame:
  "users (snd (try_grants consume now uid sid op target required ids db)) = users db
   \<and> webauthn_credentials (snd (try_grants consume now uid sid op target required ids db))
       = webauthn_credentials db
   \<and> mfa_devices (snd (try_grants consume now uid sid op target required ids db)) = mfa_devices db
   \<and> external_identities (snd (try_grants consume now uid sid op target required ids db))
       = external_identities db
   \<and> oidc_providers (snd (try_grants consume now uid sid op target required ids db)) = oidc_providers db"
  by (induction ids arbitrary: db) (auto simp: case_prod_beta Let_def split: option.split)

definition credential_tables :: "db \<Rightarrow> user list \<times> webauthn_credential list \<times> mfa_device list \<times> external_identity list \<times> oidc_provider list" where
  "credential_tables db = (users db, webauthn_credentials db, mfa_devices db, external_identities db, oidc_providers db)"

lemma try_grants_tables:
  "credential_tables (snd (try_grants consume now uid sid op target required ids db)) = credential_tables db"
  using try_grants_frame by (simp add: credential_tables_def)

lemma audit_tables [simp]:
  "credential_tables (audit_stepup cfg now ev out uid op target am as cr dv db) = credential_tables db"
  "credential_tables (write_audit_event cfg now ev out a b c d e f g db) = credential_tables db"
  by (simp_all add: credential_tables_def audit_stepup_def)

lemma assert_stepup_tables:
  "credential_tables (snd (snd (assert_stepup cfg now uid op target consume required (session, db)))) = credential_tables db"
  by (simp add: assert_stepup_def Let_def case_prod_beta try_grants_tables split: sum.split option.split)

lemma assert_stepup_frame:
  assumes "assert_stepup cfg now uid op target consume required (session, db) = (r, session', db')"
  shows "users db' = users db" "webauthn_credentials db' = webauthn_credentials db"
    "mfa_devices db' = mfa_devices db" "external_identities db' = external_identities db"
    "oidc_providers db' = oidc_providers db"
  using assert_stepup_tables [of cfg now uid op target consume required session db] assms
  by (simp_all add: credential_tables_def)

section \<open>Requests one after the other\<close>

text \<open>
  The calls of a server's life, each with the cookie session its request carries: a
  client may send an old cookie again.
\<close>

datatype stepup_call =
    Call_grant config time string string string "string option" string string "string option"
      "string option" dict
  | Call_assert config time string string "string option" "(string \<times> string) list option" dict
  | Call_revoke time string dict

fun run_call :: "stepup_call \<Rightarrow> db \<Rightarrow> bool \<times> db" where
  "run_call (Call_grant cfg now i uid op target how assurance cred dev session) db =
     (case grant_stepup cfg now i uid op target how assurance cred dev (session, db) of
        (r, _, db') \<Rightarrow> (\<not> isl r, db'))"
| "run_call (Call_assert cfg now uid op target required session) db =
     (case assert_stepup cfg now uid op target True required (session, db) of
        (r, _, db') \<Rightarrow> (\<not> isl r, db'))"
| "run_call (Call_revoke now uid session) db =
     (case revoke_stepup now uid (session, db) of (_, db') \<Rightarrow> (True, db'))"

fun run_calls :: "stepup_call list \<Rightarrow> db \<Rightarrow> bool list \<times> db" where
  "run_calls [] db = ([], db)"
| "run_calls (c # cs) db =
     (let (ok, db') = run_call c db; (oks, db'') = run_calls cs db' in (ok # oks, db''))"

fun is_grant :: "stepup_call \<Rightarrow> bool" where
  "is_grant (Call_grant _ _ _ _ _ _ _ _ _ _ _) = True"
| "is_grant _ = False"

fun is_assert :: "stepup_call \<Rightarrow> bool" where
  "is_assert (Call_assert _ _ _ _ _ _ _) = True"
| "is_assert _ = False"

fun call_ids :: "stepup_call \<Rightarrow> string list" where
  "call_ids (Call_grant _ _ i _ _ _ _ _ _ _ _) = [i]"
| "call_ids _ = []"

definition succeeded :: "(stepup_call \<Rightarrow> bool) \<Rightarrow> stepup_call list \<Rightarrow> bool list \<Rightarrow> nat" where
  "succeeded P cs oks = length (filter (\<lambda>(c, ok). P c \<and> ok) (zip cs oks))"

lemma succeeded_simps [simp]:
  "succeeded P [] oks = 0"
  "succeeded P (c # cs) (ok # oks) = (if P c \<and> ok then 1 else 0) + succeeded P cs oks"
  by (simp_all add: succeeded_def)

definition unused_grants :: "db \<Rightarrow> nat" where
  "unused_grants db = rowcount (\<lambda>g. sg_consumed_at g = None) (stepup_grants db)"

definition grants_bounded :: "db \<Rightarrow> bool" where
  "grants_bounded db \<longleftrightarrow>
     (\<forall>g \<in> set (stepup_grants db). sg_expires_at g \<le> sg_created_at g + seconds 300)"

lemma unused_after_consume:
  assumes "g \<in> set (stepup_grants db)" "request_matches now req g" "sg_consumed_at g = None"
  shows "unused_grants (snd (consume_grant req now db)) < unused_grants db"
  unfolding unused_grants_def consume_grant_def snd_conv
  using assms by (simp add: rowcount_update_less [of g])

text \<open>What one call does to the invariant, to the rows and to the count of unused grants.\<close>

lemma grant_stepup_rows:
  "case grant_stepup cfg now i uid op target how assurance cred dev (session, db) of
     (r, session', db') \<Rightarrow>
       (isl r \<longrightarrow> db' = db) \<and> (\<not> isl r \<longrightarrow> (\<exists>g.
          stepup_grants db' = add_row g (delete_where
            (\<lambda>g. sg_expires_at g \<le> now \<or> sg_consumed_at g \<noteq> None) (stepup_grants db))
          \<and> sg_id g = i \<and> sg_consumed_at g = None \<and> sg_created_at g = now
          \<and> sg_expires_at g = now + seconds (effective_stepup_ttl cfg)
          \<and> grant_in_scope now uid (session_id_of session) op (target_key target) g
          \<and> grant_evidence g = \<lparr>ev_auth_method = how, ev_assurance_level = assurance,
               ev_confirming_credential_id = cred, ev_confirming_mfa_device_id = dev\<rparr>
          \<and> i \<in> set (session_grant_ids session') \<and> session_id_of session' = session_id_of session
          \<and> session_id_of session \<noteq> [] \<and> effective_stepup_ttl cfg > 0
          \<and> check_scope op target = Inr ()))"
proof -
  have last: "i \<in> set (drop (length (ids @ [i]) - 12) (ids @ [i]))" for ids :: "string list"
    by (simp add: drop_append)
  show ?thesis
    unfolding grant_stepup_def
    using last [of "session_grant_ids session"]
    by (auto simp: Let_def grant_in_scope_def grant_evidence_def split: sum.splits)
qed

lemma revoke_stepup_rows:
  "\<exists>P. stepup_grants (snd (revoke_stepup now uid (session, db)))
     = update_where P (\<lambda>g. g\<lparr>sg_consumed_at := Some now\<rparr>) (stepup_grants db)"
proof (cases "session_grant_ids session = []")
  case True
  then have "stepup_grants (snd (revoke_stepup now uid (session, db)))
    = update_where (\<lambda>_. False) (\<lambda>g. g\<lparr>sg_consumed_at := Some now\<rparr>) (stepup_grants db)"
    by (simp add: revoke_stepup_def update_where_none)
  then show ?thesis by blast
next
  case False
  then show ?thesis by (auto simp: revoke_stepup_def Let_def)
qed

lemma run_call_inv:
  assumes "grants_inv db" "grants_bounded db" "set (call_ids c) \<inter> sg_id ` set (stepup_grants db) = {}"
  shows "grants_inv (snd (run_call c db)) \<and> grants_bounded (snd (run_call c db))
    \<and> sg_id ` set (stepup_grants (snd (run_call c db)))
        \<subseteq> set (call_ids c) \<union> sg_id ` set (stepup_grants db)
    \<and> unused_grants (snd (run_call c db)) + (if is_assert c \<and> fst (run_call c db) then 1 else 0)
        \<le> unused_grants db + (if is_grant c \<and> fst (run_call c db) then 1 else 0)"
proof (cases c)
  case (Call_grant cfg now i uid op target how assurance cred dev session)
  obtain r session' db' where eq:
    "grant_stepup cfg now i uid op target how assurance cred dev (session, db) = (r, session', db')"
    by (metis prod.exhaust)
  show ?thesis
  proof (cases "isl r")
    case True
    then show ?thesis using assms eq Call_grant
        grant_stepup_rows [where cfg = cfg and now = now and i = i and uid = uid and op = op
          and target = target and how = how and assurance = assurance and cred = cred
          and dev = dev and session = session and db = db]
      by auto
  next
    case False
    with eq grant_stepup_rows [where cfg = cfg and now = now and i = i and uid = uid and op = op
          and target = target and how = how and assurance = assurance and cred = cred
          and dev = dev and session = session and db = db]
    obtain g where g: "stepup_grants db' = add_row g (delete_where
            (\<lambda>g. sg_expires_at g \<le> now \<or> sg_consumed_at g \<noteq> None) (stepup_grants db))"
          "sg_id g = i" "sg_created_at g = now"
          "sg_expires_at g = now + seconds (effective_stepup_ttl cfg)"
      by auto
    have "grants_inv db'" using assms(1,3) g Call_grant
      by (auto simp: unique_key_add_row unique_key_delete_where set_delete_where)
    moreover have "grants_bounded db'" using assms(2) g stepup_ttl_bounds [of cfg]
      by (auto simp: grants_bounded_def set_add_row set_delete_where)
    moreover have "unused_grants db' \<le> unused_grants db + 1"
      unfolding unused_grants_def g(1) rowcount_add_row
      by (rule add_mono [OF rowcount_delete_le]) simp
    ultimately show ?thesis using Call_grant eq False g
      by (auto simp: set_add_row set_delete_where)
  qed
next
  case (Call_assert cfg now uid op target required session)
  obtain r session' db' where eq:
    "assert_stepup cfg now uid op target True required (session, db) = (r, session', db')"
    by (metis prod.exhaust)
  show ?thesis
  proof (cases r)
    case (Inl e)
    have "stepup_grants db' = stepup_grants db"
      using assert_stepup_consuming [OF assms(1), where cfg = cfg and now = now and uid = uid
        and op = op and target = target and required = required and session = session] eq Inl
      by simp
    then show ?thesis using assms eq Call_assert Inl
      by (simp add: grants_bounded_def unused_grants_def)
  next
    case (Inr ev)
    let ?req = "\<lambda>g. (sg_id g, uid, session_id_of session, op, target_key target, required)"
    from assert_stepup_consuming [OF assms(1), where cfg = cfg and now = now and uid = uid
        and op = op and target = target and required = required and session = session] eq Inr
    obtain g where g: "g \<in> set (stepup_grants db)"
      "grant_in_scope now uid (session_id_of session) op (target_key target) g" "evidence_ok required g"
      "stepup_grants db' = stepup_grants (snd (consume_grant (?req g) now db))"
      by auto
    have "unused_grants (snd (consume_grant (?req g) now db)) < unused_grants db"
      using g by (intro unused_after_consume) (auto simp: request_matches_def grant_in_scope_def)
    then have "unused_grants db' + 1 \<le> unused_grants db" using g(4) by (simp add: unused_grants_def)
    moreover have "grants_inv db'" using assms(1) g(4) consume_grant_inv by metis
    moreover have "grants_bounded db'" using assms(2) g(4)
      by (auto simp: grants_bounded_def consume_grant_def set_update_where)
    moreover have "sg_id ` set (stepup_grants db') = sg_id ` set (stepup_grants db)"
      unfolding g(4) consume_grant_def by (simp add: keys_image_update_where)
    ultimately show ?thesis using Call_assert eq Inr by simp
  qed
next
  case (Call_revoke now uid session)
  obtain P where P: "stepup_grants (snd (revoke_stepup now uid (session, db)))
     = update_where P (\<lambda>g. g\<lparr>sg_consumed_at := Some now\<rparr>) (stepup_grants db)"
    using revoke_stepup_rows by blast
  have "rowcount (\<lambda>g. sg_consumed_at g = None)
      (update_where P (\<lambda>g. g\<lparr>sg_consumed_at := Some now\<rparr>) (stepup_grants db))
    \<le> rowcount (\<lambda>g. sg_consumed_at g = None) (stepup_grants db)"
    by (intro rowcount_update_le) simp
  moreover have "sg_id ` set (update_where P (\<lambda>g. g\<lparr>sg_consumed_at := Some now\<rparr>) (stepup_grants db))
    = sg_id ` set (stepup_grants db)"
    by (simp add: keys_image_update_where)
  ultimately show ?thesis using Call_revoke assms P
    by (auto simp: case_prod_beta unused_grants_def grants_bounded_def set_update_where
        unique_key_update_where split: if_splits)
qed


lemma run_calls_inv:
  assumes "grants_inv db" "grants_bounded db" "distinct (concat (map call_ids cs))"
    "set (concat (map call_ids cs)) \<inter> sg_id ` set (stepup_grants db) = {}"
  shows "grants_inv (snd (run_calls cs db)) \<and> grants_bounded (snd (run_calls cs db))
    \<and> unused_grants (snd (run_calls cs db)) + succeeded is_assert cs (fst (run_calls cs db))
        \<le> unused_grants db + succeeded is_grant cs (fst (run_calls cs db))"
  using assms
proof (induction cs arbitrary: db)
  case Nil
  then show ?case by simp
next
  case (Cons c cs)
  let ?db = "snd (run_call c db)"
  have "set (call_ids c) \<inter> sg_id ` set (stepup_grants db) = {}" using Cons.prems(4) by auto
  note step = run_call_inv [OF Cons.prems(1,2) this]
  have "sg_id ` set (stepup_grants ?db) \<subseteq> set (call_ids c) \<union> sg_id ` set (stepup_grants db)"
    using step by blast
  moreover have "set (call_ids c) \<inter> set (concat (map call_ids cs)) = {}"
    "distinct (concat (map call_ids cs))" "set (concat (map call_ids cs)) \<inter> sg_id ` set (stepup_grants db) = {}"
    using Cons.prems(3,4) by auto
  ultimately have fresh: "set (concat (map call_ids cs)) \<inter> sg_id ` set (stepup_grants ?db) = {}"
    and dist: "distinct (concat (map call_ids cs))"
    by blast+
  have inv: "grants_inv ?db" "grants_bounded ?db" using step by blast+
  have ih: "grants_inv (snd (run_calls cs ?db)) \<and> grants_bounded (snd (run_calls cs ?db))
    \<and> unused_grants (snd (run_calls cs ?db)) + succeeded is_assert cs (fst (run_calls cs ?db))
        \<le> unused_grants ?db + succeeded is_grant cs (fst (run_calls cs ?db))"
    by (rule Cons.IH [OF inv dist fresh])
  have "unused_grants ?db + (if is_assert c \<and> fst (run_call c db) then 1 else 0)
      \<le> unused_grants db + (if is_grant c \<and> fst (run_call c db) then 1 else 0)"
    using step by blast
  then show ?case using ih by (simp add: case_prod_beta Let_def)
qed

section \<open>Properties\<close>

text \<open>
  C1. A consuming \<open>assert_stepup\<close> succeeds exactly when a grant of this user, session,
  action and target is in the cookie, unconsumed, unexpired and of the evidence asked
  for; it then returns that grant's evidence, takes its identifier out of the cookie and
  marks that one row consumed. In every other case cookie and grants stay as they were.
\<close>

theorem assert_stepup_correct:
  assumes "unique_key sg_id (stepup_grants db)"
  shows "case assert_stepup cfg now uid op target True required (session, db) of
      (Inr ev, session', db') \<Rightarrow> stepup_satisfied cfg now uid op target required session db
        \<and> (\<exists>g \<in> set (stepup_grants db). sg_id g \<in> set (session_grant_ids session)
            \<and> grant_in_scope now uid (session_id_of session) op (target_key target) g
            \<and> evidence_ok required g \<and> ev = grant_evidence g
            \<and> session' = set_grant_ids (filter (\<lambda>i. i \<noteq> sg_id g) (session_grant_ids session)) session
            \<and> stepup_grants db' = update_where (\<lambda>r. sg_id r = sg_id g)
                 (\<lambda>r. r\<lparr>sg_consumed_at := Some now\<rparr>) (stepup_grants db))
    | (Inl e, session', db') \<Rightarrow> \<not> stepup_satisfied cfg now uid op target required session db
        \<and> session' = session \<and> stepup_grants db' = stepup_grants db"
proof -
  have same: "stepup_grants (snd (consume_grant (sg_id g, uid, sid, op, t, required) now db))
      = update_where (\<lambda>r. sg_id r = sg_id g) (\<lambda>r. r\<lparr>sg_consumed_at := Some now\<rparr>) (stepup_grants db)"
    if "g \<in> set (stepup_grants db)" "grant_in_scope now uid sid op t g" "evidence_ok required g"
    for g sid t
    using that unique_keyD [OF assms _ that(1)]
    by (force simp: consume_grant_def update_where_def request_matches_def)
  note spec = assert_stepup_consuming [OF assms, where cfg = cfg and now = now and uid = uid
        and op = op and target = target and required = required and session = session]
  obtain r session' db' where
    eq: "assert_stepup cfg now uid op target True required (session, db) = (r, session', db')"
    by (metis prod.exhaust)
  show ?thesis
  proof (cases r)
    case (Inl e)
    then show ?thesis using spec eq by simp
  next
    case (Inr ev)
    then show ?thesis using spec same unfolding eq by fastforce
  qed
qed

definition demo_session :: dict where
  "demo_session = [(''session_id'', JStr ''s1'')]"

theorem assert_stepup_correct_witness:
  "case assert_stepup demo_config 0 ''u'' ''delete_post'' (Some ''p'') True None (demo_session, empty_db) of
      (Inr ev, session', db') \<Rightarrow> False
    | (Inl e, session', db') \<Rightarrow> session' = demo_session"
  using assert_stepup_correct [where db = empty_db and cfg = demo_config and now = 0
      and uid = "''u''" and op = "''delete_post''" and target = "Some ''p''" and required = None and session = demo_session]
  by (simp add: empty_db_def unique_key_def stepup_satisfied_def split: prod.splits sum.splits)

text \<open>
  C2. Every sensitive operation that is let through is paid for by its own fresh
  authentication: over any sequence of grants, assertions and revocations, with whatever
  cookies the requests carry (an old cookie sent again included), the assertions that
  succeed are at most the grants that were unused at the start plus those issued since.
\<close>

theorem sensitive_operations_paid:
  assumes "unique_key sg_id (stepup_grants db)" "grants_bounded db"
    and "distinct (concat (map call_ids calls))"
    and "set (concat (map call_ids calls)) \<inter> sg_id ` set (stepup_grants db) = {}"
  shows "succeeded is_assert calls (fst (run_calls calls db))
    \<le> unused_grants db + succeeded is_grant calls (fst (run_calls calls db))"
  using run_calls_inv [OF assms] by linarith

definition demo_calls :: "stepup_call list" where
  "demo_calls =
    [Call_grant demo_config 0 ''g1'' ''u'' ''delete_post'' (Some ''p'') ''webauthn'' ''high'' None None
       demo_session,
     Call_assert demo_config 5 ''u'' ''delete_post'' (Some ''p'') None (set_grant_ids [''g1''] demo_session),
     Call_assert demo_config 6 ''u'' ''delete_post'' (Some ''p'') None (set_grant_ids [''g1''] demo_session)]"

theorem sensitive_operations_paid_witness:
  "succeeded is_assert demo_calls (fst (run_calls demo_calls empty_db))
    \<le> unused_grants empty_db + succeeded is_grant demo_calls (fst (run_calls demo_calls empty_db))"
  by (rule sensitive_operations_paid)
    (simp_all add: empty_db_def unique_key_def grants_bounded_def demo_calls_def)

text \<open>
  C3. On every database the step-up calls can reach, an assertion that succeeds was
  preceded, by less than 300 seconds, by a grant to the same user in the same browser
  session for the same action and target, whatever lifetime the settings ask for.
\<close>

theorem stepup_is_recent:
  assumes "stepup_grants db0 = []" "distinct (concat (map call_ids calls))"
    and "\<not> raised (assert_stepup cfg now uid op target True required (session, snd (run_calls calls db0)))"
  shows "\<exists>g \<in> set (stepup_grants (snd (run_calls calls db0))).
    sg_user_id g = uid \<and> sg_session_id g = session_id_of session \<and> sg_action g = op
    \<and> sg_target g = target_key target \<and> now < sg_created_at g + seconds 300"
proof -
  have inv: "grants_inv (snd (run_calls calls db0))" "grants_bounded (snd (run_calls calls db0))"
    using run_calls_inv [of db0 calls] assms(1,2) by (simp_all add: unique_key_def grants_bounded_def)
  obtain ev session' db' where
    "assert_stepup cfg now uid op target True required (session, snd (run_calls calls db0))
      = (Inr ev, session', db')"
    using assms(3) by (metis prod.exhaust fst_conv isl_def sum.exhaust)
  then obtain g where "g \<in> set (stepup_grants (snd (run_calls calls db0)))"
    "grant_in_scope now uid (session_id_of session) op (target_key target) g"
    using assert_stepup_consuming [OF inv(1), where cfg = cfg and now = now and uid = uid
        and op = op and target = target and required = required and session = session]
    by auto
  then show ?thesis using inv(2) by (force simp: grant_in_scope_def grants_bounded_def)
qed

theorem stepup_is_recent_witness:
  "\<exists>g \<in> set (stepup_grants (snd (run_calls (take 1 demo_calls) empty_db))).
    sg_user_id g = ''u'' \<and> sg_session_id g = session_id_of (set_grant_ids [''g1''] demo_session)
    \<and> sg_action g = ''delete_post'' \<and> sg_target g = target_key (Some ''p'')
    \<and> 5 < sg_created_at g + seconds 300"
proof (rule stepup_is_recent)
  show "stepup_grants empty_db = []" by (simp add: empty_db_def)
  show "distinct (concat (map call_ids (take 1 demo_calls)))" by (simp add: demo_calls_def)
  show "\<not> raised (assert_stepup demo_config 5 ''u'' ''delete_post'' (Some ''p'') True None
      (set_grant_ids [''g1''] demo_session, snd (run_calls (take 1 demo_calls) empty_db)))"
    by code_simp
qed

text \<open>
  Round trip: after a grant that succeeds, the same session can assert the same
  operation on the same target, with any evidence requirement the grant meets, at any
  time before the grant expires, and gets the evidence recorded at the grant. A second
  assertion with the first cookie again is refused when the grant was the only one.
\<close>

theorem grant_then_assert_once:
  assumes "unique_key sg_id (stepup_grants db)" "new_id \<notin> sg_id ` set (stepup_grants db)"
    and "grant_stepup cfg now new_id uid op target how assurance cred dev (session, db)
          = (Inr (), session1, db1)"
    and "session_grant_ids session = []"
    and "now \<le> now1" "now1 < now + seconds (effective_stepup_ttl cfg)"
    and "required = None \<or> (\<exists>ms. required = Some ms \<and> (how, assurance) \<in> set ms)"
    and "assert_stepup cfg now1 uid op target True required (session1, db1) = (r, session2, db2)"
  shows "r = Inr \<lparr>ev_auth_method = how, ev_assurance_level = assurance,
            ev_confirming_credential_id = cred, ev_confirming_mfa_device_id = dev\<rparr>
      \<and> session_grant_ids session2 = []
      \<and> raised (assert_stepup cfg now2 uid op target True required2 (session1, db2))"
proof -
  let ?sid = "session_id_of session"
  let ?t = "target_key target"
  obtain g where g: "stepup_grants db1 = add_row g (delete_where
        (\<lambda>g. sg_expires_at g \<le> now \<or> sg_consumed_at g \<noteq> None) (stepup_grants db))"
      "sg_id g = new_id" "sg_consumed_at g = None"
      "sg_expires_at g = now + seconds (effective_stepup_ttl cfg)"
      "grant_in_scope now uid ?sid op ?t g"
      "grant_evidence g = \<lparr>ev_auth_method = how, ev_assurance_level = assurance,
         ev_confirming_credential_id = cred, ev_confirming_mfa_device_id = dev\<rparr>"
      "session_id_of session1 = ?sid" "?sid \<noteq> []" "effective_stepup_ttl cfg > 0"
      "check_scope op target = Inr ()"
    using grant_stepup_rows [where cfg = cfg and now = now and i = new_id and uid = uid and op = op
        and target = target and how = how and assurance = assurance and cred = cred
        and dev = dev and session = session and db = db] assms(3)
    by auto
  have ids: "session_grant_ids session1 = [new_id]"
    using assms(3,4) by (auto simp: grant_stepup_def Let_def split: sum.splits if_splits)
  have inv: "grants_inv db1" unfolding g(1)
    using assms(1,2) g(2) by (auto simp: unique_key_add_row unique_key_delete_where set_delete_where)
  have mem: "g \<in> set (stepup_grants db1)" unfolding g(1) by (simp add: set_add_row)
  have only: "g' = g" if "g' \<in> set (stepup_grants db1)" "sg_id g' = new_id" for g'
    using unique_keyD [OF inv that(1) mem] that g(2) by simp
  have scope: "grant_in_scope now1 uid ?sid op ?t g"
    using g(4,5) assms(5,6) by (simp add: grant_in_scope_def)
  have ev: "sg_auth_method g = how" "sg_assurance_level g = assurance"
    using g(6) by (simp_all add: grant_evidence_def)
  then have req: "evidence_ok required g" "required \<noteq> Some []"
    using assms(7) by (auto simp: evidence_ok_def)
  have sat: "stepup_satisfied cfg now1 uid op target required session1 db1"
    using g mem scope req ids by (auto simp: stepup_satisfied_def)
  note spec = assert_stepup_consuming [OF inv, where cfg = cfg and now = now1 and uid = uid
        and op = op and target = target and required = required and session = session1]
  obtain evd where r: "r = Inr evd" using spec sat assms(8) by (cases r) auto
  with spec assms(8) obtain g' where g': "g' \<in> set (stepup_grants db1)" "sg_id g' = new_id"
      "evd = grant_evidence g'"
      "session2 = set_grant_ids (filter (\<lambda>i. i \<noteq> sg_id g') (session_grant_ids session1)) session1"
      "stepup_grants db2 = stepup_grants (snd (consume_grant
         (sg_id g', uid, session_id_of session1, op, ?t, required) now1 db1))"
    by (auto simp: ids)
  then have db2: "stepup_grants db2 = stepup_grants (snd (consume_grant
         (new_id, uid, ?sid, op, ?t, required) now1 db1))"
    using g(7) by simp
  have live: "grant_live (new_id, uid, ?sid, op, ?t, required) now1 db1"
    using mem g(2) scope req by (auto simp: grant_live_iff)
  have "\<not> grant_live (new_id, uid, ?sid, op, ?t, required2) now2 db2"
    using consumed_grant_dead [OF inv live, of "(new_id, uid, ?sid, op, ?t, required2)" now2] db2
    by (simp add: grant_live_def)
  then have "\<not> stepup_satisfied cfg now2 uid op target required2 session1 db2"
    by (simp add: stepup_satisfied_live ids g(7))
  moreover have "grants_inv db2" using inv db2 consume_grant_inv by metis
  ultimately have "raised (assert_stepup cfg now2 uid op target True required2 (session1, db2))"
    using assert_stepup_consuming [where db = db2 and cfg = cfg and now = now2 and uid = uid
        and op = op and target = target and required = required2 and session = session1]
    by (auto split: prod.splits sum.splits)
  then show ?thesis using r g'(2-4) only [OF g'(1,2)] g(6) ids by simp
qed

theorem grant_then_assert_once_witness:
  "\<exists>r session2 db2. r = Inr \<lparr>ev_auth_method = ''webauthn'', ev_assurance_level = ''high'',
       ev_confirming_credential_id = None, ev_confirming_mfa_device_id = None\<rparr>
   \<and> session_grant_ids session2 = []
   \<and> raised (assert_stepup demo_config 6 ''u'' ''delete_post'' (Some ''p'') True None
        (set_grant_ids [''g1''] demo_session, db2))"
proof -
  define db1 where "db1 = snd (run_call (hd demo_calls) empty_db)"
  define res where "res = assert_stepup demo_config 5 ''u'' ''delete_post'' (Some ''p'') True None
    (set_grant_ids [''g1''] demo_session, db1)"
  have "grant_stepup demo_config 0 ''g1'' ''u'' ''delete_post'' (Some ''p'') ''webauthn'' ''high'' None None
      (demo_session, empty_db) = (Inr (), set_grant_ids [''g1''] demo_session, db1)"
    unfolding db1_def by code_simp
  moreover have "session_grant_ids demo_session = []" "effective_stepup_ttl demo_config = 300"
    by code_simp+
  moreover have "assert_stepup demo_config 5 ''u'' ''delete_post'' (Some ''p'') True None
      (set_grant_ids [''g1''] demo_session, db1) = (fst res, fst (snd res), snd (snd res))"
    by (simp add: res_def)
  ultimately have "fst res = Inr \<lparr>ev_auth_method = ''webauthn'', ev_assurance_level = ''high'',
       ev_confirming_credential_id = None, ev_confirming_mfa_device_id = None\<rparr>
    \<and> session_grant_ids (fst (snd res)) = []
    \<and> raised (assert_stepup demo_config 6 ''u'' ''delete_post'' (Some ''p'') True None
        (set_grant_ids [''g1''] demo_session, snd (snd res)))"
    by (intro grant_then_assert_once [where db = empty_db and now = 0 and ?now1.0 = 5 and required = None])
      (simp_all add: unique_key_def seconds_def)
  then show ?thesis by blast
qed

end
