(* ===== verification/Permissions.thy ===== *)
theory Permissions
  imports Database
begin

text \<open>
  \<open>auth/roles.py\<close> (the rank of a global role and the guards built on it) and
  \<open>auth/permissions.py\<close> (the resolver \<open>can\<close>, which combines global roles, authorship and
  object relations, and the operations that grant and revoke a relation).
\<close>

section \<open>Role ranks\<close>

definition ROLE_ORDER :: "string \<Rightarrow> int option" where
  "ROLE_ORDER role =
     map_of [(''viewer'', 0), (''author'', 1), (''moderator'', 2), (''editor'', 3), (''admin'', 4)] role"

definition rank_or :: "int \<Rightarrow> string \<Rightarrow> int" where
  "rank_or dflt role = (case ROLE_ORDER role of None \<Rightarrow> dflt | Some n \<Rightarrow> n)"

text \<open>\<open>session.get("user_role", "viewer")\<close> is the first argument of both guards.\<close>

definition session_role :: "dict \<Rightarrow> string" where
  "session_role session = (case as_str (dget session ''user_role'' (JStr ''viewer'')) of
     None \<Rightarrow> [] | Some r \<Rightarrow> r)"

datatype role_error = Forbidden

definition require_role :: "string \<Rightarrow> dict \<Rightarrow> role_error + unit" where
  "require_role min_role session =
     (if rank_or 0 (session_role session) < rank_or 99 min_role then Inl Forbidden else Inr ())"

definition has_min_role :: "string \<Rightarrow> dict \<Rightarrow> bool" where
  "has_min_role min_role session \<longleftrightarrow> rank_or 0 (session_role session) \<ge> rank_or 0 min_role"

fun role_value :: "user_role \<Rightarrow> string" where
  "role_value Role_Admin = ''admin''"
| "role_value Role_Editor = ''editor''"
| "role_value Role_Author = ''author''"
| "role_value Role_Moderator = ''moderator''"
| "role_value Role_Viewer = ''viewer''"

section \<open>The permission resolver\<close>

definition SUPPORTED_ACTIONS :: "string list" where
  "SUPPORTED_ACTIONS = [''content.edit'', ''content.create'', ''content.publish'',
     ''content.manage_authors'', ''comments.create'', ''media.upload'', ''comments.moderate'',
     ''object_relations.manage'']"

definition global_permission :: "user_role \<Rightarrow> string \<Rightarrow> bool" where
  "global_permission role action =
     (if role = Role_Admin \<or> role = Role_Editor then True
      else if action = ''content.create'' \<or> action = ''media.upload'' then role = Role_Author
      else if action = ''comments.moderate'' then role = Role_Moderator
      else False)"

text \<open>The query on authorship relations, joined with the post, and the one on the post's own author.\<close>

definition authored :: "string \<Rightarrow> string \<Rightarrow> db \<Rightarrow> bool" where
  "authored user_id post_id db =
     exists_where (\<lambda>p. po_id p = post_id \<and>
        exists_where (\<lambda>a. pa_post_id a = po_id p \<and> pa_user_id a = user_id
           \<and> (pa_role a = Authorship_Primary \<or> pa_role a = Authorship_Coauthor)) (post_authors db))
       (posts db)"

definition legacy_author :: "string \<Rightarrow> string \<Rightarrow> db \<Rightarrow> bool" where
  "legacy_author user_id post_id db =
     exists_where (\<lambda>p. po_id p = post_id \<and> po_author_id p = user_id) (posts db)"

definition has_relation :: "string \<Rightarrow> string \<Rightarrow> object_relation_name \<Rightarrow> db \<Rightarrow> bool" where
  "has_relation user_id post_id relation db =
     exists_where (\<lambda>r. orl_subject_user_id r = user_id \<and> orl_object_type r = ''content''
        \<and> orl_object_id r = post_id \<and> orl_relation r = relation) (object_relations db)"

definition action_relation :: "string \<Rightarrow> object_relation_name option" where
  "action_relation action =
     (if action = ''content.edit'' then Some Relation_Editor
      else if action = ''comments.moderate'' then Some Relation_Comment_Moderator
      else None)"

text \<open>The object is the identifier of a post; a \<open>Post\<close> argument stands for its identifier.\<close>

definition can :: "user option \<Rightarrow> string \<Rightarrow> string option \<Rightarrow> db \<Rightarrow> bool" where
  "can actor action object db =
     (case actor of
        None \<Rightarrow> False
      | Some u \<Rightarrow>
          if action \<notin> set SUPPORTED_ACTIONS \<or> \<not> u_is_active u then False
          else if action = ''comments.create'' then True
          else if global_permission (u_role u) action then True
          else (case object of
              None \<Rightarrow> False
            | Some post_id \<Rightarrow>
                if action \<in> {''content.create'', ''media.upload'', ''content.publish'',
                     ''content.manage_authors'', ''object_relations.manage''} then False
                else if action = ''content.edit''
                     \<and> (authored (u_id u) post_id db \<or> legacy_author (u_id u) post_id db) then True
                else (case action_relation action of
                    None \<Rightarrow> False
                  | Some relation \<Rightarrow> has_relation (u_id u) post_id relation db)))"

definition require_permission :: "user option \<Rightarrow> string \<Rightarrow> string option \<Rightarrow> db \<Rightarrow> role_error + unit" where
  "require_permission actor action object db =
     (if \<not> can actor action object db then Inl Forbidden else Inr ())"

section \<open>Granting and revoking relations\<close>

datatype relation_error =
    Relation_Forbidden
  | Unknown_relation
  | Subject_unavailable
  | Relation_exists
  | Relation_not_found

fun relation_value :: "object_relation_name \<Rightarrow> string" where
  "relation_value Relation_Editor = ''editor''"
| "relation_value Relation_Comment_Moderator = ''comment_moderator''"

definition relation_named :: "string \<Rightarrow> object_relation_name option" where
  "relation_named s =
     (if s = ''editor'' then Some Relation_Editor
      else if s = ''comment_moderator'' then Some Relation_Comment_Moderator
      else None)"

definition grant_object_relation ::
  "config \<Rightarrow> time \<Rightarrow> string \<Rightarrow> user \<Rightarrow> string \<Rightarrow> post \<Rightarrow> string \<Rightarrow> db
   \<Rightarrow> (relation_error, object_relation, db) outcome" where
  "grant_object_relation cfg now new_id actor subject_user_id post relation db =
     (case relation_named relation of
        None \<Rightarrow> (Inl Unknown_relation, db)
      | Some model_relation \<Rightarrow>
          if \<not> can (Some actor) ''object_relations.manage'' (Some (po_id post)) db
          then (Inl Relation_Forbidden, db)
          else if subject_user_id = u_id actor
             \<and> \<not> can (Some actor) ''object_relations.manage'' (Some (po_id post)) db
          then (Inl Relation_Forbidden, db)
          else (case get_by u_id subject_user_id (users db) of
              None \<Rightarrow> (Inl Subject_unavailable, db)
            | Some subject \<Rightarrow>
                if \<not> u_is_active subject then (Inl Subject_unavailable, db)
                else if has_relation (u_id subject) (po_id post) model_relation db
                then (Inl Relation_exists, db)
                else
                  (let item = \<lparr>orl_id = new_id, orl_subject_user_id = u_id subject,
                         orl_object_type = ''content'', orl_object_id = po_id post,
                         orl_relation = model_relation, orl_created_at = now,
                         orl_granted_by_user_id = Some (u_id actor)\<rparr>
                   in (Inr item,
                       write_audit_event cfg now ''object_relation_granted'' ''success'' None
                         (Some (u_id actor)) None (Some (po_id post)) None
                         (Some (''subject='' @ u_id subject @ '';object_type=content;relation='' @ relation))
                         True
                         (db\<lparr>object_relations := add_row item (object_relations db)\<rparr>)))))"

definition revoke_object_relation ::
  "config \<Rightarrow> time \<Rightarrow> user \<Rightarrow> string \<Rightarrow> post \<Rightarrow> db \<Rightarrow> (relation_error, unit, db) outcome" where
  "revoke_object_relation cfg now actor relation_id post db =
     (if \<not> can (Some actor) ''object_relations.manage'' (Some (po_id post)) db
      then (Inl Relation_Forbidden, db)
      else (case get_by orl_id relation_id (object_relations db) of
          None \<Rightarrow> (Inl Relation_not_found, db)
        | Some item \<Rightarrow>
            if orl_object_type item \<noteq> ''content'' \<or> orl_object_id item \<noteq> po_id post
            then (Inl Relation_not_found, db)
            else
              (let db' = write_audit_event cfg now ''object_relation_revoked'' ''success'' None
                     (Some (u_id actor)) None (Some (po_id post)) None
                     (Some (''subject='' @ orl_subject_user_id item
                        @ '';object_type=content;relation='' @ relation_value (orl_relation item)))
                     True db
               in (Inr (), db'\<lparr>object_relations :=
                     delete_where (\<lambda>r. orl_id r = relation_id) (object_relations db')\<rparr>))))"

definition content_ids_for_relation :: "string \<Rightarrow> object_relation_name \<Rightarrow> db \<Rightarrow> string list" where
  "content_ids_for_relation user_id relation db =
     map orl_object_id (filter (\<lambda>r. orl_subject_user_id r = user_id
        \<and> orl_object_type r = ''content'' \<and> orl_relation r = relation) (object_relations db))"

definition other_comment_reviewer_available :: "string option \<Rightarrow> string \<Rightarrow> db \<Rightarrow> bool" where
  "other_comment_reviewer_available original_actor_id post_id db \<longleftrightarrow>
     exists_where (\<lambda>u. u_is_active u
        \<and> (u_role u = Role_Admin \<or> u_role u = Role_Editor \<or> u_role u = Role_Moderator)
        \<and> u_id u \<noteq> or_empty original_actor_id) (users db)
     \<or> exists_where (\<lambda>r. orl_object_type r = ''content'' \<and> orl_object_id r = post_id
        \<and> orl_relation r = Relation_Comment_Moderator
        \<and> orl_subject_user_id r \<noteq> or_empty original_actor_id
        \<and> exists_where (\<lambda>u. u_id u = orl_subject_user_id r \<and> u_is_active u) (users db))
        (object_relations db)"

section \<open>Facts\<close>

lemma rank_of_role [simp]:
  "rank_or d (role_value r) = (case r of Role_Viewer \<Rightarrow> 0 | Role_Author \<Rightarrow> 1
     | Role_Moderator \<Rightarrow> 2 | Role_Editor \<Rightarrow> 3 | Role_Admin \<Rightarrow> 4)"
  by (cases r) (simp_all add: rank_or_def ROLE_ORDER_def)

lemma rank_nonneg [simp]: "0 \<le> rank_or 0 role"
  by (auto simp: rank_or_def ROLE_ORDER_def split: option.splits if_splits)

lemma can_no_object: "can actor action None db' = can actor action None db"
  by (simp add: can_def split: option.splits)

lemma relation_named_value [simp]: "relation_named (relation_value r) = Some r"
  by (cases r) (simp_all add: relation_named_def)

lemma relation_named_SomeD: "relation_named s = Some r \<Longrightarrow> relation_value r = s"
  by (auto simp: relation_named_def split: if_splits)

lemma has_relation_write [simp]:
  "has_relation u p rel (write_audit_event cfg now et oc ip ai an ti ua dt ses db) = has_relation u p rel db"
  by (simp add: has_relation_def write_audit_event_def Let_def)

lemma has_relation_add:
  "has_relation u p rel (db\<lparr>object_relations := add_row r (object_relations db)\<rparr>) \<longleftrightarrow>
     has_relation u p rel db
     \<or> orl_subject_user_id r = u \<and> orl_object_type r = ''content'' \<and> orl_object_id r = p
       \<and> orl_relation r = rel"
  by (auto simp: has_relation_def exists_where_iff set_add_row)

text \<open>The permission the relation adds: one action on one post for one active user.\<close>

definition relation_gives :: "string \<Rightarrow> string \<Rightarrow> object_relation_name \<Rightarrow> user option \<Rightarrow> string \<Rightarrow> string option \<Rightarrow> bool" where
  "relation_gives uid post_id rel actor action object \<longleftrightarrow>
     (\<exists>u. actor = Some u \<and> u_is_active u \<and> u_id u = uid) \<and> object = Some post_id
     \<and> action_relation action = Some rel"

lemma can_with_relation:
  assumes tabs: "posts db' = posts db" "post_authors db' = post_authors db"
    and rels: "\<And>u p r. has_relation u p r db' \<longleftrightarrow> has_relation u p r db \<or> (u = uid \<and> p = post_id \<and> r = rel)"
  shows "can actor action object db' \<longleftrightarrow>
    can actor action object db \<or> relation_gives uid post_id rel actor action object"
proof (cases actor)
  case None
  then show ?thesis by (simp add: can_def relation_gives_def)
next
  case (Some u)
  have same: "authored u p db' = authored u p db" "legacy_author u p db' = legacy_author u p db" for u p
    using tabs by (simp_all add: authored_def legacy_author_def)
  show ?thesis
  proof (cases "action = ''content.edit'' \<or> action = ''comments.moderate''")
    case True
    then show ?thesis using Some
      by (cases object)
        (auto simp: can_def relation_gives_def same rels action_relation_def SUPPORTED_ACTIONS_def)
  next
    case False
    then have "action_relation action = None" by (simp add: action_relation_def)
    then show ?thesis using Some False
      by (cases object) (simp_all add: can_def relation_gives_def same)
  qed
qed

lemma grant_object_relation_cases:
  assumes "grant_object_relation cfg now new_id actor subject_user_id post relation db = (r, db')"
  shows "case r of
      Inl e \<Rightarrow> db' = db
    | Inr item \<Rightarrow> can (Some actor) ''object_relations.manage'' (Some (po_id post)) db
        \<and> orl_id item = new_id \<and> orl_subject_user_id item = subject_user_id
        \<and> orl_object_type item = ''content'' \<and> orl_object_id item = po_id post
        \<and> Some (orl_relation item) = relation_named relation
        \<and> \<not> has_relation subject_user_id (po_id post) (orl_relation item) db
        \<and> (\<exists>s \<in> set (users db). u_id s = subject_user_id \<and> u_is_active s)
        \<and> object_relations db' = add_row item (object_relations db)
        \<and> posts db' = posts db \<and> post_authors db' = post_authors db \<and> users db' = users db"
  using assms unfolding grant_object_relation_def
  by (auto simp: Let_def split: option.splits if_splits sum.splits dest!: get_by_SomeD)

lemma manage_needs_editor:
  "can (Some u) ''object_relations.manage'' object db \<longleftrightarrow>
     u_is_active u \<and> (u_role u = Role_Admin \<or> u_role u = Role_Editor)"
  by (simp add: can_def SUPPORTED_ACTIONS_def global_permission_def split: option.splits)

section \<open>Properties\<close>

text \<open>
  Granting a relation is bounded: only an active administrator or editor succeeds, and
  the grant gives the subject one action (editing, or moderating comments) on that one
  post; the answer of the resolver for every other actor, action and object is unchanged.
\<close>

theorem grant_relation_bounded:
  assumes "grant_object_relation cfg now new_id actor subject_user_id post relation db = (Inr item, db')"
  shows "u_is_active actor \<and> (u_role actor = Role_Admin \<or> u_role actor = Role_Editor)
    \<and> (\<forall>who action object. can who action object db' \<longleftrightarrow> can who action object db
         \<or> relation_gives subject_user_id (po_id post) (orl_relation item) who action object)"
proof -
  note spec = grant_object_relation_cases [OF assms, unfolded sum.case]
  have "has_relation u p r db' \<longleftrightarrow> has_relation u p r db
      \<or> (u = subject_user_id \<and> p = po_id post \<and> r = orl_relation item)" for u p r
    using spec by (auto simp: has_relation_def exists_where_iff set_add_row)
  then show ?thesis
    using spec can_with_relation [of db' db] by (simp add: manage_needs_editor)
qed

definition demo_user :: "string \<Rightarrow> user_role \<Rightarrow> user" where
  "demo_user i role = \<lparr>u_id = i, u_username = i, u_display_name = i, u_email = None, u_locale = None,
     u_account_type = Account_Operational, u_role = role, u_is_active = True,
     u_legacy_password_hash = None, u_legacy_password_enabled = False, u_require_uv = False,
     u_require_stepup = False, u_sso_disabled = False, u_federation_opt_out = False,
     u_comment_trusted = False, u_failed_login_count = 0, u_locked_until = None, u_bio = None,
     u_website = None, u_created_at = 0, u_updated_at = 0\<rparr>"

definition demo_post :: post where
  "demo_post = \<lparr>po_id = ''p'', po_short_id = ''p'', po_author_id = ''ed'', po_slug = ''p'',
     po_slug_old = None, po_title = ''P'', po_body_md = [], po_body_html = [], po_body_json = None,
     po_excerpt = None, po_status = Post_Published, po_visibility = Visibility_Public, po_lang = None,
     po_ap_object_id = None, po_captcha_type = None, po_comments_enabled = None,
     po_guest_confirmation_required = None, po_comment_moderation_mode = None, po_is_pinned = False,
     po_is_featured = False, po_noindex = False, po_reading_time_min = 1, po_published_at = Some 0,
     po_created_at = 0, po_updated_at = 0\<rparr>"

definition demo_people :: db where
  "demo_people = empty_db\<lparr>users := [demo_user ''ed'' Role_Editor, demo_user ''v'' Role_Viewer],
     posts := [demo_post]\<rparr>"

definition demo_relation :: "(relation_error, object_relation, db) outcome" where
  "demo_relation = grant_object_relation demo_config 0 ''r1'' (demo_user ''ed'' Role_Editor) ''v'' demo_post
     ''editor'' demo_people"

lemma demo_relation_ok:
  "grant_object_relation demo_config 0 ''r1'' (demo_user ''ed'' Role_Editor) ''v'' demo_post ''editor''
     demo_people = (Inr \<lparr>orl_id = ''r1'', orl_subject_user_id = ''v'', orl_object_type = ''content'',
     orl_object_id = ''p'', orl_relation = Relation_Editor, orl_created_at = 0,
     orl_granted_by_user_id = Some ''ed''\<rparr>, snd demo_relation)"
  by code_simp

theorem grant_relation_bounded_witness:
  "can (Some (demo_user ''v'' Role_Viewer)) ''content.edit'' (Some ''p'') (snd demo_relation)
   \<and> \<not> can (Some (demo_user ''v'' Role_Viewer)) ''content.publish'' (Some ''p'') (snd demo_relation)"
proof -
  have "\<not> can (Some (demo_user ''v'' Role_Viewer)) ''content.publish'' (Some ''p'') demo_people"
    by code_simp
  moreover have "demo_user ''v'' Role_Viewer \<in> set (users demo_people)" by (simp add: demo_people_def)
  ultimately show ?thesis
    using grant_relation_bounded [OF demo_relation_ok]
    by (simp add: relation_gives_def demo_user_def action_relation_def demo_post_def)
qed

text \<open>
  Revoking the relation just granted restores every answer of the resolver.
\<close>

theorem revoke_undoes_grant:
  assumes "grant_object_relation cfg now new_id actor subject_user_id post relation db = (Inr item, db1)"
    and "revoke_object_relation cfg now' actor new_id post db1 = (r, db2)"
    and "new_id \<notin> orl_id ` set (object_relations db)"
  shows "r = Inr () \<and> object_relations db2 = object_relations db
    \<and> can who action object db2 = can who action object db"
proof -
  note spec = grant_object_relation_cases [OF assms(1), unfolded sum.case]
  have none: "get_by orl_id new_id (object_relations db) = None"
    using assms(3) by (auto simp: get_by_None)
  have "get_by orl_id new_id (object_relations db1) = Some item"
    using spec none by (simp add: get_by_add_row)
  moreover have "delete_where (\<lambda>r. orl_id r = new_id) (add_row item (object_relations db))
      = object_relations db"
    using spec assms(3) by (auto simp: delete_where_def add_row_def filter_id_conv image_iff)
  ultimately have res: "r = Inr () \<and> object_relations db2 = object_relations db
      \<and> posts db2 = posts db \<and> post_authors db2 = post_authors db"
    using assms(2) spec
    by (auto simp: revoke_object_relation_def manage_needs_editor Let_def split: if_splits)
  then have "can who action object db2 = can who action object db"
    by (simp add: can_def authored_def legacy_author_def has_relation_def split: option.splits)
  then show ?thesis using res by blast
qed

theorem revoke_undoes_grant_witness:
  "can (Some (demo_user ''v'' Role_Viewer)) ''content.edit'' (Some ''p'')
     (snd (revoke_object_relation demo_config 1 (demo_user ''ed'' Role_Editor) ''r1'' demo_post
       (snd demo_relation)))
   = can (Some (demo_user ''v'' Role_Viewer)) ''content.edit'' (Some ''p'') demo_people"
  using revoke_undoes_grant [OF demo_relation_ok surjective_pairing]
  by (simp add: demo_people_def)

text \<open>
  The two guards on the session role agree on every role they know. On a role they do
  not know \<open>require_role\<close> refuses every session and \<open>has_min_role\<close> lets every session pass.
\<close>

theorem role_guards:
  "(ROLE_ORDER min_role \<noteq> None \<longrightarrow>
      (require_role min_role session = Inr ()) = has_min_role min_role session)
   \<and> (ROLE_ORDER min_role = None \<longrightarrow>
      require_role min_role session = Inl Forbidden \<and> has_min_role min_role session)"
proof -
  have "rank_or 0 (session_role session) < 99"
    by (auto simp: rank_or_def ROLE_ORDER_def split: option.splits if_splits)
  then show ?thesis
    by (auto simp: require_role_def has_min_role_def rank_or_def [of _ min_role] split: option.splits)
qed

theorem role_guards_witness:
  "require_role ''owner'' [] = Inl Forbidden \<and> has_min_role ''owner'' []"
  using role_guards [of "''owner''" "[]"] by (simp add: ROLE_ORDER_def)

end
