(* ===== verification/Auth_Policy.thy ===== *)
theory Auth_Policy
  imports Database Stepup Permissions
begin

text \<open>
  \<open>auth/policy.py\<close>: which credentials and login methods of an account are usable, and the
  decisions that keep an account from losing its last one; and the look-ahead check and
  the device limits of \<open>auth/mfa.py\<close>. A Python set of identifiers is the list of its
  elements without repetitions.
\<close>

section \<open>Usable credentials\<close>

record removal_decision =
  rd_allowed :: bool
  rd_reason :: "string option"
  rd_usable_count :: nat

definition usable_credential :: "string \<Rightarrow> webauthn_credential \<Rightarrow> bool" where
  "usable_credential user_id c \<longleftrightarrow>
     wc_user_id c = user_id \<and> wc_uv_capable c \<and> wc_verification_status c \<noteq> ''recovery_pending''"

definition usable_totp :: "string \<Rightarrow> mfa_device \<Rightarrow> bool" where
  "usable_totp user_id d \<longleftrightarrow>
     md_user_id d = user_id \<and> md_device_type d = MFA_Totp \<and> md_is_active d
     \<and> md_verification_status d = ''verified''"

definition usable_webauthn_credential_ids :: "string \<Rightarrow> db \<Rightarrow> string list" where
  "usable_webauthn_credential_ids user_id db =
     remdups (map wc_id (filter (usable_credential user_id) (webauthn_credentials db)))"

definition usable_totp_device_ids :: "string \<Rightarrow> db \<Rightarrow> string list" where
  "usable_totp_device_ids user_id db =
     remdups (map md_id (filter (usable_totp user_id) (mfa_devices db)))"

text \<open>\<open>FOR UPDATE\<close> and the no-op update read the user and change nothing.\<close>

definition lock_user_for_credential_change :: "string \<Rightarrow> db \<Rightarrow> user option" where
  "lock_user_for_credential_change user_id db = get_by u_id user_id (users db)"

text \<open>\<open>str(value)\<close> of the identifiers in a context list.\<close>

definition context_ids :: "dict \<Rightarrow> string \<Rightarrow> string list" where
  "context_ids context key = (case dget context key (JList []) of
     JList vs \<Rightarrow> remdups (map py_str vs) | _ \<Rightarrow> [])"

definition recovery_has_new_auth_path :: "user \<Rightarrow> dict \<Rightarrow> string option \<Rightarrow> db \<Rightarrow> bool" where
  "recovery_has_new_auth_path user context exclude_webauthn_id db =
     (let baseline = context_ids context ''baseline_webauthn_ids'';
          all_ids = context_ids context ''recovery_webauthn_ids'';
          recovery_ids = (if truthy_str exclude_webauthn_id
            then filter (\<lambda>i. i \<noteq> or_empty exclude_webauthn_id) all_ids else all_ids)
      in if recovery_ids = [] \<or> set recovery_ids \<inter> set baseline \<noteq> {} then False
         else exists_where (\<lambda>c. wc_id c \<in> set recovery_ids \<and> wc_user_id c = u_id user
            \<and> wc_uv_capable c \<and> wc_verification_status c = ''recovery_pending'')
            (webauthn_credentials db))"

section \<open>Removing a credential\<close>

datatype credential_type = Webauthn_Credential_Type | Totp_Credential_Type

definition deny :: "string \<Rightarrow> nat \<Rightarrow> removal_decision" where
  "deny reason n = \<lparr>rd_allowed = False, rd_reason = Some reason, rd_usable_count = n\<rparr>"

definition allow :: "nat \<Rightarrow> removal_decision" where
  "allow n = \<lparr>rd_allowed = True, rd_reason = None, rd_usable_count = n\<rparr>"

definition credential_removal_decision ::
  "string \<Rightarrow> credential_type \<Rightarrow> string \<Rightarrow> evidence option \<Rightarrow> db \<Rightarrow> removal_decision" where
  "credential_removal_decision user_id credential_type target_id evid db =
     (let webauthn_ids = usable_webauthn_credential_ids user_id db;
          totp_ids = usable_totp_device_ids user_id db;
          auth_method = map_option ev_auth_method evid;
          assurance = map_option ev_assurance_level evid;
          confirming_credential = Option.bind evid ev_confirming_credential_id;
          confirming_device = Option.bind evid ev_confirming_mfa_device_id;
          by_webauthn = auth_method = Some ''webauthn'' \<and> assurance = Some ''user_verified''
            \<and> confirming_credential \<in> Some ` set webauthn_ids;
          by_totp = auth_method = Some ''totp'' \<and> assurance = Some ''otp_verified''
            \<and> confirming_device \<in> Some ` set totp_ids
      in (case credential_type of
          Webauthn_Credential_Type \<Rightarrow>
            if \<not> by_webauthn then deny ''webauthn_uv_stepup_required'' (length webauthn_ids)
            else if target_id \<in> set webauthn_ids \<and> length webauthn_ids = 1
            then deny ''last_webauthn_credential'' 1
            else if target_id \<in> set webauthn_ids \<and> length webauthn_ids = 2
               \<and> confirming_credential = Some target_id
            then deny ''different_webauthn_required'' 2
            else allow (length webauthn_ids)
        | Totp_Credential_Type \<Rightarrow>
            if \<not> by_webauthn \<and> \<not> by_totp
            then deny ''totp_or_webauthn_stepup_required'' (length totp_ids)
            else if target_id \<in> set totp_ids \<and> length totp_ids = 1 \<and> \<not> by_webauthn
            then deny ''last_totp_requires_webauthn'' 1
            else if target_id \<in> set totp_ids \<and> length totp_ids = 2 \<and> \<not> by_webauthn
               \<and> confirming_device = Some target_id
            then deny ''different_totp_required'' 2
            else allow (length totp_ids)))"

section \<open>Login methods\<close>

definition requires_second_factor ::
  "config \<Rightarrow> dict \<Rightarrow> user \<Rightarrow> string \<Rightarrow> string list \<Rightarrow> bool" where
  "requires_second_factor cfg webauthn_settings user method available_factors =
     (if method = ''password'' then available_factors \<noteq> []
      else if method = ''sso'' then
        u_require_uv user \<or> cfg_require_uv cfg
        \<or> truthy (dget webauthn_settings ''require_mfa_after_sso'' (JBool False))
        \<or> truthy (dget webauthn_settings ''require_2fa_after_passkey'' (JBool False))
      else False)"

definition excluding :: "string option \<Rightarrow> string list \<Rightarrow> string list" where
  "excluding x ids = (if truthy_str x then filter (\<lambda>i. i \<noteq> or_empty x) ids else ids)"

definition password_usable :: "config \<Rightarrow> user \<Rightarrow> bool \<Rightarrow> bool" where
  "password_usable cfg user exclude_password \<longleftrightarrow>
     cfg_legacy_password_enabled cfg \<and> u_legacy_password_enabled user
     \<and> truthy_str (u_legacy_password_hash user) \<and> \<not> exclude_password"

definition usable_login_methods ::
  "config \<Rightarrow> dict \<Rightarrow> user \<Rightarrow> string option \<Rightarrow> string option \<Rightarrow> string option \<Rightarrow> bool \<Rightarrow> db
   \<Rightarrow> string list" where
  "usable_login_methods cfg webauthn_settings user exclude_identity exclude_webauthn exclude_mfa
     exclude_password db =
     (if \<not> u_is_active user then []
      else
       (let webauthn_ids = excluding exclude_webauthn (usable_webauthn_credential_ids (u_id user) db);
            totp_ids = excluding exclude_mfa (usable_totp_device_ids (u_id user) db);
            factors = (if webauthn_ids \<noteq> [] then [''webauthn''] else [])
              @ (if totp_ids \<noteq> [] then [''totp''] else []);
            passkey = (if webauthn_ids \<noteq> [] then [''webauthn''] else []);
            password = (if password_usable cfg user exclude_password
              then [if factors \<noteq> [] then ''password+second_factor'' else ''password_recovery''] else []);
            identities = filter (\<lambda>i. ei_user_id i = u_id user
              \<and> (truthy_str exclude_identity \<longrightarrow> ei_id i \<noteq> or_empty exclude_identity))
              (external_identities db);
            providers = concat (map (\<lambda>i. filter (\<lambda>p. op_id p = ei_provider_id i \<and> op_enabled p)
              (oidc_providers db)) identities);
            sso = (if u_sso_disabled user then []
              else map (\<lambda>p. ''oidc:'' @ op_id p)
                (filter (\<lambda>p. \<not> requires_second_factor cfg webauthn_settings user ''sso'' factors
                   \<or> factors \<noteq> []) providers))
        in remdups (passkey @ password @ sso)))"

definition usable_auth_paths ::
  "config \<Rightarrow> dict \<Rightarrow> user \<Rightarrow> string option \<Rightarrow> string option \<Rightarrow> bool \<Rightarrow> db \<Rightarrow> string list" where
  "usable_auth_paths cfg webauthn_settings user exclude_webauthn exclude_mfa exclude_password db =
     (let credential_count = rowcount (\<lambda>c. usable_credential (u_id user) c
            \<and> (truthy_str exclude_webauthn \<longrightarrow> wc_id c \<noteq> or_empty exclude_webauthn))
            (webauthn_credentials db);
          totp_count = rowcount (\<lambda>d. usable_totp (u_id user) d
            \<and> (truthy_str exclude_mfa \<longrightarrow> md_id d \<noteq> or_empty exclude_mfa)) (mfa_devices db);
          factors = (if credential_count > 0 then [''webauthn''] else [])
            @ (if totp_count > 0 then [''totp''] else []);
          password = (if password_usable cfg user exclude_password
            then [if factors \<noteq> [] then ''password+second_factor'' else ''password_recovery''] else []);
          login_methods = usable_login_methods cfg webauthn_settings user None exclude_webauthn
            exclude_mfa exclude_password db;
          sso = (if list_ex (\<lambda>m. startswith m ''oidc:'') login_methods then [''sso''] else [])
      in factors @ password @ sso)"

datatype policy_error = No_auth_path_remains

definition assert_auth_path_remains ::
  "config \<Rightarrow> dict \<Rightarrow> user \<Rightarrow> string option \<Rightarrow> string option \<Rightarrow> bool \<Rightarrow> db
   \<Rightarrow> policy_error + string list" where
  "assert_auth_path_remains cfg webauthn_settings user exclude_webauthn exclude_mfa exclude_password db =
     (let paths = usable_auth_paths cfg webauthn_settings user exclude_webauthn exclude_mfa
        exclude_password db
      in if paths = [] then Inl No_auth_path_remains else Inr paths)"

definition is_last_active_admin :: "user \<Rightarrow> db \<Rightarrow> bool" where
  "is_last_active_admin user db =
     (if u_role user \<noteq> Role_Admin \<or> \<not> u_is_active user then False
      else rowcount (\<lambda>u. u_role u = u_role user \<and> u_is_active u \<and> u_id u \<noteq> u_id user) (users db) = 0)"

section \<open>Multi-factor checks\<close>

text \<open>\<open>int(settings.get(key, n))\<close> of a setting that holds a number.\<close>

definition int_setting :: "dict \<Rightarrow> string \<Rightarrow> int \<Rightarrow> int" where
  "int_setting settings key n = (case dget settings key (JInt n) of
     JInt k \<Rightarrow> k | JBool b \<Rightarrow> (if b then 1 else 0) | _ \<Rightarrow> n)"

definition get_device_limit :: "dict \<Rightarrow> mfa_type \<Rightarrow> int" where
  "get_device_limit settings device_type =
     (case device_type of
        MFA_Totp \<Rightarrow> min 50 (max 1 (int_setting settings ''totp_credential_limit'' 5))
      | MFA_Hotp \<Rightarrow> min 50 (max 1 (int_setting settings ''hotp_credential_limit'' 10))
      | MFA_Plugin \<Rightarrow> min 50 (max 1 (int_setting settings ''plugin_mfa_limit'' 20)))"

text \<open>
  \<open>HOTPService.verify\<close>: \<open>otp_ok code n\<close> is the library's check of a code against the
  counter \<open>n\<close>; the offsets are tried in order.
\<close>

fun hotp_search :: "(string \<Rightarrow> int \<Rightarrow> bool) \<Rightarrow> string \<Rightarrow> int \<Rightarrow> int list \<Rightarrow> bool \<times> int" where
  "hotp_search otp_ok code counter [] = (False, counter)"
| "hotp_search otp_ok code counter (offset # rest) =
     (if otp_ok code (counter + offset) then (True, counter + offset + 1)
      else hotp_search otp_ok code counter rest)"

definition hotp_verify :: "(string \<Rightarrow> int \<Rightarrow> bool) \<Rightarrow> string \<Rightarrow> int \<Rightarrow> int \<Rightarrow> bool \<times> int" where
  "hotp_verify otp_ok code counter look_ahead = hotp_search otp_ok code counter [0..look_ahead]"

section \<open>Routes that remove a credential or an administrator\<close>

text \<open>
  The handlers \<open>totp_remove\<close> and \<open>webauthn_credential_remove\<close> of \<open>web/routes/auth.py\<close>.
  A session restricted to recovery is refused at the start, so that their later branches
  for it are never taken. The first component of the state is the cookie session.
\<close>

datatype http_error = Abort int

fun http_outcome :: "stepup_error \<Rightarrow> http_error" where
  "http_outcome (Permission_Error _) = Abort 403"
| "http_outcome (Value_Error _) = Abort 500"

definition show_opt :: "string option \<Rightarrow> string" where
  "show_opt x = (case x of None \<Rightarrow> ''None'' | Some s \<Rightarrow> s)"

definition cookie_user :: "dict \<Rightarrow> string" where
  "cookie_user session = str_or_empty (dget session ''user_id'' JNull)"

definition blocked_removal ::
  "config \<Rightarrow> time \<Rightarrow> string list \<Rightarrow> string \<Rightarrow> user \<Rightarrow> string \<Rightarrow> evidence \<Rightarrow> removal_decision \<Rightarrow> db \<Rightarrow> db" where
  "blocked_removal cfg now lockout_reasons kind user target_id evid decision db =
     write_audit_event cfg now
       (if or_empty (rd_reason decision) \<in> set lockout_reasons then ''auth_lockout_prevention''
        else ''credential_removal_blocked'')
       ''blocked'' None (Some (u_id user)) (Some (u_username user)) (Some target_id) None
       (Some (''credential_type='' @ kind @ '';reason='' @ show_opt (rd_reason decision)
          @ '';auth_method='' @ ev_auth_method evid @ '';usable_'' @ kind @ ''=''
          @ str_int (int (rd_usable_count decision)))) True db"

definition totp_remove ::
  "config \<Rightarrow> time \<Rightarrow> string \<Rightarrow> dict \<times> db \<Rightarrow> (http_error, unit, dict \<times> db) outcome" where
  "totp_remove cfg now device_id = (\<lambda>(session, db).
     (let user_id = cookie_user session in
      if user_id = [] then (Inl (Abort 401), session, db)
      else if truthy (dget session ''recovery_only'' JNull) then (Inl (Abort 403), session, db)
      else case lock_user_for_credential_change user_id db of
        None \<Rightarrow> (Inl (Abort 401), session, db)
      | Some user \<Rightarrow>
        if \<not> u_is_active user then (Inl (Abort 401), session, db)
        else
         (case assert_stepup cfg now user_id ''remove_totp_credential'' (Some device_id) True
              (Some [(''webauthn'', ''user_verified''), (''totp'', ''otp_verified'')]) (session, db) of
            (Inl e, session1, db1) \<Rightarrow> (Inl (http_outcome e), session1, db1)
          | (Inr evid, session1, db1) \<Rightarrow>
             (case first_where (\<lambda>d. md_id d = device_id \<and> md_user_id d = user_id
                 \<and> md_device_type d = MFA_Totp) (mfa_devices db1) of
                None \<Rightarrow> (Inl (Abort 404), session1, db1)
              | Some device \<Rightarrow>
                 (let decision = credential_removal_decision user_id Totp_Credential_Type device_id
                        (Some evid) db1
                  in if \<not> rd_allowed decision
                     then (Inl (Abort 409), session1,
                       blocked_removal cfg now [''last_totp_requires_webauthn''] ''totp'' user
                         device_id evid decision db1)
                     else (Inr (), session1,
                       write_audit_event cfg now ''totp_removed'' ''success'' None (Some user_id)
                         (Some (u_username user)) (Some device_id) None
                         (Some (''auth_method='' @ ev_auth_method evid
                            @ '';assurance='' @ ev_assurance_level evid
                            @ '';confirming_credential_id='' @ show_opt (ev_confirming_credential_id evid)
                            @ '';confirming_mfa_device_id='' @ show_opt (ev_confirming_mfa_device_id evid)))
                         True
                         (db1\<lparr>mfa_devices := delete_where (\<lambda>d. md_id d = device_id)
                            (mfa_devices db1)\<rparr>)))))))"

definition webauthn_credential_remove ::
  "config \<Rightarrow> time \<Rightarrow> string \<Rightarrow> dict \<times> db \<Rightarrow> (http_error, unit, dict \<times> db) outcome" where
  "webauthn_credential_remove cfg now credential_uuid = (\<lambda>(session, db).
     (let user_id = cookie_user session in
      if user_id = [] then (Inl (Abort 401), session, db)
      else if truthy (dget session ''recovery_only'' JNull) then (Inl (Abort 403), session, db)
      else case lock_user_for_credential_change user_id db of
        None \<Rightarrow> (Inl (Abort 401), session, db)
      | Some user \<Rightarrow>
        if \<not> u_is_active user then (Inl (Abort 401), session, db)
        else
         (case assert_stepup cfg now user_id ''remove_webauthn_credential'' (Some credential_uuid)
              True (Some [(''webauthn'', ''user_verified'')]) (session, db) of
            (Inl e, session1, db1) \<Rightarrow> (Inl (http_outcome e), session1, db1)
          | (Inr evid, session1, db1) \<Rightarrow>
             (case first_where (\<lambda>c. wc_id c = credential_uuid \<and> wc_user_id c = user_id)
                 (webauthn_credentials db1) of
                None \<Rightarrow> (Inl (Abort 404), session1, db1)
              | Some credential \<Rightarrow>
                 (let decision = credential_removal_decision user_id Webauthn_Credential_Type
                        credential_uuid (Some evid) db1
                  in if \<not> rd_allowed decision
                     then (Inl (Abort 409), session1,
                       blocked_removal cfg now [''last_webauthn_credential''] ''webauthn'' user
                         credential_uuid evid decision db1)
                     else (Inr (), session1,
                       write_audit_event cfg now ''webauthn_credential_removed'' ''success'' None
                         (Some user_id) (Some (u_username user)) (Some credential_uuid) None
                         (Some (''label='' @ wc_label credential @ '';auth_method='' @ ev_auth_method evid
                            @ '';assurance='' @ ev_assurance_level evid
                            @ '';confirming_credential_id='' @ show_opt (ev_confirming_credential_id evid)))
                         True
                         (db1\<lparr>webauthn_credentials := delete_where (\<lambda>c. wc_id c = credential_uuid)
                            (webauthn_credentials db1)\<rparr>)))))))"

text \<open>
  \<open>admin_api_user_set_role\<close> of \<open>web/routes/api.py\<close> and \<open>user_disable\<close> of \<open>cli/main.py\<close>.
  The lookup by name is not case sensitive; more than one match is an exception. The
  check and the write are separate functions, since no lock joins them.
\<close>

definition role_of_value :: "string \<Rightarrow> user_role option" where
  "role_of_value s = map_of [(''admin'', Role_Admin), (''editor'', Role_Editor),
     (''author'', Role_Author), (''moderator'', Role_Moderator), (''viewer'', Role_Viewer)] s"

definition users_named :: "string \<Rightarrow> db \<Rightarrow> user list" where
  "users_named username db = filter (\<lambda>u. lower (u_username u) = lower username) (users db)"

definition set_role_check :: "string \<Rightarrow> user_role \<Rightarrow> db \<Rightarrow> http_error + user" where
  "set_role_check username role_enum db =
     (case users_named username db of
        [] \<Rightarrow> Inl (Abort 404)
      | [user] \<Rightarrow>
          if u_role user = Role_Admin \<and> role_enum \<noteq> Role_Admin \<and> is_last_active_admin user db
          then Inl (Abort 409) else Inr user
      | _ \<Rightarrow> Inl (Abort 500))"

definition write_role :: "user \<Rightarrow> user_role \<Rightarrow> db \<Rightarrow> db" where
  "write_role user role_enum db =
     db\<lparr>users := update_where (\<lambda>u. u_id u = u_id user) (\<lambda>u. u\<lparr>u_role := role_enum\<rparr>) (users db)\<rparr>"

definition admin_api_user_set_role ::
  "config \<Rightarrow> time \<Rightarrow> string \<Rightarrow> string \<Rightarrow> dict \<times> db \<Rightarrow> (http_error, unit, dict \<times> db) outcome" where
  "admin_api_user_set_role cfg now username new_role = (\<lambda>(session, db).
     (case require_role ''admin'' session of
        Inl _ \<Rightarrow> (Inl (Abort 403), session, db)
      | Inr _ \<Rightarrow>
         (case assert_stepup cfg now (cookie_user session) ''change_roles'' (Some (lower username)) True
              None (session, db) of
            (Inl e, session1, db1) \<Rightarrow> (Inl (http_outcome e), session1, db1)
          | (Inr _, session1, db1) \<Rightarrow>
             (case role_of_value new_role of
                None \<Rightarrow> (Inl (Abort 400), session1, db1)
              | Some role_enum \<Rightarrow>
                 (case set_role_check username role_enum db1 of
                    Inl (Abort n) \<Rightarrow> (Inl (Abort n), session1,
                      (if n = 409 then write_audit_event cfg now ''auth_lockout_prevention'' ''blocked''
                         None (Some (cookie_user session1)) None
                         (map_option u_id (List.find (\<lambda>_. True) (users_named username db1)))
                         None (Some ''last_active_admin_demotion'') True db1
                       else db1))
                  | Inr user \<Rightarrow> (Inr (), session1, write_role user role_enum db1))))))"

datatype cli_error = Exit_1

definition user_disable :: "config \<Rightarrow> time \<Rightarrow> string \<Rightarrow> db \<Rightarrow> (cli_error, unit, db) outcome" where
  "user_disable cfg now username db =
     (case users_named username db of
        [user] \<Rightarrow>
          if u_role user = Role_Admin \<and> u_is_active user \<and> is_last_active_admin user db
          then (Inl Exit_1, write_audit_event cfg now ''auth_lockout_prevention'' ''blocked'' None
                  (Some ''cli'') None (Some (u_id user)) None (Some ''last_active_admin_disable'') True db)
          else (Inr (), write_audit_event cfg now ''user_disabled'' ''success'' None (Some ''cli'') None
                  (Some (u_id user)) None None True
                  (db\<lparr>users := update_where (\<lambda>u. u_id u = u_id user)
                     (\<lambda>u. u\<lparr>u_is_active := False\<rparr>) (users db)\<rparr>))
      | _ \<Rightarrow> (Inl Exit_1, db))"

text \<open>\<open>user_breakglass_password_disable\<close> of \<open>web/routes/admin.py\<close>: whether the password went.\<close>

definition user_breakglass_password_disable ::
  "config \<Rightarrow> time \<Rightarrow> dict \<Rightarrow> string \<Rightarrow> dict \<times> db \<Rightarrow> (http_error, bool, dict \<times> db) outcome" where
  "user_breakglass_password_disable cfg now webauthn_settings user_id = (\<lambda>(session, db).
     (let actor_id = cookie_user session in
      if actor_id = [] then (Inl (Abort 302), session, db)
      else if truthy (dget session ''recovery_only'' JNull) then (Inl (Abort 403), session, db)
      else case require_role ''admin'' session of
        Inl _ \<Rightarrow> (Inl (Abort 403), session, db)
      | Inr _ \<Rightarrow>
         (case assert_stepup cfg now actor_id ''disable_password'' (Some user_id) True None (session, db) of
            (Inl e, session1, db1) \<Rightarrow> (Inl (http_outcome e), session1, db1)
          | (Inr _, session1, db1) \<Rightarrow>
             (case get_by u_id user_id (users db1) of
                None \<Rightarrow> (Inl (Abort 404), session1, db1)
              | Some user \<Rightarrow>
                 (case assert_auth_path_remains cfg webauthn_settings user None None True db1 of
                    Inl _ \<Rightarrow> (Inr False, session1,
                      write_audit_event cfg now ''auth_lockout_prevention'' ''blocked'' None
                        (Some actor_id) None (Some (u_id user)) None
                        (Some ''last_auth_path_password_disable'') True db1)
                  | Inr _ \<Rightarrow> (Inr True, session1,
                      write_audit_event cfg now ''password_disabled'' ''success'' None (Some actor_id) None
                        (Some (u_id user)) None None True
                        (db1\<lparr>users := update_where (\<lambda>u. u_id u = u_id user)
                           (\<lambda>u. u\<lparr>u_legacy_password_enabled := False,
                              u_legacy_password_hash := None\<rparr>) (users db1)\<rparr>)))))))"

section \<open>Facts\<close>

definition has_passkey :: "string \<Rightarrow> db \<Rightarrow> bool" where
  "has_passkey uid db \<longleftrightarrow> (\<exists>c \<in> set (webauthn_credentials db). usable_credential uid c)"

definition has_factor :: "string \<Rightarrow> db \<Rightarrow> bool" where
  "has_factor uid db \<longleftrightarrow> has_passkey uid db \<or> (\<exists>d \<in> set (mfa_devices db). usable_totp uid d)"

definition credentials_inv :: "db \<Rightarrow> bool" where
  "credentials_inv db \<longleftrightarrow> unique_key wc_id (webauthn_credentials db) \<and> unique_key md_id (mfa_devices db)"

lemma set_usable_ids:
  "set (usable_webauthn_credential_ids uid db) = wc_id ` {c \<in> set (webauthn_credentials db). usable_credential uid c}"
  "set (usable_totp_device_ids uid db) = md_id ` {d \<in> set (mfa_devices db). usable_totp uid d}"
  by (auto simp: usable_webauthn_credential_ids_def usable_totp_device_ids_def)

lemma distinct_usable_ids [simp]:
  "distinct (usable_webauthn_credential_ids uid db)" "distinct (usable_totp_device_ids uid db)"
  by (simp_all add: usable_webauthn_credential_ids_def usable_totp_device_ids_def)

lemma other_element:
  assumes "distinct xs" "x \<in> set xs" "length xs \<noteq> 1"
  shows "\<exists>y \<in> set xs. y \<noteq> x"
proof (rule ccontr)
  assume "\<not> ?thesis"
  then have "set xs = {x}" using assms(2) by blast
  then show False using distinct_card [OF assms(1)] assms(3) by simp
qed

text \<open>An allowed removal leaves another credential of the kind it relies on.\<close>

lemma allowed_webauthn_removal:
  assumes "rd_allowed (credential_removal_decision uid Webauthn_Credential_Type target evid db)"
  shows "\<exists>i \<in> set (usable_webauthn_credential_ids uid db). i \<noteq> target"
proof (cases "target \<in> set (usable_webauthn_credential_ids uid db)")
  case True
  then have "length (usable_webauthn_credential_ids uid db) \<noteq> 1"
    using assms by (auto simp: credential_removal_decision_def Let_def deny_def split: if_splits)
  then show ?thesis using other_element [OF distinct_usable_ids(1) True] by blast
next
  case False
  moreover have "usable_webauthn_credential_ids uid db \<noteq> []"
    using assms by (auto simp: credential_removal_decision_def Let_def deny_def split: if_splits)
  ultimately show ?thesis by (metis hd_in_set)
qed

lemma allowed_totp_removal:
  assumes "rd_allowed (credential_removal_decision uid Totp_Credential_Type target evid db)"
  shows "set (usable_webauthn_credential_ids uid db) \<noteq> {}
    \<or> (\<exists>i \<in> set (usable_totp_device_ids uid db). i \<noteq> target)"
proof (cases "set (usable_webauthn_credential_ids uid db) = {}")
  case False
  then show ?thesis by blast
next
  case none: True
  show ?thesis
  proof (cases "target \<in> set (usable_totp_device_ids uid db)")
    case True
    then have "length (usable_totp_device_ids uid db) \<noteq> 1"
      using assms none
      by (auto simp: credential_removal_decision_def Let_def deny_def split: if_splits)
    then show ?thesis using other_element [OF distinct_usable_ids(2) True] by blast
  next
    case False
    moreover have "usable_totp_device_ids uid db \<noteq> []"
      using assms none
      by (auto simp: credential_removal_decision_def Let_def deny_def split: if_splits)
    ultimately show ?thesis by (metis hd_in_set)
  qed
qed

lemma allowed_removal_keeps:
  "rd_allowed (credential_removal_decision uid Webauthn_Credential_Type target evid db) \<Longrightarrow>
     \<exists>c \<in> set (webauthn_credentials db). usable_credential uid c \<and> wc_id c \<noteq> target"
  "rd_allowed (credential_removal_decision uid Totp_Credential_Type target evid db) \<Longrightarrow>
     has_passkey uid db \<or> (\<exists>d \<in> set (mfa_devices db). usable_totp uid d \<and> md_id d \<noteq> target)"
  using allowed_webauthn_removal [of uid target evid db] allowed_totp_removal [of uid target evid db]
  by (auto simp: set_usable_ids has_passkey_def)

text \<open>What a removal route does to the two credential tables.\<close>

lemma totp_remove_tables:
  assumes "totp_remove cfg now device_id (session, db) = (r, session', db')"
  shows "webauthn_credentials db' = webauthn_credentials db
    \<and> (mfa_devices db' = mfa_devices db
       \<or> mfa_devices db' = delete_where (\<lambda>d. md_id d = device_id) (mfa_devices db)
         \<and> (\<exists>d \<in> set (mfa_devices db). md_id d = device_id \<and> md_user_id d = cookie_user session)
         \<and> (has_passkey (cookie_user session) db
            \<or> (\<exists>d \<in> set (mfa_devices db). usable_totp (cookie_user session) d \<and> md_id d \<noteq> device_id)))"
proof -
  let ?uid = "cookie_user session"
  obtain q session1 db1 where eq: "assert_stepup cfg now ?uid ''remove_totp_credential'' (Some device_id)
      True (Some [(''webauthn'', ''user_verified''), (''totp'', ''otp_verified'')]) (session, db)
      = (q, session1, db1)"
    by (metis prod.exhaust)
  note frame = assert_stepup_frame [OF eq]
  have passkey: "has_passkey ?uid db1 = has_passkey ?uid db" by (simp add: has_passkey_def frame)
  show ?thesis
    using assms frame passkey allowed_removal_keeps(2) [of ?uid device_id _ db1] unfolding totp_remove_def
    by (auto simp: Let_def eq blocked_removal_def
        split: option.splits if_splits sum.splits dest!: first_where_SomeD)
qed

lemma webauthn_remove_tables:
  assumes "webauthn_credential_remove cfg now cred (session, db) = (r, session', db')"
  shows "mfa_devices db' = mfa_devices db
    \<and> (webauthn_credentials db' = webauthn_credentials db
       \<or> webauthn_credentials db' = delete_where (\<lambda>c. wc_id c = cred) (webauthn_credentials db)
         \<and> (\<exists>c \<in> set (webauthn_credentials db). wc_id c = cred \<and> wc_user_id c = cookie_user session)
         \<and> (\<exists>c \<in> set (webauthn_credentials db). usable_credential (cookie_user session) c \<and> wc_id c \<noteq> cred))"
proof -
  let ?uid = "cookie_user session"
  obtain q session1 db1 where eq: "assert_stepup cfg now ?uid ''remove_webauthn_credential'' (Some cred)
      True (Some [(''webauthn'', ''user_verified'')]) (session, db) = (q, session1, db1)"
    by (metis prod.exhaust)
  note frame = assert_stepup_frame [OF eq]
  show ?thesis
    using assms frame allowed_removal_keeps(1) [of ?uid cred _ db1]
    unfolding webauthn_credential_remove_def
    by (auto simp: Let_def eq blocked_removal_def
        split: option.splits if_splits sum.splits dest!: first_where_SomeD)
qed

text \<open>Requests of any users, each with its own cookie session.\<close>

datatype removal_request =
    Remove_totp config time string dict
  | Remove_webauthn config time string dict

fun run_removal :: "removal_request \<Rightarrow> db \<Rightarrow> db" where
  "run_removal (Remove_totp cfg now i session) db = snd (snd (totp_remove cfg now i (session, db)))"
| "run_removal (Remove_webauthn cfg now i session) db =
     snd (snd (webauthn_credential_remove cfg now i (session, db)))"

lemma usable_owner:
  "usable_credential uid c \<Longrightarrow> wc_user_id c = uid" "usable_totp uid d \<Longrightarrow> md_user_id d = uid"
  by (simp_all add: usable_credential_def usable_totp_def)

lemma removal_keeps:
  assumes "credentials_inv db"
  shows "credentials_inv (run_removal req db)
    \<and> (has_passkey uid db \<longrightarrow> has_passkey uid (run_removal req db))
    \<and> (has_factor uid db \<longrightarrow> has_factor uid (run_removal req db))"
proof (cases req)
  case (Remove_totp cfg now i session)
  obtain r session' db' where eq: "totp_remove cfg now i (session, db) = (r, session', db')"
    by (metis prod.exhaust)
  note tables = totp_remove_tables [OF eq]
  have inv: "credentials_inv db'" using tables assms
    by (auto simp: credentials_inv_def unique_key_delete_where)
  have passkey: "has_passkey uid db' = has_passkey uid db" using tables by (simp add: has_passkey_def)
  have "has_factor uid db'" if factor: "has_factor uid db"
  proof (cases "has_passkey uid db \<or> mfa_devices db' = mfa_devices db")
    case True
    then show ?thesis using factor passkey by (auto simp: has_factor_def)
  next
    case False
    then obtain d where d: "d \<in> set (mfa_devices db)" "usable_totp uid d"
      using factor by (auto simp: has_factor_def)
    from False tables obtain e where e: "e \<in> set (mfa_devices db)" "md_id e = i"
      "md_user_id e = cookie_user session"
      and gone: "mfa_devices db' = delete_where (\<lambda>d. md_id d = i) (mfa_devices db)"
      and rest: "has_passkey (cookie_user session) db
        \<or> (\<exists>d \<in> set (mfa_devices db). usable_totp (cookie_user session) d \<and> md_id d \<noteq> i)"
      by blast
    have "\<exists>d \<in> set (mfa_devices db). usable_totp uid d \<and> md_id d \<noteq> i"
    proof (cases "md_id d = i")
      case True
      then have "d = e" using assms d(1) e(1,2)
        by (intro unique_keyD [of md_id "mfa_devices db"]) (simp_all add: credentials_inv_def)
      then have "cookie_user session = uid" using usable_owner(2) [OF d(2)] e(3) by simp
      then show ?thesis using rest False by blast
    next
      case False
      then show ?thesis using d by blast
    qed
    then show ?thesis using gone by (auto simp: has_factor_def set_delete_where)
  qed
  then show ?thesis using Remove_totp eq inv passkey by simp
next
  case (Remove_webauthn cfg now i session)
  obtain r session' db' where eq: "webauthn_credential_remove cfg now i (session, db) = (r, session', db')"
    by (metis prod.exhaust)
  note tables = webauthn_remove_tables [OF eq]
  have inv: "credentials_inv db'" using tables assms
    by (auto simp: credentials_inv_def unique_key_delete_where)
  have passkey: "has_passkey uid db'" if has: "has_passkey uid db"
  proof (cases "webauthn_credentials db' = webauthn_credentials db")
    case True
    then show ?thesis using has by (simp add: has_passkey_def)
  next
    case False
    from has obtain c where c: "c \<in> set (webauthn_credentials db)" "usable_credential uid c"
      by (auto simp: has_passkey_def)
    from False tables obtain e where e: "e \<in> set (webauthn_credentials db)" "wc_id e = i"
      "wc_user_id e = cookie_user session"
      and gone: "webauthn_credentials db' = delete_where (\<lambda>c. wc_id c = i) (webauthn_credentials db)"
      and rest: "\<exists>c \<in> set (webauthn_credentials db). usable_credential (cookie_user session) c \<and> wc_id c \<noteq> i"
      by blast
    have "\<exists>c \<in> set (webauthn_credentials db). usable_credential uid c \<and> wc_id c \<noteq> i"
    proof (cases "wc_id c = i")
      case True
      then have "c = e" using assms c(1) e(1,2)
        by (intro unique_keyD [of wc_id "webauthn_credentials db"]) (simp_all add: credentials_inv_def)
      then have "cookie_user session = uid" using usable_owner(1) [OF c(2)] e(3) by simp
      then show ?thesis using rest by blast
    next
      case False
      then show ?thesis using c by blast
    qed
    then show ?thesis using gone by (auto simp: has_passkey_def set_delete_where)
  qed
  have "has_factor uid db'" if "has_factor uid db"
    using that passkey tables by (auto simp: has_factor_def)
  then show ?thesis using Remove_webauthn eq inv passkey by simp
qed

lemma removals_keep:
  "credentials_inv db \<Longrightarrow>
     (has_passkey uid db \<longrightarrow> has_passkey uid (fold run_removal reqs db))
     \<and> (has_factor uid db \<longrightarrow> has_factor uid (fold run_removal reqs db))"
proof (induction reqs arbitrary: db)
  case Nil
  then show ?case by simp
next
  case (Cons req reqs)
  then show ?case using removal_keeps [OF Cons.prems, of req uid] by simp
qed

definition has_admin :: "db \<Rightarrow> bool" where
  "has_admin db \<longleftrightarrow> exists_where (\<lambda>u. u_role u = Role_Admin \<and> u_is_active u) (users db)"

lemma has_admin_iff: "has_admin db \<longleftrightarrow> (\<exists>u \<in> set (users db). u_role u = Role_Admin \<and> u_is_active u)"
  by (simp add: has_admin_def exists_where_iff)

text \<open>Changing one user keeps an active administrator if another one is there.\<close>

lemma has_admin_update:
  assumes "has_admin db" "unique_key u_id (users db)" "user \<in> set (users db)"
    and "\<not> is_last_active_admin user db \<or> (u_role (f user) = Role_Admin \<and> (u_is_active user \<longrightarrow> u_is_active (f user)))"
  shows "has_admin (db\<lparr>users := update_where (\<lambda>u. u_id u = u_id user) f (users db)\<rparr>)"
proof -
  from assms(1) obtain a where a: "a \<in> set (users db)" "u_role a = Role_Admin" "u_is_active a"
    by (auto simp: has_admin_iff)
  have keep: "?thesis" if "b \<in> set (users db)" "u_role b = Role_Admin" "u_is_active b" "u_id b \<noteq> u_id user" for b
    using that by (force simp: has_admin_iff set_update_where)
  show ?thesis
  proof (cases "u_id a = u_id user")
    case False
    then show ?thesis using keep a by blast
  next
    case True
    then have same: "a = user" using unique_keyD [OF assms(2) a(1) assms(3)] by simp
    show ?thesis
    proof (cases "is_last_active_admin user db")
      case True
      then have "u_role (f user) = Role_Admin" "u_is_active (f user)" using assms(4) a same by auto
      then show ?thesis using assms(3) by (force simp: has_admin_iff set_update_where)
    next
      case False
      then obtain b where "b \<in> set (users db)" "u_role b = Role_Admin" "u_is_active b" "u_id b \<noteq> u_id user"
        using a same by (auto simp: is_last_active_admin_def rowcount_zero)
      then show ?thesis by (rule keep)
    qed
  qed
qed

lemma users_named_one: "users_named name db = [user] \<Longrightarrow> user \<in> set (users db)"
  unfolding users_named_def by (metis filter_is_subset list.set_intros(1) subsetD)

lemma set_role_check_Inr:
  "set_role_check name role db = Inr user \<Longrightarrow>
     user \<in> set (users db) \<and> (\<not> is_last_active_admin user db \<or> role = Role_Admin)"
  by (auto simp: set_role_check_def is_last_active_admin_def dest!: users_named_one
      split: list.splits if_splits)

text \<open>The two operations on administrators.\<close>

datatype admin_request =
    Set_role config time string string dict
  | Disable_user config time string

fun run_admin :: "admin_request \<Rightarrow> db \<Rightarrow> db" where
  "run_admin (Set_role cfg now name role session) db =
     snd (snd (admin_api_user_set_role cfg now name role (session, db)))"
| "run_admin (Disable_user cfg now name) db = snd (user_disable cfg now name db)"

lemma run_admin_set_role:
  assumes "unique_key u_id (users db)" "has_admin db"
  shows "unique_key u_id (users (run_admin (Set_role cfg now name role session) db))
    \<and> has_admin (run_admin (Set_role cfg now name role session) db)"
proof -
  obtain q session1 db1 where eq: "assert_stepup cfg now (cookie_user session) ''change_roles''
      (Some (lower name)) True None (session, db) = (q, session1, db1)"
    by (metis prod.exhaust)
  note frame = assert_stepup_frame [OF eq]
  have base: "unique_key u_id (users db1)" "has_admin db1" using assms by (simp_all add: frame has_admin_def)
  let ?db' = "run_admin (Set_role cfg now name role session) db"
  have "users ?db' = users db
    \<or> (\<exists>user r. set_role_check name r db1 = Inr user \<and> ?db' = write_role user r db1)"
    using frame(1)
    by (auto simp: admin_api_user_set_role_def eq split: sum.splits option.splits http_error.splits)
  then consider (same) "users ?db' = users db"
    | (wrote) user r where "set_role_check name r db1 = Inr user" "?db' = write_role user r db1"
    by blast
  then show ?thesis
  proof cases
    case same
    then show ?thesis using assms by (simp add: has_admin_def)
  next
    case 2: wrote
    have "has_admin (write_role user r db1)"
      using set_role_check_Inr [OF 2(1)] unfolding write_role_def
      by (intro has_admin_update base) auto
    moreover have "unique_key u_id (users (write_role user r db1))"
      using base by (simp add: write_role_def unique_key_update_where)
    ultimately show ?thesis using 2 by simp
  qed
qed

lemma run_admin_disable:
  assumes "unique_key u_id (users db)" "has_admin db"
  shows "unique_key u_id (users (run_admin (Disable_user cfg now name) db))
    \<and> has_admin (run_admin (Disable_user cfg now name) db)"
proof -
  let ?db' = "run_admin (Disable_user cfg now name) db"
  have "users ?db' = users db
    \<or> (\<exists>user. users_named name db = [user] \<and> \<not> is_last_active_admin user db
      \<and> users ?db' = update_where (\<lambda>u. u_id u = u_id user) (\<lambda>u. u\<lparr>u_is_active := False\<rparr>) (users db))"
    by (auto simp: user_disable_def is_last_active_admin_def split: list.splits if_splits)
  then consider (same) "users ?db' = users db"
    | (wrote) user where "users_named name db = [user]" "\<not> is_last_active_admin user db"
      "users ?db' = update_where (\<lambda>u. u_id u = u_id user) (\<lambda>u. u\<lparr>u_is_active := False\<rparr>) (users db)"
    by blast
  then show ?thesis
  proof cases
    case same
    then show ?thesis using assms by (simp add: has_admin_def)
  next
    case 2: wrote
    have "has_admin (db\<lparr>users := update_where (\<lambda>u. u_id u = u_id user)
        (\<lambda>u. u\<lparr>u_is_active := False\<rparr>) (users db)\<rparr>)"
      using users_named_one [OF 2(1)] 2(2) by (intro has_admin_update assms) auto
    then show ?thesis using 2(3) assms(1) by (simp add: has_admin_def unique_key_update_where)
  qed
qed

text \<open>The two ways the code counts usable credentials agree.\<close>

lemma excluding_nonempty:
  "excluding x (remdups (map key (filter P rs))) = [] \<longleftrightarrow>
     rowcount (\<lambda>r. P r \<and> (truthy_str x \<longrightarrow> key r \<noteq> or_empty x)) rs = 0"
proof -
  have "excluding x (remdups (map key (filter P rs))) = [] \<longleftrightarrow>
      set (excluding x (remdups (map key (filter P rs)))) = {}" by simp
  also have "set (excluding x (remdups (map key (filter P rs))))
      = key ` {r \<in> set rs. P r \<and> (truthy_str x \<longrightarrow> key r \<noteq> or_empty x)}"
    by (auto simp: excluding_def)
  finally show ?thesis by (simp only: rowcount_zero image_is_empty) blast
qed

lemma login_methods_paths:
  assumes "u_is_active user" "usable_auth_paths cfg ws user wx mx pw db \<noteq> []"
    "set (usable_auth_paths cfg ws user wx mx pw db) \<noteq> {''totp''}"
  shows "usable_login_methods cfg ws user None wx mx pw db \<noteq> []"
proof
  assume none: "usable_login_methods cfg ws user None wx mx pw db = []"
  have w: "excluding wx (usable_webauthn_credential_ids (u_id user) db) = []"
    and pw: "\<not> password_usable cfg user pw"
    using none assms(1) by (auto simp: usable_login_methods_def Let_def split: if_splits)
  from w have "rowcount (\<lambda>c. usable_credential (u_id user) c
      \<and> (truthy_str wx \<longrightarrow> wc_id c \<noteq> or_empty wx)) (webauthn_credentials db) = 0"
    by (simp only: usable_webauthn_credential_ids_def excluding_nonempty)
  then show False using assms(2,3) pw none
    by (auto simp: usable_auth_paths_def Let_def split: if_splits)
qed

lemma hotp_search_spec:
  "hotp_search ok code c offsets =
     (case List.find (\<lambda>n. ok code (c + n)) offsets of None \<Rightarrow> (False, c) | Some n \<Rightarrow> (True, c + n + 1))"
  by (induction offsets) simp_all

lemma find_upto:
  "List.find P [a..b] = Some n \<longleftrightarrow> a \<le> n \<and> n \<le> b \<and> P n \<and> (\<forall>m. a \<le> m \<and> m < n \<longrightarrow> \<not> P m)"
proof (induction a b rule: upto.induct)
  case (1 a b)
  show ?case
  proof (cases "a \<le> b")
    case True
    then have "List.find P [a..b] = (if P a then Some a else List.find P [a + 1..b])"
      by (simp add: upto.simps)
    moreover have "(\<forall>m. a \<le> m \<and> m < n \<longrightarrow> \<not> P m) \<longleftrightarrow>
        (a < n \<longrightarrow> \<not> P a) \<and> (\<forall>m. a + 1 \<le> m \<and> m < n \<longrightarrow> \<not> P m)"
      by (metis dual_order.refl order_less_le zless_imp_add1_zle add1_zle_eq)
    ultimately show ?thesis using 1 [OF True] True by (cases "n = a") auto
  next
    case False
    then show ?thesis by simp
  qed
qed

section \<open>Properties\<close>

text \<open>
  C6. Self-service removal never locks an account out: over any sequence of removal
  requests by any users, on whatever targets and with whatever cookies, an account that
  has a usable passkey keeps one, and an account that has a passkey or a verified TOTP
  device keeps one of the two.
\<close>

theorem removals_never_lock_out:
  assumes "credentials_inv db"
  shows "(has_passkey uid db \<longrightarrow> has_passkey uid (fold run_removal reqs db))
    \<and> (has_factor uid db \<longrightarrow> has_factor uid (fold run_removal reqs db))"
  using removals_keep [OF assms] by blast

definition demo_credential :: "string \<Rightarrow> string \<Rightarrow> webauthn_credential" where
  "demo_credential i uid = \<lparr>wc_id = i, wc_user_id = uid, wc_label = i, wc_credential_id = i,
     wc_public_key = [], wc_sign_count = 0, wc_transport = None, wc_is_platform = None,
     wc_uv_capable = True, wc_aaguid = None, wc_transports = None, wc_authenticator_attachment = None,
     wc_backup_eligible = None, wc_backup_state = None, wc_verification_status = ''verified'',
     wc_created_at = 0, wc_last_used_at = None\<rparr>"

definition demo_keys :: db where
  "demo_keys = demo_people\<lparr>webauthn_credentials := [demo_credential ''k1'' ''v'', demo_credential ''k2'' ''v'']\<rparr>"

theorem removals_never_lock_out_witness:
  "has_passkey ''v'' (fold run_removal
     [Remove_webauthn demo_config 1 ''k1'' [(''user_id'', JStr ''v'')],
      Remove_webauthn demo_config 2 ''k2'' [(''user_id'', JStr ''v'')]] demo_keys)"
proof -
  have "credentials_inv demo_keys" "has_passkey ''v'' demo_keys"
    by (simp_all add: credentials_inv_def unique_key_def demo_keys_def demo_credential_def
        demo_people_def has_passkey_def usable_credential_def)
  then show ?thesis using removals_never_lock_out by blast
qed

text \<open>
  C7. Demoting administrators through the API and disabling users from the command line,
  one request after the other, always leaves an active administrator.
\<close>

theorem an_admin_remains:
  assumes "unique_key u_id (users db)" "has_admin db"
  shows "has_admin (fold run_admin reqs db)"
  using assms
proof (induction reqs arbitrary: db)
  case Nil
  then show ?case by simp
next
  case (Cons req reqs)
  have "unique_key u_id (users (run_admin req db)) \<and> has_admin (run_admin req db)"
    using Cons.prems run_admin_set_role run_admin_disable by (cases req) blast+
  then show ?case using Cons.IH by simp
qed

theorem an_admin_remains_witness:
  "has_admin (fold run_admin [Disable_user demo_config 1 ''ed'', Disable_user demo_config 2 ''root'']
     (demo_people\<lparr>users := demo_user ''root'' Role_Admin # users demo_people\<rparr>))"
  by (rule an_admin_remains)
    (simp_all add: demo_people_def demo_user_def unique_key_def has_admin_def exists_where_def)

definition two_admins :: db where
  "two_admins = empty_db\<lparr>users := [demo_user ''ann'' Role_Admin, demo_user ''bob'' Role_Admin]\<rparr>"

text \<open>
  The guard on the last administrator is a check followed by a write, and no lock
  joins them: two administrators demoted by overlapping requests both pass the check,
  and no active administrator is left.
\<close>

theorem admin_guard_race:
  "has_admin two_admins
   \<and> set_role_check ''ann'' Role_Viewer two_admins = Inr (demo_user ''ann'' Role_Admin)
   \<and> set_role_check ''bob'' Role_Viewer two_admins = Inr (demo_user ''bob'' Role_Admin)
   \<and> \<not> has_admin (write_role (demo_user ''bob'' Role_Admin) Role_Viewer
        (write_role (demo_user ''ann'' Role_Admin) Role_Viewer two_admins))"
  by code_simp

text \<open>
  An authentication path that is left is a way to log in, unless it is TOTP alone:
  when the guard lets an active account's password, passkey or device go and some path
  other than \<open>totp\<close> remains, the account still has a login method.
\<close>

theorem remaining_path_logs_in:
  assumes "assert_auth_path_remains cfg ws user wx mx pw db = Inr paths"
    and "u_is_active user" "set paths \<noteq> {''totp''}"
  shows "usable_login_methods cfg ws user None wx mx pw db \<noteq> []"
  using assms login_methods_paths [of user cfg ws wx mx pw db]
  by (auto simp: assert_auth_path_remains_def Let_def split: if_splits)

theorem remaining_path_logs_in_witness:
  "usable_login_methods demo_config [] (demo_user ''v'' Role_Viewer) None (Some ''k1'') None True demo_keys \<noteq> []"
proof (rule remaining_path_logs_in)
  show "assert_auth_path_remains demo_config [] (demo_user ''v'' Role_Viewer) (Some ''k1'') None True
      demo_keys = Inr [''webauthn'']"
    by code_simp
qed (simp_all add: demo_user_def)

definition totp_only :: db where
  "totp_only = empty_db\<lparr>
     users := [(demo_user ''v'' Role_Viewer)\<lparr>u_legacy_password_enabled := True,
        u_legacy_password_hash := Some ''hash''\<rparr>],
     mfa_devices := [\<lparr>md_id = ''d'', md_user_id = ''v'', md_device_type = MFA_Totp, md_label = ''d'',
        md_secret_enc = [], md_is_active = True, md_verification_status = ''verified'',
        md_plugin_id = None, md_created_at = 0, md_last_used_at = None\<rparr>],
     stepup_grants := [\<lparr>sg_id = ''g'', sg_user_id = ''root'', sg_session_id = ''s'',
        sg_action = ''disable_password'', sg_target = ''v'', sg_auth_method = ''webauthn'',
        sg_assurance_level = ''user_verified'', sg_confirming_credential_id = None,
        sg_confirming_mfa_device_id = None, sg_created_at = 0, sg_expires_at = 100,
        sg_consumed_at = None\<rparr>]\<rparr>"

definition admin_session :: dict where
  "admin_session = [(''user_id'', JStr ''root''), (''user_role'', JStr ''admin''),
     (''session_id'', JStr ''s''), (GRANTS_KEY, JList [JStr ''g''])]"

definition password_config :: config where
  "password_config = demo_config\<lparr>cfg_legacy_password_enabled := True\<rparr>"

text \<open>
  A TOTP device counts as a remaining path although it is no login method: for an
  account with a password and a verified TOTP device the administrator's request to
  disable the password is let through, and leaves the account without any way to log in.
\<close>

theorem totp_only_lockout:
  "usable_login_methods password_config [] (hd (users totp_only)) None None None False totp_only
     = [''password+second_factor'']
   \<and> (case user_breakglass_password_disable password_config 1 [] ''v'' (admin_session, totp_only) of
        (Inr done_, _, db') \<Rightarrow> done_
          \<and> usable_login_methods password_config [] (hd (users db')) None None None False db' = []
      | _ \<Rightarrow> False)"
  by code_simp

text \<open>
  A one-time code is accepted at the first counter in the window that it matches, and
  the counter returned is the next one, so it moves past every counter tried; a code that
  matches none leaves the counter as it was.
\<close>

theorem hotp_first_match:
  "(hotp_verify otp_ok code counter look_ahead = (True, n) \<longleftrightarrow>
      counter < n \<and> n \<le> counter + look_ahead + 1 \<and> otp_ok code (n - 1)
      \<and> (\<forall>m. counter \<le> m \<and> m < n - 1 \<longrightarrow> \<not> otp_ok code m))
   \<and> (hotp_verify otp_ok code counter look_ahead = (False, n) \<longleftrightarrow>
      n = counter \<and> (\<forall>m. counter \<le> m \<and> m \<le> counter + look_ahead \<longrightarrow> \<not> otp_ok code m))"
proof -
  let ?P = "\<lambda>k. otp_ok code (counter + k)"
  have shift: "(\<forall>m. 0 \<le> m \<and> m < k \<longrightarrow> \<not> ?P m) \<longleftrightarrow>
      (\<forall>m. counter \<le> m \<and> m < counter + k \<longrightarrow> \<not> otp_ok code m)" for k
    by (metis add.commute add_le_cancel_left add.right_neutral diff_add_cancel add_less_cancel_left)
  have some: "List.find ?P [0..look_ahead] = Some k \<longleftrightarrow> 0 \<le> k \<and> k \<le> look_ahead \<and> ?P k
      \<and> (\<forall>m. counter \<le> m \<and> m < counter + k \<longrightarrow> \<not> otp_ok code m)" for k
    by (simp only: find_upto shift)
  have none: "List.find ?P [0..look_ahead] = None \<longleftrightarrow>
      (\<forall>m. counter \<le> m \<and> m \<le> counter + look_ahead \<longrightarrow> \<not> otp_ok code m)"
    by (simp add: find_None_iff)
      (metis add.commute add_le_cancel_left add.right_neutral diff_add_cancel)
  have hit: "hotp_verify otp_ok code counter look_ahead = (True, n) \<longleftrightarrow>
      List.find ?P [0..look_ahead] = Some (n - counter - 1)"
    by (auto simp: hotp_verify_def hotp_search_spec split: option.splits)
  have miss: "hotp_verify otp_ok code counter look_ahead = (False, n) \<longleftrightarrow>
      n = counter \<and> List.find ?P [0..look_ahead] = None"
    by (auto simp: hotp_verify_def hotp_search_spec split: option.splits)
  have "counter + (n - counter - 1) = n - 1" by simp
  then show ?thesis unfolding hit miss some none by auto
qed

theorem hotp_first_match_witness:
  "hotp_verify (\<lambda>code n. code = ''x'' \<and> n = 3) ''x'' 1 10 = (True, 4)"
  using hotp_first_match [of "\<lambda>code n. code = ''x'' \<and> n = 3" "''x''" 1 10 4] by auto

end
