(* ===== verification/Sessions.thy ===== *)
theory Sessions
  imports Pending Auth_Policy
begin

text \<open>
  \<open>auth/sessions.py\<close>: the one path that creates a session, the account-recovery state that
  excludes ordinary logins while it is live, and the check of every request's session
  against the database. Where stored JSON is not the object the code expects, the
  exception Python raises is the outcome; it undoes the transaction.
\<close>

section \<open>Names and inputs\<close>

definition RECOVERY_PURPOSE :: string where
  "RECOVERY_PURPOSE = ''account_credential_recovery''"

definition RECOVERY_SESSION_PURPOSE :: string where
  "RECOVERY_SESSION_PURPOSE = ''recovery_session''"

definition NORMAL_AUTH_PENDING_PURPOSES :: "string list" where
  "NORMAL_AUTH_PENDING_PURPOSES = [''webauthn_login'', ''password_mfa'', ''sso_mfa'',
     ''login_mfa_webauthn'', ''stepup'', ''webauthn_enrollment'', ''totp_enrollment'']"

datatype session_error = Unauthorized | Recovery_active | Attribute_error

record request_env =
  rq_forwarded_proto :: string
  rq_forwarded_ssl :: string
  rq_url :: string
  rq_user_agent :: string
  rq_remote_addr :: "string option"

text \<open>\<open>UserSession.is_expired\<close> and \<open>json.loads(pending.context or "{}")\<close>.\<close>

definition is_expired :: "time \<Rightarrow> user_session \<Rightarrow> bool" where
  "is_expired now s \<longleftrightarrow> us_expires_at s < now"

definition context_of :: "auth_pending \<Rightarrow> json_text" where
  "context_of p = (case ap_context p of None \<Rightarrow> Json (JObj []) | Some c \<Rightarrow> c)"

definition context_obj :: "auth_pending \<Rightarrow> dict option" where
  "context_obj p = (case context_of p of Json v \<Rightarrow> as_obj v | Malformed \<Rightarrow> None)"

definition get_text :: "dict \<Rightarrow> string \<Rightarrow> string" where
  "get_text d key = str_or_empty (dget d key JNull)"

definition session_of :: "string \<Rightarrow> db \<Rightarrow> user_session option" where
  "session_of session_id db =
     (if session_id = [] then None else get_by us_id session_id (user_sessions db))"

section \<open>Discarding a recovery\<close>

definition recorded_ids :: "dict \<Rightarrow> string \<Rightarrow> string list" where
  "recorded_ids ctx key = (case dget ctx key (JList []) of
     JList vs \<Rightarrow> map py_str (filter is_str_or_int vs) | _ \<Rightarrow> [])"

definition staged_credential :: "string \<Rightarrow> dict \<Rightarrow> webauthn_credential \<Rightarrow> bool" where
  "staged_credential user_id ctx c \<longleftrightarrow>
     wc_id c \<in> set (recorded_ids ctx ''recovery_webauthn_ids'') \<and> wc_user_id c = user_id
     \<and> wc_verification_status c = ''recovery_pending''"

definition staged_device :: "string \<Rightarrow> dict \<Rightarrow> mfa_device \<Rightarrow> bool" where
  "staged_device user_id ctx d \<longleftrightarrow>
     md_id d \<in> set (recorded_ids ctx ''recovery_totp_ids'') \<and> md_user_id d = user_id
     \<and> md_device_type d = MFA_Totp \<and> md_verification_status d = ''recovery_pending''"

definition discard_audit :: "config \<Rightarrow> time \<Rightarrow> string \<Rightarrow> string \<Rightarrow> string \<Rightarrow> string \<Rightarrow> db \<Rightarrow> db" where
  "discard_audit cfg now user_id kind reason target db =
     write_audit_event cfg now ''recovery_credential_discarded'' ''success'' None (Some user_id) None
       (Some target) None
       (Some (''credential_type='' @ kind @ '';purpose='' @ RECOVERY_PURPOSE @ '';reason='' @ reason)) True db"

text \<open>An enrolment of this recovery, or \<open>None\<close> where its context has no \<open>get\<close>.\<close>

definition enrollment_of_recovery :: "string \<Rightarrow> string \<Rightarrow> auth_pending \<Rightarrow> bool option" where
  "enrollment_of_recovery session_id recovery_id e =
     (case context_of e of
        Malformed \<Rightarrow> Some False
      | Json (JObj d) \<Rightarrow> Some (truthy (dget d ''recovery_only'' JNull)
          \<and> dget d ''session_id'' JNull = JStr session_id
          \<and> dget d ''recovery_id'' JNull = JStr recovery_id)
      | Json _ \<Rightarrow> None)"

definition open_enrollment :: "string \<Rightarrow> auth_pending \<Rightarrow> bool" where
  "open_enrollment user_id e \<longleftrightarrow>
     ap_user_id e = Some user_id \<and> ap_purpose e \<in> {''webauthn_enrollment'', ''totp_enrollment''}
     \<and> ap_consumed_at e = None"

definition discard_recovery_enrollments ::
  "config \<Rightarrow> time \<Rightarrow> auth_pending \<Rightarrow> dict \<Rightarrow> string \<Rightarrow> db \<Rightarrow> (session_error, unit, db) outcome" where
  "discard_recovery_enrollments cfg now pending ctx reason db =
     (let user_id = or_empty (ap_user_id pending) in
      if user_id = [] then (Inr (), db)
      else
       (let creds = filter (staged_credential user_id ctx) (webauthn_credentials db);
            db1 = fold (\<lambda>c. discard_audit cfg now user_id ''webauthn'' reason (wc_id c)) creds
              (db\<lparr>webauthn_credentials :=
                 delete_where (staged_credential user_id ctx) (webauthn_credentials db)\<rparr>);
            devices = filter (staged_device user_id ctx) (mfa_devices db1);
            db2 = fold (\<lambda>d. discard_audit cfg now user_id ''totp'' reason (md_id d)) devices
              (db1\<lparr>mfa_devices :=
                 delete_where (staged_device user_id ctx) (mfa_devices db1)\<rparr>);
            session_id = get_text ctx ''session_id''
        in if session_id = [] then (Inr (), db2)
           else if exists_where (\<lambda>e. open_enrollment user_id e
                  \<and> enrollment_of_recovery session_id (ap_id pending) e = None) (auth_pendings db2)
           then (Inl Attribute_error, db)
           else (Inr (), db2\<lparr>auth_pendings := update_where
               (\<lambda>e. open_enrollment user_id e
                  \<and> enrollment_of_recovery session_id (ap_id pending) e = Some True)
               (\<lambda>e. e\<lparr>ap_consumed_at := Some now\<rparr>) (auth_pendings db2)\<rparr>)))"

definition consume_row :: "time \<Rightarrow> auth_pending \<Rightarrow> db \<Rightarrow> db" where
  "consume_row now pending db =
     db\<lparr>auth_pendings := update_where (\<lambda>p. ap_id p = ap_id pending)
       (\<lambda>p. p\<lparr>ap_consumed_at := Some now\<rparr>) (auth_pendings db)\<rparr>"

definition invalidate_recovery_session ::
  "config \<Rightarrow> time \<Rightarrow> auth_pending \<Rightarrow> dict \<Rightarrow> string \<Rightarrow> db \<Rightarrow> (session_error, unit, db) outcome" where
  "invalidate_recovery_session cfg now pending ctx reason db =
     and_then (discard_recovery_enrollments cfg now pending ctx reason db) (\<lambda>_ db1.
       (let db2 = consume_row now pending db1;
            session_id = get_text ctx ''session_id''
        in case session_of session_id db2 of
             None \<Rightarrow> (Inr (), db2)
           | Some s \<Rightarrow>
               if ap_user_id pending = Some (us_user_id s)
               then (Inr (), db2\<lparr>user_sessions := update_where (\<lambda>r. us_id r = session_id)
                      (\<lambda>r. r\<lparr>us_is_valid := False\<rparr>) (user_sessions db2)\<rparr>)
               else (Inr (), db2)))"

section \<open>Is a recovery live\<close>

definition recovery_row :: "string \<Rightarrow> auth_pending \<Rightarrow> bool" where
  "recovery_row user_id p \<longleftrightarrow>
     ap_user_id p = Some user_id \<and> ap_purpose p = RECOVERY_SESSION_PURPOSE \<and> ap_consumed_at p = None"

definition live_authorization :: "time \<Rightarrow> string \<Rightarrow> auth_pending \<Rightarrow> bool" where
  "live_authorization now user_id p \<longleftrightarrow>
     ap_user_id p = Some user_id \<and> ap_purpose p = RECOVERY_AUTHORIZATION_PURPOSE
     \<and> ap_consumed_at p = None \<and> now < ap_expires_at p"

definition recovery_audit :: "config \<Rightarrow> time \<Rightarrow> string \<Rightarrow> string \<Rightarrow> string \<Rightarrow> string \<Rightarrow> db \<Rightarrow> db" where
  "recovery_audit cfg now user_id event outcome detail db =
     write_audit_event cfg now event outcome None (Some user_id) None (Some user_id) None
       (Some (''purpose='' @ RECOVERY_PURPOSE @ '';'' @ detail)) True db"

definition recovery_session_live :: "time \<Rightarrow> string \<Rightarrow> user_session \<Rightarrow> bool" where
  "recovery_session_live now user_id s \<longleftrightarrow>
     us_user_id s = user_id \<and> us_is_valid s \<and> \<not> is_expired now s
     \<and> us_auth_method s = ''recovery'' \<and> us_assurance_level s = ''recovery''"

text \<open>The loop over the rows of the first query; \<open>Some True\<close> is its early return.\<close>

fun recovery_scan ::
  "config \<Rightarrow> time \<Rightarrow> string \<Rightarrow> auth_pending list \<Rightarrow> db \<Rightarrow> (session_error, bool, db) outcome" where
  "recovery_scan cfg now user_id [] db =
     (Inr (exists_where (live_authorization now user_id) (auth_pendings db)), db)"
| "recovery_scan cfg now user_id (p # ps) db =
     (if ap_expires_at p \<le> now then
        and_then
          (case context_obj p of
             Some ctx \<Rightarrow> invalidate_recovery_session cfg now p ctx ''expired'' db
           | None \<Rightarrow> (Inr (), consume_row now p db))
          (\<lambda>_ db1. recovery_scan cfg now user_id ps
             (recovery_audit cfg now user_id ''recovery_expired'' ''failure'' ''reason=expired'' db1))
      else (case context_obj p of
          None \<Rightarrow> (Inr True, db)
        | Some ctx \<Rightarrow>
            if dget ctx ''recovery_purpose'' JNull \<noteq> JStr RECOVERY_PURPOSE then (Inr True, db)
            else (case session_of (get_text ctx ''session_id'') db of
                Some s \<Rightarrow>
                  if recovery_session_live now user_id s then (Inr True, db)
                  else and_then (invalidate_recovery_session cfg now p ctx ''session_revoked'' db)
                    (\<lambda>_ db1. recovery_scan cfg now user_id ps
                       (recovery_audit cfg now user_id ''recovery_aborted'' ''success''
                          ''reason=session_revoked'' db1))
              | None \<Rightarrow>
                  and_then (invalidate_recovery_session cfg now p ctx ''session_revoked'' db)
                    (\<lambda>_ db1. recovery_scan cfg now user_id ps
                       (recovery_audit cfg now user_id ''recovery_aborted'' ''success''
                          ''reason=session_revoked'' db1)))))"

definition has_active_recovery ::
  "config \<Rightarrow> time \<Rightarrow> string \<Rightarrow> db \<Rightarrow> (session_error, bool, db) outcome" where
  "has_active_recovery cfg now user_id db =
     recovery_scan cfg now user_id (filter (recovery_row user_id) (auth_pendings db)) db"

section \<open>Creating a session\<close>

fun account_value :: "account_type \<Rightarrow> string" where
  "account_value Account_Public = ''public''"
| "account_value Account_Operational = ''operational''"

definition request_is_tls :: "request_env \<Rightarrow> bool" where
  "request_is_tls req =
     (let proto = (if rq_forwarded_proto req \<noteq> [] then rq_forwarded_proto req
        else rq_forwarded_ssl req)
      in lower proto \<in> {''https'', ''on''} \<or> startswith (rq_url req) ''https'')"

definition session_row ::
  "config \<Rightarrow> time \<Rightarrow> request_env \<Rightarrow> string \<Rightarrow> user \<Rightarrow> string \<Rightarrow> string \<Rightarrow> int option \<Rightarrow> user_session" where
  "session_row cfg now req new_id user auth_method assurance ttl =
     \<lparr>us_id = new_id, us_user_id = u_id user, us_created_at = now,
      us_expires_at = now + seconds (case ttl of Some t \<Rightarrow> max 1 t | None \<Rightarrow> cfg_admin_session_ttl cfg),
      us_last_seen_at = now, us_client_ip = rq_remote_addr req,
      us_user_agent = or_none (take 512 (rq_user_agent req)), us_is_tls = request_is_tls req,
      us_is_cli = False, us_is_valid = True, us_auth_method = take 64 auth_method,
      us_assurance_level = take 32 assurance\<rparr>"

definition oauth_resume_of :: "dict \<Rightarrow> (string \<times> json) list" where
  "oauth_resume_of session = (case dget session ''oauth_resume'' JNull of
     JStr r \<Rightarrow> if startswith r ''/oauth/authorize?'' \<and> length r \<le> 2048
              then [(''oauth_resume'', JStr r)] else []
   | _ \<Rightarrow> [])"

definition new_cookie :: "user \<Rightarrow> user_session \<Rightarrow> bool \<Rightarrow> dict \<Rightarrow> dict" where
  "new_cookie user row recovery_only session =
     [(''user_id'', JStr (u_id user)), (''user_name'', JStr (u_username user)),
      (''user_role'', JStr (role_value (u_role user))),
      (''account_type'', JStr (account_value (u_account_type user))),
      (''auth_method'', JStr (us_auth_method row)),
      (''assurance_level'', JStr (us_assurance_level row)),
      (''recovery_only'', JBool recovery_only), (''session_id'', JStr (us_id row))]
     @ oauth_resume_of session
     @ (if recovery_only then [(''recovery_purpose'', JStr RECOVERY_PURPOSE)] else [])"

definition open_session ::
  "config \<Rightarrow> time \<Rightarrow> request_env \<Rightarrow> string \<Rightarrow> user \<Rightarrow> string \<Rightarrow> string \<Rightarrow> bool \<Rightarrow> int option
   \<Rightarrow> dict \<Rightarrow> db \<Rightarrow> (session_error, user_session, dict \<times> db) outcome" where
  "open_session cfg now req new_id user auth_method assurance recovery_only ttl session db =
     (let row = session_row cfg now req new_id user auth_method assurance ttl
      in (Inr row, new_cookie user row recovery_only session,
          db\<lparr>user_sessions := add_row row (user_sessions db)\<rparr>))"

definition create_user_session ::
  "config \<Rightarrow> time \<Rightarrow> request_env \<Rightarrow> string \<Rightarrow> user \<Rightarrow> string \<Rightarrow> string \<Rightarrow> bool \<Rightarrow> int option
   \<Rightarrow> dict \<times> db \<Rightarrow> (session_error, user_session, dict \<times> db) outcome" where
  "create_user_session cfg now req new_id user auth_method assurance recovery_only ttl = (\<lambda>(session, db).
     if recovery_only
     then open_session cfg now req new_id user auth_method assurance recovery_only ttl session db
     else (case lock_user_for_credential_change (u_id user) db of
         None \<Rightarrow> (Inl Unauthorized, session, db)
       | Some locked \<Rightarrow>
           if \<not> u_is_active locked then (Inl Unauthorized, session, db)
           else (case has_active_recovery cfg now (u_id user) db of
               (Inl e, db1) \<Rightarrow> (Inl e, session, db1)
             | (Inr True, db1) \<Rightarrow> (Inl Recovery_active, session, db1)
             | (Inr False, db1) \<Rightarrow>
                 open_session cfg now req new_id user auth_method assurance recovery_only ttl session db1)))"

section \<open>Recovery state\<close>

definition recovery_key :: "string \<Rightarrow> string option" where
  "recovery_key credential_type =
     map_of [(''webauthn'', ''recovery_webauthn_ids''), (''totp'', ''recovery_totp_ids'')] credential_type"

definition append_recovery_credential_id ::
  "time \<Rightarrow> string \<Rightarrow> string \<Rightarrow> string \<Rightarrow> string \<Rightarrow> string \<Rightarrow> db \<Rightarrow> bool \<times> db" where
  "append_recovery_credential_id now user_id recovery_id session_id credential_type credential_id db =
     (case recovery_key credential_type of
        None \<Rightarrow> (False, db)
      | Some key \<Rightarrow>
         (case first_where (\<lambda>p. ap_id p = recovery_id \<and> recovery_row user_id p) (auth_pendings db) of
            None \<Rightarrow> (False, db)
          | Some pending \<Rightarrow>
              if ap_expires_at pending \<le> now then (False, db)
              else (case context_obj pending of
                  None \<Rightarrow> (False, db)
                | Some ctx \<Rightarrow>
                    if dget ctx ''session_id'' JNull \<noteq> JStr session_id
                       \<or> dget ctx ''recovery_purpose'' JNull \<noteq> JStr RECOVERY_PURPOSE
                    then (False, db)
                    else (case dget ctx key (JList []) of
                        JList values \<Rightarrow>
                          (let values' = (if JStr credential_id \<in> set values then values
                                 else values @ [JStr credential_id])
                           in (True, db\<lparr>auth_pendings := update_where (\<lambda>p. ap_id p = ap_id pending)
                                (\<lambda>p. p\<lparr>ap_context := Some (Json (JObj (dset ctx key (JList values'))))\<rparr>)
                                (auth_pendings db)\<rparr>))
                      | _ \<Rightarrow> (False, db)))))"

definition normal_row :: "string \<Rightarrow> auth_pending \<Rightarrow> bool" where
  "normal_row user_id p \<longleftrightarrow>
     ap_user_id p = Some user_id \<and> ap_purpose p \<in> set NORMAL_AUTH_PENDING_PURPOSES
     \<and> ap_consumed_at p = None"

definition invalidate_normal_auth_pendings ::
  "config \<Rightarrow> time \<Rightarrow> string \<Rightarrow> string \<Rightarrow> string \<Rightarrow> db \<Rightarrow> nat \<times> db" where
  "invalidate_normal_auth_pendings cfg now user_id actor_id reason db =
     (let rows = filter (normal_row user_id) (auth_pendings db);
          purposes = sort (remdups (map ap_purpose rows));
          db1 = db\<lparr>auth_pendings := update_where (normal_row user_id)
             (\<lambda>p. p\<lparr>ap_consumed_at := Some now\<rparr>) (auth_pendings db)\<rparr>
      in if rows = [] then (0, db1)
         else (length rows,
           write_audit_event cfg now ''recovery_pending_invalidated'' ''success'' None (Some actor_id)
             None (Some user_id) None
             (Some (''purpose='' @ RECOVERY_PURPOSE @ '';reason='' @ reason @ '';count=''
                @ str_int (int (length rows)) @ '';pending_purposes='' @ join_with '','' purposes))
             True db1))"

definition recovery_cookie :: "dict \<Rightarrow> bool" where
  "recovery_cookie session \<longleftrightarrow>
     truthy (dget session ''recovery_only'' JNull)
     \<and> dget session ''auth_method'' JNull = JStr ''recovery''
     \<and> dget session ''assurance_level'' JNull = JStr ''recovery''
     \<and> dget session ''recovery_purpose'' JNull = JStr RECOVERY_PURPOSE"

text \<open>The conditions on the pending row and on its context, without its lifetime.\<close>

definition recovery_context_ok :: "string \<Rightarrow> dict \<Rightarrow> bool" where
  "recovery_context_ok session_id ctx \<longleftrightarrow>
     dget ctx ''session_id'' JNull = JStr session_id
     \<and> dget ctx ''recovery_purpose'' JNull = JStr RECOVERY_PURPOSE
     \<and> dget ctx ''auth_method'' JNull = JStr ''recovery_ticket''
     \<and> truthy (dget ctx ''authorized_by'' JNull)"

definition get_active_recovery_state ::
  "config \<Rightarrow> time \<Rightarrow> dict \<Rightarrow> db \<Rightarrow> (session_error, (auth_pending \<times> dict) option, db) outcome" where
  "get_active_recovery_state cfg now session db =
     (if \<not> recovery_cookie session then (Inr None, db)
      else
       (let user_id = get_text session ''user_id''; session_id = get_text session ''session_id'';
            pending_id = get_text session ''recovery_id''
        in if user_id = [] \<or> session_id = [] \<or> pending_id = [] then (Inr None, db)
           else (case get_by us_id session_id (user_sessions db) of
               None \<Rightarrow> (Inr None, db)
             | Some s \<Rightarrow>
                 if \<not> recovery_session_live now user_id s then (Inr None, db)
                 else (case get_by ap_id pending_id (auth_pendings db) of
                     None \<Rightarrow> (Inr None, db)
                   | Some pending \<Rightarrow>
                       if \<not> recovery_row user_id pending then (Inr None, db)
                       else (case context_obj pending of
                           None \<Rightarrow> (Inr None, db)
                         | Some ctx \<Rightarrow>
                             if \<not> recovery_context_ok session_id ctx then (Inr None, db)
                             else if ap_expires_at pending \<le> now
                             then and_then (invalidate_recovery_session cfg now pending ctx
                                    ''expired'' db)
                                  (\<lambda>_ db1. (Inr None, recovery_audit cfg now user_id
                                     ''recovery_expired'' ''failure'' ''pending_expired'' db1))
                             else (Inr (Some (pending, ctx)), db))))))"

section \<open>The check of every request\<close>

text \<open>The pending row a cookie names, when it is this user's open recovery.\<close>

definition cookie_recovery :: "dict \<Rightarrow> string \<Rightarrow> db \<Rightarrow> auth_pending option" where
  "cookie_recovery session user_id db =
     (let pending_id = get_text session ''recovery_id''
      in if pending_id = [] then None
         else (case get_by ap_id pending_id (auth_pendings db) of
             Some p \<Rightarrow> if recovery_row user_id p then Some p else None
           | None \<Rightarrow> None))"

text \<open>
  The context of a row that does not parse is read as empty; one that is not an object
  only gets the row consumed, or nothing where \<open>consume_odd\<close> is false.
\<close>

definition end_recovery ::
  "config \<Rightarrow> time \<Rightarrow> bool \<Rightarrow> dict \<Rightarrow> string \<Rightarrow> string \<Rightarrow> db \<Rightarrow> (session_error, unit, db) outcome" where
  "end_recovery cfg now consume_odd session user_id reason db =
     (case cookie_recovery session user_id db of
        None \<Rightarrow> (Inr (), db)
      | Some pending \<Rightarrow>
         (case context_of pending of
            Malformed \<Rightarrow> invalidate_recovery_session cfg now pending [] reason db
          | Json (JObj ctx) \<Rightarrow> invalidate_recovery_session cfg now pending ctx reason db
          | Json _ \<Rightarrow> (Inr (), if consume_odd then consume_row now pending db else db)))"

definition invalidate_session :: "string \<Rightarrow> db \<Rightarrow> db" where
  "invalidate_session session_id db =
     db\<lparr>user_sessions := update_where (\<lambda>r. us_id r = session_id)
       (\<lambda>r. r\<lparr>us_is_valid := False\<rparr>) (user_sessions db)\<rparr>"

text \<open>The branch for a database session of a recovery: whether the request may go on.\<close>

definition check_recovery_session ::
  "config \<Rightarrow> time \<Rightarrow> dict \<Rightarrow> string \<Rightarrow> user_session \<Rightarrow> db \<Rightarrow> (session_error, bool, db) outcome" where
  "check_recovery_session cfg now session user_id s db =
     (if lock_user_for_credential_change user_id db = None then (Inr False, db)
      else if is_expired now s then
        and_then (end_recovery cfg now True session user_id ''expired'' db)
          (\<lambda>_ db1. (Inr False, recovery_audit cfg now user_id ''recovery_expired'' ''failure''
             ''state_expired'' (invalidate_session (us_id s) db1)))
      else if \<not> us_is_valid s then
        and_then (end_recovery cfg now True session user_id ''session_revoked'' db)
          (\<lambda>_ db1. (Inr False, recovery_audit cfg now user_id ''recovery_aborted'' ''success''
             ''reason=session_revoked'' db1))
      else if \<not> truthy (dget session ''recovery_only'' JNull) then
        and_then (end_recovery cfg now False session user_id ''recovery_marker_missing'' db)
          (\<lambda>_ db1. (Inr False, recovery_audit cfg now user_id ''recovery_session_invalid'' ''blocked''
             ''reason=recovery_marker_missing'' (invalidate_session (us_id s) db1)))
      else
        and_then (get_active_recovery_state cfg now session db)
          (\<lambda>state db1. case state of
             Some _ \<Rightarrow> (Inr True, db1)
           | None \<Rightarrow>
              (case get_by us_id (us_id s) (user_sessions db1) of
                 Some s1 \<Rightarrow>
                   if us_is_valid s1
                   then (Inr False, recovery_audit cfg now user_id ''recovery_session_invalid''
                      ''blocked'' ''reason=state_missing_consumed_or_mismatch''
                      (invalidate_session (us_id s) db1))
                   else (Inr False, db1)
               | None \<Rightarrow> (Inr False, db1))))"

definition refresh_session_identity ::
  "config \<Rightarrow> time \<Rightarrow> dict \<times> db \<Rightarrow> (session_error, user option, dict \<times> db) outcome" where
  "refresh_session_identity cfg now = (\<lambda>(session, db).
     (let user_id = get_text session ''user_id''; session_id = get_text session ''session_id'' in
      if user_id = [] \<or> session_id = [] then (Inr None, session, db)
      else
       (let user = get_by u_id user_id (users db);
            db_session = get_by us_id session_id (user_sessions db);
            finish = (\<lambda>db1.
              case (user, get_by us_id session_id (user_sessions db1)) of
                (Some u, Some s) \<Rightarrow>
                  if \<not> u_is_active u \<or> us_user_id s \<noteq> user_id \<or> \<not> us_is_valid s \<or> is_expired now s
                  then (Inr None, session, db1)
                  else (Inr (Some u),
                    dset (dset (dset session ''user_name'' (JStr (u_username u)))
                      ''user_role'' (JStr (role_value (u_role u))))
                      ''account_type'' (JStr (account_value (u_account_type u))),
                    db1\<lparr>user_sessions := update_where (\<lambda>r. us_id r = session_id)
                      (\<lambda>r. r\<lparr>us_last_seen_at := now\<rparr>) (user_sessions db1)\<rparr>)
              | _ \<Rightarrow> (Inr None, session, db1))
        in case db_session of
            Some s \<Rightarrow>
              if us_auth_method s = ''recovery'' then
                (case check_recovery_session cfg now session user_id s db of
                   (Inl e, db1) \<Rightarrow> (Inl e, session, db1)
                 | (Inr False, db1) \<Rightarrow> (Inr None, session, db1)
                 | (Inr True, db1) \<Rightarrow> finish db1)
              else if truthy (dget session ''recovery_only'' JNull) then (Inr None, session, db)
              else finish db
          | None \<Rightarrow> (Inr None, session, db))))"

section \<open>Facts\<close>

text \<open>Every operation on recoveries changes pending rows only by consuming them.\<close>

definition same_or_consumed :: "auth_pending \<Rightarrow> auth_pending \<Rightarrow> bool" where
  "same_or_consumed p q \<longleftrightarrow>
     (\<exists>c. q = p\<lparr>ap_consumed_at := c\<rparr> \<and> (c = ap_consumed_at p \<or> c \<noteq> None))"

definition consumes :: "auth_pending list \<Rightarrow> auth_pending list \<Rightarrow> bool" where
  "consumes rs rs' \<longleftrightarrow> list_all2 same_or_consumed rs rs'"

lemma same_or_consumed_trans:
  assumes "same_or_consumed p q" "same_or_consumed q r"
  shows "same_or_consumed p r"
proof -
  obtain c where c: "q = p\<lparr>ap_consumed_at := c\<rparr>" "c = ap_consumed_at p \<or> c \<noteq> None"
    using assms(1) by (auto simp: same_or_consumed_def)
  obtain d where d: "r = q\<lparr>ap_consumed_at := d\<rparr>" "d = ap_consumed_at q \<or> d \<noteq> None"
    using assms(2) by (auto simp: same_or_consumed_def)
  have "r = p\<lparr>ap_consumed_at := d\<rparr>" "d = ap_consumed_at p \<or> d \<noteq> None"
    using c d by auto
  then show ?thesis unfolding same_or_consumed_def by blast
qed

lemma same_or_consumed_simps [simp]:
  "same_or_consumed p p" "same_or_consumed p (p\<lparr>ap_consumed_at := Some t\<rparr>)"
proof -
  have "p = p\<lparr>ap_consumed_at := ap_consumed_at p\<rparr>" by simp
  then show "same_or_consumed p p" unfolding same_or_consumed_def by blast
  show "same_or_consumed p (p\<lparr>ap_consumed_at := Some t\<rparr>)" unfolding same_or_consumed_def by blast
qed

lemma same_or_consumedD:
  "same_or_consumed p q \<Longrightarrow> ap_id q = ap_id p \<and> (ap_consumed_at p \<noteq> None \<longrightarrow> ap_consumed_at q \<noteq> None)
     \<and> (ap_consumed_at q = None \<longrightarrow> q = p)"
  by (auto simp: same_or_consumed_def)

lemma consumes_refl [simp]: "consumes rs rs"
  by (simp add: consumes_def list_all2_same)

lemma consumes_trans: "consumes a b \<Longrightarrow> consumes b c \<Longrightarrow> consumes a c"
  unfolding consumes_def
  by (rule list_all2_trans [of same_or_consumed same_or_consumed same_or_consumed])
    (rule same_or_consumed_trans)

lemma consumes_update [simp]:
  "consumes rs (update_where P (\<lambda>p. p\<lparr>ap_consumed_at := Some t\<rparr>) rs)"
  by (induction rs) (simp_all add: consumes_def update_where_def)

lemma consumesD:
  "consumes rs rs' \<Longrightarrow> q \<in> set rs' \<Longrightarrow> \<exists>p \<in> set rs. same_or_consumed p q"
  unfolding consumes_def by (induction rs rs' rule: list_all2_induct) auto

text \<open>The rows of an identifier are consumed, and stay so.\<close>

definition spent :: "string \<Rightarrow> auth_pending list \<Rightarrow> bool" where
  "spent i rs \<longleftrightarrow> (\<forall>p \<in> set rs. ap_id p = i \<longrightarrow> ap_consumed_at p \<noteq> None)"

lemma spent_consumes:
  assumes "consumes rs rs'" "spent i rs"
  shows "spent i rs'"
  unfolding spent_def
proof (intro ballI impI)
  fix q
  assume q: "q \<in> set rs'" "ap_id q = i"
  obtain p where p: "p \<in> set rs" "same_or_consumed p q" using consumesD [OF assms(1) q(1)] by blast
  have "ap_id p = i" using same_or_consumedD [OF p(2)] q(2) by simp
  then have "ap_consumed_at p \<noteq> None" using assms(2) p(1) unfolding spent_def by blast
  then show "ap_consumed_at q \<noteq> None" using same_or_consumedD [OF p(2)] by blast
qed

lemma spent_consume_row [simp]: "spent (ap_id p) (auth_pendings (consume_row now p db))"
  by (auto simp: spent_def consume_row_def set_update_where)

lemma consume_row_frame [simp]:
  "consumes (auth_pendings db) (auth_pendings (consume_row now p db))"
  "users (consume_row now p db) = users db"
  "user_sessions (consume_row now p db) = user_sessions db"
  by (simp_all add: consume_row_def)

lemma discard_audits [simp]:
  "auth_pendings (fold (\<lambda>c. discard_audit cfg now uid k reason (f c)) cs db) = auth_pendings db"
  "users (fold (\<lambda>c. discard_audit cfg now uid k reason (f c)) cs db) = users db"
  "user_sessions (fold (\<lambda>c. discard_audit cfg now uid k reason (f c)) cs db) = user_sessions db"
  "webauthn_credentials (fold (\<lambda>c. discard_audit cfg now uid k reason (f c)) cs db) = webauthn_credentials db"
  "mfa_devices (fold (\<lambda>c. discard_audit cfg now uid k reason (f c)) cs db) = mfa_devices db"
  by (induction cs arbitrary: db) (simp_all add: discard_audit_def)

lemma recovery_audit_frame [simp]:
  "auth_pendings (recovery_audit cfg now uid ev oc dt db) = auth_pendings db"
  "users (recovery_audit cfg now uid ev oc dt db) = users db"
  "user_sessions (recovery_audit cfg now uid ev oc dt db) = user_sessions db"
  by (simp_all add: recovery_audit_def)

lemma discard_tables:
  assumes "discard_recovery_enrollments cfg now p ctx reason db = (r, db')"
  shows "consumes (auth_pendings db) (auth_pendings db')" "users db' = users db"
    "user_sessions db' = user_sessions db"
    "set (webauthn_credentials db) - set (webauthn_credentials db')
       \<subseteq> {c. ap_user_id p = Some (wc_user_id c) \<and> staged_credential (wc_user_id c) ctx c}"
    "set (webauthn_credentials db') \<subseteq> set (webauthn_credentials db)"
    "set (mfa_devices db) - set (mfa_devices db')
       \<subseteq> {d. ap_user_id p = Some (md_user_id d) \<and> staged_device (md_user_id d) ctx d}"
    "set (mfa_devices db') \<subseteq> set (mfa_devices db)"
  using assms
  by (cases "ap_user_id p"; auto simp: discard_recovery_enrollments_def Let_def set_delete_where
      staged_credential_def staged_device_def split: if_splits)+

lemma invalidate_tables:
  assumes "invalidate_recovery_session cfg now p ctx reason db = (r, db')"
  shows "consumes (auth_pendings db) (auth_pendings db') \<and> users db' = users db
    \<and> (\<not> isl r \<longrightarrow> spent (ap_id p) (auth_pendings db'))"
proof -
  obtain q db1 where d: "discard_recovery_enrollments cfg now p ctx reason db = (q, db1)" by force
  note frame = discard_tables(1,2) [OF d]
  have "consumes (auth_pendings db) (auth_pendings (consume_row now p db1))"
    using frame(1) consume_row_frame(1) by (rule consumes_trans)
  then show ?thesis using assms frame
    by (cases q) (auto simp: invalidate_recovery_session_def d Let_def split: option.splits if_splits)
qed

lemma recovery_scan_spends:
  assumes "recovery_scan cfg now uid ps db = (Inr False, db')"
  shows "consumes (auth_pendings db) (auth_pendings db') \<and> users db' = users db
    \<and> (\<forall>p \<in> set ps. spent (ap_id p) (auth_pendings db'))
    \<and> \<not> exists_where (live_authorization now uid) (auth_pendings db')"
  using assms
proof (induction ps arbitrary: db)
  case Nil
  then show ?case by auto
next
  case (Cons p ps)
  text \<open>Whatever branch is taken, the row is spent before the loop goes on.\<close>
  let ?next = "\<lambda>db1. consumes (auth_pendings db) (auth_pendings db1) \<and> users db1 = users db
    \<and> spent (ap_id p) (auth_pendings db1) \<and> recovery_scan cfg now uid ps db1 = (Inr False, db')"
  have after: "?next (recovery_audit cfg now uid ev oc dt dbx)"
    if "invalidate_recovery_session cfg now p ctx reason db = (r, dbx)" "r = Inr ()"
      "recovery_scan cfg now uid ps (recovery_audit cfg now uid ev oc dt dbx) = (Inr False, db')"
    for ctx reason r dbx ev oc dt
    using invalidate_tables [OF that(1)] that(2,3) by simp
  have "\<exists>db1. ?next db1"
  proof (cases "context_obj p")
    case None
    then have "?next (recovery_audit cfg now uid ''recovery_expired'' ''failure'' ''reason=expired''
        (consume_row now p db))"
      using Cons.prems by (simp split: if_splits)
    then show ?thesis by blast
  next
    case (Some ctx)
    obtain r1 dbx where x: "invalidate_recovery_session cfg now p ctx ''expired'' db = (r1, dbx)" by force
    obtain r2 dby where y: "invalidate_recovery_session cfg now p ctx ''session_revoked'' db = (r2, dby)"
      by force
    note steps = after [OF x] after [OF y]
    show ?thesis
    proof (cases "ap_expires_at p \<le> now")
      case True
      then have go: "and_then (r1, dbx) (\<lambda>_ db1. recovery_scan cfg now uid ps
          (recovery_audit cfg now uid ''recovery_expired'' ''failure'' ''reason=expired'' db1))
          = (Inr False, db')"
        using Cons.prems Some x by simp
      then have ok: "r1 = Inr ()" by (rule and_then_unit)
      have "?next (recovery_audit cfg now uid ''recovery_expired'' ''failure'' ''reason=expired'' dbx)"
        using go by (intro steps(1) ok) (simp add: ok)
      then show ?thesis by (rule exI [of ?next])
    next
      case False
      have go: "and_then (r2, dby) (\<lambda>_ db1. recovery_scan cfg now uid ps
          (recovery_audit cfg now uid ''recovery_aborted'' ''success'' ''reason=session_revoked'' db1))
          = (Inr False, db')"
        using Cons.prems Some False y by (simp split: if_splits option.splits)
      then have ok: "r2 = Inr ()" by (rule and_then_unit)
      have "?next (recovery_audit cfg now uid ''recovery_aborted'' ''success'' ''reason=session_revoked'' dby)"
        using go by (intro steps(2) ok) (simp add: ok)
      then show ?thesis by (rule exI [of ?next])
    qed
  qed
  then obtain db1 where db1: "consumes (auth_pendings db) (auth_pendings db1)"
    "users db1 = users db" "spent (ap_id p) (auth_pendings db1)"
    "recovery_scan cfg now uid ps db1 = (Inr False, db')"
    by blast
  note rest = Cons.IH [OF db1(4)]
  have "consumes (auth_pendings db) (auth_pendings db')" using db1(1) rest consumes_trans by blast
  moreover have "spent (ap_id p) (auth_pendings db')" using db1(3) rest spent_consumes by blast
  ultimately show ?case using rest db1(2) by simp
qed

lemma active_state_sound:
  assumes "get_active_recovery_state cfg now session db = (Inr (Some (p, ctx)), db')"
  shows "db' = db \<and> recovery_cookie session \<and> recovery_row (get_text session ''user_id'') p
    \<and> p \<in> set (auth_pendings db) \<and> ap_id p = get_text session ''recovery_id'' \<and> now < ap_expires_at p"
  using assms unfolding get_active_recovery_state_def
  by (auto simp: Let_def and_then_def split: if_splits option.splits sum.splits prod.splits dest: get_by_SomeD)

lemma spent_get_by:
  "spent i rs \<Longrightarrow> get_by ap_id i rs = Some p \<Longrightarrow> \<not> recovery_row uid p"
  by (auto simp: spent_def recovery_row_def dest!: get_by_SomeD)

lemma spent_no_state:
  "spent (get_text session ''recovery_id'') (auth_pendings db) \<Longrightarrow>
     get_active_recovery_state cfg now session db = (Inr None, db)"
  unfolding get_active_recovery_state_def
  by (auto simp: Let_def dest: spent_get_by split: option.splits)

text \<open>The branch for recoveries leaves the users alone and lets only a live recovery on.\<close>

lemma end_recovery_users:
  "end_recovery cfg now consume_odd session uid reason db = (r, db') \<Longrightarrow> users db' = users db"
  unfolding end_recovery_def
  by (auto dest!: invalidate_tables split: option.splits json_text.splits json.splits)

lemma check_recovery_sound:
  assumes "check_recovery_session cfg now session uid s db = (Inr True, db')"
  shows "db' = db \<and> \<not> is_expired now s \<and> us_is_valid s
    \<and> (\<exists>p ctx. get_active_recovery_state cfg now session db = (Inr (Some (p, ctx)), db))"
proof -
  obtain r dbx where st: "get_active_recovery_state cfg now session db = (r, dbx)" by force
  have notrue: "and_then m (\<lambda>_ db1. (Inr False, f db1)) \<noteq> (Inr True, x)"
    for m :: "(session_error, unit, db) outcome" and f x
    by (cases m; cases "fst m") (auto simp: and_then_def)
  from assms have "\<not> is_expired now s" "us_is_valid s" "truthy (dget session ''recovery_only'' JNull)"
    and go: "and_then (get_active_recovery_state cfg now session db)
          (\<lambda>state db1. case state of
             Some _ \<Rightarrow> (Inr True, db1)
           | None \<Rightarrow>
              (case get_by us_id (us_id s) (user_sessions db1) of
                 Some s1 \<Rightarrow>
                   if us_is_valid s1
                   then (Inr False, recovery_audit cfg now uid ''recovery_session_invalid''
                      ''blocked'' ''reason=state_missing_consumed_or_mismatch''
                      (invalidate_session (us_id s) db1))
                   else (Inr False, db1)
               | None \<Rightarrow> (Inr False, db1))) = (Inr True, db')"
    unfolding check_recovery_session_def by (auto simp: notrue split: if_splits)
  moreover from go st obtain p ctx where "r = Inr (Some (p, ctx))" "dbx = db'"
    by (cases r) (auto split: option.splits if_splits)
  ultimately show ?thesis using st active_state_sound [of cfg now session db p ctx dbx] by auto
qed

section \<open>Properties\<close>

text \<open>
  C5. Ordinary login and account recovery exclude each other: when an ordinary session is
  created, the user exists and is active, and after it no recovery session of the user is
  open and no unexpired recovery authorization is unused, so neither a redeemed nor an
  unredeemed recovery survives the login.
\<close>

theorem login_excludes_recovery:
  assumes "create_user_session cfg now req new_id user auth_method assurance False ttl (session, db)
      = (Inr row, session', db')"
  shows "(\<exists>u \<in> set (users db). u_id u = u_id user \<and> u_is_active u)
    \<and> (\<forall>p \<in> set (auth_pendings db'). \<not> recovery_row (u_id user) p
         \<and> \<not> live_authorization now (u_id user) p)
    \<and> user_sessions db' \<noteq> [] \<and> last (user_sessions db') = row \<and> us_user_id row = u_id user"
proof -
  from assms obtain u db1 where u: "lock_user_for_credential_change (u_id user) db = Some u" "u_is_active u"
    and scan: "has_active_recovery cfg now (u_id user) db = (Inr False, db1)"
    and rows: "auth_pendings db' = auth_pendings db1" "user_sessions db' = add_row row (user_sessions db1)"
      "us_user_id row = u_id user"
    by (auto simp: create_user_session_def open_session_def session_row_def Let_def
        split: option.splits if_splits sum.splits prod.splits bool.splits)
  note spends = recovery_scan_spends [OF scan [unfolded has_active_recovery_def]]
  have "\<not> recovery_row (u_id user) q" if "q \<in> set (auth_pendings db1)" for q
  proof
    assume open_row: "recovery_row (u_id user) q"
    from consumesD [OF conjunct1 [OF spends] that] obtain p where
      p: "p \<in> set (auth_pendings db)" "same_or_consumed p q" by blast
    then have "q = p" using open_row same_or_consumedD by (auto simp: recovery_row_def)
    then have "spent (ap_id q) (auth_pendings db1)" using spends p(1) open_row by simp
    then show False using that open_row by (auto simp: spent_def recovery_row_def)
  qed
  moreover have "\<not> live_authorization now (u_id user) q" if "q \<in> set (auth_pendings db1)" for q
    using spends that by (simp add: exists_where_iff)
  moreover have "\<exists>u \<in> set (users db). u_id u = u_id user \<and> u_is_active u"
    using u by (auto simp: lock_user_for_credential_change_def dest: get_by_SomeD)
  ultimately show ?thesis using rows by (simp add: add_row_def)
qed

definition demo_request :: request_env where
  "demo_request = \<lparr>rq_forwarded_proto = ''https'', rq_forwarded_ssl = [], rq_url = ''http://a.test/'',
     rq_user_agent = ''ua'', rq_remote_addr = None\<rparr>"

definition demo_login :: "(session_error, user_session, dict \<times> db) outcome" where
  "demo_login = create_user_session demo_config 0 demo_request ''s1'' (demo_user ''v'' Role_Viewer)
     ''webauthn'' ''user_verified'' False None ([], demo_people)"

lemma demo_login_ok:
  "create_user_session demo_config 0 demo_request ''s1'' (demo_user ''v'' Role_Viewer) ''webauthn''
     ''user_verified'' False None ([], demo_people)
   = (Inr (session_row demo_config 0 demo_request ''s1'' (demo_user ''v'' Role_Viewer) ''webauthn''
        ''user_verified'' None), fst (snd demo_login), snd (snd demo_login))"
  by code_simp

theorem login_excludes_recovery_witness:
  "list_all (\<lambda>p. \<not> recovery_row ''v'' p) (auth_pendings (snd (snd demo_login)))"
  using login_excludes_recovery [OF demo_login_ok] by (simp add: demo_user_def list_all_iff)

text \<open>
  A request keeps its identity only while everything behind it holds: the user of the
  cookie exists and is active, the session of the cookie is this user's, valid and
  unexpired, and a session of a recovery has its recovery still open and unexpired. The
  role in the cookie is then the one in the database.
\<close>

theorem refreshed_identity_is_live:
  assumes "refresh_session_identity cfg now (session, db) = (Inr (Some u), session', db')"
  shows "u \<in> set (users db) \<and> u_id u = get_text session ''user_id'' \<and> u_is_active u
    \<and> dget session' ''user_role'' JNull = JStr (role_value (u_role u))
    \<and> (\<exists>s \<in> set (user_sessions db). us_id s = get_text session ''session_id'' \<and> us_user_id s = u_id u
         \<and> us_is_valid s \<and> now \<le> us_expires_at s
         \<and> (us_auth_method s = ''recovery'' \<longrightarrow>
              (\<exists>p \<in> set (auth_pendings db). ap_id p = get_text session ''recovery_id''
                 \<and> recovery_row (u_id u) p \<and> now < ap_expires_at p))
         \<and> (us_auth_method s \<noteq> ''recovery'' \<longrightarrow> \<not> truthy (dget session ''recovery_only'' JNull)))"
proof -
  let ?uid = "get_text session ''user_id''"
  let ?sid = "get_text session ''session_id''"
  from assms obtain s where s: "get_by us_id ?sid (user_sessions db) = Some s"
    by (auto simp: refresh_session_identity_def Let_def split: if_splits option.splits)
  have recovery: "\<exists>p \<in> set (auth_pendings db). ap_id p = get_text session ''recovery_id''
      \<and> recovery_row ?uid p \<and> now < ap_expires_at p"
    if "check_recovery_session cfg now session ?uid s db = (Inr True, db1)" for db1
    using check_recovery_sound [OF that] active_state_sound by blast
  have same: "db1 = db" if "check_recovery_session cfg now session ?uid s db = (Inr True, db1)" for db1
    using check_recovery_sound [OF that] by blast
  have u: "get_by u_id ?uid (users db) = Some u" and live: "u_is_active u" "us_user_id s = ?uid"
      "us_is_valid s" "now \<le> us_expires_at s"
    and role: "dget session' ''user_role'' JNull = JStr (role_value (u_role u))"
    and kind: "us_auth_method s = ''recovery'' \<longrightarrow> (\<exists>db1. check_recovery_session cfg now session ?uid s db = (Inr True, db1))"
      "us_auth_method s \<noteq> ''recovery'' \<longrightarrow> \<not> truthy (dget session ''recovery_only'' JNull)"
    using assms s same
    by (auto simp: refresh_session_identity_def Let_def is_expired_def
        split: if_splits option.splits sum.splits prod.splits bool.splits)
  have mem: "u \<in> set (users db)" "u_id u = ?uid" "s \<in> set (user_sessions db)" "us_id s = ?sid"
    using get_by_SomeD [OF u] get_by_SomeD [OF s] by auto
  then show ?thesis using live role kind recovery by auto
qed

theorem refreshed_identity_is_live_witness:
  "demo_user ''v'' Role_Viewer \<in> set (users (snd (snd demo_login)))"
proof -
  let ?state = "(fst (snd demo_login), snd (snd demo_login))"
  let ?r = "refresh_session_identity demo_config 5 ?state"
  have "fst ?r = Inr (Some (demo_user ''v'' Role_Viewer))" by code_simp
  then have "?r = (Inr (Some (demo_user ''v'' Role_Viewer)), fst (snd ?r), snd (snd ?r))"
    by (metis prod.collapse)
  then show ?thesis using refreshed_identity_is_live by blast
qed

text \<open>
  Ending a recovery ends it for good: once \<open>invalidate_recovery_session\<close> has run for a
  pending row, no cookie that names the row gets its state back at any later time, and
  whatever consumes further rows does not change that.
\<close>

theorem ended_recovery_stays_ended:
  assumes "invalidate_recovery_session cfg now p ctx reason db = (Inr (), db1)"
    and "consumes (auth_pendings db1) (auth_pendings db2)"
    and "get_text session ''recovery_id'' = ap_id p"
  shows "get_active_recovery_state cfg2 now2 session db2 = (Inr None, db2)"
  using invalidate_tables [OF assms(1)] spent_consumes [OF assms(2)] spent_no_state assms(3) by simp

definition demo_recovery :: auth_pending where
  "demo_recovery = \<lparr>ap_id = ''r'', ap_user_id = Some ''v'', ap_purpose = RECOVERY_SESSION_PURPOSE,
     ap_challenge = None, ap_label = None, ap_username = None, ap_display_name = None, ap_email = None,
     ap_context = Some (Json (JObj [(''session_id'', JStr ''s''),
       (''recovery_purpose'', JStr RECOVERY_PURPOSE)])),
     ap_created_at = 0, ap_expires_at = 100, ap_consumed_at = None\<rparr>"

theorem ended_recovery_stays_ended_witness:
  "get_active_recovery_state demo_config 2 [(''recovery_id'', JStr ''r'')]
     (snd (invalidate_recovery_session demo_config 1 demo_recovery [] ''expired''
        (demo_people\<lparr>auth_pendings := [demo_recovery]\<rparr>)))
   = (Inr None, snd (invalidate_recovery_session demo_config 1 demo_recovery [] ''expired''
        (demo_people\<lparr>auth_pendings := [demo_recovery]\<rparr>)))"
proof (rule ended_recovery_stays_ended)
  let ?r = "invalidate_recovery_session demo_config 1 demo_recovery [] ''expired''
        (demo_people\<lparr>auth_pendings := [demo_recovery]\<rparr>)"
  have "fst ?r = Inr ()" by code_simp
  then show "?r = (Inr (), snd ?r)" by (metis prod.collapse)
qed (simp_all add: get_text_def dget_def demo_recovery_def)

text \<open>
  Discarding a recovery removes only factors it staged: a credential or device that
  goes belongs to the recovering user, is recorded in the recovery's context and was never
  finalized; no credential is added and no user changes.
\<close>

theorem discard_only_staged:
  assumes "discard_recovery_enrollments cfg now p ctx reason db = (r, db')"
  shows "users db' = users db
    \<and> set (webauthn_credentials db') \<subseteq> set (webauthn_credentials db)
    \<and> set (mfa_devices db') \<subseteq> set (mfa_devices db)
    \<and> (\<forall>c \<in> set (webauthn_credentials db) - set (webauthn_credentials db').
         ap_user_id p = Some (wc_user_id c) \<and> wc_verification_status c = ''recovery_pending''
         \<and> wc_id c \<in> set (recorded_ids ctx ''recovery_webauthn_ids''))
    \<and> (\<forall>d \<in> set (mfa_devices db) - set (mfa_devices db').
         ap_user_id p = Some (md_user_id d) \<and> md_verification_status d = ''recovery_pending''
         \<and> md_id d \<in> set (recorded_ids ctx ''recovery_totp_ids''))"
  using discard_tables [OF assms] by (auto simp: staged_credential_def staged_device_def)

theorem discard_only_staged_witness:
  "users (snd (discard_recovery_enrollments demo_config 1 demo_recovery [] ''expired'' demo_keys))
     = users demo_keys"
  using discard_only_staged [OF surjective_pairing] by blast

end
