(* ===== verification/OAuth_Server.thy ===== *)
theory OAuth_Server
  imports Database Contracts
begin

text \<open>
  \<open>auth/oauth_server.py\<close> and the token and revocation endpoints of
  \<open>web/routes/oauth_provider.py\<close>: authorization codes, token families, the rotation of
  refresh tokens with its reuse detection, bearer checks and signing keys.

  The cryptographic libraries are the record \<open>crypto\<close>: the digest of a stored token, the
  challenge of a PKCE verifier, the encryption of a private key and the encoding of a
  signed token. Generated identifiers, tokens and keys are arguments. \<open>json.loads\<close> of a
  client's stored lists is kept as the list. Where an operation raises, the database it
  returns is the one that is committed: the endpoint rolls the rest back.
\<close>

section \<open>Constants and environment\<close>

definition SUPPORTED_SCOPES :: "string list" where
  "SUPPORTED_SCOPES = [''openid'', ''profile'', ''posts:read'', ''posts:write'', ''comments:read'',
     ''comments:write'', ''media:read'', ''media:write'']"

definition ACCESS_TTL :: time where "ACCESS_TTL = minutes 8"
definition REFRESH_TTL :: time where "REFRESH_TTL = days 30"
definition REFRESH_FAMILY_TTL :: time where "REFRESH_FAMILY_TTL = days 90"
definition CODE_TTL :: time where "CODE_TTL = minutes 3"
definition TOKEN_ACCESS :: string where "TOKEN_ACCESS = ''access''"
definition TOKEN_REFRESH :: string where "TOKEN_REFRESH = ''refresh''"

datatype oauth_error =
    Server_error
  | Invalid_grant
  | Invalid_scope
  | Invalid_client
  | Unsupported_grant_type

record crypto =
  digest :: "string \<Rightarrow> string"
  pkce_challenge :: "string \<Rightarrow> string"
  encrypt :: "string \<Rightarrow> string"
  decrypt :: "string \<Rightarrow> string option"
  encode_jwt :: "string \<Rightarrow> string \<Rightarrow> dict \<Rightarrow> string"

text \<open>The random values of one token response.\<close>

record mint =
  mi_family_id :: string
  mi_access_id :: string
  mi_access :: string
  mi_refresh_id :: string
  mi_refresh :: string
  mi_subject_id :: string
  mi_subject :: string
  mi_kid :: string
  mi_private_pem :: string
  mi_public_pem :: string

section \<open>Server state and signing keys\<close>

text \<open>The first argument is the result of \<open>configured_issuer\<close>.\<close>

definition server_state ::
  "oauth_error + string \<Rightarrow> time \<Rightarrow> bool \<Rightarrow> db \<Rightarrow> (oauth_error, oidc_server, db) outcome" where
  "server_state configured now require_enabled db =
     (case configured of
        Inl e \<Rightarrow> (Inl e, db)
      | Inr issuer \<Rightarrow>
          (case get_by os_id 1 (oidc_servers db) of
             None \<Rightarrow>
               if require_enabled then (Inl Server_error, db)
               else (let row = \<lparr>os_id = 1, os_issuer = issuer, os_enabled = False, os_updated_at = now\<rparr>
                     in (Inr row, db\<lparr>oidc_servers := add_row row (oidc_servers db)\<rparr>))
           | Some row \<Rightarrow>
               if os_issuer row \<noteq> issuer then (Inl Server_error, db)
               else if require_enabled \<and> \<not> os_enabled row then (Inl Server_error, db)
               else (Inr row, db)))"

definition create_signing_key :: "crypto \<Rightarrow> time \<Rightarrow> mint \<Rightarrow> bool \<Rightarrow> db \<Rightarrow> signing_key \<times> db" where
  "create_signing_key cr now m rotating db =
     (let current = filter sk_is_current (signing_keys db) in
      if current \<noteq> [] \<and> \<not> rotating then (hd current, db)
      else
       (let retired = update_where sk_is_current
              (\<lambda>k. k\<lparr>sk_is_current := False, sk_retire_after := Some (now + days 1),
                 sk_private_key_enc := []\<rparr>) (signing_keys db);
            row = \<lparr>sk_kid = mi_kid m, sk_private_key_enc = encrypt cr (mi_private_pem m),
              sk_public_key_pem = mi_public_pem m, sk_created_at = now, sk_retire_after = None,
              sk_is_current = True\<rparr>
        in (row, db\<lparr>signing_keys := add_row row retired\<rparr>)))"

definition current_key :: "crypto \<Rightarrow> time \<Rightarrow> mint \<Rightarrow> db \<Rightarrow> signing_key \<times> db" where
  "current_key cr now m db =
     (case first_where sk_is_current (signing_keys db) of
        Some row \<Rightarrow> (row, db)
      | None \<Rightarrow> create_signing_key cr now m False db)"

text \<open>The keys \<open>jwks\<close> publishes, by identifier.\<close>

definition jwks :: "time \<Rightarrow> db \<Rightarrow> (string \<times> string) list" where
  "jwks now db = map (\<lambda>k. (sk_kid k, sk_public_key_pem k))
     (filter (\<lambda>k. sk_is_current k \<or> (case sk_retire_after k of None \<Rightarrow> False | Some t \<Rightarrow> now < t))
       (signing_keys db))"

definition private_key :: "crypto \<Rightarrow> signing_key \<Rightarrow> oauth_error + string" where
  "private_key cr row = (case decrypt cr (sk_private_key_enc row) of
     None \<Rightarrow> Inl Server_error | Some pem \<Rightarrow> Inr pem)"

definition stable_subject :: "time \<Rightarrow> mint \<Rightarrow> string \<Rightarrow> db \<Rightarrow> string \<times> db" where
  "stable_subject now m user_id db =
     (case get_by oj_user_id user_id (oidc_subjects db) of
        Some row \<Rightarrow> (oj_subject row, db)
      | None \<Rightarrow> (mi_subject m, db\<lparr>oidc_subjects := add_row
           \<lparr>oj_id = mi_subject_id m, oj_user_id = user_id, oj_subject = mi_subject m, oj_created_at = now\<rparr>
           (oidc_subjects db)\<rparr>))"

definition make_id_token ::
  "crypto \<Rightarrow> oauth_error + string \<Rightarrow> time \<Rightarrow> mint \<Rightarrow> string \<Rightarrow> string \<Rightarrow> string \<Rightarrow> string option \<Rightarrow> db
   \<Rightarrow> (oauth_error, string, db) outcome" where
  "make_id_token cr configured now m user_id client_id scopes nonce db =
     (let (key, db1) = current_key cr now m db;
          (subject, db2) = stable_subject now m user_id db1
      in case get_by u_id user_id (users db2) of
           None \<Rightarrow> (Inl Invalid_grant, db2)
         | Some user \<Rightarrow>
             if \<not> u_is_active user then (Inl Invalid_grant, db2)
             else and_then (server_state configured now True db2) (\<lambda>server db3.
               (let seconds_now = now div 1000000;
                    payload = [(''iss'', JStr (os_issuer server)), (''sub'', JStr subject),
                        (''aud'', JStr client_id), (''iat'', JInt seconds_now),
                        (''exp'', JInt (seconds_now + 300)), (''auth_time'', JInt seconds_now)]
                      @ (if truthy_str nonce then [(''nonce'', JStr (or_empty nonce))] else [])
                      @ (if ''profile'' \<in> set (split_ws scopes)
                         then [(''name'', JStr (u_display_name user)),
                               (''preferred_username'', JStr (u_username user))] else [])
                in case private_key cr key of
                     Inl e \<Rightarrow> (Inl e, db3)
                   | Inr pem \<Rightarrow> (Inr (encode_jwt cr (sk_kid key) pem payload), db3))))"

section \<open>Codes and tokens\<close>

definition issue_code ::
  "crypto \<Rightarrow> time \<Rightarrow> string \<Rightarrow> string \<Rightarrow> string \<Rightarrow> oauth_grant \<Rightarrow> string \<Rightarrow> string \<Rightarrow> string list \<Rightarrow> string
   \<Rightarrow> string option \<Rightarrow> db \<Rightarrow> db" where
  "issue_code cr now code_id code client_id grant user_id redirect_uri scopes challenge nonce db =
     db\<lparr>oauth_codes := add_row \<lparr>od_id = code_id, od_code_hash = digest cr code, od_client_id = client_id,
       od_grant_id = og_id grant, od_user_id = user_id, od_redirect_uri = redirect_uri,
       od_scopes = join_with '' '' scopes, od_code_challenge = challenge, od_nonce = nonce,
       od_expires_at = now + CODE_TTL, od_consumed_at = None\<rparr> (oauth_codes db)\<rparr>"

definition save_token ::
  "crypto \<Rightarrow> time \<Rightarrow> string \<Rightarrow> string \<Rightarrow> string \<Rightarrow> string \<Rightarrow> string \<Rightarrow> time \<Rightarrow> db \<Rightarrow> db" where
  "save_token cr now token_id token family_id kind scopes ttl db =
     db\<lparr>oauth_tokens := add_row \<lparr>ot_id = token_id, ot_token_hash = digest cr token, ot_token_type = kind,
       ot_family_id = family_id, ot_scopes = scopes, ot_expires_at = now + ttl, ot_consumed_at = None,
       ot_revoked_at = None, ot_created_at = now\<rparr> (oauth_tokens db)\<rparr>"

record token_body =
  tb_access :: string
  tb_refresh :: string
  tb_expires_in :: int
  tb_scope :: string
  tb_id_token :: "string option"

text \<open>What both paths do once the family is there: the two tokens and, with \<open>openid\<close>, the id token.\<close>

definition mint_tokens ::
  "crypto \<Rightarrow> oauth_error + string \<Rightarrow> time \<Rightarrow> mint \<Rightarrow> string \<Rightarrow> string \<Rightarrow> string \<Rightarrow> string \<Rightarrow> string option
   \<Rightarrow> db \<Rightarrow> (oauth_error, token_body, db) outcome" where
  "mint_tokens cr configured now m family_id user_id client_id scopes nonce db =
     (let db1 = save_token cr now (mi_access_id m) (mi_access m) family_id TOKEN_ACCESS scopes ACCESS_TTL db;
          db2 = save_token cr now (mi_refresh_id m) (mi_refresh m) family_id TOKEN_REFRESH scopes REFRESH_TTL db1;
          body = \<lparr>tb_access = mi_access m, tb_refresh = mi_refresh m,
            tb_expires_in = ACCESS_TTL div 1000000, tb_scope = scopes, tb_id_token = None\<rparr>
      in if ''openid'' \<in> set (split_ws scopes)
         then and_then (make_id_token cr configured now m user_id client_id scopes nonce db2)
           (\<lambda>tok db3. (Inr (body\<lparr>tb_id_token := Some tok\<rparr>), db3))
         else (Inr body, db2))"

definition token_response ::
  "crypto \<Rightarrow> oauth_error + string \<Rightarrow> time \<Rightarrow> mint \<Rightarrow> string \<Rightarrow> string \<Rightarrow> oauth_grant \<Rightarrow> string
   \<Rightarrow> string option \<Rightarrow> db \<Rightarrow> (oauth_error, token_body, db) outcome" where
  "token_response cr configured now m user_id client_id grant scopes nonce db =
     mint_tokens cr configured now m (mi_family_id m) user_id client_id scopes nonce
       (db\<lparr>token_families := add_row \<lparr>tf_id = mi_family_id m, tf_grant_id = og_id grant,
          tf_client_id = client_id, tf_user_id = user_id, tf_revoked_at = None, tf_created_at = now,
          tf_expires_at = now + REFRESH_FAMILY_TTL\<rparr> (token_families db)\<rparr>)"

definition scope_set :: "string \<Rightarrow> string set" where
  "scope_set s = set (split_ws s)"

definition consume_bearer ::
  "crypto \<Rightarrow> time \<Rightarrow> string \<Rightarrow> db \<Rightarrow> (oauth_token \<times> token_family \<times> oauth_grant) option" where
  "consume_bearer cr now token db =
     (case first_where (\<lambda>t. ot_token_hash t = digest cr token \<and> ot_token_type t = TOKEN_ACCESS
           \<and> ot_revoked_at t = None \<and> now < ot_expires_at t) (oauth_tokens db) of
        None \<Rightarrow> None
      | Some row \<Rightarrow>
         (case get_by tf_id (ot_family_id row) (token_families db) of
            None \<Rightarrow> None
          | Some family \<Rightarrow>
              if tf_revoked_at family \<noteq> None then None
              else (case (get_by og_id (tf_grant_id family) (oauth_grants db),
                          get_by oc_client_id (tf_client_id family) (oauth_clients db),
                          get_by u_id (tf_user_id family) (users db)) of
                  (Some grant, Some client, Some user) \<Rightarrow>
                    if og_revoked_at grant \<noteq> None \<or> \<not> oc_enabled client \<or> \<not> u_is_active user
                       \<or> \<not> scope_set (ot_scopes row) \<subseteq> scope_set (og_scopes grant)
                    then None else Some (row, family, grant)
                | _ \<Rightarrow> None)))"

section \<open>Refresh rotation\<close>

definition revoke_family :: "time \<Rightarrow> string \<Rightarrow> db \<Rightarrow> db" where
  "revoke_family now family_id db =
     db\<lparr>token_families := update_where (\<lambda>f. tf_id f = family_id) (\<lambda>f. f\<lparr>tf_revoked_at := Some now\<rparr>)
          (token_families db),
        oauth_tokens := update_where (\<lambda>t. ot_family_id t = family_id) (\<lambda>t. t\<lparr>ot_revoked_at := Some now\<rparr>)
          (oauth_tokens db)\<rparr>"

text \<open>
  The checks before the claim: the token row, its family and the scopes selected, or the
  error with the database to commit.
\<close>

definition rotate_check ::
  "crypto \<Rightarrow> time \<Rightarrow> string \<Rightarrow> string \<Rightarrow> string list option \<Rightarrow> db
   \<Rightarrow> (oauth_error, oauth_token \<times> token_family \<times> string list, db) outcome" where
  "rotate_check cr now raw client_id requested db =
     (case first_where (\<lambda>t. ot_token_hash t = digest cr raw \<and> ot_token_type t = TOKEN_REFRESH)
           (oauth_tokens db) of
        None \<Rightarrow> (Inl Invalid_grant, db)
      | Some row \<Rightarrow>
         (case get_by tf_id (ot_family_id row) (token_families db) of
            None \<Rightarrow> (Inl Invalid_grant, db)
          | Some family \<Rightarrow>
             (case (get_by og_id (tf_grant_id family) (oauth_grants db),
                    get_by oc_client_id client_id (oauth_clients db)) of
                (Some grant, Some client) \<Rightarrow>
                  if tf_client_id family \<noteq> client_id then (Inl Invalid_grant, db)
                  else if ot_consumed_at row \<noteq> None
                  then (Inl Invalid_grant, revoke_family now (tf_id family) db)
                  else if ot_revoked_at row \<noteq> None \<or> ot_expires_at row \<le> now
                     \<or> tf_expires_at family \<le> now \<or> tf_revoked_at family \<noteq> None
                     \<or> og_revoked_at grant \<noteq> None \<or> \<not> oc_enabled client
                  then (Inl Invalid_grant, db)
                  else (case get_by u_id (tf_user_id family) (users db) of
                      None \<Rightarrow> (Inl Invalid_grant, db)
                    | Some user \<Rightarrow>
                        if \<not> u_is_active user then (Inl Invalid_grant, db)
                        else if \<not> scope_set (ot_scopes row) \<subseteq> scope_set (og_scopes grant)
                        then (Inl Invalid_grant, db)
                        else
                         (let selected = (case requested of
                                None \<Rightarrow> remdups (split_ws (ot_scopes row)) | Some rs \<Rightarrow> remdups rs)
                          in if selected = [] \<or> \<not> set selected \<subseteq> scope_set (ot_scopes row)
                             then (Inl Invalid_scope, db)
                             else (Inr (row, family, selected), db)))
              | _ \<Rightarrow> (Inl Invalid_grant, db))))"

definition claim_matches :: "string \<Rightarrow> oauth_token \<Rightarrow> bool" where
  "claim_matches token_id t \<longleftrightarrow> ot_id t = token_id \<and> (ot_consumed_at t = None \<and> ot_revoked_at t = None)"

text \<open>The conditional update that claims the token, and whether its row count is 1.\<close>

definition claim_refresh :: "string \<Rightarrow> time \<Rightarrow> db \<Rightarrow> bool \<times> db" where
  "claim_refresh token_id now db =
     (rowcount (claim_matches token_id) (oauth_tokens db) = 1,
      db\<lparr>oauth_tokens := update_where (claim_matches token_id) (\<lambda>t. t\<lparr>ot_consumed_at := Some now\<rparr>)
        (oauth_tokens db)\<rparr>)"

definition rotate_claimed ::
  "crypto \<Rightarrow> oauth_error + string \<Rightarrow> time \<Rightarrow> mint \<Rightarrow> string \<Rightarrow> oauth_token \<Rightarrow> token_family \<Rightarrow> string list
   \<Rightarrow> db \<Rightarrow> (oauth_error, token_body, db) outcome" where
  "rotate_claimed cr configured now m client_id row family selected db =
     (let (claimed, db1) = claim_refresh (ot_id row) now db in
      if \<not> claimed then (Inl Invalid_grant, revoke_family now (tf_id family) db1)
      else (case mint_tokens cr configured now m (tf_id family) (tf_user_id family) client_id
              (join_with '' '' (sort selected)) None db1 of
          (Inl e, _) \<Rightarrow> (Inl e, db)
        | (Inr body, db2) \<Rightarrow> (Inr body, db2)))"

definition rotate_refresh ::
  "crypto \<Rightarrow> oauth_error + string \<Rightarrow> time \<Rightarrow> mint \<Rightarrow> string \<Rightarrow> string \<Rightarrow> string list option \<Rightarrow> db
   \<Rightarrow> (oauth_error, token_body, db) outcome" where
  "rotate_refresh cr configured now m raw client_id requested db =
     and_then (rotate_check cr now raw client_id requested db)
       (\<lambda>(row, family, selected) db1.
          rotate_claimed cr configured now m client_id row family selected db1)"

definition pkce_char :: "char \<Rightarrow> bool" where
  "pkce_char c \<longleftrightarrow> is_lower_alpha c \<or> is_upper_alpha c \<or> is_digit c \<or> c \<in> set ''-._~''"

definition verify_pkce :: "crypto \<Rightarrow> string \<Rightarrow> string \<Rightarrow> bool" where
  "verify_pkce cr verifier challenge \<longleftrightarrow>
     43 \<le> length verifier \<and> length verifier \<le> 128 \<and> list_all pkce_char verifier
     \<and> pkce_challenge cr verifier = challenge"

section \<open>The token and revocation endpoints\<close>

text \<open>
  \<open>_authenticate_client\<close>, from the identifier and secret \<open>_client_credentials\<close> found in
  the header or the form.
\<close>

definition authenticate_client ::
  "crypto \<Rightarrow> string \<Rightarrow> string option \<Rightarrow> db \<Rightarrow> oauth_error + oauth_client" where
  "authenticate_client cr client_id secret db =
     (case get_by oc_client_id client_id (oauth_clients db) of
        None \<Rightarrow> Inl Invalid_client
      | Some client \<Rightarrow>
          if \<not> oc_enabled client then Inl Invalid_client
          else if oc_client_type client = ''confidential'' then
            (if \<not> truthy_str secret \<or> \<not> truthy_str (oc_secret_hash client)
                \<or> digest cr (or_empty secret) \<noteq> or_empty (oc_secret_hash client)
             then Inl Invalid_client else Inr client)
          else if truthy_str secret then Inl Invalid_client
          else Inr client)"

definition code_matches :: "string \<Rightarrow> oauth_code \<Rightarrow> bool" where
  "code_matches code_id c \<longleftrightarrow> od_id c = code_id \<and> od_consumed_at c = None"

definition claim_code :: "string \<Rightarrow> time \<Rightarrow> db \<Rightarrow> bool \<times> db" where
  "claim_code code_id now db =
     (rowcount (code_matches code_id) (oauth_codes db) = 1,
      db\<lparr>oauth_codes := update_where (code_matches code_id) (\<lambda>c. c\<lparr>od_consumed_at := Some now\<rparr>)
        (oauth_codes db)\<rparr>)"

text \<open>The branch \<open>authorization_code\<close> of \<open>token\<close>, without the rollback.\<close>

definition exchange_code ::
  "crypto \<Rightarrow> oauth_error + string \<Rightarrow> time \<Rightarrow> mint \<Rightarrow> oauth_client \<Rightarrow> string \<Rightarrow> string \<Rightarrow> string \<Rightarrow> db
   \<Rightarrow> (oauth_error, token_body, db) outcome" where
  "exchange_code cr configured now m client code redirect_uri verifier db =
     (case get_by od_code_hash (digest cr code) (oauth_codes db) of
        None \<Rightarrow> (Inl Invalid_grant, db)
      | Some row \<Rightarrow>
          if od_client_id row \<noteq> oc_client_id client then (Inl Invalid_grant, db)
          else if od_consumed_at row \<noteq> None \<or> od_expires_at row \<le> now then (Inl Invalid_grant, db)
          else if redirect_uri \<noteq> od_redirect_uri row \<or> \<not> verify_pkce cr verifier (od_code_challenge row)
          then (Inl Invalid_grant, db)
          else
           (let (matched, db1) = claim_code (od_id row) now db in
            if \<not> matched then (Inl Invalid_grant, db1)
            else (case (get_by og_id (od_grant_id row) (oauth_grants db1),
                        get_by u_id (od_user_id row) (users db1)) of
                (Some grant, Some user) \<Rightarrow>
                  if og_revoked_at grant \<noteq> None \<or> \<not> u_is_active user then (Inl Invalid_grant, db1)
                  else token_response cr configured now m (od_user_id row) (oc_client_id client) grant
                         (od_scopes row) (od_nonce row) db1
              | _ \<Rightarrow> (Inl Invalid_grant, db1))))"

datatype token_form =
    Code_form string string string
  | Refresh_form string string bool
  | Other_form

text \<open>\<open>allowed_scopes\<close> gives the list the client's column holds.\<close>

definition token_endpoint ::
  "crypto \<Rightarrow> oauth_error + string \<Rightarrow> (oauth_client \<Rightarrow> string list) \<Rightarrow> time \<Rightarrow> mint \<Rightarrow> string
   \<Rightarrow> string option \<Rightarrow> token_form \<Rightarrow> db \<Rightarrow> (oauth_error, token_body, db) outcome" where
  "token_endpoint cr configured allowed_scopes now m client_id secret form db =
     (case authenticate_client cr client_id secret db of
        Inl e \<Rightarrow> (Inl e, db)
      | Inr client \<Rightarrow>
         (case server_state configured now True db of
            (Inl e, _) \<Rightarrow> (Inl e, db)
          | (Inr _, db1) \<Rightarrow>
             (case form of
                Code_form code redirect_uri verifier \<Rightarrow>
                  (case exchange_code cr configured now m client code redirect_uri verifier db1 of
                     (Inl e, _) \<Rightarrow> (Inl e, db)
                   | (Inr body, db2) \<Rightarrow> (Inr body, db2))
              | Refresh_form raw scope has_client_id \<Rightarrow>
                  if oc_client_type client = ''public'' \<and> \<not> has_client_id then (Inl Invalid_client, db)
                  else
                   (case rotate_refresh cr configured now m raw (oc_client_id client)
                       (case split_ws scope of [] \<Rightarrow> None | ws \<Rightarrow> Some ws) db1 of
                      (Inl e, db2) \<Rightarrow> (Inl e, db2)
                    | (Inr body, db2) \<Rightarrow>
                        if tb_scope body \<noteq> [] \<and> \<not> scope_set (tb_scope body) \<subseteq> set (allowed_scopes client)
                        then (Inl Invalid_grant, db) else (Inr body, db2))
              | Other_form \<Rightarrow> (Inl Unsupported_grant_type, db))))"

definition revoke_endpoint ::
  "crypto \<Rightarrow> config \<Rightarrow> time \<Rightarrow> string \<Rightarrow> string option \<Rightarrow> string \<Rightarrow> db \<Rightarrow> (oauth_error, unit, db) outcome" where
  "revoke_endpoint cr cfg now client_id secret raw db =
     (case authenticate_client cr client_id secret db of
        Inl e \<Rightarrow> (Inl Invalid_client, db)
      | Inr client \<Rightarrow>
         (case get_by ot_token_hash (digest cr raw) (oauth_tokens db) of
            None \<Rightarrow> (Inr (), db)
          | Some row \<Rightarrow>
             (case get_by tf_id (ot_family_id row) (token_families db) of
                None \<Rightarrow> (Inr (), db)
              | Some family \<Rightarrow>
                  if tf_client_id family \<noteq> oc_client_id client then (Inr (), db)
                  else
                   (let db1 = (if ot_token_type row = TOKEN_REFRESH
                          then revoke_family now (tf_id family) db
                          else db\<lparr>oauth_tokens := update_where (\<lambda>t. ot_id t = ot_id row)
                             (\<lambda>t. t\<lparr>ot_revoked_at := Some now\<rparr>) (oauth_tokens db)\<rparr>)
                    in (Inr (), write_audit_event cfg now ''oauth_token_revoked'' ''success'' None
                         (Some (tf_user_id family)) None (Some (oc_client_id client)) None
                         (Some (''client_id='' @ oc_client_id client @ ''; token_type='' @ ot_token_type row))
                         True db1)))))"

section \<open>The claims are one-shot\<close>

abbreviation tokens_inv :: "db \<Rightarrow> bool" where
  "tokens_inv db \<equiv> unique_key ot_id (oauth_tokens db)"

abbreviation codes_inv :: "db \<Rightarrow> bool" where
  "codes_inv db \<equiv> unique_key od_id (oauth_codes db)"

definition refresh_live :: "string \<Rightarrow> time \<Rightarrow> db \<Rightarrow> bool" where
  "refresh_live i now db \<longleftrightarrow> exists_where (claim_matches i) (oauth_tokens db)"

definition code_live :: "string \<Rightarrow> time \<Rightarrow> db \<Rightarrow> bool" where
  "code_live i now db \<longleftrightarrow> exists_where (code_matches i) (oauth_codes db)"

lemma claim_refresh_ok: "tokens_inv db \<Longrightarrow> fst (claim_refresh i now db) = refresh_live i now db"
  using rowcount_key_exists [of ot_id "oauth_tokens db" i "\<lambda>t. ot_consumed_at t = None \<and> ot_revoked_at t = None"]
  by (simp add: claim_refresh_def refresh_live_def claim_matches_def [abs_def])

lemma claim_code_ok: "codes_inv db \<Longrightarrow> fst (claim_code i now db) = code_live i now db"
  using rowcount_key_exists [of od_id "oauth_codes db" i "\<lambda>c. od_consumed_at c = None"]
  by (simp add: claim_code_def code_live_def code_matches_def [abs_def])

lemma claimed_refresh_dead: "\<not> refresh_live i now' (snd (claim_refresh i now db))"
  by (simp add: refresh_live_def claim_refresh_def)
    (rule exists_where_update_dead, simp_all add: claim_matches_def)

lemma claimed_refresh_other: "refresh_live j now' (snd (claim_refresh i now db)) \<Longrightarrow> refresh_live j now' db"
  by (simp add: refresh_live_def claim_refresh_def)
    (erule exists_where_update_other [rotated], simp add: claim_matches_def)

lemma claimed_code_dead: "\<not> code_live i now' (snd (claim_code i now db))"
  by (simp add: code_live_def claim_code_def)
    (rule exists_where_update_dead, simp_all add: code_matches_def)

lemma claimed_code_other: "code_live j now' (snd (claim_code i now db)) \<Longrightarrow> code_live j now' db"
  by (simp add: code_live_def claim_code_def)
    (erule exists_where_update_other [rotated], simp add: code_matches_def)

interpretation refresh_claim: one_shot claim_refresh refresh_live "\<lambda>i. i" tokens_inv
proof (unfold_locales, goal_cases)
  case (1 db k t)
  then show ?case by (rule claim_refresh_ok)
next
  case (2 db k t)
  then show ?case by (simp add: claim_refresh_def unique_key_update_where)
next
  case (3 db k t k' t')
  then show ?case using claimed_refresh_dead by metis
next
  case (4 db k' t' k t)
  then show ?case by (blast dest: claimed_refresh_other)
qed

interpretation code_claim: one_shot claim_code code_live "\<lambda>i. i" codes_inv
proof (unfold_locales, goal_cases)
  case (1 db k t)
  then show ?case by (rule claim_code_ok)
next
  case (2 db k t)
  then show ?case by (simp add: claim_code_def unique_key_update_where)
next
  case (3 db k t k' t')
  then show ?case using claimed_code_dead by metis
next
  case (4 db k' t' k t)
  then show ?case by (blast dest: claimed_code_other)
qed

section \<open>How the tables evolve\<close>

text \<open>
  Every operation changes token, family and code rows only by consuming or revoking them,
  and adds new rows at the end.
\<close>

definition token_step :: "oauth_token \<Rightarrow> oauth_token \<Rightarrow> bool" where
  "token_step t u \<longleftrightarrow> ot_token_hash u = ot_token_hash t \<and> ot_token_type u = ot_token_type t
     \<and> ot_family_id u = ot_family_id t \<and> ot_scopes u = ot_scopes t
     \<and> (ot_consumed_at t \<noteq> None \<longrightarrow> ot_consumed_at u \<noteq> None)"

definition family_step :: "token_family \<Rightarrow> token_family \<Rightarrow> bool" where
  "family_step f g \<longleftrightarrow> tf_id g = tf_id f \<and> tf_grant_id g = tf_grant_id f \<and> tf_client_id g = tf_client_id f
     \<and> (tf_revoked_at f \<noteq> None \<longrightarrow> tf_revoked_at g \<noteq> None)"

definition code_step :: "oauth_code \<Rightarrow> oauth_code \<Rightarrow> bool" where
  "code_step c d \<longleftrightarrow> od_code_hash d = od_code_hash c \<and> (od_consumed_at c \<noteq> None \<longrightarrow> od_consumed_at d \<noteq> None)"

definition grows :: "('r \<Rightarrow> 'r \<Rightarrow> bool) \<Rightarrow> ('r \<Rightarrow> bool) \<Rightarrow> 'r list \<Rightarrow> 'r list \<Rightarrow> bool" where
  "grows step_ok new rs rs' \<longleftrightarrow>
     (\<exists>old added. rs' = old @ added \<and> list_all2 step_ok rs old \<and> list_all new added)"

text \<open>\<open>new\<close> tells what the rows that one call adds look like.\<close>

lemma grows_refl: "(\<And>r. step_ok r r) \<Longrightarrow> grows step_ok new rs rs"
  unfolding grows_def by (intro exI [of _ rs] exI [of _ "[]"]) (simp add: list_all2_same)

lemma grows_add: "(\<And>r. step_ok r r) \<Longrightarrow> new r \<Longrightarrow> grows step_ok new rs (add_row r rs)"
  unfolding grows_def by (intro exI [of _ rs] exI [of _ "[r]"]) (simp add: list_all2_same add_row_def)

lemma grows_update:
  "(\<And>r. step_ok r r) \<Longrightarrow> (\<And>r. step_ok r (f r)) \<Longrightarrow> grows step_ok new rs (update_where P f rs)"
  unfolding grows_def
  by (intro exI [of _ "update_where P f rs"] exI [of _ "[]"])
    (auto simp: update_where_def list_all2_conv_all_nth)

lemma grows_trans:
  assumes "grows step_ok new a b" "grows step_ok new b c"
    and trans: "\<And>x y z. step_ok x y \<Longrightarrow> step_ok y z \<Longrightarrow> step_ok x z"
    and "\<And>x y. new x \<Longrightarrow> step_ok x y \<Longrightarrow> new y"
  shows "grows step_ok new a c"
proof -
  obtain old added where b: "b = old @ added" "list_all2 step_ok a old" "list_all new added"
    using assms(1) by (auto simp: grows_def)
  obtain old' added' where c: "c = old' @ added'" "list_all2 step_ok b old'" "list_all new added'"
    using assms(2) by (auto simp: grows_def)
  obtain us vs where split: "old' = us @ vs" "list_all2 step_ok old us" "list_all2 step_ok added vs"
    using c(2) b(1) by (auto simp: list_all2_append1)
  have "list_all2 step_ok a us" by (rule list_all2_trans [OF trans b(2) split(2)])
  moreover have "list_all new vs"
    using split(3) b(3) assms(4) by (induction added vs rule: list_all2_induct) auto
  ultimately show ?thesis using c split(1) unfolding grows_def by (intro exI [of _ us] exI [of _ "vs @ added'"]) simp
qed

lemma grows_first_where:
  assumes "grows step_ok new rs rs'" "first_where P rs = Some r"
    and "\<And>x y. step_ok x y \<Longrightarrow> P y = P x"
  shows "\<exists>r'. first_where P rs' = Some r' \<and> step_ok r r'"
proof -
  obtain old added where eq: "rs' = old @ added" and l2: "list_all2 step_ok rs old"
    using assms(1) by (auto simp: grows_def)
  from l2 assms(2) have "\<exists>r'. first_where P old = Some r' \<and> step_ok r r'"
  proof (induction rs old rule: list_all2_induct)
    case Nil
    then show ?case by (simp add: first_where_def)
  next
    case (Cons x xs y ys)
    then show ?case using assms(3) [OF Cons(1)] by (auto simp: first_where_def)
  qed
  then obtain r' where r': "first_where P old = Some r'" "step_ok r r'" by blast
  have "List.find P (old @ added) = Some r'" using r'(1)
    unfolding first_where_def by (induction old) auto
  then show ?thesis using r'(2) eq by (auto simp: first_where_def)
qed

lemma grows_set:
  "grows step_ok new rs rs' \<Longrightarrow> r' \<in> set rs' \<Longrightarrow> (\<exists>r \<in> set rs. step_ok r r') \<or> new r'"
proof -
  assume g: "grows step_ok new rs rs'" and r': "r' \<in> set rs'"
  obtain old added where eq: "rs' = old @ added" "list_all2 step_ok rs old" "list_all new added"
    using g by (auto simp: grows_def)
  have "\<exists>r \<in> set rs. step_ok r r'" if "r' \<in> set old"
    using eq(2) that by (induction rs old rule: list_all2_induct) auto
  then show ?thesis using eq(1,3) r' by (auto simp: list_all_iff)
qed

lemma steps_refl [simp]: "token_step t t" "family_step f f" "code_step c c"
  by (simp_all add: token_step_def family_step_def code_step_def)

lemma steps_trans:
  "token_step a b \<Longrightarrow> token_step b c \<Longrightarrow> token_step a c"
  "family_step f g \<Longrightarrow> family_step g h \<Longrightarrow> family_step f h"
  "code_step x y \<Longrightarrow> code_step y z \<Longrightarrow> code_step x z"
  by (auto simp: token_step_def family_step_def code_step_def)

definition evolves :: "string \<Rightarrow> string set \<Rightarrow> db \<Rightarrow> db \<Rightarrow> bool" where
  "evolves fid S db db' \<longleftrightarrow>
     grows token_step (\<lambda>t. ot_family_id t = fid \<longrightarrow> scope_set (ot_scopes t) \<subseteq> S) (oauth_tokens db) (oauth_tokens db')
     \<and> grows family_step (\<lambda>f. tf_id f \<noteq> fid) (token_families db) (token_families db')
     \<and> grows code_step (\<lambda>_. False) (oauth_codes db) (oauth_codes db')
     \<and> oauth_grants db' = oauth_grants db \<and> oauth_clients db' = oauth_clients db
     \<and> users db' = users db \<and> oidc_servers db' = oidc_servers db"

lemma evolves_refl [simp]: "evolves fid S db db"
  by (simp add: evolves_def grows_refl)

lemma evolves_trans:
  assumes "evolves fid S db db1" "evolves fid S db1 db2"
  shows "evolves fid S db db2"
proof -
  have "grows token_step (\<lambda>t. ot_family_id t = fid \<longrightarrow> scope_set (ot_scopes t) \<subseteq> S)
      (oauth_tokens db) (oauth_tokens db2)"
    by (rule grows_trans [of _ _ _ "oauth_tokens db1"])
      (use assms steps_trans in \<open>auto simp: evolves_def token_step_def\<close>)
  moreover have "grows family_step (\<lambda>f. tf_id f \<noteq> fid) (token_families db) (token_families db2)"
    by (rule grows_trans [of _ _ _ "token_families db1"])
      (use assms steps_trans in \<open>auto simp: evolves_def family_step_def\<close>)
  moreover have "grows code_step (\<lambda>_. False) (oauth_codes db) (oauth_codes db2)"
    by (rule grows_trans [of _ _ _ "oauth_codes db1"]) (use assms steps_trans in \<open>auto simp: evolves_def\<close>)
  ultimately show ?thesis using assms by (simp add: evolves_def)
qed

text \<open>The operations that write none of these tables.\<close>

definition same_oauth :: "db \<Rightarrow> db \<Rightarrow> bool" where
  "same_oauth db db' \<longleftrightarrow> oauth_tokens db' = oauth_tokens db \<and> token_families db' = token_families db
     \<and> oauth_codes db' = oauth_codes db \<and> oauth_grants db' = oauth_grants db
     \<and> oauth_clients db' = oauth_clients db \<and> users db' = users db \<and> oidc_servers db' = oidc_servers db"

lemma same_oauth_refl [simp]: "same_oauth db db"
  by (simp add: same_oauth_def)

lemma same_oauth_evolves: "same_oauth db db' \<Longrightarrow> evolves fid S db db'"
  by (simp add: same_oauth_def evolves_def grows_refl)

lemma server_state_required [simp]: "snd (server_state configured now True db) = db"
  by (simp add: server_state_def Let_def split: sum.split option.split)

lemma create_signing_key_same: "same_oauth db (snd (create_signing_key cr now m rotating db))"
  by (simp add: create_signing_key_def same_oauth_def Let_def)

lemma make_id_token_same:
  "same_oauth db (snd (make_id_token cr configured now m uid client_id scopes nonce db))"
proof -
  obtain key db1 where k: "current_key cr now m db = (key, db1)" by force
  obtain subject db2 where sub: "stable_subject now m uid db1 = (subject, db2)" by force
  have "same_oauth db db1"
    using k create_signing_key_same [of db cr now m False] by (auto simp: current_key_def split: option.splits)
  moreover have "same_oauth db1 db2"
    using sub by (auto simp: stable_subject_def same_oauth_def split: option.splits)
  ultimately have same: "same_oauth db db2" by (simp add: same_oauth_def)
  obtain r db3 where st: "server_state configured now True db2 = (r, db3)" by force
  then have "db3 = db2" using server_state_required [of configured now db2] by simp
  then show ?thesis using same st
    by (cases r) (auto simp: make_id_token_def k sub Let_def split: option.splits sum.splits)
qed

lemma save_token_evolves:
  "(fam = fid \<Longrightarrow> scope_set scopes \<subseteq> S) \<Longrightarrow>
     evolves fid S db (save_token cr now i tok fam kind scopes ttl db)"
  by (simp add: evolves_def save_token_def grows_refl grows_add)

lemma mint_tokens_evolves:
  assumes "fam = fid \<Longrightarrow> scope_set scopes \<subseteq> S"
  shows "evolves fid S db (snd (mint_tokens cr configured now m fam uid client_id scopes nonce db))"
proof -
  define db1 where "db1 = save_token cr now (mi_access_id m) (mi_access m) fam TOKEN_ACCESS scopes ACCESS_TTL db"
  define db2 where "db2 = save_token cr now (mi_refresh_id m) (mi_refresh m) fam TOKEN_REFRESH scopes REFRESH_TTL db1"
  have e: "evolves fid S db db2"
    unfolding db2_def db1_def using assms by (intro evolves_trans [OF save_token_evolves save_token_evolves])
  obtain r db3 where t: "make_id_token cr configured now m uid client_id scopes nonce db2 = (r, db3)" by force
  have "evolves fid S db2 db3"
    using make_id_token_same [of db2 cr configured now m uid client_id scopes nonce] t
    by (simp add: same_oauth_evolves)
  then have "evolves fid S db db3" using e evolves_trans by blast
  then show ?thesis using e t
    by (cases r) (simp_all add: mint_tokens_def Let_def flip: db1_def db2_def)
qed

lemma token_response_evolves:
  assumes "mi_family_id m \<noteq> fid"
  shows "evolves fid S db (snd (token_response cr configured now m uid client_id grant scopes nonce db))"
proof -
  have "evolves fid S db (db\<lparr>token_families := add_row \<lparr>tf_id = mi_family_id m, tf_grant_id = og_id grant,
          tf_client_id = client_id, tf_user_id = uid, tf_revoked_at = None, tf_created_at = now,
          tf_expires_at = now + REFRESH_FAMILY_TTL\<rparr> (token_families db)\<rparr>)" (is "evolves _ _ _ ?db1")
    using assms by (simp add: evolves_def grows_refl grows_add)
  moreover have "evolves fid S ?db1 (snd (mint_tokens cr configured now m (mi_family_id m) uid client_id
      scopes nonce ?db1))"
    using assms by (intro mint_tokens_evolves) simp
  ultimately show ?thesis unfolding token_response_def by (rule evolves_trans)
qed

lemma claims_evolve [simp]:
  "evolves fid S db (snd (claim_refresh i now db))" "evolves fid S db (snd (claim_code i now db))"
  by (simp_all add: evolves_def claim_refresh_def claim_code_def grows_refl grows_update token_step_def
      code_step_def)

lemma revoke_family_evolves [simp]: "evolves fid S db (revoke_family now i db)"
  by (simp add: evolves_def revoke_family_def grows_refl grows_update token_step_def family_step_def)

definition scopes_within :: "string \<Rightarrow> string set \<Rightarrow> db \<Rightarrow> bool" where
  "scopes_within fid S db \<longleftrightarrow>
     (\<forall>t \<in> set (oauth_tokens db). ot_family_id t = fid \<longrightarrow> scope_set (ot_scopes t) \<subseteq> S)"

lemma scopes_within_evolves:
  assumes "evolves fid S db db'" "scopes_within fid S db"
  shows "scopes_within fid S db'"
  unfolding scopes_within_def
proof (intro ballI impI)
  fix u
  assume u: "u \<in> set (oauth_tokens db')" "ot_family_id u = fid"
  have "grows token_step (\<lambda>t. ot_family_id t = fid \<longrightarrow> scope_set (ot_scopes t) \<subseteq> S) (oauth_tokens db) (oauth_tokens db')"
    using assms(1) by (simp only: evolves_def)
  from grows_set [OF this u(1)] show "scope_set (ot_scopes u) \<subseteq> S"
  proof (elim disjE bexE)
    fix t
    assume t: "t \<in> set (oauth_tokens db)" "token_step t u"
    then have "ot_family_id t = fid" "ot_scopes u = ot_scopes t" using u(2) by (simp_all add: token_step_def)
    then show ?thesis using assms(2) t(1) unfolding scopes_within_def by simp
  qed (use u(2) in simp)
qed

text \<open>Joining a sorted selection of scopes and splitting it again gives the selection.\<close>

lemma scope_set_join:
  assumes "\<forall>w \<in> set ws. is_word w"
  shows "scope_set (join_with '' '' (sort ws)) = set ws"
  using split_ws_join [of "sort ws"] assms by (simp add: scope_set_def)

lemma rotate_check_evolves: "evolves fid S db (snd (rotate_check cr now raw client_id requested db))"
  unfolding rotate_check_def by (auto simp: Let_def split: option.splits)

lemma rotate_check_Inr:
  assumes "rotate_check cr now raw client_id requested db = (Inr (row, family, selected), db')"
  shows "db' = db \<and> row \<in> set (oauth_tokens db) \<and> ot_token_hash row = digest cr raw
    \<and> first_where (\<lambda>t. ot_token_hash t = digest cr raw \<and> ot_token_type t = TOKEN_REFRESH) (oauth_tokens db) = Some row
    \<and> ot_consumed_at row = None \<and> ot_revoked_at row = None
    \<and> get_by tf_id (ot_family_id row) (token_families db) = Some family \<and> tf_revoked_at family = None
    \<and> tf_client_id family = client_id
    \<and> get_by og_id (tf_grant_id family) (oauth_grants db) \<noteq> None
    \<and> get_by oc_client_id client_id (oauth_clients db) \<noteq> None
    \<and> set selected \<subseteq> scope_set (ot_scopes row)"
  using assms unfolding rotate_check_def
  by (auto simp: Let_def split: option.splits if_splits dest: first_where_SomeD)

lemma rotate_refresh_evolves:
  assumes "scopes_within fid S db"
  shows "evolves fid S db (snd (rotate_refresh cr configured now m raw client_id requested db))"
proof -
  obtain r db1 where c: "rotate_check cr now raw client_id requested db = (r, db1)" by force
  show ?thesis
  proof (cases r)
    case (Inl e)
    then show ?thesis using rotate_check_evolves [of fid S db cr now raw client_id requested] c
      by (simp add: rotate_refresh_def)
  next
    case (Inr x)
    obtain row family selected where x: "x = (row, family, selected)" by (cases x)
    note ok = rotate_check_Inr [OF c [unfolded Inr x]]
    have "tf_id family = ot_family_id row" using ok get_by_SomeD by fastforce
    moreover have "scope_set (join_with '' '' (sort selected)) = set selected"
      using ok by (intro scope_set_join) (auto simp: scope_set_def dest!: subsetD is_word_split_ws)
    ultimately have within: "tf_id family = fid \<Longrightarrow> scope_set (join_with '' '' (sort selected)) \<subseteq> S"
      using ok assms by (auto simp: scopes_within_def)
    obtain claimed db2 where cl: "claim_refresh (ot_id row) now db = (claimed, db2)" by force
    have e2: "evolves fid S db db2" using claims_evolve(1) [of fid S db "ot_id row" now] cl by simp
    obtain r3 db3 where mt: "mint_tokens cr configured now m (tf_id family) (tf_user_id family) client_id
        (join_with '' '' (sort selected)) None db2 = (r3, db3)" by force
    have "evolves fid S db2 (snd (mint_tokens cr configured now m (tf_id family) (tf_user_id family) client_id
        (join_with '' '' (sort selected)) None db2))"
      using within by (rule mint_tokens_evolves)
    then have e3: "evolves fid S db2 db3" by (simp add: mt)
    have "evolves fid S db (revoke_family now (tf_id family) db2)" "evolves fid S db db3"
      using e2 e3 evolves_trans revoke_family_evolves by blast+
    then show ?thesis using ok c
      by (cases r3) (simp_all add: rotate_refresh_def Inr x rotate_claimed_def cl mt)
  qed
qed

lemma exchange_code_evolves:
  assumes "mi_family_id m \<noteq> fid"
  shows "evolves fid S db (snd (exchange_code cr configured now m client code redirect_uri verifier db))"
proof -
  have "evolves fid S db (snd (token_response cr configured now m uid cid grant scopes nonce
      (snd (claim_code i now db))))" for uid cid grant scopes nonce i
    using evolves_trans [OF claims_evolve(2) token_response_evolves [OF assms]] .
  then show ?thesis unfolding exchange_code_def
    by (auto simp: Let_def case_prod_beta split: option.splits)
qed

text \<open>Every call of the two endpoints.\<close>

datatype oauth_call =
    Token_call crypto "oauth_error + string" "oauth_client \<Rightarrow> string list" time mint string "string option"
      token_form
  | Revoke_call crypto config time string "string option" string

fun run_oauth :: "oauth_call \<Rightarrow> db \<Rightarrow> db" where
  "run_oauth (Token_call cr configured allowed now m client_id secret form) db =
     snd (token_endpoint cr configured allowed now m client_id secret form db)"
| "run_oauth (Revoke_call cr cfg now client_id secret raw) db =
     snd (revoke_endpoint cr cfg now client_id secret raw db)"

fun call_family :: "oauth_call \<Rightarrow> string list" where
  "call_family (Token_call _ _ _ _ m _ _ _) = [mi_family_id m]"
| "call_family (Revoke_call _ _ _ _ _ _) = []"

lemma token_endpoint_evolves:
  assumes "mi_family_id m \<noteq> fid" "scopes_within fid S db"
  shows "evolves fid S db (snd (token_endpoint cr configured allowed now m client_id secret form db))"
proof (cases "authenticate_client cr client_id secret db")
  case (Inl e)
  then show ?thesis by (simp add: token_endpoint_def)
next
  case (Inr client)
  obtain r db1 where st: "server_state configured now True db = (r, db1)" by force
  then have db1: "db1 = db" using server_state_required [of configured now db] by simp
  show ?thesis
    using Inr st db1 exchange_code_evolves [OF assms(1), of S db] rotate_refresh_evolves [OF assms(2)]
    unfolding token_endpoint_def
    by (auto split: sum.splits token_form.splits prod.splits list.splits; metis snd_conv)
qed

lemma run_oauth_evolves:
  assumes "fid \<notin> set (call_family c)" "scopes_within fid S db"
  shows "evolves fid S db (run_oauth c db)"
proof (cases c)
  case (Token_call cr configured allowed now m client_id secret form)
  then show ?thesis using assms by (auto intro: token_endpoint_evolves)
next
  case (Revoke_call cr cfg now client_id secret raw)
  have "evolves fid S db (db\<lparr>oauth_tokens := update_where P (\<lambda>t. t\<lparr>ot_revoked_at := Some now\<rparr>) (oauth_tokens db)\<rparr>)" for P
    by (simp add: evolves_def grows_refl grows_update token_step_def)
  moreover have "evolves fid S db (write_audit_event cfg now et oc ip ai an ti ua dt ses d)"
    if "evolves fid S db d" for et oc ip ai an ti ua dt ses d
    using that by (simp add: evolves_def)
  ultimately show ?thesis using Revoke_call
    by (simp add: revoke_endpoint_def Let_def split: sum.split option.split)
qed

lemma run_oauths_evolve:
  assumes "fid \<notin> set (concat (map call_family cs))" "scopes_within fid S db"
  shows "evolves fid S db (fold run_oauth cs db)"
  using assms
proof (induction cs arbitrary: db)
  case Nil
  then show ?case by simp
next
  case (Cons c cs)
  have e: "evolves fid S db (run_oauth c db)" using Cons.prems by (intro run_oauth_evolves) auto
  then have "evolves fid S (run_oauth c db) (fold run_oauth cs (run_oauth c db))"
    using Cons.prems scopes_within_evolves by (intro Cons.IH) auto
  then show ?case using e evolves_trans by simp
qed

section \<open>Spent tokens, spent codes and dead families\<close>

lemma get_by_first_where: "get_by key k rs = first_where (\<lambda>r. key r = k) rs"
  by (simp add: get_by_def first_where_def)

definition spent_refresh :: "string \<Rightarrow> string \<Rightarrow> db \<Rightarrow> bool" where
  "spent_refresh h fid db \<longleftrightarrow> (\<exists>t. first_where (\<lambda>t. ot_token_hash t = h \<and> ot_token_type t = TOKEN_REFRESH)
     (oauth_tokens db) = Some t \<and> ot_consumed_at t \<noteq> None \<and> ot_family_id t = fid)"

definition spent_code :: "string \<Rightarrow> db \<Rightarrow> bool" where
  "spent_code h db \<longleftrightarrow> (\<exists>c. get_by od_code_hash h (oauth_codes db) = Some c \<and> od_consumed_at c \<noteq> None)"

definition dead_family :: "string \<Rightarrow> db \<Rightarrow> bool" where
  "dead_family fid db \<longleftrightarrow> (\<exists>f. get_by tf_id fid (token_families db) = Some f \<and> tf_revoked_at f \<noteq> None)"

lemma spent_refresh_evolves: "evolves i S db db' \<Longrightarrow> spent_refresh h fid db \<Longrightarrow> spent_refresh h fid db'"
proof -
  assume e: "evolves i S db db'" and sp: "spent_refresh h fid db"
  from sp obtain t where t: "first_where (\<lambda>t. ot_token_hash t = h \<and> ot_token_type t = TOKEN_REFRESH)
     (oauth_tokens db) = Some t" "ot_consumed_at t \<noteq> None" "ot_family_id t = fid"
    by (auto simp: spent_refresh_def)
  have "grows token_step (\<lambda>t. ot_family_id t = i \<longrightarrow> scope_set (ot_scopes t) \<subseteq> S) (oauth_tokens db) (oauth_tokens db')"
    using e by (simp only: evolves_def)
  from grows_first_where [OF this t(1)] obtain u where
    "first_where (\<lambda>t. ot_token_hash t = h \<and> ot_token_type t = TOKEN_REFRESH) (oauth_tokens db') = Some u"
    "token_step t u"
    by (auto simp: token_step_def)
  then show ?thesis using t(2,3) unfolding spent_refresh_def token_step_def by metis
qed

lemma spent_code_evolves: "evolves i S db db' \<Longrightarrow> spent_code h db \<Longrightarrow> spent_code h db'"
proof -
  assume e: "evolves i S db db'" and sp: "spent_code h db"
  from sp obtain c where c: "first_where (\<lambda>c. od_code_hash c = h) (oauth_codes db) = Some c" "od_consumed_at c \<noteq> None"
    by (auto simp: spent_code_def get_by_first_where)
  have "grows code_step (\<lambda>_. False) (oauth_codes db) (oauth_codes db')" using e by (simp only: evolves_def)
  from grows_first_where [OF this c(1)] obtain d where
    "first_where (\<lambda>c. od_code_hash c = h) (oauth_codes db') = Some d" "code_step c d"
    by (auto simp: code_step_def)
  then show ?thesis using c(2) unfolding spent_code_def get_by_first_where code_step_def by metis
qed

lemma dead_family_evolves: "evolves i S db db' \<Longrightarrow> dead_family fid db \<Longrightarrow> dead_family fid db'"
proof -
  assume e: "evolves i S db db'" and sp: "dead_family fid db"
  from sp obtain f where f: "first_where (\<lambda>f. tf_id f = fid) (token_families db) = Some f" "tf_revoked_at f \<noteq> None"
    by (auto simp: dead_family_def get_by_first_where)
  have "grows family_step (\<lambda>f. tf_id f \<noteq> i) (token_families db) (token_families db')"
    using e by (simp only: evolves_def)
  from grows_first_where [OF this f(1)] obtain g where
    "first_where (\<lambda>f. tf_id f = fid) (token_families db') = Some g" "family_step f g"
    by (auto simp: family_step_def)
  then show ?thesis using f(2) unfolding dead_family_def get_by_first_where family_step_def by metis
qed

lemma dead_no_bearer:
  "dead_family fid db \<Longrightarrow> consume_bearer cr now tok db = Some (row, family, grant) \<Longrightarrow> ot_family_id row \<noteq> fid"
  by (auto simp: dead_family_def consume_bearer_def split: option.splits if_splits prod.splits)

lemma dead_no_rotation:
  "dead_family fid db \<Longrightarrow> rotate_check cr now raw cid requested db = (Inr (row, family, selected), db')
   \<Longrightarrow> ot_family_id row \<noteq> fid"
  using rotate_check_Inr [of cr now raw cid requested db row family selected db']
  by (auto simp: dead_family_def)

lemma revoke_family_dead:
  "get_by tf_id fid (token_families db) = Some f \<Longrightarrow> dead_family fid (revoke_family now fid db)"
proof -
  assume f: "get_by tf_id fid (token_families db) = Some f"
  then have "tf_id f = fid" by (auto dest: get_by_SomeD)
  then show ?thesis using f by (simp add: dead_family_def revoke_family_def get_by_update_where)
qed

lemma server_state_time:
  "oidc_servers db' = oidc_servers db \<Longrightarrow>
     fst (server_state configured now' True db') = fst (server_state configured now True db)"
  by (simp add: server_state_def Let_def split: sum.split option.split)

text \<open>A refresh that succeeded spent its token.\<close>

lemma refresh_endpoint_Inr:
  assumes "token_endpoint cr configured allowed now m client_id secret (Refresh_form raw scope h) db = (Inr body, db1)"
  shows "\<exists>client row family selected.
    authenticate_client cr client_id secret db = Inr client \<and> \<not> (oc_client_type client = ''public'' \<and> \<not> h)
    \<and> \<not> isl (fst (server_state configured now True db))
    \<and> rotate_check cr now raw (oc_client_id client)
         (case split_ws scope of [] \<Rightarrow> None | ws \<Rightarrow> Some ws) db = (Inr (row, family, selected), db)
    \<and> rotate_claimed cr configured now m (oc_client_id client) row family selected db = (Inr body, db1)"
proof -
  obtain client where cl: "authenticate_client cr client_id secret db = Inr client"
    using assms by (auto simp: token_endpoint_def split: sum.splits)
  obtain srv db0 where st: "server_state configured now True db = (srv, db0)" by force
  then have db0: "db0 = db" using server_state_required [of configured now db] by simp
  obtain sv where srv: "srv = Inr sv" using assms cl st
    by (cases srv) (auto simp: token_endpoint_def)
  have rr: "rotate_refresh cr configured now m raw (oc_client_id client)
      (case split_ws scope of [] \<Rightarrow> None | ws \<Rightarrow> Some ws) db = (Inr body, db1)"
    and pub: "\<not> (oc_client_type client = ''public'' \<and> \<not> h)"
    using assms cl st db0 srv by (auto simp: token_endpoint_def split: if_splits sum.splits prod.splits)
  from rr obtain row family selected dbx where
    c: "rotate_check cr now raw (oc_client_id client) (case split_ws scope of [] \<Rightarrow> None | ws \<Rightarrow> Some ws) db
        = (Inr (row, family, selected), dbx)"
    and rc: "rotate_claimed cr configured now m (oc_client_id client) row family selected dbx = (Inr body, db1)"
    unfolding rotate_refresh_def by (auto simp: and_then_Inr)
  have "dbx = db" using rotate_check_Inr [OF c] by simp
  then show ?thesis using cl pub st srv c rc by auto
qed

lemma first_where_update:
  "(\<And>r. P (f r) = P r) \<Longrightarrow>
     first_where P (update_where Q f rs) = map_option (\<lambda>r. if Q r then f r else r) (first_where P rs)"
  by (induction rs) (auto simp: first_where_def update_where_def)

lemma rotate_claimed_spends:
  assumes "rotate_check cr now raw cid requested db = (Inr (row, family, selected), db)"
    and "rotate_claimed cr configured now m cid row family selected db = (Inr body, db1)"
  shows "spent_refresh (digest cr raw) (ot_family_id row) db1
    \<and> evolves fid UNIV db db1
    \<and> (\<exists>t \<in> set (oauth_tokens db1). ot_token_hash t = digest cr (tb_access body) \<and> ot_family_id t = ot_family_id row)"
proof -
  note ok = rotate_check_Inr [OF assms(1)]
  have fam: "tf_id family = ot_family_id row" using ok get_by_SomeD by fastforce
  obtain claimed db2 where cl: "claim_refresh (ot_id row) now db = (claimed, db2)" by force
  have toks: "oauth_tokens db2 = update_where (claim_matches (ot_id row)) (\<lambda>t. t\<lparr>ot_consumed_at := Some now\<rparr>)
      (oauth_tokens db)"
    using cl by (auto simp: claim_refresh_def)
  have "claim_matches (ot_id row) row" using ok by (simp add: claim_matches_def)
  then have sp: "spent_refresh (digest cr raw) (ot_family_id row) db2"
    using ok unfolding spent_refresh_def toks by (subst first_where_update) auto
  have e2: "evolves fid UNIV db db2" using claims_evolve(1) [of fid UNIV db "ot_id row" now] cl by simp
  have mt: "mint_tokens cr configured now m (tf_id family) (tf_user_id family) cid
      (join_with '' '' (sort selected)) None db2 = (Inr body, db1)"
    using assms(2) cl by (auto simp: rotate_claimed_def split: if_splits sum.splits prod.splits)
  have "evolves fid UNIV db2 (snd (mint_tokens cr configured now m (tf_id family) (tf_user_id family) cid
      (join_with '' '' (sort selected)) None db2))"
    by (rule mint_tokens_evolves) simp
  then have e: "evolves fid UNIV db2 db1" by (simp add: mt)
  have "\<exists>t \<in> set (oauth_tokens db1). ot_token_hash t = digest cr (tb_access body) \<and> ot_family_id t = tf_id family"
  proof -
    let ?db3 = "save_token cr now (mi_refresh_id m) (mi_refresh m) (tf_id family) TOKEN_REFRESH
      (join_with '' '' (sort selected)) REFRESH_TTL
      (save_token cr now (mi_access_id m) (mi_access m) (tf_id family) TOKEN_ACCESS
        (join_with '' '' (sort selected)) ACCESS_TTL db2)"
    have "\<exists>t \<in> set (oauth_tokens ?db3). ot_token_hash t = digest cr (mi_access m) \<and> ot_family_id t = tf_id family"
      by (simp add: save_token_def add_row_def)
    moreover have "oauth_tokens db1 = oauth_tokens ?db3 \<and> tb_access body = mi_access m"
      using mt make_id_token_same [of ?db3 cr configured now m "tf_user_id family" cid
          "join_with '' '' (sort selected)" None]
      by (auto simp: mint_tokens_def Let_def and_then_Inr same_oauth_def split: if_splits)
    ultimately show ?thesis by simp
  qed
  then show ?thesis using sp e e2 fam evolves_trans spent_refresh_evolves [OF e] by metis
qed

lemma rotate_check_frame:
  assumes "rotate_check cr now raw cid requested db = (Inr (row, family, selected), db)"
    and "evolves i UNIV db db2" "spent_refresh (digest cr raw) (ot_family_id row) db2"
  shows "\<exists>f. get_by tf_id (ot_family_id row) (token_families db2) = Some f
    \<and> rotate_check cr now2 raw cid requested2 db2 = (Inl Invalid_grant, revoke_family now2 (ot_family_id row) db2)"
proof -
  note ok = rotate_check_Inr [OF assms(1)]
  obtain u where u: "first_where (\<lambda>t. ot_token_hash t = digest cr raw \<and> ot_token_type t = TOKEN_REFRESH)
      (oauth_tokens db2) = Some u" "ot_consumed_at u \<noteq> None" "ot_family_id u = ot_family_id row"
    using assms(3) by (auto simp: spent_refresh_def)
  have "first_where (\<lambda>f. tf_id f = ot_family_id row) (token_families db) = Some family"
    using ok by (simp add: get_by_first_where)
  moreover have "grows family_step (\<lambda>f. tf_id f \<noteq> i) (token_families db) (token_families db2)"
    using assms(2) by (simp only: evolves_def)
  ultimately obtain f where f: "first_where (\<lambda>f. tf_id f = ot_family_id row) (token_families db2) = Some f"
    "family_step family f"
    using grows_first_where [of family_step _ "token_families db" "token_families db2"
        "\<lambda>f. tf_id f = ot_family_id row" family]
    by (auto simp: family_step_def)
  have f2: "get_by tf_id (ot_family_id row) (token_families db2) = Some f" "tf_id f = ot_family_id row"
    using f(1) by (auto simp: get_by_first_where dest: first_where_SomeD)
  have tabs: "oauth_grants db2 = oauth_grants db" "oauth_clients db2 = oauth_clients db"
    using assms(2) by (simp_all add: evolves_def)
  have "tf_grant_id f = tf_grant_id family" "tf_client_id f = cid"
    using f(2) ok by (simp_all add: family_step_def)
  then have "rotate_check cr now2 raw cid requested2 db2 = (Inl Invalid_grant, revoke_family now2 (ot_family_id row) db2)"
    using ok u f2 tabs by (auto simp: rotate_check_def)
  then show ?thesis using f2 by blast
qed

text \<open>The tokens of a family that neither authenticate nor rotate.\<close>

definition family_refused :: "string \<Rightarrow> db \<Rightarrow> bool" where
  "family_refused fid db \<longleftrightarrow>
     (\<forall>cr now tok. case consume_bearer cr now tok db of
        None \<Rightarrow> True | Some (row, _, _) \<Rightarrow> ot_family_id row \<noteq> fid)
     \<and> (\<forall>cr now raw cid requested. case rotate_check cr now raw cid requested db of
        (Inr (row, _, _), _) \<Rightarrow> ot_family_id row \<noteq> fid | (Inl _, _) \<Rightarrow> True)"

lemma dead_family_refused: "dead_family fid db \<Longrightarrow> family_refused fid db"
  unfolding family_refused_def
  by (auto dest: dead_no_bearer dead_no_rotation split: option.splits sum.splits prod.splits)

section \<open>A concrete run\<close>

definition demo_crypto :: crypto where
  "demo_crypto = \<lparr>digest = (\<lambda>s. CHR ''#'' # s), pkce_challenge = (\<lambda>s. s), encrypt = (\<lambda>s. s),
     decrypt = Some, encode_jwt = (\<lambda>kid _ _. kid)\<rparr>"

definition demo_mint :: "string \<Rightarrow> mint" where
  "demo_mint n = \<lparr>mi_family_id = ''f'' @ n, mi_access_id = ''ai'' @ n, mi_access = ''a'' @ n,
     mi_refresh_id = ''ri'' @ n, mi_refresh = ''r'' @ n, mi_subject_id = ''si'', mi_subject = ''s'',
     mi_kid = ''k'', mi_private_pem = ''priv'', mi_public_pem = ''pub''\<rparr>"

definition demo_verifier :: string where
  "demo_verifier = replicate 43 (CHR ''v'')"

definition demo_oauth :: db where
  "demo_oauth = empty_db\<lparr>
     users := [\<lparr>u_id = ''u'', u_username = ''u'', u_display_name = ''U'', u_email = None, u_locale = None,
       u_account_type = Account_Public, u_role = Role_Viewer, u_is_active = True,
       u_legacy_password_hash = None, u_legacy_password_enabled = False, u_require_uv = False,
       u_require_stepup = False, u_sso_disabled = False, u_federation_opt_out = False,
       u_comment_trusted = False, u_failed_login_count = 0, u_locked_until = None, u_bio = None,
       u_website = None, u_created_at = 0, u_updated_at = 0\<rparr>],
     oidc_servers := [\<lparr>os_id = 1, os_issuer = ''https://a.test'', os_enabled = True, os_updated_at = 0\<rparr>],
     oauth_clients := [\<lparr>oc_client_id = ''c'', oc_name = ''C'', oc_client_type = ''public'',
       oc_secret_hash = None, oc_redirect_uris = [], oc_allowed_scopes = [], oc_enabled = True,
       oc_created_at = 0, oc_updated_at = 0\<rparr>],
     oauth_grants := [\<lparr>og_id = ''g'', og_user_id = ''u'', og_client_id = ''c'', og_scopes = ''posts:read'',
       og_granted_at = 0, og_revoked_at = None\<rparr>],
     oauth_codes := [\<lparr>od_id = ''o'', od_code_hash = ''#code'', od_client_id = ''c'', od_grant_id = ''g'',
       od_user_id = ''u'', od_redirect_uri = ''https://c.test/cb'', od_scopes = ''posts:read'',
       od_code_challenge = demo_verifier, od_nonce = None, od_expires_at = 100, od_consumed_at = None\<rparr>]\<rparr>"

definition demo_call :: "string \<Rightarrow> time \<Rightarrow> token_form \<Rightarrow> db \<Rightarrow> (oauth_error, token_body, db) outcome" where
  "demo_call n now form db = token_endpoint demo_crypto (Inr ''https://a.test'') (\<lambda>_. [''posts:read''])
     now (demo_mint n) ''c'' None form db"

definition demo_exchange :: "(oauth_error, token_body, db) outcome" where
  "demo_exchange = demo_call ''1'' 1 (Code_form ''code'' ''https://c.test/cb'' demo_verifier) demo_oauth"

definition demo_refresh :: "(oauth_error, token_body, db) outcome" where
  "demo_refresh = demo_call ''2'' 2 (Refresh_form ''r1'' [] True) (snd demo_exchange)"

definition demo_body :: "string \<Rightarrow> token_body" where
  "demo_body n = \<lparr>tb_access = ''a'' @ n, tb_refresh = ''r'' @ n, tb_expires_in = 480,
     tb_scope = ''posts:read'', tb_id_token = None\<rparr>"

lemma demo_exchange_ok: "fst demo_exchange = Inr (demo_body ''1'')"
  by code_simp

lemma demo_refresh_ok: "fst demo_refresh = Inr (demo_body ''2'')"
  by code_simp

section \<open>Properties\<close>

text \<open>
  C8. Reuse of a refresh token ends its family. After a refresh that succeeded and any
  further calls of the token and revocation endpoints, presenting the same refresh token
  again as the same client fails with \<open>invalid_grant\<close>, and from then on, through whatever
  calls follow, no access token of the family, the one issued by that first refresh
  included, authenticates a request and no refresh token of it can be rotated.
\<close>

theorem reused_refresh_ends_family:
  assumes "token_endpoint cr configured allowed now m client_id secret (Refresh_form raw scope h) db = (Inr body, db1)"
    and "db2 = fold run_oauth cs db1"
    and "token_endpoint cr configured allowed now2 m2 client_id secret (Refresh_form raw scope2 h) db2 = (r, db3)"
    and "db4 = fold run_oauth cs2 db3"
    and "fid \<notin> set (concat (map call_family cs))" "fid \<notin> set (concat (map call_family cs2))"
    and "first_where (\<lambda>t. ot_token_hash t = digest cr raw \<and> ot_token_type t = TOKEN_REFRESH) (oauth_tokens db)
           = Some row0" "ot_family_id row0 = fid"
  shows "r = Inl Invalid_grant \<and> family_refused fid db4
    \<and> (\<exists>t \<in> set (oauth_tokens db1). ot_token_hash t = digest cr (tb_access body) \<and> ot_family_id t = fid)"
proof -
  from refresh_endpoint_Inr [OF assms(1)] obtain client row family selected where
    cl: "authenticate_client cr client_id secret db = Inr client" "\<not> (oc_client_type client = ''public'' \<and> \<not> h)"
    and st: "\<not> isl (fst (server_state configured now True db))"
    and c: "rotate_check cr now raw (oc_client_id client)
         (case split_ws scope of [] \<Rightarrow> None | ws \<Rightarrow> Some ws) db = (Inr (row, family, selected), db)"
    and rc: "rotate_claimed cr configured now m (oc_client_id client) row family selected db = (Inr body, db1)"
    by blast
  have row: "ot_family_id row = fid" using rotate_check_Inr [OF c] assms(7,8) by simp
  note spends = rotate_claimed_spends [OF c rc, of fid, unfolded row]
  have e2: "evolves fid UNIV db1 db2"
    unfolding assms(2) using assms(5) by (intro run_oauths_evolve) (simp_all add: scopes_within_def)
  have e: "evolves fid UNIV db db2" using spends e2 evolves_trans by blast
  have sp2: "spent_refresh (digest cr raw) fid db2" using spends e2 spent_refresh_evolves by blast
  have "authenticate_client cr client_id secret db2 = Inr client"
    using cl e by (simp add: authenticate_client_def evolves_def)
  moreover obtain srv where "server_state configured now2 True db2 = (Inr srv, db2)"
    using st server_state_time [of db2 db configured now2 now] e server_state_required [of configured now2 db2]
    by (metis evolves_def isl_def prod.collapse sum.exhaust sum.disc(1))
  moreover obtain f where f: "get_by tf_id fid (token_families db2) = Some f"
    "rotate_check cr now2 raw (oc_client_id client) (case split_ws scope2 of [] \<Rightarrow> None | ws \<Rightarrow> Some ws) db2
       = (Inl Invalid_grant, revoke_family now2 fid db2)"
    using rotate_check_frame [OF c e] sp2 row by blast
  ultimately have "r = Inl Invalid_grant" "db3 = revoke_family now2 fid db2"
    using assms(3) cl(2) by (auto simp: token_endpoint_def rotate_refresh_def)
  moreover have "evolves fid UNIV db3 db4"
    unfolding assms(4) using assms(6) by (intro run_oauths_evolve) (simp_all add: scopes_within_def)
  ultimately have "r = Inl Invalid_grant \<and> dead_family fid db4"
    using revoke_family_dead [OF f(1)] dead_family_evolves by blast
  then show ?thesis using spends dead_family_refused by blast
qed

theorem reused_refresh_ends_family_witness:
  "family_refused ''f1'' (snd (demo_call ''3'' 3 (Refresh_form ''r1'' [] True) (snd demo_refresh)))
   \<and> fst (demo_call ''3'' 3 (Refresh_form ''r1'' [] True) (snd demo_refresh)) = Inl Invalid_grant"
proof -
  let ?r = "demo_call ''3'' 3 (Refresh_form ''r1'' [] True) (snd demo_refresh)"
  obtain row0 where row: "first_where (\<lambda>t. ot_token_hash t = digest demo_crypto ''r1'' \<and> ot_token_type t = TOKEN_REFRESH)
      (oauth_tokens (snd demo_exchange)) = Some row0" "ot_family_id row0 = ''f1''"
  proof -
    have "map_option ot_family_id (first_where (\<lambda>t. ot_token_hash t = digest demo_crypto ''r1''
        \<and> ot_token_type t = TOKEN_REFRESH) (oauth_tokens (snd demo_exchange))) = Some ''f1''"
      by code_simp
    then show ?thesis using that by blast
  qed
  have first: "token_endpoint demo_crypto (Inr ''https://a.test'') (\<lambda>_. [''posts:read'']) 2 (demo_mint ''2'')
      ''c'' None (Refresh_form ''r1'' [] True) (snd demo_exchange) = (Inr (demo_body ''2''), snd demo_refresh)"
    using demo_refresh_ok by (simp add: demo_refresh_def demo_call_def prod_eq_iff)
  have again: "token_endpoint demo_crypto (Inr ''https://a.test'') (\<lambda>_. [''posts:read'']) 3 (demo_mint ''3'')
      ''c'' None (Refresh_form ''r1'' [] True) (snd demo_refresh) = (fst ?r, snd ?r)"
    by (simp add: demo_call_def)
  have none: "''f1'' \<notin> set (concat (map call_family []))" by simp
  have nil: "d = fold run_oauth [] d" for d by simp
  show ?thesis using reused_refresh_ends_family [OF first nil again nil none none row] by blast
qed

text \<open>
  C9. An authorization code is exchanged at most once: after an exchange that succeeded
  and any further calls, the same code is refused, whoever presents it with whatever
  verifier and redirect address.
\<close>

theorem code_exchanged_once:
  assumes "token_endpoint cr configured allowed now m client_id secret (Code_form code uri verifier) db = (Inr body, db1)"
    and "db2 = fold run_oauth cs db1"
  shows "raised (token_endpoint cr configured2 allowed2 now2 m2 client_id2 secret2 (Code_form code uri2 verifier2) db2)"
proof -
  have "\<exists>fid. fid \<notin> set (mi_family_id m # concat (map call_family cs))"
    by (rule ex_new_if_finite) (simp_all add: infinite_UNIV_listI)
  then obtain fid where fid: "fid \<noteq> mi_family_id m" "fid \<notin> set (concat (map call_family cs))" by auto
  from assms(1) obtain client where
    ex: "exchange_code cr configured now m client code uri verifier db = (Inr body, db1)"
    by (auto simp: token_endpoint_def split: sum.splits prod.splits)
      (metis server_state_required snd_conv)
  then obtain c where c: "get_by od_code_hash (digest cr code) (oauth_codes db) = Some c"
    "od_consumed_at c = None"
    by (auto simp: exchange_code_def split: option.splits if_splits)
  obtain claimed dbc where cl: "claim_code (od_id c) now db = (claimed, dbc)" by force
  have codes: "oauth_codes dbc = update_where (code_matches (od_id c)) (\<lambda>d. d\<lparr>od_consumed_at := Some now\<rparr>) (oauth_codes db)"
    using cl by (auto simp: claim_code_def)
  have "code_matches (od_id c) c" using c by (simp add: code_matches_def)
  then have sp: "spent_code (digest cr code) dbc"
    using c unfolding spent_code_def codes by (subst get_by_update_where) auto
  have "\<exists>uid cid grant scopes nonce. token_response cr configured now m uid cid grant scopes nonce dbc = (Inr body, db1)"
    using ex c cl by (auto simp: exchange_code_def split: option.splits if_splits) blast
  then have "evolves fid UNIV dbc db1"
    using token_response_evolves [of m fid] fid(1) by (metis snd_conv)
  moreover have "evolves fid UNIV db1 db2"
    unfolding assms(2) using fid(2) by (intro run_oauths_evolve) (simp_all add: scopes_within_def)
  ultimately have "spent_code (digest cr code) db2" using sp spent_code_evolves by blast
  then have "raised (exchange_code cr configured2 now2 m2 cl2 code uri2 verifier2 db2)" for cl2
    by (auto simp: exchange_code_def spent_code_def)
  then have no: "exchange_code cr configured2 now2 m2 cl2 code uri2 verifier2 db2 \<noteq> (Inr b, x)" for cl2 b x
    by (metis fst_conv sum.disc(2))
  obtain srv where st: "server_state configured2 now2 True db2 = (srv, db2)"
    using server_state_required [of configured2 now2 db2] by (metis prod.collapse)
  show ?thesis using no
    by (auto simp: token_endpoint_def st split: sum.splits prod.splits)
qed

theorem code_exchanged_once_witness:
  "raised (demo_call ''9'' 5 (Code_form ''code'' ''https://c.test/cb'' demo_verifier) (snd demo_exchange))"
proof -
  have "token_endpoint demo_crypto (Inr ''https://a.test'') (\<lambda>_. [''posts:read'']) 1 (demo_mint ''1'')
      ''c'' None (Code_form ''code'' ''https://c.test/cb'' demo_verifier) demo_oauth
      = (Inr (demo_body ''1''), snd demo_exchange)"
    using demo_exchange_ok by (simp add: demo_exchange_def demo_call_def prod_eq_iff)
  from code_exchanged_once [OF this, where cs = "[]"] show ?thesis by (simp add: demo_call_def)
qed

text \<open>
  Scopes never grow: whatever calls follow, every token of a family carries only
  scopes within those its tokens had, so a chain of rotations can narrow the consent the
  user gave and never widen it.
\<close>

theorem rotation_never_widens_scopes:
  assumes "\<And>t. t \<in> set (oauth_tokens db) \<Longrightarrow> ot_family_id t = fid \<Longrightarrow> scope_set (ot_scopes t) \<subseteq> S"
    and "fid \<notin> set (concat (map call_family cs))"
    and "t \<in> set (oauth_tokens (fold run_oauth cs db))" "ot_family_id t = fid"
  shows "scope_set (ot_scopes t) \<subseteq> S"
proof -
  have within: "scopes_within fid S db" using assms(1) by (simp add: scopes_within_def)
  have "evolves fid S db (fold run_oauth cs db)" by (rule run_oauths_evolve [OF assms(2) within])
  then have "scopes_within fid S (fold run_oauth cs db)" using within by (rule scopes_within_evolves)
  then show ?thesis using assms(3,4) unfolding scopes_within_def by blast
qed

theorem rotation_never_widens_scopes_witness:
  "list_all (\<lambda>t. scope_set (ot_scopes t) \<subseteq> {''posts:read''}) (oauth_tokens (fold run_oauth
     [Token_call demo_crypto (Inr ''https://a.test'') (\<lambda>_. [''posts:read'']) 2 (demo_mint ''2'') ''c'' None
        (Refresh_form ''r1'' [] True)] (snd demo_exchange)))"
proof -
  let ?cs = "[Token_call demo_crypto (Inr ''https://a.test'') (\<lambda>_. [''posts:read'']) 2 (demo_mint ''2'') ''c'' None
        (Refresh_form ''r1'' [] True)]"
  have old: "list_all (\<lambda>t. ot_family_id t = ''f1'' \<and> scope_set (ot_scopes t) \<subseteq> {''posts:read''})
      (oauth_tokens (snd demo_exchange))"
    by code_simp
  have new: "list_all (\<lambda>t. ot_family_id t = ''f1'') (oauth_tokens (fold run_oauth ?cs (snd demo_exchange)))"
    by code_simp
  have "scope_set (ot_scopes t) \<subseteq> {''posts:read''}"
    if "t \<in> set (oauth_tokens (fold run_oauth ?cs (snd demo_exchange)))" for t
  proof (rule rotation_never_widens_scopes [where fid = "''f1''" and cs = ?cs and db = "snd demo_exchange"])
    show "\<And>t. t \<in> set (oauth_tokens (snd demo_exchange)) \<Longrightarrow> ot_family_id t = ''f1'' \<Longrightarrow> scope_set (ot_scopes t) \<subseteq> {''posts:read''}"
      using old unfolding list_all_iff by blast
    show "''f1'' \<notin> set (concat (map call_family ?cs))" by (simp add: demo_mint_def)
    show "t \<in> set (oauth_tokens (fold run_oauth ?cs (snd demo_exchange)))" by (rule that)
    show "ot_family_id t = ''f1''" using new that unfolding list_all_iff by blast
  qed
  then show ?thesis unfolding list_all_iff by blast
qed

text \<open>
  Rotating the signing key leaves exactly one current key, the new one; the key it
  replaces stays published for a day, so that tokens it signed still verify, and no
  retired key keeps its private part.
\<close>

theorem key_rotation:
  assumes "create_signing_key cr now m True db = (k, db')"
    and "\<And>x. x \<in> set (signing_keys db) \<Longrightarrow> \<not> sk_is_current x \<Longrightarrow> sk_private_key_enc x = []"
  shows "filter sk_is_current (signing_keys db') = [k] \<and> sk_kid k = mi_kid m
    \<and> (\<forall>x \<in> set (signing_keys db'). x \<noteq> k \<longrightarrow> sk_private_key_enc x = [])
    \<and> (\<forall>old \<in> set (signing_keys db). sk_is_current old \<longrightarrow> now \<le> t \<longrightarrow> t < now + days 1 \<longrightarrow>
         (sk_kid old, sk_public_key_pem old) \<in> set (jwks t db'))"
proof -
  let ?retire = "\<lambda>x. x\<lparr>sk_is_current := False, sk_retire_after := Some (now + days 1), sk_private_key_enc := []\<rparr>"
  have keys: "signing_keys db' = update_where sk_is_current ?retire (signing_keys db) @ [k]"
    and k: "sk_is_current k" "sk_kid k = mi_kid m"
    using assms(1) by (auto simp: create_signing_key_def Let_def add_row_def)
  have gone: "filter sk_is_current (update_where sk_is_current ?retire rs) = []" for rs
    by (induction rs) (simp_all add: update_where_def)
  have "sk_private_key_enc x = []" if "x \<in> set (signing_keys db')" "x \<noteq> k" for x
    using that assms(2) unfolding keys by (auto simp: set_update_where split: if_splits)
  moreover have "(sk_kid old, sk_public_key_pem old) \<in> set (jwks t db')"
    if "old \<in> set (signing_keys db)" "sk_is_current old" "t < now + days 1" for old
  proof -
    have "?retire old \<in> set (signing_keys db')"
      unfolding keys using that by (force simp: set_update_where)
    then show ?thesis using that(3) unfolding jwks_def
      by (force simp: image_iff intro!: bexI [of _ "?retire old"])
  qed
  ultimately show ?thesis using k gone by (simp add: keys)
qed

theorem key_rotation_witness:
  "filter sk_is_current (signing_keys (snd (create_signing_key demo_crypto 0 (demo_mint ''1'') True empty_db)))
   = [fst (create_signing_key demo_crypto 0 (demo_mint ''1'') True empty_db)]"
proof -
  have "create_signing_key demo_crypto 0 (demo_mint ''1'') True empty_db
      = (fst (create_signing_key demo_crypto 0 (demo_mint ''1'') True empty_db),
         snd (create_signing_key demo_crypto 0 (demo_mint ''1'') True empty_db))"
    by simp
  from key_rotation [OF this] show ?thesis by simp
qed

end
