(* ===== verification/Mail_Queue.thy ===== *)
theory Mail_Queue
  imports Database Contracts "HOL-Library.Product_Lexorder"
begin

text \<open>
  \<open>mail/queue.py\<close>, with the validators of \<open>mail/smtp.py\<close> and the delivery status of
  \<open>mail/delivery.py\<close>: the outbox that producers add to once per key, and from which workers
  lease, send and finalize one message at a time. What SMTP did with a message is an
  argument of the operation that finalizes it; so are new identifiers and tokens, the
  jittered delay, and, in \<open>mail_env\<close>, the hash, the case folding and the host name.
\<close>

section \<open>Validation\<close>

datatype mail_error =
    Invalid_header_value
  | Header_too_long
  | Invalid_address
  | Invalid_recipient_kind
  | Protected_header
  | Invalid_header_name
  | Integrity_error
  | Unsupported_status
  | Invalid_enhanced_code

text \<open>Carriage return, line feed or NUL.\<close>

definition control_char :: "char \<Rightarrow> bool" where
  "control_char c \<longleftrightarrow> (let n = (of_char c :: nat) in n = 13 \<or> n = 10 \<or> n = 0)"

definition has_control :: "string \<Rightarrow> bool" where
  "has_control s \<longleftrightarrow> list_ex control_char s"

definition validate_header_value :: "string \<Rightarrow> mail_error + string" where
  "validate_header_value v =
     (if has_control v then Inl Invalid_header_value
      else if length v > 998 then Inl Header_too_long
      else Inr v)"

definition address_char :: "char \<Rightarrow> bool" where
  "address_char c \<longleftrightarrow> \<not> is_space c \<and> c \<noteq> CHR ''<'' \<and> c \<noteq> CHR ''>'' \<and> c \<noteq> CHR ''@''"

text \<open>The pattern \<open>_ADDRESS\<close>: two non-empty runs of address characters around one at sign.\<close>

definition matches_address :: "string \<Rightarrow> bool" where
  "matches_address v \<longleftrightarrow>
     (case split_on (CHR ''@'') v of
        [l, d] \<Rightarrow> l \<noteq> [] \<and> d \<noteq> [] \<and> list_all address_char l \<and> list_all address_char d
      | _ \<Rightarrow> False)"

definition validate_address :: "string \<Rightarrow> mail_error + string" where
  "validate_address v =
     (case validate_header_value v of
        Inl e \<Rightarrow> Inl e
      | Inr x \<Rightarrow> if matches_address (strip x) then Inr (strip x) else Inl Invalid_address)"

definition PROTECTED_HEADERS :: "string list" where
  "PROTECTED_HEADERS = [''from'', ''to'', ''cc'', ''bcc'', ''return-path'', ''received'',
     ''message-id'', ''content-type'', ''content-transfer-encoding'', ''mime-version'', ''subject'',
     ''reply-to'', ''sender'', ''date'', ''resent-to'', ''resent-from'', ''delivered-to'',
     ''authentication-results'']"

definition header_name_ok :: "string \<Rightarrow> bool" where
  "header_name_ok name \<longleftrightarrow>
     list_all (\<lambda>c. (of_char c :: nat) < 128) name
     \<and> (let rest = filter (\<lambda>c. c \<noteq> CHR ''-'') name in
          rest \<noteq> [] \<and> list_all (\<lambda>c. is_lower_alpha c \<or> is_upper_alpha c \<or> is_digit c) rest)
     \<and> length name \<le> 64"

text \<open>The loops over addresses and over headers stop at the first that is refused.\<close>

fun validate_all :: "('a \<Rightarrow> mail_error + 'b) \<Rightarrow> 'a list \<Rightarrow> mail_error + unit" where
  "validate_all f [] = Inr ()"
| "validate_all f (x # xs) = (case f x of Inl e \<Rightarrow> Inl e | Inr _ \<Rightarrow> validate_all f xs)"

definition validate_header :: "string \<times> string \<Rightarrow> mail_error + string" where
  "validate_header = (\<lambda>(name, v).
     if lower name \<in> set PROTECTED_HEADERS then Inl Protected_header
     else if \<not> header_name_ok name then Inl Invalid_header_name
     else validate_header_value v)"

section \<open>Adding a message\<close>

record mail_env =
  me_sha256 :: "string \<Rightarrow> string"
  me_casefold :: "string \<Rightarrow> string"
  me_domain :: string

record mail_request =
  mr_to :: string
  mr_subject :: string
  mr_body_text :: string
  mr_body_html :: "string option"
  mr_key :: "string option"
  mr_profile_id :: "string option"
  mr_purpose :: "string option"
  mr_kind :: string
  mr_visible_to :: "string list option"
  mr_visible_cc :: "string list option"
  mr_headers :: "(string \<times> string) list"
  mr_sender :: "string option"
  mr_template_id :: "string option"
  mr_template_locale :: "string option"
  mr_template_revision :: "string option"

definition LEASE_SECONDS :: int where "LEASE_SECONDS = 90"
definition DEFAULT_MAX_ATTEMPTS :: int where "DEFAULT_MAX_ATTEMPTS = 5"

definition scoped_key :: "mail_env \<Rightarrow> string \<Rightarrow> string option \<Rightarrow> string option \<Rightarrow> string \<Rightarrow> string" where
  "scoped_key env fresh key purpose recipient =
     (if \<not> truthy_str key then fresh
      else me_sha256 env ((if truthy_str purpose then or_empty purpose else ''transactional'')
        @ [char_of (0::nat)] @ me_casefold env recipient @ [char_of (0::nat)] @ or_empty key))"

definition message_id :: "mail_env \<Rightarrow> string \<Rightarrow> string" where
  "message_id env row_id = ''<'' @ row_id @ ''@'' @ me_domain env @ ''>''"

definition check_request :: "mail_request \<Rightarrow> mail_error + string" where
  "check_request r =
     (case validate_address (mr_to r) of
        Inl e \<Rightarrow> Inl e
      | Inr recipient \<Rightarrow>
          (case validate_header_value (mr_subject r) of
             Inl e \<Rightarrow> Inl e
           | Inr _ \<Rightarrow>
               if mr_kind r \<notin> {''to'', ''cc'', ''bcc''} then Inl Invalid_recipient_kind
               else (case validate_all validate_address
                     (concat (map (\<lambda>x. case x of None \<Rightarrow> [] | Some xs \<Rightarrow> xs)
                       [mr_visible_to r, mr_visible_cc r])
                      @ (if truthy_str (mr_sender r) then [or_empty (mr_sender r)] else [])) of
                   Inl e \<Rightarrow> Inl e
                 | Inr _ \<Rightarrow>
                     (case validate_all validate_header (mr_headers r) of
                        Inl e \<Rightarrow> Inl e | Inr _ \<Rightarrow> Inr recipient))))"

definition profile_of :: "dict \<Rightarrow> mail_request \<Rightarrow> string" where
  "profile_of mail_settings r =
     (case mr_profile_id r of
        Some p \<Rightarrow> p
      | None \<Rightarrow>
          (let configured = str_or_empty (dget mail_settings
                 (if mr_purpose r = Some ''bulk'' then ''bulk_profile'' else ''transactional_profile'') JNull)
           in if configured = [] then ''transactional'' else configured))"

definition new_entry ::
  "mail_env \<Rightarrow> time \<Rightarrow> dict \<Rightarrow> string \<Rightarrow> string \<Rightarrow> string \<Rightarrow> mail_request \<Rightarrow> mail_item" where
  "new_entry env now mail_settings row_id key recipient r =
     \<lparr>mq_id = row_id, mq_idempotency_key = key, mq_recipient = recipient, mq_recipient_kind = mr_kind r,
      mq_visible_to = (case mr_visible_to r of Some xs \<Rightarrow> xs
        | None \<Rightarrow> if mr_kind r = ''to'' then [recipient] else []),
      mq_visible_cc = (case mr_visible_cc r of Some xs \<Rightarrow> xs
        | None \<Rightarrow> if mr_kind r = ''cc'' then [recipient] else []),
      mq_subject = mr_subject r, mq_body_text = mr_body_text r, mq_body_html = mr_body_html r,
      mq_headers = mr_headers r, mq_profile_id = profile_of mail_settings r,
      mq_message_type = mr_purpose r, mq_template_id = mr_template_id r,
      mq_template_locale = mr_template_locale r, mq_template_revision = mr_template_revision r,
      mq_message_id = message_id env row_id, mq_envelope_sender = mr_sender r,
      mq_pgp_encrypted = False, mq_status = Mail_Pending, mq_priority = 0, mq_attempts = 0,
      mq_max_attempts = DEFAULT_MAX_ATTEMPTS, mq_next_attempt_at = None, mq_lease_owner = None,
      mq_lease_until = None, mq_last_error = None, mq_dsn_status = None, mq_dsn_enhanced_code = None,
      mq_dsn_envid = None, mq_verp_token = None, mq_created_at = now, mq_updated_at = now,
      mq_sent_at = None\<rparr>"

text \<open>
  The insertion, on the database as other transactions have left it since the look-up: the
  unique key decides, and a caller that owns its transaction gets the row that won.
\<close>

definition insert_entry :: "bool \<Rightarrow> mail_item \<Rightarrow> db \<Rightarrow> (mail_error, string, db) outcome" where
  "insert_entry owns_session entry db =
     (case get_by mq_idempotency_key (mq_idempotency_key entry) (mail_queue db) of
        None \<Rightarrow> (Inr (mq_id entry), db\<lparr>mail_queue := add_row entry (mail_queue db)\<rparr>)
      | Some existing \<Rightarrow>
          if owns_session then (Inr (mq_id existing), db) else (Inl Integrity_error, db))"

definition enqueue_mail ::
  "mail_env \<Rightarrow> time \<Rightarrow> dict \<Rightarrow> bool \<Rightarrow> string \<Rightarrow> string \<Rightarrow> mail_request \<Rightarrow> db
   \<Rightarrow> (mail_error, string, db) outcome" where
  "enqueue_mail env now mail_settings owns_session row_id fresh_key r db =
     (case check_request r of
        Inl e \<Rightarrow> (Inl e, db)
      | Inr recipient \<Rightarrow>
          (let key = scoped_key env fresh_key (mr_key r) (mr_purpose r) recipient in
           case get_by mq_idempotency_key key (mail_queue db) of
             Some existing \<Rightarrow> (Inr (mq_id existing), db)
           | None \<Rightarrow>
               insert_entry owns_session (new_entry env now mail_settings row_id key recipient r) db))"

section \<open>Claiming\<close>

definition lease_over :: "time \<Rightarrow> mail_item \<Rightarrow> bool" where
  "lease_over now q \<longleftrightarrow>
     mq_status q = Mail_Leased \<and> (case mq_lease_until q of None \<Rightarrow> False | Some u \<Rightarrow> u \<le> now)"

definition exhausted :: "time \<Rightarrow> mail_item \<Rightarrow> bool" where
  "exhausted now q \<longleftrightarrow> lease_over now q \<and> mq_attempts q \<ge> mq_max_attempts q"

definition ready :: "time \<Rightarrow> mail_item \<Rightarrow> bool" where
  "ready now q \<longleftrightarrow> (mq_status q = Mail_Pending \<or> mq_status q = Mail_Retry)
     \<and> (case mq_next_attempt_at q of None \<Rightarrow> True | Some t \<Rightarrow> t \<le> now)"

definition claimable :: "time \<Rightarrow> mail_item \<Rightarrow> bool" where
  "claimable now q \<longleftrightarrow> mq_attempts q < mq_max_attempts q \<and> (ready now q \<or> lease_over now q)"

definition terminalize :: "time \<Rightarrow> mail_item \<Rightarrow> mail_item" where
  "terminalize now q = q\<lparr>mq_status := Mail_Dead, mq_lease_owner := None, mq_lease_until := None,
     mq_last_error := Some ''lease_expired'', mq_updated_at := now\<rparr>"

definition lease :: "string \<Rightarrow> time \<Rightarrow> mail_item \<Rightarrow> mail_item" where
  "lease worker now q = q\<lparr>mq_status := Mail_Leased, mq_lease_owner := Some worker,
     mq_lease_until := Some (now + seconds LEASE_SECONDS), mq_attempts := mq_attempts q + 1,
     mq_updated_at := now\<rparr>"

text \<open>The order of the candidates: the highest priority, then the oldest, then the identifier.\<close>

definition claim_order :: "mail_item \<Rightarrow> int \<times> time \<times> string" where
  "claim_order q = (- mq_priority q, mq_created_at q, mq_id q)"

definition claim_one :: "string \<Rightarrow> time \<Rightarrow> db \<Rightarrow> mail_item option \<times> db" where
  "claim_one worker now db =
     (let db1 = db\<lparr>mail_queue := update_where (exhausted now) (terminalize now) (mail_queue db)\<rparr>
      in case min_by claim_order (filter (claimable now) (mail_queue db1)) of
           None \<Rightarrow> (None, db1)
         | Some candidate \<Rightarrow>
             (let P = (\<lambda>q. mq_id q = mq_id candidate \<and> claimable now q)
              in if rowcount P (mail_queue db1) \<noteq> 1 then (None, db)
                 else (let db2 = db1\<lparr>mail_queue := update_where P (lease worker now) (mail_queue db1)\<rparr>
                       in (get_by mq_id (mq_id candidate) (mail_queue db2), db2))))"

section \<open>Finalizing\<close>

text \<open>
  What a delivery raised: whether it is one of the connection and time-out classes, its
  integer \<open>code\<close> if it has one (every \<open>SMTPResponseException\<close> has), and its class name,
  which is an identifier for every exception class.
\<close>

record send_error =
  se_connection :: bool
  se_code :: "int option"
  se_name :: string

definition is_transient :: "send_error \<Rightarrow> bool" where
  "is_transient e \<longleftrightarrow> se_connection e \<or> (case se_code e of None \<Rightarrow> False | Some c \<Rightarrow> c < 500)"

definition safe_error :: "send_error \<Rightarrow> string" where
  "safe_error e = (case se_code e of Some c \<Rightarrow> ''smtp_'' @ str_int c | None \<Rightarrow> take 120 (lower (se_name e)))"

definition profile_unavailable :: send_error where
  "profile_unavailable = \<lparr>se_connection = False, se_code = None, se_name = ''SMTPProfileUnavailable''\<rparr>"

definition value_error :: send_error where
  "value_error = \<lparr>se_connection = False, se_code = None, se_name = ''ValueError''\<rparr>"

definition base_delay :: "int \<Rightarrow> int" where
  "base_delay n = min 86400 (30 * 2 ^ nat (max 0 (n - 1)))"

definition held_by :: "string \<Rightarrow> string \<Rightarrow> mail_item \<Rightarrow> bool" where
  "held_by worker job q \<longleftrightarrow> mq_id q = job \<and> mq_lease_owner q = Some worker"

definition mark_sent :: "time \<Rightarrow> mail_item \<Rightarrow> mail_item" where
  "mark_sent now q = q\<lparr>mq_status := Mail_Sent, mq_sent_at := Some now, mq_updated_at := now,
     mq_lease_owner := None, mq_lease_until := None, mq_last_error := None\<rparr>"

definition finalize_sent :: "string \<Rightarrow> time \<Rightarrow> string \<Rightarrow> db \<Rightarrow> db" where
  "finalize_sent worker now job db =
     db\<lparr>mail_queue := update_where (held_by worker job) (mark_sent now) (mail_queue db)\<rparr>"

text \<open>\<open>jitter\<close> is the multiplication with the random factor and the cut to an integer.\<close>

definition mark_failed :: "time \<Rightarrow> (int \<Rightarrow> int) \<Rightarrow> mail_item \<Rightarrow> send_error \<Rightarrow> mail_item \<Rightarrow> mail_item" where
  "mark_failed now jitter payload e q =
     (let retry = is_transient e \<and> mq_attempts payload < mq_max_attempts payload in
      q\<lparr>mq_status := (if retry then Mail_Retry else Mail_Dead),
        mq_next_attempt_at :=
          (if retry then Some (now + seconds (jitter (base_delay (mq_attempts payload)))) else None),
        mq_lease_owner := None, mq_lease_until := None, mq_last_error := Some (safe_error e),
        mq_updated_at := now\<rparr>)"

definition finalize_failed ::
  "string \<Rightarrow> time \<Rightarrow> (int \<Rightarrow> int) \<Rightarrow> mail_item \<Rightarrow> send_error \<Rightarrow> db \<Rightarrow> db" where
  "finalize_failed worker now jitter payload e db =
     db\<lparr>mail_queue := update_where (held_by worker (mq_id payload)) (mark_failed now jitter payload e)
       (mail_queue db)\<rparr>"

text \<open>\<open>idna\<close> encodes a domain, or raises a \<open>ValueError\<close> (\<open>UnicodeError\<close> is one).\<close>

definition verp_token_char :: "char \<Rightarrow> bool" where
  "verp_token_char c \<longleftrightarrow> is_lower_alpha c \<or> is_upper_alpha c \<or> is_digit c"

definition verp_address :: "(string \<Rightarrow> string option) \<Rightarrow> string \<Rightarrow> string \<Rightarrow> send_error + string" where
  "verp_address idna token domain =
     (if length token \<noteq> 32 \<or> \<not> list_all verp_token_char token then Inl value_error
      else (case idna (rev (dropWhile (\<lambda>c. c = CHR ''.'') (rev (strip domain)))) of
              None \<Rightarrow> Inl value_error
            | Some d \<Rightarrow>
                if d = [] \<or> list_ex (\<lambda>c. c = char_of (13::nat) \<or> c = char_of (10::nat) \<or> c = CHR ''@'') d
                then Inl value_error else Inr (''bounce+'' @ token @ ''@'' @ d)))"

text \<open>The envelope sender given to a message that has none; nothing is kept when this raises.\<close>

definition assign_verp ::
  "(string \<Rightarrow> string option) \<Rightarrow> string \<Rightarrow> string \<Rightarrow> string \<Rightarrow> db \<Rightarrow> (send_error, unit, db) outcome" where
  "assign_verp idna new_token domain job db =
     (case get_by mq_id job (mail_queue db) of
        None \<Rightarrow> (Inr (), db)
      | Some row \<Rightarrow>
          (let token = (if truthy_str (mq_verp_token row) then or_empty (mq_verp_token row) else new_token)
           in case verp_address idna token domain of
                Inl e \<Rightarrow> (Inl e, db)
              | Inr sender \<Rightarrow>
                  (Inr (), db\<lparr>mail_queue := update_where (\<lambda>q. mq_id q = job)
                     (\<lambda>q. q\<lparr>mq_verp_token := Some token, mq_envelope_sender := Some sender\<rparr>)
                     (mail_queue db)\<rparr>)))"

text \<open>
  What happened between the claim and the end of one delivery: the clock at both, what
  looking up the profile raised, whether it is enabled, its envelope domain, a new token,
  what sending raised, and the jitter.
\<close>

record send_run =
  sr_claimed_at :: time
  sr_done_at :: time
  sr_lookup :: "send_error option"
  sr_enabled :: bool
  sr_envelope_domain :: string
  sr_idna :: "string \<Rightarrow> string option"
  sr_new_token :: string
  sr_result :: "send_error option"
  sr_jitter :: "int \<Rightarrow> int"

definition attempt_send :: "send_run \<Rightarrow> mail_item \<Rightarrow> db \<Rightarrow> (send_error, unit, db) outcome" where
  "attempt_send run payload db =
     (case sr_lookup run of
        Some e \<Rightarrow> (Inl e, db)
      | None \<Rightarrow>
          if \<not> sr_enabled run then (Inl profile_unavailable, db)
          else and_then
            (if \<not> truthy_str (mq_envelope_sender payload) \<and> sr_envelope_domain run \<noteq> []
             then assign_verp (sr_idna run) (sr_new_token run) (sr_envelope_domain run) (mq_id payload) db
             else (Inr (), db))
            (\<lambda>_ db1. case sr_result run of None \<Rightarrow> (Inr (), db1) | Some e \<Rightarrow> (Inl e, db1)))"

definition deliver_claimed :: "string \<Rightarrow> send_run \<Rightarrow> mail_item \<Rightarrow> db \<Rightarrow> nat \<times> db" where
  "deliver_claimed worker run payload db =
     (case attempt_send run payload db of
        (Inr _, db1) \<Rightarrow> (1, finalize_sent worker (sr_done_at run) (mq_id payload) db1)
      | (Inl e, db1) \<Rightarrow> (0, finalize_failed worker (sr_done_at run) (sr_jitter run) payload e db1))"

text \<open>One element of the list per round of the batch.\<close>

fun process_queue_locked :: "string \<Rightarrow> send_run list \<Rightarrow> db \<Rightarrow> nat \<times> db" where
  "process_queue_locked worker [] db = (0, db)"
| "process_queue_locked worker (run # runs) db =
     (case claim_one worker (sr_claimed_at run) db of
        (None, db1) \<Rightarrow> (0, db1)
      | (Some payload, db1) \<Rightarrow>
          (let (sent, db2) = deliver_claimed worker run payload db1;
               (more, db3) = process_queue_locked worker runs db2
           in (sent + more, db3)))"

definition process_queue :: "bool \<Rightarrow> string \<Rightarrow> send_run list \<Rightarrow> db \<Rightarrow> nat \<times> db" where
  "process_queue acquired worker runs db =
     (if \<not> acquired then (0, db) else process_queue_locked worker runs db)"

section \<open>Operator actions and delivery status\<close>

definition retry_mail :: "time \<Rightarrow> string \<Rightarrow> db \<Rightarrow> bool \<times> db" where
  "retry_mail now job db =
     (case get_by mq_id job (mail_queue db) of
        None \<Rightarrow> (False, db)
      | Some row \<Rightarrow>
          if mq_status row \<noteq> Mail_Dead \<and> mq_status row \<noteq> Mail_Retry then (False, db)
          else (True, db\<lparr>mail_queue := update_where (\<lambda>q. mq_id q = job)
             (\<lambda>q. q\<lparr>mq_status := Mail_Pending, mq_attempts := 0, mq_next_attempt_at := None,
                mq_lease_owner := None, mq_lease_until := None, mq_last_error := None,
                mq_updated_at := now\<rparr>) (mail_queue db)\<rparr>))"

definition cancellable :: "string \<Rightarrow> mail_item \<Rightarrow> bool" where
  "cancellable job q \<longleftrightarrow> mq_id q = job
     \<and> (mq_status q = Mail_Pending \<or> mq_status q = Mail_Retry \<or> mq_status q = Mail_Dead)"

definition cancel_mail :: "time \<Rightarrow> string \<Rightarrow> db \<Rightarrow> bool \<times> db" where
  "cancel_mail now job db =
     (rowcount (cancellable job) (mail_queue db) = 1,
      db\<lparr>mail_queue := update_where (cancellable job)
        (\<lambda>q. q\<lparr>mq_status := Mail_Cancelled, mq_updated_at := now, mq_last_error := None\<rparr>)
        (mail_queue db)\<rparr>)"

definition apply_dsn ::
  "string \<Rightarrow> string \<Rightarrow> string option \<Rightarrow> db \<Rightarrow> (mail_error, bool, db) outcome" where
  "apply_dsn token status enhanced_code db =
     (if status \<notin> {''delivered'', ''delayed'', ''bounced''} then (Inl Unsupported_status, db)
      else if (case enhanced_code of None \<Rightarrow> False
           | Some c \<Rightarrow> length c > 32 \<or> char_of (10::nat) \<in> set c) then (Inl Invalid_enhanced_code, db)
      else if get_by mq_verp_token (Some token) (mail_queue db) = None then (Inr False, db)
      else (Inr True, db\<lparr>mail_queue := update_where (\<lambda>q. mq_verp_token q = Some token)
             (\<lambda>q. q\<lparr>mq_dsn_status := Some status, mq_dsn_enhanced_code := enhanced_code\<rparr>)
             (mail_queue db)\<rparr>))"


section \<open>The queue as a state machine\<close>

text \<open>
  One event per transaction on the queue. Only a new identifier that is already in use is
  excluded: \<open>uuid4\<close> does not repeat.
\<close>

datatype mail_event =
    Queued string
  | Claimed string string
  | Settled string string
  | Retried string
  | Idle
  | Other_event

inductive mail_step :: "mail_env \<Rightarrow> db \<Rightarrow> mail_event \<Rightarrow> db \<Rightarrow> bool" for env where
  step_enqueue: "\<lbrakk> row_id \<notin> mq_id ` set (mail_queue db);
      enqueue_mail env now ms owns row_id fresh r db = (Inr i, db') \<rbrakk> \<Longrightarrow> mail_step env db (Queued i) db'"
| step_claim: "claim_one worker now db = (Some q, db') \<Longrightarrow> mail_step env db (Claimed worker (mq_id q)) db'"
| step_idle: "claim_one worker now db = (None, db') \<Longrightarrow> mail_step env db Idle db'"
| step_sent: "mail_step env db (Settled worker job) (finalize_sent worker now job db)"
| step_failed: "mail_step env db (Settled worker (mq_id payload)) (finalize_failed worker now jitter payload e db)"
| step_verp: "mail_step env db Other_event (snd (assign_verp idna token domain job db))"
| step_retry: "retry_mail now job db = (ok, db') \<Longrightarrow> mail_step env db (Retried job) db'"
| step_cancel: "mail_step env db Other_event (snd (cancel_mail now job db))"
| step_dsn: "mail_step env db Other_event (snd (apply_dsn token status enhanced db))"

inductive mail_trace :: "mail_env \<Rightarrow> db \<Rightarrow> mail_event list \<Rightarrow> db \<Rightarrow> bool" for env where
  trace_nil: "mail_trace env db [] db"
| trace_cons: "\<lbrakk> mail_step env db ev db1; mail_trace env db1 evs db2 \<rbrakk> \<Longrightarrow> mail_trace env db (ev # evs) db2"

definition claims_of :: "string \<Rightarrow> mail_event list \<Rightarrow> nat" where
  "claims_of job evs = length (filter (\<lambda>ev. case ev of Claimed _ j \<Rightarrow> j = job | _ \<Rightarrow> False) evs)"

text \<open>Well-formed rows: the lease fields are set exactly while a message is leased.\<close>

definition mail_row_ok :: "mail_item \<Rightarrow> bool" where
  "mail_row_ok q \<longleftrightarrow> mq_attempts q \<le> mq_max_attempts q
     \<and> (mq_status q = Mail_Leased \<longleftrightarrow> mq_lease_owner q \<noteq> None)
     \<and> (mq_status q = Mail_Leased \<longleftrightarrow> mq_lease_until q \<noteq> None)"

definition mail_ok :: "db \<Rightarrow> bool" where
  "mail_ok db \<longleftrightarrow> unique_key mq_id (mail_queue db) \<and> unique_key mq_idempotency_key (mail_queue db)
     \<and> list_all mail_row_ok (mail_queue db) \<and> (\<forall>q \<in> set (mail_queue db). 0 \<le> mq_max_attempts q)"

lemmas row_defs = terminalize_def lease_def mark_sent_def mark_failed_def

text \<open>Every change of the queue other than an insertion keeps the identity of the rows.\<close>

lemma row_keeps [simp]:
  "mq_id (terminalize now q) = mq_id q" "mq_id (lease w now q) = mq_id q"
  "mq_id (mark_sent now q) = mq_id q" "mq_id (mark_failed now jitter p e q) = mq_id q"
  "mq_idempotency_key (terminalize now q) = mq_idempotency_key q"
  "mq_idempotency_key (lease w now q) = mq_idempotency_key q"
  "mq_idempotency_key (mark_sent now q) = mq_idempotency_key q"
  "mq_idempotency_key (mark_failed now jitter p e q) = mq_idempotency_key q"
  "mq_max_attempts (terminalize now q) = mq_max_attempts q"
  "mq_max_attempts (lease w now q) = mq_max_attempts q"
  "mq_max_attempts (mark_sent now q) = mq_max_attempts q"
  "mq_max_attempts (mark_failed now jitter p e q) = mq_max_attempts q"
  by (simp_all add: row_defs Let_def)

lemma row_ok_keeps [simp]:
  "mail_row_ok q \<Longrightarrow> mail_row_ok (terminalize now q)"
  "mail_row_ok q \<Longrightarrow> mq_attempts q < mq_max_attempts q \<Longrightarrow> mail_row_ok (lease w now q)"
  "mail_row_ok q \<Longrightarrow> mail_row_ok (mark_sent now q)"
  "mail_row_ok q \<Longrightarrow> mail_row_ok (mark_failed now jitter p e q)"
  by (simp_all add: row_defs mail_row_ok_def Let_def)

definition keeps_rows :: "(mail_item \<Rightarrow> bool) \<Rightarrow> (mail_item \<Rightarrow> mail_item) \<Rightarrow> bool" where
  "keeps_rows P f \<longleftrightarrow> (\<forall>q. mq_id (f q) = mq_id q \<and> mq_idempotency_key (f q) = mq_idempotency_key q
     \<and> mq_max_attempts (f q) = mq_max_attempts q \<and> (P q \<longrightarrow> mail_row_ok q \<longrightarrow> mail_row_ok (f q)))"

lemma mail_ok_update:
  assumes ok: "mail_ok db" and f: "keeps_rows P f"
  shows "mail_ok (db\<lparr>mail_queue := update_where P f (mail_queue db)\<rparr>)"
proof -
  have k: "\<And>q. mq_id (f q) = mq_id q" "\<And>q. mq_idempotency_key (f q) = mq_idempotency_key q"
    "\<And>q. mq_max_attempts (f q) = mq_max_attempts q" "\<And>q. P q \<Longrightarrow> mail_row_ok q \<Longrightarrow> mail_row_ok (f q)"
    using f unfolding keeps_rows_def by blast+
  have "unique_key mq_id (update_where P f (mail_queue db))"
    "unique_key mq_idempotency_key (update_where P f (mail_queue db))"
    using ok k by (simp_all add: mail_ok_def unique_key_update_where)
  moreover have "list_all mail_row_ok (update_where P f (mail_queue db))"
    using ok k(4) by (auto simp: mail_ok_def update_where_def list_all_iff)
  moreover have "\<forall>q \<in> set (update_where P f (mail_queue db)). 0 \<le> mq_max_attempts q"
    using ok k(3) by (auto simp: mail_ok_def update_where_def)
  ultimately show ?thesis by (simp add: mail_ok_def)
qed

subsection \<open>Claims\<close>

definition expire :: "time \<Rightarrow> db \<Rightarrow> db" where
  "expire now db = db\<lparr>mail_queue := update_where (exhausted now) (terminalize now) (mail_queue db)\<rparr>"

definition take_lease :: "string \<Rightarrow> time \<Rightarrow> string \<Rightarrow> db \<Rightarrow> db" where
  "take_lease worker now job db = db\<lparr>mail_queue :=
     update_where (\<lambda>q. mq_id q = job \<and> claimable now q) (lease worker now) (mail_queue db)\<rparr>"

lemma mail_ok_expire: "mail_ok db \<Longrightarrow> mail_ok (expire now db)"
  unfolding expire_def by (rule mail_ok_update) (simp_all add: keeps_rows_def)

lemma mail_ok_take_lease: "mail_ok db \<Longrightarrow> mail_ok (take_lease worker now job db)"
  unfolding take_lease_def by (rule mail_ok_update) (simp_all add: keeps_rows_def claimable_def)

lemma get_expire:
  "get_by mq_id j (mail_queue (expire now db)) =
     map_option (\<lambda>q. if exhausted now q then terminalize now q else q) (get_by mq_id j (mail_queue db))"
  by (simp add: expire_def get_by_update_where)

lemma get_take_lease:
  "get_by mq_id j (mail_queue (take_lease worker now job db)) =
     map_option (\<lambda>q. if mq_id q = job \<and> claimable now q then lease worker now q else q)
       (get_by mq_id j (mail_queue db))"
  by (simp add: take_lease_def get_by_update_where)

text \<open>
  What a claim does: it terminalizes exhausted leases and, when something is claimable,
  leases the first message in the order and returns it as it now stands.
\<close>

lemma claim_one_cases:
  assumes ok: "mail_ok db"
  obtains (none) "filter (claimable now) (mail_queue (expire now db)) = []"
      "claim_one worker now db = (None, expire now db)"
  | (some) c where "c \<in> set (mail_queue (expire now db))" "claimable now c"
      "\<forall>q \<in> set (mail_queue (expire now db)). claimable now q \<longrightarrow> claim_order c \<le> claim_order q"
      "claim_one worker now db = (Some (lease worker now c), take_lease worker now (mq_id c) (expire now db))"
proof (cases "min_by claim_order (filter (claimable now) (mail_queue (expire now db)))")
  case None
  then have "claim_one worker now db = (None, expire now db)"
    by (simp add: claim_one_def expire_def Let_def)
  then show ?thesis using None none by simp
next
  case (Some c)
  let ?Q = "mail_queue (expire now db)"
  have c: "c \<in> set ?Q" "claimable now c"
    "\<forall>q \<in> set ?Q. claimable now q \<longrightarrow> claim_order c \<le> claim_order q"
    using min_by_SomeD [OF Some] by auto
  have u: "unique_key mq_id ?Q" using mail_ok_expire [OF ok] by (simp add: mail_ok_def)
  have g: "get_by mq_id (mq_id c) ?Q = Some c" using u c(1) by (rule get_by_unique)
  have rc: "rowcount (\<lambda>q. mq_id q = mq_id c \<and> claimable now q) ?Q = 1"
    using rowcount_key [OF u, of "mq_id c" "claimable now"] g c(2) by simp
  have "get_by mq_id (mq_id c) (mail_queue (take_lease worker now (mq_id c) (expire now db)))
      = Some (lease worker now c)"
    using g c(2) by (simp add: get_take_lease)
  then have "claim_one worker now db = (Some (lease worker now c), take_lease worker now (mq_id c) (expire now db))"
    using Some rc by (simp add: claim_one_def expire_def take_lease_def Let_def)
  then show ?thesis using c some by blast
qed

lemma mail_ok_claim: "mail_ok db \<Longrightarrow> mail_ok (snd (claim_one worker now db))"
  by (rule claim_one_cases [of db now worker]) (simp_all add: mail_ok_expire mail_ok_take_lease)

definition mail_holder :: "db \<Rightarrow> string \<Rightarrow> (string \<times> time) option" where
  "mail_holder db j = (case get_by mq_id j (mail_queue db) of
     None \<Rightarrow> None
   | Some q \<Rightarrow> (case (mq_lease_owner q, mq_lease_until q) of (Some w, Some u) \<Rightarrow> Some (w, u) | _ \<Rightarrow> None))"

definition mail_claim :: "string \<Rightarrow> time \<Rightarrow> db \<Rightarrow> string option \<times> db" where
  "mail_claim worker now db = (let (q, db') = claim_one worker now db in (map_option mq_id q, db'))"

lemma mail_holder_iff:
  "mail_holder db j = Some (w, u) \<longleftrightarrow>
     (\<exists>q. get_by mq_id j (mail_queue db) = Some q \<and> mq_lease_owner q = Some w \<and> mq_lease_until q = Some u)"
  by (auto simp: mail_holder_def split: option.splits)

lemma row_okD: "mail_ok db \<Longrightarrow> q \<in> set (mail_queue db) \<Longrightarrow> mail_row_ok q"
  by (simp add: mail_ok_def list_all_iff)

lemma claimable_lease_over:
  "\<lbrakk> mail_row_ok q; claimable now q; mq_lease_until q = Some u \<rbrakk> \<Longrightarrow> u \<le> now"
  by (auto simp: claimable_def ready_def lease_over_def mail_row_ok_def)

interpretation mailq: lease_queue mail_claim mail_holder "seconds LEASE_SECONDS" mail_ok
proof (unfold_locales, goal_cases)
  case 1
  show ?case by (simp add: LEASE_SECONDS_def seconds_def)
next
  case (2 db w t)
  then show ?case using mail_ok_claim [of db w t] by (simp add: mail_claim_def case_prod_beta Let_def)
next
  case (3 db w t j)
  from 3(1) show ?case
  proof (cases rule: claim_one_cases [of db t w])
    case none
    then show ?thesis using 3(2) by (simp add: mail_claim_def)
  next
    case (some c)
    have "get_by mq_id (mq_id c) (mail_queue (expire t db)) = Some c"
      using some(1) mail_ok_expire [OF 3(1)] by (intro get_by_unique) (simp_all add: mail_ok_def)
    then show ?thesis using 3(2) some
      by (auto simp: mail_claim_def mail_holder_iff get_take_lease lease_def)
  qed
next
  case (4 db w t j w' u)
  from 4(1) show ?case
  proof (cases rule: claim_one_cases [of db t w])
    case none
    then show ?thesis using 4(2) by (simp add: mail_claim_def)
  next
    case (some c)
    have j: "j = mq_id c" using 4(2) some by (simp add: mail_claim_def)
    have gc: "get_by mq_id j (mail_queue (expire t db)) = Some c"
      using some(1) mail_ok_expire [OF 4(1)] unfolding j by (intro get_by_unique) (simp_all add: mail_ok_def)
    obtain q where q: "get_by mq_id j (mail_queue db) = Some q" "mq_lease_until q = Some u"
      using 4(3) unfolding mail_holder_iff by blast
    have "mail_row_ok q" using q(1) 4(1) by (auto dest: get_by_SomeD row_okD)
    moreover have "\<not> exhausted t q"
      using gc q some(2) by (auto simp: get_expire claimable_def ready_def lease_over_def terminalize_def)
    then have "c = q" using gc q by (simp add: get_expire)
    ultimately show ?thesis using some(2) q(2) by (auto intro: claimable_lease_over)
  qed
next
  case (5 db j w' u t w)
  then obtain q where q: "get_by mq_id j (mail_queue db) = Some q" "mq_lease_owner q = Some w'"
    "mq_lease_until q = Some u"
    unfolding mail_holder_iff by blast
  have ok: "mail_row_ok q" using q(1) 5(1) by (auto dest: get_by_SomeD row_okD)
  have "\<not> lease_over t q" using q(3) 5(3) by (simp add: lease_over_def)
  then have e: "get_by mq_id j (mail_queue (expire t db)) = Some q"
    using q(1) by (simp add: get_expire exhausted_def)
  have "\<not> claimable t q" using claimable_lease_over [OF ok _ q(3)] 5(3) by force
  then have "get_by mq_id j (mail_queue (take_lease w t i (expire t db))) = Some q" for i
    using e by (simp add: get_take_lease)
  note held = this e q
  from 5(1) show ?case
  proof (cases rule: claim_one_cases [of db t w])
    case none
    then show ?thesis using held by (simp add: mail_claim_def mail_holder_iff)
  next
    case (some c)
    then show ?thesis using held by (simp add: mail_claim_def mail_holder_iff)
  qed
qed

subsection \<open>What a step does to a row\<close>

text \<open>A message's fields that no operation changes.\<close>

definition same_mail :: "mail_item \<Rightarrow> mail_item \<Rightarrow> bool" where
  "same_mail q q' \<longleftrightarrow> mq_id q' = mq_id q \<and> mq_idempotency_key q' = mq_idempotency_key q
     \<and> mq_max_attempts q' = mq_max_attempts q \<and> mq_recipient q' = mq_recipient q
     \<and> mq_subject q' = mq_subject q \<and> mq_headers q' = mq_headers q
     \<and> mq_visible_to q' = mq_visible_to q \<and> mq_visible_cc q' = mq_visible_cc q"

text \<open>
  The relation between a row before and after an event: attempts are counted by claims,
  and nothing but a retry takes them back; what is sent stays sent; only its own claim
  gives a worker a message.
\<close>

definition row_evolves :: "mail_event \<Rightarrow> mail_item \<Rightarrow> mail_item \<Rightarrow> bool" where
  "row_evolves ev q q' \<longleftrightarrow> same_mail q q'
     \<and> (ev \<noteq> Retried (mq_id q) \<longrightarrow>
          mq_attempts q' = mq_attempts q + (case ev of Claimed _ j \<Rightarrow> (if j = mq_id q then 1 else 0) | _ \<Rightarrow> 0))
     \<and> (mq_status q = Mail_Sent \<longrightarrow> mq_status q' = Mail_Sent \<and> (\<forall>w. ev \<noteq> Claimed w (mq_id q)))
     \<and> (\<forall>w. ev \<noteq> Claimed w (mq_id q) \<longrightarrow> mq_lease_owner q \<noteq> Some w \<longrightarrow> mq_lease_owner q' \<noteq> Some w)"

lemma same_mail_refl [simp]: "same_mail q q"
  by (simp add: same_mail_def)

lemma same_mail_trans: "same_mail a b \<Longrightarrow> same_mail b c \<Longrightarrow> same_mail a c"
  by (simp add: same_mail_def)

lemma row_evolves_refl: "(\<forall>w. ev \<noteq> Claimed w (mq_id q)) \<Longrightarrow> row_evolves ev q q"
  by (auto simp: row_evolves_def split: mail_event.splits)

lemma same_mail_ops [simp]:
  "same_mail q (terminalize now q)" "same_mail q (lease w now q)" "same_mail q (mark_sent now q)"
  "same_mail q (mark_failed now jitter p e q)"
  by (simp_all add: same_mail_def row_defs Let_def)

lemma update_evolves:
  assumes "mail_ok db" "get_by mq_id j (mail_queue db) = Some q"
    and "\<And>q. \<lbrakk> mail_row_ok q; P q \<rbrakk> \<Longrightarrow> row_evolves ev q (f q)" "\<forall>w. ev \<noteq> Claimed w j"
    and keeps: "keeps_rows P f"
  shows "\<exists>q'. get_by mq_id j (mail_queue (db\<lparr>mail_queue := update_where P f (mail_queue db)\<rparr>)) = Some q'
    \<and> row_evolves ev q q'"
proof -
  have q: "mail_row_ok q" "mq_id q = j" using assms(1,2) by (auto dest: get_by_SomeD row_okD)
  have "\<And>r. mq_id (f r) = mq_id r" using keeps by (simp add: keeps_rows_def)
  then have "get_by mq_id j (update_where P f (mail_queue db)) = Some (if P q then f q else q)"
    using assms(2) by (simp add: get_by_update_where)
  then show ?thesis using assms(3) [OF q(1)] assms(4) q(2) by (auto intro: row_evolves_refl)
qed

lemma keeps_rowsI:
  "\<lbrakk> \<And>q. same_mail q (f q); \<And>q. \<lbrakk> P q; mail_row_ok q \<rbrakk> \<Longrightarrow> mail_row_ok (f q) \<rbrakk> \<Longrightarrow> keeps_rows P f"
  by (simp add: keeps_rows_def same_mail_def)

text \<open>An event that leaves the attempts and the lease of every row it changes.\<close>

lemma quiet_evolves:
  "\<lbrakk> same_mail q q'; mq_attempts q' = mq_attempts q; mq_status q = Mail_Sent \<longrightarrow> mq_status q' = Mail_Sent;
     mq_lease_owner q' = None \<or> mq_lease_owner q' = mq_lease_owner q; \<forall>w. ev \<noteq> Claimed w (mq_id q) \<rbrakk>
   \<Longrightarrow> row_evolves ev q q'"
  by (auto simp: row_evolves_def split: mail_event.splits)

lemma claim_evolves:
  assumes ok: "mail_ok db" and q: "get_by mq_id j (mail_queue db) = Some q"
    and c: "claim_one worker now db = (r, db')"
    and ev: "ev = (case r of None \<Rightarrow> Idle | Some p \<Rightarrow> Claimed worker (mq_id p))"
  shows "\<exists>q'. get_by mq_id j (mail_queue db') = Some q' \<and> row_evolves ev q q'"
proof -
  have qok: "mail_row_ok q" "mq_id q = j" using ok q by (auto dest: get_by_SomeD row_okD)
  let ?q1 = "if exhausted now q then terminalize now q else q"
  have e: "get_by mq_id j (mail_queue (expire now db)) = Some ?q1" using q by (simp add: get_expire)
  have sent: "mq_status q = Mail_Sent \<Longrightarrow> ?q1 = q" "\<not> claimable now (terminalize now q)"
    by (auto simp: exhausted_def lease_over_def claimable_def ready_def terminalize_def)
  have q1: "same_mail q ?q1" "mq_attempts ?q1 = mq_attempts q" "mq_id ?q1 = j"
    "mq_lease_owner ?q1 = None \<or> mq_lease_owner ?q1 = mq_lease_owner q"
    using qok(2) by (simp_all add: terminalize_def same_mail_def)
  from ok show ?thesis
  proof (cases rule: claim_one_cases [of db now worker])
    case none
    then have "db' = expire now db" "ev = Idle" using c ev by auto
    then show ?thesis using e sent(1) q1 by (intro exI [of _ ?q1]) (auto intro: quiet_evolves)
  next
    case (some x)
    then have d: "db' = take_lease worker now (mq_id x) (expire now db)" "ev = Claimed worker (mq_id x)"
      using c ev by auto
    have same: "?q1 = x" if "mq_id x = j"
      using e some(1) that mail_ok_expire [OF ok] get_by_unique [of mq_id _ x] by (auto simp: mail_ok_def)
    show ?thesis
    proof (cases "mq_id x = j")
      case True
      have nsent: "mq_status q \<noteq> Mail_Sent"
        using same [OF True] some(2) sent(1) by (auto simp: claimable_def ready_def lease_over_def)
      have "get_by mq_id j (mail_queue db') = Some (lease worker now ?q1)"
        using e d same [OF True] some(2) True by (simp add: get_take_lease)
      moreover have "row_evolves ev q (lease worker now ?q1)"
        using q1 nsent True d(2) qok(2) same_mail_trans [OF q1(1) same_mail_ops(2)]
        by (auto simp: row_evolves_def lease_def)
      ultimately show ?thesis by blast
    next
      case False
      have "get_by mq_id j (mail_queue db') = Some ?q1"
        using e d False q1(3) by (simp add: get_take_lease)
      moreover have "row_evolves ev q ?q1"
        using q1 sent(1) False d(2) qok(2) by (intro quiet_evolves) auto
      ultimately show ?thesis by blast
    qed
  qed
qed

subsection \<open>Steps and traces\<close>

lemma enqueue_cases:
  assumes "enqueue_mail env now ms owns row_id fresh r db = (Inr i, db')"
  obtains (refused) existing where "existing \<in> set (mail_queue db)" "i = mq_id existing" "db' = db"
  | (queued) recipient key where "i = row_id"
      "check_request r = Inr recipient" "key \<notin> mq_idempotency_key ` set (mail_queue db)"
      "key = scoped_key env fresh (mr_key r) (mr_purpose r) recipient"
      "db' = db\<lparr>mail_queue := add_row (new_entry env now ms row_id key recipient r) (mail_queue db)\<rparr>"
proof (cases "check_request r")
  case (Inl e)
  then show ?thesis using assms by (simp add: enqueue_mail_def)
next
  case (Inr recipient)
  let ?key = "scoped_key env fresh (mr_key r) (mr_purpose r) recipient"
  have k: "mq_idempotency_key (new_entry env now ms row_id ?key recipient r) = ?key"
    "mq_id (new_entry env now ms row_id ?key recipient r) = row_id"
    by (simp_all add: new_entry_def)
  show ?thesis
  proof (cases "get_by mq_idempotency_key ?key (mail_queue db)")
    case None
    then have "?key \<notin> mq_idempotency_key ` set (mail_queue db)"
      using get_by_None [of mq_idempotency_key ?key] by fastforce
    then show ?thesis
      using assms Inr None k by (intro queued [of recipient ?key]) (auto simp: enqueue_mail_def insert_entry_def Let_def)
  next
    case (Some existing)
    then show ?thesis
      using assms Inr by (intro refused [of existing]) (auto simp: enqueue_mail_def Let_def dest: get_by_SomeD)
  qed
qed

lemma new_entry_ok [simp]: "mail_row_ok (new_entry env now ms row_id key recipient r)"
  "0 \<le> mq_max_attempts (new_entry env now ms row_id key recipient r)"
  "mq_id (new_entry env now ms row_id key recipient r) = row_id"
  "mq_idempotency_key (new_entry env now ms row_id key recipient r) = key"
  by (simp_all add: new_entry_def mail_row_ok_def DEFAULT_MAX_ATTEMPTS_def)

lemma mail_ok_enqueue:
  assumes "mail_ok db" "row_id \<notin> mq_id ` set (mail_queue db)"
    and e: "enqueue_mail env now ms owns row_id fresh r db = (Inr i, db')"
  shows "mail_ok db'"
  using e
proof (cases rule: enqueue_cases)
  case (refused existing)
  then show ?thesis using assms(1) by simp
next
  case (queued recipient key)
  then show ?thesis
    using assms(1,2) by (auto simp: mail_ok_def unique_key_add_row list_all_iff set_add_row)
qed

lemma retry_keeps: "keeps_rows P (\<lambda>q. q\<lparr>mq_status := Mail_Pending, mq_attempts := 0, mq_next_attempt_at := None,
     mq_lease_owner := None, mq_lease_until := None, mq_last_error := None, mq_updated_at := now\<rparr>)
  \<longleftrightarrow> (\<forall>q. P q \<longrightarrow> mail_row_ok q \<longrightarrow> 0 \<le> mq_max_attempts q)"
  by (simp add: keeps_rows_def mail_row_ok_def)

lemma mail_ok_retry:
  assumes ok: "mail_ok db" and r: "retry_mail now job db = (b, db')"
  shows "mail_ok db'"
proof (cases "get_by mq_id job (mail_queue db)")
  case None
  then show ?thesis using assms by (simp add: retry_mail_def)
next
  case (Some row)
  let ?f = "\<lambda>q. q\<lparr>mq_status := Mail_Pending, mq_attempts := 0, mq_next_attempt_at := None,
     mq_lease_owner := None, mq_lease_until := None, mq_last_error := None, mq_updated_at := now\<rparr>"
  have same: "update_where (\<lambda>q. mq_id q = job) ?f (mail_queue db)
      = update_where (\<lambda>q. mq_id q = job \<and> 0 \<le> mq_max_attempts q) ?f (mail_queue db)"
    using ok by (auto simp: mail_ok_def update_where_def)
  have "mail_ok (db\<lparr>mail_queue := update_where (\<lambda>q. mq_id q = job \<and> 0 \<le> mq_max_attempts q) ?f (mail_queue db)\<rparr>)"
    using ok by (rule mail_ok_update) (simp add: retry_keeps)
  then show ?thesis using ok r Some same by (auto simp: retry_mail_def split: if_splits)
qed

lemma keeps_settled [simp]:
  "keeps_rows (held_by w j) (mark_sent now)" "keeps_rows (held_by w j) (mark_failed now jitter p e)"
  by (simp_all add: keeps_rows_def)

lemma keeps_cancel [simp]:
  "keeps_rows (cancellable job) (\<lambda>q. q\<lparr>mq_status := Mail_Cancelled, mq_updated_at := now, mq_last_error := None\<rparr>)"
  by (auto simp: keeps_rows_def mail_row_ok_def cancellable_def)

lemma keeps_verp [simp]:
  "keeps_rows P (\<lambda>q. q\<lparr>mq_verp_token := t, mq_envelope_sender := s\<rparr>)"
  "keeps_rows P (\<lambda>q. q\<lparr>mq_dsn_status := t, mq_dsn_enhanced_code := s\<rparr>)"
  by (simp_all add: keeps_rows_def mail_row_ok_def) blast+

lemma mail_ok_step:
  assumes "mail_step env db ev db'" "mail_ok db"
  shows "mail_ok db'"
  using assms
proof (cases rule: mail_step.cases)
  case (step_enqueue row_id now ms owns fresh r i)
  then show ?thesis using assms(2) by (blast intro: mail_ok_enqueue)
next
  case (step_claim worker now q)
  then show ?thesis using mail_ok_claim [OF assms(2), of worker now] by simp
next
  case (step_idle worker now)
  then show ?thesis using mail_ok_claim [OF assms(2), of worker now] by simp
next
  case (step_sent worker job now)
  then show ?thesis using assms(2) by (simp add: finalize_sent_def mail_ok_update)
next
  case (step_failed worker payload now jitter e)
  then show ?thesis using assms(2) by (simp add: finalize_failed_def mail_ok_update)
next
  case (step_verp idna token domain job)
  then show ?thesis
    using assms(2) by (auto simp: assign_verp_def Let_def mail_ok_update split: option.splits sum.splits)
next
  case (step_retry now job ok)
  then show ?thesis using assms(2) by (blast intro: mail_ok_retry)
next
  case (step_cancel now job)
  then show ?thesis using assms(2) by (simp add: cancel_mail_def mail_ok_update)
next
  case (step_dsn token status enhanced)
  then show ?thesis using assms(2) by (simp add: apply_dsn_def mail_ok_update)
qed

lemma settle_evolves:
  assumes ok: "mail_ok db" and q: "get_by mq_id j (mail_queue db) = Some q"
    and f: "keeps_rows (held_by w job) f" "\<And>q. same_mail q (f q)" "\<And>q. mq_attempts (f q) = mq_attempts q"
      "\<And>q. mq_lease_owner (f q) = None"
  shows "\<exists>q'. get_by mq_id j (mail_queue (db\<lparr>mail_queue := update_where (held_by w job) f (mail_queue db)\<rparr>)) = Some q'
    \<and> row_evolves (Settled w job) q q'"
proof (rule update_evolves [OF ok q _ _ f(1)])
  show "row_evolves (Settled w job) q (f q)" if "mail_row_ok q" "held_by w job q" for q
    using that f by (intro quiet_evolves) (auto simp: mail_row_ok_def held_by_def)
qed simp

lemma settled_fields [simp]:
  "mq_attempts (mark_sent now q) = mq_attempts q" "mq_lease_owner (mark_sent now q) = None"
  "mq_attempts (mark_failed now jitter p e q) = mq_attempts q" "mq_lease_owner (mark_failed now jitter p e q) = None"
  by (simp_all add: row_defs Let_def)

lemma retry_evolves:
  assumes ok: "mail_ok db" and q: "get_by mq_id j (mail_queue db) = Some q"
    and r: "retry_mail now job db = (b, db')"
  shows "\<exists>q'. get_by mq_id j (mail_queue db') = Some q' \<and> row_evolves (Retried job) q q'"
proof (cases "get_by mq_id job (mail_queue db)")
  case None
  then show ?thesis using r q by (auto simp: retry_mail_def intro: row_evolves_refl)
next
  case (Some row)
  let ?f = "\<lambda>q. q\<lparr>mq_status := Mail_Pending, mq_attempts := 0, mq_next_attempt_at := None,
     mq_lease_owner := None, mq_lease_until := None, mq_last_error := None, mq_updated_at := now\<rparr>"
  have id: "mq_id row = job" "mq_id q = j" using Some q by (auto dest: get_by_SomeD)
  show ?thesis
  proof (cases "mq_status row = Mail_Dead \<or> mq_status row = Mail_Retry")
    case True
    then have db': "db' = db\<lparr>mail_queue := update_where (\<lambda>q. mq_id q = job) ?f (mail_queue db)\<rparr>"
      using r Some by (auto simp: retry_mail_def)
    have "get_by mq_id j (mail_queue db') = Some (if mq_id q = job then ?f q else q)"
      using q by (simp add: db' get_by_update_where)
    moreover have "row_evolves (Retried job) q (if mq_id q = job then ?f q else q)"
      using True Some q id
      by (cases "mq_id q = job") (auto simp: row_evolves_def same_mail_def)
    ultimately show ?thesis by blast
  next
    case False
    then show ?thesis using r q Some by (auto simp: retry_mail_def intro: row_evolves_refl)
  qed
qed

lemma unchanged_evolves:
  "\<lbrakk> get_by mq_id j (mail_queue db) = Some q; db' = db; \<forall>w. ev \<noteq> Claimed w (mq_id q) \<rbrakk>
   \<Longrightarrow> \<exists>q'. get_by mq_id j (mail_queue db') = Some q' \<and> row_evolves ev q q'"
  by (auto intro: row_evolves_refl)

lemma quiet_update:
  assumes "mail_ok db" "get_by mq_id j (mail_queue db) = Some q" "\<forall>w. ev \<noteq> Claimed w j"
    and f: "keeps_rows P f" "\<And>q. same_mail q (f q)" "\<And>q. mq_attempts (f q) = mq_attempts q"
      "\<And>q. mq_lease_owner (f q) = mq_lease_owner q" "\<And>q. P q \<Longrightarrow> mq_status q = Mail_Sent \<Longrightarrow> mq_status (f q) = Mail_Sent"
  shows "\<exists>q'. get_by mq_id j (mail_queue (db\<lparr>mail_queue := update_where P f (mail_queue db)\<rparr>)) = Some q'
    \<and> row_evolves ev q q'"
proof -
  have k: "\<And>r. mq_id (f r) = mq_id r" using f(1) by (simp add: keeps_rows_def)
  have "mq_id q = j" using assms(2) by (auto dest: get_by_SomeD)
  then have "row_evolves ev q (if P q then f q else q)"
    using f(2-) assms(3) by (intro quiet_evolves) simp_all
  then show ?thesis using assms(2) k by (simp add: get_by_update_where)
qed

lemma quiet_fields [simp]:
  "same_mail q (q\<lparr>mq_verp_token := t, mq_envelope_sender := s\<rparr>)"
  "same_mail q (q\<lparr>mq_dsn_status := t, mq_dsn_enhanced_code := s\<rparr>)"
  "same_mail q (q\<lparr>mq_status := st, mq_updated_at := now, mq_last_error := None\<rparr>)"
  by (simp_all add: same_mail_def)

lemma apply_dsn_db:
  "snd (apply_dsn token status enhanced db) = db
   \<or> snd (apply_dsn token status enhanced db) = db\<lparr>mail_queue := update_where (\<lambda>q. mq_verp_token q = Some token)
        (\<lambda>q. q\<lparr>mq_dsn_status := Some status, mq_dsn_enhanced_code := enhanced\<rparr>) (mail_queue db)\<rparr>"
  unfolding apply_dsn_def by (simp only: if_distrib [of snd] snd_conv split: if_split) blast

lemma step_evolves:
  assumes "mail_step env db ev db'" "mail_ok db" "get_by mq_id j (mail_queue db) = Some q"
  shows "\<exists>q'. get_by mq_id j (mail_queue db') = Some q' \<and> row_evolves ev q q'"
  using assms(1)
proof (cases rule: mail_step.cases)
  case (step_enqueue row_id now ms owns fresh r i)
  from step_enqueue(3) show ?thesis
  proof (cases rule: enqueue_cases)
    case (refused existing)
    then show ?thesis using assms(3) step_enqueue(1) by (intro unchanged_evolves) auto
  next
    case (queued recipient key)
    then have "get_by mq_id j (mail_queue db') = Some q" using assms(3) by (simp add: get_by_add_row)
    then show ?thesis using step_enqueue(1) by (auto intro: row_evolves_refl)
  qed
next
  case (step_claim worker now p)
  then show ?thesis using claim_evolves [OF assms(2,3), of worker now "Some p" db' ev] by simp
next
  case (step_idle worker now)
  then show ?thesis using claim_evolves [OF assms(2,3), of worker now None db' ev] by simp
next
  case (step_sent worker job now)
  then show ?thesis using settle_evolves [OF assms(2,3), of worker job "mark_sent now"]
    by (simp add: finalize_sent_def)
next
  case (step_failed worker payload now jitter e)
  then show ?thesis
    using settle_evolves [OF assms(2,3), of worker "mq_id payload" "mark_failed now jitter payload e"]
    by (simp add: finalize_failed_def)
next
  case (step_verp idna token domain job)
  show ?thesis
  proof (cases "snd (assign_verp idna token domain job db) = db")
    case True
    then show ?thesis using step_verp assms(3) by (intro unchanged_evolves) auto
  next
    case False
    then obtain t s where "db' = db\<lparr>mail_queue := update_where (\<lambda>q. mq_id q = job)
        (\<lambda>q. q\<lparr>mq_verp_token := t, mq_envelope_sender := s\<rparr>) (mail_queue db)\<rparr>"
      using step_verp by (auto simp: assign_verp_def Let_def split: option.splits sum.splits)
    then show ?thesis unfolding step_verp(1)
      using quiet_update [OF assms(2,3) _ keeps_verp(1) [of "\<lambda>q. mq_id q = job" s t], of Other_event] by simp
  qed
next
  case (step_retry now job ok)
  then show ?thesis using retry_evolves [OF assms(2,3)] by blast
next
  case (step_cancel now job)
  have "\<exists>q'. get_by mq_id j (mail_queue (snd (cancel_mail now job db))) = Some q' \<and> row_evolves Other_event q q'"
    unfolding cancel_mail_def snd_conv
    using quiet_update [OF assms(2,3) _ keeps_cancel [of job now], of Other_event] by (simp add: cancellable_def)
  then show ?thesis using step_cancel by simp
next
  case (step_dsn token status enhanced)
  from apply_dsn_db [of token status enhanced db] show ?thesis
  proof
    assume "snd (apply_dsn token status enhanced db) = db"
    then show ?thesis using step_dsn assms(3) by (intro unchanged_evolves) simp_all
  next
    assume d: "snd (apply_dsn token status enhanced db) = db\<lparr>mail_queue := update_where (\<lambda>q. mq_verp_token q = Some token)
        (\<lambda>q. q\<lparr>mq_dsn_status := Some status, mq_dsn_enhanced_code := enhanced\<rparr>) (mail_queue db)\<rparr>"
    show ?thesis unfolding step_dsn d
      using quiet_update [OF assms(2,3) _ keeps_verp(2) [of "\<lambda>q. mq_verp_token q = Some token"
        enhanced "Some status"], of Other_event] by simp
  qed
qed

inductive_cases trace_nilE: "mail_trace env db [] db'"
inductive_cases trace_consE: "mail_trace env db (ev # evs) db'"

lemma mail_ok_trace: "mail_trace env db evs db' \<Longrightarrow> mail_ok db \<Longrightarrow> mail_ok db'"
  by (induction rule: mail_trace.induct) (blast intro: mail_ok_step)+

lemma claims_of_simps [simp]:
  "claims_of j [] = 0"
  "claims_of j (ev # evs) = (case ev of Claimed _ i \<Rightarrow> (if i = j then 1 else 0) | _ \<Rightarrow> 0) + claims_of j evs"
  by (simp_all add: claims_of_def split: mail_event.splits)

text \<open>A row of the queue is never lost, and a relation closed under the steps holds along a trace.\<close>

lemma trace_row:
  assumes "mail_trace env db evs db'" "mail_ok db" "get_by mq_id j (mail_queue db) = Some q"
    and refl: "\<And>q. R [] q q"
    and step: "\<And>ev evs a b c. \<lbrakk> mq_id a = j; row_evolves ev a b; mq_id b = j; R evs b c \<rbrakk> \<Longrightarrow> R (ev # evs) a c"
  shows "\<exists>q'. get_by mq_id j (mail_queue db') = Some q' \<and> R evs q q'"
  using assms(1-3)
proof (induction arbitrary: q rule: mail_trace.induct)
  case (trace_nil db)
  then show ?case using refl by blast
next
  case (trace_cons db ev db1 evs db2)
  obtain q1 where q1: "get_by mq_id j (mail_queue db1) = Some q1" "row_evolves ev q q1"
    using step_evolves [OF trace_cons.hyps(1) trace_cons.prems] by blast
  then obtain q' where q': "get_by mq_id j (mail_queue db2) = Some q'" "R evs q1 q'"
    using trace_cons.IH mail_ok_step [OF trace_cons.hyps(1) trace_cons.prems(1)] by blast
  have "mq_id q = j" "mq_id q1 = j" using q1(1) trace_cons.prems(2) by (auto dest: get_by_SomeD)
  then show ?case using q' q1(2) step by blast
qed

text \<open>The attempts of a message that no operator retries are the claims of it.\<close>

lemma trace_attempts:
  assumes "mail_trace env db evs db'" "mail_ok db" "get_by mq_id j (mail_queue db) = Some q"
    "Retried j \<notin> set evs"
  shows "\<exists>q'. get_by mq_id j (mail_queue db') = Some q' \<and> mq_max_attempts q' = mq_max_attempts q
    \<and> mq_attempts q' = mq_attempts q + int (claims_of j evs)"
proof -
  let ?R = "\<lambda>evs a b. mq_max_attempts b = mq_max_attempts a
    \<and> (Retried j \<notin> set evs \<longrightarrow> mq_attempts b = mq_attempts a + int (claims_of j evs))"
  have "\<exists>q'. get_by mq_id j (mail_queue db') = Some q' \<and> ?R evs q q'"
    by (rule trace_row [OF assms(1-3)])
      (auto simp: row_evolves_def same_mail_def split: mail_event.splits)
  then show ?thesis using assms(4) by blast
qed

lemma trace_sent:
  assumes "mail_trace env db evs db'" "mail_ok db" "get_by mq_id j (mail_queue db) = Some q"
    "mq_status q = Mail_Sent"
  shows "\<exists>q'. get_by mq_id j (mail_queue db') = Some q' \<and> mq_status q' = Mail_Sent \<and> claims_of j evs = 0"
proof -
  let ?R = "\<lambda>evs a b. mq_status a = Mail_Sent \<longrightarrow> mq_status b = Mail_Sent \<and> claims_of j evs = 0"
  have "\<exists>q'. get_by mq_id j (mail_queue db') = Some q' \<and> ?R evs q q'"
    by (rule trace_row [OF assms(1-3)]) (auto simp: row_evolves_def split: mail_event.splits)
  then show ?thesis using assms(4) by blast
qed

lemma row_not_owner:
  "\<lbrakk> row_evolves ev a b; ev \<noteq> Claimed w (mq_id a); mq_lease_owner a \<noteq> Some w \<rbrakk> \<Longrightarrow> mq_lease_owner b \<noteq> Some w"
  unfolding row_evolves_def by blast

lemma trace_not_owner:
  assumes "mail_trace env db evs db'" "mail_ok db" "get_by mq_id j (mail_queue db) = Some q"
    "mq_lease_owner q \<noteq> Some w" "Claimed w j \<notin> set evs"
  shows "\<exists>q'. get_by mq_id j (mail_queue db') = Some q' \<and> mq_lease_owner q' \<noteq> Some w"
proof -
  let ?R = "\<lambda>evs a b. Claimed w j \<notin> set evs \<longrightarrow> mq_lease_owner a \<noteq> Some w \<longrightarrow> mq_lease_owner b \<noteq> Some w"
  have "\<exists>q'. get_by mq_id j (mail_queue db') = Some q' \<and> ?R evs q q'"
  proof (rule trace_row [OF assms(1-3)], goal_cases)
    case (2 ev evs a b c)
    then show ?case using row_not_owner [of ev a b w] by auto
  qed simp
  then show ?thesis using assms(4,5) by blast
qed

lemma trace_key:
  assumes "mail_trace env db evs db'" "mail_ok db" "get_by mq_id j (mail_queue db) = Some q"
  shows "\<exists>q'. get_by mq_id j (mail_queue db') = Some q' \<and> mq_idempotency_key q' = mq_idempotency_key q"
  by (rule trace_row [OF assms, of "\<lambda>_ a b. mq_idempotency_key b = mq_idempotency_key a"])
    (auto simp: row_evolves_def same_mail_def)

lemma claim_step_owner:
  assumes "mail_step env db (Claimed w j) db'" "mail_ok db"
  shows "\<exists>q. get_by mq_id j (mail_queue db') = Some q \<and> mq_lease_owner q = Some w"
  using assms(1)
proof (cases rule: mail_step.cases)
  case (step_claim now q)
  from assms(2) show ?thesis
  proof (cases rule: claim_one_cases [of db now w])
    case none
    then show ?thesis using step_claim by auto
  next
    case (some c)
    then have "q = lease w now c" "db' = take_lease w now (mq_id c) (expire now db)" "j = mq_id c"
      using step_claim by auto
    moreover have "get_by mq_id (mq_id c) (mail_queue (expire now db)) = Some c"
      using some(1) mail_ok_expire [OF assms(2)] by (intro get_by_unique) (simp_all add: mail_ok_def)
    ultimately show ?thesis using some(2) by (simp add: get_take_lease lease_def)
  qed
qed

lemma held_by_nobody:
  assumes "mail_ok db" "get_by mq_id j (mail_queue db) = Some q" "mq_lease_owner q \<noteq> Some w"
  shows "update_where (held_by w j) f (mail_queue db) = mail_queue db"
proof (rule update_where_none, rule ballI, rule notI)
  fix r assume r: "r \<in> set (mail_queue db)" "held_by w j r"
  then have "get_by mq_id j (mail_queue db) = Some r"
    using assms(1) get_by_unique [of mq_id "mail_queue db" r] by (auto simp: mail_ok_def held_by_def)
  then show False using assms(2,3) r(2) by (simp add: held_by_def)
qed

subsection \<open>What is put into the queue\<close>

definition clean_mail :: "mail_item \<Rightarrow> bool" where
  "clean_mail q \<longleftrightarrow> matches_address (mq_recipient q)
     \<and> list_all (\<lambda>v. \<not> has_control v) (mq_recipient q # mq_subject q # mq_visible_to q @ mq_visible_cc q)
     \<and> list_all (\<lambda>(name, v). lower name \<notin> set PROTECTED_HEADERS \<and> \<not> has_control name \<and> \<not> has_control v)
         (mq_headers q)"

lemma has_control_subset: "set s \<subseteq> set t \<Longrightarrow> \<not> has_control t \<Longrightarrow> \<not> has_control s"
  by (auto simp: has_control_def list_ex_iff)

lemma set_strip: "set (strip s) \<subseteq> set s"
proof -
  have d: "set (dropWhile is_space xs) \<subseteq> set xs" for xs by (auto dest: set_dropWhileD)
  show ?thesis
    using d [of s] d [of "rev (dropWhile is_space s)"] by (auto simp: strip_def rstrip_def lstrip_def)
qed

lemma validate_header_value_Inr: "validate_header_value v = Inr x \<longleftrightarrow> x = v \<and> \<not> has_control v \<and> length v \<le> 998"
  by (auto simp: validate_header_value_def)

lemma validate_address_InrD:
  "validate_address v = Inr x \<Longrightarrow> matches_address x \<and> \<not> has_control x \<and> \<not> has_control v"
  using has_control_subset [OF set_strip]
  by (auto simp: validate_address_def validate_header_value_Inr split: sum.splits if_splits)

lemma validate_all_Inr: "validate_all f xs = Inr () \<longleftrightarrow> list_all (\<lambda>x. \<not> isl (f x)) xs"
  by (induction xs) (auto split: sum.splits)

lemma name_char_no_control:
  "is_lower_alpha c \<or> is_upper_alpha c \<or> is_digit c \<Longrightarrow> \<not> control_char c" "\<not> control_char (CHR ''-'')"
  by (auto simp: control_char_def is_lower_alpha_def is_upper_alpha_def is_digit_def Let_def)

lemma header_name_no_control:
  assumes "header_name_ok name"
  shows "\<not> has_control name"
proof -
  have "\<not> control_char c" if "c \<in> set name" for c
  proof (cases "c = CHR ''-''")
    case False
    then have "is_lower_alpha c \<or> is_upper_alpha c \<or> is_digit c"
      using assms that unfolding header_name_ok_def Let_def list_all_iff by simp
    then show ?thesis by (rule name_char_no_control)
  qed (simp add: name_char_no_control)
  then show ?thesis by (auto simp: has_control_def list_ex_iff)
qed

lemma validate_header_Inr:
  "\<not> isl (validate_header (name, v)) \<Longrightarrow>
     lower name \<notin> set PROTECTED_HEADERS \<and> \<not> has_control name \<and> \<not> has_control v"
  using header_name_no_control
  by (auto simp: validate_header_def validate_header_value_def split: if_splits)

lemma not_isl_address: "\<not> isl (validate_address v) \<Longrightarrow> \<not> has_control v"
  using validate_address_InrD by (cases "validate_address v") auto

lemma check_request_Inr:
  assumes "check_request r = Inr recipient"
  shows "matches_address recipient" "\<not> has_control recipient" "\<not> has_control (mr_subject r)"
    "list_all (\<lambda>v. \<not> has_control v) (case mr_visible_to r of None \<Rightarrow> [] | Some xs \<Rightarrow> xs)"
    "list_all (\<lambda>v. \<not> has_control v) (case mr_visible_cc r of None \<Rightarrow> [] | Some xs \<Rightarrow> xs)"
    "list_all (\<lambda>h. \<not> isl (validate_header h)) (mr_headers r)"
proof -
  have 1: "validate_address (mr_to r) = Inr recipient" "\<not> has_control (mr_subject r)"
    "validate_all validate_address
       (concat (map (\<lambda>x. case x of None \<Rightarrow> [] | Some xs \<Rightarrow> xs) [mr_visible_to r, mr_visible_cc r])
        @ (if truthy_str (mr_sender r) then [or_empty (mr_sender r)] else [])) = Inr ()"
    "validate_all validate_header (mr_headers r) = Inr ()"
    using assms unfolding check_request_def
    by (simp_all add: validate_header_value_Inr split: sum.splits if_splits)
  show "matches_address recipient" "\<not> has_control recipient" using validate_address_InrD [OF 1(1)] by blast+
  show "\<not> has_control (mr_subject r)" by (rule 1(2))
  show "list_all (\<lambda>h. \<not> isl (validate_header h)) (mr_headers r)" using 1(4) by (simp add: validate_all_Inr)
  show "list_all (\<lambda>v. \<not> has_control v) (case mr_visible_to r of None \<Rightarrow> [] | Some xs \<Rightarrow> xs)"
    "list_all (\<lambda>v. \<not> has_control v) (case mr_visible_cc r of None \<Rightarrow> [] | Some xs \<Rightarrow> xs)"
    using 1(3) not_isl_address unfolding validate_all_Inr by (auto simp: list_all_iff)
qed

lemma new_entry_clean:
  assumes "check_request r = Inr recipient"
  shows "clean_mail (new_entry env now ms row_id key recipient r)"
proof -
  note c = check_request_Inr [OF assms]
  have "list_all (\<lambda>(name, v). lower name \<notin> set PROTECTED_HEADERS \<and> \<not> has_control name \<and> \<not> has_control v) (mr_headers r)"
    using c(6) validate_header_Inr by (auto simp: list_all_iff)
  then show ?thesis using c(1-5)
    by (auto simp: clean_mail_def new_entry_def list_all_iff split: option.splits)
qed

lemma clean_same_mail: "same_mail q q' \<Longrightarrow> clean_mail q' = clean_mail q"
  by (simp add: same_mail_def clean_mail_def)

lemma ids_update: "keeps_rows P f \<Longrightarrow> mq_id ` set (update_where P f rs) = mq_id ` set rs"
  by (rule keys_image_update_where) (simp add: keeps_rows_def)

lemma retry_queue:
  "mq_id ` set (mail_queue (snd (retry_mail now job db))) = mq_id ` set (mail_queue db)"
proof -
  have "mq_id ` set (update_where P (\<lambda>q. q\<lparr>mq_status := Mail_Pending, mq_attempts := 0,
      mq_next_attempt_at := None, mq_lease_owner := None, mq_lease_until := None, mq_last_error := None,
      mq_updated_at := now\<rparr>) rs) = mq_id ` set rs" for P and rs :: "mail_item list"
    by (rule keys_image_update_where) simp
  then show ?thesis by (simp add: retry_mail_def split: option.split)
qed

lemma verp_queue:
  "mq_id ` set (mail_queue (snd (assign_verp idna token domain job db))) = mq_id ` set (mail_queue db)"
  by (simp add: assign_verp_def Let_def ids_update split: option.split sum.split)

lemma claim_queue:
  assumes "mail_ok db"
  shows "mq_id ` set (mail_queue (snd (claim_one w now db))) = mq_id ` set (mail_queue db)"
proof -
  have "mq_id ` set (mail_queue (expire now db)) = mq_id ` set (mail_queue db)"
    "\<And>j db. mq_id ` set (mail_queue (take_lease w now j db)) = mq_id ` set (mail_queue db)"
    by (simp_all add: expire_def take_lease_def keys_image_update_where)
  with assms show ?thesis by (cases rule: claim_one_cases [of db now w]) simp_all
qed

lemma dsn_queue:
  "mq_id ` set (mail_queue (snd (apply_dsn token status enhanced db))) = mq_id ` set (mail_queue db)"
  using apply_dsn_db [of token status enhanced db] by (elim disjE) (simp_all add: ids_update)

lemma step_new_row:
  assumes "mail_step env db ev db'" "mail_ok db" "q \<in> set (mail_queue db')"
  shows "mq_id q \<in> mq_id ` set (mail_queue db) \<or> clean_mail q"
  using assms(1)
proof (cases rule: mail_step.cases)
  case (step_enqueue row_id now ms owns fresh r i)
  from step_enqueue(3) show ?thesis
  proof (cases rule: enqueue_cases)
    case (refused existing)
    then show ?thesis using assms(3) by simp
  next
    case (queued recipient key)
    then show ?thesis using assms(3) new_entry_clean by (auto simp: set_add_row)
  qed
next
  case (step_claim worker now p)
  then show ?thesis using claim_queue [OF assms(2), of worker now] assms(3) by auto
next
  case (step_idle worker now)
  then show ?thesis using claim_queue [OF assms(2), of worker now] assms(3) by auto
next
  case (step_sent worker job now)
  then show ?thesis using assms(3) ids_update [OF keeps_settled(1), of worker job now "mail_queue db"]
    by (simp add: finalize_sent_def) blast
next
  case (step_failed worker payload now jitter e)
  then show ?thesis
    using assms(3) ids_update [OF keeps_settled(2), of worker "mq_id payload" now jitter payload e "mail_queue db"]
    by (simp add: finalize_failed_def) blast
next
  case (step_verp idna token domain job)
  then show ?thesis using assms(3) verp_queue [of idna token domain job db] by blast
next
  case (step_retry now job ok)
  then show ?thesis using assms(3) retry_queue [of now job db] by auto
next
  case (step_cancel now job)
  then show ?thesis using assms(3) ids_update [OF keeps_cancel, of job now "mail_queue db"]
    by (simp add: cancel_mail_def) blast
next
  case (step_dsn token status enhanced)
  then show ?thesis using assms(3) dsn_queue [of token status enhanced db] by blast
qed

lemma clean_step:
  assumes s: "mail_step env db ev db'" and ok: "mail_ok db" and c: "list_all clean_mail (mail_queue db)"
  shows "list_all clean_mail (mail_queue db')"
  unfolding list_all_iff
proof
  fix q' assume q': "q' \<in> set (mail_queue db')"
  show "clean_mail q'"
  proof (cases "mq_id q' \<in> mq_id ` set (mail_queue db)")
    case True
    then obtain q where q: "q \<in> set (mail_queue db)" "mq_id q = mq_id q'" by auto
    then have "get_by mq_id (mq_id q') (mail_queue db) = Some q"
      using ok get_by_unique [of mq_id _ q] by (simp add: mail_ok_def)
    moreover have "get_by mq_id (mq_id q') (mail_queue db') = Some q'"
      using q' mail_ok_step [OF s ok] by (intro get_by_unique) (simp_all add: mail_ok_def)
    ultimately have "same_mail q q'"
      using step_evolves [OF s ok] by (fastforce simp: row_evolves_def)
    then show ?thesis using c q(1) by (simp add: clean_same_mail list_all_iff)
  next
    case False
    then show ?thesis using step_new_row [OF s ok q'] by blast
  qed
qed

subsection \<open>Draining\<close>

abbreviation due :: "time \<Rightarrow> db \<Rightarrow> nat" where
  "due now db \<equiv> rowcount (claimable now) (mail_queue db)"

text \<open>A round at the instant \<open>now\<close>, which a failure moves to a later one.\<close>

definition prompt :: "time \<Rightarrow> send_run \<Rightarrow> bool" where
  "prompt now run \<longleftrightarrow> sr_claimed_at run = now \<and> now \<le> sr_done_at run
     \<and> (\<forall>d. 30 \<le> d \<longrightarrow> 0 < sr_jitter run d)"

lemma base_delay_ge: "30 \<le> base_delay n"
proof -
  have "(1::int) \<le> 2 ^ nat (max 0 (n - 1))" by simp
  then show ?thesis unfolding base_delay_def by simp
qed

lemma claimable_after [simp]:
  "\<not> claimable now (mark_sent t q)" "\<not> claimable now (terminalize t q)"
  "\<not> claimable now (lease w now q)"
  by (auto simp: claimable_def ready_def lease_over_def row_defs LEASE_SECONDS_def seconds_def)

lemma failed_not_claimable:
  assumes "prompt now run"
  shows "\<not> claimable now (mark_failed (sr_done_at run) (sr_jitter run) payload e q)"
proof -
  have "0 < sr_jitter run (base_delay (mq_attempts payload))"
    using assms base_delay_ge by (simp add: prompt_def)
  then have "now < sr_done_at run + seconds (sr_jitter run (base_delay (mq_attempts payload)))"
    using assms by (simp add: prompt_def seconds_def)
  then show ?thesis
    by (auto simp: claimable_def ready_def lease_over_def mark_failed_def Let_def)
qed

lemma due_verp: "due now (snd (assign_verp idna token domain job db)) = due now db"
proof -
  have "rowcount (claimable now) (update_where P (\<lambda>q. q\<lparr>mq_verp_token := t, mq_envelope_sender := s\<rparr>) rs)
      = rowcount (claimable now) rs" for P t s and rs :: "mail_item list"
    by (induction rs) (simp_all add: rowcount_def update_where_def claimable_def ready_def lease_over_def)
  then show ?thesis by (simp add: assign_verp_def Let_def split: option.split sum.split)
qed

lemma due_attempt_send: "due now (snd (attempt_send run payload db)) = due now db"
proof (cases "sr_lookup run = None \<and> sr_enabled run
    \<and> \<not> truthy_str (mq_envelope_sender payload) \<and> sr_envelope_domain run \<noteq> []")
  case True
  let ?v = "assign_verp (sr_idna run) (sr_new_token run) (sr_envelope_domain run) (mq_id payload) db"
  have "snd (attempt_send run payload db) = snd ?v"
    using True by (cases ?v; cases "fst ?v") (auto simp: attempt_send_def split: option.split)
  then show ?thesis by (simp add: due_verp)
next
  case False
  then have "snd (attempt_send run payload db) = db"
    by (auto simp: attempt_send_def split: option.split)
  then show ?thesis by simp
qed

lemma due_deliver:
  assumes "prompt now run"
  shows "due now (snd (deliver_claimed worker run payload db)) \<le> due now db"
proof -
  let ?s = "snd (attempt_send run payload db)"
  have "due now (snd (deliver_claimed worker run payload db)) \<le> due now ?s"
  proof (cases "fst (attempt_send run payload db)")
    case (Inl e)
    then have "snd (deliver_claimed worker run payload db)
        = finalize_failed worker (sr_done_at run) (sr_jitter run) payload e ?s"
      by (cases "attempt_send run payload db") (simp add: deliver_claimed_def)
    then show ?thesis
      by (simp add: finalize_failed_def) (rule rowcount_update_le, simp add: failed_not_claimable [OF assms])
  next
    case (Inr u)
    then have "snd (deliver_claimed worker run payload db)
        = finalize_sent worker (sr_done_at run) (mq_id payload) ?s"
      by (cases "attempt_send run payload db") (simp add: deliver_claimed_def)
    then show ?thesis by (simp add: finalize_sent_def) (rule rowcount_update_le, simp)
  qed
  then show ?thesis by (simp add: due_attempt_send)
qed

lemma mail_ok_deliver:
  assumes "mail_ok db"
  shows "mail_ok (snd (deliver_claimed worker run payload db))"
proof -
  have "mail_ok (snd (attempt_send run payload db))"
  proof (cases "snd (attempt_send run payload db) = db")
    case False
    let ?v = "assign_verp (sr_idna run) (sr_new_token run) (sr_envelope_domain run) (mq_id payload) db"
    have "snd (attempt_send run payload db) = snd ?v"
      using False by (cases ?v; cases "fst ?v") (auto simp: attempt_send_def split: option.splits if_splits)
    moreover have "mail_step undefined db Other_event (snd ?v)" by (rule step_verp)
    ultimately show ?thesis using mail_ok_step assms by metis
  qed (use assms in simp)
  then have "mail_ok (finalize_failed worker t jitter payload e (snd (attempt_send run payload db)))"
    "mail_ok (finalize_sent worker t job (snd (attempt_send run payload db)))" for t jitter e job
    by (simp_all add: finalize_failed_def finalize_sent_def mail_ok_update)
  then show ?thesis by (cases "attempt_send run payload db"; cases "fst (attempt_send run payload db)")
      (auto simp: deliver_claimed_def)
qed

lemma due_expire: "due now (expire now db) \<le> due now db"
  unfolding expire_def by (simp, rule rowcount_update_le) simp

lemma drain:
  assumes "mail_ok db" "list_all (prompt now) runs" "due now db \<le> length runs"
  shows "due now (snd (process_queue_locked worker runs db)) = 0"
  using assms
proof (induction runs arbitrary: db)
  case Nil
  then show ?case by simp
next
  case (Cons run runs)
  from Cons.prems(1) show ?case
  proof (cases rule: claim_one_cases [of db now worker])
    case none
    have "due now (expire now db) = 0" using none(1) by (simp add: rowcount_def)
    then show ?thesis using none(2) Cons.prems(2) by (simp add: prompt_def)
  next
    case (some c)
    let ?db1 = "take_lease worker now (mq_id c) (expire now db)"
    let ?db2 = "snd (deliver_claimed worker run (lease worker now c) ?db1)"
    have "due now ?db1 < due now (expire now db)"
      unfolding take_lease_def by (simp, rule rowcount_update_less [of c]) (use some in simp_all)
    then have "due now ?db2 \<le> length runs"
      using due_deliver [of now run worker "lease worker now c" ?db1] due_expire [of now db] Cons.prems(2,3)
      by simp
    moreover have "mail_ok ?db2"
      using Cons.prems(1) by (intro mail_ok_deliver mail_ok_take_lease mail_ok_expire)
    ultimately have "due now (snd (process_queue_locked worker runs ?db2)) = 0"
      using Cons.IH Cons.prems(2) by simp
    then show ?thesis using some(4) Cons.prems(2) by (simp add: prompt_def case_prod_beta Let_def)
  qed
qed

subsection \<open>Leases in time\<close>

text \<open>
  A history of the queue in the order of the clock: the claims of the workers with their
  instants and what they got, and between them any other transaction.
\<close>

datatype clock_event =
    Claims time string "string option"
  | Between mail_event

inductive mail_history :: "mail_env \<Rightarrow> time \<Rightarrow> db \<Rightarrow> clock_event list \<Rightarrow> db \<Rightarrow> bool" for env where
  history_nil: "mail_history env t db [] db"
| history_claim: "\<lbrakk> t \<le> now; mail_claim worker now db = (r, db1); mail_history env now db1 evs db2 \<rbrakk>
    \<Longrightarrow> mail_history env t db (Claims now worker r # evs) db2"
| history_step: "\<lbrakk> mail_step env db ev db1; ev \<noteq> Idle; \<forall>w j. ev \<noteq> Claimed w j; mail_history env t db1 evs db2 \<rbrakk>
    \<Longrightarrow> mail_history env t db (Between ev # evs) db2"

inductive_cases history_claimE: "mail_history env t db (Claims now worker r # evs) db'"

lemma history_append:
  "\<lbrakk> mail_history env t db (xs @ ys) db'; mail_ok db \<rbrakk> \<Longrightarrow> \<exists>t1 db1. mail_ok db1 \<and> mail_history env t1 db1 ys db'"
proof (induction xs arbitrary: t db)
  case (Cons x xs)
  from Cons.prems(1) have "mail_history env t db (x # (xs @ ys)) db'" by simp
  then show ?case
  proof cases
    case (history_claim now worker r db1)
    then show ?thesis using Cons.IH mailq.claim_inv [OF Cons.prems(2), of worker now] by simp
  next
    case (history_step ev db1)
    then show ?thesis using Cons.IH mail_ok_step [OF history_step(2) Cons.prems(2)] by blast
  qed
qed auto

lemma history_time: "\<lbrakk> mail_history env t db evs db'; Claims t' w r \<in> set evs \<rbrakk> \<Longrightarrow> t \<le> t'"
  by (induction rule: mail_history.induct) auto

lemma mail_holder_update:
  assumes ok: "mail_ok db" and h: "mail_holder db j = Some (w, u)" and k: "keeps_rows P f"
    and f: "\<And>q. \<lbrakk> mq_id q = j; mq_status q = Mail_Leased; mq_lease_owner q = Some w; P q \<rbrakk>
      \<Longrightarrow> mq_lease_owner (f q) = mq_lease_owner q \<and> mq_lease_until (f q) = mq_lease_until q"
  shows "mail_holder (db\<lparr>mail_queue := update_where P f (mail_queue db)\<rparr>) j = Some (w, u)"
proof -
  obtain q where q: "get_by mq_id j (mail_queue db) = Some q" "mq_lease_owner q = Some w" "mq_lease_until q = Some u"
    using h unfolding mail_holder_iff by blast
  have id: "mq_id q = j" "mail_row_ok q" using q(1) ok by (auto dest: get_by_SomeD row_okD)
  then have "mq_status q = Mail_Leased" using q(2) by (simp add: mail_row_ok_def)
  then have "P q \<Longrightarrow> mq_lease_owner (f q) = Some w \<and> mq_lease_until (f q) = Some u" using f id(1) q(2,3) by simp
  moreover have "get_by mq_id j (update_where P f (mail_queue db)) = Some (if P q then f q else q)"
    using q(1) k by (simp add: get_by_update_where keeps_rows_def)
  ultimately show ?thesis using q(2,3) by (simp add: mail_holder_iff)
qed

text \<open>Only its own worker's settlement ends a lease before a claim does.\<close>

lemma step_keeps_holder:
  assumes "mail_step env db ev db'" "mail_ok db" "mail_holder db j = Some (w, u)"
    "ev \<noteq> Settled w j" "ev \<noteq> Idle" "\<forall>w j. ev \<noteq> Claimed w j"
  shows "mail_holder db' j = Some (w, u)"
proof -
  note held = mail_holder_update [OF assms(2,3)]
  have fields: "mail_holder (db\<lparr>mail_queue := update_where P (\<lambda>q. q\<lparr>mq_verp_token := t, mq_envelope_sender := s\<rparr>) (mail_queue db)\<rparr>) j
      = Some (w, u)"
    "mail_holder (db\<lparr>mail_queue := update_where P (\<lambda>q. q\<lparr>mq_dsn_status := t, mq_dsn_enhanced_code := s\<rparr>) (mail_queue db)\<rparr>) j
      = Some (w, u)" for P t s
    by (rule held; simp)+
  show ?thesis using assms(1)
  proof (cases rule: mail_step.cases)
    case (step_enqueue row_id now ms owns fresh r i)
    from step_enqueue(3) show ?thesis
      by (cases rule: enqueue_cases) (use assms(3) in \<open>auto simp: mail_holder_iff get_by_add_row\<close>)
  next
    case (step_sent worker job now)
    then show ?thesis unfolding step_sent(2) finalize_sent_def
      using assms(4) by (intro held) (auto simp: held_by_def)
  next
    case (step_failed worker payload now jitter e)
    then show ?thesis unfolding step_failed(2) finalize_failed_def
      using assms(4) by (intro held) (auto simp: held_by_def)
  next
    case (step_verp idna token domain job)
    have "snd (assign_verp idna token domain job db) = db
        \<or> (\<exists>t s. snd (assign_verp idna token domain job db) = db\<lparr>mail_queue := update_where (\<lambda>q. mq_id q = job)
          (\<lambda>q. q\<lparr>mq_verp_token := t, mq_envelope_sender := s\<rparr>) (mail_queue db)\<rparr>)"
      by (auto simp: assign_verp_def Let_def split: option.splits sum.splits)
    then show ?thesis unfolding step_verp(2) using assms(3) by (elim disjE exE) (simp_all only: fields)
  next
    case (step_retry now job ok)
    show ?thesis
    proof (cases "db' = db")
      case False
      then obtain row where row: "get_by mq_id job (mail_queue db) = Some row"
          "mq_status row = Mail_Dead \<or> mq_status row = Mail_Retry"
          "db' = db\<lparr>mail_queue := update_where (\<lambda>q. mq_id q = job)
            (\<lambda>q. q\<lparr>mq_status := Mail_Pending, mq_attempts := 0, mq_next_attempt_at := None,
               mq_lease_owner := None, mq_lease_until := None, mq_last_error := None,
               mq_updated_at := now\<rparr>) (mail_queue db)\<rparr>"
        using step_retry(2) by (auto simp: retry_mail_def split: option.splits if_splits)
      obtain q where q: "get_by mq_id j (mail_queue db) = Some q" "mq_lease_owner q = Some w"
        using assms(3) unfolding mail_holder_iff by blast
      have "mail_row_ok q" using q(1) assms(2) by (auto dest: get_by_SomeD row_okD)
      then have "job \<noteq> j" using q row(1,2) by (auto simp: mail_row_ok_def)
      then show ?thesis using assms(3) row(3) by (auto simp: mail_holder_iff get_by_update_where dest: get_by_SomeD)
    qed (use assms(3) in simp)
  next
    case (step_cancel now job)
    then show ?thesis unfolding step_cancel(2) cancel_mail_def snd_conv
      by (intro held) (auto simp: cancellable_def)
  next
    case (step_dsn token status enhanced)
    from apply_dsn_db [of token status enhanced db] show ?thesis
      unfolding step_dsn(2) using assms(3) by (elim disjE) (simp_all only: fields)
  qed (use assms(5,6) in auto)
qed

lemma history_lease:
  "\<lbrakk> mail_history env t db evs db'; mail_ok db; mail_holder db j = Some (w, u);
     evs = ys @ Claims t' w' (Some j) # zs; Between (Settled w j) \<notin> set ys \<rbrakk> \<Longrightarrow> u \<le> t'"
proof (induction arbitrary: ys rule: mail_history.induct)
  case (history_claim t now worker db r db1 evs db2)
  have c: "snd (mail_claim worker now db) = db1" "fst (mail_claim worker now db) = r" using history_claim.hyps by simp_all
  show ?case
  proof (cases "now < u")
    case True
    have "r \<noteq> Some j" using mailq.claim_free [OF history_claim.prems(1) _ history_claim.prems(2)] c True by fastforce
    then obtain ys' where "evs = ys' @ Claims t' w' (Some j) # zs" "set ys' \<subseteq> set ys"
      using history_claim.prems(3) by (cases ys) auto
    then show ?thesis
      using history_claim.IH [of ys'] history_claim.prems(4) mailq.claim_inv [OF history_claim.prems(1), of worker now]
        mailq.claim_frame [OF history_claim.prems(1,2) True, of worker] c by auto
  next
    case False
    have "mail_history env t db (Claims now worker r # evs) db2"
      using history_claim.hyps by (intro mail_history.history_claim)
    have "t' = now \<or> Claims t' w' (Some j) \<in> set evs" using history_claim.prems(3) by (cases ys) auto
    then have "now \<le> t'" using history_time [OF history_claim.hyps(3)] by auto
    then show ?thesis using False by simp
  qed
next
  case (history_step db ev db1 t evs db2)
  then obtain ys' where ys: "ys = Between ev # ys'" "evs = ys' @ Claims t' w' (Some j) # zs" by (cases ys) auto
  have "ev \<noteq> Settled w j" using ys(1) history_step.prems(4) by auto
  then have "mail_holder db1 j = Some (w, u)"
    using step_keeps_holder history_step.hyps(1-3) history_step.prems(1,2) by blast
  then show ?case
    using history_step.IH [of ys'] mail_ok_step [OF history_step.hyps(1) history_step.prems(1)] ys history_step.prems(4) by simp
qed simp

section \<open>Properties\<close>

definition demo_env :: mail_env where
  "demo_env = \<lparr>me_sha256 = (\<lambda>s. ''h:'' @ s), me_casefold = lower, me_domain = ''a.test''\<rparr>"

definition demo_mail :: mail_request where
  "demo_mail = \<lparr>mr_to = '' ada@a.test'', mr_subject = ''Hi'', mr_body_text = ''x'', mr_body_html = None,
     mr_key = Some ''k1'', mr_profile_id = Some ''transactional'', mr_purpose = None, mr_kind = ''to'',
     mr_visible_to = None, mr_visible_cc = None, mr_headers = [(''X-Tag'', ''t'')], mr_sender = None,
     mr_template_id = None, mr_template_locale = None, mr_template_revision = None\<rparr>"

definition demo_key :: string where
  "demo_key = scoped_key demo_env [] (Some ''k1'') None ''ada@a.test''"

definition demo_entry :: "string \<Rightarrow> mail_item" where
  "demo_entry i = new_entry demo_env 0 [] i (if i = ''m1'' then demo_key else i) ''ada@a.test'' demo_mail"

definition demo_queue :: db where
  "demo_queue = empty_db\<lparr>mail_queue := [demo_entry ''m1'', demo_entry ''m2'']\<rparr>"

definition demo_leased :: db where
  "demo_leased = snd (claim_one ''w1'' 0 demo_queue)"

text \<open>The same address, in any case, is one recipient.\<close>

lemma demo_enqueue: "enqueue_mail demo_env 0 [] True ''m1'' ''f'' demo_mail empty_db
    = (Inr ''m1'', empty_db\<lparr>mail_queue := [demo_entry ''m1'']\<rparr>)"
  by code_simp

lemma demo_ok: "mail_ok demo_queue" "mail_ok demo_leased" "mail_ok (empty_db\<lparr>mail_queue := [demo_entry ''m1'']\<rparr>)"
proof -
  show 1: "mail_ok demo_queue"
    by (simp add: mail_ok_def demo_queue_def demo_entry_def unique_key_def demo_key_def scoped_key_def demo_env_def)
  show "mail_ok demo_leased" unfolding demo_leased_def by (rule mail_ok_claim [OF 1])
  show "mail_ok (empty_db\<lparr>mail_queue := [demo_entry ''m1'']\<rparr>)"
    by (simp add: mail_ok_def demo_entry_def unique_key_def)
qed

lemma demo_claim: "claim_one ''w1'' 0 demo_queue = (Some (lease ''w1'' 0 (demo_entry ''m1'')), demo_leased)"
  by code_simp

lemma demo_lease_row: "get_by mq_id ''m1'' (mail_queue demo_leased) = Some (lease ''w1'' 0 (demo_entry ''m1''))"
  by code_simp

text \<open>
  C21. At most one worker has a message at a time. In any history of the queue in the order of
  the clock, with enqueued messages, claims by any workers, settlements, retries and
  cancellations by operators and delivery status reports between them: two claims that
  return the same message are at least a lease of ninety seconds apart, unless the worker of
  the first has settled the message in between.
\<close>

theorem mail_leases_disjoint:
  assumes "mail_ok db" "mail_history env start db (xs @ Claims t w (Some j) # ys @ Claims t' w' (Some j) # zs) db'"
    "Between (Settled w j) \<notin> set ys"
  shows "t + seconds 90 \<le> t'"
proof -
  obtain t1 db1 where h: "mail_ok db1" "mail_history env t1 db1 (Claims t w (Some j) # ys @ Claims t' w' (Some j) # zs) db'"
    using history_append [OF assms(2,1)] by blast
  obtain db2 where c: "mail_claim w t db1 = (Some j, db2)" "mail_history env t db2 (ys @ Claims t' w' (Some j) # zs) db'"
    using h(2) by (rule history_claimE)
  have "mail_holder db2 j = Some (w, t + seconds LEASE_SECONDS)" "mail_ok db2"
    using mailq.claim_holds [OF h(1), of w t j] mailq.claim_inv [OF h(1), of w t] c(1) by simp_all
  from history_lease [OF c(2) this(2,1) refl assms(3)] show ?thesis by (simp add: LEASE_SECONDS_def)
qed

lemma demo_lease_claims:
  "mail_claim ''w1'' 0 demo_queue = (Some ''m1'', demo_leased)"
  "fst (mail_claim ''w2'' (seconds 90) demo_leased) = Some ''m1''"
  by code_simp+

lemma mail_leases_disjoint_witness:
  "fst (mail_claim ''w2'' (seconds 90) demo_leased) = Some ''m1'' \<and> 0 + seconds 90 \<le> seconds 90"
proof (rule conjI [OF demo_lease_claims(2)], rule mail_leases_disjoint [OF demo_ok(1)])
  have again: "mail_claim ''w2'' (seconds 90) demo_leased = (Some ''m1'', snd (mail_claim ''w2'' (seconds 90) demo_leased))"
    by (metis demo_lease_claims(2) prod.collapse)
  have stale: "mail_step demo_env demo_leased (Settled ''w2'' ''m1'') demo_leased"
    using step_sent [of demo_env demo_leased "''w2''" "''m1''" 5]
    by (simp add: finalize_sent_def held_by_nobody [OF demo_ok(2) demo_lease_row] lease_def)
  show "mail_history demo_env 0 demo_queue ([] @ Claims 0 ''w1'' (Some ''m1'') # [Between (Settled ''w2'' ''m1'')]
      @ Claims (seconds 90) ''w2'' (Some ''m1'') # []) (snd (mail_claim ''w2'' (seconds 90) demo_leased))"
    unfolding append.simps
    by (intro history_claim [OF _ demo_lease_claims(1)] history_step [OF stale] history_claim [OF _ again] history_nil)
      (simp_all add: seconds_def)
qed simp

text \<open>
  C22. Delivery attempts are bounded: along any history of the queue in which no operator
  retries a message, it is claimed for sending at most as often as its limit allows,
  counting what it was claimed before.
\<close>

theorem delivery_attempts_bounded:
  assumes "mail_trace env db evs db'" "mail_ok db" "get_by mq_id j (mail_queue db) = Some q"
    "Retried j \<notin> set evs"
  shows "int (claims_of j evs) \<le> mq_max_attempts q - mq_attempts q"
proof -
  obtain q' where q': "get_by mq_id j (mail_queue db') = Some q'" "mq_max_attempts q' = mq_max_attempts q"
    "mq_attempts q' = mq_attempts q + int (claims_of j evs)"
    using trace_attempts [OF assms] by blast
  have "mail_row_ok q'"
    using q'(1) mail_ok_trace [OF assms(1,2)] by (auto dest: get_by_SomeD row_okD)
  then show ?thesis using q' by (simp add: mail_row_ok_def)
qed

lemma delivery_attempts_bounded_witness:
  "int (claims_of ''m1'' [Claimed ''w1'' ''m1'']) \<le> mq_max_attempts (demo_entry ''m1'') - mq_attempts (demo_entry ''m1'')"
proof (rule delivery_attempts_bounded)
  have "mail_step demo_env demo_queue (Claimed ''w1'' (mq_id (lease ''w1'' 0 (demo_entry ''m1'')))) demo_leased"
    using demo_claim by (rule step_claim)
  then show "mail_trace demo_env demo_queue [Claimed ''w1'' ''m1''] demo_leased"
    using trace_cons [OF _ trace_nil] by (simp add: demo_entry_def)
  show "get_by mq_id ''m1'' (mail_queue demo_queue) = Some (demo_entry ''m1'')"
    by (simp add: demo_queue_def demo_entry_def)
qed (simp_all add: demo_ok)

text \<open>
  C20. What SMTP accepted is never sent again: once the worker that holds a message has
  recorded it as sent, no history of the queue, with operators retrying and cancelling and
  other workers claiming and finalizing, changes that status or claims the message again.
\<close>

theorem sent_is_final:
  assumes "mail_ok db" "get_by mq_id j (mail_queue db) = Some q" "mq_lease_owner q = Some w"
    "mail_trace env (finalize_sent w now j db) evs db'"
  shows "claims_of j evs = 0 \<and> map_option mq_status (get_by mq_id j (mail_queue db')) = Some Mail_Sent"
proof -
  have "mq_id q = j" using assms(2) by (auto dest: get_by_SomeD)
  then have "get_by mq_id j (mail_queue (finalize_sent w now j db)) = Some (mark_sent now q)"
    using assms(2,3) by (simp add: finalize_sent_def get_by_update_where held_by_def)
  moreover have "mail_ok (finalize_sent w now j db)"
    using assms(1) by (simp add: finalize_sent_def mail_ok_update)
  moreover have "mq_status (mark_sent now q) = Mail_Sent" by (simp add: mark_sent_def)
  ultimately show ?thesis using trace_sent [OF assms(4)] by fastforce
qed

lemma sent_is_final_witness:
  "claims_of ''m1'' [Retried ''m1''] = 0
   \<and> map_option mq_status (get_by mq_id ''m1'' (mail_queue
       (snd (retry_mail 9 ''m1'' (finalize_sent ''w1'' 5 ''m1'' demo_leased))))) = Some Mail_Sent"
proof (rule sent_is_final [OF demo_ok(2) demo_lease_row])
  show "mail_trace demo_env (finalize_sent ''w1'' 5 ''m1'' demo_leased) [Retried ''m1'']
      (snd (retry_mail 9 ''m1'' (finalize_sent ''w1'' 5 ''m1'' demo_leased)))"
    by (rule trace_cons [OF step_retry trace_nil]) (rule prod.collapse [symmetric])
qed (simp add: lease_def)

text \<open>
  A worker that lost its lease cannot touch the message: after another worker has
  claimed it, and until the first claims it anew, whatever the first reports, success or
  failure, leaves the database as it is.
\<close>

theorem stale_worker_ignored:
  assumes "mail_ok db" "mail_step env db (Claimed w' j) db1" "mail_trace env db1 evs db2"
    "w \<noteq> w'" "Claimed w j \<notin> set evs" "mq_id payload = j"
  shows "finalize_sent w now j db2 = db2 \<and> finalize_failed w now jitter payload e db2 = db2"
proof -
  have ok: "mail_ok db1" using mail_ok_step [OF assms(2,1)] .
  obtain q where q: "get_by mq_id j (mail_queue db1) = Some q" "mq_lease_owner q = Some w'"
    using claim_step_owner [OF assms(2,1)] by blast
  then obtain q' where q': "get_by mq_id j (mail_queue db2) = Some q'" "mq_lease_owner q' \<noteq> Some w"
    using trace_not_owner [OF assms(3) ok q(1), of w] assms(4,5) by auto
  have "update_where (held_by w j) f (mail_queue db2) = mail_queue db2" for f
    using held_by_nobody [OF mail_ok_trace [OF assms(3) ok] q'] .
  then show ?thesis using assms(6) by (simp add: finalize_sent_def finalize_failed_def)
qed

lemma stale_worker_ignored_witness:
  "finalize_sent ''w0'' 7 ''m1'' demo_leased = demo_leased
   \<and> finalize_failed ''w0'' 7 (\<lambda>d. d) (demo_entry ''m1'') value_error demo_leased = demo_leased"
proof (rule stale_worker_ignored [OF demo_ok(1)])
  have "mail_step demo_env demo_queue (Claimed ''w1'' (mq_id (lease ''w1'' 0 (demo_entry ''m1'')))) demo_leased"
    using demo_claim by (rule step_claim)
  then show "mail_step demo_env demo_queue (Claimed ''w1'' ''m1'') demo_leased" by (simp add: demo_entry_def)
  show "mail_trace demo_env demo_leased [] demo_leased" by (rule trace_nil)
qed (simp_all add: demo_entry_def)

text \<open>
  Enqueueing is idempotent under a producer's key: whatever happened to the queue since
  a first call returned the identifier \<open>i\<close>, sent, failed or cancelled, a second call for
  the same recipient, purpose and key that passes validation returns \<open>i\<close> and adds nothing;
  and a call that lost the race after its own look-up either gets \<open>i\<close> or fails as a whole.
\<close>

theorem enqueue_idempotent:
  assumes "mail_ok db" "row_id \<notin> mq_id ` set (mail_queue db)"
    "enqueue_mail env now ms owns row_id fresh r db = (Inr i, db1)" "mail_trace env db1 evs db2"
    "truthy_str (mr_key r)" "mr_key r' = mr_key r" "mr_to r' = mr_to r" "mr_purpose r' = mr_purpose r"
    "check_request r' = Inr recipient"
  shows "enqueue_mail env now' ms' owns' row_id' fresh' r' db2 = (Inr i, db2)
    \<and> insert_entry owns' (new_entry env now' ms' row_id'
         (scoped_key env fresh' (mr_key r') (mr_purpose r') recipient) recipient r') db2
      = (if owns' then Inr i else Inl Integrity_error, db2)"
proof -
  let ?key = "scoped_key env fresh' (mr_key r') (mr_purpose r') recipient"
  have ok: "mail_ok db1" using mail_ok_enqueue [OF assms(1-3)] .
  have recipient: "check_request r = Inr x \<Longrightarrow> x = recipient" for x
    using assms(7,9) unfolding check_request_def by (auto split: sum.splits if_splits)
  have key: "scoped_key env fresh (mr_key r) (mr_purpose r) recipient = ?key"
    using assms(5,6,8) by (simp add: scoped_key_def)
  have "\<exists>q. get_by mq_id i (mail_queue db1) = Some q \<and> mq_idempotency_key q = ?key"
  proof (cases "check_request r")
    case (Inl e)
    then show ?thesis using assms(3) by (simp add: enqueue_mail_def)
  next
    case (Inr x)
    then have x: "check_request r = Inr recipient" using recipient by simp
    then have "\<exists>q \<in> set (mail_queue db1). mq_id q = i \<and> mq_idempotency_key q = ?key"
      using assms(3) key
      by (auto simp: enqueue_mail_def insert_entry_def Let_def set_add_row dest!: get_by_SomeD split: option.splits)
    then show ?thesis using ok by (auto simp: mail_ok_def get_by_iff)
  qed
  then obtain q where "get_by mq_id i (mail_queue db2) = Some q" "mq_idempotency_key q = ?key"
    using trace_key [OF assms(4) ok] by metis
  then have "get_by mq_idempotency_key ?key (mail_queue db2) = Some q" "mq_id q = i"
    using mail_ok_trace [OF assms(4) ok] by (auto simp: mail_ok_def get_by_iff dest: get_by_SomeD)
  then show ?thesis using assms(9) by (simp add: enqueue_mail_def insert_entry_def Let_def)
qed

lemma enqueue_idempotent_witness:
  "enqueue_mail demo_env 8 [] False ''m9'' ''g'' (demo_mail\<lparr>mr_subject := ''Again''\<rparr>)
     (empty_db\<lparr>mail_queue := [demo_entry ''m1'']\<rparr>) = (Inr ''m1'', empty_db\<lparr>mail_queue := [demo_entry ''m1'']\<rparr>)"
  by (rule conjunct1 [OF enqueue_idempotent [OF _ _ demo_enqueue trace_nil, where recipient = "''ada@a.test''"]])
    (simp_all add: mail_ok_def unique_key_def demo_mail_def, code_simp)

text \<open>
  Nothing a producer supplies can inject a header: in every state the queue can reach
  from one that has the property, each message goes to one well-formed address and has no
  carriage return, line feed or NUL in its recipient, visible recipients, subject or header
  fields, and no header field that the transport itself sets.
\<close>

theorem queued_mail_is_clean:
  assumes "mail_trace env db evs db'" "mail_ok db" "list_all clean_mail (mail_queue db)"
  shows "list_all clean_mail (mail_queue db')"
  using assms
proof (induction rule: mail_trace.induct)
  case (trace_cons db ev db1 evs db2)
  then show ?case using mail_ok_step clean_step by blast
qed

lemma queued_mail_is_clean_witness:
  "list_all clean_mail (mail_queue (empty_db\<lparr>mail_queue := [demo_entry ''m1'']\<rparr>))"
proof (rule queued_mail_is_clean [OF trace_cons [OF step_enqueue trace_nil]])
  show "enqueue_mail demo_env 0 [] True ''m1'' ''f'' demo_mail empty_db
    = (Inr ''m1'', empty_db\<lparr>mail_queue := [demo_entry ''m1'']\<rparr>)" by (rule demo_enqueue)
qed (simp_all add: mail_ok_def unique_key_def)

text \<open>
  C23. A batch drains what is due: a worker that holds the process lock and has at least as
  many rounds as there are messages ready at that instant leaves none of them ready; each
  was recorded as sent, ended, or moved to a later instant.
\<close>

theorem batch_drains_queue:
  assumes "mail_ok db" "list_all (prompt now) runs" "rowcount (claimable now) (mail_queue db) \<le> length runs"
  shows "rowcount (claimable now) (mail_queue (snd (process_queue True worker runs db))) = 0"
  using drain [OF assms] by (simp add: process_queue_def)

definition demo_run :: "send_error option \<Rightarrow> send_run" where
  "demo_run res = \<lparr>sr_claimed_at = 0, sr_done_at = 1, sr_lookup = None, sr_enabled = True,
     sr_envelope_domain = [], sr_idna = Some, sr_new_token = [], sr_result = res, sr_jitter = (\<lambda>d. d)\<rparr>"

lemma batch_drains_queue_witness:
  "rowcount (claimable 0) (mail_queue
     (snd (process_queue True ''w1'' [demo_run None, demo_run (Some value_error)] demo_queue))) = 0"
proof (rule batch_drains_queue [OF demo_ok(1)])
  show "list_all (prompt 0) [demo_run None, demo_run (Some value_error)]"
    by (simp add: prompt_def demo_run_def)
  show "rowcount (claimable 0) (mail_queue demo_queue) \<le> length [demo_run None, demo_run (Some value_error)]"
    by (simp add: demo_queue_def rowcount_def le_Suc_eq)
qed

end
