(* ===== verification/Plugins.thy ===== *)
theory Plugins
  imports Contracts "HOL-Library.Multiset"
begin

text \<open>
  Third-party plugins: \<open>plugins/capabilities.py\<close> (which capabilities an instance grants a
  plugin), \<open>plugins/state.py\<close> (which plugins are enabled or were disabled automatically)
  and \<open>plugins/supervisor.py\<close> (when a plugin process is started again), with the parts of
  \<open>plugins/process.py\<close> the supervisor acts on: the guards of \<open>start\<close> and what
  \<open>_watch_exit\<close> records.
\<close>

section \<open>The instance files\<close>

text \<open>
  A TOML file of the instance: the value \<open>tomllib\<close> reads from it, or what it raises. The
  lists the two stores write hold strings without quotation marks, backslashes and control
  characters, which TOML gives back as they are.
\<close>

datatype toml_file = Missing | Undecodable | Toml dict

datatype store_error =
    Invalid_plugin_id
  | Unknown_capability
  | Unsupported_capability
  | Toml_decode_error
  | Attribute_error
  | Type_error

text \<open>The pattern \<open>[a-z0-9]+(?:-[a-z0-9]+)*\<close>.\<close>

definition plugin_id_ok :: "string \<Rightarrow> bool" where
  "plugin_id_ok s \<longleftrightarrow>
     list_all (\<lambda>part. part \<noteq> [] \<and> list_all (\<lambda>c. is_lower_alpha c \<or> is_digit c) part) (split_on (CHR ''-'') s)"

definition strings_of :: "json list \<Rightarrow> string list" where
  "strings_of xs = List.map_filter as_str xs"

definition toml_strings :: "string list \<Rightarrow> json" where
  "toml_strings xs = JList (map JStr (sort (remdups xs)))"

section \<open>Capability grants\<close>

definition CAPABILITIES :: "string list" where
  "CAPABILITIES = [''storage.kv'', ''storage.files'', ''data.content.read'', ''data.comments.read'',
     ''events.subscribe'', ''jobs.schedule'', ''network.http'', ''admin.declarative'', ''mfa_provider'',
     ''auth_provider'', ''importer'', ''exporter'', ''federation_extension'', ''comments_extension'',
     ''mail_backend'']"

definition GRANTABLE_CAPABILITIES :: "string list" where
  "GRANTABLE_CAPABILITIES = [''storage.kv'', ''data.content.read'', ''data.comments.read'',
     ''events.subscribe'', ''jobs.schedule'', ''admin.declarative'']"

text \<open>The table \<open>grants\<close> of the file; \<open>get\<close> raises on anything that is not a table.\<close>

definition read_grants :: "toml_file \<Rightarrow> store_error + dict" where
  "read_grants f = (case f of
     Missing \<Rightarrow> Inr []
   | Undecodable \<Rightarrow> Inl Toml_decode_error
   | Toml d \<Rightarrow> (case dget d ''grants'' (JObj []) of JObj g \<Rightarrow> Inr g | _ \<Rightarrow> Inl Attribute_error))"

definition grants_for :: "string \<Rightarrow> toml_file \<Rightarrow> store_error + string list" where
  "grants_for plugin f =
     (if \<not> plugin_id_ok plugin then Inr []
      else case read_grants f of
        Inl e \<Rightarrow> Inl e
      | Inr g \<Rightarrow> (case dget g plugin (JList []) of
            JList xs \<Rightarrow> Inr (filter (\<lambda>v. v \<in> set GRANTABLE_CAPABILITIES) (strings_of xs))
          | _ \<Rightarrow> Inr []))"

text \<open>
  \<open>set(v)\<close> of a value of the table, whose elements are then sorted and quoted; a list that
  holds anything but strings is refused here.
\<close>

definition grant_values :: "json \<Rightarrow> store_error + string list" where
  "grant_values v = (case v of
     JList xs \<Rightarrow> if list_all (\<lambda>x. as_str x \<noteq> None) xs then Inr (strings_of xs) else Inl Type_error
   | JStr s \<Rightarrow> Inr (map (\<lambda>c. [c]) s)
   | JObj d \<Rightarrow> Inr (map fst d)
   | _ \<Rightarrow> Inl Type_error)"

fun rendered :: "dict \<Rightarrow> store_error + dict" where
  "rendered [] = Inr []"
| "rendered ((k, v) # g) =
     (if \<not> plugin_id_ok k then rendered g
      else case grant_values v of
        Inl e \<Rightarrow> Inl e
      | Inr xs \<Rightarrow> (case rendered g of Inl e \<Rightarrow> Inl e | Inr r \<Rightarrow> Inr ((k, toml_strings xs) # r)))"

definition set_grant :: "string \<Rightarrow> string \<Rightarrow> bool \<Rightarrow> toml_file \<Rightarrow> (store_error + unit) \<times> toml_file" where
  "set_grant plugin cap allowed f =
     (if \<not> plugin_id_ok plugin then (Inl Invalid_plugin_id, f)
      else if cap \<notin> set CAPABILITIES then (Inl Unknown_capability, f)
      else if cap \<notin> set GRANTABLE_CAPABILITIES then (Inl Unsupported_capability, f)
      else case read_grants f of
        Inl e \<Rightarrow> (Inl e, f)
      | Inr g \<Rightarrow>
         (case grant_values (dget g plugin (JList [])) of
            Inl e \<Rightarrow> (Inl e, f)
          | Inr old \<Rightarrow>
              (let new = (if allowed then cap # old else filter (\<lambda>v. v \<noteq> cap) old);
                   g' = (if new \<noteq> [] then dset g plugin (toml_strings new) else dpop g plugin)
               in case rendered (sort_key fst g') of
                    Inl e \<Rightarrow> (Inl e, f)
                  | Inr r \<Rightarrow> (Inr (), Toml [(''grants'', JObj r)]))))"

definition missing_required_grants :: "string \<Rightarrow> string list \<Rightarrow> toml_file \<Rightarrow> store_error + string list" where
  "missing_required_grants plugin required f =
     (case grants_for plugin f of Inl e \<Rightarrow> Inl e | Inr granted \<Rightarrow> Inr (filter (\<lambda>v. v \<notin> set granted) required))"

section \<open>Enablement\<close>

definition state_ids :: "string \<Rightarrow> toml_file \<Rightarrow> string list" where
  "state_ids key f = (case f of
     Toml d \<Rightarrow> (case dget d key (JList []) of JList xs \<Rightarrow> strings_of xs | _ \<Rightarrow> [])
   | _ \<Rightarrow> [])"

definition enabled_ids :: "toml_file \<Rightarrow> string list" where
  "enabled_ids f = state_ids ''enabled'' f"

definition auto_disabled_ids :: "toml_file \<Rightarrow> string list" where
  "auto_disabled_ids f = state_ids ''auto_disabled'' f"

definition state_file :: "string list \<Rightarrow> string list \<Rightarrow> toml_file" where
  "state_file enabled auto_ids = Toml ((''enabled'', toml_strings enabled)
     # (if auto_ids \<noteq> [] then [(''auto_disabled'', toml_strings auto_ids)] else []))"

definition set_enabled :: "string \<Rightarrow> bool \<Rightarrow> toml_file \<Rightarrow> (store_error + unit) \<times> toml_file" where
  "set_enabled plugin enabled f =
     (if \<not> plugin_id_ok plugin then (Inl Invalid_plugin_id, f)
      else (Inr (), state_file
        (if enabled then plugin # enabled_ids f else filter (\<lambda>p. p \<noteq> plugin) (enabled_ids f))
        (if enabled then filter (\<lambda>p. p \<noteq> plugin) (auto_disabled_ids f) else auto_disabled_ids f)))"

definition set_auto_disabled :: "string \<Rightarrow> bool \<Rightarrow> toml_file \<Rightarrow> (store_error + unit) \<times> toml_file" where
  "set_auto_disabled plugin disabled f =
     (if \<not> plugin_id_ok plugin then (Inl Invalid_plugin_id, f)
      else (Inr (), state_file
        (if disabled then filter (\<lambda>p. p \<noteq> plugin) (enabled_ids f) else enabled_ids f)
        (if disabled then plugin # auto_disabled_ids f else filter (\<lambda>p. p \<noteq> plugin) (auto_disabled_ids f))))"

subsection \<open>The grant file as a store\<close>

lemma strings_of_strings [simp]: "strings_of (map JStr xs) = xs"
  by (induction xs) (simp_all add: strings_of_def List.map_filter_simps)

lemma strings_of_Nil [simp]: "strings_of [] = []"
  using strings_of_strings [of "[]"] by simp

definition value_ok :: "json \<Rightarrow> bool" where
  "value_ok v = (case v of JList xs \<Rightarrow> list_all (\<lambda>x. as_str x \<noteq> None) xs | _ \<Rightarrow> False)"

definition table_ok :: "dict \<Rightarrow> bool" where
  "table_ok g \<longleftrightarrow> distinct (map fst g) \<and> list_all (\<lambda>(k, v). value_ok v) g"

definition grants_ok :: "toml_file \<Rightarrow> bool" where
  "grants_ok f = (case read_grants f of Inl _ \<Rightarrow> False | Inr g \<Rightarrow> table_ok g)"

definition values_of :: "json \<Rightarrow> string list" where
  "values_of v = (case v of JList xs \<Rightarrow> strings_of xs | _ \<Rightarrow> [])"

definition granted :: "toml_file \<Rightarrow> string \<Rightarrow> string \<Rightarrow> bool" where
  "granted f k c = (case grants_for k f of Inl _ \<Rightarrow> False | Inr cs \<Rightarrow> c \<in> set cs)"

definition grant_writable :: "string \<Rightarrow> string \<Rightarrow> bool" where
  "grant_writable k c \<longleftrightarrow> plugin_id_ok k \<and> c \<in> set GRANTABLE_CAPABILITIES"

lemma grantable_known: "c \<in> set GRANTABLE_CAPABILITIES \<Longrightarrow> c \<in> set CAPABILITIES"
  by (auto simp: GRANTABLE_CAPABILITIES_def CAPABILITIES_def)

lemma values_of_toml [simp]: "set (values_of (toml_strings xs)) = set xs" "value_ok (toml_strings xs)"
  by (auto simp: values_of_def toml_strings_def value_ok_def list_all_iff)

lemma grant_values_ok: "value_ok v \<Longrightarrow> grant_values v = Inr (values_of v)"
  by (cases v) (simp_all add: value_ok_def grant_values_def values_of_def)

lemma granted_table:
  "read_grants f = Inr g \<Longrightarrow> granted f k c \<longleftrightarrow>
     plugin_id_ok k \<and> c \<in> set GRANTABLE_CAPABILITIES \<and> c \<in> set (values_of (dget g k (JList [])))"
  by (auto simp: granted_def grants_for_def values_of_def split: json.splits)

lemma keys_dset: "fst ` set (dset d k v) = insert k (fst ` set d)"
  by (induction d k v rule: dset.induct) auto

lemma table_ok_dset: "table_ok g \<Longrightarrow> value_ok v \<Longrightarrow> table_ok (dset g k v)"
  by (induction g k v rule: dset.induct) (auto simp: table_ok_def keys_dset)

lemma table_ok_filter: "table_ok g \<Longrightarrow> table_ok (filter P g)"
  by (auto simp: table_ok_def distinct_map_filter_key list_all_iff)

lemma table_ok_dpop: "table_ok g \<Longrightarrow> table_ok (dpop g k)"
  unfolding dpop_def by (rule table_ok_filter)

lemma table_ok_sort: "table_ok g \<Longrightarrow> table_ok (sort_key fst g)"
proof -
  have "mset (map fst (sort_key fst g)) = mset (map fst g)" by simp
  then have "distinct (map fst (sort_key fst g)) = distinct (map fst g)" by (rule mset_eq_imp_distinct_iff)
  then show "table_ok g \<Longrightarrow> ?thesis" by (simp add: table_ok_def list_all_iff)
qed

lemma dget_sort: "table_ok g \<Longrightarrow> dget (sort_key fst g) k = dget g k"
  using table_ok_sort [of g] map_of_inject_set [of "sort_key fst g" g] by (simp add: table_ok_def dget_def fun_eq_iff)

lemma table_ok_value: "table_ok g \<Longrightarrow> value_ok (dget g k (JList []))"
proof (cases "map_of g k")
  case None
  then show ?thesis by (simp add: dget_def value_ok_def)
next
  case (Some v)
  moreover assume "table_ok g"
  ultimately have "value_ok v" using map_of_SomeD [OF Some] by (auto simp: table_ok_def list_all_iff)
  then show ?thesis using Some by (simp add: dget_def)
qed

text \<open>What the writer keeps of a well-formed table: the entries of valid identifiers.\<close>

lemma rendered_ok:
  assumes "table_ok g"
  shows "\<exists>r. rendered g = Inr r \<and> table_ok r \<and>
    (\<forall>k. plugin_id_ok k \<longrightarrow> set (values_of (dget r k (JList []))) = set (values_of (dget g k (JList []))))
    \<and> fst ` set r \<subseteq> fst ` set g"
  using assms
proof (induction g rule: rendered.induct)
  case 1
  then show ?case by (simp add: table_ok_def)
next
  case (2 k v g)
  have g: "table_ok g" and v: "value_ok v" and k: "k \<notin> fst ` set g"
    using "2.prems" by (auto simp: table_ok_def)
  show ?case
  proof (cases "plugin_id_ok k")
    case False
    then obtain r where "rendered g = Inr r" "table_ok r" "fst ` set r \<subseteq> fst ` set g"
      "\<forall>k. plugin_id_ok k \<longrightarrow> set (values_of (dget r k (JList []))) = set (values_of (dget g k (JList [])))"
      using "2.IH"(1) g by blast
    then show ?thesis using False by (intro exI [of _ r]) (auto simp: dget_def)
  next
    case True
    then obtain r where r: "rendered g = Inr r" "table_ok r" "fst ` set r \<subseteq> fst ` set g"
      "\<forall>k. plugin_id_ok k \<longrightarrow> set (values_of (dget r k (JList []))) = set (values_of (dget g k (JList [])))"
      using "2.IH"(2) [OF _ grant_values_ok [OF v]] g by blast
    let ?r = "(k, toml_strings (values_of v)) # r"
    have "rendered ((k, v) # g) = Inr ?r" using True r(1) grant_values_ok [OF v] by simp
    moreover have "table_ok ?r" using r(2,3) k by (auto simp: table_ok_def)
    moreover have "set (values_of (dget ?r j (JList []))) = set (values_of (dget ((k, v) # g) j (JList [])))"
      if "plugin_id_ok j" for j using r(4) that by (simp add: dget_def)
    moreover have "fst ` set ?r \<subseteq> fst ` set ((k, v) # g)" using r(3) by auto
    ultimately show ?thesis by blast
  qed
qed

text \<open>A write on a well-formed file.\<close>

lemma set_grant_table:
  assumes ok: "grants_ok f" and w: "grant_writable k c"
  shows "\<exists>g r. read_grants f = Inr g \<and> set_grant k c b f = (Inr (), Toml [(''grants'', JObj r)]) \<and> table_ok r
    \<and> (\<forall>j. plugin_id_ok j \<longrightarrow> set (values_of (dget r j (JList []))) =
        (if j \<noteq> k then set (values_of (dget g j (JList [])))
         else if b then insert c (set (values_of (dget g j (JList []))))
         else set (values_of (dget g j (JList []))) - {c}))"
proof -
  obtain g where g: "read_grants f = Inr g" "table_ok g"
    using ok by (auto simp: grants_ok_def split: sum.splits)
  let ?old = "values_of (dget g k (JList []))"
  let ?new = "if b then c # ?old else filter (\<lambda>v. v \<noteq> c) ?old"
  let ?g' = "if ?new \<noteq> [] then dset g k (toml_strings ?new) else dpop g k"
  have g': "table_ok ?g'" using g(2) by (simp add: table_ok_dset table_ok_dpop)
  obtain r where r: "rendered (sort_key fst ?g') = Inr r" "table_ok r"
    "\<forall>j. plugin_id_ok j \<longrightarrow> set (values_of (dget r j (JList []))) = set (values_of (dget ?g' j (JList [])))"
    using rendered_ok [OF table_ok_sort [OF g']] unfolding dget_sort [OF g'] by blast
  have "set_grant k c b f = (Inr (), Toml [(''grants'', JObj r)])"
    using w g(1) r(1) grant_values_ok [OF table_ok_value [OF g(2)], of k]
    by (simp add: set_grant_def grant_writable_def grantable_known Let_def)
  moreover have "values_of (JList []) = []" by (simp add: values_of_def)
  then have "set (values_of (dget ?g' j (JList []))) = (if j \<noteq> k then set (values_of (dget g j (JList [])))
       else if b then insert c (set ?old) else set ?old - {c})" for j
    by (auto simp: filter_empty_conv)
  ultimately show ?thesis using g(1) r by (intro exI [of _ g] exI [of _ r]) simp
qed

lemma grants_ok_file [simp]: "grants_ok (Toml [(''grants'', JObj r)]) = table_ok r"
  "read_grants (Toml [(''grants'', JObj r)]) = Inr r"
  by (simp_all add: grants_ok_def read_grants_def dget_def)

lemma set_grant_refused: "\<not> grant_writable k c \<Longrightarrow> isl (fst (set_grant k c b f)) \<and> snd (set_grant k c b f) = f"
  by (auto simp: set_grant_def grant_writable_def)

interpretation grants: grant_store granted set_grant grant_writable grants_ok
proof (unfold_locales, goal_cases)
  case (1 f k c b)
  then show ?case
    using set_grant_refused [of k c b f] set_grant_table [of f k c b] by (cases "grant_writable k c") auto
next
  case (2 f k c b)
  then show ?case by (intro set_grant_refused)
next
  case (3 f k c b)
  then show ?case
    using set_grant_table [of f k c b] by (auto simp: granted_table grant_writable_def split: if_splits)
next
  case (4 f k' c' k c b)
  show ?case
  proof (cases "grant_writable k c")
    case True
    then obtain g r where w: "read_grants f = Inr g" "set_grant k c b f = (Inr (), Toml [(''grants'', JObj r)])"
      "\<forall>j. plugin_id_ok j \<longrightarrow> set (values_of (dget r j (JList []))) =
        (if j \<noteq> k then set (values_of (dget g j (JList [])))
         else if b then insert c (set (values_of (dget g j (JList []))))
         else set (values_of (dget g j (JList []))) - {c})"
      using set_grant_table [OF 4(1)] by blast
    then show ?thesis using 4(2) by (auto simp: granted_table [OF w(1)] granted_table [where g = r] split: if_splits)
  next
    case False
    then show ?thesis using set_grant_refused [of k c b f] by simp
  qed
qed

section \<open>The supervisor\<close>

datatype plugin_status =
    Plugin_discovered | Plugin_invalid | Plugin_incompatible | Plugin_disabled | Plugin_starting
  | Plugin_running | Plugin_stopping | Plugin_stopped | Plugin_failed | Plugin_auto_disabled
  | Plugin_unknown

text \<open>The part of a plugin record the supervisor and the guards of \<open>start\<close> use.\<close>

record plugin_record =
  pr_id :: string
  pr_manifest_required :: "string list option"
  pr_status :: plugin_status
  pr_enabled :: bool
  pr_runtime_status :: plugin_status
  pr_last_error :: "string option"
  pr_restart_count :: int

text \<open>
  A supervisor. The clock is monotonic and shares the unit of the other times; a
  \<open>defaultdict\<close> is a total map.
\<close>

record supervisor =
  sv_restart_window :: time
  sv_max_restarts :: int
  sv_backoff :: "time list"
  sv_ping_interval :: time
  sv_max_ping_failures :: int
  sv_failures :: "string \<Rightarrow> time list"
  sv_next_attempt :: "string \<Rightarrow> time"
  sv_initial_started :: "string set"
  sv_last_ping :: "string \<Rightarrow> time"
  sv_ping_failures :: "string \<Rightarrow> int"
  sv_blocked :: "string set"

definition new_supervisor :: supervisor where
  "new_supervisor = \<lparr>sv_restart_window = seconds 600, sv_max_restarts = 3,
     sv_backoff = [seconds 1, seconds 5, seconds 30], sv_ping_interval = seconds 30, sv_max_ping_failures = 3,
     sv_failures = (\<lambda>_. []), sv_next_attempt = (\<lambda>_. 0), sv_initial_started = {}, sv_last_ping = (\<lambda>_. 0),
     sv_ping_failures = (\<lambda>_. 0), sv_blocked = {}\<rparr>"

definition reset_supervisor :: "string \<Rightarrow> supervisor \<Rightarrow> supervisor" where
  "reset_supervisor p sv = sv\<lparr>sv_failures := (sv_failures sv)(p := []), sv_next_attempt := (sv_next_attempt sv)(p := 0),
     sv_ping_failures := (sv_ping_failures sv)(p := 0), sv_last_ping := (sv_last_ping sv)(p := 0),
     sv_blocked := sv_blocked sv - {p}\<rparr>"

text \<open>What the supervisor of one plugin works on: itself, the record, the state file.\<close>

record supervised =
  sp_supervisor :: supervisor
  sp_record :: plugin_record
  sp_store :: toml_file

definition recent_failures :: "time \<Rightarrow> time list \<Rightarrow> time \<Rightarrow> time list" where
  "recent_failures window fs now = dropWhile (\<lambda>t. now - t > window) (fs @ [now])"

definition backoff_delay :: "time list \<Rightarrow> int \<Rightarrow> time" where
  "backoff_delay bs restarts =
     (if bs = [] then seconds 1 else bs ! nat (min restarts (int (length bs) - 1)))"

definition record_failure :: "time \<Rightarrow> string \<Rightarrow> supervised \<Rightarrow> (store_error, bool, supervised) outcome" where
  "record_failure now reason s =
     (let p = pr_id (sp_record s); sv = sp_supervisor s;
          fs = recent_failures (sv_restart_window sv) (sv_failures sv p) now;
          restarts = max 0 (int (length fs) - 1);
          sv1 = sv\<lparr>sv_failures := (sv_failures sv)(p := fs)\<rparr>;
          r = (sp_record s)\<lparr>pr_restart_count := restarts\<rparr>
      in if restarts \<ge> sv_max_restarts sv then
           (let r1 = r\<lparr>pr_enabled := False, pr_runtime_status := Plugin_auto_disabled,
                       pr_last_error := Some (''auto_disabled: '' @ reason)\<rparr>
            in case set_auto_disabled p True (sp_store s) of
                 (Inl e, f) \<Rightarrow> (Inl e, s\<lparr>sp_supervisor := sv1, sp_record := r1, sp_store := f\<rparr>)
               | (Inr _, f) \<Rightarrow> (Inr True, s\<lparr>sp_supervisor := sv1, sp_record := r1, sp_store := f\<rparr>))
         else
           (Inr False, s\<lparr>sp_supervisor := sv1\<lparr>sv_next_attempt :=
                (sv_next_attempt sv1)(p := now + backoff_delay (sv_backoff sv) restarts)\<rparr>,
              sp_record := r\<lparr>pr_last_error := Some (''restart scheduled after '' @ reason)\<rparr>\<rparr>))"

text \<open>
  What the manager does with a start the supervisor asks for: the grants are checked, the
  lock of the plugin's lifecycle is taken, and the process is started; the value is the
  class of the exception that is raised. \<open>Launch_fails\<close> carries the error the record keeps
  and that class; \<open>Launch_refused\<close> is a start that raises before it writes to the record,
  such as that of a manager that is closing.
\<close>

datatype launch = Lock_busy | Launch_refused string | Launch_fails string string | Launch_ok

definition MISSING_PREFIX :: string where
  "MISSING_PREFIX = ''missing_required_capabilities: ''"

definition manager_start :: "toml_file \<Rightarrow> launch \<Rightarrow> plugin_record \<Rightarrow> string option \<times> plugin_record" where
  "manager_start grant_file l r =
     (case missing_required_grants (pr_id r) (case pr_manifest_required r of None \<Rightarrow> [] | Some cs \<Rightarrow> cs) grant_file of
        Inl _ \<Rightarrow> (Some ''TOMLDecodeError'', r)
      | Inr missing \<Rightarrow>
          if missing \<noteq> [] then
            (Some ''ValueError'', r\<lparr>pr_runtime_status := Plugin_disabled,
               pr_last_error := Some (MISSING_PREFIX @ join_with '', '' missing)\<rparr>)
          else (case l of
              Lock_busy \<Rightarrow> (Some ''RuntimeError'', r\<lparr>pr_last_error := Some ''lifecycle_operation_in_progress''\<rparr>)
            | Launch_refused exn \<Rightarrow> (Some exn, r)
            | Launch_fails err exn \<Rightarrow>
                (Some exn, r\<lparr>pr_runtime_status := Plugin_failed, pr_last_error := Some err\<rparr>)
            | Launch_ok \<Rightarrow> (None, r\<lparr>pr_runtime_status := Plugin_running, pr_last_error := None\<rparr>)))"

text \<open>\<open>_watch_exit\<close> when a process ends that nobody asked to end.\<close>

definition unexpected_exit :: "supervised \<Rightarrow> supervised" where
  "unexpected_exit s = s\<lparr>sp_record := (sp_record s)\<lparr>pr_runtime_status := Plugin_failed,
     pr_last_error := Some ''unexpected_exit''\<rparr>\<rparr>"

text \<open>What one round of the loop meets: the clock, also when a failure is recorded; the grants; the process.\<close>

record tick =
  tk_now :: time
  tk_failed_at :: time
  tk_grants :: toml_file
  tk_running :: bool
  tk_ping_ok :: bool
  tk_launch :: launch

definition supervisable :: "plugin_record \<Rightarrow> bool" where
  "supervisable r \<longleftrightarrow> pr_enabled r \<and> pr_manifest_required r \<noteq> None
     \<and> pr_status r \<noteq> Plugin_invalid \<and> pr_status r \<noteq> Plugin_incompatible"

definition heartbeat :: "tick \<Rightarrow> supervised \<Rightarrow> (store_error, unit, supervised) outcome" where
  "heartbeat tk s =
     (let p = pr_id (sp_record s); sv = sp_supervisor s in
      if tk_now tk - sv_last_ping sv p < sv_ping_interval sv then (Inr (), s)
      else
       (let sv1 = sv\<lparr>sv_last_ping := (sv_last_ping sv)(p := tk_now tk)\<rparr> in
        if tk_ping_ok tk then
          (Inr (), s\<lparr>sp_supervisor := sv1\<lparr>sv_ping_failures := (sv_ping_failures sv1)(p := 0)\<rparr>\<rparr>)
        else
         (let n = sv_ping_failures sv1 p + 1;
              s1 = s\<lparr>sp_supervisor := sv1\<lparr>sv_ping_failures := (sv_ping_failures sv1)(p := n)\<rparr>\<rparr>
          in if n < sv_max_ping_failures sv1 then (Inr (), s1)
             else and_then
               (record_failure (tk_failed_at tk) ''heartbeat_timeout''
                 (s1\<lparr>sp_record := (sp_record s1)\<lparr>pr_runtime_status := Plugin_failed\<rparr>\<rparr>))
               (\<lambda>_ s2. (Inr (), s2\<lparr>sp_supervisor := (sp_supervisor s2)\<lparr>sv_ping_failures :=
                  (sv_ping_failures (sp_supervisor s2))(p := 0)\<rparr>\<rparr>)))))"

definition start_due :: "tick \<Rightarrow> supervised \<Rightarrow> bool" where
  "start_due tk s =
     (let r = sp_record s; sv = sp_supervisor s in
      pr_runtime_status r \<noteq> Plugin_auto_disabled
      \<and> (pr_id r \<in> sv_initial_started sv
         \<longrightarrow> pr_runtime_status r \<in> {Plugin_failed, Plugin_stopped, Plugin_unknown}))"

text \<open>The value is whether a process was launched.\<close>

definition launched :: "tick \<Rightarrow> plugin_record \<Rightarrow> bool" where
  "launched tk r \<longleftrightarrow> (case tk_launch tk of Lock_busy \<Rightarrow> False | Launch_refused _ \<Rightarrow> False | _ \<Rightarrow> True)
     \<and> missing_required_grants (pr_id r) (case pr_manifest_required r of None \<Rightarrow> [] | Some cs \<Rightarrow> cs) (tk_grants tk) = Inr []"

definition try_start :: "tick \<Rightarrow> supervised \<Rightarrow> (store_error, bool, supervised) outcome" where
  "try_start tk s =
     (let p = pr_id (sp_record s); up = launched tk (sp_record s);
          (exn, r) = manager_start (tk_grants tk) (tk_launch tk) (sp_record s);
          s1 = s\<lparr>sp_record := r\<rparr>
      in case exn of
           None \<Rightarrow> (Inr up, s1)
         | Some name \<Rightarrow>
             if startswith (or_empty (pr_last_error r)) ''missing_required_capabilities:'' then
               (Inr up, s1\<lparr>sp_supervisor := (sp_supervisor s1)\<lparr>sv_blocked := insert p (sv_blocked (sp_supervisor s1))\<rparr>\<rparr>)
             else if pr_last_error r = Some ''lifecycle_operation_in_progress'' then (Inr up, s1)
             else and_then (record_failure (tk_failed_at tk) name s1) (\<lambda>_ s2. (Inr up, s2)))"

text \<open>The round for one plugin, and the failures forgotten of one that was disabled before it.\<close>

definition unblock :: "tick \<Rightarrow> supervised \<Rightarrow> (store_error, bool, supervised) outcome" where
  "unblock tk s =
     (let r = sp_record s; sv = sp_supervisor s in
      if pr_id r \<notin> sv_blocked sv then (Inr True, s)
      else case missing_required_grants (pr_id r)
             (case pr_manifest_required r of None \<Rightarrow> [] | Some cs \<Rightarrow> cs) (tk_grants tk) of
          Inl e \<Rightarrow> (Inl e, s)
        | Inr missing \<Rightarrow>
            if missing \<noteq> [] then (Inr False, s)
            else (Inr True, s\<lparr>sp_supervisor := sv\<lparr>sv_blocked := sv_blocked sv - {pr_id r}\<rparr>\<rparr>))"

definition supervise_one :: "tick \<Rightarrow> supervised \<Rightarrow> (store_error, bool, supervised) outcome" where
  "supervise_one tk s =
     (if \<not> supervisable (sp_record s) then (Inr False, s)
      else and_then (unblock tk s) (\<lambda>go s1.
        if \<not> go then (Inr False, s1)
        else if tk_running tk then and_then (heartbeat tk s1) (\<lambda>_ s2. (Inr False, s2))
        else if \<not> start_due tk s1 then (Inr False, s1)
        else
         (let p = pr_id (sp_record s1);
              s2 = s1\<lparr>sp_supervisor := (sp_supervisor s1)\<lparr>sv_initial_started :=
                     insert p (sv_initial_started (sp_supervisor s1))\<rparr>\<rparr>
          in if tk_now tk < sv_next_attempt (sp_supervisor s2) p then (Inr False, s2) else try_start tk s2)))"

definition forget_disabled :: "bool \<Rightarrow> supervised \<Rightarrow> supervised" where
  "forget_disabled was_enabled s =
     (if was_enabled then s
      else (let p = pr_id (sp_record s); sv = sp_supervisor s in
        s\<lparr>sp_supervisor := sv\<lparr>sv_failures := (sv_failures sv)(p := []),
                                sv_next_attempt := (sv_next_attempt sv)(p := 0)\<rparr>\<rparr>))"

definition supervise :: "tick \<Rightarrow> supervised \<Rightarrow> (store_error, bool, supervised) outcome" where
  "supervise tk s =
     and_then (supervise_one tk s) (\<lambda>up s1. (Inr up, forget_disabled (pr_enabled (sp_record s)) s1))"

text \<open>
  A history of the loop: rounds, and processes that end between them. An exception in a
  round ends the loop. The value counts the processes launched.
\<close>

datatype sup_event = Round tick | Process_exit

fun sup_history :: "sup_event list \<Rightarrow> supervised \<Rightarrow> nat \<times> supervised" where
  "sup_history [] s = (0, s)"
| "sup_history (Process_exit # evs) s = sup_history evs (unexpected_exit s)"
| "sup_history (Round tk # evs) s =
     (case supervise tk s of
        (Inl _, s1) \<Rightarrow> (0, s1)
      | (Inr up, s1) \<Rightarrow> (let (n, s2) = sup_history evs s1 in ((if up then 1 else 0) + n, s2)))"

section \<open>Lemmas on the supervisor\<close>

lemma state_ids_file [simp]:
  "set (enabled_ids (state_file en au)) = set en" "set (auto_disabled_ids (state_file en au)) = set au"
  by (auto simp: enabled_ids_def auto_disabled_ids_def state_ids_def state_file_def dget_def toml_strings_def)

lemma set_auto_disabled_ids:
  assumes "plugin_id_ok p"
  shows "\<exists>f'. set_auto_disabled p b f = (Inr (), f')
    \<and> set (enabled_ids f') = (if b then set (enabled_ids f) - {p} else set (enabled_ids f))
    \<and> set (auto_disabled_ids f') = (if b then insert p (set (auto_disabled_ids f)) else set (auto_disabled_ids f) - {p})"
  using assms by (auto simp: set_auto_disabled_def)

text \<open>Recording a failure, when no earlier one has left the window.\<close>

definition in_window :: "supervised \<Rightarrow> time \<Rightarrow> bool" where
  "in_window s now \<longleftrightarrow> 0 \<le> sv_restart_window (sp_supervisor s)
     \<and> (\<forall>t \<in> set (sv_failures (sp_supervisor s) (pr_id (sp_record s))). now - t \<le> sv_restart_window (sp_supervisor s))"

abbreviation failures_of :: "supervised \<Rightarrow> time list" where
  "failures_of s \<equiv> sv_failures (sp_supervisor s) (pr_id (sp_record s))"

lemma recent_failures_all:
  "\<lbrakk> 0 \<le> w; \<forall>t \<in> set fs. now - t \<le> w \<rbrakk> \<Longrightarrow> recent_failures w fs now = fs @ [now]"
  by (cases fs) (auto simp: recent_failures_def)

text \<open>The settings of a supervisor and the identity of the plugin, which no operation changes.\<close>

definition same_plugin :: "supervised \<Rightarrow> supervised \<Rightarrow> bool" where
  "same_plugin s s' \<longleftrightarrow> pr_id (sp_record s') = pr_id (sp_record s)
     \<and> sv_restart_window (sp_supervisor s') = sv_restart_window (sp_supervisor s)
     \<and> sv_max_restarts (sp_supervisor s') = sv_max_restarts (sp_supervisor s)"

lemma same_plugin_refl [simp]: "same_plugin s s"
  by (simp add: same_plugin_def)

lemma same_plugin_trans: "same_plugin a b \<Longrightarrow> same_plugin b c \<Longrightarrow> same_plugin a c"
  by (simp add: same_plugin_def)

text \<open>
  What a round makes of the failures: it adds none and disables nothing, or it adds one and
  then disables the plugin if there were as many before as restarts are allowed.
\<close>

definition quiet :: "supervised \<Rightarrow> supervised \<Rightarrow> bool" where
  "quiet s s' \<longleftrightarrow> same_plugin s s' \<and> failures_of s' = failures_of s
     \<and> pr_enabled (sp_record s') = pr_enabled (sp_record s)"

definition failed_at :: "time \<Rightarrow> supervised \<Rightarrow> supervised \<Rightarrow> bool" where
  "failed_at now s s' \<longleftrightarrow> same_plugin s s'
     \<and> (if int (length (failures_of s)) \<ge> sv_max_restarts (sp_supervisor s) then \<not> pr_enabled (sp_record s')
        else failures_of s' = failures_of s @ [now] \<and> pr_enabled (sp_record s') = pr_enabled (sp_record s))"

lemma quiet_refl [simp]: "quiet s s"
  by (simp add: quiet_def)

lemma quiet_trans: "quiet a b \<Longrightarrow> quiet b c \<Longrightarrow> quiet a c"
  by (auto simp: quiet_def intro: same_plugin_trans)

lemma quiet_failed: "quiet a b \<Longrightarrow> failed_at now b c \<Longrightarrow> failed_at now a c"
  by (auto simp: quiet_def failed_at_def same_plugin_def)

lemma failed_quiet: "failed_at now a b \<Longrightarrow> quiet b c \<Longrightarrow> failed_at now a c"
  by (auto simp: quiet_def failed_at_def same_plugin_def)

lemma record_failure_failed:
  assumes "record_failure now reason s = (Inr b, s')" "in_window s now"
  shows "failed_at now s s'"
proof -
  have fs: "recent_failures (sv_restart_window (sp_supervisor s)) (failures_of s) now = failures_of s @ [now]"
    using assms(2) by (intro recent_failures_all) (simp_all add: in_window_def)
  show ?thesis
    using assms(1) unfolding record_failure_def Let_def fs
    by (auto simp: failed_at_def same_plugin_def split: if_splits prod.splits sum.splits)
qed

lemma quiet_supervisor_update:
  "\<lbrakk> sv_failures f = sv_failures (sp_supervisor s); sv_restart_window f = sv_restart_window (sp_supervisor s);
     sv_max_restarts f = sv_max_restarts (sp_supervisor s) \<rbrakk> \<Longrightarrow> quiet s (s\<lparr>sp_supervisor := f\<rparr>)"
  by (simp add: quiet_def same_plugin_def)

lemma quiet_record_update:
  "\<lbrakk> pr_id r = pr_id (sp_record s); pr_enabled r = pr_enabled (sp_record s) \<rbrakk> \<Longrightarrow> quiet s (s\<lparr>sp_record := r\<rparr>)"
  by (simp add: quiet_def same_plugin_def)

lemma in_window_quiet: "quiet s s' \<Longrightarrow> in_window s' now = in_window s now"
  by (auto simp: quiet_def in_window_def same_plugin_def)

lemma manager_start_keeps:
  "manager_start gf l r = (exn, r') \<Longrightarrow> pr_id r' = pr_id r \<and> pr_enabled r' = pr_enabled r
     \<and> pr_manifest_required r' = pr_manifest_required r \<and> pr_status r' = pr_status r"
  by (auto simp: manager_start_def split: sum.splits if_splits launch.splits)

text \<open>An error of the process itself, which the supervisor counts.\<close>

fun process_failure :: "launch \<Rightarrow> bool" where
  "process_failure (Launch_fails err _) \<longleftrightarrow> \<not> startswith err ''missing_required_capabilities:''
     \<and> err \<noteq> ''lifecycle_operation_in_progress''"
| "process_failure _ = False"

lemma heartbeat_effect:
  assumes h: "heartbeat tk s = (Inr u, s')" and w: "in_window s (tk_failed_at tk)"
  shows "quiet s s' \<or> failed_at (tk_failed_at tk) s s'"
proof -
  let ?p = "pr_id (sp_record s)" and ?sv = "sp_supervisor s"
  let ?sv1 = "?sv\<lparr>sv_last_ping := (sv_last_ping ?sv)(?p := tk_now tk)\<rparr>"
  let ?n = "sv_ping_failures ?sv1 ?p + 1"
  let ?s1 = "s\<lparr>sp_supervisor := ?sv1\<lparr>sv_ping_failures := (sv_ping_failures ?sv1)(?p := ?n)\<rparr>\<rparr>"
  let ?s2 = "?s1\<lparr>sp_record := (sp_record ?s1)\<lparr>pr_runtime_status := Plugin_failed\<rparr>\<rparr>"
  have q: "quiet s ?s1" "quiet s ?s2"
    by (simp_all add: quiet_def same_plugin_def)
  consider (silent) "quiet s s'"
    | (dead) b s3 where "record_failure (tk_failed_at tk) ''heartbeat_timeout'' ?s2 = (Inr b, s3)"
        "quiet s3 s'"
  proof (cases "tk_now tk - sv_last_ping ?sv ?p < sv_ping_interval ?sv \<or> tk_ping_ok tk \<or> ?n < sv_max_ping_failures ?sv1")
    case True
    then have "quiet s s'" using h q(1)
      by (auto simp: heartbeat_def Let_def split: if_splits intro!: quiet_supervisor_update)
    then show ?thesis by (rule that(1))
  next
    case False
    then obtain b s3 where "record_failure (tk_failed_at tk) ''heartbeat_timeout'' ?s2 = (Inr b, s3)"
      "s' = s3\<lparr>sp_supervisor := (sp_supervisor s3)\<lparr>sv_ping_failures :=
                  (sv_ping_failures (sp_supervisor s3))(?p := 0)\<rparr>\<rparr>"
      using h by (auto simp: heartbeat_def Let_def and_then_Inr)
    then show ?thesis by (intro that(2)) (auto intro: quiet_supervisor_update)
  qed
  then show ?thesis
  proof cases
    case silent
    then show ?thesis ..
  next
    case (dead b s3)
    have "failed_at (tk_failed_at tk) ?s2 s3"
      using dead(1) w in_window_quiet [OF q(2)] by (intro record_failure_failed) auto
    then show ?thesis using q(2) dead(2) quiet_failed failed_quiet by blast
  qed
qed

lemma try_start_effect:
  assumes t: "try_start tk s = (Inr up, s')" and w: "in_window s (tk_failed_at tk)"
  shows "quiet s s' \<or> failed_at (tk_failed_at tk) s s'"
    and "process_failure (tk_launch tk) \<Longrightarrow> up \<Longrightarrow> failed_at (tk_failed_at tk) s s'"
proof -
  obtain exn r where m: "manager_start (tk_grants tk) (tk_launch tk) (sp_record s) = (exn, r)" by force
  let ?s1 = "s\<lparr>sp_record := r\<rparr>"
  have q: "quiet s ?s1" using manager_start_keeps [OF m] by (intro quiet_record_update) simp_all
  have f: "failed_at (tk_failed_at tk) s s2" if "record_failure (tk_failed_at tk) name ?s1 = (Inr b, s2)" for name b s2
    using record_failure_failed [OF that] w q in_window_quiet [OF q] quiet_failed by blast
  have q1: "quiet s (?s1\<lparr>sp_supervisor := (sp_supervisor ?s1)\<lparr>sv_blocked := B\<rparr>\<rparr>)" for B
    using q by (rule quiet_trans) (rule quiet_supervisor_update, simp_all)
  show "quiet s s' \<or> failed_at (tk_failed_at tk) s s'"
    using t q q1 f by (auto simp: try_start_def m Let_def and_then_Inr split: option.splits if_splits)
  show "failed_at (tk_failed_at tk) s s'" if pf: "process_failure (tk_launch tk)" and up
  proof -
    have l: "launched tk (sp_record s)"
      using t that(2) by (auto simp: try_start_def m Let_def and_then_Inr split: option.splits if_splits)
    obtain err e where le: "tk_launch tk = Launch_fails err e" using pf by (cases "tk_launch tk") auto
    then have "exn = Some e" "pr_last_error r = Some err"
      using m l by (auto simp: manager_start_def launched_def)
    then show ?thesis
      using t pf le f m by (auto simp: try_start_def m [unfolded le] Let_def and_then_Inr)
  qed
qed

lemma unblock_effect: "unblock tk s = (Inr go, s') \<Longrightarrow> quiet s s'"
  by (auto simp: unblock_def Let_def split: if_splits sum.splits intro: quiet_supervisor_update)

lemma supervise_one_effect:
  assumes t: "supervise_one tk s = (Inr up, s')" and w: "in_window s (tk_failed_at tk)"
  shows "quiet s s' \<or> failed_at (tk_failed_at tk) s s'"
    and "process_failure (tk_launch tk) \<Longrightarrow> up \<Longrightarrow> failed_at (tk_failed_at tk) s s'"
proof -
  have "(quiet s s' \<and> \<not> up) \<or> (failed_at (tk_failed_at tk) s s' \<and> \<not> up)
      \<or> (\<exists>s2. quiet s s2 \<and> try_start tk s2 = (Inr up, s'))"
  proof (cases "supervisable (sp_record s)")
    case False
    then show ?thesis using t by (simp add: supervise_one_def)
  next
    case True
    obtain go s1 where u: "unblock tk s = (Inr go, s1)"
      using t True by (auto simp: supervise_one_def and_then_Inr)
    have q: "quiet s s1" using u by (rule unblock_effect)
    let ?p = "pr_id (sp_record s1)"
    let ?s2 = "s1\<lparr>sp_supervisor := (sp_supervisor s1)\<lparr>sv_initial_started :=
                     insert ?p (sv_initial_started (sp_supervisor s1))\<rparr>\<rparr>"
    have q2: "quiet s ?s2" using q by (rule quiet_trans) (rule quiet_supervisor_update, simp_all)
    show ?thesis
    proof (cases "go \<and> tk_running tk")
      case True
      then obtain x where "heartbeat tk s1 = (Inr x, s')" "\<not> up"
        using t u \<open>supervisable (sp_record s)\<close> by (auto simp: supervise_one_def and_then_Inr)
      then show ?thesis
        using heartbeat_effect [of tk s1 x s'] w in_window_quiet [OF q] q quiet_trans quiet_failed by blast
    next
      case False
      then show ?thesis
        using t u q q2 \<open>supervisable (sp_record s)\<close> by (auto simp: supervise_one_def Let_def split: if_splits)
    qed
  qed
  moreover have "in_window s2 (tk_failed_at tk)" if "quiet s s2" for s2
    using w in_window_quiet [OF that] by simp
  ultimately show "quiet s s' \<or> failed_at (tk_failed_at tk) s s'"
    "process_failure (tk_launch tk) \<Longrightarrow> up \<Longrightarrow> failed_at (tk_failed_at tk) s s'"
    using try_start_effect [of tk _ up s'] quiet_trans quiet_failed by blast+
qed

text \<open>A plugin that is not enabled is never launched, and stays so.\<close>

lemma disabled_round:
  assumes "\<not> pr_enabled (sp_record s)" "supervise tk s = (Inr up, s')"
  shows "\<not> up \<and> \<not> pr_enabled (sp_record s')"
  using assms by (auto simp: supervise_def supervise_one_def supervisable_def forget_disabled_def Let_def)

lemma disabled_history: "\<not> pr_enabled (sp_record s) \<Longrightarrow> fst (sup_history evs s) = 0"
proof (induction evs s rule: sup_history.induct)
  case (3 tk evs s)
  then show ?case
    using disabled_round [OF "3.prems", of tk]
    by (cases "supervise tk s"; cases "fst (supervise tk s)") (auto simp: case_prod_beta Let_def)
qed (simp_all add: unexpected_exit_def)

text \<open>Histories whose failures all fall into one window of the policy that opens at \<open>t0\<close>.\<close>

fun event_ok :: "time \<Rightarrow> time \<Rightarrow> sup_event \<Rightarrow> bool" where
  "event_ok t0 w (Round tk) \<longleftrightarrow> process_failure (tk_launch tk) \<and> t0 \<le> tk_failed_at tk \<and> tk_failed_at tk \<le> t0 + w"
| "event_ok t0 w Process_exit = True"

definition opened_at :: "time \<Rightarrow> time \<Rightarrow> supervised \<Rightarrow> bool" where
  "opened_at t0 w s \<longleftrightarrow> 0 \<le> w \<and> sv_restart_window (sp_supervisor s) = w \<and> (\<forall>t \<in> set (failures_of s). t0 \<le> t)"

lemma opened_in_window: "\<lbrakk> opened_at t0 w s; t0 \<le> now; now \<le> t0 + w \<rbrakk> \<Longrightarrow> in_window s now"
  by (auto simp: opened_at_def in_window_def)

lemma opened_keeps:
  "\<lbrakk> opened_at t0 w s; quiet s s' \<rbrakk> \<Longrightarrow> opened_at t0 w s'"
  "\<lbrakk> opened_at t0 w s; failed_at now s s'; t0 \<le> now; pr_enabled (sp_record s') \<rbrakk> \<Longrightarrow> opened_at t0 w s'"
  by (auto simp: opened_at_def quiet_def failed_at_def same_plugin_def split: if_splits)

lemma launches_bounded:
  assumes "opened_at t0 w s" "list_all (event_ok t0 w) evs"
    "pr_enabled (sp_record s)" "int (length (failures_of s)) \<le> sv_max_restarts (sp_supervisor s)"
  shows "int (fst (sup_history evs s)) + int (length (failures_of s)) \<le> sv_max_restarts (sp_supervisor s) + 1"
  using assms
proof (induction evs s rule: sup_history.induct)
  case (1 s)
  then show ?case by simp
next
  case (2 evs s)
  have q: "quiet s (unexpected_exit s)"
    unfolding unexpected_exit_def by (rule quiet_record_update) simp_all
  then show ?case
    using 2 opened_keeps(1) [OF "2.prems"(1) q] by (auto simp: quiet_def same_plugin_def)
next
  case (3 tk evs s)
  have ok: "process_failure (tk_launch tk)" "t0 \<le> tk_failed_at tk" "tk_failed_at tk \<le> t0 + w" "list_all (event_ok t0 w) evs"
    using "3.prems"(2) by simp_all
  have w: "in_window s (tk_failed_at tk)" using opened_in_window "3.prems"(1) ok(2,3) .
  show ?case
  proof (cases "fst (supervise tk s)")
    case (Inl e)
    then show ?thesis using "3.prems"(4) by (cases "supervise tk s") simp
  next
    case (Inr up)
    then obtain s1 where s1: "supervise tk s = (Inr up, s1)" by (cases "supervise tk s") simp
    then have one: "supervise_one tk s = (Inr up, s1)"
      using "3.prems"(3) by (auto simp: supervise_def and_then_Inr forget_disabled_def)
    note effect = supervise_one_effect [OF one w]
    note IH = "3.IH" [of "Inr up" s1 up, OF s1 [symmetric] refl _ ok(4)]
    have launches: "fst (sup_history (Round tk # evs) s) = (if up then 1 else 0) + fst (sup_history evs s1)"
      using s1 by (simp add: case_prod_beta Let_def)
    show ?thesis
    proof (cases "quiet s s1 \<and> \<not> up")
      case True
      then show ?thesis
        using IH opened_keeps(1) [OF "3.prems"(1)] "3.prems"(3,4) launches by (auto simp: quiet_def same_plugin_def)
    next
      case False
      then have f: "failed_at (tk_failed_at tk) s s1" using effect ok(1) by blast
      show ?thesis
      proof (cases "pr_enabled (sp_record s1)")
        case True
        then show ?thesis
          using IH opened_keeps(2) [OF "3.prems"(1) f ok(2) True] f "3.prems"(4) launches
          by (auto simp: failed_at_def same_plugin_def split: if_splits)
      next
        case False
        then show ?thesis using disabled_history [OF False, of evs] launches "3.prems"(4) by simp
      qed
    qed
  qed
qed

section \<open>Properties\<close>

text \<open>
  The grants of an instance are exactly the writes an administrator made: after any
  sequence of writes a plugin has a capability if the last write for that pair allowed it,
  whatever was written for other plugins and capabilities, and a capability that cannot be
  granted, or a malformed plugin name, never appears.
\<close>

theorem capability_grants:
  assumes "grants_ok f" "list_all (\<lambda>(p', c', _). (p', c') \<noteq> (p, c)) later"
  shows "granted (replay set_grant (earlier @ (p, c, b) # later) f) p c \<longleftrightarrow> grant_writable p c \<and> b"
proof (cases "grant_writable p c")
  case True
  then show ?thesis
    using assms grants.last_write_wins [of f p c later earlier b] by (auto simp: list_all_iff)
next
  case False
  then have "\<not> granted f p c"
    by (auto simp: granted_def grants_for_def grant_writable_def split: sum.splits json.splits if_splits)
  then show ?thesis using grants.never_granted [OF assms(1) False] False by blast
qed

lemma capability_grants_witness:
  "granted (replay set_grant ([(''poll'', ''events.subscribe'', False)] @ (''poll'', ''storage.kv'', True)
      # [(''poll'', ''events.subscribe'', True), (''feed'', ''storage.kv'', False)]) Missing) ''poll'' ''storage.kv''
   \<longleftrightarrow> grant_writable ''poll'' ''storage.kv'' \<and> True"
  by (rule capability_grants) (simp_all add: grants_ok_def read_grants_def table_ok_def)

definition demo_plugin :: plugin_record where
  "demo_plugin = \<lparr>pr_id = ''poll'', pr_manifest_required = Some [], pr_status = Plugin_discovered, pr_enabled = True,
     pr_runtime_status = Plugin_stopped, pr_last_error = None, pr_restart_count = 0\<rparr>"

definition demo_supervised :: supervised where
  "demo_supervised = \<lparr>sp_supervisor = new_supervisor, sp_record = demo_plugin, sp_store = Missing\<rparr>"

definition demo_round :: "int \<Rightarrow> launch \<Rightarrow> sup_event" where
  "demo_round n l = Round \<lparr>tk_now = seconds n, tk_failed_at = seconds n, tk_grants = Missing, tk_running = False,
     tk_ping_ok = False, tk_launch = l\<rparr>"

text \<open>
  C24. The restart budget: in a history of the loop whose failures all fall into one window
  of the policy, and in which every launch fails, the supervisor launches the plugin at most
  once more than restarts are allowed, and less by the failures it has recorded before.
\<close>

theorem restart_budget:
  assumes "opened_at t0 w s" "list_all (event_ok t0 w) evs"
    "pr_enabled (sp_record s)" "int (length (failures_of s)) \<le> sv_max_restarts (sp_supervisor s)"
  shows "int (fst (sup_history evs s)) \<le> sv_max_restarts (sp_supervisor s) + 1 - int (length (failures_of s))"
  using launches_bounded [OF assms] by simp

lemma restart_budget_witness:
  "fst (sup_history (map (\<lambda>n. demo_round n (Launch_fails ''ProtocolError'' ''RuntimeError'')) [1, 2, 3, 8, 9, 40, 80, 90])
      demo_supervised) = 4
   \<and> int (fst (sup_history (map (\<lambda>n. demo_round n (Launch_fails ''ProtocolError'' ''RuntimeError'')) [1, 2, 3, 8, 9, 40, 80, 90])
      demo_supervised)) \<le> sv_max_restarts (sp_supervisor demo_supervised) + 1 - int (length (failures_of demo_supervised))"
proof
  show "int (fst (sup_history (map (\<lambda>n. demo_round n (Launch_fails ''ProtocolError'' ''RuntimeError'')) [1, 2, 3, 8, 9, 40, 80, 90])
      demo_supervised)) \<le> sv_max_restarts (sp_supervisor demo_supervised) + 1 - int (length (failures_of demo_supervised))"
    by (rule restart_budget [of 0 "seconds 600"])
      (simp_all add: opened_at_def demo_supervised_def demo_plugin_def new_supervisor_def demo_round_def seconds_def)
qed code_simp

text \<open>A round that launches the plugin successfully.\<close>

definition launches_ok :: "supervised \<Rightarrow> tick \<Rightarrow> bool" where
  "launches_ok s tk \<longleftrightarrow> \<not> tk_running tk \<and> tk_launch tk = Launch_ok \<and> launched tk (sp_record s)
     \<and> sv_next_attempt (sp_supervisor s) (pr_id (sp_record s)) \<le> tk_now tk"

definition crashed :: "supervised \<Rightarrow> bool" where
  "crashed s \<longleftrightarrow> supervisable (sp_record s) \<and> pr_id (sp_record s) \<notin> sv_blocked (sp_supervisor s)
     \<and> pr_runtime_status (sp_record s) = Plugin_failed"

lemma crash_round:
  assumes "crashed s" "launches_ok s tk"
  shows "\<exists>s1. supervise tk s = (Inr True, s1) \<and> crashed (unexpected_exit s1)
    \<and> failures_of (unexpected_exit s1) = failures_of s
    \<and> (\<forall>tk'. launches_ok (unexpected_exit s1) tk' = launches_ok s tk')"
proof -
  have m: "manager_start (tk_grants tk) (tk_launch tk) (sp_record s)
      = (None, (sp_record s)\<lparr>pr_runtime_status := Plugin_running, pr_last_error := None\<rparr>)"
    using assms(2) by (simp add: launches_ok_def launched_def manager_start_def)
  have e: "pr_enabled (sp_record s)" using assms(1) by (simp add: crashed_def supervisable_def)
  let ?s2 = "s\<lparr>sp_supervisor := (sp_supervisor s)\<lparr>sv_initial_started :=
      insert (pr_id (sp_record s)) (sv_initial_started (sp_supervisor s))\<rparr>\<rparr>"
  let ?s1 = "?s2\<lparr>sp_record := (sp_record s)\<lparr>pr_runtime_status := Plugin_running, pr_last_error := None\<rparr>\<rparr>"
  have "try_start tk ?s2 = (Inr True, ?s1)"
    using assms(2) m by (simp add: try_start_def launches_ok_def launched_def Let_def)
  then have "supervise tk s = (Inr True, ?s1)"
    using assms e
    by (simp add: supervise_def supervise_one_def unblock_def crashed_def launches_ok_def start_due_def
        forget_disabled_def Let_def)
  moreover have "crashed (unexpected_exit ?s1)" "failures_of (unexpected_exit ?s1) = failures_of s"
    "launches_ok (unexpected_exit ?s1) tk' = launches_ok s tk'" for tk'
    using assms(1)
    by (simp_all add: crashed_def unexpected_exit_def supervisable_def launches_ok_def launched_def)
  ultimately show ?thesis by blast
qed

text \<open>
  Crashes are not counted: a plugin whose process starts well and then ends by itself is
  launched again in every round, however many there are and however little time lies
  between them; no failure is recorded, no restart is delayed, and it stays enabled.
\<close>

theorem crash_loop_unbounded:
  assumes "crashed s" "list_all (launches_ok s) tks"
  shows "fst (sup_history (concat (map (\<lambda>tk. [Round tk, Process_exit]) tks)) s) = length tks
    \<and> crashed (snd (sup_history (concat (map (\<lambda>tk. [Round tk, Process_exit]) tks)) s))
    \<and> failures_of (snd (sup_history (concat (map (\<lambda>tk. [Round tk, Process_exit]) tks)) s)) = failures_of s"
  using assms
proof (induction tks arbitrary: s)
  case Nil
  then show ?case by simp
next
  case (Cons tk tks)
  obtain s1 where s1: "supervise tk s = (Inr True, s1)" "crashed (unexpected_exit s1)"
    "failures_of (unexpected_exit s1) = failures_of s"
    "\<forall>tk'. launches_ok (unexpected_exit s1) tk' = launches_ok s tk'"
    using crash_round [OF Cons.prems(1)] Cons.prems(2) by auto
  have "list_all (launches_ok (unexpected_exit s1)) tks"
    using Cons.prems(2) s1(4) by (simp add: list_all_iff)
  then show ?case using Cons.IH [OF s1(2)] s1(1,3) by (simp add: case_prod_beta Let_def)
qed

definition demo_crashed :: supervised where
  "demo_crashed = unexpected_exit demo_supervised"

definition demo_tick :: "int \<Rightarrow> tick" where
  "demo_tick n = \<lparr>tk_now = seconds n, tk_failed_at = seconds n, tk_grants = Missing, tk_running = False,
     tk_ping_ok = False, tk_launch = Launch_ok\<rparr>"

lemma demo_crash: "crashed demo_crashed" "list_all (launches_ok demo_crashed) (map demo_tick [1, 2, 3, 4, 5, 6, 7])"
  by code_simp+

lemma crash_loop_unbounded_witness:
  "fst (sup_history (concat (map (\<lambda>tk. [Round tk, Process_exit]) (map demo_tick [1, 2, 3, 4, 5, 6, 7]))) demo_crashed) = 7"
  using crash_loop_unbounded [OF demo_crash] by simp

text \<open>A plugin that the supervisor will not start any more.\<close>

definition stuck :: "supervised \<Rightarrow> bool" where
  "stuck s \<longleftrightarrow> pr_id (sp_record s) \<in> sv_initial_started (sp_supervisor s)
     \<and> pr_runtime_status (sp_record s) = Plugin_disabled"

lemma stuck_round:
  assumes "stuck s" "\<not> tk_running tk"
  shows "case supervise tk s of (Inl _, _) \<Rightarrow> True | (Inr up, s1) \<Rightarrow> \<not> up \<and> stuck s1"
  using assms
  by (auto simp: supervise_def supervise_one_def unblock_def start_due_def stuck_def forget_disabled_def Let_def
      split: sum.splits)

lemma stuck_history:
  "\<lbrakk> stuck s; list_all (\<lambda>tk. \<not> tk_running tk) tks \<rbrakk> \<Longrightarrow> fst (sup_history (map Round tks) s) = 0"
proof (induction tks arbitrary: s)
  case (Cons tk tks)
  then show ?case using stuck_round [of s tk]
    by (auto simp: case_prod_beta Let_def split: sum.splits prod.splits)
qed simp

text \<open>
  A capability granted later does not start the plugin: once the supervisor's start of a
  plugin was refused because a required capability is not granted, no later round launches
  it, also when the grants then hold and the process would start.
\<close>

theorem late_grant_never_starts:
  assumes "supervisable (sp_record s)" "pr_id (sp_record s) \<notin> sv_blocked (sp_supervisor s)"
    "start_due tk s" "\<not> tk_running tk" "sv_next_attempt (sp_supervisor s) (pr_id (sp_record s)) \<le> tk_now tk"
    "missing_required_grants (pr_id (sp_record s)) (the (pr_manifest_required (sp_record s))) (tk_grants tk) = Inr (c # cs)"
    "list_all (\<lambda>tk. \<not> tk_running tk) tks"
  shows "fst (sup_history (Round tk # map Round tks) s) = 0"
proof -
  let ?r = "(sp_record s)\<lparr>pr_runtime_status := Plugin_disabled,
      pr_last_error := Some (MISSING_PREFIX @ join_with '', '' (c # cs))\<rparr>"
  let ?s2 = "s\<lparr>sp_supervisor := (sp_supervisor s)\<lparr>sv_initial_started :=
      insert (pr_id (sp_record s)) (sv_initial_started (sp_supervisor s))\<rparr>\<rparr>"
  have req: "(case pr_manifest_required (sp_record s) of None \<Rightarrow> [] | Some xs \<Rightarrow> xs) = the (pr_manifest_required (sp_record s))"
    using assms(1) by (auto simp: supervisable_def)
  have "manager_start (tk_grants tk) (tk_launch tk) (sp_record s) = (Some ''ValueError'', ?r)"
    using assms(6) by (simp add: manager_start_def req)
  moreover have "\<not> launched tk (sp_record s)" using assms(6) by (simp add: launched_def req)
  moreover have "startswith (or_empty (pr_last_error ?r)) ''missing_required_capabilities:''"
    by (simp add: MISSING_PREFIX_def)
  ultimately obtain s1 where t: "try_start tk ?s2 = (Inr False, s1)"
    "pr_id (sp_record s1) = pr_id (sp_record s)" "pr_runtime_status (sp_record s1) = Plugin_disabled"
    "pr_id (sp_record s) \<in> sv_initial_started (sp_supervisor s1)"
    by (simp add: try_start_def Let_def)
  have "supervise tk s = (Inr False, s1)"
    using assms(1-5) t(1)
    by (simp add: supervise_def supervise_one_def unblock_def forget_disabled_def supervisable_def Let_def)
  moreover have "stuck s1" using t by (simp add: stuck_def)
  ultimately show ?thesis using stuck_history [OF _ assms(7)] by (simp add: case_prod_beta Let_def)
qed

definition demo_needy :: supervised where
  "demo_needy = demo_supervised\<lparr>sp_record := demo_plugin\<lparr>pr_manifest_required := Some [''storage.kv'']\<rparr>\<rparr>"

definition demo_granted :: toml_file where
  "demo_granted = snd (set_grant ''poll'' ''storage.kv'' True Missing)"

lemma late_grant_never_starts_witness:
  "fst (sup_history (Round (demo_tick 1) # map Round
     [(demo_tick 5)\<lparr>tk_grants := demo_granted\<rparr>, (demo_tick 900)\<lparr>tk_grants := demo_granted\<rparr>]) demo_needy) = 0
   \<and> missing_required_grants ''poll'' [''storage.kv''] demo_granted = Inr []"
proof
  show "fst (sup_history (Round (demo_tick 1) # map Round
     [(demo_tick 5)\<lparr>tk_grants := demo_granted\<rparr>, (demo_tick 900)\<lparr>tk_grants := demo_granted\<rparr>]) demo_needy) = 0"
    by (rule late_grant_never_starts [where c = "''storage.kv''" and cs = "[]"]) code_simp+
qed code_simp

end
