(* ===== verification/Plugin_Services.thy ===== *)
theory Plugin_Services
  imports Plugins Database "HOL-Library.Product_Lexorder"
begin

text \<open>
  What a plugin process may ask of the core: \<open>plugins/services.py\<close> (a key-value store with
  revisions and quotas, published content, background jobs), the table of methods and the
  capability checks of \<open>plugins/rpc.py\<close>, and the worker that runs the jobs, \<open>plugins/jobs.py\<close>
  with \<open>execute_task\<close> of \<open>plugins/process.py\<close>. The rows are those of \<open>models/plugin.py\<close>.

  The manager reads the requests of one plugin one after the other, so a service runs as one
  transaction; an operation that reads a row and then writes it conditionally is still split
  where the code splits it. JSON numbers with a fraction are not represented. The collation
  of the database orders keys by their code points; its \<open>LIKE\<close> is an argument.
\<close>

section \<open>Rows\<close>

record storage_entry =
  se_id :: string
  se_plugin_id :: string
  se_key :: string
  se_value :: json
  se_revision :: int
  se_created_at :: time
  se_updated_at :: time

record plugin_job =
  pj_id :: string
  pj_plugin_id :: string
  pj_task :: string
  pj_payload :: json
  pj_run_at :: time
  pj_status :: string
  pj_attempts :: nat
  pj_max_attempts :: nat
  pj_lease_until :: "time option"
  pj_idempotency_key :: "string option"
  pj_last_error :: "string option"
  pj_created_at :: time
  pj_updated_at :: time

record plugin_db =
  pd_entries :: "storage_entry list"
  pd_jobs :: "plugin_job list"
  pd_core :: db

record plugin_env =
  pe_config :: config
  pe_now :: time
  pe_id :: string
  pe_like :: "string \<Rightarrow> string \<Rightarrow> bool"
  pe_iso :: "time \<Rightarrow> string"

datatype service_error =
    Service_error (error_code: string) (error_message: string)
  | Unique_error
  | Grants_error store_error
  | Cancelled_error

section \<open>Limits and parameters\<close>

definition MAX_STORAGE_KEY :: nat where "MAX_STORAGE_KEY = 128"
definition MAX_STORAGE_VALUE_BYTES :: nat where "MAX_STORAGE_VALUE_BYTES = 64 * 1024"
definition MAX_PLUGIN_ENTRIES :: nat where "MAX_PLUGIN_ENTRIES = 1000"
definition MAX_TOTAL_PLUGIN_STORAGE_BYTES :: nat where "MAX_TOTAL_PLUGIN_STORAGE_BYTES = 8 * 1024 * 1024"
definition MAX_JOB_PAYLOAD_BYTES :: nat where "MAX_JOB_PAYLOAD_BYTES = 64 * 1024"
definition MAX_PENDING_JOBS :: nat where "MAX_PENDING_JOBS = 500"
definition MAX_JOB_ATTEMPTS :: nat where "MAX_JOB_ATTEMPTS = 8"

definition is_alnum_ascii :: "char \<Rightarrow> bool" where
  "is_alnum_ascii c \<longleftrightarrow> is_lower_alpha c \<or> is_upper_alpha c \<or> is_digit c"

text \<open>\<open>[A-Za-z0-9][A-Za-z0-9._:/-]*\<close> and \<open>[a-z][a-z0-9_.-]{0,127}\<close>.\<close>

definition key_matches :: "string \<Rightarrow> bool" where
  "key_matches s = (case s of [] \<Rightarrow> False
     | c # cs \<Rightarrow> is_alnum_ascii c \<and> list_all (\<lambda>d. is_alnum_ascii d \<or> d \<in> set ''._:/-'') cs)"

definition task_matches :: "string \<Rightarrow> bool" where
  "task_matches s = (case s of [] \<Rightarrow> False
     | c # cs \<Rightarrow> is_lower_alpha c \<and> length cs \<le> 127
         \<and> list_all (\<lambda>d. is_lower_alpha d \<or> is_digit d \<or> d \<in> set ''_.-'') cs)"

text \<open>\<open>_validate_json\<close>: no value lies deeper than level 32.\<close>

primrec validate_json :: "json \<Rightarrow> nat \<Rightarrow> bool" where
  "validate_json JNull depth = (depth \<le> 32)"
| "validate_json (JBool b) depth = (depth \<le> 32)"
| "validate_json (JInt n) depth = (depth \<le> 32)"
| "validate_json (JStr s) depth = (depth \<le> 32)"
| "validate_json (JList xs) depth = (depth \<le> 32 \<and> list_all (\<lambda>v. v (depth + 1)) (map validate_json xs))"
| "validate_json (JObj kvs) depth =
     (depth \<le> 32 \<and> list_all (\<lambda>(k, v). v (depth + 1)) (map (map_prod (\<lambda>k. k) validate_json) kvs))"

text \<open>The bytes of a string in the UTF-8 of \<open>json.dumps(..., ensure_ascii=False)\<close>.\<close>

definition escaped_size :: "char \<Rightarrow> nat" where
  "escaped_size c = (let n = (of_char c :: nat) in
     if n = 34 \<or> n = 92 \<or> n \<in> {8, 9, 10, 12, 13} then 2
     else if n < 32 then 6 else if n < 128 then 1 else 2)"

definition quoted_size :: "string \<Rightarrow> nat" where
  "quoted_size s = 2 + sum_list (map escaped_size s)"

primrec dumped_size :: "json \<Rightarrow> nat" where
  "dumped_size JNull = 4"
| "dumped_size (JBool b) = (if b then 4 else 5)"
| "dumped_size (JInt n) = length (str_int n)"
| "dumped_size (JStr s) = quoted_size s"
| "dumped_size (JList xs) = 2 + (length xs - 1) + sum_list (map dumped_size xs)"
| "dumped_size (JObj kvs) = 2 + (length kvs - 1)
     + sum_list (map (\<lambda>(k, n). quoted_size k + 1 + n) (map (map_prod (\<lambda>k. k) dumped_size) kvs))"

definition invalid_params :: "string \<Rightarrow> service_error" where
  "invalid_params message = Service_error ''invalid_params'' message"

definition value_size :: "json \<Rightarrow> service_error + nat" where
  "value_size v = (if validate_json v 0 then Inr (dumped_size v)
     else Inl (invalid_params ''value must be JSON-compatible''))"

definition storage_key :: "json \<Rightarrow> service_error + string" where
  "storage_key v = (case v of
     JStr s \<Rightarrow> if s = [] \<or> length s > MAX_STORAGE_KEY \<or> \<not> key_matches s
       then Inl (invalid_params ''invalid storage key'') else Inr s
   | _ \<Rightarrow> Inl (invalid_params ''invalid storage key''))"

text \<open>\<open>isinstance(v, int)\<close>, which a truth value satisfies, and a number that is not one.\<close>

fun as_int :: "json \<Rightarrow> int option" where
  "as_int (JInt n) = Some n"
| "as_int (JBool b) = Some (if b then 1 else 0)"
| "as_int _ = None"

definition expected_revision :: "string \<Rightarrow> dict \<Rightarrow> service_error + int option" where
  "expected_revision message params = (case dget params ''expected_revision'' JNull of
     JNull \<Rightarrow> Inr None
   | JInt n \<Rightarrow> if n < 1 then Inl (invalid_params message) else Inr (Some n)
   | _ \<Rightarrow> Inl (invalid_params message))"

section \<open>Storage\<close>

definition entry_of :: "string \<Rightarrow> string \<Rightarrow> plugin_db \<Rightarrow> storage_entry option" where
  "entry_of plugin key d = first_where (\<lambda>r. se_plugin_id r = plugin \<and> se_key r = key) (pd_entries d)"

definition entries_for :: "string \<Rightarrow> plugin_db \<Rightarrow> storage_entry list" where
  "entries_for plugin d = filter (\<lambda>r. se_plugin_id r = plugin) (pd_entries d)"

fun total_size :: "json list \<Rightarrow> service_error + nat" where
  "total_size [] = Inr 0"
| "total_size (v # vs) = (case value_size v of
     Inl e \<Rightarrow> Inl e
   | Inr n \<Rightarrow> (case total_size vs of Inl e \<Rightarrow> Inl e | Inr m \<Rightarrow> Inr (n + m)))"

definition storage_get :: "string \<Rightarrow> dict \<Rightarrow> plugin_db \<Rightarrow> service_error + dict" where
  "storage_get plugin params d =
     (case storage_key (dget params ''key'' JNull) of
        Inl e \<Rightarrow> Inl e
      | Inr key \<Rightarrow> (case entry_of plugin key d of
            None \<Rightarrow> Inr [(''found'', JBool False), (''value'', JNull), (''revision'', JNull)]
          | Some r \<Rightarrow> Inr [(''found'', JBool True), (''value'', se_value r), (''revision'', JInt (se_revision r))]))"

text \<open>
  A write the service decided on after reading: the row it adds, the row and revision it
  updates, or the row it deletes.
\<close>

datatype storage_write =
    Insert_entry string string json
  | Update_entry string int json
  | Delete_entry string
  | No_write

definition revision_clash :: "string \<Rightarrow> service_error" where
  "revision_clash message = Service_error ''revision_conflict'' message"

definition resource_limit :: "string \<Rightarrow> service_error" where
  "resource_limit message = Service_error ''resource_limit'' message"

definition quota_exceeded :: service_error where
  "quota_exceeded = resource_limit ''plugin storage quota exceeded''"

definition set_plan :: "string \<Rightarrow> dict \<Rightarrow> plugin_db \<Rightarrow> service_error + storage_write" where
  "set_plan plugin params d =
     (case storage_key (dget params ''key'' JNull) of
        Inl e \<Rightarrow> Inl e
      | Inr key \<Rightarrow>
        (let v = dget params ''value'' JNull in
         case value_size v of
           Inl e \<Rightarrow> Inl e
         | Inr n \<Rightarrow>
           if n > MAX_STORAGE_VALUE_BYTES then Inl (resource_limit ''storage value exceeds the per-value limit'')
           else case expected_revision ''expected_revision must be a positive integer'' params of
             Inl e \<Rightarrow> Inl e
           | Inr expected \<Rightarrow>
             (case entry_of plugin key d of
                None \<Rightarrow>
                  if expected \<noteq> None then Inl (revision_clash ''storage entry does not exist'')
                  else (case total_size (map se_value (entries_for plugin d)) of
                      Inl e \<Rightarrow> Inl e
                    | Inr used \<Rightarrow>
                        if length (entries_for plugin d) \<ge> MAX_PLUGIN_ENTRIES
                           \<or> used + n > MAX_TOTAL_PLUGIN_STORAGE_BYTES
                        then Inl quota_exceeded else Inr (Insert_entry plugin key v))
              | Some r \<Rightarrow>
                  if expected \<noteq> Some (se_revision r) then Inl (revision_clash ''storage entry revision changed'')
                  else (case total_size (map se_value (filter (\<lambda>o'. se_key o' \<noteq> key) (entries_for plugin d))) of
                      Inl e \<Rightarrow> Inl e
                    | Inr used \<Rightarrow>
                        if used + n > MAX_TOTAL_PLUGIN_STORAGE_BYTES then Inl quota_exceeded
                        else Inr (Update_entry (se_id r) (se_revision r) v)))))"

definition new_storage_entry :: "plugin_env \<Rightarrow> string \<Rightarrow> string \<Rightarrow> json \<Rightarrow> storage_entry" where
  "new_storage_entry env plugin key v = \<lparr>se_id = pe_id env, se_plugin_id = plugin, se_key = key, se_value = v,
     se_revision = 1, se_created_at = pe_now env, se_updated_at = pe_now env\<rparr>"

definition storage_write :: "plugin_env \<Rightarrow> storage_write \<Rightarrow> plugin_db \<Rightarrow> (service_error, int, plugin_db) outcome" where
  "storage_write env w d = (case w of
     Insert_entry plugin key v \<Rightarrow>
       if exists_where (\<lambda>r. se_plugin_id r = plugin \<and> se_key r = key) (pd_entries d) then (Inl Unique_error, d)
       else (Inr 1, d\<lparr>pd_entries := add_row (new_storage_entry env plugin key v) (pd_entries d)\<rparr>)
   | Update_entry i expected v \<Rightarrow>
       (let hit = (\<lambda>r. se_id r = i \<and> se_revision r = expected) in
        if rowcount hit (pd_entries d) \<noteq> 1 then (Inl (revision_clash ''storage entry revision changed''), d)
        else (Inr (expected + 1), d\<lparr>pd_entries := update_where hit
          (\<lambda>r. r\<lparr>se_value := v, se_revision := se_revision r + 1, se_updated_at := pe_now env\<rparr>) (pd_entries d)\<rparr>))
   | Delete_entry i \<Rightarrow> (Inr 0, d\<lparr>pd_entries := delete_where (\<lambda>r. se_id r = i) (pd_entries d)\<rparr>)
   | No_write \<Rightarrow> (Inr 0, d))"

definition storage_set :: "plugin_env \<Rightarrow> string \<Rightarrow> dict \<Rightarrow> plugin_db \<Rightarrow> (service_error, dict, plugin_db) outcome" where
  "storage_set env plugin params d =
     and_then (set_plan plugin params d, d) (\<lambda>w d1.
       and_then (storage_write env w d1) (\<lambda>rev d2. (Inr [(''revision'', JInt rev)], d2)))"

definition delete_plan :: "string \<Rightarrow> dict \<Rightarrow> plugin_db \<Rightarrow> service_error + storage_write" where
  "delete_plan plugin params d =
     (case storage_key (dget params ''key'' JNull) of
        Inl e \<Rightarrow> Inl e
      | Inr key \<Rightarrow> (case expected_revision ''expected_revision must be positive'' params of
            Inl e \<Rightarrow> Inl e
          | Inr expected \<Rightarrow> (case entry_of plugin key d of
                None \<Rightarrow> Inr No_write
              | Some r \<Rightarrow> if expected \<noteq> None \<and> expected \<noteq> Some (se_revision r)
                  then Inl (revision_clash ''storage entry revision changed'')
                  else Inr (Delete_entry (se_id r)))))"

definition storage_delete :: "plugin_env \<Rightarrow> string \<Rightarrow> dict \<Rightarrow> plugin_db \<Rightarrow> (service_error, dict, plugin_db) outcome" where
  "storage_delete env plugin params d =
     and_then (delete_plan plugin params d, d) (\<lambda>w d1.
       and_then (storage_write env w d1) (\<lambda>_ d2. (Inr [(''deleted'', JBool (w \<noteq> No_write))], d2)))"

text \<open>\<open>Column.startswith(prefix)\<close> is \<open>LIKE prefix || '%'\<close>, with no escape.\<close>

definition storage_list :: "plugin_env \<Rightarrow> string \<Rightarrow> dict \<Rightarrow> plugin_db \<Rightarrow> service_error + dict" where
  "storage_list env plugin params d =
     (case (dget params ''prefix'' (JStr []), as_int (dget params ''limit'' (JInt 100))) of
        (JStr pre, Some limit) \<Rightarrow>
          if length pre > MAX_STORAGE_KEY \<or> \<not> (1 \<le> limit \<and> limit \<le> 500)
          then Inl (invalid_params ''invalid list prefix or limit'')
          else (let after = dget params ''after'' JNull in
            if after \<noteq> JNull \<and> as_str after = None then Inl (invalid_params ''after must be a string'')
            else
             (let found = filter (\<lambda>r. pe_like env (pre @ ''%'') (se_key r)
                      \<and> (case as_str after of None \<Rightarrow> True | Some a \<Rightarrow> a = [] \<or> a < se_key r)) (entries_for plugin d);
                  rows = take (nat limit + 1) (sort_key se_key found);
                  page = take (nat limit) rows
              in Inr [(''items'', JList (map (\<lambda>r. JObj [(''key'', JStr (se_key r)), (''revision'', JInt (se_revision r))]) page)),
                   (''next'', if length rows > nat limit \<and> page \<noteq> [] then JStr (se_key (last page)) else JNull)]))
      | _ \<Rightarrow> Inl (invalid_params ''invalid list prefix or limit''))"

section \<open>Published content\<close>

definition public_post :: "post \<Rightarrow> bool" where
  "public_post p \<longleftrightarrow> po_status p = Post_Published \<and> po_visibility p = Visibility_Public"

definition or_null :: "string option \<Rightarrow> json" where
  "or_null s = (case s of None \<Rightarrow> JNull | Some x \<Rightarrow> JStr x)"

definition content_item :: "plugin_env \<Rightarrow> post \<Rightarrow> json" where
  "content_item env p = JObj [(''id'', JStr (po_id p)), (''type'', JStr ''post''), (''slug'', JStr (po_slug p)),
     (''title'', JStr (po_title p)), (''excerpt'', or_null (po_excerpt p)),
     (''published_at'', or_null (map_option (pe_iso env) (po_published_at p)))]"

definition content_get :: "plugin_env \<Rightarrow> dict \<Rightarrow> plugin_db \<Rightarrow> service_error + dict" where
  "content_get env params d = (case dget params ''id'' JNull of
     JStr i \<Rightarrow>
       if length i > 36 then Inl (invalid_params ''invalid content id'')
       else (case first_where (\<lambda>p. po_id p = i \<and> public_post p) (posts (pd_core d)) of
           None \<Rightarrow> Inr [(''found'', JBool False)]
         | Some p \<Rightarrow> Inr [(''found'', JBool True), (''content'', content_item env p)])
   | _ \<Rightarrow> Inl (invalid_params ''invalid content id''))"

text \<open>Newest first, and by identifier among posts of one instant.\<close>

definition content_list :: "plugin_env \<Rightarrow> dict \<Rightarrow> plugin_db \<Rightarrow> service_error + dict" where
  "content_list env params d =
     (case (as_int (dget params ''limit'' (JInt 50)), as_int (dget params ''offset'' (JInt 0))) of
        (Some limit, Some offset) \<Rightarrow>
          if \<not> (1 \<le> limit \<and> limit \<le> 100) \<or> offset < 0 then Inl (invalid_params ''invalid pagination'')
          else Inr [(''items'', JList (map (content_item env) (take (nat limit) (drop (nat offset)
            (sort_key (\<lambda>p. (- po_created_at p, po_id p)) (filter public_post (posts (pd_core d))))))))]
      | _ \<Rightarrow> Inl (invalid_params ''invalid pagination''))"

definition comment_item :: "plugin_env \<Rightarrow> comment \<Rightarrow> json" where
  "comment_item env c = JObj [(''id'', JStr (co_id c)), (''post_id'', JStr (co_post_id c)),
     (''parent_id'', or_null (co_parent_id c)), (''body'', JStr (co_body c)),
     (''display_name'', JStr (co_author_name c)), (''created_at'', JStr (pe_iso env (co_created_at c)))]"

definition readable_comment :: "db \<Rightarrow> string \<Rightarrow> comment \<Rightarrow> bool" where
  "readable_comment db post c \<longleftrightarrow> co_post_id c = post \<and> co_status c = Comment_Approved
     \<and> exists_where (\<lambda>p. po_id p = co_post_id c \<and> public_post p) (posts db)"

definition comments_list :: "plugin_env \<Rightarrow> dict \<Rightarrow> plugin_db \<Rightarrow> service_error + dict" where
  "comments_list env params d =
     (case (dget params ''content_id'' JNull, as_int (dget params ''limit'' (JInt 100))) of
        (JStr post, Some limit) \<Rightarrow>
          if \<not> (1 \<le> limit \<and> limit \<le> 200) then Inl (invalid_params ''invalid content id or limit'')
          else Inr [(''items'', JList (map (comment_item env) (take (nat limit)
            (sort_key (\<lambda>c. (co_created_at c, co_id c)) (filter (readable_comment (pd_core d) post) (comments (pd_core d)))))))]
      | _ \<Rightarrow> Inl (invalid_params ''invalid content id or limit''))"

section \<open>Jobs\<close>

definition audit_plugin_event :: "plugin_env \<Rightarrow> string \<Rightarrow> string \<Rightarrow> string \<Rightarrow> string \<Rightarrow> plugin_db \<Rightarrow> plugin_db" where
  "audit_plugin_event env event plugin target detail d = d\<lparr>pd_core := write_audit_event (pe_config env) (pe_now env)
     event ''success'' None None (Some (take 32 (''plugin:'' @ plugin))) (Some target) None (Some detail) True (pd_core d)\<rparr>"

definition active_job :: "string \<Rightarrow> plugin_job \<Rightarrow> bool" where
  "active_job plugin j \<longleftrightarrow> pj_plugin_id j = plugin \<and> pj_status j \<in> {''pending'', ''retry'', ''running''}"

definition new_job :: "plugin_env \<Rightarrow> string \<Rightarrow> string \<Rightarrow> json \<Rightarrow> int \<Rightarrow> string option \<Rightarrow> plugin_job" where
  "new_job env plugin task payload delay idem = \<lparr>pj_id = pe_id env, pj_plugin_id = plugin, pj_task = task,
     pj_payload = payload, pj_run_at = pe_now env + seconds delay, pj_status = ''pending'', pj_attempts = 0,
     pj_max_attempts = 5, pj_lease_until = None, pj_idempotency_key = idem, pj_last_error = None,
     pj_created_at = pe_now env, pj_updated_at = pe_now env\<rparr>"

definition idempotency_key :: "dict \<Rightarrow> service_error + string option" where
  "idempotency_key params = (case dget params ''idempotency_key'' JNull of
     JNull \<Rightarrow> Inr None
   | JStr s \<Rightarrow> if s = [] \<or> length s > 128 then Inl (invalid_params ''invalid idempotency key'') else Inr (Some s)
   | _ \<Rightarrow> Inl (invalid_params ''invalid idempotency key''))"

definition job_reply :: "plugin_job \<Rightarrow> bool \<Rightarrow> dict" where
  "job_reply j dup = [(''job_id'', JStr (pj_id j)), (''status'', JStr (pj_status j)), (''duplicate'', JBool dup)]"

definition add_job ::
  "plugin_env \<Rightarrow> string \<Rightarrow> string \<Rightarrow> json \<Rightarrow> int \<Rightarrow> string option \<Rightarrow> plugin_db \<Rightarrow> (service_error, dict, plugin_db) outcome" where
  "add_job env plugin task payload delay idem d =
     (if length (filter (active_job plugin) (pd_jobs d)) \<ge> MAX_PENDING_JOBS
      then (Inl (resource_limit ''plugin pending-job quota exceeded''), d)
      else case (if idem = None then None else first_where (\<lambda>j. pj_plugin_id j = plugin \<and> pj_task j = task
                    \<and> pj_idempotency_key j = idem) (pd_jobs d)) of
        Some j \<Rightarrow> (Inr (job_reply j True), d)
      | None \<Rightarrow>
          (let j = new_job env plugin task payload delay idem in
           (Inr (job_reply j False), audit_plugin_event env ''plugin_job_scheduled'' plugin (pj_id j) (''task='' @ task)
              (d\<lparr>pd_jobs := add_row j (pd_jobs d)\<rparr>))))"

definition schedule_job ::
  "plugin_env \<Rightarrow> string \<Rightarrow> dict \<Rightarrow> string list \<Rightarrow> plugin_db \<Rightarrow> (service_error, dict, plugin_db) outcome" where
  "schedule_job env plugin params declared d =
     (case dget params ''task'' JNull of
        JStr task \<Rightarrow>
          if task \<notin> set declared \<or> \<not> task_matches task
          then (Inl (invalid_params ''task is not declared by this plugin''), d)
          else (case dget params ''payload'' (JObj []) of
              JObj payload \<Rightarrow>
                and_then (value_size (JObj payload), d) (\<lambda>n d1.
                  if n > MAX_JOB_PAYLOAD_BYTES then (Inl (resource_limit ''invalid or oversized task payload''), d1)
                  else (case dget params ''delay_seconds'' (JInt 0) of
                      JInt delay \<Rightarrow>
                        if \<not> (0 \<le> delay \<and> delay \<le> 366 * 86400) then (Inl (invalid_params ''invalid job delay''), d1)
                        else and_then (idempotency_key params, d1) (add_job env plugin task (JObj payload) delay)
                    | _ \<Rightarrow> (Inl (invalid_params ''invalid job delay''), d1)))
            | _ \<Rightarrow> (Inl (resource_limit ''invalid or oversized task payload''), d))
      | _ \<Rightarrow> (Inl (invalid_params ''task is not declared by this plugin''), d))"

definition job_due :: "time \<Rightarrow> plugin_job \<Rightarrow> bool" where
  "job_due now j \<longleftrightarrow> pj_status j \<in> {''pending'', ''retry''} \<and> pj_run_at j \<le> now
     \<or> pj_status j = ''running'' \<and> (case pj_lease_until j of None \<Rightarrow> False | Some u \<Rightarrow> u \<le> now)"

definition attempt_limit :: "plugin_job \<Rightarrow> nat" where
  "attempt_limit j = min (pj_max_attempts j) MAX_JOB_ATTEMPTS"

definition update_jobs :: "plugin_env \<Rightarrow> (plugin_job \<Rightarrow> bool) \<Rightarrow> (plugin_job \<Rightarrow> plugin_job) \<Rightarrow> plugin_db \<Rightarrow> plugin_db" where
  "update_jobs env hit f d =
     d\<lparr>pd_jobs := update_where hit (\<lambda>j. (f j)\<lparr>pj_updated_at := pe_now env\<rparr>) (pd_jobs d)\<rparr>"

text \<open>The row the claim looked at, unless another transaction changed its status or lease.\<close>

definition same_lease :: "plugin_job \<Rightarrow> plugin_job \<Rightarrow> bool" where
  "same_lease c j \<longleftrightarrow> pj_id j = pj_id c \<and> pj_status j = pj_status c \<and> pj_lease_until j = pj_lease_until c"

definition JOB_LEASE :: time where "JOB_LEASE = minutes 5"

definition lease_job :: "time \<Rightarrow> plugin_job \<Rightarrow> plugin_job" where
  "lease_job now j = j\<lparr>pj_status := ''running'', pj_attempts := pj_attempts j + 1,
     pj_lease_until := Some (now + JOB_LEASE)\<rparr>"

definition lapse_job :: "plugin_job \<Rightarrow> plugin_job" where
  "lapse_job j = j\<lparr>pj_status := ''dead'', pj_lease_until := None, pj_last_error := Some ''lease_expired''\<rparr>"

definition job_candidate :: "time \<Rightarrow> plugin_db \<Rightarrow> plugin_job option" where
  "job_candidate now d = min_by (\<lambda>j. (pj_run_at j, pj_id j)) (filter (job_due now) (pd_jobs d))"

definition claim_due_job :: "plugin_env \<Rightarrow> plugin_db \<Rightarrow> plugin_job option \<times> plugin_db" where
  "claim_due_job env d = (case job_candidate (pe_now env) d of
     None \<Rightarrow> (None, d)
   | Some c \<Rightarrow>
       if pj_attempts c \<ge> attempt_limit c then (None, update_jobs env (same_lease c) lapse_job d)
       else if rowcount (same_lease c) (pd_jobs d) \<noteq> 1
       then (None, update_jobs env (same_lease c) (lease_job (pe_now env)) d)
       else (let d1 = update_jobs env (same_lease c) (lease_job (pe_now env)) d in
         (get_by pj_id (pj_id c) (pd_jobs d1), d1)))"

definition leased_job :: "string \<Rightarrow> plugin_db \<Rightarrow> plugin_job option" where
  "leased_job i d = (case get_by pj_id i (pd_jobs d) of
     None \<Rightarrow> None | Some j \<Rightarrow> if pj_status j = ''running'' then Some j else None)"

definition put_job :: "plugin_env \<Rightarrow> string \<Rightarrow> (plugin_job \<Rightarrow> plugin_job) \<Rightarrow> plugin_db \<Rightarrow> plugin_db" where
  "put_job env i f d = update_jobs env (\<lambda>j. pj_id j = i) f d"

definition job_backoff :: "nat \<Rightarrow> int" where
  "job_backoff n = min 3600 (2 ^ n * 5)"

definition finish_job ::
  "plugin_env \<Rightarrow> string \<Rightarrow> string option \<Rightarrow> plugin_db \<Rightarrow> (service_error, unit, plugin_db) outcome" where
  "finish_job env i error d = (case leased_job i d of
     None \<Rightarrow> (Inl (Service_error ''conflict'' ''job is not leased''), d)
   | Some r \<Rightarrow> (case error of
       None \<Rightarrow> (Inr (), put_job env i
         (\<lambda>j. j\<lparr>pj_lease_until := None, pj_status := ''succeeded'', pj_last_error := None\<rparr>) d)
     | Some e \<Rightarrow>
         if pj_attempts r \<ge> attempt_limit r
         then (Inr (), audit_plugin_event env ''plugin_job_dead'' (pj_plugin_id r) i
           (''task='' @ pj_task r @ '';error='' @ take 64 e)
           (put_job env i (\<lambda>j. j\<lparr>pj_lease_until := None, pj_status := ''dead'', pj_last_error := Some (take 128 e)\<rparr>) d))
         else (Inr (), put_job env i (\<lambda>j. j\<lparr>pj_lease_until := None, pj_status := ''retry'',
           pj_last_error := Some (take 128 e), pj_run_at := pe_now env + seconds (job_backoff (pj_attempts j))\<rparr>) d)))"

definition defer_job :: "plugin_env \<Rightarrow> string \<Rightarrow> int \<Rightarrow> plugin_db \<Rightarrow> plugin_db" where
  "defer_job env i delay d = (case leased_job i d of
     None \<Rightarrow> d
   | Some _ \<Rightarrow> put_job env i (\<lambda>j. j\<lparr>pj_status := ''pending'', pj_attempts := pj_attempts j - 1,
       pj_lease_until := None, pj_run_at := pe_now env + seconds delay\<rparr>) d)"

definition cancel_job :: "plugin_env \<Rightarrow> string \<Rightarrow> string \<Rightarrow> plugin_db \<Rightarrow> plugin_db" where
  "cancel_job env i reason d = (case leased_job i d of
     None \<Rightarrow> d
   | Some r \<Rightarrow> audit_plugin_event env ''plugin_job_cancelled'' (pj_plugin_id r) i
       (''task='' @ pj_task r @ '';reason='' @ take 64 reason)
       (put_job env i (\<lambda>j. j\<lparr>pj_status := ''cancelled'', pj_lease_until := None,
          pj_last_error := Some (take 128 reason)\<rparr>) d))"

section \<open>The worker\<close>

text \<open>
  \<open>execute_task\<close> in front of the request to the plugin process: \<open>tasks\<close> are the declared
  tasks of a running plugin. \<open>Task_raised\<close> carries the name of the exception type.
\<close>

datatype task_result = Task_returned | Task_raised string | Task_forbidden | Task_cancelled

definition store_error_name :: "store_error \<Rightarrow> string" where
  "store_error_name e = (case e of
     Toml_decode_error \<Rightarrow> ''TOMLDecodeError'' | Attribute_error \<Rightarrow> ''AttributeError''
   | Type_error \<Rightarrow> ''TypeError'' | _ \<Rightarrow> ''ValueError'')"

definition execute_task :: "toml_file \<Rightarrow> string list option \<Rightarrow> string \<Rightarrow> string \<Rightarrow> task_result \<Rightarrow> task_result" where
  "execute_task grants tasks plugin task request = (case tasks of
     None \<Rightarrow> Task_raised ''RuntimeError''
   | Some ts \<Rightarrow>
       if task \<notin> set ts then Task_raised ''ValueError''
       else (case grants_for plugin grants of
           Inl e \<Rightarrow> Task_raised (store_error_name e)
         | Inr cs \<Rightarrow> if ''jobs.schedule'' \<notin> set cs then Task_forbidden else request))"

text \<open>What the round does with the job once its execution came to an end.\<close>

definition settle_job :: "plugin_env \<Rightarrow> string \<Rightarrow> task_result \<Rightarrow> plugin_db \<Rightarrow> (service_error, unit, plugin_db) outcome" where
  "settle_job env i r d = (case r of
     Task_returned \<Rightarrow> finish_job env i None d
   | Task_raised e \<Rightarrow> finish_job env i (Some e) d
   | Task_forbidden \<Rightarrow> (Inr (), cancel_job env i ''jobs.schedule capability revoked'' d)
   | Task_cancelled \<Rightarrow> (Inl Cancelled_error, d))"

text \<open>
  One round of the loop. \<open>run\<close> is the execution: it takes until \<open>env2\<close>, and the database may
  have changed meanwhile. An exception of \<open>settle_job\<close> leaves the loop, which ends the worker.
\<close>

definition job_round ::
  "plugin_env \<Rightarrow> plugin_env \<Rightarrow> (string \<Rightarrow> bool) \<Rightarrow> (plugin_job \<Rightarrow> plugin_db \<Rightarrow> task_result \<times> plugin_db)
   \<Rightarrow> plugin_db \<Rightarrow> (service_error, unit, plugin_db) outcome" where
  "job_round env env2 alive run d = (case claim_due_job env d of
     (None, d1) \<Rightarrow> (Inr (), d1)
   | (Some j, d1) \<Rightarrow>
       if \<not> alive (pj_plugin_id j) then (Inr (), defer_job env (pj_id j) 60 d1)
       else (case run j d1 of (r, d2) \<Rightarrow> settle_job env2 (pj_id j) r d2))"

section \<open>The dispatcher\<close>

definition PLUGIN_RPC_METHODS :: "(string \<times> string) list" where
  "PLUGIN_RPC_METHODS = [(''core.storage.get'', ''storage.kv''), (''core.storage.set'', ''storage.kv''),
     (''core.storage.delete'', ''storage.kv''), (''core.storage.list'', ''storage.kv''),
     (''core.data.content.get'', ''data.content.read''), (''core.data.content.list'', ''data.content.read''),
     (''core.data.comments.list'', ''data.comments.read''), (''core.jobs.schedule'', ''jobs.schedule'')]"

definition handler ::
  "plugin_env \<Rightarrow> string \<Rightarrow> string \<Rightarrow> dict \<Rightarrow> string list \<Rightarrow> plugin_db \<Rightarrow> (service_error, dict, plugin_db) outcome" where
  "handler env call plugin params declared d =
     (if call = ''core.storage.get'' then (storage_get plugin params d, d)
      else if call = ''core.storage.set'' then storage_set env plugin params d
      else if call = ''core.storage.delete'' then storage_delete env plugin params d
      else if call = ''core.storage.list'' then (storage_list env plugin params d, d)
      else if call = ''core.data.content.get'' then (content_get env params d, d)
      else if call = ''core.data.content.list'' then (content_list env params d, d)
      else if call = ''core.data.comments.list'' then (comments_list env params d, d)
      else schedule_job env plugin params declared d)"

definition dispatch ::
  "plugin_env \<Rightarrow> toml_file \<Rightarrow> string list \<Rightarrow> string list \<Rightarrow> string \<Rightarrow> string \<Rightarrow> json \<Rightarrow> plugin_db
   \<Rightarrow> (service_error, dict, plugin_db) outcome" where
  "dispatch env grants declared requested plugin call params d =
     (case map_of PLUGIN_RPC_METHODS call of
        None \<Rightarrow> (Inl (Service_error ''method_not_found'' ''unknown Core RPC method''), d)
      | Some cap \<Rightarrow>
          if cap \<notin> set requested
          then (Inl (Service_error ''permission_denied'' ''capability was not requested by this plugin''), d)
          else (case grants_for plugin grants of
              Inl e \<Rightarrow> (Inl (Grants_error e), d)
            | Inr cs \<Rightarrow>
                if cap \<notin> set cs then (Inl (Service_error ''permission_denied'' ''plugin capability is not granted''), d)
                else (case params of
                    JObj ps \<Rightarrow> handler env call plugin ps declared d
                  | _ \<Rightarrow> (Inl (invalid_params ''params must be an object''), d))))"

text \<open>
  The reply frame, without the identifier and the version. \<open>unique\<close> is the code and the text
  of the exception SQLAlchemy raises for a violated constraint, which has an attribute \<open>code\<close>.
\<close>

definition rpc_reply :: "string \<times> string \<Rightarrow> service_error + dict \<Rightarrow> string \<times> json" where
  "rpc_reply unique r = (let failed = (\<lambda>code message.
       (''error'', JObj [(''code'', JStr (take 64 code)), (''message'', JStr (take 200 message))])) in
     case r of
       Inr v \<Rightarrow> (''result'', JObj v)
     | Inl (Service_error code message) \<Rightarrow> failed code message
     | Inl Unique_error \<Rightarrow> failed (fst unique) (snd unique)
     | Inl _ \<Rightarrow> failed ''internal_error'' ''Core RPC request failed'')"

end
