(* ===== verification/Plugin_Isolation.thy ===== *)
theory Plugin_Isolation
  imports Plugin_Services
begin

text \<open>
  What the services of \<open>Plugin_Services\<close> keep apart and within bounds: a plugin works on its
  own rows only, its answers depend on nothing but those rows and the public content, a
  revision is overwritten once, and the quotas hold after every request.
\<close>

section \<open>The rows of one plugin\<close>

definition entries_ok :: "plugin_db \<Rightarrow> bool" where
  "entries_ok d \<longleftrightarrow> unique_key se_id (pd_entries d)
     \<and> unique_key (\<lambda>r. (se_plugin_id r, se_key r)) (pd_entries d)"

lemma first_where_filter: "first_where (\<lambda>r. P r \<and> Q r) rs = first_where Q (filter P rs)"
  by (induction rs) (auto simp: first_where_def)

lemma entry_of_own: "entry_of plugin key d = first_where (\<lambda>r. se_key r = key) (entries_for plugin d)"
  by (simp add: entry_of_def entries_for_def first_where_filter)

lemma in_entries_for [simp]: "r \<in> set (entries_for p d) \<longleftrightarrow> r \<in> set (pd_entries d) \<and> se_plugin_id r = p"
  by (auto simp: entries_for_def)

lemma entry_of_SomeD: "entry_of p key d = Some r \<Longrightarrow> r \<in> set (pd_entries d) \<and> se_plugin_id r = p \<and> se_key r = key"
  by (auto simp: entry_of_def dest: first_where_SomeD)

text \<open>A write that concerns a row of \<open>p\<close>, or a new row of \<open>p\<close>.\<close>

fun own_write :: "string \<Rightarrow> storage_write \<Rightarrow> plugin_db \<Rightarrow> bool" where
  "own_write p (Insert_entry q key v) d \<longleftrightarrow> q = p \<and> entry_of p key d = None"
| "own_write p (Update_entry i rev' v) d \<longleftrightarrow>
     (\<exists>r. r \<in> set (pd_entries d) \<and> se_plugin_id r = p \<and> se_id r = i \<and> se_revision r = rev')"
| "own_write p (Delete_entry i) d \<longleftrightarrow> (\<exists>r. r \<in> set (pd_entries d) \<and> se_plugin_id r = p \<and> se_id r = i)"
| "own_write p No_write d \<longleftrightarrow> True"

lemma entry_own_write:
  "entry_of p key d = Some r \<Longrightarrow> own_write p (Update_entry (se_id r) (se_revision r) v) d"
  "entry_of p key d = Some r \<Longrightarrow> own_write p (Delete_entry (se_id r)) d"
  using entry_of_SomeD [of p key d r] by auto

lemma set_plan_own: "set_plan p ps d = Inr w \<Longrightarrow> own_write p w d"
  by (auto simp: set_plan_def Let_def entry_own_write simp del: own_write.simps(2)
      split: sum.splits option.splits if_splits)

lemma delete_plan_own: "delete_plan p ps d = Inr w \<Longrightarrow> own_write p w d"
  by (auto simp: delete_plan_def entry_own_write simp del: own_write.simps(3)
      split: sum.splits option.splits if_splits)

text \<open>The write on a list of rows, and the revision it returns.\<close>

fun written :: "plugin_env \<Rightarrow> storage_write \<Rightarrow> storage_entry list \<Rightarrow> storage_entry list" where
  "written env (Insert_entry p key v) es = add_row (new_storage_entry env p key v) es"
| "written env (Update_entry i rev' v) es = update_where (\<lambda>r. se_id r = i \<and> se_revision r = rev')
     (\<lambda>r. r\<lparr>se_value := v, se_revision := se_revision r + 1, se_updated_at := pe_now env\<rparr>) es"
| "written env (Delete_entry i) es = delete_where (\<lambda>r. se_id r = i) es"
| "written env No_write es = es"

fun write_revision :: "storage_write \<Rightarrow> int" where
  "write_revision (Insert_entry p key v) = 1"
| "write_revision (Update_entry i rev' v) = rev' + 1"
| "write_revision w = 0"

lemma own_write_result:
  assumes "entries_ok d" "own_write p w d"
  shows "storage_write env w d = (Inr (write_revision w), d\<lparr>pd_entries := written env w (pd_entries d)\<rparr>)"
proof (cases w)
  case (Insert_entry q key v)
  then have "entry_of p key d = None" "q = p" using assms(2) by auto
  then show ?thesis using Insert_entry by (auto simp: storage_write_def exists_where_iff entry_of_def first_where_None)
next
  case (Update_entry i rev' v)
  then obtain r where r: "r \<in> set (pd_entries d)" "se_id r = i" "se_revision r = rev'" using assms(2) by auto
  have "unique_key se_id (pd_entries d)" using assms(1) by (simp add: entries_ok_def)
  then have "rowcount (\<lambda>r. se_id r = i \<and> se_revision r = rev') (pd_entries d) = 1"
    using r rowcount_key [of se_id "pd_entries d" i "\<lambda>r. se_revision r = rev'"] get_by_unique [of se_id "pd_entries d" r]
    by simp
  then show ?thesis using Update_entry by (simp add: storage_write_def Let_def)
qed (simp_all add: storage_write_def)

lemma filter_updated:
  "(\<And>r. P (f r) = P r) \<Longrightarrow> filter P (update_where h f rs) = update_where h f (filter P rs)"
  by (induction rs) (auto simp: update_where_def)

lemma filter_delete_where: "filter P (delete_where h rs) = delete_where h (filter P rs)"
  by (simp add: delete_where_def conj_commute)

lemma entries_for_written:
  assumes "entries_ok d" "own_write p w d"
  shows "entries_for q (d\<lparr>pd_entries := written env w (pd_entries d)\<rparr>) =
    (if q = p then written env w (entries_for p d) else entries_for q d)"
proof -
  have other: "se_id r \<noteq> i" if "se_plugin_id r = q" "r \<in> set (pd_entries d)"
    "r' \<in> set (pd_entries d)" "se_plugin_id r' = p" "se_id r' = i" "q \<noteq> p" for r r' i
    using that assms(1) unique_keyD [of se_id "pd_entries d" r r'] by (auto simp: entries_ok_def)
  show ?thesis
  proof (cases w)
    case (Insert_entry p' key v)
    then show ?thesis using assms(2) by (simp add: entries_for_def add_row_def new_storage_entry_def)
  next
    case (Update_entry i rev' v)
    then obtain r' where r': "r' \<in> set (pd_entries d)" "se_plugin_id r' = p" "se_id r' = i" using assms(2) by auto
    have "update_where (\<lambda>r. se_id r = i \<and> se_revision r = rev')
        (\<lambda>r. r\<lparr>se_value := v, se_revision := se_revision r + 1, se_updated_at := pe_now env\<rparr>) (entries_for q d) = entries_for q d"
      if "q \<noteq> p" using other [OF _ _ r' that] by (intro update_where_none) auto
    then show ?thesis using Update_entry by (auto simp: entries_for_def filter_updated)
  next
    case (Delete_entry i)
    then obtain r' where r': "r' \<in> set (pd_entries d)" "se_plugin_id r' = p" "se_id r' = i" using assms(2) by auto
    have "delete_where (\<lambda>r. se_id r = i) (entries_for q d) = entries_for q d" if "q \<noteq> p"
      using other [OF _ _ r' that] unfolding delete_where_def by (intro filter_True) auto
    then show ?thesis using Delete_entry by (auto simp: entries_for_def filter_delete_where)
  qed simp
qed

lemma storage_set_result:
  assumes "entries_ok d"
  shows "storage_set env p ps d = (case set_plan p ps d of
     Inl e \<Rightarrow> (Inl e, d)
   | Inr w \<Rightarrow> (Inr [(''revision'', JInt (write_revision w))], d\<lparr>pd_entries := written env w (pd_entries d)\<rparr>))"
  using own_write_result [OF assms set_plan_own, of p ps]
  by (cases "set_plan p ps d") (simp_all add: storage_set_def)

lemma storage_delete_result:
  assumes "entries_ok d"
  shows "storage_delete env p ps d = (case delete_plan p ps d of
     Inl e \<Rightarrow> (Inl e, d)
   | Inr w \<Rightarrow> (Inr [(''deleted'', JBool (w \<noteq> No_write))], d\<lparr>pd_entries := written env w (pd_entries d)\<rparr>))"
  using own_write_result [OF assms delete_plan_own, of p ps]
  by (cases "delete_plan p ps d") (simp_all add: storage_delete_def)

section \<open>The view of a plugin\<close>

text \<open>
  Everything the services show a plugin: its rows, its jobs, the posts that are published
  and public, and the approved comments on them.
\<close>

definition own_jobs :: "string \<Rightarrow> plugin_db \<Rightarrow> plugin_job list" where
  "own_jobs p d = filter (\<lambda>j. pj_plugin_id j = p) (pd_jobs d)"

definition public_posts :: "plugin_db \<Rightarrow> post list" where
  "public_posts d = filter public_post (posts (pd_core d))"

definition public_comments :: "plugin_db \<Rightarrow> comment list" where
  "public_comments d = filter (\<lambda>c. readable_comment (pd_core d) (co_post_id c) c) (comments (pd_core d))"

definition same_view :: "string \<Rightarrow> plugin_db \<Rightarrow> plugin_db \<Rightarrow> bool" where
  "same_view p d1 d2 \<longleftrightarrow> entries_for p d1 = entries_for p d2 \<and> own_jobs p d1 = own_jobs p d2
     \<and> public_posts d1 = public_posts d2 \<and> public_comments d1 = public_comments d2"

lemma same_viewD:
  assumes "same_view p d1 d2"
  shows "entries_for p d1 = entries_for p d2" "own_jobs p d1 = own_jobs p d2"
    "public_posts d1 = public_posts d2" "public_comments d1 = public_comments d2"
  using assms by (simp_all add: same_view_def)

lemma same_view_refl [simp]: "same_view p d d"
  by (simp add: same_view_def)

lemma storage_view:
  assumes "entries_for p d1 = entries_for p d2"
  shows "set_plan p ps d1 = set_plan p ps d2" "delete_plan p ps d1 = delete_plan p ps d2"
    "storage_get p ps d1 = storage_get p ps d2" "storage_list env p ps d1 = storage_list env p ps d2"
  unfolding set_plan_def delete_plan_def storage_get_def storage_list_def entry_of_own assms by (rule refl)+

lemma content_get_own: "first_where (\<lambda>p. po_id p = i \<and> public_post p) (posts (pd_core d))
    = first_where (\<lambda>p. po_id p = i) (public_posts d)"
  by (simp add: public_posts_def first_where_filter [symmetric] conj_commute)

lemma content_view:
  assumes "public_posts d1 = public_posts d2"
  shows "content_get env ps d1 = content_get env ps d2" "content_list env ps d1 = content_list env ps d2"
  unfolding content_get_def content_list_def content_get_own public_posts_def [symmetric] assms by (rule refl)+

lemma readable_own: "filter (readable_comment (pd_core d) post) (comments (pd_core d))
    = filter (\<lambda>c. co_post_id c = post) (public_comments d)"
  unfolding public_comments_def filter_filter
  by (rule filter_cong) (auto simp: readable_comment_def)

lemma comments_view:
  assumes "public_comments d1 = public_comments d2"
  shows "comments_list env ps d1 = comments_list env ps d2"
  unfolding comments_list_def readable_own assms by (rule refl)

lemma entries_view [simp]:
  "own_jobs p (d\<lparr>pd_entries := es\<rparr>) = own_jobs p d" "public_posts (d\<lparr>pd_entries := es\<rparr>) = public_posts d"
  "public_comments (d\<lparr>pd_entries := es\<rparr>) = public_comments d"
  by (simp_all add: own_jobs_def public_posts_def public_comments_def)

lemma audit_view [simp]:
  "entries_for p (audit_plugin_event env event q i detail d) = entries_for p d"
  "own_jobs p (audit_plugin_event env event q i detail d) = own_jobs p d"
  "public_posts (audit_plugin_event env event q i detail d) = public_posts d"
  "public_comments (audit_plugin_event env event q i detail d) = public_comments d"
  "pd_jobs (audit_plugin_event env event q i detail d) = pd_jobs d"
  "pd_entries (audit_plugin_event env event q i detail d) = pd_entries d"
  by (simp_all add: audit_plugin_event_def entries_for_def own_jobs_def public_posts_def public_comments_def
      readable_comment_def)

lemma jobs_view [simp]:
  "entries_for p (d\<lparr>pd_jobs := js\<rparr>) = entries_for p d" "public_posts (d\<lparr>pd_jobs := js\<rparr>) = public_posts d"
  "public_comments (d\<lparr>pd_jobs := js\<rparr>) = public_comments d"
  "own_jobs p (d\<lparr>pd_jobs := add_row j js\<rparr>) = filter (\<lambda>j. pj_plugin_id j = p) js @ (if pj_plugin_id j = p then [j] else [])"
  by (simp_all add: entries_for_def own_jobs_def public_posts_def public_comments_def add_row_def)

lemma active_own: "filter (active_job p) (pd_jobs d) = filter (active_job p) (own_jobs p d)"
  unfolding own_jobs_def filter_filter by (rule filter_cong) (auto simp: active_job_def)

lemma existing_own: "first_where (\<lambda>j. pj_plugin_id j = p \<and> pj_task j = t \<and> pj_idempotency_key j = k) (pd_jobs d)
    = first_where (\<lambda>j. pj_task j = t \<and> pj_idempotency_key j = k) (own_jobs p d)"
  by (simp add: own_jobs_def first_where_filter)

lemma new_job_plugin [simp]: "pj_plugin_id (new_job env p t pl dl k) = p"
  by (simp add: new_job_def)

text \<open>Two runs of one service, and what a run leaves of the views of the others.\<close>

definition alike :: "string \<Rightarrow> plugin_db \<Rightarrow> (service_error, dict, plugin_db) outcome
    \<Rightarrow> (service_error, dict, plugin_db) outcome \<Rightarrow> bool" where
  "alike p d m1 m2 \<longleftrightarrow> fst m1 = fst m2 \<and> same_view p (snd m1) (snd m2)
     \<and> (\<forall>q. q \<noteq> p \<longrightarrow> same_view q (snd m1) d)"

lemma alike_kept: "same_view p d1 d2 \<Longrightarrow> alike p d1 (r, d1) (r, d2)"
  by (simp add: alike_def)

lemma alike_written:
  assumes "entries_ok d1" "entries_ok d2" "same_view p d1 d2" "own_write p w d1" "own_write p w d2"
  shows "alike p d1 (r, d1\<lparr>pd_entries := written env w (pd_entries d1)\<rparr>) (r, d2\<lparr>pd_entries := written env w (pd_entries d2)\<rparr>)"
  using same_viewD [OF assms(3)] entries_for_written [OF assms(1,4)] entries_for_written [OF assms(2,5)]
  by (simp add: alike_def same_view_def)

lemma storage_alike:
  assumes "entries_ok d1" "entries_ok d2" "same_view p d1 d2"
  shows "alike p d1 (storage_set env p ps d1) (storage_set env p ps d2)"
    "alike p d1 (storage_delete env p ps d1) (storage_delete env p ps d2)"
proof -
  note v = storage_view [OF same_viewD(1) [OF assms(3)]]
  show "alike p d1 (storage_set env p ps d1) (storage_set env p ps d2)"
    using alike_kept [OF assms(3)] alike_written [OF assms set_plan_own set_plan_own] v(1) [of ps]
    by (auto simp: storage_set_result assms(1,2) split: sum.splits)
  show "alike p d1 (storage_delete env p ps d1) (storage_delete env p ps d2)"
    using alike_kept [OF assms(3)] alike_written [OF assms delete_plan_own delete_plan_own] v(2) [of ps]
    by (auto simp: storage_delete_result assms(1,2) split: sum.splits)
qed

lemma alike_added:
  assumes "same_view p d1 d2" "pj_plugin_id j = p"
  shows "alike p d1 (r, audit_plugin_event env event q i detail (d1\<lparr>pd_jobs := add_row j (pd_jobs d1)\<rparr>))
    (r, audit_plugin_event env event q i detail (d2\<lparr>pd_jobs := add_row j (pd_jobs d2)\<rparr>))"
  using same_viewD [OF assms(1)] assms(2) by (simp add: alike_def same_view_def own_jobs_def [symmetric])

lemma add_job_alike:
  assumes "same_view p d1 d2"
  shows "alike p d1 (add_job env p t pl dl k d1) (add_job env p t pl dl k d2)"
  unfolding add_job_def existing_own active_own same_viewD(2) [OF assms]
  using alike_kept [OF assms] alike_added [OF assms, of "new_job env p t pl dl k"]
  by (cases k) (simp_all add: Let_def split: option.splits)

lemma schedule_alike:
  assumes "same_view p d1 d2"
  shows "alike p d1 (schedule_job env p ps ts d1) (schedule_job env p ps ts d2)"
  using alike_kept [OF assms] add_job_alike [OF assms]
  by (auto simp: schedule_job_def and_then_def split: json.splits sum.splits)

lemma handler_alike:
  assumes "entries_ok d1" "entries_ok d2" "same_view p d1 d2"
  shows "alike p d1 (handler env call p ps ts d1) (handler env call p ps ts d2)"
proof -
  note v = same_viewD [OF assms(3)]
  show ?thesis
    using alike_kept [OF assms(3)] storage_alike [OF assms] schedule_alike [OF assms(3)]
      storage_view [OF v(1)] content_view [OF v(3)] comments_view [OF v(4)]
    by (simp add: handler_def)
qed

text \<open>
  C36. A plugin is served from what it may see: two databases that agree on the plugin's own
  rows and jobs, on the published public posts and on the approved comments on them, however
  they differ elsewhere, give the same reply to any request and still agree afterwards; and
  the request leaves everything the other plugins see as it was.
\<close>

theorem plugins_isolated:
  assumes "entries_ok d1" "entries_ok d2" "same_view p d1 d2"
    "dispatch env grants declared requested p call params d1 = (r, d1')"
  shows "\<exists>d2'. dispatch env grants declared requested p call params d2 = (r, d2') \<and> same_view p d1' d2'
    \<and> (\<forall>q. q \<noteq> p \<longrightarrow> same_view q d1' d1)"
proof -
  have "alike p d1 (dispatch env grants declared requested p call params d1)
    (dispatch env grants declared requested p call params d2)"
    using alike_kept [OF assms(3)] handler_alike [OF assms(1-3)]
    by (auto simp: dispatch_def split: option.splits sum.splits json.splits)
  then show ?thesis
    unfolding assms(4) by (cases "dispatch env grants declared requested p call params d2") (auto simp: alike_def)
qed

section \<open>Revisions\<close>

text \<open>Writes of several transactions, each decided on at some earlier time.\<close>

fun run_writes :: "(plugin_env \<times> storage_write) list \<Rightarrow> plugin_db \<Rightarrow> plugin_db" where
  "run_writes [] d = d"
| "run_writes ((env, w) # ws) d = run_writes ws (snd (storage_write env w d))"

fun inserts_id :: "string \<Rightarrow> plugin_env \<times> storage_write \<Rightarrow> bool" where
  "inserts_id i (env, Insert_entry p key v) \<longleftrightarrow> pe_id env = i"
| "inserts_id i (env, w) \<longleftrightarrow> False"

definition past_revision :: "string \<Rightarrow> int \<Rightarrow> plugin_db \<Rightarrow> bool" where
  "past_revision i rev' d \<longleftrightarrow> list_all (\<lambda>r. se_id r = i \<longrightarrow> rev' < se_revision r) (pd_entries d)"

lemma past_revision_kept:
  assumes "past_revision i rev' d" "\<not> inserts_id i (env, w)"
  shows "past_revision i rev' (snd (storage_write env w d))"
proof (cases w)
  case (Insert_entry p key v)
  then show ?thesis using assms by (auto simp: storage_write_def past_revision_def add_row_def new_storage_entry_def list_all_iff)
next
  case (Update_entry j s v)
  then show ?thesis using assms by (fastforce simp: storage_write_def past_revision_def set_update_where list_all_iff Let_def)
qed (use assms in \<open>auto simp: storage_write_def past_revision_def set_delete_where list_all_iff\<close>)

lemma past_revision_run:
  "\<lbrakk> past_revision i rev' d; list_all (\<lambda>w. \<not> inserts_id i w) ws \<rbrakk> \<Longrightarrow> past_revision i rev' (run_writes ws d)"
  by (induction ws d rule: run_writes.induct) (simp_all add: past_revision_kept)

lemma past_revision_refused:
  assumes "past_revision i s d" "rev' \<le> s"
  shows "storage_write env (Update_entry i rev' v) d = (Inl (revision_clash ''storage entry revision changed''), d)"
proof -
  have "\<forall>r \<in> set (pd_entries d). \<not> (se_id r = i \<and> se_revision r = rev')"
    using assms by (auto simp: past_revision_def list_all_iff)
  then have "rowcount (\<lambda>r. se_id r = i \<and> se_revision r = rev') (pd_entries d) = 0" by (simp add: rowcount_zero)
  then show ?thesis by (simp add: storage_write_def Let_def)
qed

lemma update_passes:
  assumes "unique_key se_id (pd_entries d)" "storage_write env (Update_entry i rev' v) d = (Inr n, d')"
  shows "past_revision i rev' d'"
proof -
  let ?hit = "\<lambda>r. se_id r = i \<and> se_revision r = rev'"
  have one: "rowcount ?hit (pd_entries d) = 1" and d': "d' = d\<lparr>pd_entries := update_where ?hit
      (\<lambda>r. r\<lparr>se_value := v, se_revision := se_revision r + 1, se_updated_at := pe_now env\<rparr>) (pd_entries d)\<rparr>"
    using assms(2) by (auto simp: storage_write_def Let_def split: if_splits)
  obtain r where r: "r \<in> set (pd_entries d)" "?hit r" using rowcount_one_exists [OF one] by blast
  have "x = r" if "x \<in> set (pd_entries d)" "se_id x = i" for x
    using unique_keyD [OF assms(1) that(1) r(1)] that(2) r(2) by simp
  then show ?thesis using r(2) by (auto simp: d' past_revision_def list_all_iff set_update_where)
qed

text \<open>
  C39. No update of a row is lost: once a write to the row with an identifier, based on a revision
  of it, went through, every write to that identifier based on the same or an older revision is
  refused and changes nothing, whatever the transactions in between did to the table and however
  old the reading is, as long as none of them inserts a row with that identifier, which for
  identifiers from \<open>uuid4\<close> is a matter of chance. This is about rows, not keys: an entry that is
  deleted and made again is another row (see \<open>recreated_entry_overwritten\<close>).
\<close>

theorem one_update_per_revision:
  assumes "unique_key se_id (pd_entries d)" "storage_write env (Update_entry i rev' v) d = (Inr n, d1)"
    "list_all (\<lambda>w. \<not> inserts_id i w) ws" "older \<le> rev'"
  shows "storage_write env' (Update_entry i older v') (run_writes ws d1)
    = (Inl (revision_clash ''storage entry revision changed''), run_writes ws d1)"
  using past_revision_refused [OF past_revision_run [OF update_passes [OF assms(1,2)] assms(3)] assms(4)] .

section \<open>Quotas\<close>

definition stored_bytes :: "string \<Rightarrow> plugin_db \<Rightarrow> nat" where
  "stored_bytes p d = sum_list (map (\<lambda>r. dumped_size (se_value r)) (entries_for p d))"

definition within_quota :: "string \<Rightarrow> plugin_db \<Rightarrow> bool" where
  "within_quota p d \<longleftrightarrow> length (entries_for p d) \<le> MAX_PLUGIN_ENTRIES
     \<and> list_all (\<lambda>r. dumped_size (se_value r) \<le> MAX_STORAGE_VALUE_BYTES) (entries_for p d)
     \<and> stored_bytes p d \<le> MAX_TOTAL_PLUGIN_STORAGE_BYTES
     \<and> length (filter (active_job p) (pd_jobs d)) \<le> MAX_PENDING_JOBS"

lemma value_size_Inr: "value_size v = Inr n \<Longrightarrow> n = dumped_size v"
  by (simp add: value_size_def split: if_splits)

lemma total_size_Inr: "total_size vs = Inr n \<Longrightarrow> n = sum_list (map dumped_size vs)"
  by (induction vs arbitrary: n) (auto dest: value_size_Inr split: sum.splits)

lemma sum_list_unique:
  fixes g :: "'r \<Rightarrow> nat"
  assumes "unique_key key es" "r \<in> set es"
  shows "sum_list (map g es) = g r + sum_list (map g (filter (\<lambda>x. key x \<noteq> key r) es))"
  using assms
proof (induction es)
  case (Cons e es)
  show ?case
  proof (cases "e = r")
    case True
    then have "filter (\<lambda>x. key x \<noteq> key r) es = es"
      using Cons.prems(1) by (intro filter_True) (fastforce simp: unique_key_def intro: rev_image_eqI)
    then show ?thesis using True by simp
  next
    case False
    then have "r \<in> set es" "key e \<noteq> key r" using Cons.prems by (auto simp: unique_key_def)
    then show ?thesis using Cons.IH Cons.prems(1) by (simp add: unique_key_def)
  qed
qed simp

lemma unique_own_key:
  assumes "entries_ok d"
  shows "unique_key se_key (entries_for p d)"
proof -
  have "distinct (map (\<lambda>r. (se_plugin_id r, se_key r)) (entries_for p d))"
    using assms by (simp add: entries_ok_def unique_key_def entries_for_def distinct_map_filter_key)
  then show ?thesis by (auto simp: unique_key_def distinct_map inj_on_def)
qed

lemma set_plan_insert:
  assumes "set_plan p ps d = Inr (Insert_entry q key v)"
  shows "length (entries_for p d) < MAX_PLUGIN_ENTRIES" "dumped_size v \<le> MAX_STORAGE_VALUE_BYTES"
    "stored_bytes p d + dumped_size v \<le> MAX_TOTAL_PLUGIN_STORAGE_BYTES"
  using assms by (auto simp: set_plan_def Let_def stored_bytes_def comp_def not_le not_less
      dest!: value_size_Inr total_size_Inr split: sum.splits option.splits if_splits)

lemma set_plan_update:
  assumes "set_plan p ps d = Inr (Update_entry i rev' v)"
  obtains r where "r \<in> set (entries_for p d)" "se_id r = i" "se_revision r = rev'"
    "dumped_size v \<le> MAX_STORAGE_VALUE_BYTES"
    "sum_list (map (\<lambda>r. dumped_size (se_value r)) (filter (\<lambda>x. se_key x \<noteq> se_key r) (entries_for p d))) + dumped_size v
      \<le> MAX_TOTAL_PLUGIN_STORAGE_BYTES"
  using assms by (auto simp: set_plan_def Let_def comp_def not_le not_less
      dest!: value_size_Inr total_size_Inr entry_of_SomeD split: sum.splits option.splits if_splits)

lemma set_plan_kind: "set_plan p ps d = Inr w \<Longrightarrow> (\<exists>key v. w = Insert_entry p key v) \<or> (\<exists>i s v. w = Update_entry i s v)"
  by (auto simp: set_plan_def Let_def split: sum.splits option.splits if_splits)

lemma updated_bytes:
  assumes "entries_ok d" "r \<in> set (entries_for p d)"
  shows "sum_list (map (\<lambda>r. dumped_size (se_value r))
      (written env (Update_entry (se_id r) (se_revision r) v) (entries_for p d)))
    = dumped_size v + sum_list (map (\<lambda>r. dumped_size (se_value r)) (filter (\<lambda>x. se_key x \<noteq> se_key r) (entries_for p d)))"
proof -
  let ?es = "entries_for p d" and ?f = "\<lambda>x. x\<lparr>se_value := v, se_revision := se_revision x + 1, se_updated_at := pe_now env\<rparr>"
  let ?hit = "\<lambda>x. se_id x = se_id r \<and> se_revision x = se_revision r" and ?g = "\<lambda>r. dumped_size (se_value r)"
  have u: "unique_key se_key (update_where ?hit ?f ?es)"
    using unique_own_key [OF assms(1)] by (simp add: unique_key_update_where)
  have "?f r \<in> set (update_where ?hit ?f ?es)" using assms(2) by (auto simp: set_update_where)
  from sum_list_unique [OF u this, of ?g]
  have sum: "sum_list (map ?g (update_where ?hit ?f ?es))
    = dumped_size v + sum_list (map ?g (filter (\<lambda>x. se_key x \<noteq> se_key r) (update_where ?hit ?f ?es)))" by simp
  have "se_id x \<noteq> se_id r" if "x \<in> set ?es" "se_key x \<noteq> se_key r" for x
    using that assms unique_keyD [of se_id "pd_entries d" x r] by (auto simp: entries_ok_def)
  then have "update_where ?hit ?f (filter (\<lambda>x. se_key x \<noteq> se_key r) ?es) = filter (\<lambda>x. se_key x \<noteq> se_key r) ?es"
    by (intro update_where_none) auto
  moreover have "filter (\<lambda>x. se_key x \<noteq> se_key r) (update_where ?hit ?f ?es)
    = update_where ?hit ?f (filter (\<lambda>x. se_key x \<noteq> se_key r) ?es)" by (rule filter_updated) simp
  ultimately show ?thesis using sum by simp
qed

lemma set_within:
  assumes "entries_ok d" "within_quota q d" "set_plan p ps d = Inr w"
  shows "within_quota q (d\<lparr>pd_entries := written env w (pd_entries d)\<rparr>)"
proof (cases "q = p")
  case False
  then show ?thesis
    using assms(2) entries_for_written [OF assms(1) set_plan_own [OF assms(3)], of q]
    by (simp add: within_quota_def stored_bytes_def)
next
  case True
  note ef = entries_for_written [OF assms(1) set_plan_own [OF assms(3)], of p env, simplified]
  from set_plan_kind [OF assms(3)] show ?thesis
  proof (elim disjE exE)
    fix key v assume w: "w = Insert_entry p key v"
    show ?thesis
      using set_plan_insert [OF assms(3) [unfolded w]] assms(2) ef
      by (simp add: True w within_quota_def stored_bytes_def add_row_def new_storage_entry_def)
  next
    fix i s v assume w: "w = Update_entry i s v"
    obtain r where r: "r \<in> set (entries_for p d)" "se_id r = i" "se_revision r = s" "dumped_size v \<le> MAX_STORAGE_VALUE_BYTES"
      "sum_list (map (\<lambda>r. dumped_size (se_value r)) (filter (\<lambda>x. se_key x \<noteq> se_key r) (entries_for p d))) + dumped_size v
        \<le> MAX_TOTAL_PLUGIN_STORAGE_BYTES" using set_plan_update [OF assms(3) [unfolded w]] by blast
    have "list_all (\<lambda>r. dumped_size (se_value r) \<le> MAX_STORAGE_VALUE_BYTES) (written env w (entries_for p d))"
      using assms(2) r(4) by (auto simp: w within_quota_def list_all_iff set_update_where True)
    then show ?thesis
      using updated_bytes [OF assms(1) r(1), of env v] r(2,3,5) assms(2) ef
      by (simp add: True w within_quota_def stored_bytes_def length_update_where)
  qed
qed

lemma delete_within:
  assumes "entries_ok d" "within_quota q d" "delete_plan p ps d = Inr w"
  shows "within_quota q (d\<lparr>pd_entries := written env w (pd_entries d)\<rparr>)"
proof -
  have "w = No_write \<or> (\<exists>i. w = Delete_entry i)"
    using assms(3) by (auto simp: delete_plan_def split: sum.splits option.splits if_splits)
  moreover have "within_quota q (d\<lparr>pd_entries := delete_where h (pd_entries d)\<rparr>)" for h
  proof -
    have "entries_for q (d\<lparr>pd_entries := delete_where h (pd_entries d)\<rparr>) = filter (\<lambda>r. \<not> h r) (entries_for q d)"
      by (simp add: entries_for_def delete_where_def conj_commute)
    moreover have "sum_list (map (\<lambda>r. dumped_size (se_value r)) (filter (\<lambda>r. \<not> h r) (entries_for q d))) \<le> stored_bytes q d"
      unfolding stored_bytes_def by (rule sum_list_filter_le_nat)
    ultimately show ?thesis
      using assms(2) by (auto simp: within_quota_def stored_bytes_def list_all_iff intro: order_trans [OF length_filter_le])
  qed
  ultimately show ?thesis using assms(2) by auto
qed

lemma schedule_within:
  assumes "within_quota q d"
  shows "within_quota q (snd (schedule_job env p ps ts d))"
proof -
  have "within_quota q (snd (add_job env p t pl dl k d))" for t pl dl k
    using assms by (auto simp: add_job_def Let_def within_quota_def stored_bytes_def add_row_def active_job_def new_job_def
        split: option.splits)
  then show ?thesis using assms
    by (auto simp: schedule_job_def and_then_def split: json.splits sum.splits)
qed

lemma handler_within:
  assumes "entries_ok d" "within_quota q d"
  shows "within_quota q (snd (handler env call p ps ts d))"
  using assms set_within [OF assms] delete_within [OF assms] schedule_within [OF assms(2)]
  by (auto simp: handler_def storage_set_result storage_delete_result split: sum.splits)

lemma dispatch_within:
  assumes "entries_ok d" "within_quota q d"
  shows "within_quota q (snd (dispatch env grants declared requested p call params d))"
  using assms(2) handler_within [OF assms]
  by (auto simp: dispatch_def split: option.splits sum.splits json.splits)

lemma entries_ok_written:
  assumes "entries_ok d" "own_write p w d" "pe_id env \<notin> se_id ` set (pd_entries d)"
  shows "entries_ok (d\<lparr>pd_entries := written env w (pd_entries d)\<rparr>)"
proof (cases w)
  case (Insert_entry q key v)
  then have "\<forall>r \<in> set (pd_entries d). \<not> (se_plugin_id r = p \<and> se_key r = key)" "q = p"
    using assms(2) by (auto simp: entry_of_def first_where_None)
  then show ?thesis using assms(1,3) Insert_entry
    by (auto simp: entries_ok_def unique_key_add_row new_storage_entry_def)
qed (use assms(1) in \<open>auto simp: entries_ok_def unique_key_update_where unique_key_delete_where\<close>)

lemma schedule_entries [simp]: "pd_entries (snd (schedule_job env p ps ts d)) = pd_entries d"
  by (auto simp: schedule_job_def add_job_def and_then_def Let_def split: json.splits sum.splits option.splits)

lemma dispatch_entries_ok:
  assumes "entries_ok d" "pe_id env \<notin> se_id ` set (pd_entries d)"
  shows "entries_ok (snd (dispatch env grants declared requested p call params d))"
proof -
  have "entries_ok (snd (schedule_job env p ps ts d))" for ps ts
    using assms(1) by (simp add: entries_ok_def)
  then have "entries_ok (snd (handler env call p ps ts d))" for ps ts
    using assms(1) entries_ok_written [OF assms(1) set_plan_own assms(2)] entries_ok_written [OF assms(1) delete_plan_own assms(2)]
    by (auto simp: handler_def storage_set_result storage_delete_result split: sum.splits)
  then show ?thesis using assms(1)
    by (auto simp: dispatch_def split: option.splits sum.splits json.splits)
qed

section \<open>Concrete databases\<close>

text \<open>The pattern language of \<open>LIKE\<close>, for the runs below.\<close>

fun sql_like :: "string \<Rightarrow> string \<Rightarrow> bool" where
  "sql_like [] s \<longleftrightarrow> s = []"
| "sql_like (c # p) [] \<longleftrightarrow> c = CHR ''%'' \<and> sql_like p []"
| "sql_like (c # p) (d # s) \<longleftrightarrow>
     (if c = CHR ''%'' then sql_like p (d # s) \<or> sql_like (c # p) s
      else (c = CHR ''_'' \<or> c = d) \<and> sql_like p s)"

definition demo_plugin_env :: "string \<Rightarrow> plugin_env" where
  "demo_plugin_env i = \<lparr>pe_config = demo_config, pe_now = 7, pe_id = i, pe_like = sql_like, pe_iso = (\<lambda>_. ''1970'')\<rparr>"

definition demo_row :: "string \<Rightarrow> string \<Rightarrow> string \<Rightarrow> json \<Rightarrow> storage_entry" where
  "demo_row i p key v = \<lparr>se_id = i, se_plugin_id = p, se_key = key, se_value = v, se_revision = 1,
     se_created_at = 0, se_updated_at = 0\<rparr>"

definition demo_store :: "storage_entry list \<Rightarrow> plugin_db" where
  "demo_store es = \<lparr>pd_entries = es, pd_jobs = [], pd_core = empty_db\<rparr>"

definition demo_grants :: toml_file where
  "demo_grants = Toml [(''grants'', JObj [(''notes'', JList [JStr ''storage.kv'', JStr ''jobs.schedule''])])]"

definition demo_set_request :: "int \<Rightarrow> dict" where
  "demo_set_request rev' = [(''key'', JStr ''k''), (''value'', JInt 5), (''expected_revision'', JInt rev')]"

lemma demo_key: "storage_key (JStr ''k'') = Inr ''k''"
  by (simp add: storage_key_def MAX_STORAGE_KEY_def key_matches_def is_alnum_ascii_def is_lower_alpha_def)

lemma demo_granted: "grants_for ''notes'' demo_grants = Inr [''storage.kv'', ''jobs.schedule'']"
  by code_simp

lemmas demo_set_defs = storage_set_def set_plan_def demo_set_request_def dget_def expected_revision_def value_size_def
  MAX_STORAGE_VALUE_BYTES_def MAX_TOTAL_PLUGIN_STORAGE_BYTES_def MAX_PLUGIN_ENTRIES_def entry_of_def entries_for_def
  first_where_def storage_write_def update_where_def rowcount_def demo_key demo_store_def demo_row_def
  demo_plugin_env_def str_int_def digits_of.simps quoted_size_def escaped_size_def storage_delete_def delete_plan_def
  delete_where_def add_row_def exists_where_def new_storage_entry_def storage_get_def

lemma plugins_isolated_witness:
  "\<exists>d2'. dispatch (demo_plugin_env ''e9'') demo_grants [] [''storage.kv''] ''notes'' ''core.storage.set'' (JObj (demo_set_request 1))
        (demo_store [demo_row ''e2'' ''other'' ''k'' JNull, demo_row ''e1'' ''notes'' ''k'' JNull])
      = (Inr [(''revision'', JInt 2)], d2')
    \<and> same_view ''notes'' (demo_store [(demo_row ''e1'' ''notes'' ''k'' (JInt 5))\<lparr>se_revision := 2, se_updated_at := 7\<rparr>]) d2'
    \<and> (\<forall>q. q \<noteq> ''notes'' \<longrightarrow> same_view q (demo_store [(demo_row ''e1'' ''notes'' ''k'' (JInt 5))\<lparr>se_revision := 2, se_updated_at := 7\<rparr>])
          (demo_store [demo_row ''e1'' ''notes'' ''k'' JNull]))"
proof (rule plugins_isolated)
  show "entries_ok (demo_store [demo_row ''e1'' ''notes'' ''k'' JNull])" by code_simp
  show "entries_ok (demo_store [demo_row ''e2'' ''other'' ''k'' JNull, demo_row ''e1'' ''notes'' ''k'' JNull])" by code_simp
  show "same_view ''notes'' (demo_store [demo_row ''e1'' ''notes'' ''k'' JNull])
    (demo_store [demo_row ''e2'' ''other'' ''k'' JNull, demo_row ''e1'' ''notes'' ''k'' JNull])" by code_simp
  show "dispatch (demo_plugin_env ''e9'') demo_grants [] [''storage.kv''] ''notes'' ''core.storage.set'' (JObj (demo_set_request 1))
      (demo_store [demo_row ''e1'' ''notes'' ''k'' JNull])
    = (Inr [(''revision'', JInt 2)], demo_store [(demo_row ''e1'' ''notes'' ''k'' (JInt 5))\<lparr>se_revision := 2, se_updated_at := 7\<rparr>])"
    by (simp add: dispatch_def PLUGIN_RPC_METHODS_def demo_granted handler_def demo_set_defs)
qed

lemma one_update_per_revision_witness:
  "storage_write (demo_plugin_env ''e9'') (Update_entry ''e1'' 1 JNull) (run_writes [(demo_plugin_env ''e3'', Delete_entry ''e2'')]
      (demo_store [(demo_row ''e1'' ''notes'' ''k'' (JInt 5))\<lparr>se_revision := 2, se_updated_at := 7\<rparr>]))
    = (Inl (revision_clash ''storage entry revision changed''), run_writes [(demo_plugin_env ''e3'', Delete_entry ''e2'')]
      (demo_store [(demo_row ''e1'' ''notes'' ''k'' (JInt 5))\<lparr>se_revision := 2, se_updated_at := 7\<rparr>]))"
proof (rule one_update_per_revision)
  show "unique_key se_id (pd_entries (demo_store [demo_row ''e1'' ''notes'' ''k'' JNull]))" by code_simp
  show "storage_write (demo_plugin_env ''e9'') (Update_entry ''e1'' 1 (JInt 5)) (demo_store [demo_row ''e1'' ''notes'' ''k'' JNull])
    = (Inr 2, demo_store [(demo_row ''e1'' ''notes'' ''k'' (JInt 5))\<lparr>se_revision := 2, se_updated_at := 7\<rparr>])" by code_simp
qed simp_all

text \<open>
  An entry that is deleted and made again starts at revision 1, so a writer that still holds
  revision 1 of the deleted entry overwrites the new one, which it has never read.
\<close>

lemma recreated_entry_overwritten:
  "let d0 = demo_store [demo_row ''e1'' ''notes'' ''k'' (JStr ''old'')];
       d1 = snd (storage_delete (demo_plugin_env ''e2'') ''notes'' [(''key'', JStr ''k'')] d0);
       d2 = snd (storage_set (demo_plugin_env ''e3'') ''notes'' [(''key'', JStr ''k''), (''value'', JStr ''new'')] d1);
       (reply, d3) = storage_set (demo_plugin_env ''e4'') ''notes'' (demo_set_request 1) d2
   in storage_get ''notes'' [(''key'', JStr ''k'')] d0 = Inr [(''found'', JBool True), (''value'', JStr ''old''), (''revision'', JInt 1)]
    \<and> reply = Inr [(''revision'', JInt 2)]
    \<and> storage_get ''notes'' [(''key'', JStr ''k'')] d3 = Inr [(''found'', JBool True), (''value'', JInt 5), (''revision'', JInt 2)]"
  by (simp add: demo_set_defs)

text \<open>The prefix of a listing is a pattern: an underscore in it stands for any character.\<close>

lemma list_prefix_is_pattern:
  "storage_list (demo_plugin_env ''e2'') ''notes'' [(''prefix'', JStr ''a_'')]
     (demo_store [demo_row ''e1'' ''notes'' ''abc'' JNull])
   = Inr [(''items'', JList [JObj [(''key'', JStr ''abc''), (''revision'', JInt 1)]]), (''next'', JNull)]"
  by code_simp

end
