(* ===== verification/Plugin_Jobs.thy ===== *)
theory Plugin_Jobs
  imports Plugin_Isolation
begin

text \<open>
  Runs of the plugin services: requests of plugins, claims of workers and the ends of the runs
  they started, in any order. A job is run a bounded number of times, the quotas hold
  throughout, and a job that came to an end stays as it is.
\<close>

section \<open>Well-formed jobs\<close>

definition open_job :: "plugin_job \<Rightarrow> bool" where
  "open_job j \<longleftrightarrow> pj_status j \<in> {''pending'', ''retry'', ''running''}"

definition job_ok :: "plugin_job \<Rightarrow> bool" where
  "job_ok j \<longleftrightarrow> pj_attempts j \<le> attempt_limit j \<and> 0 < attempt_limit j
     \<and> (pj_status j = ''running'' \<longleftrightarrow> pj_lease_until j \<noteq> None)
     \<and> (pj_status j = ''running'' \<longrightarrow> 0 < pj_attempts j)
     \<and> (pj_status j \<in> {''pending'', ''retry''} \<longrightarrow> pj_attempts j < attempt_limit j)"

definition jobs_ok :: "plugin_db \<Rightarrow> bool" where
  "jobs_ok d \<longleftrightarrow> unique_key pj_id (pd_jobs d) \<and> list_all job_ok (pd_jobs d)"

definition attempts_of :: "string \<Rightarrow> plugin_db \<Rightarrow> nat" where
  "attempts_of i d = (case get_by pj_id i (pd_jobs d) of None \<Rightarrow> 0 | Some j \<Rightarrow> pj_attempts j)"

lemma jobs_okD: "\<lbrakk> jobs_ok d; get_by pj_id i (pd_jobs d) = Some j \<rbrakk> \<Longrightarrow> job_ok j"
  by (auto simp: jobs_ok_def list_all_iff dest: get_by_SomeD)

lemma attempt_limit_simps [simp]:
  "attempt_limit (j\<lparr>pj_status := a\<rparr>) = attempt_limit j" "attempt_limit (j\<lparr>pj_attempts := n\<rparr>) = attempt_limit j"
  "attempt_limit (j\<lparr>pj_lease_until := u\<rparr>) = attempt_limit j" "attempt_limit (j\<lparr>pj_last_error := e\<rparr>) = attempt_limit j"
  "attempt_limit (j\<lparr>pj_run_at := t\<rparr>) = attempt_limit j" "attempt_limit (j\<lparr>pj_updated_at := t\<rparr>) = attempt_limit j"
  by (simp_all add: attempt_limit_def)

section \<open>One row changes\<close>

text \<open>The only change of the table: the open job \<open>j\<close> becomes \<open>j'\<close>.\<close>

definition row_changed :: "plugin_job \<Rightarrow> plugin_job \<Rightarrow> plugin_db \<Rightarrow> plugin_db \<Rightarrow> bool" where
  "row_changed j j' d d' \<longleftrightarrow> get_by pj_id (pj_id j) (pd_jobs d) = Some j \<and> open_job j
     \<and> pj_id j' = pj_id j \<and> pj_plugin_id j' = pj_plugin_id j \<and> attempt_limit j' = attempt_limit j \<and> job_ok j'
     \<and> pd_jobs d' = update_where (\<lambda>r. pj_id r = pj_id j) (\<lambda>_. j') (pd_jobs d) \<and> pd_entries d' = pd_entries d"

lemma get_changed:
  assumes "row_changed j j' d d'"
  shows "get_by pj_id i (pd_jobs d') = (if i = pj_id j then Some j' else get_by pj_id i (pd_jobs d))"
proof -
  have "get_by pj_id i (update_where (\<lambda>r. pj_id r = pj_id j) (\<lambda>_. j') rs)
    = (if i = pj_id j then (case get_by pj_id i rs of None \<Rightarrow> None | Some _ \<Rightarrow> Some j') else get_by pj_id i rs)" for rs
    using assms by (induction rs) (auto simp: row_changed_def update_where_def)
  then show ?thesis using assms by (auto simp: row_changed_def)
qed

lemma attempts_changed:
  "row_changed j j' d d' \<Longrightarrow> attempts_of i d' = (if i = pj_id j then pj_attempts j' else attempts_of i d)"
  by (auto simp: attempts_of_def get_changed)

lemma row_changed_attempts: "row_changed j j' d d' \<Longrightarrow> attempts_of (pj_id j) d = pj_attempts j"
  by (simp add: row_changed_def attempts_of_def)

lemma jobs_ok_changed:
  assumes "row_changed j j' d d'" "jobs_ok d"
  shows "jobs_ok d'"
proof -
  have "map pj_id (update_where (\<lambda>r. pj_id r = pj_id j) (\<lambda>_. j') rs) = map pj_id rs" for rs
    using assms(1) by (induction rs) (auto simp: row_changed_def update_where_def)
  then show ?thesis
    using assms by (auto simp: jobs_ok_def row_changed_def unique_key_def list_all_iff set_update_where)
qed

lemma rowcount_update_rows:
  "\<forall>r \<in> set rs. P r \<and> Q (f r) \<longrightarrow> Q r \<Longrightarrow> rowcount Q (update_where P f rs) \<le> rowcount Q rs"
  by (induction rs) (auto simp: rowcount_def update_where_def)

lemma within_changed:
  assumes "row_changed j j' d d'" "jobs_ok d" "within_quota q d"
  shows "within_quota q d'"
proof -
  have "r = j" if "r \<in> set (pd_jobs d)" "pj_id r = pj_id j" for r
    using that assms(1,2) get_by_unique [of pj_id "pd_jobs d" r] by (auto simp: row_changed_def jobs_ok_def)
  then have "\<forall>r \<in> set (pd_jobs d). pj_id r = pj_id j \<and> active_job q j' \<longrightarrow> active_job q r"
    using assms(1) by (auto simp: row_changed_def active_job_def open_job_def)
  then have "length (filter (active_job q) (pd_jobs d')) \<le> length (filter (active_job q) (pd_jobs d))"
    using rowcount_update_rows [of "pd_jobs d" "\<lambda>r. pj_id r = pj_id j" "active_job q" "\<lambda>_. j'"] assms(1)
    by (simp add: rowcount_def row_changed_def)
  then show ?thesis
    using assms(1,3) by (simp add: within_quota_def stored_bytes_def entries_for_def row_changed_def)
qed

section \<open>What the operations do to their row\<close>

lemma update_unique:
  assumes "unique_key pj_id rs" "c \<in> set rs" "hit c" "\<forall>r. hit r \<longrightarrow> pj_id r = pj_id c"
  shows "update_where hit f rs = update_where (\<lambda>r. pj_id r = pj_id c) (\<lambda>_. f c) rs"
proof -
  have same: "r = c" if "r \<in> set rs" "pj_id r = pj_id c" for r
    using unique_keyD [OF assms(1) that(1) assms(2)] that(2) .
  have "hit r \<longleftrightarrow> pj_id r = pj_id c" if "r \<in> set rs" for r
    using same [OF that] assms(3,4) by blast
  then show ?thesis unfolding update_where_def by (intro map_cong) (auto dest: same)
qed

lemma row_changedI:
  assumes "jobs_ok d" "c \<in> set (pd_jobs d)" "open_job c" "hit c" "\<forall>r. hit r \<longrightarrow> pj_id r = pj_id c"
    "pj_id (f c) = pj_id c" "pj_plugin_id (f c) = pj_plugin_id c" "attempt_limit (f c) = attempt_limit c"
    "job_ok ((f c)\<lparr>pj_updated_at := pe_now env\<rparr>)"
  shows "row_changed c ((f c)\<lparr>pj_updated_at := pe_now env\<rparr>) d (update_jobs env hit f d)"
proof -
  have u: "unique_key pj_id (pd_jobs d)" using assms(1) by (simp add: jobs_ok_def)
  have "pd_jobs (update_jobs env hit f d)
      = update_where (\<lambda>r. pj_id r = pj_id c) (\<lambda>_. (f c)\<lparr>pj_updated_at := pe_now env\<rparr>) (pd_jobs d)"
    unfolding update_jobs_def using update_unique [OF u assms(2,4,5)] by simp
  then show ?thesis
    unfolding row_changed_def using get_by_unique [OF u assms(2)] assms(3,6-9) by (simp add: update_jobs_def)
qed

lemma due_open: "job_due now j \<Longrightarrow> open_job j"
  by (auto simp: job_due_def open_job_def)

lemma due_claim_cases:
  assumes "jobs_ok d"
  obtains (none) "job_candidate (pe_now env) d = None" "claim_due_job env d = (None, d)"
  | (lapsed) c j' d' where "job_candidate (pe_now env) d = Some c" "claim_due_job env d = (None, d')" "row_changed c j' d d'"
      "pj_attempts j' = pj_attempts c" "pj_status j' = ''dead''" "attempt_limit c \<le> pj_attempts c"
  | (claimed) c j' d' where "job_candidate (pe_now env) d = Some c" "claim_due_job env d = (Some j', d')" "row_changed c j' d d'"
      "pj_attempts j' = pj_attempts c + 1" "pj_status j' = ''running''" "pj_lease_until j' = Some (pe_now env + JOB_LEASE)"
proof (cases "job_candidate (pe_now env) d")
  case None
  then show ?thesis using none by (simp add: claim_due_job_def)
next
  case (Some c)
  then have c: "c \<in> set (pd_jobs d)" "job_due (pe_now env) c"
    by (auto simp: job_candidate_def dest!: min_by_SomeD)
  have ok: "job_ok c" and u: "unique_key pj_id (pd_jobs d)" using assms c(1) by (auto simp: jobs_ok_def list_all_iff)
  have hit: "same_lease c c" "\<forall>r. same_lease c r \<longrightarrow> pj_id r = pj_id c" by (simp_all add: same_lease_def)
  note rc = row_changedI [OF assms c(1) due_open [OF c(2)] hit, where env = env]
  show ?thesis
  proof (cases "attempt_limit c \<le> pj_attempts c")
    case True
    have "row_changed c ((lapse_job c)\<lparr>pj_updated_at := pe_now env\<rparr>) d (update_jobs env (same_lease c) lapse_job d)"
      using ok by (intro rc) (auto simp: lapse_job_def job_ok_def)
    then show ?thesis using lapsed [OF Some _ _ _ _ True] Some True by (simp add: claim_due_job_def lapse_job_def)
  next
    case False
    let ?f = "lease_job (pe_now env)"
    have changed: "row_changed c ((?f c)\<lparr>pj_updated_at := pe_now env\<rparr>) d (update_jobs env (same_lease c) ?f d)"
      using ok False by (intro rc) (auto simp: lease_job_def job_ok_def)
    have "rowcount (same_lease c) (pd_jobs d) = 1"
      using rowcount_key [OF u, of "pj_id c" "\<lambda>r. pj_status r = pj_status c \<and> pj_lease_until r = pj_lease_until c"]
        get_by_unique [OF u c(1)] by (simp add: same_lease_def [abs_def])
    then have "claim_due_job env d = (Some ((?f c)\<lparr>pj_updated_at := pe_now env\<rparr>), update_jobs env (same_lease c) ?f d)"
      using Some False get_changed [OF changed, of "pj_id c"] by (simp add: claim_due_job_def Let_def)
    from claimed [OF Some this changed] show ?thesis by (simp add: lease_job_def)
  qed
qed

text \<open>The ends of a run: the job \<open>r\<close> is leased, and its row is the one that changes.\<close>

lemma leased_jobD:
  assumes "leased_job i d = Some r"
  shows "get_by pj_id i (pd_jobs d) = Some r" "pj_status r = ''running''" "pj_id r = i" "r \<in> set (pd_jobs d)"
  using assms by (auto simp: leased_job_def dest: get_by_SomeD split: option.splits if_splits)

lemma put_changed:
  assumes "jobs_ok d" "leased_job i d = Some r" "pj_id (f r) = i" "pj_plugin_id (f r) = pj_plugin_id r"
    "attempt_limit (f r) = attempt_limit r" "job_ok ((f r)\<lparr>pj_updated_at := pe_now env\<rparr>)"
  shows "row_changed r ((f r)\<lparr>pj_updated_at := pe_now env\<rparr>) d (put_job env i f d)"
  unfolding put_job_def using leased_jobD [OF assms(2)] assms
  by (intro row_changedI) (simp_all add: open_job_def)

lemma row_changed_audit [simp]:
  "row_changed j j' d (audit_plugin_event env event p i detail d') \<longleftrightarrow> row_changed j j' d d'"
  by (simp add: row_changed_def)

lemma leased_ok:
  assumes "jobs_ok d" "leased_job i d = Some r"
  shows "0 < pj_attempts r" "pj_attempts r \<le> attempt_limit r" "0 < attempt_limit r"
  using jobs_okD [OF assms(1) leased_jobD(1) [OF assms(2)]] leased_jobD(2) [OF assms(2)] by (simp_all add: job_ok_def)

lemma finish_changed:
  assumes "jobs_ok d" "finish_job env i error d = (Inr (), d')"
  obtains r r' where "leased_job i d = Some r" "row_changed r r' d d'" "pj_attempts r' = pj_attempts r" "pj_status r' \<noteq> ''running''"
proof -
  obtain r where r: "leased_job i d = Some r" using assms(2) by (auto simp: finish_job_def split: option.splits)
  note ok = leased_ok [OF assms(1) r] and i = leased_jobD(3) [OF r]
  consider (fine) "error = None" | (dead) e where "error = Some e" "attempt_limit r \<le> pj_attempts r"
    | (again) e where "error = Some e" "pj_attempts r < attempt_limit r" by (cases error) fastforce+
  then show ?thesis
  proof cases
    case fine
    let ?f = "\<lambda>j. j\<lparr>pj_lease_until := None, pj_status := ''succeeded'', pj_last_error := None\<rparr>"
    have "row_changed r ((?f r)\<lparr>pj_updated_at := pe_now env\<rparr>) d (put_job env i ?f d)"
      using ok i by (intro put_changed [OF assms(1) r]) (simp_all add: job_ok_def)
    then show ?thesis using that [OF r] assms(2) fine r by (simp add: finish_job_def)
  next
    case (dead e)
    let ?f = "\<lambda>j. j\<lparr>pj_lease_until := None, pj_status := ''dead'', pj_last_error := Some (take 128 e)\<rparr>"
    have "row_changed r ((?f r)\<lparr>pj_updated_at := pe_now env\<rparr>) d (put_job env i ?f d)"
      using ok i by (intro put_changed [OF assms(1) r]) (simp_all add: job_ok_def)
    then show ?thesis using that [OF r] assms(2) dead r by (fastforce simp: finish_job_def)
  next
    case (again e)
    let ?f = "\<lambda>j. j\<lparr>pj_lease_until := None, pj_status := ''retry'', pj_last_error := Some (take 128 e),
      pj_run_at := pe_now env + seconds (job_backoff (pj_attempts j))\<rparr>"
    have "row_changed r ((?f r)\<lparr>pj_updated_at := pe_now env\<rparr>) d (put_job env i ?f d)"
      using ok i again by (intro put_changed [OF assms(1) r]) (simp_all add: job_ok_def)
    then show ?thesis using that [OF r] assms(2) again r by (simp add: finish_job_def)
  qed
qed

lemma defer_changed:
  assumes "jobs_ok d" "leased_job i d = Some r"
  obtains r' where "row_changed r r' d (defer_job env i delay d)" "pj_attempts r' + 1 = pj_attempts r" "pj_status r' = ''pending''"
proof -
  let ?f = "\<lambda>j. j\<lparr>pj_status := ''pending'', pj_attempts := pj_attempts j - 1, pj_lease_until := None,
    pj_run_at := pe_now env + seconds delay\<rparr>"
  have "row_changed r ((?f r)\<lparr>pj_updated_at := pe_now env\<rparr>) d (put_job env i ?f d)"
    using leased_ok [OF assms] leased_jobD(3) [OF assms(2)] by (intro put_changed [OF assms]) (auto simp: job_ok_def)
  then show ?thesis using that leased_ok(1) [OF assms] assms(2) by (simp add: defer_job_def)
qed

lemma cancel_changed:
  assumes "jobs_ok d" "leased_job i d = Some r"
  obtains r' where "row_changed r r' d (cancel_job env i reason d)" "pj_attempts r' = pj_attempts r" "pj_status r' = ''cancelled''"
proof -
  let ?f = "\<lambda>j. j\<lparr>pj_status := ''cancelled'', pj_lease_until := None, pj_last_error := Some (take 128 reason)\<rparr>"
  have "row_changed r ((?f r)\<lparr>pj_updated_at := pe_now env\<rparr>) d (put_job env i ?f d)"
    using leased_ok [OF assms] leased_jobD(3) [OF assms(2)] by (intro put_changed [OF assms]) (simp_all add: job_ok_def)
  then show ?thesis using that [of "(?f r)\<lparr>pj_updated_at := pe_now env\<rparr>"] assms(2) by (simp add: cancel_job_def)
qed

section \<open>Requests\<close>

lemma dispatch_jobs:
  "pd_jobs (snd (dispatch env grants declared requested p call params d)) = pd_jobs d
   \<or> (\<exists>t pl dl k. pd_jobs (snd (dispatch env grants declared requested p call params d))
        = add_row (new_job env p t pl dl k) (pd_jobs d))"
proof -
  have "pd_jobs (snd (storage_write env w d)) = pd_jobs d" for w d
    by (auto simp: storage_write_def Let_def split: storage_write.splits)
  then have "pd_jobs (snd (storage_set env p ps d)) = pd_jobs d" "pd_jobs (snd (storage_delete env p ps d)) = pd_jobs d" for ps
    by (auto simp: storage_set_def storage_delete_def and_then_def split: sum.splits prod.splits)
       (metis snd_conv)+
  moreover have "pd_jobs (snd (schedule_job env p ps declared d)) = pd_jobs d
    \<or> (\<exists>t pl dl k. pd_jobs (snd (schedule_job env p ps declared d)) = add_row (new_job env p t pl dl k) (pd_jobs d))" for ps
    by (auto simp: schedule_job_def add_job_def and_then_def Let_def split: json.splits sum.splits option.splits)
  ultimately have "pd_jobs (snd (handler env call p ps declared d)) = pd_jobs d
    \<or> (\<exists>t pl dl k. pd_jobs (snd (handler env call p ps declared d)) = add_row (new_job env p t pl dl k) (pd_jobs d))" for ps
    by (simp add: handler_def)
  then show ?thesis by (simp add: dispatch_def split: option.splits sum.splits json.splits)
qed

lemma new_job_ok: "job_ok (new_job env p t pl dl k)" "pj_attempts (new_job env p t pl dl k) = 0"
    "pj_id (new_job env p t pl dl k) = pe_id env"
  by (simp_all add: job_ok_def new_job_def attempt_limit_def MAX_JOB_ATTEMPTS_def)

lemma dispatch_jobs_ok:
  assumes "jobs_ok d" "pe_id env \<notin> pj_id ` set (pd_jobs d)"
  shows "jobs_ok (snd (dispatch env grants declared requested p call params d))"
    "attempts_of i (snd (dispatch env grants declared requested p call params d)) = attempts_of i d"
    "get_by pj_id i (pd_jobs d) = Some j
      \<Longrightarrow> get_by pj_id i (pd_jobs (snd (dispatch env grants declared requested p call params d))) = Some j"
  using assms dispatch_jobs [of env grants declared requested p call params d] new_job_ok [of env p]
  by (auto simp: jobs_ok_def unique_key_add_row attempts_of_def get_by_add_row set_add_row list_all_iff
      split: option.splits if_splits)

section \<open>Runs\<close>

datatype job_event =
    Job_leased string time
  | Job_lapsed
  | Job_finished string
  | Job_deferred string
  | Job_cancelled string
  | Plugin_served string

definition plugin_ok :: "plugin_db \<Rightarrow> bool" where
  "plugin_ok d \<longleftrightarrow> entries_ok d \<and> jobs_ok d"

text \<open>A request makes its new rows with identifiers no row has; the others change one job.\<close>

inductive job_step :: "plugin_db \<Rightarrow> job_event \<Rightarrow> plugin_db \<Rightarrow> bool" where
  leased: "claim_due_job env d = (Some j, d') \<Longrightarrow> job_step d (Job_leased (pj_id j) (pe_now env)) d'"
| lapsed: "claim_due_job env d = (None, d') \<Longrightarrow> job_step d Job_lapsed d'"
| finished: "finish_job env i error d = (Inr (), d') \<Longrightarrow> job_step d (Job_finished i) d'"
| deferred: "leased_job i d \<noteq> None \<Longrightarrow> job_step d (Job_deferred i) (defer_job env i delay d)"
| cancelled: "leased_job i d \<noteq> None \<Longrightarrow> job_step d (Job_cancelled i) (cancel_job env i reason d)"
| served: "\<lbrakk> pe_id env \<notin> se_id ` set (pd_entries d); pe_id env \<notin> pj_id ` set (pd_jobs d);
     dispatch env grants declared requested p call params d = (r, d') \<rbrakk> \<Longrightarrow> job_step d (Plugin_served p) d'"

inductive job_trace :: "plugin_db \<Rightarrow> job_event list \<Rightarrow> plugin_db \<Rightarrow> bool" where
  start: "job_trace d [] d"
| step: "\<lbrakk> job_step d e d1; job_trace d1 es d2 \<rbrakk> \<Longrightarrow> job_trace d (e # es) d2"

inductive_cases job_traceE: "job_trace d es d'"

text \<open>Every step changes one open row, or is a request.\<close>

lemma job_step_cases:
  assumes "job_step d e d'" "plugin_ok d"
  obtains (row) j j' where "row_changed j j' d d'"
      "pj_attempts j' + (if e = Job_deferred (pj_id j) then 1 else 0)
        = pj_attempts j + (if \<exists>t. e = Job_leased (pj_id j) t then 1 else 0)"
      "\<And>i t. e \<in> {Job_leased i t, Job_deferred i} \<Longrightarrow> i = pj_id j"
      "\<And>i t. e = Job_leased i t \<Longrightarrow> pj_lease_until j' = Some (t + JOB_LEASE)"
  | (same) "e = Job_lapsed" "d' = d"
  | (request) env grants declared requested p call params where "e = Plugin_served p"
      "d' = snd (dispatch env grants declared requested p call params d)"
      "pe_id env \<notin> se_id ` set (pd_entries d)" "pe_id env \<notin> pj_id ` set (pd_jobs d)"
proof -
  have ok: "jobs_ok d" using assms(2) by (simp add: plugin_ok_def)
  from assms(1) show ?thesis
  proof cases
    case (leased env j)
    from ok show ?thesis
    proof (cases rule: due_claim_cases [where env = env])
      case (claimed c j' d'')
      then show ?thesis using leased by (intro row [of c j']) (auto simp: row_changed_def)
    qed (use leased in simp_all)
  next
    case (lapsed env)
    from ok show ?thesis
    proof (cases rule: due_claim_cases [where env = env])
      case none
      then show ?thesis using lapsed by (intro same) simp_all
    next
      case (lapsed c j' d'')
      then show ?thesis using \<open>claim_due_job env d = (None, d')\<close> \<open>e = Job_lapsed\<close> by (intro row [of c j']) simp_all
    qed (use lapsed in simp)
  next
    case (finished env i error)
    from finish_changed [OF ok finished(2)] obtain r r' where "row_changed r r' d d'" "pj_attempts r' = pj_attempts r" .
    then show ?thesis using finished by (intro row [of r r']) simp_all
  next
    case (deferred i env delay)
    then obtain r where r: "leased_job i d = Some r" by auto
    obtain r' where "row_changed r r' d (defer_job env i delay d)" "pj_attempts r' + 1 = pj_attempts r"
      using defer_changed [OF ok r] .
    then show ?thesis using deferred leased_jobD(3) [OF r] by (intro row [of r r']) simp_all
  next
    case (cancelled i env reason)
    then obtain r where r: "leased_job i d = Some r" by auto
    obtain r' where "row_changed r r' d (cancel_job env i reason d)" "pj_attempts r' = pj_attempts r"
      using cancel_changed [OF ok r] .
    then show ?thesis using cancelled by (intro row [of r r']) simp_all
  next
    case (served env grants declared requested p call params r)
    have "d' = snd (dispatch env grants declared requested p call params d)" using served(4) by simp
    then show ?thesis using request served(1-3) by blast
  qed
qed

lemma entries_ok_changed: "row_changed j j' d d' \<Longrightarrow> entries_ok d' = entries_ok d"
  by (simp add: entries_ok_def row_changed_def)

lemma plugin_ok_step: "\<lbrakk> job_step d e d'; plugin_ok d \<rbrakk> \<Longrightarrow> plugin_ok d'"
proof (erule (1) job_step_cases, goal_cases)
  case (1 j j')
  then show ?case using jobs_ok_changed [OF 1(2)] entries_ok_changed [OF 1(2)] by (simp add: plugin_ok_def)
next
  case (3 env grants declared requested p call params)
  then show ?case by (simp add: plugin_ok_def dispatch_jobs_ok dispatch_entries_ok)
qed simp

definition runs_of :: "string \<Rightarrow> job_event list \<Rightarrow> nat" where
  "runs_of i es = length (filter (\<lambda>e. case e of Job_leased k _ \<Rightarrow> k = i | _ \<Rightarrow> False) es)"

definition deferrals_of :: "string \<Rightarrow> job_event list \<Rightarrow> nat" where
  "deferrals_of i es = length (filter (\<lambda>e. case e of Job_deferred k \<Rightarrow> k = i | _ \<Rightarrow> False) es)"

lemma attempts_step:
  assumes "job_step d e d'" "plugin_ok d"
  shows "attempts_of i d' + deferrals_of i [e] = attempts_of i d + runs_of i [e]"
  using assms
proof (cases rule: job_step_cases)
  case (row j j')
  then show ?thesis using row_changed_attempts [OF row(1)]
    by (cases e) (auto simp: attempts_changed [OF row(1)] runs_of_def deferrals_of_def)
next
  case (request env grants declared requested p call params)
  then show ?thesis using assms(2) by (simp add: plugin_ok_def dispatch_jobs_ok runs_of_def deferrals_of_def)
qed (simp add: runs_of_def deferrals_of_def)

lemma counts_Cons: "runs_of i (e # es) = runs_of i [e] + runs_of i es"
    "deferrals_of i (e # es) = deferrals_of i [e] + deferrals_of i es"
  by (simp_all add: runs_of_def deferrals_of_def)

lemma attempts_trace:
  "\<lbrakk> job_trace d es d'; plugin_ok d \<rbrakk>
   \<Longrightarrow> plugin_ok d' \<and> attempts_of i d' + deferrals_of i es = attempts_of i d + runs_of i es"
proof (induction rule: job_trace.induct)
  case (start d)
  then show ?case by (simp add: runs_of_def deferrals_of_def)
next
  case (step d e d1 es d2)
  then show ?case using plugin_ok_step [OF step(1)] attempts_step [OF step(1), of i]
    by (simp add: counts_Cons [of i e es])
qed

text \<open>
  C37. A job is run a bounded number of times. In any sequence of requests of plugins, claims
  of any number of workers, expired leases, and finished, deferred and cancelled runs, the
  claims of a job exceed its deferrals by at most its own limit of attempts, and by at most
  \<open>MAX_JOB_ATTEMPTS\<close>.
\<close>

theorem job_runs_bounded:
  assumes "job_trace d es d'" "plugin_ok d" "get_by pj_id i (pd_jobs d') = Some j"
  shows "runs_of i es \<le> deferrals_of i es + attempt_limit j \<and> attempt_limit j \<le> MAX_JOB_ATTEMPTS"
proof -
  have "plugin_ok d'" "attempts_of i d' + deferrals_of i es = attempts_of i d + runs_of i es"
    using attempts_trace [OF assms(1,2)] by auto
  moreover have "pj_attempts j \<le> attempt_limit j"
    using jobs_okD [OF _ assms(3)] calculation(1) by (simp add: plugin_ok_def job_ok_def)
  moreover have "attempts_of i d' = pj_attempts j" using assms(3) by (simp add: attempts_of_def)
  moreover have "attempt_limit j \<le> MAX_JOB_ATTEMPTS" by (simp add: attempt_limit_def)
  ultimately show ?thesis by simp
qed

text \<open>A job that came to an end stays as it is.\<close>

lemma ended_job_final:
  assumes "job_trace d es d'" "plugin_ok d" "get_by pj_id i (pd_jobs d) = Some j" "\<not> open_job j"
  shows "get_by pj_id i (pd_jobs d') = Some j"
  using assms
proof (induction rule: job_trace.induct)
  case (step d e d1 es d2)
  from step(1,4) have "get_by pj_id i (pd_jobs d1) = Some j"
  proof (cases rule: job_step_cases)
    case (row c c')
    then have "i \<noteq> pj_id c" using step.prems by (auto simp: row_changed_def)
    then show ?thesis using get_changed [OF row(1), of i] step.prems by simp
  next
    case (request env grants declared requested p call params)
    then show ?thesis using step.prems by (simp add: plugin_ok_def dispatch_jobs_ok)
  qed (use step.prems in simp)
  then show ?case using step.IH plugin_ok_step [OF step(1)] step.prems by blast
qed

lemma within_step:
  assumes "job_step d e d'" "plugin_ok d" "within_quota q d"
  shows "within_quota q d'"
  using assms(1,2)
proof (cases rule: job_step_cases)
  case (row j j')
  then show ?thesis using within_changed [OF row(1)] assms(2,3) by (simp add: plugin_ok_def)
next
  case (request env grants declared requested p call params)
  then show ?thesis using dispatch_within assms(2,3) by (simp add: plugin_ok_def)
qed (use assms(3) in simp)

text \<open>
  C38. The quotas of every plugin hold in every state that requests and workers can reach from
  one where they do: at most 1000 entries, 64 KiB for a value, 8 MiB altogether, 500 jobs
  that have not come to an end.
\<close>

theorem quotas_hold:
  assumes "job_trace d es d'" "plugin_ok d" "within_quota q d"
  shows "within_quota q d'"
  using assms
proof (induction rule: job_trace.induct)
  case (step d e d1 es d2)
  then show ?case using within_step [OF step(1)] plugin_ok_step [OF step(1)] by blast
qed

section \<open>A run that outlasts its lease\<close>

lemma lease_job_row [simp]: "pj_id (lease_job t j) = pj_id j" "pj_plugin_id (lease_job t j) = pj_plugin_id j"
  by (simp_all add: lease_job_def)

text \<open>
  C40. With two workers, a run that outlasts its lease can end its worker and be repeated. Let a
  job be the only one in the table, due, with at least two attempts left, and let one worker
  claim and run it. While the task runs, and not before the end of the lease, a second worker, in
  a process where the plugin does not run, looks for work: it claims the job and puts it back. When
  the first worker's task then returns, \<open>finish_job\<close> raises, nothing catches it, and the loop of
  that worker is left; the job is pending again, with one attempt counted. (If no other
  worker claims the job in the meantime, \<open>finish_job\<close> succeeds however long the run took.)
\<close>

theorem slow_run_ends_worker:
  assumes "pd_jobs d = [c]" "job_due (pe_now env) c" "pj_attempts c + 1 < attempt_limit c"
    "alive (pj_plugin_id c)" "pe_now env + JOB_LEASE \<le> pe_now env1"
  shows "\<exists>d' c'. job_round env env2 alive
      (\<lambda>j d1. (Task_returned, snd (job_round env1 env1 (\<lambda>_. False) (\<lambda>j d2. (Task_returned, d2)) d1))) d
      = (Inl (Service_error ''conflict'' ''job is not leased''), d')
    \<and> pd_jobs d' = [c'] \<and> pj_id c' = pj_id c \<and> pj_status c' = ''pending'' \<and> pj_attempts c' = pj_attempts c + 1"
proof -
  let ?c1 = "(lease_job (pe_now env) c)\<lparr>pj_updated_at := pe_now env\<rparr>" and ?d1 = "d\<lparr>pd_jobs := [(lease_job (pe_now env) c)\<lparr>pj_updated_at := pe_now env\<rparr>]\<rparr>"
  have single: "claim_due_job e (d0\<lparr>pd_jobs := [j]\<rparr>)
      = (Some ((lease_job (pe_now e) j)\<lparr>pj_updated_at := pe_now e\<rparr>), d0\<lparr>pd_jobs := [(lease_job (pe_now e) j)\<lparr>pj_updated_at := pe_now e\<rparr>]\<rparr>)"
    if "job_due (pe_now e) j" "pj_attempts j < attempt_limit j" for e j and d0 :: plugin_db
    using that by (simp add: claim_due_job_def job_candidate_def update_jobs_def update_where_def same_lease_def
        rowcount_def lease_job_def)
  have d: "d = d\<lparr>pd_jobs := [c]\<rparr>" using assms(1) by (cases d) simp
  have first: "claim_due_job env d = (Some ?c1, ?d1)" using single [of env c d] assms(2,3) d by simp
  have "job_due (pe_now env1) ?c1" using assms(5) by (simp add: job_due_def lease_job_def)
  then have second: "claim_due_job env1 ?d1 = (Some ((lease_job (pe_now env1) ?c1)\<lparr>pj_updated_at := pe_now env1\<rparr>),
      d\<lparr>pd_jobs := [(lease_job (pe_now env1) ?c1)\<lparr>pj_updated_at := pe_now env1\<rparr>]\<rparr>)"
    using single [of env1 ?c1 d] assms(3) by (simp add: lease_job_def attempt_limit_def)
  let ?c2 = "(lease_job (pe_now env1) ?c1)\<lparr>pj_status := ''pending'', pj_attempts := pj_attempts c + 1, pj_lease_until := None,
      pj_run_at := pe_now env1 + seconds 60, pj_updated_at := pe_now env1\<rparr>"
  have again: "snd (job_round env1 env1 (\<lambda>_. False) (\<lambda>j d2. (Task_returned, d2)) ?d1) = d\<lparr>pd_jobs := [?c2]\<rparr>"
    by (simp add: job_round_def second) (simp add: lease_job_def defer_job_def leased_job_def put_job_def update_jobs_def update_where_def)
  have "finish_job env2 (pj_id c) None (d\<lparr>pd_jobs := [?c2]\<rparr>) = (Inl (Service_error ''conflict'' ''job is not leased''), d\<lparr>pd_jobs := [?c2]\<rparr>)"
    by (simp add: finish_job_def leased_job_def)
  moreover have "job_round env env2 alive
      (\<lambda>j d1. (Task_returned, snd (job_round env1 env1 (\<lambda>_. False) (\<lambda>j d2. (Task_returned, d2)) d1))) d
    = finish_job env2 (pj_id c) None (d\<lparr>pd_jobs := [?c2]\<rparr>)"
    using assms(4) by (subst job_round_def) (simp add: first again settle_job_def)
  ultimately show ?thesis by simp
qed

section \<open>Concrete runs\<close>

definition demo_job :: plugin_job where
  "demo_job = new_job (demo_plugin_env ''j1'') ''notes'' ''sync'' (JObj []) 0 None"

definition demo_jobs :: plugin_db where
  "demo_jobs = (demo_store [])\<lparr>pd_jobs := [demo_job]\<rparr>"

lemma demo_jobs_ok: "plugin_ok demo_jobs"
  by (simp add: plugin_ok_def entries_ok_def jobs_ok_def demo_jobs_def demo_store_def demo_job_def new_job_ok unique_key_def)

lemma demo_trace: "job_trace demo_jobs [Job_leased ''j1'' 7] (snd (claim_due_job (demo_plugin_env ''x'') demo_jobs))"
proof -
  have "claim_due_job (demo_plugin_env ''x'') demo_jobs
    = (Some (demo_job\<lparr>pj_status := ''running'', pj_attempts := 1, pj_lease_until := Some (7 + JOB_LEASE)\<rparr>),
       snd (claim_due_job (demo_plugin_env ''x'') demo_jobs))"
    by (simp add: demo_jobs_def claim_due_job_def job_candidate_def job_due_def demo_job_def new_job_def
        demo_plugin_env_def attempt_limit_def MAX_JOB_ATTEMPTS_def same_lease_def rowcount_def update_jobs_def
        update_where_def lease_job_def seconds_def)
  from job_step.leased [OF this] have "job_step demo_jobs (Job_leased ''j1'' 7) (snd (claim_due_job (demo_plugin_env ''x'') demo_jobs))"
    by (simp add: demo_job_def new_job_def demo_plugin_env_def)
  then show ?thesis by (rule job_trace.step [OF _ job_trace.start])
qed

lemma demo_leased: "get_by pj_id ''j1'' (pd_jobs (snd (claim_due_job (demo_plugin_env ''x'') demo_jobs)))
    = Some (demo_job\<lparr>pj_status := ''running'', pj_attempts := 1, pj_lease_until := Some (7 + JOB_LEASE)\<rparr>)"
  by (simp add: demo_jobs_def claim_due_job_def job_candidate_def job_due_def demo_job_def new_job_def
      demo_plugin_env_def attempt_limit_def MAX_JOB_ATTEMPTS_def same_lease_def rowcount_def update_jobs_def
      update_where_def lease_job_def seconds_def)

lemma job_runs_bounded_witness:
  "runs_of ''j1'' [Job_leased ''j1'' 7] \<le> deferrals_of ''j1'' [Job_leased ''j1'' 7] + attempt_limit demo_job
   \<and> attempt_limit demo_job \<le> MAX_JOB_ATTEMPTS"
  using job_runs_bounded [OF demo_trace demo_jobs_ok demo_leased] by simp

lemma quotas_hold_witness: "within_quota ''notes'' (snd (claim_due_job (demo_plugin_env ''x'') demo_jobs))"
proof (rule quotas_hold [OF demo_trace demo_jobs_ok])
  show "within_quota ''notes'' demo_jobs"
    by (simp add: within_quota_def demo_jobs_def demo_store_def stored_bytes_def entries_for_def active_job_def
        MAX_PENDING_JOBS_def)
qed

lemma slow_run_ends_worker_witness:
  "\<exists>d' c'. job_round (demo_plugin_env ''x'') (demo_plugin_env ''z'') (\<lambda>_. True)
      (\<lambda>j d1. (Task_returned, snd (job_round ((demo_plugin_env ''y'')\<lparr>pe_now := 7 + JOB_LEASE\<rparr>)
          ((demo_plugin_env ''y'')\<lparr>pe_now := 7 + JOB_LEASE\<rparr>) (\<lambda>_. False) (\<lambda>j d2. (Task_returned, d2)) d1))) demo_jobs
      = (Inl (Service_error ''conflict'' ''job is not leased''), d')
    \<and> pd_jobs d' = [c'] \<and> pj_id c' = pj_id demo_job \<and> pj_status c' = ''pending'' \<and> pj_attempts c' = pj_attempts demo_job + 1"
  by (rule slow_run_ends_worker)
     (simp_all add: demo_jobs_def job_due_def demo_job_def new_job_def demo_plugin_env_def seconds_def
       attempt_limit_def MAX_JOB_ATTEMPTS_def)

end
