(* ===== verification/Comment_Threads.thy ===== *)
theory Comment_Threads
  imports Database "HOL-Library.Product_Lexorder" "HOL-Library.Multiset"
begin

text \<open>
  \<open>comments/threads.py\<close>: the reply trees of a page. The nodes of the code are objects that
  hold each other in their lists of replies; here they are named by the identifiers of
  their comments, and the trees are read off that store at the end, with fuel for the
  depth, so that a cycle would show as a missing result.
\<close>

section \<open>The construction\<close>

datatype thread = Thread comment "thread list"

definition comment_key :: "comment \<Rightarrow> time \<times> string" where
  "comment_key c = (co_created_at c, co_id c)"

text \<open>\<open>by_id\<close>: of several items with one identifier the last counts.\<close>

definition node_of :: "comment list \<Rightarrow> string \<Rightarrow> comment option" where
  "node_of cs i = get_by co_id i (rev cs)"

text \<open>The node a parent identifier names, if there is one.\<close>

definition parent_node :: "comment list \<Rightarrow> comment \<Rightarrow> comment option" where
  "parent_node cs c = (if truthy_str (co_parent_id c) then node_of cs (or_empty (co_parent_id c)) else None)"

text \<open>The walk from \<open>cursor\<close> upwards, which meets the target, a node twice, or an end.\<close>

function would_cycle_from :: "comment list \<Rightarrow> string \<Rightarrow> string list \<Rightarrow> string \<Rightarrow> bool" where
  "would_cycle_from cs target seen i =
     (case node_of cs i of
        None \<Rightarrow> False
      | Some cursor \<Rightarrow>
          if i = target \<or> i \<in> set seen then True
          else if truthy_str (co_parent_id cursor)
          then would_cycle_from cs target (i # seen) (or_empty (co_parent_id cursor))
          else False)"
  by pat_completeness auto
termination
proof (relation "measure (\<lambda>(cs, target, seen, i). card (co_id ` set cs - set seen))", goal_cases)
  case 1
  show ?case by simp
next
  case (2 cs target seen i cursor)
  then have "i \<in> co_id ` set cs" "i \<notin> set seen"
    using get_by_SomeD [of co_id i "rev cs" cursor] by (auto simp: node_of_def)
  then have "co_id ` set cs - set (i # seen) \<subset> co_id ` set cs - set seen" by auto
  then show ?case by (simp add: psubset_card_mono)
qed

declare would_cycle_from.simps [simp del]

definition would_cycle :: "comment list \<Rightarrow> comment \<Rightarrow> comment \<Rightarrow> bool" where
  "would_cycle cs node parent = would_cycle_from cs (co_id node) [] (co_id parent)"

text \<open>The node a comment is put under; \<open>None\<close> makes it a root.\<close>

definition attach_to :: "comment list \<Rightarrow> comment \<Rightarrow> comment option" where
  "attach_to cs c = (case parent_node cs c of
     None \<Rightarrow> None
   | Some p \<Rightarrow> if co_id p = co_id c \<or> would_cycle cs c p then None else Some p)"

text \<open>The loop over the sorted items: the roots and the replies of each node.\<close>

fun place_all :: "comment list \<Rightarrow> comment list \<Rightarrow> comment list \<times> (string \<Rightarrow> comment list)
    \<Rightarrow> comment list \<times> (string \<Rightarrow> comment list)" where
  "place_all cs [] store = store"
| "place_all cs (c # rest) (roots, replies) =
     (case attach_to cs c of
        None \<Rightarrow> place_all cs rest (roots @ [c], replies)
      | Some p \<Rightarrow> place_all cs rest (roots, replies(co_id p := replies (co_id p) @ [c])))"

text \<open>The tree below a node, if it is no deeper than the fuel.\<close>

fun read_thread :: "nat \<Rightarrow> (string \<Rightarrow> comment list) \<Rightarrow> comment \<Rightarrow> thread option" where
  "read_thread 0 replies c = None"
| "read_thread (Suc n) replies c =
     map_option (Thread c) (those (map (read_thread n replies) (replies (co_id c))))"

definition build_comment_thread :: "comment list \<Rightarrow> thread list option" where
  "build_comment_thread cs =
     (let (roots, replies) = place_all cs (sort_key comment_key cs) ([], \<lambda>_. []) in
      those (map (read_thread (length cs) (\<lambda>i. sort_key comment_key (replies i)))
        (sort_key comment_key roots)))"

section \<open>Lemmas\<close>

fun flat :: "thread \<Rightarrow> comment list" where
  "flat (Thread c ts) = c # concat (map flat ts)"

lemma node_of_unique: "unique_key co_id cs \<Longrightarrow> node_of cs i = Some c \<longleftrightarrow> c \<in> set cs \<and> co_id c = i"
  using get_by_iff [of co_id "rev cs" i c] by (simp add: node_of_def unique_key_def rev_map [symmetric])

lemma node_of_SomeD: "node_of cs i = Some c \<Longrightarrow> c \<in> set cs \<and> co_id c = i"
  using get_by_SomeD [of co_id i "rev cs" c] by (simp add: node_of_def)

lemma attach_to_parent: "attach_to cs c = Some p \<Longrightarrow> parent_node cs c = Some p \<and> \<not> would_cycle cs c p"
  by (simp add: attach_to_def split: option.splits if_splits)

lemma attach_to_node: "attach_to cs c = Some p \<Longrightarrow> p \<in> set cs"
  using attach_to_parent [of cs c p] node_of_SomeD by (auto simp: parent_node_def split: if_splits)

text \<open>The path from a comment up to its root.\<close>

inductive path_up :: "comment list \<Rightarrow> comment \<Rightarrow> comment list \<Rightarrow> bool" for cs where
  root: "attach_to cs c = None \<Longrightarrow> path_up cs c [c]"
| reply: "\<lbrakk> attach_to cs c = Some p; path_up cs p xs \<rbrakk> \<Longrightarrow> path_up cs c (c # xs)"

inductive_simps path_up_iff: "path_up cs c xs"

lemma path_up_root: "attach_to cs c = None \<Longrightarrow> path_up cs c xs \<longleftrightarrow> xs = [c]"
  by (subst path_up_iff) simp

lemma path_up_reply: "attach_to cs c = Some p \<Longrightarrow> path_up cs c xs \<longleftrightarrow> (\<exists>ys. xs = c # ys \<and> path_up cs p ys)"
  by (subst path_up_iff) auto

lemma path_up_determ: "\<lbrakk> path_up cs c xs; path_up cs c ys \<rbrakk> \<Longrightarrow> xs = ys"
proof (induction arbitrary: ys rule: path_up.induct)
  case (root c)
  then show ?case by (simp add: path_up_root)
next
  case (reply c p xs)
  have "path_up cs c ys \<longleftrightarrow> (\<exists>zs. ys = c # zs \<and> path_up cs p zs)" by (rule path_up_reply) (rule reply)
  then obtain zs where "ys = c # zs" "path_up cs p zs" using reply.prems by blast
  then show ?case using reply.IH by blast
qed

lemma no_cycle_step:
  assumes "\<not> would_cycle_from cs t seen i" "node_of cs i = Some p"
  shows "i \<noteq> t \<and> i \<notin> set seen
    \<and> (\<forall>q. parent_node cs p = Some q \<longrightarrow> \<not> would_cycle_from cs t (i # seen) (co_id q))"
proof -
  have "\<not> would_cycle_from cs t (i # seen) (co_id q)" if "parent_node cs p = Some q" for q
  proof -
    have q: "truthy_str (co_parent_id p)" "co_id q = or_empty (co_parent_id p)"
      using that node_of_SomeD [of cs "or_empty (co_parent_id p)" q] by (simp_all add: parent_node_def split: if_splits)
    then show ?thesis
      using assms by (subst (asm) would_cycle_from.simps) (simp split: if_splits)
  qed
  then show ?thesis
    using assms by (subst (asm) would_cycle_from.simps) (auto split: if_splits)
qed

text \<open>A walk that meets no cycle has a path, on which the target is not.\<close>

lemma path_exists:
  assumes "\<not> would_cycle_from cs t seen i" "node_of cs i = Some p"
  shows "\<exists>xs. path_up cs p xs \<and> t \<notin> co_id ` set xs"
  using assms
proof (induction cs t seen i arbitrary: p rule: would_cycle_from.induct)
  case (1 cs t seen i)
  have step: "i \<noteq> t" "i \<notin> set seen"
    "\<And>q. parent_node cs p = Some q \<Longrightarrow> \<not> would_cycle_from cs t (i # seen) (co_id q)"
    using no_cycle_step [OF 1(2,3)] by simp_all
  have i: "co_id p = i" using node_of_SomeD [OF 1(3)] by simp
  show ?case
  proof (cases "attach_to cs p")
    case None
    then have "path_up cs p [p]" by (rule root)
    then show ?thesis using step i by fastforce
  next
    case (Some q)
    then have q: "parent_node cs p = Some q" using attach_to_parent by blast
    then have qi: "truthy_str (co_parent_id p)" "co_id q = or_empty (co_parent_id p)"
        "node_of cs (co_id q) = Some q"
      using node_of_SomeD [of cs "or_empty (co_parent_id p)" q] by (auto simp: parent_node_def split: if_splits)
    have "\<not> would_cycle_from cs t (i # seen) (or_empty (co_parent_id p))"
      using step(3) [OF q] qi(2) by simp
    then have "\<exists>xs. path_up cs q xs \<and> t \<notin> co_id ` set xs"
      using 1(1) [of p q] 1(3) step(1,2) qi by simp
    then obtain xs where xs: "path_up cs q xs" "t \<notin> co_id ` set xs" by blast
    have "path_up cs p (p # xs)" using Some xs(1) by (rule reply)
    then show ?thesis using xs(2) step i by fastforce
  qed
qed

lemma path_up_total: "\<exists>xs. path_up cs c xs"
proof (cases "attach_to cs c")
  case None
  then show ?thesis by (blast intro: root)
next
  case (Some p)
  have "node_of cs (co_id p) = Some p"
    using attach_to_parent [OF Some] node_of_SomeD by (auto simp: parent_node_def split: if_splits)
  then show ?thesis
    using path_exists [of cs "co_id c" "[]" "co_id p" p] attach_to_parent [OF Some] Some
    by (auto simp: would_cycle_def intro: reply)
qed

lemma path_up_distinct: "path_up cs c xs \<Longrightarrow> distinct (map co_id xs)"
proof (induction rule: path_up.induct)
  case (root c)
  then show ?case by simp
next
  case (reply c p xs)
  have "node_of cs (co_id p) = Some p"
    using attach_to_parent [OF reply(1)] node_of_SomeD by (auto simp: parent_node_def split: if_splits)
  then obtain ys where "path_up cs p ys" "co_id c \<notin> co_id ` set ys"
    using path_exists [of cs "co_id c" "[]" "co_id p" p] attach_to_parent [OF reply(1)]
    by (auto simp: would_cycle_def)
  moreover from this have "xs = ys" using reply(2) path_up_determ by blast
  ultimately show ?case using reply(3) by simp
qed

lemma path_up_subset: "path_up cs c xs \<Longrightarrow> c \<in> set cs \<Longrightarrow> set xs \<subseteq> set cs"
  by (induction rule: path_up.induct) (auto dest: attach_to_node)

lemma path_up_length:
  assumes "path_up cs c xs" "c \<in> set cs"
  shows "length xs \<le> length cs"
proof -
  have "distinct xs" using path_up_distinct [OF assms(1)] by (rule distinct_map [THEN iffD1, THEN conjunct1])
  then have "length xs = card (set xs)" by (simp add: distinct_card)
  also have "\<dots> \<le> card (set cs)" using path_up_subset [OF assms] by (simp add: card_mono)
  also have "\<dots> \<le> length cs" by (rule card_length)
  finally show ?thesis .
qed

text \<open>The store the loop leaves.\<close>

lemma place_all_eq:
  "place_all cs xs (roots, replies) =
     (roots @ filter (\<lambda>c. attach_to cs c = None) xs,
      \<lambda>i. replies i @ filter (\<lambda>c. map_option co_id (attach_to cs c) = Some i) xs)"
  by (induction xs arbitrary: roots replies) (auto split: option.split simp: fun_eq_iff)

definition replies_of :: "comment list \<Rightarrow> string \<Rightarrow> comment list" where
  "replies_of cs i = filter (\<lambda>c. map_option co_id (attach_to cs c) = Some i) (sort_key comment_key cs)"

definition roots_of :: "comment list \<Rightarrow> comment list" where
  "roots_of cs = filter (\<lambda>c. attach_to cs c = None) (sort_key comment_key cs)"

lemma sorted_filter_key: "sort_key comment_key (filter P (sort_key comment_key cs)) = filter P (sort_key comment_key cs)"
proof -
  have "sorted (map comment_key (filter P (sort_key comment_key cs)))"
    by (simp add: sorted_filter)
  then show ?thesis by (rule sort_key_id_if_sorted)
qed

lemma set_replies_of: "set (replies_of cs i) = {c \<in> set cs. map_option co_id (attach_to cs c) = Some i}"
  by (auto simp: replies_of_def)

lemma set_roots_of: "set (roots_of cs) = {c \<in> set cs. attach_to cs c = None}"
  by (auto simp: roots_of_def)

lemma unique_distinct: "unique_key co_id cs \<Longrightarrow> distinct cs"
  by (simp add: unique_key_def distinct_map)

lemma replies_distinct: "unique_key co_id cs \<Longrightarrow> distinct (replies_of cs i)"
  by (simp add: replies_of_def unique_distinct)

lemma roots_distinct: "unique_key co_id cs \<Longrightarrow> distinct (roots_of cs)"
  by (simp add: roots_of_def unique_distinct)

lemma reply_attached:
  assumes "unique_key co_id cs" "c \<in> set cs"
  shows "d \<in> set (replies_of cs (co_id c)) \<longleftrightarrow> d \<in> set cs \<and> attach_to cs d = Some c"
proof
  assume d: "d \<in> set (replies_of cs (co_id c))"
  then obtain p where p: "attach_to cs d = Some p" "co_id p = co_id c" by (auto simp: set_replies_of)
  then have "p = c" using unique_keyD [OF assms(1) attach_to_node [OF p(1)] assms(2)] by simp
  then show "d \<in> set cs \<and> attach_to cs d = Some c" using d p by (simp add: set_replies_of)
qed (simp add: set_replies_of)

lemma path_up_self: "path_up cs c xs \<Longrightarrow> c \<in> set xs"
  by (erule path_up.cases) simp_all

text \<open>A path holds one reply of each of its nodes but the lowest, and one root.\<close>

lemma replies_on_path:
  assumes "unique_key co_id cs" "c \<in> set cs" "path_up cs x ys" "x \<in> set cs"
  shows "card (set (replies_of cs (co_id c)) \<inter> set ys) = (if c \<in> set ys \<and> c \<noteq> x then 1 else 0)"
  using assms(3,4)
proof (induction rule: path_up.induct)
  case (root x)
  then show ?case by (auto simp: reply_attached [OF assms(1,2)])
next
  case (reply x p ys)
  have p: "p \<in> set cs" using attach_to_node [OF reply(1)] .
  have "path_up cs x (x # ys)" using reply(1,2) by (rule path_up.reply)
  then have x: "x \<notin> set ys" using path_up_distinct by fastforce
  have IH: "card (set (replies_of cs (co_id c)) \<inter> set ys) = (if c \<in> set ys \<and> c \<noteq> p then 1 else 0)"
    using reply.IH p by simp
  have "x \<in> set (replies_of cs (co_id c)) \<longleftrightarrow> p = c"
    using reply by (simp add: reply_attached [OF assms(1,2)])
  then show ?case using IH x path_up_self [OF reply(2)] by auto
qed

lemma roots_on_path:
  assumes "path_up cs x ys" "x \<in> set cs"
  shows "card (set (roots_of cs) \<inter> set ys) = 1"
  using assms
proof (induction rule: path_up.induct)
  case (root x)
  then show ?case by (simp add: set_roots_of)
next
  case (reply x p ys)
  then have "x \<notin> set (roots_of cs)" by (simp add: set_roots_of)
  then show ?case using reply attach_to_node [OF reply(1)] by simp
qed

lemma those_map_all:
  "(\<And>d. d \<in> set ds \<Longrightarrow> \<exists>t. f d = Some t \<and> P d t) \<Longrightarrow> \<exists>ts. those (map f ds) = Some ts \<and> list_all2 P ds ts"
  by (induction ds) (fastforce, force)

lemma sum_indicator: "distinct ds \<Longrightarrow> sum_list (map (\<lambda>d. if d \<in> A then 1 else 0) ds) = card (set ds \<inter> A)"
  by (induction ds) auto

text \<open>What a tree below \<open>c\<close> holds: the comments whose path meets \<open>c\<close>, each once.\<close>

definition holds_below :: "comment list \<Rightarrow> comment \<Rightarrow> thread \<Rightarrow> bool" where
  "holds_below cs c t \<longleftrightarrow> set (flat t) \<subseteq> set cs
     \<and> (\<forall>x ys. x \<in> set cs \<longrightarrow> path_up cs x ys \<longrightarrow> count_list (flat t) x = (if c \<in> set ys then 1 else 0))"

lemma holds_below_count:
  assumes "list_all2 (holds_below cs) ds ts" "distinct ds" "x \<in> set cs" "path_up cs x ys"
  shows "count_list (concat (map flat ts)) x = card (set ds \<inter> set ys)"
proof -
  have "count_list (concat (map flat ts)) x = sum_list (map (\<lambda>d. if d \<in> set ys then 1 else 0) ds)"
    using assms(1,3,4) by (induction rule: list_all2_induct) (auto simp: holds_below_def)
  then show ?thesis using assms(2) by (simp add: sum_indicator)
qed

lemma holds_below_subset: "list_all2 (holds_below cs) ds ts \<Longrightarrow> set (concat (map flat ts)) \<subseteq> set cs"
  by (induction rule: list_all2_induct) (auto simp: holds_below_def)

lemma read_thread_total:
  assumes u: "unique_key co_id cs"
  shows "\<lbrakk> path_up cs c xs; c \<in> set cs; length cs < length xs + n \<rbrakk>
    \<Longrightarrow> \<exists>t. read_thread n (replies_of cs) c = Some t \<and> holds_below cs c t"
proof (induction n arbitrary: c xs)
  case 0
  then show ?case using path_up_length [of cs c xs] by simp
next
  case (Suc n)
  let ?ds = "replies_of cs (co_id c)"
  have "\<exists>t. read_thread n (replies_of cs) d = Some t \<and> holds_below cs d t" if "d \<in> set ?ds" for d
  proof (rule Suc.IH)
    have d: "d \<in> set cs" "attach_to cs d = Some c" using that reply_attached [OF u Suc.prems(2)] by simp_all
    show "path_up cs d (d # xs)" using d(2) Suc.prems(1) by (rule path_up.reply)
    show "d \<in> set cs" by (rule d(1))
    show "length cs < length (d # xs) + n" using Suc.prems(3) by simp
  qed
  then obtain ts where ts: "those (map (read_thread n (replies_of cs)) ?ds) = Some ts"
      "list_all2 (holds_below cs) ?ds ts"
    using those_map_all [of ?ds "read_thread n (replies_of cs)" "holds_below cs"] by blast
  have "holds_below cs c (Thread c ts)"
    unfolding holds_below_def
  proof (intro conjI allI impI)
    show "set (flat (Thread c ts)) \<subseteq> set cs" using holds_below_subset [OF ts(2)] Suc.prems(2) by simp
    fix x ys assume x: "x \<in> set cs" "path_up cs x ys"
    show "count_list (flat (Thread c ts)) x = (if c \<in> set ys then 1 else 0)"
      using holds_below_count [OF ts(2) replies_distinct [OF u] x] replies_on_path [OF u Suc.prems(2) x(2,1)]
        path_up_self [OF x(2)] by auto
  qed
  then show ?case using ts(1) by simp
qed

lemma build_eq:
  "build_comment_thread cs = those (map (read_thread (length cs) (replies_of cs)) (roots_of cs))"
proof -
  have place: "place_all cs (sort_key comment_key cs) ([], \<lambda>_. []) = (roots_of cs, replies_of cs)"
    by (simp add: place_all_eq roots_of_def replies_of_def [abs_def])
  have "(\<lambda>i. sort_key comment_key (replies_of cs i)) = replies_of cs"
    by (simp add: fun_eq_iff replies_of_def sorted_filter_key)
  moreover have "sort_key comment_key (roots_of cs) = roots_of cs"
    by (simp add: roots_of_def sorted_filter_key)
  ultimately show ?thesis by (simp add: build_comment_thread_def place)
qed

lemma forest_holds:
  assumes u: "unique_key co_id cs"
  shows "\<exists>ts. build_comment_thread cs = Some ts \<and> mset (concat (map flat ts)) = mset cs"
proof -
  have "\<exists>t. read_thread (length cs) (replies_of cs) r = Some t \<and> holds_below cs r t" if "r \<in> set (roots_of cs)" for r
    using that read_thread_total [OF u path_up.root, of r "length cs"] by (simp add: set_roots_of)
  then obtain ts where ts: "those (map (read_thread (length cs) (replies_of cs)) (roots_of cs)) = Some ts"
      "list_all2 (holds_below cs) (roots_of cs) ts"
    using those_map_all [of "roots_of cs" "read_thread (length cs) (replies_of cs)" "holds_below cs"] by blast
  have "mset (concat (map flat ts)) = mset cs"
  proof (rule multiset_eqI)
    fix x
    show "count (mset (concat (map flat ts))) x = count (mset cs) x"
    proof (cases "x \<in> set cs")
      case True
      obtain ys where ys: "path_up cs x ys" using path_up_total by blast
      show ?thesis
        using holds_below_count [OF ts(2) roots_distinct [OF u] True ys] roots_on_path [OF ys True]
          distinct_count_atmost_1 [of cs] unique_distinct [OF u] True
        by (simp add: count_mset)
    next
      case False
      then have "x \<notin> set (concat (map flat ts))" using holds_below_subset [OF ts(2)] by blast
      then show ?thesis using False by (simp add: count_mset count_list_0_iff)
    qed
  qed
  then show ?thesis using ts(1) by (simp add: build_eq)
qed

section \<open>Properties\<close>

text \<open>
  C27. Whatever the parent references are, dangling, to itself or in cycles: the reply trees
  of comments with distinct identifiers are finite, and every comment is in them exactly
  once.
\<close>

theorem thread_keeps_every_comment:
  assumes u: "unique_key co_id cs"
  shows "\<exists>ts. build_comment_thread cs = Some ts \<and> mset (concat (map flat ts)) = mset cs"
  by (rule forest_holds [OF u])

text \<open>A comment, two that reply to each other, and a reply to the first.\<close>

definition demo_comment :: "string \<Rightarrow> string option \<Rightarrow> time \<Rightarrow> comment" where
  "demo_comment i parent t = \<lparr>co_id = i, co_post_id = ''p'', co_author_user_id = Some ''u'', co_remote_actor_id = None,
     co_remote_object_uri = None, co_federation_inbox_activity_id = None, co_author_name = ''U'', co_author_email = None,
     co_author_url = None, co_body = ''b'', co_status = Comment_Approved, co_confirmation_token_hash = None,
     co_confirmation_expires_at = None, co_confirmation_sent_at = None, co_confirmed_at = Some t,
     co_approved_at = Some t, co_published_at = Some t, co_edited_at = None, co_parent_id = parent,
     co_quote_of_id = None, co_mod_note = None, co_ip_address = None, co_user_agent = None, co_country_code = None,
     co_rdap_json = None, co_created_at = t\<rparr>"

definition demo_page :: "comment list" where
  "demo_page = [demo_comment ''a'' None 1, demo_comment ''b'' (Some ''c'') 2, demo_comment ''c'' (Some ''b'') 3,
     demo_comment ''d'' (Some ''a'') 4]"

theorem thread_keeps_every_comment_witness:
  "\<exists>ts. build_comment_thread demo_page = Some ts \<and> mset (concat (map flat ts)) = mset demo_page"
  by (rule thread_keeps_every_comment) (simp add: demo_page_def demo_comment_def unique_key_def)

fun top :: "thread \<Rightarrow> comment" where
  "top (Thread c ts) = c"

fun links :: "thread \<Rightarrow> (comment \<times> comment) list" where
  "links (Thread c ts) = map (\<lambda>t. (c, top t)) ts @ concat (map links ts)"

lemma read_thread_top: "read_thread n replies c = Some t \<Longrightarrow> top t = c"
  by (cases n) auto

lemma those_SomeD: "those xs = Some ys \<Longrightarrow> xs = map Some ys"
  by (induction xs arbitrary: ys) (auto split: option.splits)

lemma read_thread_links:
  "\<lbrakk> read_thread n (replies_of cs) c = Some t; c \<in> set cs; unique_key co_id cs; (p, d) \<in> set (links t) \<rbrakk>
   \<Longrightarrow> attach_to cs d = Some p"
proof (induction n arbitrary: c t)
  case 0
  then show ?case by simp
next
  case (Suc n)
  obtain ts where ts: "map (read_thread n (replies_of cs)) (replies_of cs (co_id c)) = map Some ts" "t = Thread c ts"
    using Suc.prems(1) by (auto dest: those_SomeD)
  have child: "\<exists>e. e \<in> set (replies_of cs (co_id c)) \<and> read_thread n (replies_of cs) e = Some s" if "s \<in> set ts" for s
  proof -
    have "Some s \<in> set (map (read_thread n (replies_of cs)) (replies_of cs (co_id c)))" using that ts(1) by simp
    then show ?thesis by auto
  qed
  from Suc.prems(4) consider s where "s \<in> set ts" "p = c" "d = top s" | s where "s \<in> set ts" "(p, d) \<in> set (links s)"
    by (auto simp: ts(2))
  then show ?case
  proof cases
    case (1 s)
    obtain e where "e \<in> set (replies_of cs (co_id c))" "read_thread n (replies_of cs) e = Some s" using child 1 by blast
    then show ?thesis using 1 reply_attached [OF Suc.prems(3,2)] read_thread_top by auto
  next
    case (2 s)
    obtain e where e: "e \<in> set (replies_of cs (co_id c))" "read_thread n (replies_of cs) e = Some s" using child 2 by blast
    then have "e \<in> set cs" by (simp add: set_replies_of)
    then show ?thesis using Suc.IH e(2) Suc.prems(3) 2(2) by blast
  qed
qed

lemma top_flat: "top t \<in> set (flat t)"
  by (cases t) simp

lemma links_flat: "(p, d) \<in> set (links t) \<Longrightarrow> d \<in> set (flat t)"
proof (induction t)
  case (Thread c ts)
  then consider s where "s \<in> set ts" "d = top s" | s where "s \<in> set ts" "(p, d) \<in> set (links s)" by auto
  then show ?case
  proof cases
    case (1 s)
    then show ?thesis using top_flat [of s] by auto
  next
    case (2 s)
    then show ?thesis using Thread.IH [OF 2] by auto
  qed
qed

text \<open>Every comment of a tree is its top or below another.\<close>

lemma flat_links: "d \<in> set (flat t) \<Longrightarrow> d = top t \<or> (\<exists>p. (p, d) \<in> set (links t))"
proof (induction t)
  case (Thread c ts)
  then consider "d = c" | s where "s \<in> set ts" "d \<in> set (flat s)" by auto
  then show ?case
  proof cases
    case (2 s)
    then show ?thesis using Thread.IH [OF 2] by auto
  qed simp
qed

lemma forest_links:
  assumes u: "unique_key co_id cs" and ts: "build_comment_thread cs = Some ts"
  shows "(\<exists>t \<in> set ts. (p, d) \<in> set (links t)) \<longleftrightarrow> d \<in> set cs \<and> attach_to cs d = Some p"
proof -
  have eq: "map (read_thread (length cs) (replies_of cs)) (roots_of cs) = map Some ts"
    using ts by (simp add: build_eq those_SomeD)
  have tree: "\<exists>r. r \<in> set cs \<and> attach_to cs r = None \<and> read_thread (length cs) (replies_of cs) r = Some t"
    if "t \<in> set ts" for t
  proof -
    have "Some t \<in> set (map (read_thread (length cs) (replies_of cs)) (roots_of cs))" using that eq by simp
    then show ?thesis by (auto simp: set_roots_of)
  qed
  have held: "set (concat (map flat ts)) = set cs"
    using forest_holds [OF u] ts mset_eq_setD [of "concat (map flat ts)" cs] by simp
  have link: "attach_to cs e = Some q" if "t \<in> set ts" "(q, e) \<in> set (links t)" for t q e
    using tree [OF that(1)] read_thread_links [OF _ _ u that(2)] by blast
  show ?thesis
  proof
    assume "\<exists>t \<in> set ts. (p, d) \<in> set (links t)"
    then obtain t where t: "t \<in> set ts" "(p, d) \<in> set (links t)" by blast
    then have "d \<in> set (flat t)" by (simp add: links_flat)
    then have "d \<in> set (concat (map flat ts))" using t(1) by auto
    then show "d \<in> set cs \<and> attach_to cs d = Some p" unfolding held using link [OF t] by blast
  next
    assume d: "d \<in> set cs \<and> attach_to cs d = Some p"
    then obtain t where t: "t \<in> set ts" "d \<in> set (flat t)" using held by auto
    have "d \<noteq> top t" using tree [OF t(1)] read_thread_top d by fastforce
    then obtain q where q: "(q, d) \<in> set (links t)" using flat_links [OF t(2)] by blast
    then have "q = p" using link [OF t(1) q] d by simp
    then show "\<exists>t \<in> set ts. (p, d) \<in> set (links t)" using t(1) q by blast
  qed
qed

text \<open>
  The reference: a comment replies to the one its parent identifier names, and its references
  upwards come to an end.
\<close>

definition replies_to :: "comment \<Rightarrow> comment \<Rightarrow> bool" where
  "replies_to d p \<longleftrightarrow> co_parent_id d = Some (co_id p) \<and> co_id p \<noteq> []"

inductive ends_up :: "comment list \<Rightarrow> comment \<Rightarrow> bool" for cs where
  top_level: "\<forall>p \<in> set cs. \<not> replies_to d p \<Longrightarrow> ends_up cs d"
| below: "\<lbrakk> p \<in> set cs; replies_to d p; ends_up cs p \<rbrakk> \<Longrightarrow> ends_up cs d"

lemma parent_node_iff: "unique_key co_id cs \<Longrightarrow> parent_node cs d = Some p \<longleftrightarrow> p \<in> set cs \<and> replies_to d p"
  by (cases "co_parent_id d") (auto simp: parent_node_def replies_to_def node_of_unique)

lemma parent_node_None_iff: "unique_key co_id cs \<Longrightarrow> parent_node cs d = None \<longleftrightarrow> (\<forall>p \<in> set cs. \<not> replies_to d p)"
  using parent_node_iff [of cs d] by (metis not_None_eq option.distinct(1))

definition upwards :: "comment list \<Rightarrow> (comment \<times> comment) set" where
  "upwards cs = {(d, p). parent_node cs d = Some p}"

lemma upwards_step: "parent_node cs d = Some p \<Longrightarrow> (d, q) \<in> (upwards cs)\<^sup>+ \<longleftrightarrow> (p, q) \<in> (upwards cs)\<^sup>*"
proof
  assume p: "parent_node cs d = Some p" and "(d, q) \<in> (upwards cs)\<^sup>+"
  then obtain r where "(d, r) \<in> upwards cs" "(r, q) \<in> (upwards cs)\<^sup>*" by (blast dest: tranclD)
  then show "(p, q) \<in> (upwards cs)\<^sup>*" using p by (simp add: upwards_def)
next
  assume "parent_node cs d = Some p" and "(p, q) \<in> (upwards cs)\<^sup>*"
  then show "(d, q) \<in> (upwards cs)\<^sup>+" by (intro rtrancl_into_trancl2) (simp_all add: upwards_def)
qed

lemma ends_up_acyclic:
  assumes u: "unique_key co_id cs" and "ends_up cs d"
  shows "(d, d) \<notin> (upwards cs)\<^sup>+"
  using assms(2)
proof (induction rule: ends_up.induct)
  case (top_level d)
  then have "parent_node cs d = None" using parent_node_None_iff [OF u] by blast
  then show ?case by (auto simp: upwards_def dest: tranclD)
next
  case (below p d)
  then have p: "parent_node cs d = Some p" using parent_node_iff [OF u] by blast
  show ?case
  proof
    assume "(d, d) \<in> (upwards cs)\<^sup>+"
    then have "(p, d) \<in> (upwards cs)\<^sup>*" using upwards_step [OF p] by blast
    moreover have "(d, p) \<in> upwards cs" using p by (simp add: upwards_def)
    ultimately show False using below.IH by (meson rtrancl_into_trancl1)
  qed
qed

lemma upwards_in_page: "\<lbrakk> (p, q) \<in> (upwards cs)\<^sup>*; p \<in> set cs \<rbrakk> \<Longrightarrow> q \<in> set cs"
  by (induction rule: rtrancl_induct) (auto simp: upwards_def parent_node_def dest: node_of_SomeD split: if_splits)

text \<open>A walk along references that end meets neither the target nor a node twice.\<close>

lemma ends_up_no_cycle:
  assumes u: "unique_key co_id cs" and "ends_up cs p"
  shows "p \<in> set cs \<Longrightarrow> (\<forall>q. (p, q) \<in> (upwards cs)\<^sup>* \<longrightarrow> co_id q \<noteq> t \<and> co_id q \<notin> set seen)
    \<Longrightarrow> \<not> would_cycle_from cs t seen (co_id p)"
  using assms(2)
proof (induction arbitrary: seen rule: ends_up.induct)
  case (top_level d)
  have "parent_node cs d = None" using parent_node_None_iff [OF u] top_level by blast
  then have "node_of cs (or_empty (co_parent_id d)) = None" if "truthy_str (co_parent_id d)"
    using that by (simp add: parent_node_def)
  moreover have "node_of cs (co_id d) = Some d" using node_of_unique [OF u] top_level(2) by simp
  moreover have "co_id d \<noteq> t \<and> co_id d \<notin> set seen" using top_level(3) by blast
  ultimately show ?case
    by (subst would_cycle_from.simps) (simp add: would_cycle_from.simps [of _ _ _ "or_empty (co_parent_id d)"])
next
  case (below p d)
  have p: "parent_node cs d = Some p" using parent_node_iff [OF u] below(1,2) by blast
  have d: "ends_up cs d" using below(1-3) by (rule ends_up.below)
  have "co_id q \<noteq> t \<and> co_id q \<notin> set (co_id d # seen)" if q: "(p, q) \<in> (upwards cs)\<^sup>*" for q
  proof -
    have dq: "(d, q) \<in> (upwards cs)\<^sup>+" using upwards_step [OF p] q by blast
    then have "q \<noteq> d" using ends_up_acyclic [OF u d] by blast
    then have "co_id q \<noteq> co_id d"
      using unique_keyD [OF u upwards_in_page [OF q below(1)] below.prems(1)] by blast
    then show ?thesis using below.prems(2) trancl_into_rtrancl [OF dq] by simp
  qed
  then have "\<not> would_cycle_from cs t (co_id d # seen) (co_id p)" using below.IH [OF below(1)] by blast
  moreover have "or_empty (co_parent_id d) = co_id p" "truthy_str (co_parent_id d)"
    using below(2) by (simp_all add: replies_to_def)
  moreover have "node_of cs (co_id d) = Some d" using node_of_unique [OF u] below.prems(1) by simp
  moreover have "co_id d \<noteq> t \<and> co_id d \<notin> set seen" using below.prems(2) by blast
  ultimately show ?case by (subst would_cycle_from.simps) simp
qed

lemma no_cycle_ends_up:
  "\<lbrakk> unique_key co_id cs; \<not> would_cycle_from cs t seen i; node_of cs i = Some p \<rbrakk> \<Longrightarrow> ends_up cs p"
proof (induction cs t seen i arbitrary: p rule: would_cycle_from.induct)
  case (1 cs t seen i)
  have step: "i \<noteq> t" "i \<notin> set seen"
    "\<And>q. parent_node cs p = Some q \<Longrightarrow> \<not> would_cycle_from cs t (i # seen) (co_id q)"
    using no_cycle_step [OF 1(3,4)] by simp_all
  show ?case
  proof (cases "parent_node cs p")
    case None
    then show ?thesis using parent_node_None_iff [OF 1(2)] by (blast intro: top_level)
  next
    case (Some q)
    then have q: "q \<in> set cs" "replies_to p q" using parent_node_iff [OF 1(2)] by blast+
    then have qi: "truthy_str (co_parent_id p)" "or_empty (co_parent_id p) = co_id q" "node_of cs (co_id q) = Some q"
      using node_of_unique [OF 1(2)] by (simp_all add: replies_to_def)
    have "ends_up cs q" using 1(1) [of p q] 1(2,4) step(1,2) step(3) [OF Some] qi by simp
    with q show ?thesis by (rule ends_up.below)
  qed
qed

lemma attach_to_iff:
  assumes u: "unique_key co_id cs" and d: "d \<in> set cs"
  shows "attach_to cs d = Some p \<longleftrightarrow> p \<in> set cs \<and> replies_to d p \<and> ends_up cs d"
proof
  assume a: "attach_to cs d = Some p"
  then have p: "p \<in> set cs" "replies_to d p" and no: "\<not> would_cycle_from cs (co_id d) [] (co_id p)"
    using attach_to_parent [OF a] parent_node_iff [OF u] by (simp_all add: would_cycle_def)
  have "ends_up cs p" using no_cycle_ends_up [OF u no] node_of_unique [OF u] p(1) by blast
  with p show "p \<in> set cs \<and> replies_to d p \<and> ends_up cs d" by (blast intro: ends_up.below)
next
  assume a: "p \<in> set cs \<and> replies_to d p \<and> ends_up cs d"
  then have p: "parent_node cs d = Some p" using parent_node_iff [OF u] by blast
  have dd: "(d, d) \<notin> (upwards cs)\<^sup>+" using ends_up_acyclic [OF u] a by blast
  have other: "co_id q \<noteq> co_id d" if q: "(p, q) \<in> (upwards cs)\<^sup>*" for q
    using upwards_step [OF p, of q] q dd unique_keyD [OF u upwards_in_page [OF q] d] a by blast
  from a have "ends_up cs d" by blast
  then have "ends_up cs p"
  proof cases
    case top_level
    then show ?thesis using a by blast
  next
    case (below q)
    then have "q = p" using parent_node_iff [OF u, of d q] p by simp
    then show ?thesis using below(3) by simp
  qed
  then have "\<not> would_cycle_from cs (co_id d) [] (co_id p)"
    using ends_up_no_cycle [OF u, of p "co_id d" "[]"] a other by simp
  then show "attach_to cs d = Some p" using p other [of p] by (simp add: attach_to_def would_cycle_def)
qed

text \<open>
  C28. In the trees of a page of comments with distinct identifiers a comment stands directly
  under another if and only if its parent identifier names that one and its chain of parent
  references ends; comments whose references are dangling or run into a cycle are roots.
\<close>

theorem thread_links_are_replies:
  assumes u: "unique_key co_id cs"
  shows "\<exists>ts. build_comment_thread cs = Some ts
    \<and> (\<forall>p d. (\<exists>t \<in> set ts. (p, d) \<in> set (links t))
         \<longleftrightarrow> d \<in> set cs \<and> p \<in> set cs \<and> replies_to d p \<and> ends_up cs d)"
  using forest_holds [OF u] forest_links [OF u] attach_to_iff [OF u] by blast

lemma demo_threads:
  "map_option (\<lambda>ts. map (\<lambda>(p, d). (co_id p, co_id d)) (concat (map links ts))) (build_comment_thread demo_page)
     = Some [(''a'', ''d'')]"
  by code_simp

theorem thread_links_are_replies_witness:
  "map_option (\<lambda>ts. map (\<lambda>(p, d). (co_id p, co_id d)) (concat (map links ts))) (build_comment_thread demo_page)
     = Some [(''a'', ''d'')]
   \<and> (\<exists>ts. build_comment_thread demo_page = Some ts
    \<and> (\<forall>p d. (\<exists>t \<in> set ts. (p, d) \<in> set (links t))
         \<longleftrightarrow> d \<in> set demo_page \<and> p \<in> set demo_page \<and> replies_to d p \<and> ends_up demo_page d))"
  by (intro conjI demo_threads thread_links_are_replies) (simp add: demo_page_def demo_comment_def unique_key_def)

end
