(* ===== verification/Federation_Policy.thy ===== *)
theory Federation_Policy
  imports Database
begin

text \<open>
  \<open>federation/security.py\<close> and \<open>federation/policy.py\<close>: domain names, the syntax of remote
  URLs, the redirect loop of a guarded fetch, and the rules that say which domains the
  instance talks to. \<open>urlsplit\<close> is written out for what the code reads of its result. The
  IDNA codec beyond ASCII, the classification of an address literal by \<open>ipaddress\<close>, the
  checks of \<open>urlsplit\<close> on brackets and on the NFKC form of a host beyond ASCII, and the look-ups
  of DNS are arguments.
\<close>

datatype fed_error =
    Fetch_error string
  | Value_error string
  | Runtime_error string
  | Inbox_error string
  | Integrity_failure
  | Unexpected_failure

datatype dns_answer = Dns_timeout | Dns_failed | Dns_answers "string list"

record net_env =
  nt_idna :: "string \<Rightarrow> string option"
  nt_address :: "string \<Rightarrow> bool option"
  nt_brackets_ok :: "string \<Rightarrow> bool"
  nt_nfkc_ok :: "string \<Rightarrow> bool"
  nt_dns :: "string \<Rightarrow> dns_answer"

section \<open>Cutting strings\<close>

text \<open>\<open>s.partition(c)\<close> and \<open>s.rpartition(c)\<close>.\<close>

fun partition_at :: "char \<Rightarrow> string \<Rightarrow> string \<times> bool \<times> string" where
  "partition_at c [] = ([], False, [])"
| "partition_at c (x # xs) =
     (if x = c then ([], True, xs)
      else case partition_at c xs of (a, found, b) \<Rightarrow> (x # a, found, b))"

definition rpartition_at :: "char \<Rightarrow> string \<Rightarrow> string \<times> bool \<times> string" where
  "rpartition_at c s = (case partition_at c (rev s) of
     (b, found, a) \<Rightarrow> if found then (rev a, True, rev b) else ([], False, s))"

definition before_at :: "char \<Rightarrow> string \<Rightarrow> string" where
  "before_at c s = fst (partition_at c s)"

definition after_at :: "char \<Rightarrow> string \<Rightarrow> string" where
  "after_at c s = snd (snd (partition_at c s))"

definition ascii :: "string \<Rightarrow> bool" where
  "ascii s = list_all (\<lambda>c. (of_char c :: nat) < 128) s"

definition decimal :: "string \<Rightarrow> int" where
  "decimal s = foldl (\<lambda>n c. 10 * n + (int (of_char c) - 48)) 0 s"

section \<open>Domains\<close>

text \<open>
  Encoding an ASCII name with the codec keeps it, and raises only for labels the check
  after it refuses too.
\<close>

definition idna_ascii :: "net_env \<Rightarrow> string \<Rightarrow> string option" where
  "idna_ascii net value = (if ascii value then Some value else nt_idna net value)"

definition normalize_domain :: "net_env \<Rightarrow> string \<Rightarrow> fed_error + string" where
  "normalize_domain net domain =
     (let value = lower (strip (rev (dropWhile (\<lambda>c. c = CHR ''.'') (rev domain)))) in
      if value = [] \<or> length value > 253 \<or> CHR '':'' \<in> set value \<or> CHR ''/'' \<in> set value
      then Inl (Fetch_error ''invalid_domain'')
      else (case idna_ascii net value of
          None \<Rightarrow> Inl (Fetch_error ''invalid_domain'')
        | Some name \<Rightarrow>
            if name = [] \<or> list_ex (\<lambda>label. label = [] \<or> length label > 63) (split_on CHR ''.'' name)
            then Inl (Fetch_error ''invalid_domain'') else Inr name))"

section \<open>URLs\<close>

record split_url =
  sp_scheme :: string
  sp_netloc :: string
  sp_path :: string
  sp_query :: string
  sp_fragment :: string

definition scheme_char :: "char \<Rightarrow> bool" where
  "scheme_char c \<longleftrightarrow> is_lower_alpha c \<or> is_upper_alpha c \<or> is_digit c \<or> c = CHR ''+'' \<or> c = CHR ''-'' \<or> c = CHR ''.''"

definition unsafe_removed :: "string \<Rightarrow> string" where
  "unsafe_removed url = filter (\<lambda>c. (of_char c :: nat) \<notin> {9, 10, 13})
     (dropWhile (\<lambda>c. (of_char c :: nat) \<le> 32) url)"

definition split_scheme :: "string \<Rightarrow> string \<times> string" where
  "split_scheme url = (case partition_at CHR '':'' url of
     (s, found, rest) \<Rightarrow>
       if found \<and> s \<noteq> [] \<and> (is_lower_alpha (hd s) \<or> is_upper_alpha (hd s)) \<and> list_all scheme_char s
       then (lower s, rest) else ([], url))"

definition split_netloc :: "string \<Rightarrow> string \<times> string" where
  "split_netloc url = (if startswith url ''//''
     then (takeWhile (\<lambda>c. c \<notin> {CHR ''/'', CHR ''?'', CHR ''#''}) (drop 2 url),
           dropWhile (\<lambda>c. c \<notin> {CHR ''/'', CHR ''?'', CHR ''#''}) (drop 2 url))
     else ([], url))"

text \<open>\<open>None\<close> where \<open>urlsplit\<close> raises.\<close>

definition urlsplit :: "net_env \<Rightarrow> string \<Rightarrow> split_url option" where
  "urlsplit net url0 =
     (let (scheme, rest) = split_scheme (unsafe_removed url0);
          (netloc, tail) = split_netloc rest;
          (no_fragment, _, fragment) = partition_at CHR ''#'' tail;
          (path, _, query) = partition_at CHR ''?'' no_fragment
      in if (CHR ''['' \<in> set netloc \<or> CHR '']'' \<in> set netloc)
            \<and> \<not> (CHR ''['' \<in> set netloc \<and> CHR '']'' \<in> set netloc \<and> nt_brackets_ok net netloc)
            \<or> \<not> ascii netloc \<and> \<not> nt_nfkc_ok net netloc
         then None
         else Some \<lparr>sp_scheme = scheme, sp_netloc = netloc, sp_path = path, sp_query = query,
                    sp_fragment = fragment\<rparr>)"

definition host_info :: "split_url \<Rightarrow> string \<times> string" where
  "host_info u =
     (let (_, _, info) = rpartition_at CHR ''@'' (sp_netloc u);
          (_, bracket, bracketed) = partition_at CHR ''['' info
      in if bracket then
           (let (host, _, rest) = partition_at CHR '']'' bracketed in (host, after_at CHR '':'' rest))
         else (let (host, _, port) = partition_at CHR '':'' info in (host, port)))"

definition url_hostname :: "split_url \<Rightarrow> string option" where
  "url_hostname u = (let (host, found, zone) = partition_at CHR ''%'' (fst (host_info u)) in
     or_none (lower host @ (if found then CHR ''%'' # zone else [])))"

text \<open>\<open>Inl ()\<close> where reading the port raises.\<close>

definition url_port :: "split_url \<Rightarrow> unit + int option" where
  "url_port u = (let port = snd (host_info u) in
     if port = [] then Inr None
     else if \<not> list_all is_digit port then Inl ()
     else if decimal port > 65535 then Inl ()
     else Inr (Some (decimal port)))"

definition url_userinfo :: "split_url \<Rightarrow> string option \<times> string option" where
  "url_userinfo u = (let (info, found, _) = rpartition_at CHR ''@'' (sp_netloc u) in
     if \<not> found then (None, None)
     else (let (name, have_password, password) = partition_at CHR '':'' info in
       (Some name, if have_password then Some password else None)))"

definition is_ip :: "net_env \<Rightarrow> string \<Rightarrow> bool" where
  "is_ip net host \<longleftrightarrow> nt_address net host \<noteq> None"

definition validate_remote_url_syntax :: "net_env \<Rightarrow> string \<Rightarrow> fed_error + (string \<times> string)" where
  "validate_remote_url_syntax net url = (case urlsplit net url of
     None \<Rightarrow> Inl (Fetch_error ''invalid_url'')
   | Some parsed \<Rightarrow>
       (case url_port parsed of
          Inl _ \<Rightarrow> Inl (Fetch_error ''invalid_url'')
        | Inr port \<Rightarrow>
            if sp_scheme parsed \<noteq> ''https'' \<or> url_hostname parsed = None
               \<or> truthy_str (fst (url_userinfo parsed)) \<or> truthy_str (snd (url_userinfo parsed))
            then Inl (Fetch_error ''https_url_required'')
            else if sp_fragment parsed \<noteq> [] \<or> (case port of None \<Rightarrow> False | Some p \<Rightarrow> \<not> (1 \<le> p \<and> p \<le> 65535))
            then Inl (Fetch_error ''invalid_url'')
            else
             (let name = or_empty (url_hostname parsed) in
              case (if is_ip net name then Inr name else normalize_domain net name) of
                Inl e \<Rightarrow> Inl e
              | Inr host \<Rightarrow>
                  if nt_address net host = Some False then Inl (Fetch_error ''blocked_address'')
                  else Inr (host, if sp_path parsed = [] then ''/'' else sp_path parsed))))"

text \<open>
  A look-up that fails, other than by its time limit, raises an error of the operating
  system that no caller names. The text of an answer need not be an address.
\<close>

definition address_check :: "net_env \<Rightarrow> string \<Rightarrow> fed_error option" where
  "address_check net a = (case nt_address net a of
     None \<Rightarrow> Some (Fetch_error ''invalid_dns_address'')
   | Some ok \<Rightarrow> if ok then None else Some (Fetch_error ''blocked_address''))"

fun first_bad :: "net_env \<Rightarrow> string list \<Rightarrow> fed_error option" where
  "first_bad net [] = None"
| "first_bad net (a # as) = (case address_check net a of Some e \<Rightarrow> Some e | None \<Rightarrow> first_bad net as)"

definition check_addresses :: "net_env \<Rightarrow> string list \<Rightarrow> fed_error + string list" where
  "check_addresses net as =
     (if as = [] then Inl (Fetch_error ''dns_empty'')
      else case first_bad net as of Some e \<Rightarrow> Inl e | None \<Rightarrow> Inr as)"

definition validate_remote_url :: "net_env \<Rightarrow> string \<Rightarrow> fed_error + string list" where
  "validate_remote_url net url = (case validate_remote_url_syntax net url of
     Inl e \<Rightarrow> Inl e
   | Inr (host, _) \<Rightarrow>
       if is_ip net host then check_addresses net [host]
       else (case nt_dns net host of
           Dns_timeout \<Rightarrow> Inl (Fetch_error ''dns_timeout'')
         | Dns_failed \<Rightarrow> Inl Unexpected_failure
         | Dns_answers as \<Rightarrow> check_addresses net (rev (remdups (rev as)))))"

section \<open>Fetching\<close>

text \<open>
  One answer of a server, as the transport reports it: the peer address, the status, the
  location of a redirect (already joined with the current URL), the media type and the
  declared and the received length of the body.
\<close>

record 'b hop =
  hp_peer :: "string option"
  hp_status :: int
  hp_location :: "string option"
  hp_media_type :: string
  hp_declared :: "string option"
  hp_chunks :: "nat list"
  hp_body :: 'b

definition MAX_REMOTE_BYTES :: nat where "MAX_REMOTE_BYTES = 2097152"
definition MAX_REDIRECTS :: nat where "MAX_REDIRECTS = 3"

definition ACTIVITY_MEDIA_TYPES :: "string list" where
  "ACTIVITY_MEDIA_TYPES = [''application/activity+json'', ''application/ld+json'', ''application/jrd+json'']"

text \<open>\<open>int(text)\<close> for a decimal text without underscores, with an optional sign.\<close>

definition parse_int :: "string \<Rightarrow> int option" where
  "parse_int s = (let t = strip s in
     if t = [] then None
     else if hd t \<in> {CHR ''-'', CHR ''+''} then
       (if tl t \<noteq> [] \<and> list_all is_digit (tl t)
        then Some (if hd t = CHR ''-'' then - decimal (tl t) else decimal (tl t)) else None)
     else if list_all is_digit t then Some (decimal t) else None)"

definition peer_check :: "net_env \<Rightarrow> string option \<Rightarrow> fed_error option" where
  "peer_check net p = (case p of
     None \<Rightarrow> None
   | Some a \<Rightarrow> (case nt_address net a of
       None \<Rightarrow> Some (Value_error ''not an address'')
     | Some ok \<Rightarrow> if ok then None else Some (Fetch_error ''blocked_peer'')))"

text \<open>\<open>response.is_redirect\<close>.\<close>

definition is_redirect :: "int \<Rightarrow> bool" where
  "is_redirect status \<longleftrightarrow> 300 \<le> status \<and> status \<le> 399"

definition declared_check :: "nat \<Rightarrow> string option \<Rightarrow> string option" where
  "declared_check max_bytes l = (case l of
     None \<Rightarrow> None
   | Some t \<Rightarrow> if t = [] then None else (case parse_int t of
         None \<Rightarrow> Some ''invalid_content_length''
       | Some n \<Rightarrow> if n < 0 then Some ''invalid_content_length''
                   else if n > int max_bytes then Some ''response_too_large'' else None))"

text \<open>The body of an answer that is no redirect.\<close>

definition read_body :: "string \<Rightarrow> 'b hop \<Rightarrow> fed_error + string \<times> 'b hop" where
  "read_body url h =
     (if hp_status h \<noteq> 200 then Inl (Fetch_error (''http_status_'' @ str_int (hp_status h)))
      else if hp_media_type h \<notin> set ACTIVITY_MEDIA_TYPES then Inl (Fetch_error ''content_type_rejected'')
      else (case declared_check MAX_REMOTE_BYTES (hp_declared h) of
          Some m \<Rightarrow> Inl (Fetch_error m)
        | None \<Rightarrow> if sum_list (hp_chunks h) > MAX_REMOTE_BYTES then Inl (Fetch_error ''response_too_large'')
                  else Inr (url, h)))"

text \<open>
  The URLs requested, in order, and the outcome. \<open>sign\<close> is the failure of signing a
  request, if it fails; \<open>None\<close> of \<open>serve\<close> is a failure of the transport.
\<close>

fun fetch_hops :: "net_env \<Rightarrow> (string \<Rightarrow> fed_error option) \<Rightarrow> (string \<Rightarrow> 'b hop option) \<Rightarrow> nat \<Rightarrow> string
    \<Rightarrow> string list \<times> (fed_error + string \<times> 'b hop)" where
  "fetch_hops net sign serve left url =
     (case validate_remote_url net url of
        Inl e \<Rightarrow> ([], Inl e)
      | Inr _ \<Rightarrow>
          (case (sign url, serve url) of
             (Some e, _) \<Rightarrow> ([], Inl e)
           | (None, None) \<Rightarrow> ([url], Inl (Fetch_error ''fetch_failed''))
           | (None, Some h) \<Rightarrow>
               (case peer_check net (hp_peer h) of
                  Some e \<Rightarrow> ([url], Inl e)
                | None \<Rightarrow>
                    if is_redirect (hp_status h) then
                      (case left of
                         0 \<Rightarrow> ([url], Inl (Fetch_error ''redirect_limit''))
                       | Suc n \<Rightarrow>
                           if \<not> truthy_str (hp_location h)
                           then ([url], Inl (Fetch_error ''redirect_without_location''))
                           else (case fetch_hops net sign serve n (or_empty (hp_location h)) of
                                   (us, r) \<Rightarrow> (url # us, r)))
                    else ([url], read_body url h))))"

definition fetch_remote :: "net_env \<Rightarrow> (string \<Rightarrow> fed_error option) \<Rightarrow> (string \<Rightarrow> 'b hop option) \<Rightarrow> string
    \<Rightarrow> string list \<times> (fed_error + string \<times> 'b hop)" where
  "fetch_remote net sign serve url = fetch_hops net sign serve MAX_REDIRECTS url"

text \<open>A signed delivery: one request, no redirect followed, at most 256 KiB sent and 64 KiB read.\<close>

definition post_remote :: "net_env \<Rightarrow> (string \<Rightarrow> 'b hop option) \<Rightarrow> string \<Rightarrow> nat \<Rightarrow> fed_error + int" where
  "post_remote net serve url sent = (case validate_remote_url net url of
     Inl e \<Rightarrow> Inl e
   | Inr _ \<Rightarrow>
       if sent > 262144 then Inl (Fetch_error ''request_too_large'')
       else (case serve url of
           None \<Rightarrow> Inl (Fetch_error ''delivery_transport_failed'')
         | Some h \<Rightarrow> (case peer_check net (hp_peer h) of
             Some e \<Rightarrow> Inl e
           | None \<Rightarrow> if sum_list (hp_chunks h) > 65536 then Inl (Fetch_error ''delivery_response_too_large'')
                     else Inr (hp_status h))))"

section \<open>Which domains are allowed\<close>

definition federation_is_enabled :: "dict \<Rightarrow> bool" where
  "federation_is_enabled settings \<longleftrightarrow> truthy (dget settings ''enabled'' (JBool False))
     \<and> dget settings ''mode'' (JStr ''disabled'') \<noteq> JStr ''disabled''"

definition canonical_origin :: "net_env \<Rightarrow> config \<Rightarrow> fed_error + string" where
  "canonical_origin net cfg =
     (let value = rev (dropWhile (\<lambda>c. c = CHR ''/'') (rev (cfg_base_url cfg))) in
      case urlsplit net value of
        None \<Rightarrow> Inl (Value_error ''invalid_url'')
      | Some parsed \<Rightarrow>
          if sp_scheme parsed \<noteq> ''https'' \<or> url_hostname parsed = None
             \<or> truthy_str (fst (url_userinfo parsed)) \<or> truthy_str (snd (url_userinfo parsed))
          then Inl (Fetch_error ''canonical_https_origin_required'')
          else if sp_query parsed \<noteq> [] \<or> sp_fragment parsed \<noteq> []
          then Inl (Fetch_error ''invalid_canonical_origin'') else Inr value)"

definition canonical_domain :: "net_env \<Rightarrow> config \<Rightarrow> fed_error + string" where
  "canonical_domain net cfg = (case canonical_origin net cfg of
     Inl e \<Rightarrow> Inl e
   | Inr origin \<Rightarrow> (case Option.bind (urlsplit net origin) url_hostname of
       None \<Rightarrow> Inl (Fetch_error ''canonical_domain_missing'')
     | Some host \<Rightarrow> normalize_domain net host))"

definition rule_matches :: "string \<Rightarrow> domain_rule \<Rightarrow> bool" where
  "rule_matches name item \<longleftrightarrow>
     name = dr_domain item \<or> dr_include_subdomains item \<and> endswith name (CHR ''.'' # dr_domain item)"

text \<open>The setting holds a list; entries that are no strings or no domains are passed over.\<close>

fun legacy_blocks :: "net_env \<Rightarrow> json list \<Rightarrow> string list" where
  "legacy_blocks net [] = []"
| "legacy_blocks net (item # items) = (case as_str item of
     None \<Rightarrow> legacy_blocks net items
   | Some s \<Rightarrow> (case normalize_domain net s of
       Inl _ \<Rightarrow> legacy_blocks net items
     | Inr d \<Rightarrow> d # legacy_blocks net items))"

definition blocklist_setting :: "dict \<Rightarrow> json list" where
  "blocklist_setting settings = (case as_list (dget settings ''inbox_blocklist_domains'' (JList [])) of
     None \<Rightarrow> [] | Some xs \<Rightarrow> xs)"

definition limited_mode :: "dict \<Rightarrow> bool" where
  "limited_mode settings \<longleftrightarrow> dget settings ''domain_policy'' (JStr ''open'') = JStr ''limited''
     \<or> truthy (dget settings ''allowlist_mode'' (JBool False))"

definition domain_allowed :: "net_env \<Rightarrow> db \<Rightarrow> string \<Rightarrow> dict \<Rightarrow> bool" where
  "domain_allowed net db domain settings =
     (if \<not> federation_is_enabled settings then False
      else case normalize_domain net domain of
        Inl _ \<Rightarrow> False
      | Inr name \<Rightarrow>
          (let matching = filter (rule_matches name) (domain_rules db) in
           if name \<in> set (legacy_blocks net (blocklist_setting settings))
              \<or> list_ex (\<lambda>r. dr_rule r = ''block'') matching then False
           else if limited_mode settings then list_ex (\<lambda>r. dr_rule r = ''allow'') matching
           else True))"

section \<open>Lemmas\<close>

lemma validated_host:
  "validate_remote_url_syntax net url = Inr (host, path) \<Longrightarrow> nt_address net host \<noteq> Some False"
  by (auto simp: validate_remote_url_syntax_def Let_def split: option.splits sum.splits if_splits)

lemma validated_https:
  "validate_remote_url_syntax net url = Inr (host, path) \<Longrightarrow>
   \<exists>u. urlsplit net url = Some u \<and> sp_scheme u = ''https'' \<and> sp_fragment u = []"
  by (auto simp: validate_remote_url_syntax_def Let_def split: option.splits sum.splits if_splits)

lemma domain_allowed_name: "domain_allowed net db d s \<Longrightarrow> \<exists>name. normalize_domain net d = Inr name"
  by (auto simp: domain_allowed_def split: sum.splits if_splits)

declare fetch_hops.simps [simp del]

text \<open>One step of a fetch: nothing requested, one valid URL, or one followed by those of a redirect.\<close>

lemma fetch_hops_step:
  "fst (fetch_hops net sign serve left url) = []
   \<or> \<not> isl (validate_remote_url net url)
     \<and> (fst (fetch_hops net sign serve left url) = [url]
        \<or> (\<exists>n l. left = Suc n
            \<and> fst (fetch_hops net sign serve left url) = url # fst (fetch_hops net sign serve n l)))"
proof (cases "isl (validate_remote_url net url) \<or> sign url \<noteq> None \<or> serve url = None")
  case True
  then show ?thesis
    by (subst (1 2) fetch_hops.simps) (auto split: sum.splits option.splits)
next
  case False
  then obtain as h where h: "validate_remote_url net url = Inr as" "sign url = None" "serve url = Some h"
    by (auto simp: isl_def split: sum.splits) (metis sum.exhaust)
  have "fetch_hops net sign serve left url =
     (case peer_check net (hp_peer h) of
        Some e \<Rightarrow> ([url], Inl e)
      | None \<Rightarrow>
          if is_redirect (hp_status h) then
            (case left of
               0 \<Rightarrow> ([url], Inl (Fetch_error ''redirect_limit''))
             | Suc n \<Rightarrow>
                 if \<not> truthy_str (hp_location h)
                 then ([url], Inl (Fetch_error ''redirect_without_location''))
                 else (case fetch_hops net sign serve n (or_empty (hp_location h)) of
                         (us, r) \<Rightarrow> (url # us, r)))
          else ([url], read_body url h))"
    by (subst fetch_hops.simps) (simp add: h)
  then show ?thesis
    by (auto simp: h case_prod_beta split: option.splits nat.splits)
qed

lemma fetch_hops_validated:
  "u \<in> set (fst (fetch_hops net sign serve left url)) \<Longrightarrow> \<not> isl (validate_remote_url net u)"
proof (induction left arbitrary: url)
  case 0
  then show ?case using fetch_hops_step [of net sign serve 0 url] by auto
next
  case (Suc n)
  then show ?case using fetch_hops_step [of net sign serve "Suc n" url] by auto
qed

lemma fetch_hops_length: "length (fst (fetch_hops net sign serve left url)) \<le> left + 1"
proof (induction left arbitrary: url)
  case 0
  then show ?case using fetch_hops_step [of net sign serve 0 url] by auto
next
  case (Suc n)
  then show ?case using fetch_hops_step [of net sign serve "Suc n" url] by auto
qed

end
