(* ===== verification/Federation_Actors.thy ===== *)
theory Federation_Actors
  imports Federation_Policy
begin

text \<open>
  \<open>federation/remote.py\<close> and \<open>federation/actors.py\<close>: the cache of remote actors and their
  keys, filled only from the actor's own document, and the life cycle of the local actors
  and their signing keys. The text cleaning of bleach and the RSA operations of the
  cryptography package are arguments.
\<close>

text \<open>
  The environment of one call: the configuration and the settings section it reads, the
  clock, the source of new identifiers, and the cleaning functions (\<open>fv_html\<close> takes the
  protocols allowed in links), the two renderings of an instant, and the name-based UUID.
\<close>

record fed_env =
  fv_cfg :: config
  fv_net :: net_env
  fv_settings :: dict
  fv_now :: time
  fv_id :: "string \<Rightarrow> string"
  fv_plain :: "string \<Rightarrow> string"
  fv_html :: "string list \<Rightarrow> string \<Rightarrow> string"
  fv_iso :: "time \<Rightarrow> string"
  fv_stamp :: "time \<Rightarrow> string"
  fv_uuid5 :: "string \<Rightarrow> string"

definition ACTOR_TTL :: time where "ACTOR_TTL = hours 1"

definition clean_text :: "fed_env \<Rightarrow> json \<Rightarrow> nat \<Rightarrow> string option" where
  "clean_text env value limit = (case as_str value of
     None \<Rightarrow> None | Some s \<Rightarrow> or_none (take limit (fv_plain env s)))"

section \<open>The remote actor cache\<close>

text \<open>The document of an actor with the validators of its response.\<close>

record actor_answer =
  aw_body :: json_text
  aw_etag :: "string option"
  aw_modified :: "string option"

definition path_of :: "split_url \<Rightarrow> string" where
  "path_of parts = (if sp_path parts = [] then ''/'' else sp_path parts)"

definition normalized_uri :: "string \<Rightarrow> split_url \<Rightarrow> string" where
  "normalized_uri host parts =
     (if url_port parts \<in> {Inr None, Inr (Some 443)} then ''https://'' @ host @ path_of parts
      else (case url_port parts of
          Inr (Some p) \<Rightarrow> ''https://'' @ host @ '':'' @ str_int p @ path_of parts
        | _ \<Rightarrow> ''https://'' @ host @ path_of parts))"

definition ACTOR_TYPES :: "string list" where
  "ACTOR_TYPES = [''Person'', ''Service'', ''Organization'', ''Application'', ''Group'']"

text \<open>A type that is a list or an object cannot be looked up in a set, which raises.\<close>

definition check_actor_type :: "json \<Rightarrow> fed_error + string" where
  "check_actor_type t = (case t of
     JList _ \<Rightarrow> Inl Unexpected_failure
   | JObj _ \<Rightarrow> Inl Unexpected_failure
   | JStr s \<Rightarrow> if s \<in> set ACTOR_TYPES then Inr s else Inl (Fetch_error ''actor_type_invalid'')
   | _ \<Rightarrow> Inl (Fetch_error ''actor_type_invalid''))"

definition check_inbox :: "fed_env \<Rightarrow> db \<Rightarrow> json \<Rightarrow> fed_error + string" where
  "check_inbox env db inbox = (case as_str inbox of
     None \<Rightarrow> Inl (Fetch_error ''actor_inbox_missing'')
   | Some s \<Rightarrow> (case validate_remote_url_syntax (fv_net env) s of
       Inl _ \<Rightarrow> Inl (Fetch_error ''actor_inbox_invalid'')
     | Inr (host, _) \<Rightarrow>
         if host = [] \<or> \<not> domain_allowed (fv_net env) db host (fv_settings env)
         then Inl (Fetch_error ''actor_inbox_domain_not_allowed'') else Inr s))"

definition shared_inbox_of :: "fed_env \<Rightarrow> db \<Rightarrow> dict \<Rightarrow> string option" where
  "shared_inbox_of env db document =
     (case Option.bind (as_obj (dget document ''endpoints'' JNull)) (\<lambda>e. as_str (dget e ''sharedInbox'' JNull)) of
        None \<Rightarrow> None
      | Some candidate \<Rightarrow> (case validate_remote_url_syntax (fv_net env) candidate of
          Inl _ \<Rightarrow> None
        | Inr (host, _) \<Rightarrow>
            if host \<noteq> [] \<and> domain_allowed (fv_net env) db host (fv_settings env)
            then Some (take 2048 candidate) else None))"

definition fill_actor :: "fed_env \<Rightarrow> dict \<Rightarrow> string \<Rightarrow> string \<Rightarrow> string option \<Rightarrow> actor_answer \<Rightarrow> remote_actor \<Rightarrow> remote_actor" where
  "fill_actor env document kind inbox shared answer a =
     a\<lparr>ra_actor_type := kind,
       ra_preferred_username := clean_text env (dget document ''preferredUsername'' JNull) 256,
       ra_display_name := clean_text env (dget document ''name'' JNull) 512,
       ra_summary_text := clean_text env (dget document ''summary'' JNull) 4000,
       ra_inbox_uri := take 2048 inbox, ra_shared_inbox_uri := shared,
       ra_fetched_at := fv_now env, ra_expires_at := fv_now env + ACTOR_TTL,
       ra_etag := aw_etag answer, ra_modified := aw_modified answer,
       ra_health_state := ''active'', ra_last_error := None\<rparr>"

definition new_actor :: "fed_env \<Rightarrow> string \<Rightarrow> string \<Rightarrow> remote_actor" where
  "new_actor env uri domain =
     \<lparr>ra_id = fv_id env uri, ra_actor_uri = uri, ra_domain = domain, ra_actor_type = [],
      ra_preferred_username = None, ra_display_name = None, ra_summary_text = None, ra_inbox_uri = [],
      ra_shared_inbox_uri = None, ra_fetched_at = 0, ra_expires_at = 0, ra_etag = None,
      ra_modified = None, ra_health_state = ''active'', ra_last_error = None\<rparr>"

text \<open>
  The keys a document names, at most eight: a key counts when its owner is the actor and
  its identifier is the actor's URI with a fragment.
\<close>

definition document_keys :: "dict \<Rightarrow> json list" where
  "document_keys document = (case dget document ''publicKey'' (JList []) of
     JObj d \<Rightarrow> [JObj d] | JList ks \<Rightarrow> take 8 ks | _ \<Rightarrow> [])"

definition key_parts :: "string \<Rightarrow> json \<Rightarrow> (string \<times> string) option" where
  "key_parts uri key = (case as_obj key of
     None \<Rightarrow> None
   | Some d \<Rightarrow>
       (case (as_str (dget d ''id'' JNull), as_str (dget d ''publicKeyPem'' JNull)) of
          (Some key_id, Some pem) \<Rightarrow> if dget d ''owner'' JNull \<noteq> JStr uri then None else Some (key_id, pem)
        | _ \<Rightarrow> None))"

definition put_key :: "fed_env \<Rightarrow> string \<Rightarrow> string \<Rightarrow> string \<Rightarrow> string \<Rightarrow> db \<Rightarrow> db" where
  "put_key env actor_id uri key_id pem db =
     (case get_by rk_key_id key_id (remote_keys db) of
        None \<Rightarrow> db\<lparr>remote_keys := add_row
          \<lparr>rk_id = fv_id env key_id, rk_remote_actor_id = actor_id, rk_key_id = key_id, rk_owner_uri = uri,
           rk_public_key_pem = take 8192 pem, rk_fetched_at = fv_now env,
           rk_expires_at = fv_now env + ACTOR_TTL\<rparr> (remote_keys db)\<rparr>
      | Some _ \<Rightarrow> db\<lparr>remote_keys := update_where (\<lambda>k. rk_key_id k = key_id)
          (\<lambda>k. k\<lparr>rk_remote_actor_id := actor_id, rk_owner_uri := uri, rk_public_key_pem := take 8192 pem,
             rk_fetched_at := fv_now env, rk_expires_at := fv_now env + ACTOR_TTL\<rparr>) (remote_keys db)\<rparr>)"

fun put_keys :: "fed_env \<Rightarrow> string \<Rightarrow> string \<Rightarrow> json list \<Rightarrow> db \<Rightarrow> (fed_error, unit, db) outcome" where
  "put_keys env actor_id uri [] db = (Inr (), db)"
| "put_keys env actor_id uri (key # keys) db = (case key_parts uri key of
     None \<Rightarrow> put_keys env actor_id uri keys db
   | Some (key_id, pem) \<Rightarrow> (case urlsplit (fv_net env) key_id of
       None \<Rightarrow> (Inl (Value_error ''invalid_url''), db)
     | Some parts \<Rightarrow>
         if sp_fragment parts = [] \<or> before_at CHR ''#'' key_id \<noteq> uri then put_keys env actor_id uri keys db
         else put_keys env actor_id uri keys (put_key env actor_id uri key_id pem db)))"

definition put_actor :: "string \<Rightarrow> (remote_actor \<Rightarrow> remote_actor) \<Rightarrow> db \<Rightarrow> db" where
  "put_actor uri f db = db\<lparr>remote_actors := update_where (\<lambda>a. ra_actor_uri a = uri) f (remote_actors db)\<rparr>"

text \<open>What the code makes of the document it got from \<open>uri\<close>.\<close>

definition store_actor ::
  "fed_env \<Rightarrow> string \<Rightarrow> string \<Rightarrow> actor_answer \<Rightarrow> db \<Rightarrow> (fed_error, remote_actor, db) outcome" where
  "store_actor env uri hostname answer db = (case aw_body answer of
     Malformed \<Rightarrow> (Inl (Fetch_error ''actor_json_invalid''), db)
   | Json j \<Rightarrow> (case as_obj j of
       None \<Rightarrow> (Inl (Fetch_error ''actor_identity_mismatch''), db)
     | Some document \<Rightarrow>
         if dget document ''id'' JNull \<noteq> JStr uri then (Inl (Fetch_error ''actor_identity_mismatch''), db)
         else (case check_actor_type (dget document ''type'' JNull) of
             Inl e \<Rightarrow> (Inl e, db)
           | Inr kind \<Rightarrow> (case check_inbox env db (dget document ''inbox'' JNull) of
               Inl e \<Rightarrow> (Inl e, db)
             | Inr inbox \<Rightarrow>
                 (let fill = fill_actor env document kind inbox (shared_inbox_of env db document) answer;
                      keys = document_keys document in
                  case get_by ra_actor_uri uri (remote_actors db) of
                    Some cached \<Rightarrow>
                      (case put_keys env (ra_id cached) uri keys (put_actor uri fill db) of
                         (Inl e, db') \<Rightarrow> (Inl e, db') | (Inr _, db') \<Rightarrow> (Inr (fill cached), db'))
                  | None \<Rightarrow> (case normalize_domain (fv_net env) hostname of
                      Inl e \<Rightarrow> (Inl e, db)
                    | Inr domain \<Rightarrow>
                        (let a = fill (new_actor env uri domain) in
                         case put_keys env (ra_id a) uri keys
                            (db\<lparr>remote_actors := add_row a (remote_actors db)\<rparr>) of
                           (Inl e, db') \<Rightarrow> (Inl e, db') | (Inr _, db') \<Rightarrow> (Inr a, db'))))))))"

definition fetch_remote_actor ::
  "fed_env \<Rightarrow> (string \<Rightarrow> fed_error option) \<Rightarrow> (string \<Rightarrow> actor_answer hop option) \<Rightarrow> string \<Rightarrow> bool \<Rightarrow> db
   \<Rightarrow> (fed_error, remote_actor, db) outcome" where
  "fetch_remote_actor env sign serve actor_uri force db =
     (case urlsplit (fv_net env) actor_uri of
        None \<Rightarrow> (Inl (Value_error ''invalid_url''), db)
      | Some parts \<Rightarrow> (case validate_remote_url_syntax (fv_net env) actor_uri of
          Inl e \<Rightarrow> (Inl e, db)
        | Inr (host, _) \<Rightarrow>
            if sp_fragment parts \<noteq> [] \<or> sp_query parts \<noteq> []
               \<or> \<not> domain_allowed (fv_net env) db host (fv_settings env)
            then (Inl (Fetch_error ''domain_not_allowed''), db)
            else
             (let uri = normalized_uri host parts; cached = get_by ra_actor_uri uri (remote_actors db) in
              if (case cached of None \<Rightarrow> False | Some c \<Rightarrow> fv_now env < ra_expires_at c \<and> \<not> force)
              then (Inr (the cached), db)
              else (case snd (fetch_remote (fv_net env) sign serve uri) of
                  Inl e \<Rightarrow>
                    (if cached \<noteq> None \<and> e \<in> {Fetch_error ''http_status_404'', Fetch_error ''http_status_410''}
                     then (Inl e, put_actor uri (\<lambda>c. c\<lparr>ra_health_state := ''gone'',
                        ra_last_error := Some (case e of Fetch_error m \<Rightarrow> m | _ \<Rightarrow> []),
                        ra_fetched_at := fv_now env, ra_expires_at := fv_now env + ACTOR_TTL\<rparr>) db)
                     else (Inl e, db))
                | Inr (_, h) \<Rightarrow>
                    store_actor env uri (or_empty (url_hostname parts)) (hp_body h) db))))"

text \<open>
  The owner and the key a signature names. Only a \<open>Fetch_error\<close> of the fetch is an answer
  of \<open>None\<close>; anything else it raises goes on to the caller.
\<close>

definition fetched_key ::
  "fed_env \<Rightarrow> (string \<Rightarrow> actor_answer hop option) \<Rightarrow> string \<Rightarrow> bool \<Rightarrow> db
   \<Rightarrow> (fed_error, (string \<times> string) option, db) outcome" where
  "fetched_key env serve key_id force_refresh db =
     (case fetch_remote_actor env (\<lambda>_. None) serve (before_at CHR ''#'' key_id) force_refresh db of
        (Inl (Fetch_error m), db') \<Rightarrow> (Inr None, db')
      | (Inl e, db') \<Rightarrow> (Inl e, db')
      | (Inr actor, db') \<Rightarrow> (case get_by rk_key_id key_id (remote_keys db') of
          None \<Rightarrow> (Inr None, db')
        | Some key \<Rightarrow>
            if rk_remote_actor_id key \<noteq> ra_id actor \<or> rk_owner_uri key \<noteq> ra_actor_uri actor then (Inr None, db')
            else (Inr (Some (rk_owner_uri key, rk_public_key_pem key)), db')))"

definition resolve_remote_key ::
  "fed_env \<Rightarrow> (string \<Rightarrow> actor_answer hop option) \<Rightarrow> string \<Rightarrow> bool \<Rightarrow> db
   \<Rightarrow> (fed_error, (string \<times> string) option, db) outcome" where
  "resolve_remote_key env serve key_id force_refresh db =
     (case urlsplit (fv_net env) key_id of
        None \<Rightarrow> (Inl (Value_error ''invalid_url''), db)
      | Some parts \<Rightarrow>
          if sp_fragment parts = [] \<or> sp_query parts \<noteq> [] \<or> url_hostname parts = None then (Inr None, db)
          else if \<not> domain_allowed (fv_net env) db (or_empty (url_hostname parts)) (fv_settings env)
          then (Inr None, db)
          else (case get_by rk_key_id key_id (remote_keys db) of
              Some key \<Rightarrow>
                if fv_now env < rk_expires_at key \<and> \<not> force_refresh
                then (Inr (Some (rk_owner_uri key, rk_public_key_pem key)), db)
                else fetched_key env serve key_id force_refresh db
            | None \<Rightarrow> fetched_key env serve key_id force_refresh db))"

section \<open>Local actors\<close>

text \<open>
  The RSA operations: whether a stored public key can be kept, the fingerprint of one (if
  it can be read), and a new pair, whose private half is encrypted, if a key for that is
  configured.
\<close>

record key_env =
  ke_reusable :: "string \<Rightarrow> bool"
  ke_fingerprint :: "string \<Rightarrow> string option"
  ke_new :: "(string \<times> string) option"

text \<open>\<open>onupdate\<close>: a row that changed gets the time of the change.\<close>

definition touch_actor :: "time \<Rightarrow> local_actor \<Rightarrow> local_actor \<Rightarrow> local_actor" where
  "touch_actor now old new = (if new = old then old else new\<lparr>la_updated_at := now\<rparr>)"

definition claim_identity :: "fed_env \<Rightarrow> string \<Rightarrow> db \<Rightarrow> (fed_error, unit, db) outcome" where
  "claim_identity env origin db = (case get_by ii_id 1 (instance_identities db) of
     Some i \<Rightarrow> if ii_canonical_origin i \<noteq> origin
       then (Inl (Runtime_error ''canonical_origin_change_requires_explicit_migration''), db) else (Inr (), db)
   | None \<Rightarrow> (Inr (), db\<lparr>instance_identities := add_row
       \<lparr>ii_id = 1, ii_canonical_origin = origin, ii_created_at = fv_now env\<rparr> (instance_identities db)\<rparr>))"

text \<open>The key pair an actor signs with: the stored one if it is usable, otherwise a new one.\<close>

definition ensure_keypair :: "fed_env \<Rightarrow> key_env \<Rightarrow> string \<Rightarrow> string \<Rightarrow> db \<Rightarrow> (fed_error, string, db) outcome" where
  "ensure_keypair env ke user uri db =
     (let url = uri @ ''#main-key'' in
      case get_by ak_user_id user (actor_keypairs db) of
        Some k \<Rightarrow>
          if ak_algorithm k = ''rsa-sha256'' \<and> ke_reusable ke (ak_public_key_pem k)
          then (Inr (ak_id k), db\<lparr>actor_keypairs :=
             update_where (\<lambda>r. ak_id r = ak_id k) (\<lambda>r. r\<lparr>ak_key_id_url := url\<rparr>) (actor_keypairs db)\<rparr>)
          else (case ke_new ke of
              None \<Rightarrow> (Inl (Runtime_error ''actor_key_encryption_not_configured''), db)
            | Some (public, private) \<Rightarrow> (Inr (ak_id k), db\<lparr>actor_keypairs :=
                update_where (\<lambda>r. ak_id r = ak_id k) (\<lambda>r. r\<lparr>ak_key_id_url := url, ak_public_key_pem := public,
                  ak_private_key_enc := private, ak_algorithm := ''rsa-sha256''\<rparr>) (actor_keypairs db)\<rparr>))
      | None \<Rightarrow> (case ke_new ke of
            None \<Rightarrow> (Inl (Runtime_error ''actor_key_encryption_not_configured''), db)
          | Some (public, private) \<Rightarrow> (Inr (fv_id env url), db\<lparr>actor_keypairs := add_row
              \<lparr>ak_id = fv_id env url, ak_user_id = user, ak_key_id_url = url, ak_public_key_pem = public,
               ak_private_key_enc = private, ak_algorithm = ''rsa-sha256'', ak_created_at = fv_now env,
               ak_rotated_at = None\<rparr> (actor_keypairs db)\<rparr>)))"

definition enable_local_actor :: "fed_env \<Rightarrow> key_env \<Rightarrow> user \<Rightarrow> db \<Rightarrow> (fed_error, local_actor, db) outcome" where
  "enable_local_actor env ke user db =
     (if u_account_type user \<noteq> Account_Public \<or> \<not> u_is_active user \<or> u_federation_opt_out user
      then (Inl (Value_error ''user_not_eligible_for_federation''), db)
      else case canonical_origin (fv_net env) (fv_cfg env) of
        Inl e \<Rightarrow> (Inl e, db)
      | Inr origin \<Rightarrow>
          and_then (claim_identity env origin db) (\<lambda>_ db1.
            (let existing = get_by la_user_id (u_id user) (local_actors db1);
                 uri = (case existing of Some a \<Rightarrow> la_actor_uri a
                        | None \<Rightarrow> origin @ ''/ap/actor/'' @ u_username user) in
             if (case existing of None \<Rightarrow> False | Some a \<Rightarrow> la_preferred_username a \<noteq> u_username user)
             then (Inl (Runtime_error ''preferred_username_change_requires_explicit_migration''), db1)
             else and_then (ensure_keypair env ke (u_id user) uri db1) (\<lambda>key_id db2.
               (case existing of
                  Some a \<Rightarrow>
                    (let a' = touch_actor (fv_now env) a (a\<lparr>la_enabled := True, la_current_keypair_id := Some key_id\<rparr>) in
                     (Inr a', db2\<lparr>local_actors := update_where (\<lambda>r. la_id r = la_id a) (\<lambda>_. a') (local_actors db2)\<rparr>))
                | None \<Rightarrow>
                    if exists_where (\<lambda>r. la_actor_uri r = uri \<or> la_preferred_username r = u_username user) (local_actors db2)
                    then (Inl Integrity_failure, db)
                    else
                     (let a = \<lparr>la_id = fv_id env uri, la_user_id = u_id user, la_actor_uri = uri,
                          la_preferred_username = u_username user, la_enabled = True,
                          la_current_keypair_id = Some key_id, la_created_at = fv_now env,
                          la_updated_at = fv_now env\<rparr>
                      in (Inr a, db2\<lparr>local_actors := add_row a (local_actors db2)\<rparr>)))))))"

definition disable_local_actor :: "time \<Rightarrow> local_actor \<Rightarrow> db \<Rightarrow> db" where
  "disable_local_actor now actor db = db\<lparr>local_actors := update_where (\<lambda>r. la_id r = la_id actor)
     (\<lambda>r. r\<lparr>la_enabled := False, la_updated_at := now\<rparr>) (local_actors db)\<rparr>"

definition rotate_local_actor_key ::
  "fed_env \<Rightarrow> key_env \<Rightarrow> string \<Rightarrow> db \<Rightarrow> (fed_error, local_actor \<times> time, db) outcome" where
  "rotate_local_actor_key env ke actor_id db =
     (case first_where (\<lambda>a. la_id a = actor_id \<and> la_enabled a) (local_actors db) of
        None \<Rightarrow> (Inl (Value_error ''enabled_actor_with_current_key_required''), db)
      | Some actor \<Rightarrow> (case la_current_keypair_id actor of
          None \<Rightarrow> (Inl (Value_error ''enabled_actor_with_current_key_required''), db)
        | Some kid \<Rightarrow> (case get_by ak_id kid (actor_keypairs db) of
            None \<Rightarrow> (Inl (Value_error ''current_actor_rsa_key_required''), db)
          | Some current \<Rightarrow>
              if ak_algorithm current \<noteq> ''rsa-sha256''
              then (Inl (Value_error ''current_actor_rsa_key_required''), db)
              else (case (ke_fingerprint ke (ak_public_key_pem current), ke_new ke) of
                  (None, _) \<Rightarrow> (Inl (Value_error ''unreadable_key''), db)
                | (Some fp, new) \<Rightarrow>
                    (let retired = \<lparr>kh_id = fv_id env fp, kh_actor_id = actor_id, kh_key_id = ak_key_id_url current,
                         kh_public_key_pem = ak_public_key_pem current, kh_fingerprint_sha256 = fp,
                         kh_created_at = (case ak_rotated_at current of Some t \<Rightarrow> t | None \<Rightarrow> ak_created_at current),
                         kh_retired_at = fv_now env\<rparr> in
                     case new of
                       None \<Rightarrow> (Inl (Runtime_error ''actor_key_encryption_not_configured''),
                         db\<lparr>key_histories := add_row retired (key_histories db)\<rparr>)
                     | Some (public, private) \<Rightarrow>
                         if exists_where (\<lambda>h. kh_actor_id h = actor_id \<and> kh_fingerprint_sha256 h = fp) (key_histories db)
                         then (Inl Integrity_failure, db)
                         else
                          (let actor' = actor\<lparr>la_updated_at := fv_now env\<rparr> in
                           (Inr (actor', fv_now env),
                            db\<lparr>key_histories := add_row retired (key_histories db),
                               actor_keypairs := update_where (\<lambda>k. ak_id k = kid)
                                 (\<lambda>k. k\<lparr>ak_public_key_pem := public, ak_private_key_enc := private,
                                    ak_rotated_at := Some (fv_now env)\<rparr>) (actor_keypairs db),
                               local_actors := update_where (\<lambda>a. la_id a = actor_id) (\<lambda>_. actor')
                                 (local_actors db)\<rparr>)))))))"

section \<open>Lemmas\<close>

text \<open>
  Every cached key belongs to the cached actor whose URI its identifier names, and that
  actor is its owner.
\<close>

definition keys_owned :: "db \<Rightarrow> bool" where
  "keys_owned db \<longleftrightarrow> (\<forall>k \<in> set (remote_keys db). before_at CHR ''#'' (rk_key_id k) = rk_owner_uri k
     \<and> (\<exists>a \<in> set (remote_actors db). ra_id a = rk_remote_actor_id k \<and> ra_actor_uri a = rk_owner_uri k))"

lemma keys_ownedI:
  "(\<And>k. k \<in> set (remote_keys db) \<Longrightarrow> before_at CHR ''#'' (rk_key_id k) = rk_owner_uri k
     \<and> (\<exists>a \<in> set (remote_actors db). ra_id a = rk_remote_actor_id k \<and> ra_actor_uri a = rk_owner_uri k))
   \<Longrightarrow> keys_owned db"
  by (simp add: keys_owned_def)

text \<open>Filling a row changes neither its identifier nor its URI, so the owners stay.\<close>

lemma keys_owned_put_actor:
  assumes "keys_owned db" "\<And>a. ra_id (f a) = ra_id a" "\<And>a. ra_actor_uri (f a) = ra_actor_uri a"
  shows "keys_owned (put_actor uri f db)"
proof (rule keys_ownedI)
  fix k assume "k \<in> set (remote_keys (put_actor uri f db))"
  then have k: "k \<in> set (remote_keys db)" by (simp add: put_actor_def)
  then obtain a where a: "a \<in> set (remote_actors db)" "ra_id a = rk_remote_actor_id k" "ra_actor_uri a = rk_owner_uri k"
    and own: "before_at CHR ''#'' (rk_key_id k) = rk_owner_uri k"
    using assms(1) by (auto simp: keys_owned_def)
  let ?a = "if ra_actor_uri a = uri then f a else a"
  have "?a \<in> set (remote_actors (put_actor uri f db))"
    using a(1) by (auto simp: put_actor_def set_update_where)
  moreover have "ra_id ?a = rk_remote_actor_id k" "ra_actor_uri ?a = rk_owner_uri k"
    using a assms(2,3) by auto
  ultimately show "before_at CHR ''#'' (rk_key_id k) = rk_owner_uri k
     \<and> (\<exists>a \<in> set (remote_actors (put_actor uri f db)). ra_id a = rk_remote_actor_id k \<and> ra_actor_uri a = rk_owner_uri k)"
    using own by blast
qed

lemma put_key_actors [simp]: "remote_actors (put_key env i uri key pem db) = remote_actors db"
  by (simp add: put_key_def split: option.splits)

lemma keys_owned_put_key:
  assumes ok: "keys_owned db" and own: "before_at CHR ''#'' key_id = uri"
    and a: "a \<in> set (remote_actors db)" "ra_id a = i" "ra_actor_uri a = uri"
  shows "keys_owned (put_key env i uri key_id pem db)"
proof (rule keys_ownedI)
  fix k assume k: "k \<in> set (remote_keys (put_key env i uri key_id pem db))"
  have "k \<in> set (remote_keys db) \<or> rk_key_id k = key_id \<and> rk_owner_uri k = uri \<and> rk_remote_actor_id k = i"
    using k by (auto simp: put_key_def set_update_where set_add_row split: option.splits if_splits)
  then show "before_at CHR ''#'' (rk_key_id k) = rk_owner_uri k
     \<and> (\<exists>a \<in> set (remote_actors (put_key env i uri key_id pem db)). ra_id a = rk_remote_actor_id k
          \<and> ra_actor_uri a = rk_owner_uri k)"
    using ok own a by (auto simp: keys_owned_def)
qed

lemma put_keys_owned:
  "\<lbrakk> keys_owned db; a \<in> set (remote_actors db); ra_id a = i; ra_actor_uri a = uri \<rbrakk>
   \<Longrightarrow> keys_owned (snd (put_keys env i uri keys db))"
proof (induction keys arbitrary: db)
  case Nil
  then show ?case by simp
next
  case (Cons key keys)
  show ?case
  proof (cases "key_parts uri key")
    case None
    then show ?thesis using Cons by simp
  next
    case (Some kp)
    obtain key_id pem where kp: "kp = (key_id, pem)" by force
    show ?thesis
    proof (cases "urlsplit (fv_net env) key_id")
      case None
      then show ?thesis using Some kp Cons.prems by simp
    next
      case split: (Some parts)
      show ?thesis
      proof (cases "sp_fragment parts = [] \<or> before_at CHR ''#'' key_id \<noteq> uri")
        case True
        then show ?thesis using Some kp split Cons by simp
      next
        case False
        then have "keys_owned (put_key env i uri key_id pem db)"
          using Cons.prems by (intro keys_owned_put_key [where a = a]) simp_all
        then show ?thesis using Some kp split False Cons.prems by (simp add: Cons.IH)
      qed
    qed
  qed
qed

lemma fill_actor_keeps [simp]:
  "ra_id (fill_actor env d k i s w a) = ra_id a" "ra_actor_uri (fill_actor env d k i s w a) = ra_actor_uri a"
  by (simp_all add: fill_actor_def)

lemma new_actor_uri [simp]: "ra_actor_uri (new_actor env uri d) = uri"
  by (simp add: new_actor_def)

lemma snd_case_result [simp]:
  "snd (case r of (Inl e, s) \<Rightarrow> (Inl e, s) | (Inr _, s) \<Rightarrow> (Inr a, s)) = snd r"
  by (auto split: prod.splits sum.splits)

lemma keys_owned_cached:
  assumes "keys_owned db" "get_by ra_actor_uri uri (remote_actors db) = Some c"
  shows "keys_owned (snd (put_keys env (ra_id c) uri keys (put_actor uri (fill_actor env d k i s w) db)))"
proof (rule put_keys_owned)
  show "keys_owned (put_actor uri (fill_actor env d k i s w) db)"
    using assms(1) by (rule keys_owned_put_actor) simp_all
  have c: "c \<in> set (remote_actors db)" "ra_actor_uri c = uri" using get_by_SomeD [OF assms(2)] by simp_all
  show "fill_actor env d k i s w c \<in> set (remote_actors (put_actor uri (fill_actor env d k i s w) db))"
    using c by (force simp: put_actor_def set_update_where)
  show "ra_actor_uri (fill_actor env d k i s w c) = uri" using c by simp
qed simp

lemma keys_owned_new:
  assumes "keys_owned db" "ra_actor_uri a = uri" "ra_id a = i"
  shows "keys_owned (snd (put_keys env i uri keys (db\<lparr>remote_actors := add_row a (remote_actors db)\<rparr>)))"
  using assms by (intro put_keys_owned [where a = a]) (auto simp: set_add_row keys_owned_def)

lemma store_actor_owned: "keys_owned db \<Longrightarrow> keys_owned (snd (store_actor env uri hostname answer db))"
  unfolding store_actor_def Let_def
  by (simp add: keys_owned_cached keys_owned_new split: json_text.split option.split sum.split)

lemma fetch_remote_actor_owned:
  "keys_owned db \<Longrightarrow> keys_owned (snd (fetch_remote_actor env sign serve uri force db))"
  unfolding fetch_remote_actor_def Let_def
  by (auto simp: store_actor_owned keys_owned_put_actor split: option.split sum.split)

lemma fetched_key_snd:
  "snd (fetched_key env serve key_id force db)
     = snd (fetch_remote_actor env (\<lambda>_. None) serve (before_at CHR ''#'' key_id) force db)"
  by (auto simp: fetched_key_def split: prod.splits sum.splits fed_error.splits option.splits)

lemma resolve_remote_key_owned:
  "keys_owned db \<Longrightarrow> keys_owned (snd (resolve_remote_key env serve key_id force db))"
  unfolding resolve_remote_key_def
  by (simp add: fetched_key_snd fetch_remote_actor_owned split: option.split)

lemma owned_key: "\<lbrakk> keys_owned db; get_by rk_key_id key_id (remote_keys db) = Some k \<rbrakk>
   \<Longrightarrow> rk_owner_uri k = before_at CHR ''#'' key_id"
  using get_by_SomeD [of rk_key_id key_id "remote_keys db" k] by (auto simp: keys_owned_def)

lemma fetched_key_owner:
  assumes "keys_owned db" "fst (fetched_key env serve key_id force db) = Inr (Some (owner, pem))"
  shows "owner = before_at CHR ''#'' key_id"
proof -
  obtain r db' where f: "fetch_remote_actor env (\<lambda>_. None) serve (before_at CHR ''#'' key_id) force db = (r, db')"
    by force
  have "keys_owned db'"
    using fetch_remote_actor_owned [OF assms(1), of env "\<lambda>_. None" serve "before_at CHR ''#'' key_id" force] f by simp
  then show ?thesis
    using assms(2) f
    by (auto simp: fetched_key_def owned_key split: sum.splits fed_error.splits option.splits if_splits)
qed

lemma resolve_remote_key_owner:
  assumes "keys_owned db" "fst (resolve_remote_key env serve key_id force db) = Inr (Some (owner, pem))"
  shows "owner = before_at CHR ''#'' key_id"
  using assms fetched_key_owner [OF assms(1)] owned_key [OF assms(1)]
  unfolding resolve_remote_key_def by (auto split: option.splits if_splits)

text \<open>A run of look-ups, each with its own clock and settings, against any servers.\<close>

fun resolve_keys ::
  "(fed_env \<times> (string \<Rightarrow> actor_answer hop option) \<times> string \<times> bool) list \<Rightarrow> db
   \<Rightarrow> (string \<times> (fed_error + (string \<times> string) option)) list" where
  "resolve_keys [] db = []"
| "resolve_keys ((env, serve, key_id, force) # calls) db =
     (case resolve_remote_key env serve key_id force db of (r, db') \<Rightarrow> (key_id, r) # resolve_keys calls db')"

text \<open>
  A server publishes a key: what it answers to a request for \<open>owner\<close> is a document with
  that URI as its identifier, which names the key, with this owner and this PEM.
\<close>

definition published ::
  "fed_env \<Rightarrow> (string \<Rightarrow> actor_answer hop option) \<Rightarrow> string \<Rightarrow> string \<Rightarrow> string \<Rightarrow> bool" where
  "published env serve owner key_id pem \<longleftrightarrow> (\<exists>url h document entry p.
     snd (fetch_remote (fv_net env) (\<lambda>_. None) serve owner) = Inr (url, h)
     \<and> aw_body (hp_body h) = Json (JObj document) \<and> dget document ''id'' JNull = JStr owner
     \<and> (dget document ''publicKey'' JNull = JObj entry
        \<or> (\<exists>ks. dget document ''publicKey'' JNull = JList ks \<and> JObj entry \<in> set ks))
     \<and> dget entry ''id'' JNull = JStr key_id \<and> dget entry ''owner'' JNull = JStr owner
     \<and> dget entry ''publicKeyPem'' JNull = JStr p \<and> pem = take 8192 p)"

text \<open>Every cached key is one that \<open>P\<close> holds for.\<close>

definition keys_from :: "(string \<Rightarrow> string \<Rightarrow> string \<Rightarrow> bool) \<Rightarrow> db \<Rightarrow> bool" where
  "keys_from P db \<longleftrightarrow> (\<forall>k \<in> set (remote_keys db). P (rk_owner_uri k) (rk_key_id k) (rk_public_key_pem k))"

lemma keys_from_put_key:
  assumes "keys_from P db" "P uri key_id (take 8192 pem)"
  shows "keys_from P (put_key env i uri key_id pem db)"
proof -
  have "k \<in> set (remote_keys db) \<or> rk_owner_uri k = uri \<and> rk_key_id k = key_id \<and> rk_public_key_pem k = take 8192 pem"
    if "k \<in> set (remote_keys (put_key env i uri key_id pem db))" for k
    using that by (auto simp: put_key_def set_update_where set_add_row split: option.splits if_splits)
  then show ?thesis using assms unfolding keys_from_def by fastforce
qed

lemma keys_from_put_keys:
  "\<lbrakk> keys_from P db; \<forall>key \<in> set keys. \<forall>kid pem. key_parts uri key = Some (kid, pem) \<longrightarrow> P uri kid (take 8192 pem) \<rbrakk>
   \<Longrightarrow> keys_from P (snd (put_keys env i uri keys db))"
proof (induction keys arbitrary: db)
  case (Cons key keys)
  show ?case
  proof (cases "key_parts uri key")
    case None
    then show ?thesis using Cons by simp
  next
    case (Some kp)
    obtain kid pem where kp: "kp = (kid, pem)" by force
    then have "keys_from P (put_key env i uri kid pem db)"
      using Cons.prems Some by (intro keys_from_put_key) simp_all
    then show ?thesis using Some kp Cons by (simp split: option.split)
  qed
qed simp

lemma keys_from_actors [simp]:
  "keys_from P (put_actor uri f db) = keys_from P db" "keys_from P (db\<lparr>remote_actors := rows\<rparr>) = keys_from P db"
  by (simp_all add: keys_from_def put_actor_def)

lemma as_obj_iff: "as_obj j = Some d \<longleftrightarrow> j = JObj d"
  by (cases j) simp_all

lemma as_str_SomeD: "as_str j = Some s \<Longrightarrow> j = JStr s"
  by (cases j) simp_all

lemma document_keys_entry:
  "\<lbrakk> key \<in> set (document_keys document); key_parts uri key = Some (kid, pem) \<rbrakk>
   \<Longrightarrow> \<exists>entry. key = JObj entry \<and> dget entry ''id'' JNull = JStr kid \<and> dget entry ''owner'' JNull = JStr uri
      \<and> dget entry ''publicKeyPem'' JNull = JStr pem
      \<and> (dget document ''publicKey'' JNull = JObj entry
         \<or> (\<exists>ks. dget document ''publicKey'' JNull = JList ks \<and> JObj entry \<in> set ks))"
proof -
  assume k: "key \<in> set (document_keys document)" "key_parts uri key = Some (kid, pem)"
  obtain entry where e: "key = JObj entry" "dget entry ''id'' JNull = JStr kid"
      "dget entry ''owner'' JNull = JStr uri" "dget entry ''publicKeyPem'' JNull = JStr pem"
    using k(2) unfolding key_parts_def
    by (cases key) (auto split: option.splits if_splits dest!: as_str_SomeD)
  show ?thesis
  proof (cases "map_of document ''publicKey''")
    case None
    then show ?thesis using k(1) by (simp add: document_keys_def dget_def)
  next
    case (Some v)
    then show ?thesis using k(1) e by (cases v) (auto simp: document_keys_def dget_def dest: in_set_takeD)
  qed
qed

lemma store_actor_keys_from:
  assumes "keys_from P db" "snd (fetch_remote (fv_net env) (\<lambda>_. None) serve uri) = Inr (url, h)"
    "\<forall>owner kid pem. published env serve owner kid pem \<longrightarrow> P owner kid pem"
  shows "keys_from P (snd (store_actor env uri hostname (hp_body h) db))"
proof -
  have doc: "keys_from P (snd (put_keys env i uri (document_keys document) db'))"
    if "keys_from P db'" "aw_body (hp_body h) = Json (JObj document)" "dget document ''id'' JNull = JStr uri"
    for i document db'
  proof (rule keys_from_put_keys [OF that(1)], intro ballI allI impI)
    fix key kid pem assume "key \<in> set (document_keys document)" "key_parts uri key = Some (kid, pem)"
    from document_keys_entry [OF this] have "published env serve uri kid (take 8192 pem)"
      using assms(2) that(2,3) unfolding published_def by blast
    then show "P uri kid (take 8192 pem)" using assms(3) by blast
  qed
  show ?thesis
    using assms(1)
    by (cases "aw_body (hp_body h)")
      (simp_all add: store_actor_def Let_def doc as_obj_iff split: option.split sum.split)
qed

lemma fetch_remote_actor_keys_from:
  assumes "keys_from P db" "\<forall>owner kid pem. published env serve owner kid pem \<longrightarrow> P owner kid pem"
  shows "keys_from P (snd (fetch_remote_actor env (\<lambda>_. None) serve uri force db))"
  using assms(1) store_actor_keys_from [OF assms(1) _ assms(2)]
  unfolding fetch_remote_actor_def Let_def by (auto split: option.split sum.split)

lemma resolve_remote_key_keys_from:
  assumes "keys_from P db" "\<forall>owner kid pem. published env serve owner kid pem \<longrightarrow> P owner kid pem"
  shows "keys_from P (snd (resolve_remote_key env serve key_id force db))"
  using assms fetch_remote_actor_keys_from [OF assms]
  unfolding resolve_remote_key_def by (simp add: fetched_key_snd split: option.split)

lemma fetched_key_row:
  assumes "fst (fetched_key env serve key_id force db) = Inr (Some (owner, pem))"
  shows "\<exists>k. get_by rk_key_id key_id (remote_keys (snd (fetched_key env serve key_id force db))) = Some k
    \<and> rk_owner_uri k = owner \<and> rk_public_key_pem k = pem"
proof -
  obtain r db' where f: "fetch_remote_actor env (\<lambda>_. None) serve (before_at CHR ''#'' key_id) force db = (r, db')"
    by force
  show ?thesis
    using assms unfolding fetched_key_def f
    by (auto split: sum.splits fed_error.splits option.splits if_splits)
qed

lemma resolve_remote_key_row:
  assumes "fst (resolve_remote_key env serve key_id force db) = Inr (Some (owner, pem))"
  shows "\<exists>k \<in> set (remote_keys (snd (resolve_remote_key env serve key_id force db))).
    rk_key_id k = key_id \<and> rk_owner_uri k = owner \<and> rk_public_key_pem k = pem"
proof -
  define db' where "db' = snd (resolve_remote_key env serve key_id force db)"
  have "\<exists>k. get_by rk_key_id key_id (remote_keys db') = Some k \<and> rk_owner_uri k = owner \<and> rk_public_key_pem k = pem"
    using assms unfolding db'_def resolve_remote_key_def
    by (auto simp: fetched_key_row split: option.splits if_splits)
  then show ?thesis using get_by_SomeD [of rk_key_id key_id "remote_keys db'"] unfolding db'_def by blast
qed

lemma resolve_keys_owner:
  "\<lbrakk> keys_owned db; keys_from P db; i < length calls; resolve_keys calls db ! i = (key_id, Inr (Some (owner, pem))) \<rbrakk>
   \<Longrightarrow> owner = before_at CHR ''#'' key_id
     \<and> (P owner key_id pem \<or> (\<exists>(env, serve, _) \<in> set (take (Suc i) calls). published env serve owner key_id pem))"
proof (induction calls arbitrary: db i P)
  case (Cons c calls)
  obtain env serve kid force where c: "c = (env, serve, kid, force)" by (cases c) auto
  obtain r db' where r: "resolve_remote_key env serve kid force db = (r, db')" by force
  let ?P = "\<lambda>owner kid pem. P owner kid pem \<or> published env serve owner kid pem"
  have "keys_from ?P db" using Cons.prems(2) by (simp add: keys_from_def)
  then have from': "keys_from ?P db'"
    using resolve_remote_key_keys_from [of ?P db env serve kid force] r by simp
  have owned: "keys_owned db'" using resolve_remote_key_owned [OF Cons.prems(1), of env serve kid force] r by simp
  show ?case
  proof (cases i)
    case 0
    then have now: "kid = key_id" "r = Inr (Some (owner, pem))" using Cons.prems(4) by (simp_all add: c r)
    have "owner = before_at CHR ''#'' key_id"
      using resolve_remote_key_owner [OF Cons.prems(1), of env serve kid force owner pem] r now by simp
    moreover have "?P owner key_id pem"
      using resolve_remote_key_row [of env serve kid force db owner pem] r now from' by (auto simp: keys_from_def)
    ultimately show ?thesis using 0 by (auto simp: c)
  next
    case (Suc j)
    then have "resolve_keys calls db' ! j = (key_id, Inr (Some (owner, pem)))" "j < length calls"
      using Cons.prems(3,4) by (simp_all add: c r)
    from Cons.IH [OF owned from' this(2,1)] show ?thesis unfolding Suc c by auto
  qed
qed simp

section \<open>Properties\<close>

text \<open>
  C29. Whatever documents remote servers send, in whatever order keys are looked up from an
  empty cache: a look-up answers with an owner and a PEM only if the owner is the URI its key
  identifier has before the fragment, and in this or an earlier look-up the server answered a
  request for that URI with a document whose identifier is the URI and which has an entry with
  this key identifier, this owner and this PEM (its first 8192 characters). So no actor can
  supply a key in another one's name, nor a key under another one's identifier.
\<close>

theorem signature_key_owner:
  "\<lbrakk> remote_keys db = []; i < length calls; resolve_keys calls db ! i = (key_id, Inr (Some (owner, pem))) \<rbrakk>
   \<Longrightarrow> owner = before_at CHR ''#'' key_id
     \<and> (\<exists>(env, serve, _) \<in> set (take (Suc i) calls). published env serve owner key_id pem)"
  using resolve_keys_owner [of db "\<lambda>_ _ _. False" i calls key_id owner pem] by (simp only: keys_owned_def keys_from_def list.set) blast

lemma new_actor_id [simp]: "ra_id (new_actor env uri d) = fv_id env uri"
  by (simp add: new_actor_def)

text \<open>A resolver, a configuration and one server for the concrete runs.\<close>

definition demo_net :: net_env where
  "demo_net = \<lparr>nt_idna = (\<lambda>_. None), nt_address = (\<lambda>a. if a = ''9.9.9.9'' then Some True else None),
     nt_brackets_ok = (\<lambda>_. False), nt_nfkc_ok = (\<lambda>_. True), nt_dns = (\<lambda>_. Dns_answers [''9.9.9.9''])\<rparr>"

definition demo_fed_settings :: dict where
  "demo_fed_settings = [(''enabled'', JBool True), (''mode'', JStr ''full'')]"

definition demo_fed_env :: fed_env where
  "demo_fed_env = \<lparr>fv_cfg = demo_config, fv_net = demo_net, fv_settings = demo_fed_settings, fv_now = 0,
     fv_id = (\<lambda>s. s), fv_plain = (\<lambda>s. s), fv_html = (\<lambda>_ s. s),
     fv_iso = (\<lambda>_. ''t''), fv_stamp = (\<lambda>_. ''t''), fv_uuid5 = (\<lambda>s. s)\<rparr>"

definition demo_actor_document :: dict where
  "demo_actor_document = [(''id'', JStr ''https://r.io/a''), (''type'', JStr ''Person''),
     (''inbox'', JStr ''https://r.io/i''),
     (''publicKey'', JObj [(''id'', JStr ''https://r.io/a#k''), (''owner'', JStr ''https://r.io/a''),
        (''publicKeyPem'', JStr ''PEM'')])]"

definition demo_hop :: "actor_answer hop" where
  "demo_hop = \<lparr>hp_peer = None, hp_status = 200, hp_location = None, hp_media_type = ''application/activity+json'',
     hp_declared = None, hp_chunks = [100],
     hp_body = \<lparr>aw_body = Json (JObj demo_actor_document), aw_etag = None, aw_modified = None\<rparr>\<rparr>"

definition demo_serve :: "string \<Rightarrow> actor_answer hop option" where
  "demo_serve url = (if url = ''https://r.io/a'' then Some demo_hop else None)"

lemma demo_key_url:
  "urlsplit demo_net ''https://r.io/a#k''
     = Some \<lparr>sp_scheme = ''https'', sp_netloc = ''r.io'', sp_path = ''/a'', sp_query = [], sp_fragment = ''k''\<rparr>"
  by code_simp

lemma demo_actor_url:
  "urlsplit demo_net ''https://r.io/a''
     = Some \<lparr>sp_scheme = ''https'', sp_netloc = ''r.io'', sp_path = ''/a'', sp_query = [], sp_fragment = []\<rparr>"
  by code_simp

lemma demo_hosts:
  "url_hostname \<lparr>sp_scheme = ''https'', sp_netloc = ''r.io'', sp_path = ''/a'', sp_query = [], sp_fragment = ''k''\<rparr> = Some ''r.io''"
  "url_hostname \<lparr>sp_scheme = ''https'', sp_netloc = ''r.io'', sp_path = ''/a'', sp_query = [], sp_fragment = []\<rparr> = Some ''r.io''"
  "normalized_uri ''r.io'' \<lparr>sp_scheme = ''https'', sp_netloc = ''r.io'', sp_path = ''/a'', sp_query = [], sp_fragment = []\<rparr> = ''https://r.io/a''"
  "before_at CHR ''#'' ''https://r.io/a#k'' = ''https://r.io/a''"
  by code_simp+

lemma demo_checks:
  "validate_remote_url_syntax demo_net ''https://r.io/a'' = Inr (''r.io'', ''/a'')"
  "validate_remote_url_syntax demo_net ''https://r.io/i'' = Inr (''r.io'', ''/i'')"
  "normalize_domain demo_net ''r.io'' = Inr ''r.io''"
  "domain_allowed demo_net empty_db ''r.io'' demo_fed_settings"
  by code_simp+

lemma demo_fed_env_simps [simp]:
  "fv_net demo_fed_env = demo_net" "fv_settings demo_fed_env = demo_fed_settings" "fv_now demo_fed_env = 0"
  "fv_id demo_fed_env = (\<lambda>s. s)"
  by (simp_all add: demo_fed_env_def)

lemma demo_url_ok: "validate_remote_url demo_net ''https://r.io/a'' = Inr [''9.9.9.9'']"
  by code_simp

lemma demo_fetch: "snd (fetch_remote demo_net (\<lambda>_. None) demo_serve ''https://r.io/a'') = Inr (''https://r.io/a'', demo_hop)"
  by (simp add: fetch_remote_def fetch_hops.simps demo_serve_def peer_check_def demo_hop_def is_redirect_def
      read_body_def ACTIVITY_MEDIA_TYPES_def declared_check_def MAX_REMOTE_BYTES_def demo_url_ok)

lemma demo_resolve:
  "resolve_keys [(demo_fed_env, demo_serve, ''https://r.io/a#k'', False)] empty_db
     = [(''https://r.io/a#k'', Inr (Some (''https://r.io/a'', ''PEM'')))]"
proof -
  let ?uri = "''https://r.io/a''" and ?kid = "''https://r.io/a#k''"
  have store: "fetch_remote_actor demo_fed_env (\<lambda>_. None) demo_serve ?uri False empty_db
      = store_actor demo_fed_env ?uri ''r.io'' (hp_body demo_hop) empty_db"
    by (simp add: fetch_remote_actor_def demo_actor_url demo_hosts demo_checks demo_fetch)
  obtain a db where a: "ra_id a = ?uri" "ra_actor_uri a = ?uri"
      "store_actor demo_fed_env ?uri ''r.io'' (hp_body demo_hop) empty_db
         = (Inr a, put_key demo_fed_env ?uri ?uri ?kid ''PEM'' db)" "remote_keys db = []"
    by (simp add: store_actor_def demo_hop_def demo_actor_document_def dget_def check_actor_type_def
        ACTOR_TYPES_def check_inbox_def demo_checks document_keys_def key_parts_def demo_key_url demo_hosts Let_def)
  then show ?thesis
    by (simp add: resolve_remote_key_def fetched_key_def demo_key_url demo_hosts demo_checks store put_key_def add_row_def)
qed

theorem signature_key_owner_witness:
  "''https://r.io/a'' = before_at CHR ''#'' ''https://r.io/a#k''
   \<and> (\<exists>(env, serve, _) \<in> set (take (Suc 0) [(demo_fed_env, demo_serve, ''https://r.io/a#k'', False)]).
        published env serve ''https://r.io/a'' ''https://r.io/a#k'' ''PEM'')"
proof (rule signature_key_owner)
  show "remote_keys empty_db = []" by simp
  show "resolve_keys [(demo_fed_env, demo_serve, ''https://r.io/a#k'', False)] empty_db ! 0
     = (''https://r.io/a#k'', Inr (Some (''https://r.io/a'', ''PEM'')))"
    by (simp only: demo_resolve nth_Cons_0)
qed simp

text \<open>
  The domain rules are applied to the actor's own host only: when its server answers with
  a redirect, the instance requests a URL on a domain that its rules block.
\<close>

theorem redirect_reaches_blocked_domain:
  "\<exists>(serve :: string \<Rightarrow> actor_answer hop option) db url.
     \<not> domain_allowed demo_net db ''bad.io'' demo_fed_settings
     \<and> domain_allowed demo_net db ''r.io'' demo_fed_settings
     \<and> sp_netloc (the (urlsplit demo_net url)) = ''bad.io''
     \<and> url \<in> set (fst (fetch_remote demo_net (\<lambda>_. None) serve ''https://r.io/a''))"
proof (intro exI conjI)
  let ?serve = "\<lambda>url. Some \<lparr>hp_peer = None, hp_status = 302, hp_location = Some ''https://bad.io/x'',
     hp_media_type = [], hp_declared = None, hp_chunks = [],
     hp_body = \<lparr>aw_body = Malformed, aw_etag = None, aw_modified = None\<rparr>\<rparr>"
  let ?db = "empty_db\<lparr>domain_rules := [\<lparr>dr_id = ''1'', dr_domain = ''bad.io'', dr_rule = ''block'',
     dr_include_subdomains = True, dr_note = None, dr_created_at = 0, dr_created_by = None\<rparr>]\<rparr>"
  show "\<not> domain_allowed demo_net ?db ''bad.io'' demo_fed_settings" by code_simp
  show "domain_allowed demo_net ?db ''r.io'' demo_fed_settings" by code_simp
  show "sp_netloc (the (urlsplit demo_net ''https://bad.io/x'')) = ''bad.io''" by code_simp
  show "''https://bad.io/x'' \<in> set (fst (fetch_remote demo_net (\<lambda>_. None) ?serve ''https://r.io/a''))"
    by code_simp
qed

end
