(* ===== verification/Federation_Outbox.thy ===== *)
theory Federation_Outbox
  imports Federation_Actors Contracts
begin

text \<open>
  \<open>federation/services.py\<close>: outgoing activities with one delivery per inbox, the posts and
  comments that become activities, the follow requests, and the worker that leases and
  delivers. The answers of the network, the signature and the jitter are arguments.
\<close>

section \<open>Activities\<close>

definition PUBLIC :: string where
  "PUBLIC = ''https://www.w3.org/ns/activitystreams#Public''"

definition OUTBOUND_TYPES :: "string list" where
  "OUTBOUND_TYPES = [''Create'', ''Update'', ''Delete'', ''Accept'', ''Reject'', ''Follow'', ''Undo'']"

text \<open>\<open>str(d.get(k1) or d.get(k2) or "")\<close>.\<close>

definition str_of_first :: "dict \<Rightarrow> string \<Rightarrow> string \<Rightarrow> string" where
  "str_of_first d k1 k2 =
     (if truthy (dget d k1 JNull) then py_str (dget d k1 JNull) else str_or_empty (dget d k2 JNull))"

definition private_recipient :: "string \<Rightarrow> json \<Rightarrow> string" where
  "private_recipient kind obj = (case obj of
     JStr s \<Rightarrow> s
   | JObj d \<Rightarrow>
       if kind \<in> {''Accept'', ''Reject''} then str_or_empty (dget d ''actor'' JNull)
       else if kind = ''Undo'' \<and> as_obj (dget d ''object'' JNull) \<noteq> None
       then str_or_empty (dget (the (as_obj (dget d ''object'' JNull))) ''object'' JNull)
       else str_of_first d ''object'' ''actor''
   | _ \<Rightarrow> [])"

definition object_uri_of :: "json \<Rightarrow> string" where
  "object_uri_of obj = (case obj of
     JStr s \<Rightarrow> take 2048 s | JObj d \<Rightarrow> take 2048 (str_of_first d ''id'' ''actor'') | _ \<Rightarrow> [])"

definition activity_payload :: "string \<Rightarrow> string \<Rightarrow> string \<Rightarrow> json \<Rightarrow> bool \<Rightarrow> json" where
  "activity_payload uri kind actor obj public =
     JObj [(''@context'', JStr ''https://www.w3.org/ns/activitystreams''), (''id'', JStr uri),
       (''type'', JStr kind), (''actor'', JStr actor), (''object'', obj),
       (''to'', JList [JStr (if public then PUBLIC else private_recipient kind obj)])]"

definition activity_id :: "fed_env \<Rightarrow> string \<Rightarrow> fed_error + string" where
  "activity_id env tag = (case canonical_origin (fv_net env) (fv_cfg env) of
     Inl e \<Rightarrow> Inl e | Inr origin \<Rightarrow> Inr (origin @ ''/ap/activities/'' @ fv_id env tag))"

text \<open>The activity of a revision of a source, which is unique.\<close>

definition find_activity :: "string \<Rightarrow> string \<Rightarrow> string \<Rightarrow> db \<Rightarrow> outbox_activity option" where
  "find_activity src_type src_id revision db = first_where (\<lambda>a. oa_source_type a = src_type
     \<and> oa_source_id a = src_id \<and> oa_source_revision a = revision) (outbox_activities db)"

text \<open>
  The host an inbox is delivered to: its own, when it is the domain the recipient names and
  the rules allow it.
\<close>

definition inbox_domain :: "fed_env \<Rightarrow> db \<Rightarrow> string \<Rightarrow> string \<Rightarrow> string option" where
  "inbox_domain env db inbox domain = (case validate_remote_url_syntax (fv_net env) inbox of
     Inl _ \<Rightarrow> None
   | Inr (parsed, _) \<Rightarrow> (case normalize_domain (fv_net env) (if domain = [] then parsed else domain) of
       Inl _ \<Rightarrow> None
     | Inr name \<Rightarrow>
         if parsed \<noteq> name \<or> \<not> domain_allowed (fv_net env) db name (fv_settings env) then None else Some name))"

definition new_delivery :: "fed_env \<Rightarrow> string \<Rightarrow> string \<Rightarrow> string \<Rightarrow> delivery" where
  "new_delivery env activity inbox domain =
     \<lparr>dl_id = fv_id env (activity @ inbox), dl_activity_id = activity, dl_target_inbox = take 2048 inbox,
      dl_domain = domain, dl_status = ''pending'', dl_attempts = 0, dl_max_attempts = 8,
      dl_next_attempt_at = fv_now env, dl_lease_owner = None, dl_lease_until = None,
      dl_response_status = None, dl_last_error = None, dl_delivered_at = None,
      dl_created_at = fv_now env, dl_updated_at = fv_now env\<rparr>"

fun add_deliveries :: "fed_env \<Rightarrow> string \<Rightarrow> string list \<Rightarrow> (string \<times> string) list \<Rightarrow> db \<Rightarrow> db" where
  "add_deliveries env activity seen [] db = db"
| "add_deliveries env activity seen ((inbox, domain) # recipients) db =
     (if inbox \<in> set seen then add_deliveries env activity seen recipients db
      else case inbox_domain env db inbox domain of
        None \<Rightarrow> add_deliveries env activity (inbox # seen) recipients db
      | Some name \<Rightarrow> add_deliveries env activity (inbox # seen) recipients
          (db\<lparr>deliveries := add_row (new_delivery env activity inbox name) (deliveries db)\<rparr>))"

text \<open>The insertion, which another transaction may have made in the meantime.\<close>

definition insert_activity ::
  "fed_env \<Rightarrow> outbox_activity \<Rightarrow> (string \<times> string) list \<Rightarrow> db \<Rightarrow> (fed_error, outbox_activity, db) outcome" where
  "insert_activity env a recipients db =
     (case find_activity (oa_source_type a) (oa_source_id a) (oa_source_revision a) db of
        Some other \<Rightarrow> (Inr other, db)
      | None \<Rightarrow> (Inr a, add_deliveries env (oa_id a) [] (take 1000 recipients)
          (db\<lparr>outbox_activities := add_row a (outbox_activities db)\<rparr>)))"

definition activity_tag :: "string \<Rightarrow> string \<Rightarrow> string \<Rightarrow> string" where
  "activity_tag src_type src_id revision = src_type @ '':'' @ src_id @ '':'' @ revision"

definition new_activity ::
  "fed_env \<Rightarrow> local_actor \<Rightarrow> string \<Rightarrow> json \<Rightarrow> string \<Rightarrow> string \<Rightarrow> string \<Rightarrow> bool \<Rightarrow> string \<Rightarrow> outbox_activity" where
  "new_activity env actor kind obj src_type src_id revision public uri =
     \<lparr>oa_id = fv_id env (''row:'' @ activity_tag src_type src_id revision), oa_activity_uri = uri,
      oa_actor_uri = la_actor_uri actor, oa_activity_type = kind, oa_object_uri = object_uri_of obj,
      oa_payload_json = Json (activity_payload uri kind (la_actor_uri actor) obj public),
      oa_source_type = src_type, oa_source_id = src_id, oa_source_revision = revision,
      oa_audience_public = public, oa_created_at = fv_now env\<rparr>"

definition enqueue_activity ::
  "fed_env \<Rightarrow> local_actor \<Rightarrow> string \<Rightarrow> json \<Rightarrow> string \<Rightarrow> string \<Rightarrow> string \<Rightarrow> (string \<times> string) list \<Rightarrow> bool \<Rightarrow> db
   \<Rightarrow> (fed_error, outbox_activity, db) outcome" where
  "enqueue_activity env actor kind obj src_type src_id source_revision recipients public db =
     (if kind \<notin> set OUTBOUND_TYPES then (Inl (Value_error ''unsupported_outbound_activity''), db)
      else
       (let revision = take 64 source_revision in
        case find_activity src_type src_id revision db of
          Some existing \<Rightarrow> (Inr existing, db)
        | None \<Rightarrow> (case activity_id env (activity_tag src_type src_id revision) of
            Inl e \<Rightarrow> (Inl e, db)
          | Inr uri \<Rightarrow>
              insert_activity env (new_activity env actor kind obj src_type src_id revision public uri) recipients db)))"

section \<open>Posts and comments\<close>

definition actor_followers :: "fed_env \<Rightarrow> local_actor \<Rightarrow> db \<Rightarrow> (string \<times> string) list" where
  "actor_followers env actor db = (case get_by u_id (la_user_id actor) (users db) of
     None \<Rightarrow> []
   | Some u \<Rightarrow>
       concat (map (\<lambda>f. let inbox = or_empty (fo_remote_inbox_uri f) in
           if inbox = [] then []
           else (case validate_remote_url_syntax (fv_net env) inbox of
               Inl _ \<Rightarrow> [] | Inr (domain, _) \<Rightarrow> [(inbox, domain)]))
         (take 1000 (filter (\<lambda>f. fo_local_user_id f = u_id u \<and> fo_direction f = Dir_Inbound
             \<and> fo_state f = Follow_Accepted \<and> fo_remote_inbox_uri f \<noteq> None) (followers db)))))"

text \<open>The first row of the join of a post with its primary author and that author's actor.\<close>

definition post_rows :: "string \<Rightarrow> db \<Rightarrow> (post \<times> user \<times> local_actor) list" where
  "post_rows post_id db =
     [(p, u, a). p \<leftarrow> posts db, r \<leftarrow> post_authors db, u \<leftarrow> users db, a \<leftarrow> local_actors db,
        po_id p = post_id \<and> pa_post_id r = po_id p \<and> u_id u = pa_user_id r \<and> la_user_id a = u_id u
        \<and> pa_role r = Authorship_Primary \<and> po_status p = Post_Published \<and> po_visibility p = Visibility_Public
        \<and> u_account_type u = Account_Public \<and> u_is_active u \<and> \<not> u_federation_opt_out u \<and> la_enabled a]"

definition post_uri :: "string \<Rightarrow> post \<Rightarrow> string" where
  "post_uri origin p = (if truthy_str (po_ap_object_id p) then or_empty (po_ap_object_id p)
     else origin @ ''/ap/object/'' @ po_short_id p)"

definition article :: "fed_env \<Rightarrow> string \<Rightarrow> post \<Rightarrow> local_actor \<Rightarrow> json" where
  "article env origin p actor = JObj
    [(''id'', JStr (post_uri origin p)), (''type'', JStr ''Article''),
     (''attributedTo'', JStr (la_actor_uri actor)), (''name'', JStr (take 512 (po_title p))),
     (''summary'', JStr (take 4000 (fv_plain env (or_empty (po_excerpt p))))),
     (''content'', JStr (take 100000 (fv_html env [''http'', ''https'', ''mailto''] (po_body_html p)))),
     (''published'', JStr (fv_iso env (case po_published_at p of None \<Rightarrow> po_created_at p | Some t \<Rightarrow> t))),
     (''updated'', JStr (fv_iso env (po_updated_at p))),
     (''url'', JStr (origin @ ''/@'' @ la_preferred_username actor @ ''/p/'' @ po_slug p)),
     (''to'', JList [JStr PUBLIC]), (''cc'', JList [JStr (la_actor_uri actor @ ''/followers'')])]"

definition some_activity ::
  "(fed_error, outbox_activity, db) outcome \<Rightarrow> (fed_error, outbox_activity option, db) outcome" where
  "some_activity r = and_then r (\<lambda>a db. (Inr (Some a), db))"

definition enqueue_post_activity ::
  "fed_env \<Rightarrow> string \<Rightarrow> string \<Rightarrow> string option \<Rightarrow> db \<Rightarrow> (fed_error, outbox_activity option, db) outcome" where
  "enqueue_post_activity env post_id kind revision db =
     (if \<not> federation_is_enabled (fv_settings env) then (Inr None, db)
      else case post_rows post_id db of
        [] \<Rightarrow> (Inr None, db)
      | (p, _, actor) # _ \<Rightarrow> (case canonical_origin (fv_net env) (fv_cfg env) of
          Inl e \<Rightarrow> (Inl e, db)
        | Inr origin \<Rightarrow>
            (let db1 = db\<lparr>posts := update_where (\<lambda>r. po_id r = po_id p)
                 (\<lambda>r. r\<lparr>po_ap_object_id := Some (post_uri origin p)\<rparr>) (posts db)\<rparr> in
             some_activity (enqueue_activity env actor kind (article env origin p actor) ''post'' (po_id p)
               (if truthy_str revision then or_empty revision else fv_stamp env (po_updated_at p))
               (actor_followers env actor db1) True db1))))"

definition enqueue_post_delete ::
  "fed_env \<Rightarrow> post \<Rightarrow> db \<Rightarrow> (fed_error, outbox_activity option, db) outcome" where
  "enqueue_post_delete env p db =
     (if \<not> federation_is_enabled (fv_settings env) then (Inr None, db)
      else case [a. a \<leftarrow> local_actors db, r \<leftarrow> post_authors db, pa_user_id r = la_user_id a
               \<and> pa_post_id r = po_id p \<and> pa_role r = Authorship_Primary \<and> la_enabled a] of
        [] \<Rightarrow> (Inr None, db)
      | actor # _ \<Rightarrow>
          if \<not> truthy_str (po_ap_object_id p) then (Inr None, db)
          else
           (let targets = take 1000 [(dl_target_inbox d, dl_domain d). d \<leftarrow> deliveries db,
                  a \<leftarrow> outbox_activities db, oa_id a = dl_activity_id d \<and> oa_source_type a = ''post''
                    \<and> oa_source_id a = po_id p \<and> oa_activity_type a \<in> {''Create'', ''Update''}]
            in some_activity (enqueue_activity env actor ''Delete''
                 (JObj [(''id'', JStr (or_empty (po_ap_object_id p))), (''type'', JStr ''Tombstone''),
                    (''formerType'', JStr ''Article'')])
                 ''post'' (po_id p) (''delete:'' @ fv_stamp env (po_updated_at p)) targets True db)))"

definition comment_rows :: "string \<Rightarrow> string \<Rightarrow> db \<Rightarrow> (comment \<times> post \<times> local_actor) list" where
  "comment_rows comment_id kind db =
     [(c, p, a). c \<leftarrow> comments db, p \<leftarrow> posts db, u \<leftarrow> users db, a \<leftarrow> local_actors db,
        co_id c = comment_id \<and> po_id p = co_post_id c \<and> co_author_user_id c = Some (u_id u)
        \<and> la_user_id a = u_id u
        \<and> (co_status c = Comment_Approved \<or> kind = ''Delete'' \<and> co_status c = Comment_Deleted)
        \<and> co_author_email c = None \<and> po_status p = Post_Published \<and> po_visibility p = Visibility_Public
        \<and> la_enabled a]"

definition comment_uri :: "string \<Rightarrow> comment \<Rightarrow> string" where
  "comment_uri origin c = (if truthy_str (co_remote_object_uri c) then or_empty (co_remote_object_uri c)
     else origin @ ''/ap/comment/'' @ co_id c)"

text \<open>What a comment replies to: its parent, if there is one, or its post.\<close>

definition parent_uri :: "string \<Rightarrow> comment \<Rightarrow> post \<Rightarrow> db \<Rightarrow> string" where
  "parent_uri origin c p db =
     (case (if truthy_str (co_parent_id c) then get_by co_id (or_empty (co_parent_id c)) (comments db) else None) of
        Some parent \<Rightarrow> comment_uri origin parent | None \<Rightarrow> post_uri origin p)"

definition note_of :: "fed_env \<Rightarrow> string \<Rightarrow> comment \<Rightarrow> post \<Rightarrow> local_actor \<Rightarrow> db \<Rightarrow> json" where
  "note_of env origin c p actor db = JObj
    [(''id'', JStr (comment_uri origin c)), (''type'', JStr ''Note''),
     (''attributedTo'', JStr (la_actor_uri actor)),
     (''content'', JStr (take 20000 (fv_html env [''https'', ''http''] (co_body c)))),
     (''inReplyTo'', JStr (parent_uri origin c p db)),
     (''published'', JStr (fv_iso env (case co_published_at c of None \<Rightarrow> co_created_at c | Some t \<Rightarrow> t))),
     (''to'', JList [JStr PUBLIC]), (''cc'', JList [JStr (la_actor_uri actor @ ''/followers'')])]"

text \<open>The first public activity of a post, made now if there is none.\<close>

definition post_activity :: "fed_env \<Rightarrow> string \<Rightarrow> db \<Rightarrow> (fed_error, outbox_activity option, db) outcome" where
  "post_activity env post_id db =
     (case min_by oa_created_at (filter (\<lambda>a. oa_source_type a = ''post'' \<and> oa_source_id a = post_id
          \<and> oa_audience_public a \<and> oa_activity_type a \<in> {''Create'', ''Update''}) (outbox_activities db)) of
        Some a \<Rightarrow> (Inr (Some a), db)
      | None \<Rightarrow> enqueue_post_activity env post_id ''Create'' None db)"

text \<open>The recipients are a set in the code, so their order is of no account.\<close>

definition enqueue_comment_activity ::
  "fed_env \<Rightarrow> string \<Rightarrow> string \<Rightarrow> string \<Rightarrow> db \<Rightarrow> (fed_error, outbox_activity option, db) outcome" where
  "enqueue_comment_activity env comment_id kind revision db =
     (if \<not> federation_is_enabled (fv_settings env) then (Inr None, db)
      else case comment_rows comment_id kind db of
        [] \<Rightarrow> (Inr None, db)
      | (c, p, actor) # _ \<Rightarrow>
          and_then (post_activity env (po_id p) db) (\<lambda>made db1. case made of
            None \<Rightarrow> (Inr None, db1)
          | Some pa \<Rightarrow> (case first_where (\<lambda>a. la_actor_uri a = oa_actor_uri pa \<and> la_enabled a) (local_actors db1) of
              None \<Rightarrow> (Inr None, db1)
            | Some post_actor \<Rightarrow> (case canonical_origin (fv_net env) (fv_cfg env) of
                Inl e \<Rightarrow> (Inl e, db1)
              | Inr origin \<Rightarrow>
                  (let uri = comment_uri origin c;
                       db2 = db1\<lparr>comments := update_where (\<lambda>r. co_id r = co_id c)
                         (\<lambda>r. r\<lparr>co_remote_object_uri := Some uri\<rparr>) (comments db1)\<rparr>;
                       p1 = (case get_by po_id (po_id p) (posts db1) of None \<Rightarrow> p | Some x \<Rightarrow> x);
                       note = (if kind = ''Delete'' then JObj [(''id'', JStr uri), (''type'', JStr ''Tombstone''),
                                  (''formerType'', JStr ''Note'')] else note_of env origin c p1 actor db2)
                   in some_activity (enqueue_activity env actor kind note ''comment'' (co_id c) revision
                        (remdups (actor_followers env actor db2 @ actor_followers env post_actor db2)) True db2))))))"

section \<open>Following\<close>

definition actor_inbox :: "remote_actor \<Rightarrow> string" where
  "actor_inbox r = (if truthy_str (ra_shared_inbox_uri r) then or_empty (ra_shared_inbox_uri r) else ra_inbox_uri r)"

definition queue_follow_accept ::
  "fed_env \<Rightarrow> local_actor \<Rightarrow> remote_actor \<Rightarrow> string \<Rightarrow> bool \<Rightarrow> db \<Rightarrow> (fed_error, outbox_activity, db) outcome" where
  "queue_follow_accept env loc remote follow_id reject db =
     enqueue_activity env loc (if reject then ''Reject'' else ''Accept'')
       (JObj [(''id'', JStr follow_id), (''type'', JStr ''Follow''), (''actor'', JStr (ra_actor_uri remote)),
          (''object'', JStr (la_actor_uri loc))])
       ''follow-response'' (fv_uuid5 env (la_id loc @ '':'' @ follow_id)) (if reject then ''reject'' else ''accept'')
       [(actor_inbox remote, ra_domain remote)] False db"

text \<open>\<open>s.rsplit("/", 1)[-1]\<close>.\<close>

definition last_segment :: "string \<Rightarrow> string" where
  "last_segment s = snd (snd (rpartition_at CHR ''/'' s))"

text \<open>\<open>onupdate\<close>: a relation that changed gets the time of the change.\<close>

definition touch_follower :: "time \<Rightarrow> (follower \<Rightarrow> follower) \<Rightarrow> follower \<Rightarrow> follower" where
  "touch_follower now f r = (if f r = r then r else (f r)\<lparr>fo_updated_at := now\<rparr>)"

definition put_follower :: "time \<Rightarrow> string \<Rightarrow> (follower \<Rightarrow> follower) \<Rightarrow> db \<Rightarrow> db" where
  "put_follower now i f db = db\<lparr>followers := update_where (\<lambda>r. fo_id r = i) (touch_follower now f) (followers db)\<rparr>"

definition follow_remote_actor ::
  "fed_env \<Rightarrow> local_actor \<Rightarrow> remote_actor \<Rightarrow> db \<Rightarrow> (fed_error, string, db) outcome" where
  "follow_remote_actor env loc remote db =
     (if \<not> federation_is_enabled (fv_settings env)
         \<or> \<not> domain_allowed (fv_net env) db (ra_domain remote) (fv_settings env)
      then (Inl (Value_error ''federation_or_remote_domain_unavailable''), db)
      else case get_by u_id (la_user_id loc) (users db) of
        None \<Rightarrow> (Inl (Value_error ''local_actor_unavailable''), db)
      | Some u \<Rightarrow>
          if \<not> la_enabled loc then (Inl (Value_error ''local_actor_unavailable''), db)
          else
           (let relation = first_where (\<lambda>f. fo_local_user_id f = u_id u
                  \<and> fo_remote_actor_uri f = ra_actor_uri remote \<and> fo_direction f = Dir_Outbound) (followers db) in
            if (case relation of None \<Rightarrow> False | Some f \<Rightarrow> fo_state f \<in> {Follow_Pending, Follow_Accepted})
            then (Inr (fo_id (the relation)), db)
            else (case activity_id env ''follow'' of
                Inl e \<Rightarrow> (Inl e, db)
              | Inr follow_id \<Rightarrow>
                  (let rid = (case relation of None \<Rightarrow> fv_id env ''relation'' | Some f \<Rightarrow> fo_id f);
                       db1 = (case relation of
                         None \<Rightarrow> db\<lparr>followers := add_row
                           \<lparr>fo_id = rid, fo_local_user_id = u_id u, fo_remote_actor_uri = ra_actor_uri remote,
                            fo_remote_display_name = ra_display_name remote,
                            fo_remote_inbox_uri = Some (actor_inbox remote), fo_direction = Dir_Outbound,
                            fo_state = Follow_Pending, fo_activity_id = None, fo_created_at = fv_now env,
                            fo_updated_at = fv_now env\<rparr> (followers db)\<rparr>
                       | Some _ \<Rightarrow> put_follower (fv_now env) rid (\<lambda>r. r\<lparr>fo_state := Follow_Pending,
                           fo_remote_inbox_uri := Some (actor_inbox remote)\<rparr>) db)
                   in and_then (enqueue_activity env loc ''Follow'' (JStr (ra_actor_uri remote)) ''follow-request''
                        rid (last_segment follow_id) [(actor_inbox remote, ra_domain remote)] False db1)
                      (\<lambda>a db2. (Inr rid, put_follower (fv_now env) rid (\<lambda>r. r\<lparr>fo_activity_id := Some (oa_activity_uri a)\<rparr>) db2))))))"

section \<open>The delivery worker\<close>

definition DELIVERY_LEASE_SECONDS :: int where "DELIVERY_LEASE_SECONDS = 60"

definition delivery_due :: "time \<Rightarrow> delivery \<Rightarrow> bool" where
  "delivery_due now d \<longleftrightarrow> dl_status d \<in> {''pending'', ''retry''} \<and> dl_next_attempt_at d \<le> now
     \<or> dl_status d = ''sending'' \<and> (case dl_lease_until d of None \<Rightarrow> False | Some u \<Rightarrow> u \<le> now)"

definition delivery_grab :: "string \<Rightarrow> time \<Rightarrow> delivery \<Rightarrow> delivery" where
  "delivery_grab worker now d = d\<lparr>dl_status := ''sending'', dl_lease_owner := Some worker,
     dl_lease_until := Some (now + seconds DELIVERY_LEASE_SECONDS), dl_attempts := dl_attempts d + 1,
     dl_updated_at := now\<rparr>"

definition claim_delivery :: "string \<Rightarrow> time \<Rightarrow> db \<Rightarrow> string option \<times> db" where
  "claim_delivery worker now db =
     (case lease_claim dl_id (\<lambda>d. d) (delivery_due now) dl_next_attempt_at (delivery_grab worker now) (deliveries db) of
        (j, ds) \<Rightarrow> (j, db\<lparr>deliveries := ds\<rparr>))"

text \<open>
  What one attempt meets: the servers of actor documents and of inboxes, the failure of the
  signature if it fails, the size of the body and the random part of a delay.
\<close>

record delivery_world =
  dw_serve :: "string \<Rightarrow> actor_answer hop option"
  dw_inbox :: "string \<Rightarrow> unit hop option"
  dw_sign :: "fed_error option"
  dw_size :: nat
  dw_jitter :: int

definition put_delivery :: "time \<Rightarrow> string \<Rightarrow> (delivery \<Rightarrow> delivery) \<Rightarrow> db \<Rightarrow> db" where
  "put_delivery now i f db = db\<lparr>deliveries := update_where (\<lambda>d. dl_id d = i)
     (\<lambda>d. (f d)\<lparr>dl_updated_at := now\<rparr>) (deliveries db)\<rparr>"

definition unlease_delivery :: "delivery \<Rightarrow> delivery" where
  "unlease_delivery d = d\<lparr>dl_lease_owner := None, dl_lease_until := None\<rparr>"

definition retry_base :: "delivery \<Rightarrow> int" where
  "retry_base d = min 3600 (2 ^ nat (min (dl_attempts d) 10))"

definition retry_after :: "time \<Rightarrow> int \<Rightarrow> string \<Rightarrow> bool \<Rightarrow> delivery \<Rightarrow> delivery" where
  "retry_after now jitter reason transient d =
     (let d1 = (unlease_delivery d)\<lparr>dl_last_error := Some (take 512 reason)\<rparr> in
      if transient \<and> dl_attempts d < dl_max_attempts d
      then d1\<lparr>dl_status := ''retry'', dl_next_attempt_at := now + seconds (retry_base d + jitter)\<rparr>
      else d1\<lparr>dl_status := ''dead''\<rparr>)"

text \<open>The actor an inbox belongs to, as the follower relations or the cache know it.\<close>

definition follower_of_inbox :: "string \<Rightarrow> db \<Rightarrow> string option" where
  "follower_of_inbox inbox db = map_option fo_remote_actor_uri (first_where (\<lambda>f. fo_remote_inbox_uri f = Some inbox)
     (followers db))"

definition owner_of_inbox :: "string \<Rightarrow> db \<Rightarrow> string option" where
  "owner_of_inbox inbox db = (case follower_of_inbox inbox db of
     Some u \<Rightarrow> Some u
   | None \<Rightarrow> map_option ra_actor_uri (first_where (\<lambda>r. ra_inbox_uri r = inbox \<or> ra_shared_inbox_uri r = Some inbox)
       (remote_actors db)))"

text \<open>Whether the delivery may go on to its inbox; otherwise it has been settled or put off.\<close>

definition ensure_delivery_inbox ::
  "fed_env \<Rightarrow> delivery_world \<Rightarrow> delivery \<Rightarrow> db \<Rightarrow> (fed_error, bool, db) outcome" where
  "ensure_delivery_inbox env w row db = (case owner_of_inbox (dl_target_inbox row) db of
     None \<Rightarrow> (Inr False, put_delivery (fv_now env) (dl_id row) (\<lambda>d. (unlease_delivery d)\<lparr>dl_status := ''dead'',
        dl_last_error := Some ''remote_actor_cache_missing''\<rparr>) db)
   | Some uri \<Rightarrow>
       and_then (fetch_remote_actor env (\<lambda>_. None) (dw_serve w) uri False db) (\<lambda>actor db1.
         if dl_target_inbox row = ra_inbox_uri actor
            \<or> truthy_str (ra_shared_inbox_uri actor) \<and> ra_shared_inbox_uri actor = Some (dl_target_inbox row)
         then (Inr True, db1)
         else (Inr False, put_delivery (fv_now env) (dl_id row) (\<lambda>d. (unlease_delivery d)\<lparr>
            dl_target_inbox := actor_inbox actor, dl_domain := ra_domain actor, dl_status := ''retry'',
            dl_next_attempt_at := fv_now env, dl_last_error := Some ''remote_actor_inbox_refreshed''\<rparr>) db1)))"

text \<open>After a 404 or 410: a new inbox and its domain, if the actor's document has one.\<close>

definition refreshed_inbox :: "fed_env \<Rightarrow> string \<Rightarrow> remote_actor \<Rightarrow> db \<Rightarrow> (string \<times> string) option" where
  "refreshed_inbox env target actor db = (case validate_remote_url_syntax (fv_net env) (actor_inbox actor) of
     Inl _ \<Rightarrow> None
   | Inr (domain, _) \<Rightarrow>
       if domain \<noteq> ra_domain actor \<or> \<not> domain_allowed (fv_net env) db domain (fv_settings env)
          \<or> actor_inbox actor = target then None else Some (actor_inbox actor, domain))"

definition refresh_delivery_inbox ::
  "fed_env \<Rightarrow> delivery_world \<Rightarrow> string \<Rightarrow> db \<Rightarrow> (fed_error, (string \<times> string) option, db) outcome" where
  "refresh_delivery_inbox env w target db = (case follower_of_inbox target db of
     None \<Rightarrow> (Inr None, db)
   | Some uri \<Rightarrow> (case fetch_remote_actor env (\<lambda>_. None) (dw_serve w) uri True db of
       (Inl (Fetch_error _), db1) \<Rightarrow> (Inr None, db1)
     | (Inl (Value_error _), db1) \<Rightarrow> (Inr None, db1)
     | (Inl e, db1) \<Rightarrow> (Inl e, db1)
     | (Inr actor, db1) \<Rightarrow> (Inr (refreshed_inbox env target actor db1), db1)))"

definition http_reason :: "int \<Rightarrow> string" where
  "http_reason status = ''http_'' @ str_int status"

definition http_status_of :: "int \<Rightarrow> delivery \<Rightarrow> delivery" where
  "http_status_of status d = d\<lparr>dl_response_status := Some status\<rparr>"

text \<open>What the answer of the inbox makes of the delivery.\<close>

definition settle_answer ::
  "fed_env \<Rightarrow> delivery_world \<Rightarrow> delivery \<Rightarrow> int \<Rightarrow> db \<Rightarrow> (fed_error, unit, db) outcome" where
  "settle_answer env w row status db0 =
     (let i = dl_id row; db = put_delivery (fv_now env) i (http_status_of status) db0; now = fv_now env in
      if 200 \<le> status \<and> status < 300 then
        (Inr (), put_delivery (fv_now env) i (\<lambda>d. d\<lparr>dl_status := ''delivered'', dl_delivered_at := Some now, dl_last_error := None\<rparr>) db)
      else if status \<in> {404, 410} \<and> dl_attempts row = 1 then
        and_then (refresh_delivery_inbox env w (dl_target_inbox row) db) (\<lambda>fresh db1. case fresh of
          Some (inbox, domain) \<Rightarrow> (Inr (), put_delivery (fv_now env) i (\<lambda>d. d\<lparr>dl_target_inbox := inbox, dl_domain := domain,
             dl_status := ''retry'', dl_next_attempt_at := now,
             dl_last_error := Some ''inbox_refreshed_after_not_found''\<rparr>) db1)
        | None \<Rightarrow> (Inr (), put_delivery (fv_now env) i (\<lambda>d. d\<lparr>dl_status := ''dead'',
             dl_last_error := Some (http_reason status @ ''_after_actor_refresh'')\<rparr>) db1))
      else if status \<in> {408, 425, 429} \<or> status \<ge> 500 then
        (Inr (), put_delivery (fv_now env) i (retry_after now (dw_jitter w) (http_reason status) True) db)
      else if status \<in> {301, 302, 303, 307, 308} then
        (Inr (), put_delivery (fv_now env) i (retry_after now (dw_jitter w) ''redirect_requires_actor_refresh'' False) db)
      else (Inr (), put_delivery (fv_now env) i (\<lambda>d. d\<lparr>dl_status := ''dead'', dl_last_error := Some (http_reason status)\<rparr>) db))"

text \<open>
  The guarded part of an attempt. \<open>True\<close> means that the code returned at once, so that the
  lease is left as it is; an exception is the \<open>Inl\<close> the caller turns into a retry.
\<close>

definition deliver_guarded ::
  "fed_env \<Rightarrow> delivery_world \<Rightarrow> delivery \<Rightarrow> outbox_activity \<Rightarrow> db \<Rightarrow> (fed_error, bool, db) outcome" where
  "deliver_guarded env w row activity db =
     (case validate_remote_url_syntax (fv_net env) (dl_target_inbox row) of
        Inl e \<Rightarrow> (Inl e, db)
      | Inr (domain, _) \<Rightarrow>
          if \<not> federation_is_enabled (fv_settings env) \<or> \<not> domain_allowed (fv_net env) db domain (fv_settings env)
          then (Inr True, put_delivery (fv_now env) (dl_id row) (\<lambda>d. (unlease_delivery d)\<lparr>dl_status := ''cancelled'',
             dl_last_error := Some ''domain_not_allowed''\<rparr>) db)
          else and_then (ensure_delivery_inbox env w row db) (\<lambda>go db1.
            if \<not> go then (Inr True, db1)
            else (case validate_remote_url (fv_net env) (dl_target_inbox row) of
                Inl e \<Rightarrow> (Inl e, db1)
              | Inr _ \<Rightarrow>
                  (case first_where (\<lambda>a. la_actor_uri a = oa_actor_uri activity \<and> la_enabled a) (local_actors db1) of
                     None \<Rightarrow> (Inr True, put_delivery (fv_now env) (dl_id row) (\<lambda>d. d\<lparr>dl_status := ''cancelled'',
                        dl_last_error := Some ''signing_actor_disabled''\<rparr>) db1)
                   | Some _ \<Rightarrow>
                       (case dw_sign w of
                          Some e \<Rightarrow> (Inl e, db1)
                        | None \<Rightarrow> (case post_remote (fv_net env) (dw_inbox w) (dl_target_inbox row) (dw_size w) of
                            Inl e \<Rightarrow> (Inl e, db1)
                          | Inr status \<Rightarrow>
                              and_then (settle_answer env w row status db1) (\<lambda>_ db2. (Inr False, db2))))))))"

definition failure_reason :: "fed_error \<Rightarrow> string" where
  "failure_reason e = (case e of
     Fetch_error m \<Rightarrow> take 100 m | Value_error m \<Rightarrow> take 100 m | Inbox_error m \<Rightarrow> take 100 m
   | _ \<Rightarrow> ''internal_delivery_error'')"

definition deliver_one :: "fed_env \<Rightarrow> delivery_world \<Rightarrow> string \<Rightarrow> db \<Rightarrow> db" where
  "deliver_one env w i db = (case get_by dl_id i (deliveries db) of
     None \<Rightarrow> db
   | Some row \<Rightarrow>
       if dl_status row \<noteq> ''sending'' then db
       else (case get_by oa_id (dl_activity_id row) (outbox_activities db) of
           None \<Rightarrow> put_delivery (fv_now env) i (\<lambda>d. d\<lparr>dl_status := ''dead'', dl_last_error := Some ''activity_missing''\<rparr>) db
         | Some activity \<Rightarrow>
             (case deliver_guarded env w row activity db of
                (Inl e, db1) \<Rightarrow> put_delivery (fv_now env) i (\<lambda>d. unlease_delivery
                   (retry_after (fv_now env) (dw_jitter w) (failure_reason e) True d)) db1
              | (Inr returned, db1) \<Rightarrow> if returned then db1 else put_delivery (fv_now env) i unlease_delivery db1)))"

text \<open>
  A transaction commits only if no two deliveries of one activity have one inbox;
  otherwise it is rolled back and the error ends the batch.
\<close>

definition targets_unique :: "db \<Rightarrow> bool" where
  "targets_unique db = unique_key (\<lambda>d. (dl_activity_id d, dl_target_inbox d)) (deliveries db)"

definition commit_delivery :: "db \<Rightarrow> db \<Rightarrow> (fed_error, unit, db) outcome" where
  "commit_delivery before after = (if targets_unique after then (Inr (), after) else (Inl Integrity_failure, before))"

text \<open>One round per element: the environment at the claim and during the attempt.\<close>

fun delivery_rounds :: "string \<Rightarrow> (fed_env \<times> delivery_world) list \<Rightarrow> db \<Rightarrow> (fed_error, nat, db) outcome" where
  "delivery_rounds worker [] db = (Inr 0, db)"
| "delivery_rounds worker ((env, w) # rounds) db =
     (if \<not> federation_is_enabled (fv_settings env) then (Inr 0, db)
      else case claim_delivery worker (fv_now env) db of
        (None, db1) \<Rightarrow> (Inr 0, db1)
      | (Some i, db1) \<Rightarrow>
          (case commit_delivery db1 (deliver_one env w i db1) of
             (Inl e, db2) \<Rightarrow> (Inl e, db2)
           | (Inr _, db2) \<Rightarrow> (case delivery_rounds worker rounds db2 of
               (Inl e, db3) \<Rightarrow> (Inl e, db3) | (Inr n, db3) \<Rightarrow> (Inr (n + 1), db3))))"

definition run_delivery_batch ::
  "string \<Rightarrow> int \<Rightarrow> (nat \<Rightarrow> fed_env \<times> delivery_world) \<Rightarrow> db \<Rightarrow> (fed_error, nat, db) outcome" where
  "run_delivery_batch worker batch_size rounds db =
     delivery_rounds worker (map rounds [0..<nat (max 1 (min batch_size 100))]) db"

section \<open>Lemmas\<close>

text \<open>The lease of a delivery and the rows the worker keeps.\<close>

definition delivery_held :: "delivery \<Rightarrow> (string \<times> time) option" where
  "delivery_held d = (if dl_status d = ''sending''
     then (case (dl_lease_owner d, dl_lease_until d) of (Some w, Some u) \<Rightarrow> Some (w, u) | _ \<Rightarrow> None) else None)"

lemmas delivery_defs = delivery_due_def delivery_grab_def delivery_held_def

interpretation dispatch: lease_rows dl_id "\<lambda>_ d. d" delivery_due dl_next_attempt_at delivery_grab
  delivery_held "seconds DELIVERY_LEASE_SECONDS" "\<lambda>_. True"
proof (unfold_locales, goal_cases)
  case 1
  show ?case by (simp add: DELIVERY_LEASE_SECONDS_def)
next
  case (3 w t r)
  show ?case by (simp add: delivery_grab_def)
next
  case (4 w t r)
  show ?case by (simp add: delivery_grab_def delivery_held_def)
next
  case (7 r t w u)
  then show ?case by (auto simp: delivery_held_def delivery_due_def split: option.splits if_splits)
qed simp_all

text \<open>The deliveries an activity adds: policy-checked, and one per inbox.\<close>

lemma inbox_domain_SomeD:
  "inbox_domain env db inbox domain = Some name \<Longrightarrow>
   (\<exists>path. validate_remote_url_syntax (fv_net env) inbox = Inr (name, path))
   \<and> domain_allowed (fv_net env) db name (fv_settings env)"
  by (auto simp: inbox_domain_def split: sum.splits if_splits)

lemma domain_allowed_rules:
  "domain_rules db' = domain_rules db \<Longrightarrow> domain_allowed net db' d s = domain_allowed net db d s"
  by (simp add: domain_allowed_def Let_def split: sum.split)

lemma inbox_domain_rules:
  "domain_rules db' = domain_rules db \<Longrightarrow> inbox_domain env db' inbox d = inbox_domain env db inbox d"
  by (simp add: inbox_domain_def domain_allowed_rules [of db' db] split: sum.split)

text \<open>The pairs of inbox and domain that get a delivery, in order.\<close>

fun chosen_inboxes :: "fed_env \<Rightarrow> db \<Rightarrow> string list \<Rightarrow> (string \<times> string) list \<Rightarrow> (string \<times> string) list" where
  "chosen_inboxes env db seen [] = []"
| "chosen_inboxes env db seen ((inbox, domain) # recipients) =
     (if inbox \<in> set seen then chosen_inboxes env db seen recipients
      else (case inbox_domain env db inbox domain of None \<Rightarrow> [] | Some name \<Rightarrow> [(inbox, name)])
        @ chosen_inboxes env db (inbox # seen) recipients)"

lemma chosen_inboxes_rules:
  "domain_rules db' = domain_rules db \<Longrightarrow> chosen_inboxes env db' seen rs = chosen_inboxes env db seen rs"
  by (induction env db seen rs rule: chosen_inboxes.induct) (simp_all add: inbox_domain_rules [of db' _])

lemma add_deliveries_eq:
  "add_deliveries env activity seen rs db =
     db\<lparr>deliveries := deliveries db
        @ map (\<lambda>(inbox, name). new_delivery env activity inbox name) (chosen_inboxes env db seen rs)\<rparr>"
proof (induction rs arbitrary: seen db)
  case Nil
  then show ?case by simp
next
  case (Cons r rs)
  obtain inbox domain where r: "r = (inbox, domain)" by force
  show ?case
    using chosen_inboxes_rules [of "db\<lparr>deliveries := ds\<rparr>" db env "inbox # seen" rs for ds]
    by (simp add: r Cons.IH add_row_def split: option.split)
qed

lemma chosen_inboxes_new: "(inbox, name) \<in> set (chosen_inboxes env db seen rs) \<Longrightarrow> inbox \<notin> set seen"
  by (induction env db seen rs rule: chosen_inboxes.induct) (auto split: option.splits if_splits)

lemma chosen_inboxes_sound:
  "(inbox, name) \<in> set (chosen_inboxes env db seen rs) \<Longrightarrow> \<exists>d. inbox_domain env db inbox d = Some name"
  by (induction env db seen rs rule: chosen_inboxes.induct) (auto split: option.splits if_splits)

lemma chosen_inboxes_distinct: "distinct (map fst (chosen_inboxes env db seen rs))"
proof (induction rs arbitrary: seen)
  case Nil
  then show ?case by simp
next
  case (Cons r rs)
  obtain inbox domain where r: "r = (inbox, domain)" by force
  have "inbox \<notin> fst ` set (chosen_inboxes env db (inbox # seen) rs)"
    using chosen_inboxes_new [of inbox _ env db "inbox # seen" rs] by auto
  then show ?case using Cons.IH by (simp add: r split: option.split)
qed

text \<open>An enqueueing is without effect on the queue, or adds one activity and its deliveries.\<close>

lemma enqueue_activity_cases:
  "snd (enqueue_activity env actor kind obj st si rv rs public db) = db
   \<or> (\<exists>uri. let a = new_activity env actor kind obj st si (take 64 rv) public uri in
        snd (enqueue_activity env actor kind obj st si rv rs public db)
            = add_deliveries env (oa_id a) [] (take 1000 rs) (db\<lparr>outbox_activities := add_row a (outbox_activities db)\<rparr>))"
  unfolding enqueue_activity_def insert_activity_def Let_def
  by (auto split: option.splits sum.splits)

lemma new_activity_id [simp]:
  "oa_id (new_activity env actor kind obj st si rv public uri) = fv_id env (''row:'' @ activity_tag st si rv)"
  by (simp add: new_activity_def)

lemma enqueue_deliveries:
  "deliveries (snd (enqueue_activity env actor kind obj st si rv rs public db)) = deliveries db
   \<or> deliveries (snd (enqueue_activity env actor kind obj st si rv rs public db)) = deliveries db
        @ map (\<lambda>(inbox, name). new_delivery env (fv_id env (''row:'' @ activity_tag st si (take 64 rv))) inbox name)
            (chosen_inboxes env db [] (take 1000 rs))"
proof -
  have rules: "chosen_inboxes env (db\<lparr>outbox_activities := as\<rparr>) [] (take 1000 rs) = chosen_inboxes env db [] (take 1000 rs)"
    for as by (rule chosen_inboxes_rules) simp
  show ?thesis
    using enqueue_activity_cases [of env actor kind obj st si rv rs public db]
    by (elim disjE) (auto simp: add_deliveries_eq rules Let_def)
qed

section \<open>Properties\<close>

text \<open>
  C30. Every delivery that queueing an activity adds goes to an https inbox whose host is the
  domain of the delivery, and the rules of the instance allow that domain.
\<close>

theorem deliveries_respect_policy:
  "\<lbrakk> d \<in> set (deliveries (snd (enqueue_activity env actor kind obj st si rv rs public db)));
     d \<notin> set (deliveries db) \<rbrakk>
   \<Longrightarrow> \<exists>inbox path. dl_target_inbox d = take 2048 inbox
        \<and> validate_remote_url_syntax (fv_net env) inbox = Inr (dl_domain d, path)
        \<and> domain_allowed (fv_net env) db (dl_domain d) (fv_settings env)"
  using enqueue_deliveries [of env actor kind obj st si rv rs public db]
  by (fastforce simp: new_delivery_def dest!: chosen_inboxes_sound inbox_domain_SomeD)

text \<open>A local actor and a follower's inbox for the concrete runs.\<close>

definition demo_local :: local_actor where
  "demo_local = \<lparr>la_id = ''la'', la_user_id = ''u'', la_actor_uri = ''https://a.test/ap/actor/u'',
     la_preferred_username = ''u'', la_enabled = True, la_current_keypair_id = Some ''k'', la_created_at = 0,
     la_updated_at = 0\<rparr>"

lemma demo_inbox: "domain_rules db = [] \<Longrightarrow> inbox_domain demo_fed_env db ''https://r.io/i'' ''r.io'' = Some ''r.io''"
  using inbox_domain_rules [of db empty_db demo_fed_env "''https://r.io/i''" "''r.io''"]
  by (simp add: inbox_domain_def demo_checks)

lemma demo_origin: "activity_id demo_fed_env tag = Inr (''https://a.test/ap/activities/'' @ tag)"
proof -
  have "canonical_origin demo_net demo_config = Inr ''https://a.test''" by code_simp
  then show ?thesis by (simp add: activity_id_def demo_fed_env_def)
qed

lemma demo_enqueue_activity:
  "deliveries (snd (enqueue_activity demo_fed_env demo_local ''Create'' (JObj []) ''post'' ''p'' ''1''
     [(''https://r.io/i'', ''r.io'')] True empty_db))
   = [new_delivery demo_fed_env ''row:post:p:1'' ''https://r.io/i'' ''r.io'']"
  by (simp add: enqueue_activity_def insert_activity_def OUTBOUND_TYPES_def find_activity_def first_where_def
      demo_origin add_deliveries_eq demo_inbox activity_tag_def Let_def)

theorem deliveries_respect_policy_witness:
  "\<exists>inbox path. dl_target_inbox (new_delivery demo_fed_env ''row:post:p:1'' ''https://r.io/i'' ''r.io'') = take 2048 inbox
     \<and> validate_remote_url_syntax (fv_net demo_fed_env) inbox
         = Inr (dl_domain (new_delivery demo_fed_env ''row:post:p:1'' ''https://r.io/i'' ''r.io''), path)
     \<and> domain_allowed (fv_net demo_fed_env) empty_db
         (dl_domain (new_delivery demo_fed_env ''row:post:p:1'' ''https://r.io/i'' ''r.io'')) (fv_settings demo_fed_env)"
  by (rule deliveries_respect_policy [where env = demo_fed_env and db = empty_db and actor = demo_local
        and kind = "''Create''" and obj = "JObj []" and st = "''post''" and si = "''p''" and rv = "''1''"
        and rs = "[(''https://r.io/i'', ''r.io'')]" and public = True])
    (simp_all add: demo_enqueue_activity)

text \<open>Claims by workers that die: each takes the delivery when the lease before it ends.\<close>

fun crashing_claims :: "string \<Rightarrow> nat \<Rightarrow> time \<Rightarrow> db \<Rightarrow> db" where
  "crashing_claims worker 0 now db = db"
| "crashing_claims worker (Suc n) now db =
     crashing_claims worker n (now + seconds DELIVERY_LEASE_SECONDS) (snd (claim_delivery worker now db))"

lemma claim_only_delivery:
  "\<lbrakk> deliveries db = [d]; delivery_due now d \<rbrakk>
   \<Longrightarrow> deliveries (snd (claim_delivery worker now db)) = [delivery_grab worker now d]"
  by (simp add: claim_delivery_def lease_claim_def update_where_def rowcount_def)

lemma crashing_claims_attempts:
  "\<lbrakk> deliveries db = [d]; delivery_due now d \<rbrakk>
   \<Longrightarrow> \<exists>d'. deliveries (crashing_claims worker n now db) = [d'] \<and> dl_attempts d' = dl_attempts d + int n
        \<and> dl_max_attempts d' = dl_max_attempts d"
proof (induction n arbitrary: now db d)
  case 0
  then show ?case by simp
next
  case (Suc n)
  have "delivery_due (now + seconds DELIVERY_LEASE_SECONDS) (delivery_grab worker now d)"
    by (simp add: delivery_due_def delivery_grab_def)
  from Suc.IH [OF claim_only_delivery [OF Suc.prems, of worker] this]
  show ?case by (auto simp: delivery_grab_def)
qed

text \<open>
  The limit of attempts of a delivery is looked at only when an attempt is reported: a
  delivery whose workers die before they report is claimed again at the end of every lease,
  and its attempts pass any number, whatever its limit.
\<close>

theorem dying_workers_exceed_limit:
  "\<lbrakk> deliveries db = [d]; delivery_due now d \<rbrakk>
   \<Longrightarrow> \<exists>n d'. deliveries (crashing_claims worker n now db) = [d'] \<and> dl_max_attempts d' = dl_max_attempts d
        \<and> dl_attempts d' > dl_max_attempts d' + k"
proof -
  assume a: "deliveries db = [d]" "delivery_due now d"
  let ?n = "nat (\<bar>dl_max_attempts d\<bar> + \<bar>k\<bar> + \<bar>dl_attempts d\<bar> + 1)"
  show ?thesis using crashing_claims_attempts [OF a, of worker ?n] by (intro exI [of _ ?n]) force
qed

theorem dying_workers_exceed_limit_witness:
  "\<exists>n d'. deliveries (crashing_claims ''w'' n 0
        (empty_db\<lparr>deliveries := [new_delivery demo_fed_env ''a'' ''https://r.io/i'' ''r.io'']\<rparr>)) = [d']
     \<and> dl_max_attempts d' = dl_max_attempts (new_delivery demo_fed_env ''a'' ''https://r.io/i'' ''r.io'')
     \<and> dl_attempts d' > dl_max_attempts d' + 1000"
  by (rule dying_workers_exceed_limit) (simp_all add: delivery_due_def new_delivery_def)

text \<open>
  A delivery whose host the rules do not allow when its turn comes is cancelled and its
  lease given up, whatever the network would answer.
\<close>

theorem blocked_delivery_cancelled:
  "\<lbrakk> get_by dl_id i (deliveries db) = Some row; dl_status row = ''sending'';
     get_by oa_id (dl_activity_id row) (outbox_activities db) \<noteq> None;
     validate_remote_url_syntax (fv_net env) (dl_target_inbox row) = Inr (host, path);
     \<not> domain_allowed (fv_net env) db host (fv_settings env) \<rbrakk>
   \<Longrightarrow> get_by dl_id i (deliveries (deliver_one env w i db))
        = Some (row\<lparr>dl_status := ''cancelled'', dl_last_error := Some ''domain_not_allowed'', dl_lease_owner := None,
            dl_lease_until := None, dl_updated_at := fv_now env\<rparr>)"
  by (auto simp: deliver_one_def deliver_guarded_def put_delivery_def unlease_delivery_def
      get_by_update_where dest: get_by_SomeD)

definition demo_world :: delivery_world where
  "demo_world = \<lparr>dw_serve = demo_serve, dw_inbox = (\<lambda>_. None), dw_sign = None, dw_size = 10, dw_jitter = 0\<rparr>"

theorem blocked_delivery_cancelled_witness:
  "get_by dl_id ''row:ahttps://r.io/i'' (deliveries (deliver_one (demo_fed_env\<lparr>fv_settings := []\<rparr>) demo_world ''row:ahttps://r.io/i''
     (empty_db\<lparr>deliveries := [delivery_grab ''w'' 0 (new_delivery demo_fed_env ''row:a'' ''https://r.io/i'' ''r.io'')],
        outbox_activities := [new_activity demo_fed_env demo_local ''Create'' (JObj []) [] [] [] True []\<lparr>oa_id := ''row:a''\<rparr>]\<rparr>)))
   = Some ((delivery_grab ''w'' 0 (new_delivery demo_fed_env ''row:a'' ''https://r.io/i'' ''r.io''))
       \<lparr>dl_status := ''cancelled'', dl_last_error := Some ''domain_not_allowed'', dl_lease_owner := None,
        dl_lease_until := None, dl_updated_at := fv_now (demo_fed_env\<lparr>fv_settings := []\<rparr>)\<rparr>)"
  by (rule blocked_delivery_cancelled [where host = "''r.io''" and path = "''/i''"])
    (simp_all add: delivery_grab_def new_delivery_def demo_checks domain_allowed_def federation_is_enabled_def dget_def)

text \<open>Two rows of different identifiers with one pair of activity and inbox.\<close>

lemma collision_not_unique:
  assumes "get_by dl_id i ds = Some row" "other \<in> set ds" "dl_id other \<noteq> i"
    and "dl_activity_id other = dl_activity_id row" "dl_target_inbox other = inbox"
    and f: "\<And>d. dl_id (f d) = dl_id d" "\<And>d. dl_activity_id (f d) = dl_activity_id d" "\<And>d. dl_target_inbox (f d) = inbox"
  shows "\<not> unique_key (\<lambda>d. (dl_activity_id d, dl_target_inbox d)) (update_where (\<lambda>d. dl_id d = i) f ds)"
proof
  let ?ds = "update_where (\<lambda>d. dl_id d = i) f ds"
  assume u: "unique_key (\<lambda>d. (dl_activity_id d, dl_target_inbox d)) ?ds"
  have row: "row \<in> set ds" "dl_id row = i" using get_by_SomeD [OF assms(1)] by simp_all
  have "f row \<in> set ?ds" using row by (force simp: set_update_where)
  moreover have "other \<in> set ?ds" using assms(2,3) by (force simp: set_update_where)
  ultimately have "f row = other" using unique_keyD [OF u] assms f by simp
  then show False using f(1) [of row] row assms(3) by simp
qed

text \<open>
  A delivery whose inbox has moved to one that another delivery of the same activity
  already has is never settled: the attempt renames its inbox, the transaction cannot commit,
  the batch ends with the error, and all that remains of the round is the claim.
\<close>

theorem moved_inbox_never_settles:
  "\<lbrakk> federation_is_enabled (fv_settings env);
     claim_delivery worker (fv_now env) db = (Some i, db1);
     get_by dl_id i (deliveries db1) = Some row; dl_status row = ''sending'';
     get_by oa_id (dl_activity_id row) (outbox_activities db1) = Some activity;
     validate_remote_url_syntax (fv_net env) (dl_target_inbox row) = Inr (host, path);
     domain_allowed (fv_net env) db1 host (fv_settings env);
     owner_of_inbox (dl_target_inbox row) db1 = Some uri;
     fetch_remote_actor env (\<lambda>_. None) (dw_serve w) uri False db1 = (Inr actor, db1);
     dl_target_inbox row \<noteq> ra_inbox_uri actor; ra_shared_inbox_uri actor \<noteq> Some (dl_target_inbox row);
     other \<in> set (deliveries db1); dl_id other \<noteq> i; dl_activity_id other = dl_activity_id row;
     dl_target_inbox other = actor_inbox actor \<rbrakk>
   \<Longrightarrow> delivery_rounds worker ((env, w) # rounds) db = (Inl Integrity_failure, db1)"
proof -
  assume en: "federation_is_enabled (fv_settings env)"
    and claim: "claim_delivery worker (fv_now env) db = (Some i, db1)"
    and row: "get_by dl_id i (deliveries db1) = Some row" "dl_status row = ''sending''"
    and act: "get_by oa_id (dl_activity_id row) (outbox_activities db1) = Some activity"
    and host: "validate_remote_url_syntax (fv_net env) (dl_target_inbox row) = Inr (host, path)"
    and ok: "domain_allowed (fv_net env) db1 host (fv_settings env)"
    and owner: "owner_of_inbox (dl_target_inbox row) db1 = Some uri"
    and actor: "fetch_remote_actor env (\<lambda>_. None) (dw_serve w) uri False db1 = (Inr actor, db1)"
    and moved: "dl_target_inbox row \<noteq> ra_inbox_uri actor" "ra_shared_inbox_uri actor \<noteq> Some (dl_target_inbox row)"
    and other: "other \<in> set (deliveries db1)" "dl_id other \<noteq> i" "dl_activity_id other = dl_activity_id row"
      "dl_target_inbox other = actor_inbox actor"
  have i: "dl_id row = i" using get_by_SomeD [OF row(1)] by simp
  have "\<not> targets_unique (deliver_one env w i db1)"
    using collision_not_unique [OF row(1) other]
    by (simp add: deliver_one_def row act deliver_guarded_def host en ok ensure_delivery_inbox_def owner actor
        moved i targets_unique_def put_delivery_def unlease_delivery_def)
  then show ?thesis by (simp add: en claim commit_delivery_def)
qed

definition demo_cached :: remote_actor where
  "demo_cached = (new_actor demo_fed_env ''https://r.io/a'' ''r.io'')\<lparr>ra_inbox_uri := ''https://r.io/i'', ra_expires_at := 1\<rparr>"

definition demo_follower :: follower where
  "demo_follower = \<lparr>fo_id = ''f'', fo_local_user_id = ''u'', fo_remote_actor_uri = ''https://r.io/a'',
     fo_remote_display_name = None, fo_remote_inbox_uri = Some ''https://r.io/old'', fo_direction = Dir_Inbound,
     fo_state = Follow_Accepted, fo_activity_id = None, fo_created_at = 0, fo_updated_at = 0\<rparr>"

definition demo_moved :: delivery where
  "demo_moved = (new_delivery demo_fed_env ''x'' ''https://r.io/old'' ''r.io'')\<lparr>dl_id := ''1''\<rparr>"

definition demo_settled :: delivery where
  "demo_settled = (new_delivery demo_fed_env ''x'' ''https://r.io/i'' ''r.io'')\<lparr>dl_id := ''2'', dl_status := ''delivered''\<rparr>"

definition demo_outbox :: outbox_activity where
  "demo_outbox = (new_activity demo_fed_env demo_local ''Create'' (JObj []) [] [] [] True [])\<lparr>oa_id := ''x''\<rparr>"

definition demo_delivery_queue :: "delivery \<Rightarrow> db" where
  "demo_delivery_queue d = empty_db\<lparr>deliveries := [d, demo_settled], remote_actors := [demo_cached],
     followers := [demo_follower], outbox_activities := [demo_outbox]\<rparr>"

lemma demo_delivery_queue_sel [simp]:
  "deliveries (demo_delivery_queue d) = [d, demo_settled]" "remote_actors (demo_delivery_queue d) = [demo_cached]"
  "followers (demo_delivery_queue d) = [demo_follower]" "outbox_activities (demo_delivery_queue d) = [demo_outbox]"
  "domain_rules (demo_delivery_queue d) = []"
  by (simp_all add: demo_delivery_queue_def)

lemma demo_claim_delivery: "claim_delivery ''w'' 0 (demo_delivery_queue demo_moved) = (Some ''1'', demo_delivery_queue (delivery_grab ''w'' 0 demo_moved))"
  by (simp add: claim_delivery_def lease_claim_def delivery_due_def demo_moved_def demo_settled_def new_delivery_def
      update_where_def rowcount_def demo_delivery_queue_def)

lemma demo_old_url: "validate_remote_url_syntax demo_net ''https://r.io/old'' = Inr (''r.io'', ''/old'')"
  by code_simp

lemma demo_domain_ok: "domain_rules db = [] \<Longrightarrow> domain_allowed demo_net db ''r.io'' demo_fed_settings"
  using domain_allowed_rules [of db empty_db] by (simp add: demo_checks)

theorem moved_inbox_never_settles_witness:
  "delivery_rounds ''w'' [(demo_fed_env, demo_world)] (demo_delivery_queue demo_moved)
     = (Inl Integrity_failure, demo_delivery_queue (delivery_grab ''w'' 0 demo_moved))"
proof (rule moved_inbox_never_settles)
  let ?row = "delivery_grab ''w'' 0 demo_moved" and ?db = "demo_delivery_queue (delivery_grab ''w'' 0 demo_moved)"
  show "federation_is_enabled (fv_settings demo_fed_env)"
    by (simp add: demo_fed_settings_def federation_is_enabled_def dget_def)
  show "claim_delivery ''w'' (fv_now demo_fed_env) (demo_delivery_queue demo_moved) = (Some ''1'', ?db)"
    by (simp add: demo_claim_delivery)
  show "get_by dl_id ''1'' (deliveries ?db) = Some ?row" by (simp add: delivery_grab_def demo_moved_def)
  show "dl_status ?row = ''sending''" by (simp add: delivery_grab_def)
  show "get_by oa_id (dl_activity_id ?row) (outbox_activities ?db) = Some demo_outbox"
    by (simp add: delivery_grab_def demo_moved_def new_delivery_def demo_outbox_def)
  show "validate_remote_url_syntax (fv_net demo_fed_env) (dl_target_inbox ?row) = Inr (''r.io'', ''/old'')"
    by (simp add: delivery_grab_def demo_moved_def new_delivery_def demo_old_url)
  show "domain_allowed (fv_net demo_fed_env) ?db ''r.io'' (fv_settings demo_fed_env)"
    by (simp add: demo_domain_ok)
  show "owner_of_inbox (dl_target_inbox ?row) ?db = Some ''https://r.io/a''"
    by (simp add: owner_of_inbox_def follower_of_inbox_def first_where_def demo_follower_def delivery_grab_def
        demo_moved_def new_delivery_def)
  show "fetch_remote_actor demo_fed_env (\<lambda>_. None) (dw_serve demo_world) ''https://r.io/a'' False ?db = (Inr demo_cached, ?db)"
    by (simp add: fetch_remote_actor_def demo_actor_url demo_checks demo_hosts demo_domain_ok demo_cached_def Let_def)
  show "dl_target_inbox ?row \<noteq> ra_inbox_uri demo_cached" "ra_shared_inbox_uri demo_cached \<noteq> Some (dl_target_inbox ?row)"
    by (simp_all add: delivery_grab_def demo_moved_def new_delivery_def demo_cached_def new_actor_def)
  show "demo_settled \<in> set (deliveries ?db)" by simp
  show "dl_id demo_settled \<noteq> ''1''" "dl_activity_id demo_settled = dl_activity_id ?row"
    by (simp_all add: demo_settled_def demo_moved_def delivery_grab_def new_delivery_def)
  show "dl_target_inbox demo_settled = actor_inbox demo_cached"
    by (simp add: demo_settled_def demo_cached_def actor_inbox_def new_delivery_def new_actor_def)
qed

end
