(* ===== verification/Notifications.thy ===== *)
theory Notifications
  imports Mail_Queue Plugins Sessions
begin

text \<open>
  \<open>notifications/service.py\<close> and \<open>notifications/push.py\<close>: the inbox of notification events
  with its channels, the one-shot tickets of the socket, and the queue of push deliveries.
  What the mail template engine renders, the answer of a push service and the random parts
  of a delay are arguments.
\<close>

section \<open>The catalogue\<close>

datatype notify_error =
    Unsupported_type
  | Unsupported_fields
  | Invalid_field
  | Payload_too_large
  | Dedupe_key_too_long
  | Invalid_target_path

record notification_kind =
  nk_title :: string
  nk_message :: string
  nk_fields :: "(string \<times> (string \<Rightarrow> bool)) list"
  nk_importance :: string
  nk_web_push :: bool
  nk_email :: bool
  nk_default_web_push :: bool
  nk_default_email :: bool
  nk_email_template :: string

definition notification_kinds :: "(string \<times> notification_kind) list" where
  "notification_kinds =
    [(''comment.appeal_reviewed'',
      \<lparr>nk_title = ''Kommentar-Berufung entschieden'',
       nk_message = ''Deine Berufung zu einer Moderationsentscheidung wurde gepr'' @ [CHR 0xFC] @ ''ft.'',
       nk_fields = [(''outcome'', \<lambda>v. v \<in> {''upheld'', ''overturned''})],
       nk_importance = ''normal'', nk_web_push = True, nk_email = True, nk_default_web_push = False,
       nk_default_email = False, nk_email_template = ''notification.generic''\<rparr>),
     (''comment.moderation_decision'',
      \<lparr>nk_title = ''Moderationsentscheidung zu deinem Kommentar'',
       nk_message = ''Zu einem deiner Kommentare liegt eine Moderationsentscheidung vor.'',
       nk_fields = [(''outcome'', \<lambda>v. v \<in> {''approve'', ''reject'', ''spam'', ''delete'', ''restore''})],
       nk_importance = ''normal'', nk_web_push = True, nk_email = True, nk_default_web_push = False,
       nk_default_email = False, nk_email_template = ''notification.generic''\<rparr>),
     (''comment.revision_decision'',
      \<lparr>nk_title = ''Entscheidung zu deiner Kommentar'' @ [CHR 0xE4] @ ''nderung'',
       nk_message = ''Zu einer '' @ [CHR 0xC4] @ ''nderung deines Kommentars liegt eine Entscheidung vor.'',
       nk_fields = [(''outcome'', \<lambda>v. v \<in> {''approve'', ''reject'', ''restore''})],
       nk_importance = ''normal'', nk_web_push = True, nk_email = True, nk_default_web_push = False,
       nk_default_email = False, nk_email_template = ''notification.generic''\<rparr>),
     (''plugin.auto_disabled'',
      \<lparr>nk_title = ''Plugin automatisch deaktiviert'',
       nk_message = ''Ein Plugin wurde nach wiederholten Laufzeitfehlern deaktiviert.'',
       nk_fields = [(''plugin_id'', plugin_id_ok)],
       nk_importance = ''high'', nk_web_push = True, nk_email = True, nk_default_web_push = False,
       nk_default_email = False, nk_email_template = ''notification.generic''\<rparr>)]"

text \<open>
  A path that starts with one slash has neither scheme nor host, so the last check of the
  code, on the parsed path, never refuses what the first two accept.
\<close>

definition safe_path :: "string option \<Rightarrow> notify_error + string option" where
  "safe_path p = (case p of
     None \<Rightarrow> Inr None
   | Some path \<Rightarrow>
       if length path > 1024 \<or> \<not> startswith path ''/'' \<or> startswith path ''//'' then Inl Invalid_target_path
       else if list_ex (\<lambda>c. c = CHR 0x5C \<or> (of_char c :: nat) < 32) path then Inl Invalid_target_path
       else Inr (Some path))"

text \<open>The length of the compact JSON text of fields whose values need no escape.\<close>

definition json_size :: "(string \<times> string) list \<Rightarrow> nat" where
  "json_size fs = 2 + sum_list (map (\<lambda>(k, v). length k + length v + 5) fs) + (length fs - 1)"

fun safe_fields :: "(string \<times> (string \<Rightarrow> bool)) list \<Rightarrow> dict \<Rightarrow> notify_error + (string \<times> string) list" where
  "safe_fields [] payload = Inr []"
| "safe_fields ((key, ok) # fs) payload =
     (if \<not> dhas payload key then safe_fields fs payload
      else case as_str (dget payload key JNull) of
        None \<Rightarrow> Inl Invalid_field
      | Some v \<Rightarrow>
          if \<not> ok v then Inl Invalid_field
          else (case safe_fields fs payload of Inl e \<Rightarrow> Inl e | Inr r \<Rightarrow> Inr ((key, v) # r)))"

definition validate_payload :: "string \<Rightarrow> dict \<Rightarrow> notify_error + dict" where
  "validate_payload kind payload = (case map_of notification_kinds kind of
     None \<Rightarrow> Inl Unsupported_type
   | Some d \<Rightarrow>
       if \<not> list_all (\<lambda>(k, _). k \<in> fst ` set (nk_fields d)) payload then Inl Unsupported_fields
       else (case safe_fields (nk_fields d) payload of
           Inl e \<Rightarrow> Inl e
         | Inr safe \<Rightarrow> if json_size safe > 1024 then Inl Payload_too_large
                       else Inr (map (\<lambda>(k, v). (k, JStr v)) safe)))"

section \<open>Creating a notification\<close>

text \<open>
  The environment of one creation: the clock, new identifiers (a delivery's by its
  subscription), the settings of the mail queue, and the message the template engine
  renders, with its subject, plain text, HTML, locale and revision, or its failure.
\<close>

record notify_env =
  nv_now :: time
  nv_id :: string
  nv_delivery_id :: "string \<Rightarrow> string"
  nv_mail_env :: mail_env
  nv_mail_settings :: dict
  nv_mail_id :: string
  nv_rendered :: "(string \<times> string \<times> string option \<times> string \<times> string option) option"

definition find_dedupe :: "string \<Rightarrow> string \<Rightarrow> db \<Rightarrow> notification_event option" where
  "find_dedupe user key db =
     first_where (\<lambda>e. ne_user_id e = user \<and> ne_dedupe_key e = Some key) (notification_events db)"

definition type_preference_of :: "string \<Rightarrow> string \<Rightarrow> db \<Rightarrow> type_preference option" where
  "type_preference_of user kind db =
     first_where (\<lambda>t. tp_user_id t = user \<and> tp_notification_type t = kind) (type_preferences db)"

definition push_wanted :: "notification_kind \<Rightarrow> type_preference option \<Rightarrow> string \<Rightarrow> db \<Rightarrow> bool" where
  "push_wanted d pref user db \<longleftrightarrow>
     (case pref of None \<Rightarrow> True | Some t \<Rightarrow> tp_enabled t) \<and> nk_web_push d
     \<and> (case pref of None \<Rightarrow> nk_default_web_push d | Some t \<Rightarrow> tp_web_push_enabled t)
     \<and> (case get_by cp_user_id user (channel_preferences db) of None \<Rightarrow> False | Some c \<Rightarrow> cp_web_push_enabled c)"

definition email_wanted :: "notification_kind \<Rightarrow> type_preference option \<Rightarrow> bool" where
  "email_wanted d pref \<longleftrightarrow> (case pref of None \<Rightarrow> True | Some t \<Rightarrow> tp_enabled t) \<and> nk_email d
     \<and> (case pref of None \<Rightarrow> nk_default_email d | Some t \<Rightarrow> tp_email_enabled t)"

definition new_push :: "notify_env \<Rightarrow> string \<Rightarrow> push_subscription \<Rightarrow> push_delivery" where
  "new_push env event s = \<lparr>pd_id = nv_delivery_id env (ps_id s), pd_notification_id = event,
     pd_subscription_id = ps_id s, pd_status = ''pending'', pd_attempts = 0, pd_max_attempts = 5,
     pd_next_attempt_at = None, pd_lease_owner = None, pd_lease_until = None, pd_last_error = None,
     pd_created_at = nv_now env, pd_updated_at = nv_now env\<rparr>"

definition add_pushes :: "notify_env \<Rightarrow> string \<Rightarrow> string \<Rightarrow> db \<Rightarrow> db" where
  "add_pushes env user event db = db\<lparr>push_deliveries := push_deliveries db
     @ map (new_push env event)
        (filter (\<lambda>s. ps_user_id s = user \<and> ps_disabled_at s = None) (push_subscriptions db))\<rparr>"

text \<open>The mail of a notification, whose failure of any kind is swallowed with its effects.\<close>

definition notification_mail :: "notify_env \<Rightarrow> string \<Rightarrow> string \<Rightarrow> string \<Rightarrow> db \<Rightarrow> db" where
  "notification_mail env template event address db = (case nv_rendered env of
     None \<Rightarrow> db
   | Some (subject, text, html, locale, revision) \<Rightarrow>
       (case enqueue_mail (nv_mail_env env) (nv_now env) (nv_mail_settings env) False (nv_mail_id env) []
          \<lparr>mr_to = address, mr_subject = subject, mr_body_text = text, mr_body_html = html,
           mr_key = Some (''notification:'' @ event), mr_profile_id = None, mr_purpose = Some ''notification'',
           mr_kind = ''to'', mr_visible_to = None, mr_visible_cc = None, mr_headers = [], mr_sender = None,
           mr_template_id = Some template, mr_template_locale = Some locale,
           mr_template_revision = revision\<rparr> db of
          (Inl _, _) \<Rightarrow> db
        | (Inr _, db') \<Rightarrow> db'))"

definition add_mail :: "notify_env \<Rightarrow> notification_kind \<Rightarrow> string \<Rightarrow> string \<Rightarrow> db \<Rightarrow> db" where
  "add_mail env d user event db = (case get_by u_id user (users db) of
     None \<Rightarrow> db
   | Some u \<Rightarrow> if u_is_active u \<and> truthy_str (u_email u)
       then notification_mail env (nk_email_template d) event (or_empty (u_email u)) db else db)"

definition new_event ::
  "notify_env \<Rightarrow> notification_kind \<Rightarrow> string \<Rightarrow> string \<Rightarrow> dict \<Rightarrow> string option \<Rightarrow> string option
   \<Rightarrow> string option \<Rightarrow> string option \<Rightarrow> notification_event" where
  "new_event env d user kind payload path key src_type src_id =
     \<lparr>ne_id = nv_id env, ne_user_id = user, ne_notification_type = kind, ne_payload = payload,
      ne_target_path = path, ne_importance = nk_importance d, ne_dedupe_key = key, ne_source_type = src_type,
      ne_source_id = src_id, ne_read_at = None, ne_archived_at = None, ne_created_at = nv_now env\<rparr>"

definition create_notification ::
  "notify_env \<Rightarrow> string \<Rightarrow> string \<Rightarrow> dict \<Rightarrow> string option \<Rightarrow> string option \<Rightarrow> string option \<Rightarrow> string option
   \<Rightarrow> db \<Rightarrow> (notify_error, notification_event option, db) outcome" where
  "create_notification env user kind payload target_path key src_type src_id db =
     (case validate_payload kind payload of
        Inl e \<Rightarrow> (Inl e, db)
      | Inr safe \<Rightarrow>
          (let d = the (map_of notification_kinds kind); pref = type_preference_of user kind db;
               existing = (case key of None \<Rightarrow> None | Some k \<Rightarrow> find_dedupe user k db) in
           if (case key of None \<Rightarrow> False | Some k \<Rightarrow> length k > 160) then (Inl Dedupe_key_too_long, db)
           else if (case pref of None \<Rightarrow> False | Some t \<Rightarrow> \<not> tp_enabled t) then (Inr existing, db)
           else (case safe_path target_path of
               Inl e \<Rightarrow> (Inl e, db)
             | Inr path \<Rightarrow>
                 if existing \<noteq> None then (Inr existing, db)
                 else
                  (let ev = new_event env d user kind safe path key src_type src_id;
                       db1 = db\<lparr>notification_events := add_row ev (notification_events db)\<rparr>;
                       db2 = (if push_wanted d pref user db1 then add_pushes env user (nv_id env) db1 else db1);
                       db3 = (if email_wanted d pref then add_mail env d user (nv_id env) db2 else db2)
                   in (Inr (Some ev), db3)))))"

section \<open>Reading the inbox\<close>

text \<open>Newest first; \<open>sort_key\<close> is stable, so reversing twice orders both parts downwards.\<close>

definition list_notifications :: "string \<Rightarrow> int \<Rightarrow> int \<Rightarrow> db \<Rightarrow> notification_event list" where
  "list_notifications user page per_page db =
     (let page = max 1 page; per_page = min 100 (max 1 per_page) in
      take (nat per_page) (drop (nat ((page - 1) * per_page))
        (rev (sort_key (\<lambda>e. (ne_created_at e, ne_id e))
          (filter (\<lambda>e. ne_user_id e = user \<and> ne_archived_at e = None) (notification_events db))))))"

definition unread_count :: "string \<Rightarrow> db \<Rightarrow> nat" where
  "unread_count user db =
     rowcount (\<lambda>e. ne_user_id e = user \<and> ne_read_at e = None \<and> ne_archived_at e = None) (notification_events db)"

definition mark_notification_read :: "time \<Rightarrow> string \<Rightarrow> string \<Rightarrow> db \<Rightarrow> bool \<times> db" where
  "mark_notification_read now user notification db =
     (let P = (\<lambda>e. ne_id e = notification \<and> ne_user_id e = user \<and> ne_read_at e = None) in
      (rowcount P (notification_events db) = 1,
       db\<lparr>notification_events := update_where P (\<lambda>e. e\<lparr>ne_read_at := Some now\<rparr>) (notification_events db)\<rparr>))"

definition mark_all_read :: "time \<Rightarrow> string \<Rightarrow> db \<Rightarrow> nat \<times> db" where
  "mark_all_read now user db =
     (let P = (\<lambda>e. ne_user_id e = user \<and> ne_read_at e = None) in
      (rowcount P (notification_events db),
       db\<lparr>notification_events := update_where P (\<lambda>e. e\<lparr>ne_read_at := Some now\<rparr>) (notification_events db)\<rparr>))"

section \<open>Socket tickets\<close>

definition expire_ws_tickets :: "time \<Rightarrow> db \<Rightarrow> nat \<times> db" where
  "expire_ws_tickets now db =
     (let P = (\<lambda>t. wt_expires_at t < now - days 1) in
      (rowcount P (ws_tickets db), db\<lparr>ws_tickets := delete_where P (ws_tickets db)\<rparr>))"

datatype ticket_error = Forbidden_origin | Not_authenticated | Channel_disabled

text \<open>
  The route that issues a ticket: \<open>user\<close> is the account of the request, \<open>digest\<close> the hash of
  a new token.
\<close>

definition issue_ws_ticket ::
  "time \<Rightarrow> int \<Rightarrow> string \<Rightarrow> string \<Rightarrow> string option \<Rightarrow> string \<Rightarrow> string \<Rightarrow> db \<Rightarrow> (ticket_error, unit, db) outcome" where
  "issue_ws_ticket now ttl origin expected user session_id dig db =
     (if origin = [] \<or> origin \<noteq> expected then (Inl Forbidden_origin, db)
      else case user of
        None \<Rightarrow> (Inl Not_authenticated, db)
      | Some u \<Rightarrow>
          if session_id = [] then (Inl Not_authenticated, db)
          else if (case get_by cp_user_id u (channel_preferences db) of None \<Rightarrow> True | Some c \<Rightarrow> \<not> cp_live_wss_enabled c)
          then (Inl Channel_disabled, db)
          else (case get_by us_id session_id (user_sessions db) of
              None \<Rightarrow> (Inl Not_authenticated, db)
            | Some s \<Rightarrow>
                if us_user_id s \<noteq> u \<or> \<not> us_is_valid s \<or> is_expired now s then (Inl Not_authenticated, db)
                else (let db1 = snd (expire_ws_tickets now db) in
                  (Inr (), db1\<lparr>ws_tickets := add_row
                     \<lparr>wt_token_hash = dig, wt_user_id = u, wt_session_id = session_id,
                      wt_purpose = ''notification_ws'', wt_expected_origin = origin,
                      wt_expires_at = now + seconds ttl, wt_consumed_at = None\<rparr> (ws_tickets db1)\<rparr>))))"

text \<open>A request to open the socket, with the hash of the token it presents.\<close>

record ws_request =
  wq_digest :: string
  wq_user :: string
  wq_session :: string
  wq_origin :: string

definition ticket_matches :: "ws_request \<Rightarrow> time \<Rightarrow> ws_ticket \<Rightarrow> bool" where
  "ticket_matches q now t \<longleftrightarrow> wt_token_hash t = wq_digest q
     \<and> (wt_user_id t = wq_user q \<and> wt_session_id t = wq_session q \<and> wt_purpose t = ''notification_ws''
       \<and> wt_expected_origin t = wq_origin q \<and> now < wt_expires_at t \<and> wt_consumed_at t = None)"

definition consume_ws_ticket :: "ws_request \<Rightarrow> time \<Rightarrow> db \<Rightarrow> bool \<times> db" where
  "consume_ws_ticket q now db =
     (rowcount (ticket_matches q now) (ws_tickets db) = 1,
      db\<lparr>ws_tickets := update_where (ticket_matches q now) (\<lambda>t. t\<lparr>wt_consumed_at := Some now\<rparr>) (ws_tickets db)\<rparr>)"

section \<open>Push deliveries\<close>

definition PUSH_LEASE_SECONDS :: int where "PUSH_LEASE_SECONDS = 90"
definition MAX_DELIVERIES_PER_PASS :: int where "MAX_DELIVERIES_PER_PASS = 20"

definition push_lease_over :: "time \<Rightarrow> push_delivery \<Rightarrow> bool" where
  "push_lease_over now d \<longleftrightarrow> pd_status d = ''leased''
     \<and> (case pd_lease_until d of None \<Rightarrow> False | Some u \<Rightarrow> u \<le> now)"

definition push_due :: "time \<Rightarrow> push_delivery \<Rightarrow> bool" where
  "push_due now d \<longleftrightarrow> pd_attempts d < pd_max_attempts d
     \<and> ((pd_status d = ''pending'' \<or> pd_status d = ''retry'')
         \<and> (case pd_next_attempt_at d of None \<Rightarrow> True | Some t \<Rightarrow> t \<le> now) \<or> push_lease_over now d)"

definition push_prune :: "time \<Rightarrow> push_delivery \<Rightarrow> push_delivery" where
  "push_prune now d = (if push_lease_over now d \<and> pd_attempts d \<ge> pd_max_attempts d
     then d\<lparr>pd_status := ''dead'', pd_lease_owner := None, pd_lease_until := None,
            pd_last_error := Some ''lease_expired''\<rparr> else d)"

definition push_grab :: "string \<Rightarrow> time \<Rightarrow> push_delivery \<Rightarrow> push_delivery" where
  "push_grab worker now d = d\<lparr>pd_status := ''leased'', pd_lease_owner := Some worker,
     pd_lease_until := Some (now + seconds PUSH_LEASE_SECONDS), pd_attempts := pd_attempts d + 1,
     pd_updated_at := now\<rparr>"

definition claim_push :: "string \<Rightarrow> time \<Rightarrow> db \<Rightarrow> string option \<times> db" where
  "claim_push worker now db =
     (let (c, rows) = lease_claim pd_id (push_prune now) (push_due now) (\<lambda>d. (pd_created_at d, pd_id d))
          (push_grab worker now) (push_deliveries db)
      in (c, db\<lparr>push_deliveries := rows\<rparr>))"

text \<open>
  The answer of the push service: a status with its \<open>Retry-After\<close> header, a missing key of
  this instance, or any other failure. Such a header counts when it is a number in ASCII.
\<close>

datatype push_answer = Push_status int "string option" | Vapid_not_configured | Push_transport_error

definition parse_digits :: "string \<Rightarrow> int" where
  "parse_digits s = foldl (\<lambda>n c. 10 * n + (int (of_char c) - 48)) 0 s"

definition schedule_retry :: "time \<Rightarrow> int \<Rightarrow> string option \<Rightarrow> push_delivery \<Rightarrow> push_delivery" where
  "schedule_retry now jitter retry_after d =
     (if pd_attempts d \<ge> pd_max_attempts d then d\<lparr>pd_status := ''dead''\<rparr>
      else (let base = min 3600 (30 * 2 ^ nat (max 0 (pd_attempts d - 1))) * (80 + jitter) div 100;
                delay = (if truthy_str retry_after \<and> list_all is_digit (or_empty retry_after)
                         then min 86400 (max base (parse_digits (or_empty retry_after))) else base)
            in d\<lparr>pd_status := ''retry'', pd_next_attempt_at := Some (now + seconds delay)\<rparr>))"

definition http_status_error :: "string \<Rightarrow> int \<Rightarrow> string" where
  "http_status_error label code = label @ str_int code"

definition answered :: "time \<Rightarrow> int \<Rightarrow> push_answer \<Rightarrow> push_delivery \<Rightarrow> push_delivery" where
  "answered now jitter a d = (case a of
     Push_status code retry_after \<Rightarrow>
       if 200 \<le> code \<and> code < 300 then d\<lparr>pd_status := ''sent'', pd_last_error := None\<rparr>
       else if code = 404 \<or> code = 410 then
         d\<lparr>pd_status := ''expired_subscription'', pd_last_error := Some (http_status_error ''http_'' code)\<rparr>
       else if code = 429 \<or> code \<ge> 500 \<or> code = 0 then
         (schedule_retry now jitter retry_after d)\<lparr>pd_last_error := Some (http_status_error ''transient_http_'' code)\<rparr>
       else d\<lparr>pd_status := ''dead'', pd_last_error := Some (http_status_error ''permanent_http_'' code)\<rparr>
   | Vapid_not_configured \<Rightarrow> (schedule_retry now jitter None d)\<lparr>pd_last_error := Some ''vapid_not_configured''\<rparr>
   | Push_transport_error \<Rightarrow> (schedule_retry now jitter None d)\<lparr>pd_last_error := Some ''push_transport_error''\<rparr>)"

definition subscription_after :: "time \<Rightarrow> push_answer \<Rightarrow> push_subscription \<Rightarrow> push_subscription" where
  "subscription_after now a s = (case a of
     Push_status code _ \<Rightarrow>
       if 200 \<le> code \<and> code < 300 then s\<lparr>ps_last_success_at := Some now, ps_failure_count := 0\<rparr>
       else if code = 404 \<or> code = 410 then s\<lparr>ps_disabled_at := Some now\<rparr>
       else s\<lparr>ps_failure_count := ps_failure_count s + 1\<rparr>
   | _ \<Rightarrow> s)"

definition put_push :: "string \<Rightarrow> (push_delivery \<Rightarrow> push_delivery) \<Rightarrow> db \<Rightarrow> db" where
  "put_push i f db = db\<lparr>push_deliveries := update_where (\<lambda>d. pd_id d = i) f (push_deliveries db)\<rparr>"

definition unlease_push :: "push_delivery \<Rightarrow> push_delivery" where
  "unlease_push d = d\<lparr>pd_lease_owner := None, pd_lease_until := None\<rparr>"

text \<open>Whether a delivery is still wanted when it is its turn.\<close>

definition push_cancelled :: "push_delivery \<Rightarrow> db \<Rightarrow> bool" where
  "push_cancelled row db =
     (case (get_by ps_id (pd_subscription_id row) (push_subscriptions db),
            get_by ne_id (pd_notification_id row) (notification_events db)) of
        (Some s, Some e) \<Rightarrow>
          (let pref = get_by cp_user_id (ne_user_id e) (channel_preferences db);
               tpref = type_preference_of (ne_user_id e) (ne_notification_type e) db;
               d = map_of notification_kinds (ne_notification_type e) in
           ps_disabled_at s \<noteq> None
           \<or> (case pref of None \<Rightarrow> True | Some c \<Rightarrow> \<not> cp_web_push_enabled c)
           \<or> (case tpref of None \<Rightarrow> False | Some t \<Rightarrow> \<not> tp_enabled t)
           \<or> \<not> (case tpref of Some t \<Rightarrow> tp_web_push_enabled t
                | None \<Rightarrow> (case d of None \<Rightarrow> False | Some k \<Rightarrow> nk_default_web_push k))
           \<or> \<not> (case d of None \<Rightarrow> False | Some k \<Rightarrow> nk_web_push k))
      | _ \<Rightarrow> True)"

definition deliver_push :: "time \<Rightarrow> int \<Rightarrow> push_answer \<Rightarrow> push_delivery \<Rightarrow> db \<Rightarrow> db" where
  "deliver_push now jitter a row db =
     (if (case get_by ne_id (pd_notification_id row) (notification_events db) of
            None \<Rightarrow> False | Some e \<Rightarrow> map_of notification_kinds (ne_notification_type e) = None) then
        put_push (pd_id row) (\<lambda>d. (unlease_push d)\<lparr>pd_status := ''dead'',
          pd_last_error := Some ''unsupported_notification_type''\<rparr>) db
      else if push_cancelled row db then
        put_push (pd_id row) (\<lambda>d. (unlease_push d)\<lparr>pd_status := ''cancelled''\<rparr>) db
      else
       (let db1 = put_push (pd_id row) (\<lambda>d. (unlease_push (answered now jitter a d))\<lparr>pd_updated_at := now\<rparr>) db
        in db1\<lparr>push_subscriptions := update_where (\<lambda>s. ps_id s = pd_subscription_id row)
             (subscription_after now a) (push_subscriptions db1)\<rparr>))"

text \<open>One round per element: the clock at the claim and at the end, the jitter and the answer.\<close>

fun process_push_rounds :: "string \<Rightarrow> (time \<times> time \<times> int \<times> push_answer) list \<Rightarrow> db \<Rightarrow> nat \<times> db" where
  "process_push_rounds worker [] db = (0, db)"
| "process_push_rounds worker ((now, done_at, jitter, a) # rounds) db =
     (case claim_push worker now db of
        (None, db1) \<Rightarrow> (0, db1)
      | (Some i, db1) \<Rightarrow>
          (let db2 = (case get_by pd_id i (push_deliveries db1) of
                 None \<Rightarrow> db1
               | Some row \<Rightarrow> if pd_lease_owner row = Some worker then deliver_push done_at jitter a row db1 else db1);
               (n, db3) = process_push_rounds worker rounds db2
           in (n + 1, db3)))"

definition process_push_queue :: "string \<Rightarrow> int \<Rightarrow> (nat \<Rightarrow> time \<times> time \<times> int \<times> push_answer) \<Rightarrow> db \<Rightarrow> nat \<times> db" where
  "process_push_queue worker limit rounds db =
     process_push_rounds worker (map rounds [0..<nat (max 1 (min limit 100))]) db"

section \<open>Lemmas\<close>

definition push_held :: "push_delivery \<Rightarrow> (string \<times> time) option" where
  "push_held d = (case (pd_lease_owner d, pd_lease_until d) of (Some w, Some u) \<Rightarrow> Some (w, u) | _ \<Rightarrow> None)"

definition push_row_ok :: "push_delivery \<Rightarrow> bool" where
  "push_row_ok d \<longleftrightarrow> (pd_status d = ''leased'' \<longleftrightarrow> pd_lease_until d \<noteq> None)"

lemmas push_defs = push_prune_def push_grab_def push_held_def push_row_ok_def push_due_def push_lease_over_def

interpretation pushes: lease_rows pd_id push_prune push_due "\<lambda>d. (pd_created_at d, pd_id d)" push_grab
  push_held "seconds PUSH_LEASE_SECONDS" push_row_ok
proof (unfold_locales, goal_cases)
  case 1
  show ?case by (simp add: PUSH_LEASE_SECONDS_def seconds_def)
next
  case (2 t r)
  show ?case by (simp add: push_prune_def)
next
  case (3 w t r)
  show ?case by (simp add: push_grab_def)
next
  case (4 w t r)
  show ?case by (simp add: push_grab_def push_held_def)
next
  case (5 r w u t)
  then show ?case by (auto simp: push_defs split: option.splits if_splits)
next
  case (6 r t)
  then show ?case by (auto simp: push_prune_def push_due_def split: if_splits)
next
  case (7 r t w u)
  then show ?case by (auto simp: push_held_def push_due_def push_row_ok_def push_lease_over_def split: option.splits if_splits)
next
  case (8 r t)
  then show ?case by (auto simp: push_prune_def push_row_ok_def)
next
  case (9 r t w)
  then show ?case by (auto simp: push_grab_def push_row_ok_def)
qed

definition tickets_ok :: "db \<Rightarrow> bool" where
  "tickets_ok db \<longleftrightarrow> unique_key wt_token_hash (ws_tickets db)"

abbreviation ticket_live :: "ws_request \<Rightarrow> time \<Rightarrow> db \<Rightarrow> bool" where
  "ticket_live q now db \<equiv> exists_where (ticket_matches q now) (ws_tickets db)"

lemma ticket_rowcount:
  "tickets_ok db \<Longrightarrow> rowcount (ticket_matches q now) (ws_tickets db) = (if ticket_live q now db then 1 else 0)"
  unfolding ticket_matches_def tickets_ok_def by (rule rowcount_key_exists)

lemma consume_ticket_iff: "tickets_ok db \<Longrightarrow> fst (consume_ws_ticket q now db) \<longleftrightarrow> ticket_live q now db"
  by (simp add: consume_ws_ticket_def ticket_rowcount)

lemma consumed_ticket_dead:
  "\<lbrakk> tickets_ok db; ticket_live q now db; wq_digest q' = wq_digest q \<rbrakk>
   \<Longrightarrow> \<not> ticket_live q' now' (snd (consume_ws_ticket q now db))"
proof
  assume ok: "tickets_ok db" and live: "ticket_live q now db" and same: "wq_digest q' = wq_digest q"
    and again: "ticket_live q' now' (snd (consume_ws_ticket q now db))"
  obtain t where t: "t \<in> set (ws_tickets db)" "ticket_matches q now t"
    using live by (auto simp: exists_where_iff)
  obtain t' where t': "t' \<in> set (ws_tickets db)"
    "ticket_matches q' now' (if ticket_matches q now t' then t'\<lparr>wt_consumed_at := Some now\<rparr> else t')"
    using again by (auto simp: exists_where_iff consume_ws_ticket_def set_update_where)
  have "wt_token_hash t' = wt_token_hash t"
    using t(2) t'(2) same by (auto simp: ticket_matches_def split: if_splits)
  then have "t' = t" using ok t(1) t'(1) unique_keyD [of wt_token_hash] by (simp add: tickets_ok_def)
  then show False using t(2) t'(2) by (simp add: ticket_matches_def)
qed

interpretation ws: one_shot consume_ws_ticket ticket_live wq_digest tickets_ok
proof (unfold_locales, goal_cases)
  case (1 db k t)
  then show ?case by (rule consume_ticket_iff)
next
  case (2 db k t)
  then show ?case by (simp add: tickets_ok_def consume_ws_ticket_def unique_key_update_where)
next
  case (3 db k t k' t')
  then show ?case using consume_ticket_iff consumed_ticket_dead by blast
next
  case (4 db k' t' k t)
  then show ?case unfolding consume_ws_ticket_def snd_conv
    by (simp, elim exists_where_update_other [rotated]) (simp add: ticket_matches_def)
qed

lemma issued_matches:
  assumes ok: "tickets_ok db" and new: "dig \<notin> wt_token_hash ` set (ws_tickets db)"
    and i: "issue_ws_ticket now ttl origin expected user session_id dig db = (Inr (), db')"
  shows "tickets_ok db' \<and> (\<forall>q t. wq_digest q = dig \<longrightarrow> ticket_live q t db' \<longrightarrow>
      user = Some (wq_user q) \<and> wq_session q = session_id \<and> wq_origin q = origin \<and> t < now + seconds ttl)"
proof -
  let ?old = "delete_where (\<lambda>t. wt_expires_at t < now - days 1) (ws_tickets db)"
  obtain u where u: "user = Some u" and db': "ws_tickets db' = add_row \<lparr>wt_token_hash = dig, wt_user_id = u,
      wt_session_id = session_id, wt_purpose = ''notification_ws'', wt_expected_origin = origin,
      wt_expires_at = now + seconds ttl, wt_consumed_at = None\<rparr> ?old"
    using i by (auto simp: issue_ws_ticket_def expire_ws_tickets_def Let_def split: option.splits if_splits)
  have "unique_key wt_token_hash ?old" using ok by (simp add: tickets_ok_def unique_key_delete_where)
  moreover have "dig \<notin> wt_token_hash ` set ?old" using new by (auto simp: set_delete_where)
  ultimately show ?thesis
    using u by (auto simp: tickets_ok_def db' unique_key_add_row exists_where_iff set_add_row ticket_matches_def image_iff)
qed

section \<open>Properties\<close>

text \<open>
  A socket ticket opens one socket, for whom it was issued to: after a ticket is issued
  for a session, in any sequence of attempts by anybody at any time the token succeeds at
  most once, and only within its lifetime, for that user and session and from that origin.
\<close>

theorem ws_ticket_once:
  assumes "tickets_ok db" "dig \<notin> wt_token_hash ` set (ws_tickets db)"
    "issue_ws_ticket now ttl origin expected user session_id dig db = (Inr (), db')"
  shows "wins wq_digest dig ats (attempts consume_ws_ticket ats db') \<le> 1
    \<and> (wins wq_digest dig ats (attempts consume_ws_ticket ats db') = 1 \<longrightarrow>
        list_ex (\<lambda>(q, t). wq_digest q = dig \<and> user = Some (wq_user q) \<and> wq_session q = session_id
          \<and> wq_origin q = origin \<and> t < now + seconds ttl) ats)"
proof (intro conjI impI)
  note issued = issued_matches [OF assms]
  then have ok: "tickets_ok db'" by blast
  show "wins wq_digest dig ats (attempts consume_ws_ticket ats db') \<le> 1"
    using ok by (rule ws.consumed_at_most_once)
  show "list_ex (\<lambda>(q, t). wq_digest q = dig \<and> user = Some (wq_user q) \<and> wq_session q = session_id
          \<and> wq_origin q = origin \<and> t < now + seconds ttl) ats"
    if w: "wins wq_digest dig ats (attempts consume_ws_ticket ats db') = 1"
  proof (rule ccontr)
    let ?good = "\<lambda>(q, t). wq_digest q = dig \<and> user = Some (wq_user q) \<and> wq_session q = session_id
          \<and> wq_origin q = origin \<and> t < now + seconds ttl"
    assume none: "\<not> list_ex ?good ats"
    have "wins wq_digest dig ats (attempts consume_ws_ticket ats db'') = 0"
      if "tickets_ok db''" "\<forall>q t. wq_digest q = dig \<longrightarrow> ticket_live q t db'' \<longrightarrow> ?good (q, t)" "\<not> list_ex ?good ats" for db'' ats
      using that
    proof (induction ats arbitrary: db'')
      case (Cons a ats)
      obtain q t where a: "a = (q, t)" by force
      let ?next = "snd (consume_ws_ticket q t db'')"
      have "tickets_ok ?next" using Cons.prems(1) by (rule ws.consume_inv)
      moreover have "\<forall>q t. wq_digest q = dig \<longrightarrow> ticket_live q t ?next \<longrightarrow> ?good (q, t)"
        using Cons.prems(1,2) ws.never_revived by blast
      moreover have "\<not> (wq_digest q = dig \<and> fst (consume_ws_ticket q t db''))"
        using Cons.prems ws.consume_iff_live by (auto simp: a)
      ultimately show ?case using Cons.IH Cons.prems(3) by (auto simp: a case_prod_beta Let_def)
    qed simp
    then show False using ok issued none w by auto
  qed
qed

definition demo_socket_db :: db where
  "demo_socket_db = empty_db\<lparr>
     channel_preferences := [\<lparr>cp_user_id = ''u1'', cp_live_wss_enabled = True, cp_web_push_enabled = False, cp_updated_at = 0\<rparr>],
     user_sessions := [\<lparr>us_id = ''s1'', us_user_id = ''u1'', us_created_at = 0, us_expires_at = hours 1, us_last_seen_at = 0,
       us_client_ip = None, us_user_agent = None, us_is_tls = True, us_is_cli = False, us_is_valid = True,
       us_auth_method = ''webauthn'', us_assurance_level = ''aal2''\<rparr>]\<rparr>"

definition demo_ticket_db :: db where
  "demo_ticket_db = snd (issue_ws_ticket 0 60 ''https://a.test'' ''https://a.test'' (Some ''u1'') ''s1'' ''h1'' demo_socket_db)"

definition demo_ws :: "string \<Rightarrow> ws_request" where
  "demo_ws session_id = \<lparr>wq_digest = ''h1'', wq_user = ''u1'', wq_session = session_id, wq_origin = ''https://a.test''\<rparr>"

lemma ws_ticket_once_witness:
  "wins wq_digest ''h1'' [(demo_ws ''s2'', 1), (demo_ws ''s1'', 2), (demo_ws ''s1'', 3)]
     (attempts consume_ws_ticket [(demo_ws ''s2'', 1), (demo_ws ''s1'', 2), (demo_ws ''s1'', 3)] demo_ticket_db) \<le> 1"
proof (rule conjunct1 [OF ws_ticket_once])
  show "issue_ws_ticket 0 60 ''https://a.test'' ''https://a.test'' (Some ''u1'') ''s1'' ''h1'' demo_socket_db
      = (Inr (), demo_ticket_db)"
    unfolding demo_ticket_db_def by code_simp
qed (simp_all add: demo_socket_db_def tickets_ok_def unique_key_def)

end
