(* ===== verification/Comments.thy ===== *)
theory Comments
  imports Comment_Threads Federation_Outbox Notifications
begin

text \<open>
  \<open>comments/policy.py\<close>, \<open>comments/service.py\<close> and \<open>comments/voting.py\<close>, with the records of
  \<open>comments/moderation.py\<close> they write: the effective policy, creation, confirmation by
  guests, revisions and votes.
\<close>

section \<open>Policy\<close>

datatype comment_error =
    Policy_error string
  | Token_error string
  | Moderation_error string
  | Vote_error string
  | Federation_error fed_error
  | Notification_error notify_error

record comment_policy =
  pl_enabled :: bool
  pl_allow_guests :: bool
  pl_allow_replies :: bool
  pl_allow_quotes :: bool
  pl_guest_confirmation_required :: bool
  pl_moderation_mode :: string
  pl_first_n_count :: int
  pl_visible_max_depth :: int
  pl_edit_window_minutes :: int
  pl_max_user_edits :: int
  pl_trusted_edit_bypass :: bool
  pl_max_comment_length :: int
  pl_confirmation_ttl_hours :: int

definition MODERATION_MODES :: "string list" where
  "MODERATION_MODES = [''always'', ''first_n'', ''trusted_bypass'', ''none'']"

fun integer_of :: "json \<Rightarrow> int \<Rightarrow> int" where
  "integer_of (JInt n) dflt = n"
| "integer_of (JBool b) dflt = (if b then 1 else 0)"
| "integer_of (JStr s) dflt = (case parse_int s of None \<Rightarrow> dflt | Some n \<Rightarrow> n)"
| "integer_of _ dflt = dflt"

definition effective_mode :: "post option \<Rightarrow> dict \<Rightarrow> string" where
  "effective_mode p values =
     (let site = str_or_empty (dget values ''moderation_mode'' JNull);
          site' = (if site \<in> set MODERATION_MODES then site
                   else if truthy (dget values ''require_admin_approval'' (JBool True)) then ''always'' else ''none'')
      in case Option.bind p po_comment_moderation_mode of
           None \<Rightarrow> site'
         | Some m \<Rightarrow> if m \<in> set MODERATION_MODES then m else ''always'')"

definition resolve_comment_policy :: "post option \<Rightarrow> dict \<Rightarrow> comment_policy" where
  "resolve_comment_policy p values =
     \<lparr>pl_enabled = (case Option.bind p po_comments_enabled of Some b \<Rightarrow> b
         | None \<Rightarrow> truthy (dget values ''enabled'' (JBool True))),
      pl_allow_guests = truthy (dget values ''allow_anonymous'' (JBool True)),
      pl_allow_replies = truthy (dget values ''allow_replies'' (JBool True)),
      pl_allow_quotes = truthy (dget values ''allow_quotes'' (JBool True)),
      pl_guest_confirmation_required = (case Option.bind p po_guest_confirmation_required of Some b \<Rightarrow> b
         | None \<Rightarrow> truthy (dget values ''require_email_confirmation'' (JBool True))),
      pl_moderation_mode = effective_mode p values,
      pl_first_n_count = max 0 (integer_of (dget values ''first_n_count'' JNull) 1),
      pl_visible_max_depth =
        max 1 (integer_of (dget values ''visible_max_depth'' (dget values ''max_depth'' JNull)) 4),
      pl_edit_window_minutes = max 0 (integer_of (dget values ''edit_window_minutes'' JNull) 30),
      pl_max_user_edits = max 0 (integer_of (dget values ''max_user_edits'' JNull) 2),
      pl_trusted_edit_bypass = truthy (dget values ''trusted_edit_bypass'' (JBool False)),
      pl_max_comment_length = max 1 (integer_of (dget values ''max_comment_length'' JNull) 10000),
      pl_confirmation_ttl_hours = min 168 (max 1 (integer_of (dget values ''confirmation_ttl_hours'' JNull) 24))\<rparr>"

definition publication_state :: "comment_policy \<Rightarrow> user option \<Rightarrow> nat \<Rightarrow> comment_status" where
  "publication_state policy author approved =
     (let mode = pl_moderation_mode policy in
      if mode = ''none'' then Comment_Approved
      else if mode = ''first_n'' then
        (if author \<noteq> None \<and> int approved \<ge> pl_first_n_count policy then Comment_Approved
         else Comment_Pending_Moderation)
      else if mode = ''trusted_bypass'' \<and> (case author of None \<Rightarrow> False | Some u \<Rightarrow> u_comment_trusted u)
      then Comment_Approved else Comment_Pending_Moderation)"

definition approved_count :: "db \<Rightarrow> string option \<Rightarrow> nat" where
  "approved_count db author = (case author of
     None \<Rightarrow> 0
   | Some u \<Rightarrow> rowcount (\<lambda>c. co_author_user_id c = Some u \<and> co_status c = Comment_Approved) (comments db))"

section \<open>Decisions\<close>

text \<open>
  The environment of one operation: the clock, the identifiers of the row and of the
  decision it adds, a new token with its hash, the hash of a presented token, and the
  environments of the federation and notification calls it makes.
\<close>

record comment_env =
  ce_now :: time
  ce_cfg :: config
  ce_id :: string
  ce_decision_id :: string
  ce_token :: string
  ce_hash :: "string \<Rightarrow> string"
  ce_fed :: fed_env
  ce_notify :: notify_env

record reason_code =
  rs_human_recommended :: bool
  rs_restriction :: string

definition REASON_CATALOG :: "(string \<times> reason_code) list" where
  "REASON_CATALOG =
    [(''spam'', \<lparr>rs_human_recommended = False, rs_restriction = ''marked_spam''\<rparr>),
     (''harassment'', \<lparr>rs_human_recommended = True, rs_restriction = ''publication_denied''\<rparr>),
     (''hate_or_abuse'', \<lparr>rs_human_recommended = True, rs_restriction = ''publication_denied''\<rparr>),
     (''illegal_content'', \<lparr>rs_human_recommended = True, rs_restriction = ''content_removed''\<rparr>),
     (''personal_data'', \<lparr>rs_human_recommended = True, rs_restriction = ''content_removed''\<rparr>),
     (''off_topic'', \<lparr>rs_human_recommended = False, rs_restriction = ''publication_denied''\<rparr>),
     (''duplicate'', \<lparr>rs_human_recommended = False, rs_restriction = ''publication_denied''\<rparr>),
     (''misinformation_or_deceptive'', \<lparr>rs_human_recommended = True, rs_restriction = ''publication_denied''\<rparr>),
     (''rule_violation'', \<lparr>rs_human_recommended = True, rs_restriction = ''publication_denied''\<rparr>),
     (''automated_policy'', \<lparr>rs_human_recommended = False, rs_restriction = ''none''\<rparr>),
     (''appeal_overturned'', \<lparr>rs_human_recommended = True, rs_restriction = ''none''\<rparr>),
     (''no_violation'', \<lparr>rs_human_recommended = False, rs_restriction = ''none''\<rparr>),
     (''other'', \<lparr>rs_human_recommended = True, rs_restriction = ''other''\<rparr>)]"

definition RESTRICTIONS :: "string list" where
  "RESTRICTIONS = [''none'', ''publication_denied'', ''content_removed'', ''marked_spam'', ''edit_rejected'', ''other'']"

definition MAX_REASON_LENGTH :: nat where "MAX_REASON_LENGTH = 2000"

record decision_request =
  dq_target_type :: string
  dq_target_id :: string
  dq_actor :: "string option"
  dq_outcome :: string
  dq_reason :: string
  dq_human_reason :: "string option"
  dq_rule_reference :: "string option"
  dq_restriction :: string
  dq_source :: string
  dq_supersedes :: "string option"

definition new_decision ::
  "comment_env \<Rightarrow> decision_request \<Rightarrow> db \<Rightarrow> (comment_error, moderation_decision, db) outcome" where
  "new_decision env q db =
     (let reference = or_none (strip (or_empty (dq_rule_reference q))) in
      if dq_source q \<notin> {''human'', ''automated'', ''assisted''}
      then (Inl (Moderation_error ''Unsupported decision source.''), db)
      else if dq_reason q = [] \<or> length (dq_reason q) > 48
      then (Inl (Moderation_error ''Invalid moderation reason code.''), db)
      else if dq_restriction q \<notin> set RESTRICTIONS
      then (Inl (Moderation_error ''Invalid restriction type.''), db)
      else if length (or_empty (dq_human_reason q)) > MAX_REASON_LENGTH
      then (Inl (Moderation_error ''The explanation is too long.''), db)
      else if length (or_empty reference) > 256
      then (Inl (Moderation_error ''The rule reference is too long.''), db)
      else
       (let d = \<lparr>mo_id = ce_decision_id env, mo_target_type = dq_target_type q, mo_target_id = dq_target_id q,
            mo_actor_user_id = dq_actor q, mo_outcome = dq_outcome q, mo_reason_code = dq_reason q,
            mo_human_reason = dq_human_reason q, mo_rule_reference = reference,
            mo_restriction_type = dq_restriction q, mo_decision_source = dq_source q,
            mo_created_at = ce_now env, mo_supersedes_decision_id = dq_supersedes q\<rparr>
        in (Inr d, db\<lparr>moderation_decisions := add_row d (moderation_decisions db)\<rparr>)))"

definition record_automatic_decision ::
  "comment_env \<Rightarrow> string \<Rightarrow> string \<Rightarrow> string \<Rightarrow> db \<Rightarrow> (comment_error, moderation_decision, db) outcome" where
  "record_automatic_decision env target outcome reason db =
     (if map_of REASON_CATALOG reason = None then (Inl (Moderation_error ''Unsupported automatic decision reason.''), db)
      else new_decision env \<lparr>dq_target_type = ''comment'', dq_target_id = target, dq_actor = None,
        dq_outcome = outcome, dq_reason = reason, dq_human_reason = None, dq_rule_reference = None,
        dq_restriction = (if outcome = ''spam'' then ''marked_spam'' else ''none''), dq_source = ''automated'',
        dq_supersedes = None\<rparr> db)"

section \<open>Creating a comment\<close>

record comment_request =
  rq_author_name :: string
  rq_author_email :: "string option"
  rq_author_url :: "string option"
  rq_body :: string
  rq_author_user :: "user option"
  rq_remote_actor :: "remote_actor option"
  rq_remote_object_uri :: "string option"
  rq_inbox_activity_id :: "string option"
  rq_parent_id :: "string option"
  rq_quote_of_id :: "string option"
  rq_spam :: bool
  rq_ip_address :: "string option"
  rq_user_agent :: "string option"
  rq_country_code :: "string option"

definition same_post_comment :: "db \<Rightarrow> string \<Rightarrow> string option \<Rightarrow> comment option" where
  "same_post_comment db post_id i = (if \<not> truthy_str i then None
     else first_where (\<lambda>c. co_id c = or_empty i \<and> co_post_id c = post_id) (comments db))"

text \<open>The walk of \<open>threads.py\<close>, here over the table and from the parent itself.\<close>

definition parent_chain_contains :: "db \<Rightarrow> comment \<Rightarrow> string \<Rightarrow> bool" where
  "parent_chain_contains db parent target = would_cycle_from (comments db) target [] (co_id parent)"

definition is_guest :: "comment_request \<Rightarrow> bool" where
  "is_guest q \<longleftrightarrow> rq_author_user q = None \<and> rq_remote_actor q = None"

definition request_error :: "post \<Rightarrow> comment_policy \<Rightarrow> comment_request \<Rightarrow> db \<Rightarrow> string option" where
  "request_error p policy q db =
     (let parent = same_post_comment db (po_id p) (rq_parent_id q);
          quoted = same_post_comment db (po_id p) (rq_quote_of_id q);
          unavailable = (\<lambda>c. case c of None \<Rightarrow> True | Some x \<Rightarrow> co_status x \<noteq> Comment_Approved) in
      if \<not> pl_enabled policy then Some ''Comments are disabled for this content.''
      else if rq_author_user q \<noteq> None \<and> rq_remote_actor q \<noteq> None
      then Some ''A comment cannot have both a local and remote account author.''
      else if rq_remote_actor q \<noteq> None \<and> (rq_author_email q \<noteq> None \<or> \<not> truthy_str (rq_remote_object_uri q))
      then Some ''Federated comments require a remote object and cannot have e-mail.''
      else if is_guest q \<and> \<not> pl_allow_guests policy then Some ''Guest comments are disabled.''
      else if strip (rq_author_name q) = [] \<or> strip (rq_body q) = []
      then Some ''Author name and comment body are required.''
      else if int (length (rq_body q)) > pl_max_comment_length policy
      then Some ''Comment exceeds the configured maximum length.''
      else if truthy_str (rq_parent_id q) \<and> \<not> pl_allow_replies policy
      then Some ''Replies are disabled by comment policy.''
      else if truthy_str (rq_quote_of_id q) \<and> \<not> pl_allow_quotes policy
      then Some ''Quoting is disabled by comment policy.''
      else if truthy_str (rq_parent_id q) \<and> unavailable parent then Some ''Reply target is unavailable.''
      else if truthy_str (rq_quote_of_id q) \<and> unavailable quoted then Some ''Quote target is unavailable.''
      else if (case parent of None \<Rightarrow> False | Some c \<Rightarrow> parent_chain_contains db c [])
      then Some ''Reply would create a parent cycle.''
      else if \<not> rq_spam q \<and> is_guest q \<and> pl_guest_confirmation_required policy \<and> \<not> truthy_str (rq_author_email q)
      then Some ''Guest e-mail is required for confirmation.''
      else None)"

definition needs_confirmation :: "comment_policy \<Rightarrow> comment_request \<Rightarrow> bool" where
  "needs_confirmation policy q \<longleftrightarrow> \<not> rq_spam q \<and> is_guest q \<and> pl_guest_confirmation_required policy"

definition initial_status :: "comment_policy \<Rightarrow> comment_request \<Rightarrow> db \<Rightarrow> comment_status" where
  "initial_status policy q db =
     (if rq_spam q then Comment_Spam
      else if needs_confirmation policy q then Comment_Pending_Confirmation
      else publication_state policy (rq_author_user q) (approved_count db (map_option u_id (rq_author_user q))))"

definition new_comment :: "comment_env \<Rightarrow> post \<Rightarrow> comment_policy \<Rightarrow> comment_request \<Rightarrow> db \<Rightarrow> comment" where
  "new_comment env p policy q db =
     (let status = initial_status policy q db; now = ce_now env;
          pending = needs_confirmation policy q;
          published = (if status = Comment_Approved then Some now else None) in
      \<lparr>co_id = ce_id env, co_post_id = po_id p, co_author_user_id = map_option u_id (rq_author_user q),
       co_remote_actor_id = map_option ra_id (rq_remote_actor q), co_remote_object_uri = rq_remote_object_uri q,
       co_federation_inbox_activity_id = rq_inbox_activity_id q, co_author_name = take 128 (strip (rq_author_name q)),
       co_author_email = rq_author_email q, co_author_url = rq_author_url q, co_body = strip (rq_body q),
       co_status = status, co_confirmation_token_hash = (if pending then Some (ce_hash env (ce_token env)) else None),
       co_confirmation_expires_at = (if pending then Some (now + hours (pl_confirmation_ttl_hours policy)) else None),
       co_confirmation_sent_at = (if pending then Some now else None),
       co_confirmed_at = (if \<not> pending \<and> \<not> rq_spam q then Some now else None),
       co_approved_at = published, co_published_at = published, co_edited_at = None,
       co_parent_id = map_option co_id (same_post_comment db (po_id p) (rq_parent_id q)),
       co_quote_of_id = map_option co_id (same_post_comment db (po_id p) (rq_quote_of_id q)), co_mod_note = None,
       co_ip_address = rq_ip_address q, co_user_agent = or_none (take 512 (or_empty (rq_user_agent q))),
       co_country_code = rq_country_code q, co_rdap_json = None, co_created_at = now\<rparr>)"

definition fed_step :: "(fed_error, 'a, db) outcome \<Rightarrow> (comment_error, unit, db) outcome" where
  "fed_step r = (case r of (Inl e, s) \<Rightarrow> (Inl (Federation_error e), s) | (Inr _, s) \<Rightarrow> (Inr (), s))"

definition ignore_result :: "('e, 'a, db) outcome \<Rightarrow> ('e, unit, db) outcome" where
  "ignore_result r = and_then r (\<lambda>_ s. (Inr (), s))"

fun status_value :: "comment_status \<Rightarrow> string" where
  "status_value Comment_Pending_Confirmation = ''pending_confirmation''"
| "status_value Comment_Pending_Moderation = ''pending_moderation''"
| "status_value Comment_Approved = ''approved''"
| "status_value Comment_Rejected = ''rejected''"
| "status_value Comment_Spam = ''spam''"
| "status_value Comment_Deleted = ''deleted''"

text \<open>The comment and the token of its confirmation, if it needs one.\<close>

definition create_comment ::
  "comment_env \<Rightarrow> post \<Rightarrow> comment_policy \<Rightarrow> comment_request \<Rightarrow> db
   \<Rightarrow> (comment_error, comment \<times> string option, db) outcome" where
  "create_comment env p policy q db =
     (case request_error p policy q db of
        Some m \<Rightarrow> (Inl (Policy_error m), db)
      | None \<Rightarrow>
          (let c = new_comment env p policy q db; status = co_status c;
               db1 = db\<lparr>comments := add_row c (comments db)\<rparr> in
           and_then (if status = Comment_Approved \<and> rq_author_user q \<noteq> None \<and> rq_remote_actor q = None
                     then fed_step (enqueue_comment_activity (ce_fed env) (co_id c) ''Create'' ''1'' db1)
                     else (Inr (), db1)) (\<lambda>_ db2.
           and_then (if status = Comment_Approved
                     then ignore_result (record_automatic_decision env (co_id c) ''approve'' ''automated_policy'' db2)
                     else if status = Comment_Spam
                     then ignore_result (record_automatic_decision env (co_id c) ''spam'' ''spam'' db2)
                     else (Inr (), db2)) (\<lambda>_ db3.
           (let db4 = write_audit_event (ce_cfg env) (ce_now env) ''comment_created'' ''success'' (rq_ip_address q)
                  (co_author_user_id c) None (Some (co_id c)) None (Some (''state='' @ status_value status)) True db3;
                db5 = (if status = Comment_Approved
                  then audit (ce_cfg env) (ce_now env) ''comment_auto_approved_by_policy'' ''success''
                    (co_author_user_id c) (Some (co_id c)) [] db4 else db4)
            in (Inr (c, if needs_confirmation policy q then Some (ce_token env) else None), db5))))))"

section \<open>Confirmation by guests\<close>

definition TOKEN_REFUSED :: string where
  "TOKEN_REFUSED = ''Confirmation link is invalid or expired.''"

definition put_comment :: "string \<Rightarrow> (comment \<Rightarrow> comment) \<Rightarrow> db \<Rightarrow> db" where
  "put_comment i f db = db\<lparr>comments := update_where (\<lambda>c. co_id c = i) f (comments db)\<rparr>"

definition confirmable :: "string \<Rightarrow> time \<Rightarrow> comment \<Rightarrow> bool" where
  "confirmable dig now c \<longleftrightarrow> co_confirmation_token_hash c = Some dig \<and> co_status c = Comment_Pending_Confirmation
     \<and> (case co_confirmation_expires_at c of None \<Rightarrow> False | Some t \<Rightarrow> now < t)"

definition confirm_update :: "time \<Rightarrow> comment_status \<Rightarrow> comment \<Rightarrow> comment" where
  "confirm_update now next c =
     (let published = (if next = Comment_Approved then Some now else None) in
      c\<lparr>co_status := next, co_confirmation_token_hash := None, co_confirmation_expires_at := None,
        co_confirmed_at := Some now, co_approved_at := published, co_published_at := published\<rparr>)"

definition confirm_guest_comment ::
  "comment_env \<Rightarrow> string \<Rightarrow> dict \<Rightarrow> db \<Rightarrow> (comment_error, string, db) outcome" where
  "confirm_guest_comment env token settings db =
     (if token = [] \<or> length token > 128 \<or> \<not> ascii token then (Inl (Token_error TOKEN_REFUSED), db)
      else
       (let dig = ce_hash env token; now = ce_now env in
        case first_where (confirmable dig now) (comments db) of
          None \<Rightarrow> (Inl (Token_error TOKEN_REFUSED), db)
        | Some c \<Rightarrow> (case get_by po_id (co_post_id c) (posts db) of
            None \<Rightarrow> (Inl (Token_error TOKEN_REFUSED), db)
          | Some p \<Rightarrow>
              (let next = publication_state (resolve_comment_policy (Some p) settings) None 0;
                   P = (\<lambda>r. co_id r = co_id c \<and> confirmable dig now r);
                   db1 = db\<lparr>comments := update_where P (confirm_update now next) (comments db)\<rparr> in
               if rowcount P (comments db) \<noteq> 1 then (Inl (Token_error TOKEN_REFUSED), db1)
               else and_then (if next = Comment_Approved
                    then ignore_result (record_automatic_decision env (co_id c) ''approve'' ''automated_policy'' db1)
                    else (Inr (), db1)) (\<lambda>_ db2.
                 (let db3 = audit (ce_cfg env) now ''comment_guest_confirmation_consumed'' ''success'' None
                        (Some (co_id c)) (''state='' @ status_value next) db2;
                      db4 = (if next = Comment_Approved
                        then audit (ce_cfg env) now ''comment_auto_approved_by_policy'' ''success'' None
                          (Some (co_id c)) [] db3 else db3)
                  in (Inr (co_id c), db4)))))))"

text \<open>The comment is the row as the caller read it.\<close>

definition issue_guest_confirmation ::
  "comment_env \<Rightarrow> comment \<Rightarrow> int \<Rightarrow> int \<Rightarrow> db \<Rightarrow> (comment_error, string, db) outcome" where
  "issue_guest_confirmation env c ttl_hours interval db =
     (if co_status c \<noteq> Comment_Pending_Confirmation
      then (Inl (Token_error ''Only pending guest comments can be confirmed.''), db)
      else if (case co_confirmation_sent_at c of None \<Rightarrow> False
               | Some t \<Rightarrow> ce_now env < t + seconds (max 1 interval))
      then (Inl (Token_error ''A new confirmation message cannot be sent yet.''), db)
      else
       (let P = (\<lambda>r. co_id r = co_id c \<and> co_status r = Comment_Pending_Confirmation
              \<and> co_confirmation_token_hash r = co_confirmation_token_hash c
              \<and> co_confirmation_sent_at r = co_confirmation_sent_at c);
            db1 = db\<lparr>comments := update_where P (\<lambda>r. r\<lparr>
              co_confirmation_token_hash := Some (ce_hash env (ce_token env)),
              co_confirmation_expires_at := Some (ce_now env + hours (min 168 (max 1 ttl_hours))),
              co_confirmation_sent_at := Some (ce_now env)\<rparr>) (comments db)\<rparr>
        in if rowcount P (comments db) \<noteq> 1
           then (Inl (Token_error ''Confirmation state changed; request a new message again.''), db1)
           else (Inr (ce_token env), audit (ce_cfg env) (ce_now env) ''comment_guest_confirmation_resent'' ''success''
             None (Some (co_id c)) [] db1)))"

section \<open>Revisions\<close>

definition edit_count :: "db \<Rightarrow> string \<Rightarrow> string \<Rightarrow> nat" where
  "edit_count db comment_id user_id = rowcount (\<lambda>r. cr_comment_id r = comment_id
     \<and> cr_editor_user_id r = Some user_id \<and> cr_is_author_edit r) (comment_revisions db)"

text \<open>\<open>None\<close> when the edit is allowed, otherwise the reason it is not.\<close>

definition edit_refused ::
  "time \<Rightarrow> comment \<Rightarrow> user \<Rightarrow> comment_policy \<Rightarrow> bool \<Rightarrow> db \<Rightarrow> string option" where
  "edit_refused now c actor policy moderator db =
     (let published = (case co_published_at c of Some t \<Rightarrow> t
        | None \<Rightarrow> (case co_approved_at c of Some t \<Rightarrow> t | None \<Rightarrow> co_created_at c)) in
      if co_status c \<noteq> Comment_Approved then Some ''Only published comments can be edited.''
      else if moderator then None
      else if co_author_user_id c \<noteq> Some (u_id actor)
      then Some ''Only the registered comment author may edit this comment.''
      else if pl_edit_window_minutes policy \<le> 0 \<or> now > published + minutes (pl_edit_window_minutes policy)
      then Some ''The comment edit window has expired.''
      else if int (edit_count db (co_id c) (u_id actor)) \<ge> pl_max_user_edits policy
      then Some ''The maximum number of author edits has been reached.''
      else None)"

definition last_revision :: "db \<Rightarrow> string \<Rightarrow> int" where
  "last_revision db comment_id =
     fold max (map cr_revision_number (filter (\<lambda>r. cr_comment_id r = comment_id) (comment_revisions db))) 0"

definition has_pending_revision :: "db \<Rightarrow> string \<Rightarrow> bool" where
  "has_pending_revision db comment_id = exists_where (\<lambda>r. cr_comment_id r = comment_id
     \<and> cr_status r = Revision_Pending) (comment_revisions db)"

text \<open>The two unique constraints of the table of revisions.\<close>

definition revision_conflict :: "comment_revision \<Rightarrow> db \<Rightarrow> bool" where
  "revision_conflict r db = exists_where (\<lambda>x. cr_comment_id x = cr_comment_id r
       \<and> cr_revision_number x = cr_revision_number r
     \<or> cr_pending_key r \<noteq> None \<and> cr_pending_key x = cr_pending_key r) (comment_revisions db)"

definition new_revision ::
  "comment_env \<Rightarrow> comment \<Rightarrow> string option \<Rightarrow> string \<Rightarrow> bool \<Rightarrow> bool \<Rightarrow> db \<Rightarrow> comment_revision" where
  "new_revision env c editor body immediate author_edit db =
     \<lparr>cr_id = ce_id env, cr_comment_id = co_id c, cr_editor_user_id = editor,
      cr_revision_number = last_revision db (co_id c) + 1, cr_previous_body = co_body c, cr_body = strip body,
      cr_status = (if immediate then Revision_Approved else Revision_Pending),
      cr_pending_key = (if immediate then None else Some (co_id c)), cr_is_author_edit = author_edit,
      cr_created_at = ce_now env\<rparr>"

definition apply_body :: "time \<Rightarrow> string \<Rightarrow> string \<Rightarrow> db \<Rightarrow> db" where
  "apply_body now comment_id body db =
     put_comment comment_id (\<lambda>c. c\<lparr>co_body := body, co_edited_at := Some now\<rparr>) db"

definition body_refused :: "string \<Rightarrow> comment_policy \<Rightarrow> bool" where
  "body_refused body policy \<longleftrightarrow> strip body = [] \<or> int (length body) > pl_max_comment_length policy"

fun revision_value :: "revision_status \<Rightarrow> string" where
  "revision_value Revision_Pending = ''pending''"
| "revision_value Revision_Approved = ''approved''"
| "revision_value Revision_Rejected = ''rejected''"

definition create_comment_revision ::
  "comment_env \<Rightarrow> string \<Rightarrow> user \<Rightarrow> string \<Rightarrow> comment_policy \<Rightarrow> bool \<Rightarrow> db
   \<Rightarrow> (comment_error, comment_revision, db) outcome" where
  "create_comment_revision env comment_id actor body policy moderator db =
     (case get_by co_id comment_id (comments db) of
        None \<Rightarrow> (Inl (Policy_error ''Comment not found.''), db)
      | Some c \<Rightarrow>
          (let immediate = moderator \<or> pl_trusted_edit_bypass policy \<and> u_comment_trusted actor;
               r = new_revision env c (Some (u_id actor)) body immediate (\<not> moderator) db in
           if edit_refused (ce_now env) c actor policy moderator db \<noteq> None
           then (Inl (Policy_error (the (edit_refused (ce_now env) c actor policy moderator db))), db)
           else if body_refused body policy
           then (Inl (Policy_error ''Edited comment is empty or exceeds the maximum length.''), db)
           else if \<not> immediate \<and> has_pending_revision db comment_id
           then (Inl (Policy_error ''A comment revision is already awaiting moderation.''), db)
           else if revision_conflict r db
           then (Inl (Policy_error ''A concurrent comment edit conflicted; reload and retry.''), db)
           else
            (let db1 = db\<lparr>comment_revisions := add_row r (comment_revisions db)\<rparr>;
                 db2 = (if immediate then apply_body (ce_now env) comment_id (cr_body r) db1 else db1)
             in (Inr r, audit (ce_cfg env) (ce_now env) ''comment_revision_created'' ''success'' (cr_editor_user_id r)
                  (Some comment_id) (''revision='' @ str_int (cr_revision_number r) @ '';state='' @ revision_value (cr_status r))
                  db2))))"

definition create_remote_comment_revision ::
  "comment_env \<Rightarrow> comment \<Rightarrow> string \<Rightarrow> string \<Rightarrow> comment_policy \<Rightarrow> db
   \<Rightarrow> (comment_error, comment_revision, db) outcome" where
  "create_remote_comment_revision env c remote_actor_id body policy db =
     (let r = new_revision env c None body False False db in
      if \<not> pl_enabled policy \<or> co_remote_actor_id c \<noteq> Some remote_actor_id
      then (Inl (Policy_error ''Remote comment ownership or policy check failed.''), db)
      else if co_status c \<noteq> Comment_Approved
      then (Inl (Policy_error ''Only published comments can receive remote revisions.''), db)
      else if body_refused body policy
      then (Inl (Policy_error ''Edited comment is empty or exceeds the maximum length.''), db)
      else if has_pending_revision db (co_id c)
      then (Inl (Policy_error ''A comment revision is already awaiting moderation.''), db)
      else if revision_conflict r db
      then (Inl (Policy_error ''A concurrent comment revision conflicted; reload and retry.''), db)
      else (Inr r, audit (ce_cfg env) (ce_now env) ''federation_comment_revision_received'' ''success'' None
        (Some (co_id c)) (''revision='' @ str_int (cr_revision_number r) @ '';source=remote'')
        (db\<lparr>comment_revisions := add_row r (comment_revisions db)\<rparr>)))"

definition put_revision :: "string \<Rightarrow> (comment_revision \<Rightarrow> comment_revision) \<Rightarrow> db \<Rightarrow> db" where
  "put_revision i f db = db\<lparr>comment_revisions := update_where (\<lambda>r. cr_id r = i) f (comment_revisions db)\<rparr>"

definition review_comment_revision ::
  "comment_env \<Rightarrow> string \<Rightarrow> bool \<Rightarrow> db \<Rightarrow> (comment_error, comment_revision, db) outcome" where
  "review_comment_revision env revision_id approve db =
     (case get_by cr_id revision_id (comment_revisions db) of
        None \<Rightarrow> (Inl (Policy_error ''Pending comment revision not found.''), db)
      | Some r \<Rightarrow>
          if cr_status r \<noteq> Revision_Pending then (Inl (Policy_error ''Pending comment revision not found.''), db)
          else (case get_by co_id (cr_comment_id r) (comments db) of
              None \<Rightarrow> (Inl (Policy_error ''The published comment is no longer editable.''), db)
            | Some c \<Rightarrow>
                if co_status c \<noteq> Comment_Approved
                then (Inl (Policy_error ''The published comment is no longer editable.''), db)
                else
                 (let r' = r\<lparr>cr_status := (if approve then Revision_Approved else Revision_Rejected), cr_pending_key := None\<rparr>;
                      db1 = put_revision revision_id (\<lambda>_. r') db
                  in (Inr r', if approve then apply_body (ce_now env) (co_id c) (cr_body r) db1 else db1))))"

section \<open>Votes\<close>

definition audit_vote :: "comment_env \<Rightarrow> string \<Rightarrow> string \<Rightarrow> string \<Rightarrow> db \<Rightarrow> db" where
  "audit_vote env user_id comment_id detail db =
     audit (ce_cfg env) (ce_now env) ''comment_vote_changed'' ''success'' (Some user_id) (Some comment_id) detail db"

definition vote_of :: "string \<Rightarrow> string \<Rightarrow> comment_vote \<Rightarrow> bool" where
  "vote_of user_id comment_id v \<longleftrightarrow> cv_comment_id v = comment_id \<and> cv_user_id v = user_id"

definition cast_comment_vote ::
  "comment_env \<Rightarrow> string option \<Rightarrow> string \<Rightarrow> int \<Rightarrow> db \<Rightarrow> (comment_error, int option, db) outcome" where
  "cast_comment_vote env user_id comment_id val db =
     (let uid = or_empty user_id; mine = vote_of uid comment_id in
      if \<not> truthy_str user_id then (Inl (Vote_error ''Sign in to vote on comments.''), db)
      else if val \<notin> {-1, 0, 1} then (Inl (Vote_error ''Vote must be -1, 0 or 1.''), db)
      else if (case get_by u_id uid (users db) of None \<Rightarrow> True | Some u \<Rightarrow> \<not> u_is_active u)
      then (Inl (Vote_error ''An active registered account is required to vote.''), db)
      else (case get_by co_id comment_id (comments db) of
          None \<Rightarrow> (Inl (Vote_error ''Only published comments can be voted on.''), db)
        | Some c \<Rightarrow>
            if co_status c \<noteq> Comment_Approved then (Inl (Vote_error ''Only published comments can be voted on.''), db)
            else if co_author_user_id c = Some uid
            then (Inl (Vote_error ''Authors cannot vote on their own comments.''), db)
            else if val = 0 then
              (Inr None, audit_vote env uid comment_id ''removed''
                 (db\<lparr>comment_votes := delete_where mine (comment_votes db)\<rparr>))
            else
             (let db1 = (if exists_where mine (comment_votes db)
                    then db\<lparr>comment_votes := update_where mine (\<lambda>v. v\<lparr>cv_value := val,
                           cv_updated_at := (if cv_value v = val then cv_updated_at v else ce_now env)\<rparr>) (comment_votes db)\<rparr>
                    else db\<lparr>comment_votes := add_row \<lparr>cv_id = ce_id env, cv_user_id = uid, cv_comment_id = comment_id,
                           cv_value = val, cv_created_at = ce_now env, cv_updated_at = ce_now env\<rparr> (comment_votes db)\<rparr>)
              in (Inr (Some val), audit_vote env uid comment_id (''value='' @ str_int val) db1))))"

text \<open>The up and the down votes of a comment while it is published.\<close>

definition get_comment_vote_counts :: "string \<Rightarrow> db \<Rightarrow> nat \<times> nat" where
  "get_comment_vote_counts comment_id db =
     (let n = (\<lambda>x. rowcount (\<lambda>v. cv_comment_id v = comment_id \<and> cv_value v = x
            \<and> exists_where (\<lambda>c. co_id c = comment_id \<and> co_status c = Comment_Approved) (comments db)) (comment_votes db))
      in (n 1, n (-1)))"

end
