(* ===== verification/Moderation.thy ===== *)
theory Moderation
  imports Comments
begin

text \<open>
  \<open>comments/moderation.py\<close>: the decisions on comments and revisions with the state machine
  of a comment, and the appeals of authors. A decision that is refused raises, and the
  route rolls its transaction back; the database an error returns is what the transaction
  held until then.
\<close>

section \<open>Decisions on comments\<close>

definition validate_reason ::
  "string \<Rightarrow> string option \<Rightarrow> string option \<Rightarrow> comment_error + (string option \<times> string)" where
  "validate_reason code human restriction_type = (case map_of REASON_CATALOG code of
     None \<Rightarrow> Inl (Moderation_error ''Choose a supported moderation reason.'')
   | Some reason \<Rightarrow>
       (let text = or_none (strip (or_empty human));
            restriction = (if truthy_str restriction_type then or_empty restriction_type else rs_restriction reason) in
        if length (or_empty text) > MAX_REASON_LENGTH then Inl (Moderation_error ''The explanation is too long.'')
        else if code = ''other'' \<and> text = None
        then Inl (Moderation_error ''An explanation is required when the reason is Other.'')
        else if restriction \<notin> set RESTRICTIONS then Inl (Moderation_error ''Choose a supported restriction type.'')
        else Inr (text, restriction)))"

definition COMMENT_OUTCOMES :: "string list" where
  "COMMENT_OUTCOMES = [''approve'', ''reject'', ''spam'', ''delete'', ''restore'']"

definition next_status :: "string \<Rightarrow> comment_status" where
  "next_status outcome =
     (if outcome \<in> {''approve'', ''restore''} then Comment_Approved
      else if outcome = ''reject'' then Comment_Rejected
      else if outcome = ''spam'' then Comment_Spam else Comment_Deleted)"

fun allowed_outcomes :: "comment_status \<Rightarrow> string list" where
  "allowed_outcomes Comment_Pending_Moderation = [''approve'', ''reject'', ''spam'']"
| "allowed_outcomes Comment_Approved = [''delete'', ''spam'']"
| "allowed_outcomes Comment_Rejected = [''restore'']"
| "allowed_outcomes Comment_Spam = [''restore'']"
| "allowed_outcomes Comment_Deleted = [''restore'']"
| "allowed_outcomes Comment_Pending_Confirmation = []"

definition outcome_event :: "string \<Rightarrow> string" where
  "outcome_event outcome =
     (if outcome = ''approve'' then ''comment_approved'' else if outcome = ''reject'' then ''comment_rejected''
      else if outcome = ''spam'' then ''comment_spam'' else if outcome = ''delete'' then ''comment_deleted''
      else ''comment_restored'')"

text \<open>What a moderator asks for.\<close>

record moderation_request =
  md_actor :: string
  md_outcome :: string
  md_reason :: string
  md_human_reason :: "string option"
  md_rule_reference :: "string option"
  md_restriction :: "string option"
  md_source :: string
  md_supersedes :: "string option"

definition set_status :: "time \<Rightarrow> comment_status \<Rightarrow> comment \<Rightarrow> comment" where
  "set_status now next c =
     (if next = Comment_Approved
      then c\<lparr>co_status := next, co_approved_at := Some now,
             co_published_at := Some (case co_published_at c of Some t \<Rightarrow> t | None \<Rightarrow> now)\<rparr>
      else c\<lparr>co_status := next\<rparr>)"

definition notify_step :: "(notify_error, 'a, db) outcome \<Rightarrow> (comment_error, unit, db) outcome" where
  "notify_step r = (case r of (Inl e, s) \<Rightarrow> (Inl (Notification_error e), s) | (Inr _, s) \<Rightarrow> (Inr (), s))"

definition notify_author ::
  "comment_env \<Rightarrow> string option \<Rightarrow> string \<Rightarrow> string \<Rightarrow> string \<Rightarrow> string \<Rightarrow> string \<Rightarrow> db \<Rightarrow> (comment_error, unit, db) outcome" where
  "notify_author env user kind outcome key src_type src_id db =
     (if \<not> truthy_str user then (Inr (), db)
      else notify_step (create_notification (ce_notify env) (or_empty user) kind [(''outcome'', JStr outcome)]
        (Some ''/notifications'') (Some key) (Some src_type) (Some src_id) db))"

definition moderate_comment ::
  "comment_env \<Rightarrow> string \<Rightarrow> moderation_request \<Rightarrow> db \<Rightarrow> (comment_error, moderation_decision, db) outcome" where
  "moderate_comment env comment_id q db =
     (case get_by co_id comment_id (comments db) of
        None \<Rightarrow> (Inl (Moderation_error ''Comment not found.''), db)
      | Some c \<Rightarrow>
          if md_outcome q \<notin> set COMMENT_OUTCOMES
          then (Inl (Moderation_error ''Unsupported comment decision.''), db)
          else if md_outcome q \<notin> set (allowed_outcomes (co_status c))
          then (Inl (Moderation_error ''The comment has already changed or this transition is not allowed.''), db)
          else (case validate_reason (md_reason q) (md_human_reason q) (md_restriction q) of
              Inl e \<Rightarrow> (Inl e, db)
            | Inr (text, restriction) \<Rightarrow>
                (let P = (\<lambda>r. co_id r = comment_id \<and> co_status r = co_status c);
                     db1 = db\<lparr>comments := update_where P (set_status (ce_now env) (next_status (md_outcome q))) (comments db)\<rparr> in
                 if rowcount P (comments db) \<noteq> 1
                 then (Inl (Moderation_error ''The comment changed concurrently; reload and retry.''), db1)
                 else and_then (new_decision env \<lparr>dq_target_type = ''comment'', dq_target_id = comment_id,
                      dq_actor = Some (md_actor q), dq_outcome = md_outcome q, dq_reason = md_reason q,
                      dq_human_reason = text, dq_rule_reference = md_rule_reference q,
                      dq_restriction = restriction, dq_source = md_source q,
                      dq_supersedes = md_supersedes q\<rparr> db1) (\<lambda>d db2.
                   (let db3 = audit (ce_cfg env) (ce_now env) (outcome_event (md_outcome q)) ''success''
                          (Some (md_actor q)) (Some comment_id) (''decision='' @ mo_id d @ '';reason='' @ md_reason q) db2 in
                    and_then (notify_author env (co_author_user_id c) ''comment.moderation_decision'' (md_outcome q)
                        (''decision:'' @ mo_id d) ''comment'' comment_id db3) (\<lambda>_ db4.
                    and_then (if md_outcome q \<in> {''approve'', ''restore''}
                        then fed_step (enqueue_comment_activity (ce_fed env) comment_id ''Create'' (mo_id d) db4)
                        else if md_outcome q = ''delete'' \<and> co_author_user_id c \<noteq> None
                           \<and> co_remote_actor_id c = None \<and> co_remote_object_uri c \<noteq> None
                        then fed_step (enqueue_comment_activity (ce_fed env) comment_id ''Delete'' (mo_id d) db4)
                        else (Inr (), db4)) (\<lambda>_ db5. (Inr d, db5))))))))"

section \<open>Decisions on revisions\<close>

definition moderate_revision ::
  "comment_env \<Rightarrow> string \<Rightarrow> moderation_request \<Rightarrow> db \<Rightarrow> (comment_error, moderation_decision, db) outcome" where
  "moderate_revision env revision_id q db =
     (case get_by cr_id revision_id (comment_revisions db) of
        None \<Rightarrow> (Inl (Moderation_error ''The revision is no longer awaiting review.''), db)
      | Some r \<Rightarrow>
          if cr_status r \<noteq> Revision_Pending
          then (Inl (Moderation_error ''The revision is no longer awaiting review.''), db)
          else (case get_by co_id (cr_comment_id r) (comments db) of
              None \<Rightarrow> (Inl (Moderation_error ''The published comment is no longer available for revision review.''), db)
            | Some c \<Rightarrow>
                if co_status c \<noteq> Comment_Approved
                then (Inl (Moderation_error ''The published comment is no longer available for revision review.''), db)
                else
                 (let approve = (md_outcome q = ''approve'');
                      restriction = (if md_outcome q = ''reject'' then ''edit_rejected'' else ''none'') in
                  case validate_reason (md_reason q) (md_human_reason q) (Some restriction) of
                    Inl e \<Rightarrow> (Inl e, db)
                  | Inr (text, _) \<Rightarrow>
                      (let P = (\<lambda>x. cr_id x = revision_id \<and> cr_status x = Revision_Pending);
                           db1 = db\<lparr>comment_revisions := update_where P
                             (\<lambda>x. x\<lparr>cr_status := (if approve then Revision_Approved else Revision_Rejected),
                                cr_pending_key := None\<rparr>) (comment_revisions db)\<rparr>;
                           db2 = (if approve then apply_body (ce_now env) (co_id c) (cr_body r) db1 else db1) in
                       if rowcount P (comment_revisions db) \<noteq> 1
                       then (Inl (Moderation_error ''The revision changed concurrently; reload and retry.''), db1)
                       else and_then (new_decision env \<lparr>dq_target_type = ''revision'', dq_target_id = revision_id,
                            dq_actor = Some (md_actor q), dq_outcome = md_outcome q, dq_reason = md_reason q,
                            dq_human_reason = text, dq_rule_reference = md_rule_reference q,
                            dq_restriction = (if approve then ''none'' else ''edit_rejected''),
                            dq_source = md_source q, dq_supersedes = None\<rparr> db2) (\<lambda>d db3.
                         (let db4 = audit (ce_cfg env) (ce_now env)
                                (if approve then ''comment_revision_approved'' else ''comment_revision_rejected'') ''success''
                                (Some (md_actor q)) (Some revision_id)
                                (''decision='' @ mo_id d @ '';comment='' @ co_id c @ '';reason='' @ md_reason q) db3 in
                          and_then (notify_author env (co_author_user_id c) ''comment.revision_decision'' (md_outcome q)
                              (''decision:'' @ mo_id d) ''comment'' (co_id c) db4) (\<lambda>_ db5.
                          and_then (if approve \<and> co_author_user_id c \<noteq> None \<and> truthy_str (co_remote_object_uri c)
                              then fed_step (enqueue_comment_activity (ce_fed env) (co_id c) ''Update'' revision_id db5)
                              else (Inr (), db5)) (\<lambda>_ db6. (Inr d, db6)))))))))"

section \<open>Appeals\<close>

definition MAX_APPEAL_LENGTH :: nat where "MAX_APPEAL_LENGTH = 5000"

definition decision_comment :: "moderation_decision \<Rightarrow> db \<Rightarrow> (comment \<times> comment_revision option) option" where
  "decision_comment d db =
     (if mo_target_type d = ''comment''
      then map_option (\<lambda>c. (c, None)) (get_by co_id (mo_target_id d) (comments db))
      else if mo_target_type d = ''revision''
      then (case get_by cr_id (mo_target_id d) (comment_revisions db) of
          None \<Rightarrow> None
        | Some r \<Rightarrow> map_option (\<lambda>c. (c, Some r)) (get_by co_id (cr_comment_id r) (comments db)))
      else None)"

definition submit_comment_appeal ::
  "comment_env \<Rightarrow> string \<Rightarrow> string \<Rightarrow> string \<Rightarrow> int \<Rightarrow> db \<Rightarrow> (comment_error, moderation_appeal, db) outcome" where
  "submit_comment_appeal env decision_id user statement window_days db =
     (let refuse = (\<lambda>m. (Inl (Moderation_error m), db)) in
      case get_by mo_id decision_id (moderation_decisions db) of
        None \<Rightarrow> refuse ''Appealable decision not found.''
      | Some d \<Rightarrow>
          if mo_outcome d \<notin> {''reject'', ''spam'', ''delete''} then refuse ''This decision cannot be appealed.''
          else if exists_where (\<lambda>x. mo_supersedes_decision_id x = Some decision_id) (moderation_decisions db)
          then refuse ''This decision has already been replaced.''
          else (case decision_comment d db of
              None \<Rightarrow> refuse ''The appealed comment is no longer available.''
            | Some (c, r) \<Rightarrow>
                (let text = strip statement in
                 if co_author_user_id c \<noteq> Some user then refuse ''Only the registered author may appeal this decision.''
                 else if ce_now env > mo_created_at d + days (min 90 (max 1 window_days))
                 then refuse ''The appeal period has expired.''
                 else if mo_target_type d = ''revision''
                    \<and> (case r of None \<Rightarrow> True | Some x \<Rightarrow> cr_editor_user_id x \<noteq> Some user)
                 then refuse ''Only the author of this revision may appeal its decision.''
                 else if text = [] \<or> length text > MAX_APPEAL_LENGTH
                 then refuse ''An appeal statement is required (maximum 5,000 characters).''
                 else if exists_where (\<lambda>a. ma_decision_id a = decision_id) (moderation_appeals db)
                 then refuse ''An appeal for this decision has already been submitted.''
                 else
                  (let a = \<lparr>ma_id = ce_id env, ma_decision_id = decision_id, ma_appellant_user_id = Some user,
                       ma_statement = text, ma_created_at = ce_now env, ma_state = ''pending'',
                       ma_reviewer_user_id = None, ma_reviewed_at = None, ma_outcome = None,
                       ma_reviewer_reason = None, ma_replacement_decision_id = None,
                       ma_self_review_exception = False\<rparr>
                   in (Inr a, audit (ce_cfg env) (ce_now env) ''comment_appeal_submitted'' ''success'' (Some user)
                        (Some (ce_id env)) (''decision='' @ decision_id @ '';comment='' @ co_id c @ '';revision=''
                           @ (case r of None \<Rightarrow> [] | Some x \<Rightarrow> cr_id x))
                        (db\<lparr>moderation_appeals := add_row a (moderation_appeals db)\<rparr>))))))"

text \<open>The reviewers other than the author of the decision, when the caller does not say.\<close>

definition other_reviewers :: "moderation_decision \<Rightarrow> bool option \<Rightarrow> db \<Rightarrow> bool" where
  "other_reviewers d available db = (case available of
     Some b \<Rightarrow> b
   | None \<Rightarrow> exists_where (\<lambda>u. u_is_active u
       \<and> u_role u \<in> {Role_Admin, Role_Editor, Role_Moderator} \<and> Some (u_id u) \<noteq> mo_actor_user_id d) (users db))"

definition own_decision :: "moderation_decision \<Rightarrow> string \<Rightarrow> bool" where
  "own_decision d reviewer \<longleftrightarrow> truthy_str (mo_actor_user_id d) \<and> mo_actor_user_id d = Some reviewer"

definition restore_decision :: "moderation_decision \<Rightarrow> string \<Rightarrow> string \<Rightarrow> string \<Rightarrow> decision_request" where
  "restore_decision d target reviewer reason = \<lparr>dq_target_type = mo_target_type d, dq_target_id = target,
     dq_actor = Some reviewer, dq_outcome = ''restore'', dq_reason = mo_reason_code d, dq_human_reason = Some reason,
     dq_rule_reference = None, dq_restriction = ''none'', dq_source = ''human'', dq_supersedes = Some (mo_id d)\<rparr>"

text \<open>The effect of an appeal that is granted, with the decision that replaces the old one.\<close>

definition overturn ::
  "comment_env \<Rightarrow> moderation_decision \<Rightarrow> string \<Rightarrow> string \<Rightarrow> db \<Rightarrow> (comment_error, moderation_decision, db) outcome" where
  "overturn env d reviewer reason db =
     (if mo_target_type d = ''revision'' then
        (case decision_comment d db of
           Some (c, Some r) \<Rightarrow>
             new_decision env (restore_decision d (cr_id r) reviewer reason)
               (apply_body (ce_now env) (co_id c) (cr_body r)
                 (put_revision (cr_id r) (\<lambda>x. x\<lparr>cr_status := Revision_Approved, cr_pending_key := None\<rparr>) db))
         | _ \<Rightarrow> (Inl (Moderation_error ''The appealed revision is unavailable.''), db))
      else
        (case decision_comment d db of
           None \<Rightarrow> (Inl (Moderation_error ''The appealed comment is no longer available.''), db)
         | Some (c, _) \<Rightarrow>
             if co_status c \<notin> {Comment_Rejected, Comment_Spam, Comment_Deleted}
             then (Inl (Moderation_error ''The comment state changed before the appeal was reviewed.''), db)
             else
              (let P = (\<lambda>x. co_id x = co_id c \<and> co_status x = co_status c);
                   db1 = db\<lparr>comments := update_where P (set_status (ce_now env) Comment_Approved) (comments db)\<rparr> in
               if rowcount P (comments db) \<noteq> 1
               then (Inl (Moderation_error ''The comment changed concurrently; reload and retry.''), db1)
               else new_decision env ((restore_decision d (co_id c) reviewer reason)\<lparr>dq_target_type := ''comment''\<rparr>) db1)))"

definition close_appeal ::
  "comment_env \<Rightarrow> string \<Rightarrow> string \<Rightarrow> string \<Rightarrow> string option \<Rightarrow> bool \<Rightarrow> moderation_appeal \<Rightarrow> moderation_appeal" where
  "close_appeal env outcome reviewer reason replacement self a =
     a\<lparr>ma_state := outcome, ma_reviewer_user_id := Some reviewer, ma_reviewed_at := Some (ce_now env),
       ma_outcome := Some outcome, ma_reviewer_reason := Some reason,
       ma_replacement_decision_id := replacement, ma_self_review_exception := self\<rparr>"

definition review_comment_appeal ::
  "comment_env \<Rightarrow> string \<Rightarrow> string \<Rightarrow> string \<Rightarrow> string \<Rightarrow> bool option \<Rightarrow> db
   \<Rightarrow> (comment_error, moderation_appeal, db) outcome" where
  "review_comment_appeal env appeal_id reviewer outcome reviewer_reason available db =
     (let refuse = (\<lambda>m. (Inl (Moderation_error m), db)); reason = strip reviewer_reason in
      case get_by ma_id appeal_id (moderation_appeals db) of
        None \<Rightarrow> refuse ''The appeal is no longer pending review.''
      | Some a \<Rightarrow>
          if ma_state a \<noteq> ''pending'' then refuse ''The appeal is no longer pending review.''
          else if reason = [] \<or> length reason > MAX_REASON_LENGTH
          then refuse ''A review reason is required (maximum 2,000 characters).''
          else (case get_by mo_id (ma_decision_id a) (moderation_decisions db) of
              None \<Rightarrow> refuse ''The original decision is unavailable.''
            | Some d \<Rightarrow>
                (let others = other_reviewers d available db; self = own_decision d reviewer \<and> \<not> others in
                 if own_decision d reviewer \<and> others then refuse ''A different moderator must review this appeal.''
                 else and_then (if outcome = ''overturned''
                       then and_then (overturn env d reviewer reason db) (\<lambda>x s. (Inr (Some (mo_id x)), s))
                       else (Inr None, db)) (\<lambda>replacement db1.
                   (let P = (\<lambda>x. ma_id x = appeal_id \<and> ma_state x = ''pending'');
                        f = close_appeal env outcome reviewer reason replacement self;
                        db2 = db1\<lparr>moderation_appeals := update_where P f (moderation_appeals db1)\<rparr> in
                    if rowcount P (moderation_appeals db1) \<noteq> 1
                    then (Inl (Moderation_error ''The appeal changed concurrently; reload and retry.''), db2)
                    else
                     (let db3 = audit (ce_cfg env) (ce_now env) ''comment_appeal_reviewed'' ''success'' (Some reviewer)
                          (Some appeal_id) (''decision='' @ mo_id d @ '';outcome='' @ outcome @ '';replacement=''
                             @ or_empty replacement @ '';self_review='' @ (if self then ''True'' else ''False'')) db2
                      in and_then (notify_author env (ma_appellant_user_id a) ''comment.appeal_reviewed'' outcome
                           (''appeal:'' @ appeal_id @ '':reviewed'') ''appeal'' appeal_id db3)
                         (\<lambda>_ db4. (Inr (f a), db4))))))))"

text \<open>The decisions of a target, oldest first.\<close>

definition decisions_for_target :: "string \<Rightarrow> string list \<Rightarrow> db \<Rightarrow> moderation_decision list" where
  "decisions_for_target kind ids db = sort_key (\<lambda>d. (mo_created_at d, mo_id d))
     (filter (\<lambda>d. mo_target_type d = kind \<and> mo_target_id d \<in> set ids) (moderation_decisions db))"

section \<open>What the calls of other components leave alone\<close>

text \<open>The part of a comment its life cycle is about.\<close>

definition stage :: "comment \<Rightarrow> string \<times> comment_status \<times> bool \<times> bool" where
  "stage c = (co_id c, co_status c, co_confirmation_token_hash c \<noteq> None, co_published_at c \<noteq> None)"

definition unstaged :: "db \<Rightarrow> db \<Rightarrow> bool" where
  "unstaged db db' \<longleftrightarrow> map stage (comments db') = map stage (comments db)
     \<and> moderation_decisions db' = moderation_decisions db"

lemma unstaged_refl [simp]: "unstaged db db"
  by (simp add: unstaged_def)

lemma unstaged_trans: "\<lbrakk> unstaged a b; unstaged b c \<rbrakk> \<Longrightarrow> unstaged a c"
  by (simp add: unstaged_def)

lemma quietI: "\<lbrakk> comments db' = comments db; moderation_decisions db' = moderation_decisions db \<rbrakk> \<Longrightarrow> unstaged db db'"
  by (simp add: unstaged_def)

lemma unstaged_audit [simp]: "unstaged db (audit cfg now et oc ai ti dt db)"
  by (rule quietI) simp_all

lemma unstaged_audit_right [simp]: "unstaged db (audit cfg now et oc ai ti dt db') \<longleftrightarrow> unstaged db db'"
  by (simp add: unstaged_def)

lemma stage_update:
  "(\<And>c. P c \<Longrightarrow> stage (f c) = stage c) \<Longrightarrow> map stage (update_where P f cs) = map stage cs"
  by (simp add: update_where_def)

lemma enqueue_activity_frame:
  "comments (snd (enqueue_activity env actor kind obj st si rv rs public db)) = comments db"
  "moderation_decisions (snd (enqueue_activity env actor kind obj st si rv rs public db)) = moderation_decisions db"
  using enqueue_activity_cases [of env actor kind obj st si rv rs public db]
  by (auto simp: add_deliveries_eq Let_def)

lemma snd_some_activity [simp]: "snd (some_activity r) = snd r"
  by (cases r; cases "fst r") (auto simp: some_activity_def)

lemma enqueue_post_frame:
  "comments (snd (enqueue_post_activity env i kind rv db)) = comments db"
  "moderation_decisions (snd (enqueue_post_activity env i kind rv db)) = moderation_decisions db"
  by (simp_all add: enqueue_post_activity_def enqueue_activity_frame Let_def split: list.split prod.split sum.split)

lemma post_activity_unstaged: "post_activity env i db = (r, db') \<Longrightarrow> unstaged db db'"
  using enqueue_post_frame [of env i "''Create''" None db]
  by (auto simp: post_activity_def split: option.splits intro: quietI)

lemma snd_and_then: "snd (and_then m f) = (case m of (Inl e, s) \<Rightarrow> s | (Inr a, s) \<Rightarrow> snd (f a s))"
  by (cases m; cases "fst m") auto

lemma uri_update_stage:
  "map stage (update_where (\<lambda>r. co_id r = i) (\<lambda>r. r\<lparr>co_remote_object_uri := u\<rparr>) cs) = map stage cs"
  by (rule stage_update) (simp add: stage_def)

lemma enqueue_comment_unstaged: "unstaged db (snd (enqueue_comment_activity env i kind rv db))"
proof (cases "\<not> federation_is_enabled (fv_settings env) \<or> comment_rows i kind db = []")
  case True
  then show ?thesis by (auto simp: enqueue_comment_activity_def)
next
  case False
  obtain c p a rest where rows: "comment_rows i kind db = (c, p, a) # rest"
    using False by (cases "comment_rows i kind db") auto
  obtain made db1 where made: "post_activity env (po_id p) db = (made, db1)" by force
  have q1: "unstaged db db1" using made by (rule post_activity_unstaged)
  show ?thesis
    using False q1 unstaged_trans [OF q1]
    by (auto simp: enqueue_comment_activity_def rows made snd_and_then Let_def unstaged_def enqueue_activity_frame
        uri_update_stage split: sum.splits option.splits)
qed

lemma snd_fed_step [simp]: "snd (fed_step r) = snd r"
  by (auto simp: fed_step_def split: prod.splits sum.splits)

lemma snd_notify_step [simp]: "snd (notify_step r) = snd r"
  by (auto simp: notify_step_def split: prod.splits sum.splits)

lemma enqueue_mail_frame:
  "comments (snd (enqueue_mail e now s own i k r db)) = comments db"
  "moderation_decisions (snd (enqueue_mail e now s own i k r db)) = moderation_decisions db"
  by (simp_all add: enqueue_mail_def insert_entry_def Let_def split: sum.split option.split)

lemma notification_mail_frame:
  "comments (notification_mail env t ev addr db) = comments db"
  "moderation_decisions (notification_mail env t ev addr db) = moderation_decisions db"
  unfolding notification_mail_def
  by (auto split: option.split prod.split sum.split) (metis enqueue_mail_frame snd_conv)+

lemma add_mail_frame:
  "comments (add_mail env d user ev db) = comments db"
  "moderation_decisions (add_mail env d user ev db) = moderation_decisions db"
  by (simp_all add: add_mail_def notification_mail_frame split: option.split)

lemma create_notification_unstaged: "unstaged db (snd (create_notification env user kind payload path key st si db))"
  unfolding create_notification_def Let_def
  by (auto simp: unstaged_def add_mail_frame add_pushes_def split: sum.split)

lemma notify_author_unstaged: "unstaged db (snd (notify_author env user kind oc key st si db))"
  by (simp add: notify_author_def create_notification_unstaged)

section \<open>The life cycle of a comment\<close>

text \<open>
  The abstract machine: confirmation by a guest, and the decisions a moderator or an
  appeal may take. The remote deletion of a comment is an operation of the inbox.
\<close>

inductive lifecycle :: "comment_status \<Rightarrow> comment_status \<Rightarrow> bool" where
  confirm: "next \<in> {Comment_Pending_Moderation, Comment_Approved} \<Longrightarrow> lifecycle Comment_Pending_Confirmation next"
| decide: "oc \<in> set (allowed_outcomes s) \<Longrightarrow> lifecycle s (next_status oc)"

code_pred lifecycle .

inductive_cases lifecycleE: "lifecycle s t"

lemma next_status_pending: "next_status oc \<noteq> Comment_Pending_Confirmation" "next_status oc \<noteq> Comment_Pending_Moderation"
  by (simp_all add: next_status_def)

lemma lifecycle_never_unconfirmed: "\<not> lifecycle s Comment_Pending_Confirmation"
proof
  assume "lifecycle s Comment_Pending_Confirmation"
  then show False by cases (simp_all add: next_status_def split: if_splits)
qed

text \<open>A decision that publishes the comment \<open>i\<close>.\<close>

definition publishes :: "string \<Rightarrow> moderation_decision \<Rightarrow> bool" where
  "publishes i d \<longleftrightarrow> mo_target_type d = ''comment'' \<and> mo_target_id d = i \<and> mo_outcome d \<in> {''approve'', ''restore''}"

text \<open>What one operation, adding the decisions \<open>ds\<close>, may do to a comment.\<close>

definition comment_step :: "moderation_decision list \<Rightarrow> comment \<Rightarrow> comment \<Rightarrow> bool" where
  "comment_step ds c c' \<longleftrightarrow> co_id c' = co_id c
     \<and> (co_status c' = co_status c
          \<and> ((co_confirmation_token_hash c' = None \<longleftrightarrow> co_confirmation_token_hash c = None)
               \<or> co_status c = Comment_Pending_Confirmation \<and> co_confirmation_token_hash c' \<noteq> None)
          \<and> (co_published_at c \<noteq> None \<longrightarrow> co_published_at c' \<noteq> None)
        \<or> lifecycle (co_status c) (co_status c')
          \<and> (co_confirmation_token_hash c' \<noteq> None
               \<longrightarrow> co_confirmation_token_hash c \<noteq> None \<and> co_status c \<noteq> Comment_Pending_Confirmation)
          \<and> (co_status c' = Comment_Approved
               \<longrightarrow> co_published_at c' \<noteq> None \<and> list_ex (publishes (co_id c)) ds))"

text \<open>A comment as it is created.\<close>

definition comment_born :: "moderation_decision list \<Rightarrow> comment \<Rightarrow> bool" where
  "comment_born ds c \<longleftrightarrow> (co_status c = Comment_Pending_Confirmation \<longleftrightarrow> co_confirmation_token_hash c \<noteq> None)
     \<and> co_status c \<notin> {Comment_Rejected, Comment_Deleted}
     \<and> (co_status c = Comment_Approved \<longrightarrow> co_published_at c \<noteq> None \<and> list_ex (publishes (co_id c)) ds)"

definition comments_evolve :: "db \<Rightarrow> db \<Rightarrow> bool" where
  "comments_evolve db db' \<longleftrightarrow> (\<exists>ds old new. moderation_decisions db' = moderation_decisions db @ ds
     \<and> comments db' = old @ new \<and> list_all2 (comment_step ds) (comments db) old \<and> list_all (comment_born ds) new)"

lemma stage_comment_step: "stage c' = stage c \<Longrightarrow> comment_step ds c c'"
  by (auto simp: stage_def comment_step_def)

lemma comment_step_stage: "\<lbrakk> comment_step ds c c'; stage c'' = stage c' \<rbrakk> \<Longrightarrow> comment_step ds c c''"
  by (auto simp: stage_def comment_step_def)

lemma comment_born_stage: "\<lbrakk> comment_born ds c; stage c' = stage c \<rbrakk> \<Longrightarrow> comment_born ds c'"
  by (auto simp: stage_def comment_born_def)

lemma steps_stage:
  "\<lbrakk> list_all2 (comment_step ds) cs xs; map stage ys = map stage xs \<rbrakk> \<Longrightarrow> list_all2 (comment_step ds) cs ys"
proof (induction arbitrary: ys rule: list_all2_induct)
  case Nil
  then show ?case by simp
next
  case (Cons c cs x xs)
  then obtain y ys' where "ys = y # ys'" "stage y = stage x" "map stage ys' = map stage xs" by auto
  then show ?case using Cons comment_step_stage [of ds c x y] by simp
qed

lemma born_stage: "\<lbrakk> list_all (comment_born ds) xs; map stage ys = map stage xs \<rbrakk> \<Longrightarrow> list_all (comment_born ds) ys"
  by (auto simp: list_all_length list_eq_iff_nth_eq intro: comment_born_stage)

lemma comment_steps_refl: "map stage cs' = map stage cs \<Longrightarrow> list_all2 (comment_step ds) cs cs'"
  by (auto simp: list_all2_conv_all_nth list_eq_iff_nth_eq intro: stage_comment_step)

lemma comments_evolve_unstaged: "unstaged db db' \<Longrightarrow> comments_evolve db db'"
  unfolding comments_evolve_def unstaged_def
  by (intro exI [of _ "[]"] exI [of _ "comments db'"]) (simp add: comment_steps_refl)

text \<open>An update of some rows, a list of decisions, and calls that change nothing else.\<close>

lemma comments_evolve_update:
  assumes "map stage (comments db') = map stage (update_where P f (comments db))"
    and "moderation_decisions db' = moderation_decisions db @ ds"
    and "\<And>c. P c \<Longrightarrow> comment_step ds c (f c)"
  shows "comments_evolve db db'"
proof -
  have "comment_step ds c (if P c then f c else c)" for c using assms(3) by (simp add: stage_comment_step)
  then have "list_all2 (comment_step ds) (comments db) (update_where P f (comments db))"
    by (simp add: update_where_def list_all2_map2 list_all2_refl)
  then have "list_all2 (comment_step ds) (comments db) (comments db')"
    using assms(1) by (rule steps_stage)
  then show ?thesis
    unfolding comments_evolve_def using assms(2) by (intro exI [of _ ds] exI [of _ "comments db'"] exI [of _ "[]"]) simp
qed

lemma comments_evolve_add:
  assumes "map stage (comments db') = map stage (comments db @ [c])"
    and "moderation_decisions db' = moderation_decisions db @ ds" and "comment_born ds c"
  shows "comments_evolve db db'"
proof -
  let ?n = "length (comments db)"
  have "map stage (take ?n (comments db')) = map stage (comments db)"
    "map stage (drop ?n (comments db')) = map stage [c]"
    using assms(1) by (simp_all add: take_map [symmetric] drop_map [symmetric])
  then show ?thesis
    unfolding comments_evolve_def
    using assms(2,3) comment_steps_refl [of "take ?n (comments db')" "comments db" ds]
      born_stage [of ds "[c]" "drop ?n (comments db')"]
    by (intro exI [of _ ds] exI [of _ "take ?n (comments db')"] exI [of _ "drop ?n (comments db')"]) simp
qed

section \<open>The operations evolve the comments\<close>

lemma new_decision_success:
  "new_decision env q db = (Inr d, db') \<Longrightarrow>
   db' = db\<lparr>moderation_decisions := moderation_decisions db @ [d]\<rparr> \<and> mo_target_type d = dq_target_type q
   \<and> mo_target_id d = dq_target_id q \<and> mo_outcome d = dq_outcome q"
  by (auto simp: new_decision_def Let_def add_row_def split: if_splits)

lemma automatic_success:
  "ignore_result (record_automatic_decision env i oc code db) = (Inr u, db') \<Longrightarrow>
   \<exists>d. db' = db\<lparr>moderation_decisions := moderation_decisions db @ [d]\<rparr> \<and> mo_target_type d = ''comment''
     \<and> mo_target_id d = i \<and> mo_outcome d = oc"
  by (auto simp: ignore_result_def record_automatic_decision_def and_then_Inr dest!: new_decision_success
      split: if_splits)

lemma initial_status_published:
  "co_published_at (new_comment env p policy q db) = (if co_status (new_comment env p policy q db) = Comment_Approved
     then Some (ce_now env) else None)"
  by (simp add: new_comment_def Let_def)

lemma publication_state_range: "publication_state policy a n \<in> {Comment_Approved, Comment_Pending_Moderation}"
  by (simp add: publication_state_def Let_def)

lemma new_comment_status:
  "co_status (new_comment env p policy q db) = initial_status policy q db"
  "co_id (new_comment env p policy q db) = ce_id env"
  "co_confirmation_token_hash (new_comment env p policy q db) \<noteq> None \<longleftrightarrow> needs_confirmation policy q"
  by (simp_all add: new_comment_def Let_def)

lemma initial_status_cases:
  "initial_status policy q db \<notin> {Comment_Rejected, Comment_Deleted}"
  "initial_status policy q db = Comment_Pending_Confirmation \<longleftrightarrow> needs_confirmation policy q"
  using publication_state_range [of policy "rq_author_user q" "approved_count db (map_option u_id (rq_author_user q))"]
  by (auto simp: initial_status_def needs_confirmation_def)

lemma unstaged_fed_step: "fed_step (enqueue_comment_activity e i k rv db) = (Inr u, db') \<Longrightarrow> unstaged db db'"
  using enqueue_comment_unstaged [of db e i k rv] by (metis snd_conv snd_fed_step)

lemma unstaged_notify: "notify_author env user kind oc key st si db = (r, db') \<Longrightarrow> unstaged db db'"
  using notify_author_unstaged [of db env user kind oc key st si] by simp

lemma unstaged_write_audit [simp]: "unstaged db (write_audit_event cfg now et oc ip ai an ti ua dt ses db)"
  by (rule quietI) simp_all

lemma unstaged_audited:
  "(if b then audit cfg now et oc ai ti dt x else x) = y \<Longrightarrow> unstaged db x \<Longrightarrow> unstaged db y"
  by auto

lemma unstaged_fed_if: "(if b then fed_step (enqueue_comment_activity e i k rv db) else (Inr (), db)) = (Inr u, db') \<Longrightarrow> unstaged db db'"
  by (auto split: if_splits intro: unstaged_fed_step)

lemma decision_step:
  assumes "(if s = Comment_Approved then ignore_result (record_automatic_decision env i ''approve'' ''automated_policy'' db)
      else if s = Comment_Spam then ignore_result (record_automatic_decision env i ''spam'' ''spam'' db)
      else (Inr (), db)) = (Inr u, db')"
  shows "\<exists>ds. moderation_decisions db' = moderation_decisions db @ ds \<and> comments db' = comments db
      \<and> (s = Comment_Approved \<longrightarrow> list_ex (publishes i) ds)"
proof -
  consider (approved) "s = Comment_Approved" | (spam) "s = Comment_Spam" | (none) "s \<notin> {Comment_Approved, Comment_Spam}"
    by blast
  then show ?thesis
  proof cases
    case approved
    then have "ignore_result (record_automatic_decision env i ''approve'' ''automated_policy'' db) = (Inr u, db')"
      using assms by simp
    then show ?thesis using automatic_success by (fastforce simp: publishes_def)
  next
    case spam
    then have "ignore_result (record_automatic_decision env i ''spam'' ''spam'' db) = (Inr u, db')"
      using assms by simp
    then show ?thesis using automatic_success spam by fastforce
  next
    case none
    then show ?thesis using assms by (intro exI [of _ "[]"]) simp
  qed
qed

lemma create_comment_evolves:
  assumes "create_comment env p policy q db = (Inr r, db')"
  shows "comments_evolve db db'"
proof -
  let ?c = "new_comment env p policy q db"
  let ?db1 = "db\<lparr>comments := add_row ?c (comments db)\<rparr>"
  obtain u db2 v db3 where
    fed: "(if co_status ?c = Comment_Approved \<and> rq_author_user q \<noteq> None \<and> rq_remote_actor q = None
       then fed_step (enqueue_comment_activity (ce_fed env) (co_id ?c) ''Create'' ''1'' ?db1) else (Inr (), ?db1)) = (Inr u, db2)"
    and dec: "(if co_status ?c = Comment_Approved
      then ignore_result (record_automatic_decision env (co_id ?c) ''approve'' ''automated_policy'' db2)
      else if co_status ?c = Comment_Spam then ignore_result (record_automatic_decision env (co_id ?c) ''spam'' ''spam'' db2)
      else (Inr (), db2)) = (Inr v, db3)"
    and audited: "unstaged db3 db'"
  proof -
    have "request_error p policy q db = None"
      using assms by (simp add: create_comment_def split: option.splits)
    then have err: "request_error p policy q db = None" .
    from assms show ?thesis
      unfolding create_comment_def err option.case Let_def and_then_Inr prod.inject
      by (elim exE conjE) (rule that, assumption, assumption, erule unstaged_audited, simp)
  qed
  have q2: "unstaged ?db1 db2" using fed by (rule unstaged_fed_if)
  obtain ds where ds: "moderation_decisions db3 = moderation_decisions db2 @ ds" "comments db3 = comments db2"
      "co_status ?c = Comment_Approved \<longrightarrow> list_ex (publishes (co_id ?c)) ds"
    using decision_step [OF dec] by blast
  show ?thesis
  proof (rule comments_evolve_add)
    show "map stage (comments db') = map stage (comments db @ [?c])"
      using audited q2 ds(2) by (simp add: unstaged_def add_row_def)
    show "moderation_decisions db' = moderation_decisions db @ ds"
      using audited q2 ds(1) by (simp add: unstaged_def)
    show "comment_born ds ?c"
      using ds(3) initial_status_cases [of policy q db] new_comment_status [of env p policy q db]
        initial_status_published [of env p policy q db]
      by (auto simp: comment_born_def)
  qed
qed

lemma confirm_evolves:
  assumes "confirm_guest_comment env token settings db = (Inr r, db')"
  shows "comments_evolve db db'"
proof -
  obtain c p where c: "first_where (confirmable (ce_hash env token) (ce_now env)) (comments db) = Some c"
      "get_by po_id (co_post_id c) (posts db) = Some p"
      "\<not> (token = [] \<or> length token > 128 \<or> \<not> ascii token)"
    using assms by (auto simp: confirm_guest_comment_def Let_def split: if_splits option.splits)
  let ?nx = "publication_state (resolve_comment_policy (Some p) settings) None 0"
  let ?P = "\<lambda>r. co_id r = co_id c \<and> confirmable (ce_hash env token) (ce_now env) r"
  let ?db1 = "db\<lparr>comments := update_where ?P (confirm_update (ce_now env) ?nx) (comments db)\<rparr>"
  have one: "rowcount ?P (comments db) = 1"
    using assms c by (auto simp: confirm_guest_comment_def Let_def split: if_splits)
  obtain u db2 where
    dec: "(if ?nx = Comment_Approved
        then ignore_result (record_automatic_decision env (co_id c) ''approve'' ''automated_policy'' ?db1)
        else (Inr (), ?db1)) = (Inr u, db2)" and audited: "unstaged db2 db'"
  proof -
    have "\<not> rowcount ?P (comments db) \<noteq> 1" using one by simp
    from assms show ?thesis
      unfolding confirm_guest_comment_def Let_def c(1,2) option.case if_not_P [OF c(3)] if_not_P [OF \<open>\<not> rowcount ?P (comments db) \<noteq> 1\<close>]
        and_then_Inr prod.inject
      by (elim exE conjE) (rule that, assumption, erule unstaged_audited, simp)
  qed
  have range: "?nx \<in> {Comment_Pending_Moderation, Comment_Approved}"
    using publication_state_range [of "resolve_comment_policy (Some p) settings" None 0] by blast
  then have "(if ?nx = Comment_Approved then ignore_result (record_automatic_decision env (co_id c) ''approve'' ''automated_policy'' ?db1)
      else if ?nx = Comment_Spam then ignore_result (record_automatic_decision env (co_id c) ''spam'' ''spam'' ?db1)
      else (Inr (), ?db1)) = (Inr u, db2)"
    using dec by auto
  from decision_step [OF this]
  obtain ds where ds: "moderation_decisions db2 = moderation_decisions ?db1 @ ds" "comments db2 = comments ?db1"
      "?nx = Comment_Approved \<longrightarrow> list_ex (publishes (co_id c)) ds" by blast
  show ?thesis
  proof (rule comments_evolve_update)
    show "map stage (comments db') = map stage (update_where ?P (confirm_update (ce_now env) ?nx) (comments db))"
      using audited ds(2) by (simp add: unstaged_def)
    show "moderation_decisions db' = moderation_decisions db @ ds"
      using audited ds(1) by (simp add: unstaged_def)
    show "comment_step ds r (confirm_update (ce_now env) ?nx r)" if "?P r" for r
      using that ds(3) range lifecycle.confirm [OF range]
      by (auto simp: comment_step_def confirm_update_def confirmable_def Let_def)
  qed
qed

lemma allowed_not_pending: "oc \<in> set (allowed_outcomes s) \<Longrightarrow> s \<noteq> Comment_Pending_Confirmation"
  by (cases s) auto

lemma allowed_publishes:
  "\<lbrakk> oc \<in> set (allowed_outcomes s); next_status oc = Comment_Approved \<rbrakk> \<Longrightarrow> oc \<in> {''approve'', ''restore''}"
  by (cases s) (auto simp: next_status_def split: if_splits)

lemma set_status_step:
  assumes "oc \<in> set (allowed_outcomes (co_status c))"
    and "next_status oc = Comment_Approved \<Longrightarrow> list_ex (publishes (co_id c)) ds"
  shows "comment_step ds c (set_status now (next_status oc) c)"
  using assms lifecycle.decide [OF assms(1)] allowed_not_pending [OF assms(1)]
  by (auto simp: comment_step_def set_status_def)

text \<open>A decision was recorded, and everything after it left the comments as they were.\<close>

lemma moderate_comment_success:
  assumes "moderate_comment env i q db = (Inr d, db')"
  shows "\<exists>c. get_by co_id i (comments db) = Some c \<and> md_outcome q \<in> set (allowed_outcomes (co_status c))
    \<and> map stage (comments db') = map stage (update_where (\<lambda>r. co_id r = i \<and> co_status r = co_status c)
         (set_status (ce_now env) (next_status (md_outcome q))) (comments db))
    \<and> moderation_decisions db' = moderation_decisions db @ [d]
    \<and> mo_target_type d = ''comment'' \<and> mo_target_id d = i \<and> mo_outcome d = md_outcome q"
proof -
  obtain c hr restriction where c: "get_by co_id i (comments db) = Some c"
      "\<not> md_outcome q \<notin> set COMMENT_OUTCOMES" "\<not> md_outcome q \<notin> set (allowed_outcomes (co_status c))"
      "validate_reason (md_reason q) (md_human_reason q) (md_restriction q) = Inr (hr, restriction)"
    using assms by (auto simp: moderate_comment_def split: option.splits if_splits sum.splits)
  let ?P = "\<lambda>r. co_id r = i \<and> co_status r = co_status c"
  let ?db1 = "db\<lparr>comments := update_where ?P (set_status (ce_now env) (next_status (md_outcome q))) (comments db)\<rparr>"
  have one: "\<not> rowcount ?P (comments db) \<noteq> 1"
    using assms c by (auto simp: moderate_comment_def Let_def split: if_splits)
  obtain x s2 u s3 v s4 where
    dec: "new_decision env \<lparr>dq_target_type = ''comment'', dq_target_id = i,
                      dq_actor = Some (md_actor q), dq_outcome = md_outcome q, dq_reason = md_reason q,
                      dq_human_reason = hr, dq_rule_reference = md_rule_reference q,
                      dq_restriction = restriction, dq_source = md_source q,
                      dq_supersedes = md_supersedes q\<rparr> ?db1 = (Inr x, s2)" and
    note_sent: "notify_author env (co_author_user_id c) ''comment.moderation_decision'' (md_outcome q)
        (''decision:'' @ mo_id x) ''comment'' i (audit (ce_cfg env) (ce_now env) (outcome_event (md_outcome q)) ''success''
           (Some (md_actor q)) (Some i) (''decision='' @ mo_id x @ '';reason='' @ md_reason q) s2) = (Inr u, s3)" and
    fed: "(if md_outcome q \<in> {''approve'', ''restore''}
            then fed_step (enqueue_comment_activity (ce_fed env) i ''Create'' (mo_id x) s3)
            else if md_outcome q = ''delete'' \<and> co_author_user_id c \<noteq> None
               \<and> co_remote_actor_id c = None \<and> co_remote_object_uri c \<noteq> None
            then fed_step (enqueue_comment_activity (ce_fed env) i ''Delete'' (mo_id x) s3)
            else (Inr (), s3)) = (Inr v, s4)" and
    res: "d = x" "db' = s4"
  proof -
    from assms show ?thesis
      unfolding moderate_comment_def Let_def c(1,4) option.case sum.case prod.case if_not_P [OF c(2)] if_not_P [OF c(3)]
        if_not_P [OF one] and_then_Inr prod.inject sum.inject
      by (elim exE conjE) (rule that, assumption, assumption, assumption, simp, simp)
  qed
  have q3: "unstaged s2 s3" using unstaged_notify [OF note_sent] by (simp add: unstaged_def)
  have q4: "unstaged s3 s4"
    using fed by (auto split: if_splits intro: unstaged_fed_step)
  show ?thesis
    using new_decision_success [OF dec] unstaged_trans [OF q3 q4] c res by (auto simp: unstaged_def)
qed

lemma moderate_comment_evolves:
  assumes "moderate_comment env i q db = (Inr d, db')"
  shows "comments_evolve db db'"
proof -
  obtain c :: comment where c: "md_outcome q \<in> set (allowed_outcomes (co_status c))"
      "map stage (comments db') = map stage (update_where (\<lambda>r. co_id r = i \<and> co_status r = co_status c)
         (set_status (ce_now env) (next_status (md_outcome q))) (comments db))"
      "moderation_decisions db' = moderation_decisions db @ [d]"
      "mo_target_type d = ''comment''" "mo_target_id d = i" "mo_outcome d = md_outcome q"
    using moderate_comment_success [OF assms] by blast
  show ?thesis
    using c(2,3)
  proof (rule comments_evolve_update)
    fix r :: comment assume r: "co_id r = i \<and> co_status r = co_status c"
    show "comment_step [d] r (set_status (ce_now env) (next_status (md_outcome q)) r)"
    proof (rule set_status_step)
      show "md_outcome q \<in> set (allowed_outcomes (co_status r))" using c(1) r by simp
      assume "next_status (md_outcome q) = Comment_Approved"
      then show "list_ex (publishes (co_id r)) [d]"
        using allowed_publishes [OF c(1)] c r by (simp add: publishes_def)
    qed
  qed
qed

lemma unstaged_apply_body: "unstaged db (apply_body now i body db)"
  by (auto simp: unstaged_def apply_body_def put_comment_def stage_def intro!: stage_update)

lemma overturn_evolves:
  assumes "overturn env d reviewer reason db = (Inr x, db')"
  shows "comments_evolve db db'"
proof (cases "mo_target_type d = ''revision''")
  case True
  then obtain c r where c: "decision_comment d db = Some (c, Some r)"
    using assms by (auto simp: overturn_def split: option.splits)
  have "unstaged db (apply_body (ce_now env) (co_id c) (cr_body r)
     (put_revision (cr_id r) (\<lambda>x. x\<lparr>cr_status := Revision_Approved, cr_pending_key := None\<rparr>) db))"
    using unstaged_apply_body by (auto simp: unstaged_def put_revision_def)
  moreover have "moderation_decisions db' = moderation_decisions db @ [x]"
    "comments db' = comments (apply_body (ce_now env) (co_id c) (cr_body r) db)"
    using assms True c new_decision_success
    by (auto simp: overturn_def apply_body_def put_revision_def put_comment_def dest!: new_decision_success)
  ultimately show ?thesis
    using unstaged_apply_body [of db "ce_now env" "co_id c" "cr_body r"]
    by (intro comments_evolve_update [where ds = "[x]" and P = "\<lambda>_. False" and f = "\<lambda>c. c"])
      (simp_all add: unstaged_def update_where_def)
next
  case False
  then obtain c y where c: "decision_comment d db = Some (c, y)" "co_status c \<in> {Comment_Rejected, Comment_Spam, Comment_Deleted}"
      "mo_target_type d = ''comment''"
    using assms by (auto simp: overturn_def decision_comment_def split: option.splits if_splits)
  let ?P = "\<lambda>x. co_id x = co_id c \<and> co_status x = co_status c"
  let ?db1 = "db\<lparr>comments := update_where ?P (set_status (ce_now env) Comment_Approved) (comments db)\<rparr>"
  have dec: "new_decision env ((restore_decision d (co_id c) reviewer reason)\<lparr>dq_target_type := ''comment''\<rparr>) ?db1 = (Inr x, db')"
    using assms False c by (auto simp: overturn_def Let_def split: if_splits)
  show ?thesis
  proof (rule comments_evolve_update)
    show "map stage (comments db') = map stage (update_where ?P (set_status (ce_now env) Comment_Approved) (comments db))"
      "moderation_decisions db' = moderation_decisions db @ [x]"
      using new_decision_success [OF dec] by simp_all
    fix r :: comment assume r: "?P r"
    have "''restore'' \<in> set (allowed_outcomes (co_status r))" using c(2) r by auto
    moreover have "list_ex (publishes (co_id r)) [x]"
      using new_decision_success [OF dec] r by (simp add: publishes_def restore_decision_def)
    ultimately have "comment_step [x] r (set_status (ce_now env) (next_status ''restore'') r)"
      by (intro set_status_step)
    then show "comment_step [x] r (set_status (ce_now env) Comment_Approved r)" by (simp add: next_status_def)
  qed
qed

lemma comments_evolve_unstaged_right: "\<lbrakk> comments_evolve db db1; unstaged db1 db2 \<rbrakk> \<Longrightarrow> comments_evolve db db2"
proof -
  assume "comments_evolve db db1" and q: "unstaged db1 db2"
  then obtain ds old new where e: "moderation_decisions db1 = moderation_decisions db @ ds"
      "comments db1 = old @ new" "list_all2 (comment_step ds) (comments db) old" "list_all (comment_born ds) new"
    by (auto simp: comments_evolve_def)
  let ?n = "length old"
  have len: "map stage (take ?n (comments db2)) = map stage old" "map stage (drop ?n (comments db2)) = map stage new"
    using q e(2) by (simp_all add: unstaged_def take_map [symmetric] drop_map [symmetric])
  show ?thesis
    unfolding comments_evolve_def
    using q e(1) steps_stage [OF e(3) len(1)] born_stage [OF e(4) len(2)]
    by (intro exI [of _ ds] exI [of _ "take ?n (comments db2)"] exI [of _ "drop ?n (comments db2)"]) (simp add: unstaged_def)
qed

lemma review_appeal_evolves:
  assumes "review_comment_appeal env i reviewer oc reason available db = (Inr a, db')"
  shows "comments_evolve db db'"
proof -
  obtain ap d where d: "get_by ma_id i (moderation_appeals db) = Some ap" "\<not> ma_state ap \<noteq> ''pending''"
      "\<not> (strip reason = [] \<or> length (strip reason) > MAX_REASON_LENGTH)"
      "get_by mo_id (ma_decision_id ap) (moderation_decisions db) = Some d"
      "\<not> (own_decision d reviewer \<and> other_reviewers d available db)"
    using assms by (auto simp: review_comment_appeal_def Let_def split: option.splits if_splits)
  obtain x db1 where
    over: "(if oc = ''overturned'' then and_then (overturn env d reviewer (strip reason) db) (\<lambda>x s. (Inr (Some (mo_id x)), s))
        else (Inr None, db)) = (Inr x, db1)" and rest: "unstaged db1 db'"
  proof -
    obtain x db1 where x: "(if oc = ''overturned'' then and_then (overturn env d reviewer (strip reason) db) (\<lambda>x s. (Inr (Some (mo_id x)), s))
        else (Inr None, db)) = (Inr x, db1)"
      using assms d by (auto simp: review_comment_appeal_def Let_def and_then_Inr)
    have "unstaged db1 db'"
      using assms x unfolding review_comment_appeal_def Let_def d(1,4) option.case if_not_P [OF d(2)] if_not_P [OF d(3)]
        if_not_P [OF d(5)]
      by (auto simp: and_then_Inr unstaged_def dest!: unstaged_notify split: if_splits)
    then show ?thesis using that x by blast
  qed
  have "comments_evolve db db1"
    using over by (auto simp: and_then_Inr intro: overturn_evolves comments_evolve_unstaged split: if_splits)
  then show ?thesis using rest by (rule comments_evolve_unstaged_right)
qed

end
