(* ===== verification/Comment_Runs.thy ===== *)
theory Comment_Runs
  imports Moderation
begin

text \<open>
  Runs of the comment operations, one transaction after the other: what \<open>comments/\<close> keeps
  true of the comments, their decisions, votes and appeals, whatever the order of requests.
\<close>

section \<open>Runs\<close>

text \<open>The calls of the routes, each with its environment.\<close>

datatype comment_op =
    Op_Create comment_env post comment_policy comment_request
  | Op_Confirm comment_env string dict
  | Op_Resend comment_env comment int int
  | Op_Revise comment_env string user string comment_policy bool
  | Op_Remote_Revise comment_env comment string string comment_policy
  | Op_Review_Revision comment_env string bool
  | Op_Vote comment_env "string option" string int
  | Op_Moderate comment_env string moderation_request
  | Op_Moderate_Revision comment_env string moderation_request
  | Op_Appeal comment_env string string string int
  | Op_Review_Appeal comment_env string string string string "bool option"

text \<open>A request that raises is rolled back.\<close>

definition commit :: "('e, 'a, db) outcome \<Rightarrow> db \<Rightarrow> db" where
  "commit r db = (case r of (Inl _, _) \<Rightarrow> db | (Inr _, db') \<Rightarrow> db')"

fun perform :: "comment_op \<Rightarrow> db \<Rightarrow> db" where
  "perform (Op_Create env p policy q) db = commit (create_comment env p policy q db) db"
| "perform (Op_Confirm env token settings) db = commit (confirm_guest_comment env token settings db) db"
| "perform (Op_Resend env c ttl interval) db = commit (issue_guest_confirmation env c ttl interval db) db"
| "perform (Op_Revise env i actor body policy moderator) db =
     commit (create_comment_revision env i actor body policy moderator db) db"
| "perform (Op_Remote_Revise env c actor body policy) db =
     commit (create_remote_comment_revision env c actor body policy db) db"
| "perform (Op_Review_Revision env i approve) db = commit (review_comment_revision env i approve db) db"
| "perform (Op_Vote env user i val) db = commit (cast_comment_vote env user i val db) db"
| "perform (Op_Moderate env i q) db = commit (moderate_comment env i q db) db"
| "perform (Op_Moderate_Revision env i q) db = commit (moderate_revision env i q db) db"
| "perform (Op_Appeal env i user statement window) db = commit (submit_comment_appeal env i user statement window db) db"
| "perform (Op_Review_Appeal env i reviewer oc reason available) db =
     commit (review_comment_appeal env i reviewer oc reason available db) db"

abbreviation run :: "comment_op list \<Rightarrow> db \<Rightarrow> db" where
  "run ops db \<equiv> fold perform ops db"

lemma commit_induct: "\<lbrakk> P db; \<And>a db'. r = (Inr a, db') \<Longrightarrow> P db' \<rbrakk> \<Longrightarrow> P (commit r db)"
  by (cases r; cases "fst r") (auto simp: commit_def)

section \<open>Every operation comments_evolve the comments\<close>

lemma comments_evolve_same:
  "\<lbrakk> map stage (comments db') = map stage (comments db); moderation_decisions db' = moderation_decisions db @ ds \<rbrakk>
   \<Longrightarrow> comments_evolve db db'"
  by (rule comments_evolve_update [where P = "\<lambda>_. False" and f = "\<lambda>c. c" and ds = ds]) (simp_all add: update_where_none)

lemma resend_evolves:
  assumes "issue_guest_confirmation env c ttl interval db = (Inr r, db')"
  shows "comments_evolve db db'"
proof -
  let ?P = "\<lambda>r. co_id r = co_id c \<and> co_status r = Comment_Pending_Confirmation
      \<and> co_confirmation_token_hash r = co_confirmation_token_hash c
      \<and> co_confirmation_sent_at r = co_confirmation_sent_at c"
  let ?f = "\<lambda>r. r\<lparr>co_confirmation_token_hash := Some (ce_hash env (ce_token env)),
      co_confirmation_expires_at := Some (ce_now env + hours (min 168 (max 1 ttl))),
      co_confirmation_sent_at := Some (ce_now env)\<rparr>"
  have "comments db' = update_where ?P ?f (comments db)" "moderation_decisions db' = moderation_decisions db @ []"
    using assms by (auto simp: issue_guest_confirmation_def Let_def split: if_splits)
  then show ?thesis
    by (intro comments_evolve_update [where P = ?P and f = ?f and ds = "[]"]) (simp_all add: comment_step_def)
qed

lemma revise_unstaged: "unstaged db (snd (create_comment_revision env i actor body policy moderator db))"
  using unstaged_apply_body by (auto simp: create_comment_revision_def Let_def unstaged_def split: option.split)

lemma remote_revise_unstaged: "unstaged db (snd (create_remote_comment_revision env c actor body policy db))"
  by (auto simp: create_remote_comment_revision_def Let_def unstaged_def)

lemma review_revision_unstaged: "unstaged db (snd (review_comment_revision env i approve db))"
  using unstaged_apply_body
  by (auto simp: review_comment_revision_def Let_def unstaged_def put_revision_def split: option.split)

lemma vote_unstaged: "unstaged db (snd (cast_comment_vote env user i val db))"
  by (auto simp: cast_comment_vote_def audit_vote_def Let_def unstaged_def split: option.split)

lemma appeal_unstaged: "unstaged db (snd (submit_comment_appeal env i user statement window db))"
  by (auto simp: submit_comment_appeal_def Let_def unstaged_def split: option.split)

lemma moderate_revision_evolves:
  assumes "moderate_revision env i q db = (Inr d, db')"
  shows "comments_evolve db db'"
proof -
  obtain r c hr restriction where c: "get_by cr_id i (comment_revisions db) = Some r" "\<not> cr_status r \<noteq> Revision_Pending"
      "get_by co_id (cr_comment_id r) (comments db) = Some c" "\<not> co_status c \<noteq> Comment_Approved"
      "validate_reason (md_reason q) (md_human_reason q)
         (Some (if md_outcome q = ''reject'' then ''edit_rejected'' else ''none'')) = Inr (hr, restriction)"
    using assms by (auto simp: moderate_revision_def Let_def split: option.splits if_splits sum.splits)
  let ?approve = "md_outcome q = ''approve''"
  let ?P = "\<lambda>x. cr_id x = i \<and> cr_status x = Revision_Pending"
  let ?db1 = "db\<lparr>comment_revisions := update_where ?P
      (\<lambda>x. x\<lparr>cr_status := (if ?approve then Revision_Approved else Revision_Rejected), cr_pending_key := None\<rparr>)
      (comment_revisions db)\<rparr>"
  let ?db2 = "if ?approve then apply_body (ce_now env) (co_id c) (cr_body r) ?db1 else ?db1"
  have one: "\<not> rowcount ?P (comment_revisions db) \<noteq> 1"
    using assms c by (auto simp: moderate_revision_def Let_def split: if_splits)
  have q2: "unstaged db ?db2" using unstaged_apply_body by (auto simp: unstaged_def)
  obtain dq x s3 where dec: "new_decision env dq ?db2 = (Inr x, s3)" and q3: "unstaged s3 db'"
  proof -
    from assms show ?thesis
      unfolding moderate_revision_def Let_def c(1,3,5) option.case sum.case prod.case if_not_P [OF c(2)] if_not_P [OF c(4)]
        if_not_P [OF one] and_then_Inr prod.inject sum.inject
      by (elim exE conjE) (rule that, assumption, drule unstaged_notify, drule unstaged_fed_if, simp add: unstaged_def)
  qed
  show ?thesis
    using q2 q3 new_decision_success [OF dec]
    by (intro comments_evolve_same [where ds = "[x]"]) (simp_all add: unstaged_def)
qed

lemma comments_evolve_commit: "(\<And>a db'. r = (Inr a, db') \<Longrightarrow> comments_evolve db db') \<Longrightarrow> comments_evolve db (commit r db)"
  by (rule commit_induct) (simp_all add: comments_evolve_unstaged)

lemma unstaged_commit: "unstaged db (snd r) \<Longrightarrow> comments_evolve db (commit r db)"
  by (rule comments_evolve_commit) (simp add: comments_evolve_unstaged)

lemma perform_evolves: "comments_evolve db (perform op db)"
proof (cases op)
  case (Op_Create env p policy q)
  then show ?thesis by (simp only: perform.simps) (rule comments_evolve_commit, rule create_comment_evolves)
next
  case (Op_Confirm env token settings)
  then show ?thesis by (simp only: perform.simps) (rule comments_evolve_commit, rule confirm_evolves)
next
  case (Op_Resend env c ttl interval)
  then show ?thesis by (simp only: perform.simps) (rule comments_evolve_commit, rule resend_evolves)
next
  case (Op_Moderate env i q)
  then show ?thesis by (simp only: perform.simps) (rule comments_evolve_commit, rule moderate_comment_evolves)
next
  case (Op_Moderate_Revision env i q)
  then show ?thesis by (simp only: perform.simps) (rule comments_evolve_commit, rule moderate_revision_evolves)
next
  case (Op_Review_Appeal env i reviewer oc reason available)
  then show ?thesis by (simp only: perform.simps) (rule comments_evolve_commit, rule review_appeal_evolves)
qed (simp_all add: unstaged_commit revise_unstaged remote_revise_unstaged review_revision_unstaged vote_unstaged appeal_unstaged)

section \<open>What a run keeps of the comments\<close>

definition comment_ok :: "moderation_decision list \<Rightarrow> comment \<Rightarrow> bool" where
  "comment_ok ds c \<longleftrightarrow> (co_status c = Comment_Pending_Confirmation \<longleftrightarrow> co_confirmation_token_hash c \<noteq> None)
     \<and> (co_status c = Comment_Approved \<longrightarrow> co_published_at c \<noteq> None \<and> list_ex (publishes (co_id c)) ds)"

definition comments_ok :: "db \<Rightarrow> bool" where
  "comments_ok db \<longleftrightarrow> list_all (comment_ok (moderation_decisions db)) (comments db)"

lemma comment_step_ok: "\<lbrakk> comment_ok ds c; comment_step ds' c c' \<rbrakk> \<Longrightarrow> comment_ok (ds @ ds') c'"
  using lifecycle_never_unconfirmed [of "co_status c"]
  by (auto simp: comment_ok_def comment_step_def)

lemma comment_born_ok: "comment_born ds' c \<Longrightarrow> comment_ok (ds @ ds') c"
  by (auto simp: comment_ok_def comment_born_def)

lemma steps_ok: "\<lbrakk> list_all2 (comment_step ds') cs cs'; list_all (comment_ok ds) cs \<rbrakk> \<Longrightarrow> list_all (comment_ok (ds @ ds')) cs'"
  by (induction rule: list_all2_induct) (auto intro: comment_step_ok)

lemma comments_evolve_ok:
  assumes "comments_evolve db db'" and "comments_ok db"
  shows "comments_ok db'"
proof -
  obtain ds old new where e: "moderation_decisions db' = moderation_decisions db @ ds" "comments db' = old @ new"
      "list_all2 (comment_step ds) (comments db) old" "list_all (comment_born ds) new"
    using assms(1) by (auto simp: comments_evolve_def)
  have "list_all (comment_ok (moderation_decisions db @ ds)) new"
    using e(4) by (rule list.pred_mono_strong) (rule comment_born_ok)
  then show ?thesis using steps_ok [OF e(3)] assms(2) by (simp add: comments_ok_def e(1,2))
qed

text \<open>One operation takes at most one step of the abstract machine on each comment.\<close>

definition tracked :: "db \<Rightarrow> db \<Rightarrow> bool" where
  "tracked db db' \<longleftrightarrow> length (comments db) \<le> length (comments db')
     \<and> list_all2 (\<lambda>c c'. co_id c' = co_id c \<and> lifecycle\<^sup>*\<^sup>* (co_status c) (co_status c'))
         (comments db) (take (length (comments db)) (comments db'))"

lemma comments_evolve_tracked: "comments_evolve db db' \<Longrightarrow> tracked db db'"
proof -
  assume "comments_evolve db db'"
  then obtain ds old new where e: "comments db' = old @ new" "list_all2 (comment_step ds) (comments db) old"
    by (auto simp: comments_evolve_def)
  then show ?thesis
    using list_all2_lengthD [OF e(2)]
    by (auto simp: tracked_def comment_step_def elim!: list_all2_mono)
qed

lemma tracked_trans: "\<lbrakk> tracked a b; tracked b c \<rbrakk> \<Longrightarrow> tracked a c"
  by (auto simp: tracked_def list_all2_conv_all_nth) (metis order_less_le_trans rtranclp_trans)+

section \<open>Links of guests\<close>

text \<open>A request with the token of a confirmation link, at some time, rolled back when it is refused.\<close>

fun confirm_try :: "comment_env \<times> string \<times> dict \<Rightarrow> time \<Rightarrow> db \<Rightarrow> bool \<times> db" where
  "confirm_try (env, token, settings) now db =
     (case confirm_guest_comment (env\<lparr>ce_now := now\<rparr>) token settings db of
        (Inl _, _) \<Rightarrow> (False, db)
      | (Inr _, db') \<Rightarrow> (True, db'))"

fun link_digest :: "comment_env \<times> string \<times> dict \<Rightarrow> string" where
  "link_digest (env, token, settings) = ce_hash env token"

definition link_waits :: "string \<Rightarrow> time \<Rightarrow> db \<Rightarrow> bool" where
  "link_waits dig now db \<longleftrightarrow>
     exists_where (\<lambda>c. confirmable dig now c \<and> get_by po_id (co_post_id c) (posts db) \<noteq> None) (comments db)"

fun link_live :: "comment_env \<times> string \<times> dict \<Rightarrow> time \<Rightarrow> db \<Rightarrow> bool" where
  "link_live (env, token, settings) now db \<longleftrightarrow>
     \<not> (token = [] \<or> length token > 128 \<or> \<not> ascii token) \<and> link_waits (ce_hash env token) now db"

text \<open>Comments have their identifiers and, while they wait, their links for themselves.\<close>

definition links_ok :: "db \<Rightarrow> bool" where
  "links_ok db \<longleftrightarrow> unique_key co_id (comments db)
     \<and> (\<forall>c \<in> set (comments db). \<forall>c' \<in> set (comments db).
          co_confirmation_token_hash c \<noteq> None \<and> co_confirmation_token_hash c' = co_confirmation_token_hash c \<longrightarrow> c' = c)"

lemma links_same:
  "\<lbrakk> links_ok db; c \<in> set (comments db); c' \<in> set (comments db); confirmable dig t c; confirmable dig t' c' \<rbrakk> \<Longrightarrow> c' = c"
  by (auto simp: links_ok_def confirmable_def)

lemma no_reference: "or_none (strip (or_empty None)) = None"
  by code_simp

lemma automatic_approval: "ignore_result (record_automatic_decision env i ''approve'' ''automated_policy'' db) =
   (Inr (), snd (record_automatic_decision env i ''approve'' ''automated_policy'' db))"
  using no_reference
  by (simp add: ignore_result_def record_automatic_decision_def new_decision_def REASON_CATALOG_def RESTRICTIONS_def
      MAX_REASON_LENGTH_def Let_def)

lemma automatic_frame [simp]:
  "comments (snd (record_automatic_decision env i oc code db)) = comments db"
  "posts (snd (record_automatic_decision env i oc code db)) = posts db"
  by (simp_all add: record_automatic_decision_def new_decision_def Let_def)

text \<open>A link that waits is accepted, and its comment leaves the queue.\<close>

lemma confirm_accepts:
  assumes ok: "links_ok db" and c: "c \<in> set (comments db)" "confirmable (ce_hash env token) (ce_now env) c"
    and p: "get_by po_id (co_post_id c) (posts db) = Some p"
    and tok: "\<not> (token = [] \<or> length token > 128 \<or> \<not> ascii token)"
  shows "\<exists>nx db'. confirm_guest_comment env token settings db = (Inr (co_id c), db') \<and> posts db' = posts db
    \<and> comments db' = update_where (\<lambda>r. co_id r = co_id c \<and> confirmable (ce_hash env token) (ce_now env) r)
        (confirm_update (ce_now env) nx) (comments db)"
proof -
  let ?P = "\<lambda>r. co_id r = co_id c \<and> confirmable (ce_hash env token) (ce_now env) r"
  have "first_where (confirmable (ce_hash env token) (ce_now env)) (comments db) \<noteq> None"
    using c by (auto simp: first_where_None)
  then have first: "first_where (confirmable (ce_hash env token) (ce_now env)) (comments db) = Some c"
    using first_where_SomeD links_same [OF ok c(1) _ c(2)] by fastforce
  have "rowcount ?P (comments db) = 1"
    using ok c by (auto simp: links_ok_def rowcount_key get_by_unique)
  then have one: "\<not> rowcount ?P (comments db) \<noteq> 1" by simp
  show ?thesis
    unfolding confirm_guest_comment_def Let_def if_not_P [OF tok] first option.case p if_not_P [OF one]
    by (intro exI [of _ "publication_state (resolve_comment_policy (Some p) settings) None 0"]) (simp add: automatic_approval)
qed

lemma confirm_success:
  assumes "confirm_guest_comment env token settings db = (Inr r, db')"
  shows "\<not> (token = [] \<or> length token > 128 \<or> \<not> ascii token) \<and> link_waits (ce_hash env token) (ce_now env) db"
proof -
  obtain c where c: "first_where (confirmable (ce_hash env token) (ce_now env)) (comments db) = Some c"
      "get_by po_id (co_post_id c) (posts db) \<noteq> None" "\<not> (token = [] \<or> length token > 128 \<or> \<not> ascii token)"
    using assms by (auto simp: confirm_guest_comment_def Let_def split: if_splits option.splits)
  then show ?thesis using first_where_SomeD [OF c(1)] by (auto simp: link_waits_def exists_where_iff)
qed

lemma confirm_try_dead: "\<not> link_live k now db \<Longrightarrow> confirm_try k now db = (False, db)"
proof -
  obtain env token settings where k: "k = (env, token, settings)" by (cases k) auto
  assume "\<not> link_live k now db"
  then show ?thesis
    using confirm_success [of "env\<lparr>ce_now := now\<rparr>" token settings db] by (auto simp: k split: prod.splits sum.splits)
qed

lemma confirm_try_live:
  assumes "links_ok db" and "link_live k now db"
  obtains c nx where "c \<in> set (comments db)" "confirmable (link_digest k) now c"
    "fst (confirm_try k now db)" "posts (snd (confirm_try k now db)) = posts db"
    "comments (snd (confirm_try k now db)) = update_where (\<lambda>r. co_id r = co_id c \<and> confirmable (link_digest k) now r)
       (confirm_update now nx) (comments db)"
proof -
  obtain env token settings where k: "k = (env, token, settings)" by (cases k) auto
  obtain c p where c: "c \<in> set (comments db)" "confirmable (ce_hash env token) now c"
      "get_by po_id (co_post_id c) (posts db) = Some p" "\<not> (token = [] \<or> length token > 128 \<or> \<not> ascii token)"
    using assms(2) by (auto simp: k link_waits_def exists_where_iff)
  obtain nx db' where "confirm_guest_comment (env\<lparr>ce_now := now\<rparr>) token settings db = (Inr (co_id c), db')"
      "posts db' = posts db" "comments db' = update_where (\<lambda>r. co_id r = co_id c \<and> confirmable (ce_hash env token) now r)
        (confirm_update now nx) (comments db)"
    using confirm_accepts [OF assms(1) c(1), of "env\<lparr>ce_now := now\<rparr>" token p settings] c by auto
  then show ?thesis using c by (intro that [of c nx]) (simp_all add: k)
qed

lemma confirm_update_inert [simp]:
  "co_id (confirm_update now nx c) = co_id c" "co_confirmation_token_hash (confirm_update now nx c) = None"
  "\<not> confirmable dig t (confirm_update now nx c)"
  by (simp_all add: confirm_update_def confirmable_def Let_def)

lemma link_gone:
  "\<lbrakk> \<And>r. r \<in> set rs \<Longrightarrow> co_confirmation_token_hash r = Some dig \<Longrightarrow> P r;
     \<And>r. co_confirmation_token_hash (f r) \<noteq> Some dig \<rbrakk>
   \<Longrightarrow> \<not> exists_where (\<lambda>c. confirmable dig t c \<and> R c) (update_where P f rs)"
  by (auto simp: exists_where_iff set_update_where confirmable_def)

interpretation links: one_shot confirm_try link_live link_digest links_ok
proof (unfold_locales, goal_cases)
  case (1 db k t)
  then show ?case using confirm_try_dead by (cases "link_live k t db") (auto elim: confirm_try_live)
next
  case (2 db k t)
  show ?case
  proof (cases "link_live k t db")
    case True
    with 2 show ?thesis
      by (rule confirm_try_live) (use 2 in \<open>auto simp: links_ok_def set_update_where unique_key_update_where\<close>)
  qed (simp add: confirm_try_dead 2)
next
  case (3 db k t k' t')
  then have "link_live k t db" using confirm_try_dead [of k t db] by (cases "link_live k t db") simp_all
  with 3(1) obtain c nx where c: "c \<in> set (comments db)" "confirmable (link_digest k) t c"
      "comments (snd (confirm_try k t db)) = update_where (\<lambda>r. co_id r = co_id c \<and> confirmable (link_digest k) t r)
            (confirm_update t nx) (comments db)"
    by (rule confirm_try_live)
  have only: "r = c" if "r \<in> set (comments db)" "co_confirmation_token_hash r = Some (link_digest k)" for r
    using 3(1) c(1,2) that by (auto simp: links_ok_def confirmable_def)
  have "\<not> link_waits (link_digest k) t' (snd (confirm_try k t db))"
    unfolding link_waits_def c(3) by (rule link_gone) (use only c(2) in \<open>auto simp: confirmable_def\<close>)
  then show ?case using 3(3) by (cases k') auto
next
  case (4 db k' t' k t)
  show ?case
  proof (cases "link_live k t db")
    case True
    with 4(1) obtain c :: comment and nx where c: "posts (snd (confirm_try k t db)) = posts db"
        "comments (snd (confirm_try k t db)) = update_where (\<lambda>r. co_id r = co_id c \<and> confirmable (link_digest k) t r)
            (confirm_update t nx) (comments db)"
      by (rule confirm_try_live)
    have "link_waits (link_digest k') t' db" if "link_waits (link_digest k') t' (snd (confirm_try k t db))"
      using that unfolding link_waits_def c by (rule exists_where_update_other [rotated]) simp
    then show ?thesis using 4(2) by (cases k') simp
  qed (use 4(2) confirm_try_dead in simp)
qed

section \<open>Votes as a map\<close>

definition vote_map :: "db \<Rightarrow> string \<times> string \<Rightarrow> int option" where
  "vote_map db k = map_option cv_value (first_where (vote_of (fst k) (snd k)) (comment_votes db))"

lemma first_where_rows:
  "(\<And>r. Q r \<Longrightarrow> P (f r) = P r) \<Longrightarrow> first_where P (update_where Q f rs) = map_option (\<lambda>r. if Q r then f r else r) (first_where P rs)"
  by (induction rs) (auto simp: first_where_def update_where_def)

lemma first_where_delete_other: "(\<And>r. P r \<Longrightarrow> \<not> Q r) \<Longrightarrow> first_where P (delete_where Q rs) = first_where P rs"
  by (induction rs) (auto simp: first_where_def delete_where_def)

lemma first_where_add: "first_where P (add_row r rs) = (case first_where P rs of None \<Rightarrow> if P r then Some r else None | Some x \<Rightarrow> Some x)"
  by (induction rs) (auto simp: first_where_def add_row_def)

lemma vote_of_same: "vote_of u i v \<Longrightarrow> vote_of u' i' v \<longleftrightarrow> u' = u \<and> i' = i"
  by (auto simp: vote_of_def)

lemma vote_removed:
  "vote_map (db\<lparr>comment_votes := delete_where (vote_of u i) (comment_votes db)\<rparr>) = (vote_map db)((u, i) := None)"
proof
  fix k :: "string \<times> string"
  have "first_where (vote_of u i) (delete_where (vote_of u i) (comment_votes db)) = None"
    by (auto simp: first_where_None set_delete_where)
  then show "vote_map (db\<lparr>comment_votes := delete_where (vote_of u i) (comment_votes db)\<rparr>) k = ((vote_map db)((u, i) := None)) k"
    by (cases k) (auto simp: vote_map_def vote_of_same intro!: first_where_delete_other arg_cong [where f = "map_option cv_value"])
qed

lemma vote_changed:
  assumes "exists_where (vote_of u i) (comment_votes db)" and "\<And>v. cv_value (f v) = val"
    and "\<And>v a b. vote_of a b (f v) = vote_of a b v"
  shows "vote_map (db\<lparr>comment_votes := update_where (vote_of u i) f (comment_votes db)\<rparr>) = (vote_map db)((u, i) := Some val)"
proof
  fix k :: "string \<times> string"
  obtain v where "first_where (vote_of u i) (comment_votes db) = Some v" "vote_of u i v"
    using assms(1) first_where_None [of "vote_of u i" "comment_votes db"]
    by (cases "first_where (vote_of u i) (comment_votes db)") (auto simp: exists_where_iff dest: first_where_SomeD)
  then show "vote_map (db\<lparr>comment_votes := update_where (vote_of u i) f (comment_votes db)\<rparr>) k
      = ((vote_map db)((u, i) := Some val)) k"
    using assms(2,3) vote_of_same [of "fst k" "snd k" _ u i]
    by (cases k) (auto simp: vote_map_def first_where_rows map_option_case dest: first_where_SomeD split: option.split)
qed

lemma vote_added:
  assumes "\<not> exists_where (vote_of u i) (comment_votes db)" and "vote_of u i v"
  shows "vote_map (db\<lparr>comment_votes := add_row v (comment_votes db)\<rparr>) = (vote_map db)((u, i) := Some (cv_value v))"
proof
  fix k :: "string \<times> string"
  have "first_where (vote_of u i) (comment_votes db) = None"
    using assms(1) by (auto simp: first_where_None exists_where_iff)
  then show "vote_map (db\<lparr>comment_votes := add_row v (comment_votes db)\<rparr>) k = ((vote_map db)((u, i) := Some (cv_value v))) k"
    using assms(2) vote_of_same [OF assms(2)]
    by (cases k) (auto simp: vote_map_def first_where_add split: option.split)
qed

lemma vote_map_audit [simp]: "vote_map (audit_vote env u i detail db) = vote_map db"
  by (simp add: vote_map_def audit_vote_def fun_eq_iff)

section \<open>Properties\<close>

text \<open>
  C25. The comment operations refine the life cycle: in any sequence of requests, refused
  ones included, every comment keeps its identifier, and its status moves only along
  confirmations and the decisions allowed in the status it has.
\<close>

theorem comments_follow_lifecycle:
  "list_all2 (\<lambda>c c'. co_id c' = co_id c \<and> lifecycle\<^sup>*\<^sup>* (co_status c) (co_status c'))
     (comments db) (take (length (comments db)) (comments (run ops db)))"
proof -
  have "tracked db (run ops db)"
  proof (induction ops arbitrary: db)
    case Nil
    show ?case by (simp add: tracked_def list_all2_refl)
  next
    case (Cons op ops)
    show ?case unfolding fold_Cons comp_apply
      by (rule tracked_trans [OF comments_evolve_tracked [OF perform_evolves] Cons.IH])
  qed
  then show ?thesis by (simp add: tracked_def)
qed

text \<open>
  C26. Nothing is published without a decision: in any sequence of requests, a comment that
  is published has a publication date and a recorded decision that approves or restores
  it, and a comment waits for its guest exactly while it has a confirmation link.
\<close>

theorem published_has_decision:
  assumes "comments_ok db"
  shows "comments_ok (run ops db)"
  using assms by (induction ops arbitrary: db) (auto intro: comments_evolve_ok perform_evolves)

text \<open>
  A new link replaces the old one: after a guest's confirmation is sent again, in any
  sequence of attempts at any time the old link confirms nothing and the new one at most
  one comment, once.
\<close>

theorem resent_link_replaces:
  assumes "links_ok db" "co_confirmation_token_hash c = Some old" "ce_hash env (ce_token env) = new" "old \<noteq> new"
    "new \<notin> (the \<circ> co_confirmation_token_hash) ` set (comments db)"
    "issue_guest_confirmation env c ttl interval db = (Inr token, db')"
  shows "wins link_digest old ats (attempts confirm_try ats db') = 0
    \<and> wins link_digest new ats (attempts confirm_try ats db') \<le> 1"
proof -
  let ?P = "\<lambda>r. co_id r = co_id c \<and> co_status r = Comment_Pending_Confirmation
      \<and> co_confirmation_token_hash r = co_confirmation_token_hash c
      \<and> co_confirmation_sent_at r = co_confirmation_sent_at c"
  let ?f = "\<lambda>r. r\<lparr>co_confirmation_token_hash := Some (ce_hash env (ce_token env)),
      co_confirmation_expires_at := Some (ce_now env + hours (min 168 (max 1 ttl))),
      co_confirmation_sent_at := Some (ce_now env)\<rparr>"
  have db': "comments db' = update_where ?P ?f (comments db)" and one: "rowcount ?P (comments db) = 1"
    using assms(6) by (auto simp: issue_guest_confirmation_def Let_def split: if_splits)
  obtain r where r: "r \<in> set (comments db)" "?P r" using rowcount_one_exists [OF one] by blast
  have only: "x = r" if "x \<in> set (comments db)" "co_confirmation_token_hash x = Some old" for x
    using that r assms(1,2) unfolding links_ok_def by (metis option.distinct(1))
  have fresh: "co_confirmation_token_hash x \<noteq> Some new" if "x \<in> set (comments db)" for x
    using that assms(5) by force
  have origin: "\<exists>x. x \<in> set (comments db) \<and> y = (if x = r then ?f r else x)" if y: "y \<in> set (comments db')" for y
  proof -
    obtain x where x: "x \<in> set (comments db)" "y = (if ?P x then ?f x else x)"
      using y by (auto simp: db' set_update_where)
    have "?P x \<longleftrightarrow> x = r" using only [OF x(1)] r(2) assms(2) by auto
    then show ?thesis using x by (intro exI [of _ x]) simp
  qed
  have "links_ok db'"
    unfolding links_ok_def
  proof (intro conjI ballI impI)
    show "unique_key co_id (comments db')"
      using assms(1) by (simp add: links_ok_def db' unique_key_update_where)
  next
    fix y y' :: comment
    assume y: "y \<in> set (comments db')" "y' \<in> set (comments db')"
      and same: "co_confirmation_token_hash y \<noteq> None \<and> co_confirmation_token_hash y' = co_confirmation_token_hash y"
    obtain x x' where x: "x \<in> set (comments db)" "y = (if x = r then ?f r else x)"
        "x' \<in> set (comments db)" "y' = (if x' = r then ?f r else x')"
      using origin [OF y(1)] origin [OF y(2)] by blast
    show "y' = y"
    proof (cases "x = r \<or> x' = r")
      case True
      then have "x = r \<and> x' = r"
        using x same fresh [OF x(1)] fresh [OF x(3)] assms(3) by (auto split: if_splits)
      then show ?thesis using x by simp
    next
      case False
      then show ?thesis using x same assms(1) by (simp add: links_ok_def)
    qed
  qed
  moreover have "\<not> link_waits old t db'" for t
    unfolding link_waits_def db' by (rule link_gone) (use only r(2) assms(2-4) in auto)
  ultimately show ?thesis
    by (intro conjI links.consumed_at_most_once links.dead_stays_dead) auto
qed

text \<open>
  A vote that is cast is the update of a map: it sets the voter's vote on the comment to
  the value asked for, removes it for zero, and leaves the votes of everyone else alone.
\<close>

theorem vote_updates_map:
  assumes "cast_comment_vote env (Some u) i val db = (Inr res, db')"
  shows "vote_map db' = (vote_map db)((u, i) := res) \<and> res = (if val = 0 then None else Some val)"
proof (cases "val = 0")
  case True
  have "db' = audit_vote env u i ''removed'' (db\<lparr>comment_votes := delete_where (vote_of u i) (comment_votes db)\<rparr>) \<and> res = None"
    using assms True by (auto simp: cast_comment_vote_def Let_def split: option.splits if_splits)
  then show ?thesis using True by (simp add: vote_removed)
next
  case False
  let ?f = "\<lambda>v. v\<lparr>cv_value := val, cv_updated_at := (if cv_value v = val then cv_updated_at v else ce_now env)\<rparr>"
  let ?v = "\<lparr>cv_id = ce_id env, cv_user_id = u, cv_comment_id = i, cv_value = val, cv_created_at = ce_now env,
      cv_updated_at = ce_now env\<rparr>"
  have "db' = audit_vote env u i (''value='' @ str_int val)
      (if exists_where (vote_of u i) (comment_votes db)
       then db\<lparr>comment_votes := update_where (vote_of u i) ?f (comment_votes db)\<rparr>
       else db\<lparr>comment_votes := add_row ?v (comment_votes db)\<rparr>) \<and> res = Some val"
    using assms False by (auto simp: cast_comment_vote_def Let_def split: option.splits if_splits)
  moreover have "vote_of u i ?v" "\<And>v a b. vote_of a b (?f v) = vote_of a b v" by (simp_all add: vote_of_def)
  ultimately show ?thesis using False vote_changed [of u i db ?f val] vote_added [of u i db ?v] by simp
qed

section \<open>Concrete runs\<close>

definition demo_comment_env :: "string \<Rightarrow> time \<Rightarrow> comment_env" where
  "demo_comment_env i t = \<lparr>ce_now = t, ce_cfg = demo_config, ce_id = i, ce_decision_id = i, ce_token = i,
     ce_hash = (\<lambda>s. ''h'' @ s), ce_fed = demo_fed_env\<lparr>fv_settings := []\<rparr>,
     ce_notify = \<lparr>nv_now = t, nv_id = i, nv_delivery_id = (\<lambda>s. s), nv_mail_env = demo_env, nv_mail_settings = [],
       nv_mail_id = i, nv_rendered = None\<rparr>\<rparr>"

definition demo_decide :: "string \<Rightarrow> string \<Rightarrow> comment_op" where
  "demo_decide i oc = Op_Moderate (demo_comment_env i 1) ''c'' \<lparr>md_actor = ''m'', md_outcome = oc,
     md_reason = ''rule_violation'', md_human_reason = None, md_rule_reference = None, md_restriction = None,
     md_source = ''human'', md_supersedes = None\<rparr>"

definition demo_case :: db where
  "demo_case = empty_db\<lparr>users := [demo_user ''u'' Role_Viewer, demo_user ''m'' Role_Moderator, demo_user ''n'' Role_Moderator],
     comments := [(demo_comment ''c'' None 0)\<lparr>co_status := Comment_Pending_Moderation, co_approved_at := None,
       co_published_at := None\<rparr>]\<rparr>"

lemma published_has_decision_witness:
  "comments_ok (run [demo_decide ''d1'' ''approve'', demo_decide ''d2'' ''delete''] demo_case)"
  by (rule published_has_decision) (simp add: comments_ok_def comment_ok_def demo_case_def demo_comment_def)

definition demo_waiting :: comment where
  "demo_waiting = (demo_comment ''c'' None 0)\<lparr>co_status := Comment_Pending_Confirmation,
     co_confirmation_token_hash := Some ''old'', co_confirmation_sent_at := None\<rparr>"

definition demo_tries :: "((comment_env \<times> string \<times> dict) \<times> time) list" where
  "demo_tries = [((demo_comment_env ''x'' 2, ''t'', []), 2), ((demo_comment_env ''x'' 2, ''t'', []), 3)]"

lemma resent_link_replaces_witness:
  "wins link_digest ''old'' demo_tries (attempts confirm_try demo_tries
       (snd (issue_guest_confirmation (demo_comment_env ''t'' 1) demo_waiting 24 60 (empty_db\<lparr>comments := [demo_waiting]\<rparr>)))) = 0
   \<and> wins link_digest ''ht'' demo_tries (attempts confirm_try demo_tries
       (snd (issue_guest_confirmation (demo_comment_env ''t'' 1) demo_waiting 24 60 (empty_db\<lparr>comments := [demo_waiting]\<rparr>)))) \<le> 1"
proof (rule resent_link_replaces)
  show "links_ok (empty_db\<lparr>comments := [demo_waiting]\<rparr>)" by (simp add: links_ok_def unique_key_def)
  show "issue_guest_confirmation (demo_comment_env ''t'' 1) demo_waiting 24 60 (empty_db\<lparr>comments := [demo_waiting]\<rparr>)
      = (Inr ''t'', snd (issue_guest_confirmation (demo_comment_env ''t'' 1) demo_waiting 24 60 (empty_db\<lparr>comments := [demo_waiting]\<rparr>)))"
    by (simp add: demo_waiting_def demo_comment_def demo_comment_env_def issue_guest_confirmation_def Let_def
      rowcount_def)
qed (simp_all add: demo_waiting_def demo_comment_env_def)

definition demo_voting :: db where
  "demo_voting = empty_db\<lparr>users := [demo_user ''v'' Role_Viewer], comments := [demo_comment ''c'' None 0]\<rparr>"

lemma vote_updates_map_witness:
  "vote_map (snd (cast_comment_vote (demo_comment_env ''t'' 1) (Some ''v'') ''c'' 1 demo_voting))
     = (vote_map demo_voting)((''v'', ''c'') := Some 1) \<and> Some 1 = (if (1::int) = 0 then None else Some (1::int))"
  by (rule vote_updates_map [where env = "demo_comment_env ''t'' 1"])
    (simp add: cast_comment_vote_def demo_voting_def demo_user_def demo_comment_def Let_def prod_eq_iff)

text \<open>A moderator decides thrice on a comment, without notes; then its author appeals against the first decision.\<close>

definition demo_record :: "string \<Rightarrow> string \<Rightarrow> moderation_decision" where
  "demo_record i oc = \<lparr>mo_id = i, mo_target_type = ''comment'', mo_target_id = ''c'', mo_actor_user_id = Some ''m'',
     mo_outcome = oc, mo_reason_code = ''rule_violation'', mo_human_reason = None, mo_rule_reference = None,
     mo_restriction_type = ''publication_denied'', mo_decision_source = ''human'', mo_created_at = 1,
     mo_supersedes_decision_id = None\<rparr>"

definition demo_silent :: "string \<Rightarrow> type_preference" where
  "demo_silent kind = \<lparr>tp_id = kind, tp_user_id = ''u'', tp_notification_type = kind, tp_enabled = False,
     tp_live_wss_enabled = False, tp_web_push_enabled = False, tp_email_enabled = False, tp_updated_at = 0\<rparr>"

lemma create_silenced:
  assumes "type_preference_of user kind db = Some t" "\<not> tp_enabled t" "\<not> isl (validate_payload kind payload)"
    "length key \<le> 160"
  shows "create_notification env user kind payload path (Some key) st si db = (Inr (find_dedupe user key db), db)"
  using assms by (auto simp: create_notification_def Let_def split: sum.split)

lemma demo_payloads:
  "list_all (\<lambda>oc. \<not> isl (validate_payload ''comment.moderation_decision'' [(''outcome'', JStr oc)])) [''reject'', ''restore'', ''delete'']"
  "\<not> isl (validate_payload ''comment.appeal_reviewed'' [(''outcome'', JStr ''overturned'')])"
  by code_simp+

lemma demo_env_sel [simp]:
  "ce_now (demo_comment_env i t) = t" "ce_decision_id (demo_comment_env i t) = i" "ce_id (demo_comment_env i t) = i"
  "ce_fed (demo_comment_env i t) = demo_fed_env\<lparr>fv_settings := []\<rparr>"
  by (simp_all add: demo_comment_env_def)

lemma fed_disabled: "fed_step (enqueue_comment_activity (demo_fed_env\<lparr>fv_settings := []\<rparr>) i kind rv db) = (Inr (), db)"
proof -
  have "\<not> federation_is_enabled []" by code_simp
  then show ?thesis by (simp add: enqueue_comment_activity_def fed_step_def)
qed

text \<open>What the steps of the run below need of the state, and what they keep.\<close>

definition demo_ready :: "db \<Rightarrow> bool" where
  "demo_ready db \<longleftrightarrow> type_preference_of ''u'' ''comment.moderation_decision'' db = Some (demo_silent ''comment.moderation_decision'')
     \<and> type_preference_of ''u'' ''comment.appeal_reviewed'' db = Some (demo_silent ''comment.appeal_reviewed'')
     \<and> users db = [demo_user ''u'' Role_Viewer, demo_user ''m'' Role_Moderator, demo_user ''n'' Role_Moderator]"

lemma demo_ready_audit [simp]: "demo_ready (audit cfg now et oc ai ti dt db) = demo_ready db"
  by (simp add: demo_ready_def type_preference_of_def)

lemma demo_ready_update [simp]:
  "demo_ready (db\<lparr>comments := cs\<rparr>) = demo_ready db" "demo_ready (db\<lparr>moderation_decisions := ds\<rparr>) = demo_ready db"
  "demo_ready (db\<lparr>moderation_appeals := as\<rparr>) = demo_ready db"
  by (simp_all add: demo_ready_def type_preference_of_def)

lemma demo_notify:
  assumes "demo_ready db"
    "(kind = ''comment.moderation_decision'' \<and> oc \<in> {''reject'', ''restore'', ''delete''}
      \<or> kind = ''comment.appeal_reviewed'' \<and> oc = ''overturned'') \<and> length key \<le> 160"
  shows "notify_author env (Some ''u'') kind oc key st si db = (Inr (), db)"
  using assms demo_payloads
  by (auto simp: notify_author_def notify_step_def demo_ready_def demo_silent_def create_silenced)

lemma demo_record_sel [simp]: "mo_id (demo_record i oc) = i" "mo_outcome (demo_record i oc) = oc"
  "mo_supersedes_decision_id (demo_record i oc) = None"
  by (simp_all add: demo_record_def)

lemma demo_decide_step:
  assumes "demo_ready db" "comments db = [c]" "co_id c = ''c''" "co_author_user_id c = Some ''u''"
    "co_remote_object_uri c = None" "oc \<in> set (allowed_outcomes (co_status c))" "oc \<in> {''reject'', ''restore'', ''delete''}"
    "length i \<le> 100"
  shows "demo_ready (perform (demo_decide i oc) db)
    \<and> comments (perform (demo_decide i oc) db) = [set_status 1 (next_status oc) c]
    \<and> moderation_decisions (perform (demo_decide i oc) db) = moderation_decisions db @ [demo_record i oc]
    \<and> moderation_appeals (perform (demo_decide i oc) db) = moderation_appeals db"
proof -
  have valid: "validate_reason ''rule_violation'' None None = Inr (None, ''publication_denied'')" by code_simp
  have new: "new_decision (demo_comment_env i 1) \<lparr>dq_target_type = ''comment'', dq_target_id = ''c'', dq_actor = Some ''m'',
      dq_outcome = oc, dq_reason = ''rule_violation'', dq_human_reason = None, dq_rule_reference = None,
      dq_restriction = ''publication_denied'', dq_source = ''human'', dq_supersedes = None\<rparr> db'
      = (Inr (demo_record i oc), db'\<lparr>moderation_decisions := add_row (demo_record i oc) (moderation_decisions db')\<rparr>)" for db'
    using no_reference by (simp add: new_decision_def Let_def RESTRICTIONS_def demo_record_def MAX_REASON_LENGTH_def)
  show ?thesis
    using assms
    by (auto simp: demo_decide_def moderate_comment_def COMMENT_OUTCOMES_def valid new Let_def rowcount_def update_where_def
      demo_notify fed_disabled commit_def add_row_def)
qed

definition demo_appeal :: comment_op where
  "demo_appeal = Op_Appeal (demo_comment_env ''a'' 1) ''d1'' ''u'' ''please'' 14"

definition demo_overturn :: comment_op where
  "demo_overturn = Op_Review_Appeal (demo_comment_env ''d4'' 1) ''a'' ''n'' ''overturned'' ''fair'' None"

definition demo_dispute :: db where
  "demo_dispute = demo_case\<lparr>type_preferences := [demo_silent ''comment.moderation_decision'', demo_silent ''comment.appeal_reviewed'']\<rparr>"

text \<open>
  An appeal that is granted can undo a later decision: a comment is rejected, restored
  and then deleted; the author appeals the rejection, which nothing has superseded since a
  restoration does not say what it replaces, and a reviewer who grants it publishes the
  comment again although the decision to delete it still stands.
\<close>

theorem stale_appeal_republishes:
  "let db = run [demo_decide ''d1'' ''reject'', demo_decide ''d2'' ''restore'', demo_decide ''d3'' ''delete'', demo_appeal,
       demo_overturn] demo_dispute
   in map co_status (comments db) = [Comment_Approved]
      \<and> map (\<lambda>d. (mo_id d, mo_outcome d, mo_supersedes_decision_id d)) (moderation_decisions db)
        = [(''d1'', ''reject'', None), (''d2'', ''restore'', None), (''d3'', ''delete'', None), (''d4'', ''restore'', Some ''d1'')]"
proof -
  let ?c = "(demo_comment ''c'' None 0)\<lparr>co_status := Comment_Pending_Moderation, co_approved_at := None, co_published_at := None\<rparr>"
  define db1 where "db1 = perform (demo_decide ''d1'' ''reject'') demo_dispute"
  define db2 where "db2 = perform (demo_decide ''d2'' ''restore'') db1"
  define db3 where "db3 = perform (demo_decide ''d3'' ''delete'') db2"
  define db4 where "db4 = perform demo_appeal db3"
  define c3 where "c3 = set_status 1 Comment_Deleted (set_status 1 Comment_Approved (set_status 1 Comment_Rejected ?c))"
  have ready: "demo_ready demo_dispute" by (simp add: demo_ready_def demo_dispute_def demo_case_def demo_silent_def
      type_preference_of_def first_where_def)
  have rows: "comments demo_dispute = [?c]" "moderation_decisions demo_dispute = []" "moderation_appeals demo_dispute = []"
    by (simp_all add: demo_dispute_def demo_case_def)
  note own = demo_comment_def set_status_def next_status_def
  have 1: "demo_ready db1" "comments db1 = [set_status 1 Comment_Rejected ?c]"
      "moderation_decisions db1 = [demo_record ''d1'' ''reject'']" "moderation_appeals db1 = []"
    using demo_decide_step [OF ready rows(1), of "''reject''" "''d1''"] rows unfolding db1_def by (simp_all add: own)
  have 2: "demo_ready db2" "comments db2 = [set_status 1 Comment_Approved (set_status 1 Comment_Rejected ?c)]"
      "moderation_decisions db2 = [demo_record ''d1'' ''reject'', demo_record ''d2'' ''restore'']" "moderation_appeals db2 = []"
    using demo_decide_step [OF 1(1,2), of "''restore''" "''d2''"] 1 unfolding db2_def by (simp_all add: own)
  have 3: "demo_ready db3" "comments db3 = [c3]"
      "moderation_decisions db3 = [demo_record ''d1'' ''reject'', demo_record ''d2'' ''restore'', demo_record ''d3'' ''delete'']"
      "moderation_appeals db3 = []"
    using demo_decide_step [OF 2(1,2), of "''delete''" "''d3''"] 2 unfolding db3_def c3_def by (simp_all add: own)
  have c3: "co_id c3 = ''c''" "co_author_user_id c3 = Some ''u''" "co_status c3 = Comment_Deleted"
    by (simp_all add: c3_def own)
  have words: "strip ''please'' = ''please''" "strip ''fair'' = ''fair''" by code_simp+
  let ?a = "\<lparr>ma_id = ''a'', ma_decision_id = ''d1'', ma_appellant_user_id = Some ''u'', ma_statement = ''please'',
     ma_created_at = 1, ma_state = ''pending'', ma_reviewer_user_id = None, ma_reviewed_at = None, ma_outcome = None,
     ma_reviewer_reason = None, ma_replacement_decision_id = None, ma_self_review_exception = False\<rparr>"
  have 4: "demo_ready db4" "comments db4 = [c3]" "moderation_decisions db4 = moderation_decisions db3" "moderation_appeals db4 = [?a]"
    using 3 c3 unfolding db4_def demo_appeal_def
    by (simp_all add: submit_comment_appeal_def Let_def demo_record_def exists_where_def decision_comment_def words
        MAX_APPEAL_LENGTH_def days_def seconds_def commit_def add_row_def)
  have new: "new_decision (demo_comment_env ''d4'' 1) ((restore_decision (demo_record ''d1'' ''reject'') ''c'' ''n'' ''fair'')
        \<lparr>dq_target_type := ''comment''\<rparr>) s
      = (Inr x, s\<lparr>moderation_decisions := moderation_decisions s @ [x]\<rparr>)"
    if "x = (demo_record ''d4'' ''restore'')\<lparr>mo_actor_user_id := Some ''n'', mo_human_reason := Some ''fair'',
       mo_restriction_type := ''none'', mo_supersedes_decision_id := Some ''d1''\<rparr>" for s x
    using no_reference that by (simp add: new_decision_def restore_decision_def demo_record_def RESTRICTIONS_def
        MAX_REASON_LENGTH_def Let_def add_row_def)
  have "comments (perform demo_overturn db4) = [set_status 1 Comment_Approved c3]"
    "map (\<lambda>d. (mo_id d, mo_outcome d, mo_supersedes_decision_id d)) (moderation_decisions (perform demo_overturn db4))
      = [(''d1'', ''reject'', None), (''d2'', ''restore'', None), (''d3'', ''delete'', None), (''d4'', ''restore'', Some ''d1'')]"
    using 3 4 c3 new [OF refl] unfolding demo_overturn_def
    by (simp_all add: review_comment_appeal_def Let_def words MAX_REASON_LENGTH_def own_decision_def overturn_def
        decision_comment_def rowcount_def update_where_def commit_def demo_record_def demo_notify)
  then show ?thesis
    unfolding Let_def fold.simps comp_apply id_apply db1_def [symmetric] db2_def [symmetric] db3_def [symmetric] db4_def [symmetric]
    by (simp add: set_status_def)
qed

end
