(* ===== verification/Backup_Paths.thy ===== *)
theory Backup_Paths
  imports Prelude
begin

text \<open>
  The paths of a backup set: \<open>validate_relative_path\<close>, the checksum list and its lines of
  \<open>backups/manifest.py\<close>, and the check of a link's target that \<open>backups/verify.py\<close> and
  \<open>backups/restore.py\<close> share, with what \<open>PurePosixPath\<close> and \<open>posixpath\<close> do with a path.
\<close>

section \<open>POSIX paths\<close>

definition is_absolute :: "string \<Rightarrow> bool" where
  "is_absolute s \<longleftrightarrow> startswith s ''/''"

text \<open>\<open>PurePosixPath(s).parts\<close> of a relative path: empty parts and dots are dropped.\<close>

definition pure_parts :: "string \<Rightarrow> string list" where
  "pure_parts s = filter (\<lambda>p. p \<noteq> [] \<and> p \<noteq> ''.'') (split_on (CHR ''/'') s)"

definition posix_of :: "string list \<Rightarrow> string" where
  "posix_of ps = (if ps = [] then ''.'' else join_with ''/'' ps)"

text \<open>\<open>posixpath.normpath\<close> of a relative path; \<open>acc\<close> has the components kept so far, last first.\<close>

fun norm_parts :: "string list \<Rightarrow> string list \<Rightarrow> string list" where
  "norm_parts acc [] = rev acc"
| "norm_parts acc (p # ps) =
     (if p = [] \<or> p = ''.'' then norm_parts acc ps
      else if p \<noteq> ''..'' \<or> acc = [] \<or> hd acc = ''..'' then norm_parts (p # acc) ps
      else norm_parts (tl acc) ps)"

definition normpath :: "string \<Rightarrow> string" where
  "normpath s = posix_of (norm_parts [] (split_on (CHR ''/'') s))"

section \<open>Validation\<close>

datatype backup_error =
    Verification_error string
  | Unsafe_entry string
  | Value_error string
  | Other_error

definition path_control :: "char \<Rightarrow> bool" where
  "path_control c = (let n = (of_char c :: nat) in n < 32 \<or> n = 127)"

definition BACKSLASH :: char where "BACKSLASH = CHR 0x5C"

definition validate_relative_path :: "string \<Rightarrow> backup_error + string" where
  "validate_relative_path v =
     (if v = [] \<or> BACKSLASH \<in> set v \<or> list_ex path_control v
      then Inl (Verification_error ''Invalid backup-relative path'')
      else if is_absolute v \<or> ''..'' \<in> set (pure_parts v)
      then Inl (Verification_error ''Unsafe backup-relative path'')
      else if posix_of (pure_parts v) \<noteq> v then Inl (Verification_error ''Non-canonical backup-relative path'')
      else Inr v)"

text \<open>The directory of a path, \<open>str(PurePosixPath(name).parent)\<close>, and the check of a link.\<close>

definition parent_of :: "string \<Rightarrow> string" where
  "parent_of s = posix_of (butlast (pure_parts s))"

definition outside :: "string \<Rightarrow> bool" where
  "outside resolved \<longleftrightarrow> resolved = ''..'' \<or> startswith resolved ''../'' \<or> startswith resolved ''/''"

definition link_resolved :: "string \<Rightarrow> string \<Rightarrow> string" where
  "link_resolved name target = normpath (parent_of name @ ''/'' @ target)"

definition validate_archive_symlink :: "string \<Rightarrow> string \<Rightarrow> backup_error + unit" where
  "validate_archive_symlink name target =
     (if target = [] \<or> BACKSLASH \<in> set target \<or> CHR 0x00 \<in> set target \<or> startswith target ''/''
      then Inl (Verification_error ''Unsafe TAR symlink target'')
      else if outside (link_resolved name target) then Inl (Verification_error ''TAR symlink escapes component root'')
      else Inr ())"

definition validate_symlink_target :: "string \<Rightarrow> string \<Rightarrow> backup_error + unit" where
  "validate_symlink_target name target =
     (if target = [] \<or> startswith target ''/'' \<or> BACKSLASH \<in> set target \<or> CHR 0x00 \<in> set target
         \<or> CHR '':'' \<in> set target
      then Inl (Unsafe_entry ''Unsafe symlink target'')
      else if outside (link_resolved name target) then Inl (Unsafe_entry ''Symlink escapes component staging root'')
      else Inr ())"

section \<open>Identifiers\<close>

definition digits :: "string \<Rightarrow> bool" where
  "digits s \<longleftrightarrow> list_all is_digit s"

text \<open>\<open>BACKUP_ID_RE\<close>, \<open>^[0-9]{8}-[0-9]{6}(?:-[0-9]{2,})?$\<close>, which the code applies with \<open>fullmatch\<close>.\<close>

definition is_backup_id :: "string \<Rightarrow> bool" where
  "is_backup_id s \<longleftrightarrow> length s \<ge> 15 \<and> digits (take 8 s) \<and> s ! 8 = CHR ''-'' \<and> digits (take 6 (drop 9 s))
     \<and> (drop 15 s = [] \<or> length (drop 15 s) \<ge> 3 \<and> s ! 15 = CHR ''-'' \<and> digits (drop 16 s))"

section \<open>Checksums\<close>

definition lower_hex :: "char \<Rightarrow> bool" where
  "lower_hex c \<longleftrightarrow> is_digit c \<or> c \<in> set ''abcdef''"

definition sha256_text :: "string \<Rightarrow> bool" where
  "sha256_text s \<longleftrightarrow> length s = 64 \<and> list_all lower_hex s"

definition NEWLINE :: char where "NEWLINE = CHR 0x0A"

definition checksum_line :: "string \<Rightarrow> string \<Rightarrow> backup_error + string" where
  "checksum_line path sha =
     (case validate_relative_path path of
        Inl e \<Rightarrow> Inl e
      | Inr _ \<Rightarrow> if \<not> sha256_text sha then Inl (Value_error ''Invalid SHA-256 digest'')
          else Inr (sha @ ''  '' @ path @ [NEWLINE]))"

text \<open>
  \<open>str.splitlines()\<close>. The code points below 256 that end a line are 10 to 13, 28 to 30 and
  133, a carriage return together with a line feed after it; what follows the last is a line
  only if it is not empty.
\<close>

definition line_end :: "char \<Rightarrow> bool" where
  "line_end c = (let n = (of_char c :: nat) in 10 \<le> n \<and> n \<le> 13 \<or> 28 \<le> n \<and> n \<le> 30 \<or> n = 133)"

fun split_lines :: "string \<Rightarrow> string \<Rightarrow> string list" where
  "split_lines acc [] = (if acc = [] then [] else [rev acc])"
| "split_lines acc (c # cs) =
     (if line_end c then rev acc # split_lines []
        (if of_char c = (13 :: nat) \<and> cs \<noteq> [] \<and> of_char (hd cs) = (10 :: nat) then tl cs else cs)
      else split_lines (c # acc) cs)"

fun add_checksums :: "(string \<times> string) list \<Rightarrow> string list \<Rightarrow> backup_error + (string \<times> string) list" where
  "add_checksums sums [] = Inr sums"
| "add_checksums sums (line # rest) =
     (if line = [] then add_checksums sums rest
      else if length line < 67 \<or> take 2 (drop 64 line) \<noteq> ''  '' then Inl (Verification_error ''Malformed checksum line'')
      else let sha = take 64 line; path = drop 66 line in
        if \<not> sha256_text sha then Inl (Verification_error ''Malformed SHA-256 digest'')
        else case validate_relative_path path of
          Inl e \<Rightarrow> Inl e
        | Inr _ \<Rightarrow> if map_of sums path \<noteq> None then Inl (Verification_error ''Duplicate checksum path'')
            else add_checksums (sums @ [(path, sha)]) rest)"

definition parse_checksums :: "string \<Rightarrow> backup_error + (string \<times> string) list" where
  "parse_checksums content = add_checksums [] (split_lines [] content)"

fun checksum_lines :: "(string \<times> string) list \<Rightarrow> backup_error + string list" where
  "checksum_lines [] = Inr []"
| "checksum_lines ((path, sha) # rest) = (case checksum_line path sha of
     Inl e \<Rightarrow> Inl e
   | Inr line \<Rightarrow> (case checksum_lines rest of Inl e \<Rightarrow> Inl e | Inr lines \<Rightarrow> Inr (line # lines)))"

text \<open>The content of the list that \<open>_write_checksums\<close> writes.\<close>

definition write_checksums :: "(string \<times> string) list \<Rightarrow> backup_error + string" where
  "write_checksums entries = (case checksum_lines entries of Inl e \<Rightarrow> Inl e | Inr lines \<Rightarrow> Inr (concat (sort lines)))"

section \<open>Paths made of names\<close>

definition name_ok :: "string \<Rightarrow> bool" where
  "name_ok p \<longleftrightarrow> p \<notin> {[], ''.'', ''..''} \<and> list_all (\<lambda>c. c \<noteq> CHR ''/'' \<and> c \<noteq> BACKSLASH \<and> \<not> path_control c) p"

lemma slash_plain [simp]: "CHR ''/'' \<noteq> BACKSLASH" "BACKSLASH \<noteq> CHR ''/''" "\<not> path_control (CHR ''/'')"
  by (simp_all add: BACKSLASH_def path_control_def)

lemma split_on_aux_word: "CHR ''/'' \<notin> set w \<Longrightarrow> split_on_aux (CHR ''/'') acc (w @ s) = split_on_aux (CHR ''/'') (rev w @ acc) s"
  by (induction w arbitrary: acc) auto

lemma split_join:
  "\<lbrakk> ps \<noteq> []; \<forall>p \<in> set ps. CHR ''/'' \<notin> set p \<rbrakk> \<Longrightarrow> split_on (CHR ''/'') (join_with ''/'' ps) = ps"
proof (induction ps rule: induct_list012)
  case (2 p)
  then show ?case using split_on_aux_word [of p "[]" "[]"] by (simp add: split_on_def)
next
  case (3 p q ps)
  then have "split_on_aux (CHR ''/'') [] (p @ ''/'' @ join_with ''/'' (q # ps)) = p # q # ps"
    by (simp add: split_on_def split_on_aux_word)
  then show ?case by (simp add: split_on_def)
qed simp

lemma name_okD: "name_ok p \<Longrightarrow> p \<noteq> [] \<and> p \<noteq> ''.'' \<and> p \<noteq> ''..'' \<and> CHR ''/'' \<notin> set p"
  by (auto simp: name_ok_def list_all_iff)

lemma pure_parts_join: "\<lbrakk> ps \<noteq> []; \<forall>p \<in> set ps. name_ok p \<rbrakk> \<Longrightarrow> pure_parts (join_with ''/'' ps) = ps"
  by (simp add: pure_parts_def split_join name_okD)

lemma set_join: "set (join_with ''/'' ps) \<subseteq> insert (CHR ''/'') (\<Union> (set ` set ps))"
  by (induction ps rule: induct_list012) auto

lemma join_not_absolute: "\<lbrakk> ps \<noteq> []; \<forall>p \<in> set ps. name_ok p \<rbrakk> \<Longrightarrow> \<not> is_absolute (join_with ''/'' ps)"
  by (cases ps rule: list.exhaust; cases "tl ps"; cases "hd ps")
     (auto simp: is_absolute_def name_ok_def)

text \<open>A list of names is a valid path, and is what the path is read as.\<close>

lemma valid_names:
  assumes "ps \<noteq> []" "\<forall>p \<in> set ps. name_ok p"
  shows "validate_relative_path (posix_of ps) = Inr (posix_of ps)" "pure_parts (posix_of ps) = ps"
proof -
  have parts: "pure_parts (join_with ''/'' ps) = ps" using assms by (rule pure_parts_join)
  have "c \<noteq> BACKSLASH \<and> \<not> path_control c" if "c \<in> set (join_with ''/'' ps)" for c
  proof -
    have "c \<in> insert (CHR ''/'') (\<Union> (set ` set ps))" using that set_join by blast
    then consider "c = CHR ''/''" | p where "p \<in> set ps" "c \<in> set p" by blast
    then show ?thesis
    proof cases
      case (2 p)
      then have "name_ok p" using assms(2) by blast
      then show ?thesis using 2 by (simp add: name_ok_def list_all_iff)
    qed simp
  qed
  then have "BACKSLASH \<notin> set (join_with ''/'' ps)" "\<not> list_ex path_control (join_with ''/'' ps)"
    by (auto simp: list_ex_iff)
  moreover have "join_with ''/'' ps \<noteq> []" using parts assms(1) by (auto simp: pure_parts_def split_on_def)
  moreover have "''..'' \<notin> set ps" using assms(2) by (auto simp: name_ok_def)
  ultimately show "validate_relative_path (posix_of ps) = Inr (posix_of ps)"
    using parts assms(1) join_not_absolute [OF assms] by (simp add: validate_relative_path_def posix_of_def)
  show "pure_parts (posix_of ps) = ps" using parts assms(1) by (simp add: posix_of_def)
qed

text \<open>An accepted path is a list of names, or the dot.\<close>

lemma in_split_on: "p \<in> set (split_on_aux sep acc s) \<Longrightarrow> set p \<subseteq> set acc \<union> set s \<and> (sep \<notin> set acc \<longrightarrow> sep \<notin> set p)"
  by (induction sep acc s rule: split_on_aux.induct) (force split: if_splits)+

lemma validated_names:
  assumes "validate_relative_path v = Inr w"
  shows "w = v \<and> v = posix_of (pure_parts v) \<and> (\<forall>p \<in> set (pure_parts v). name_ok p)"
proof -
  have v: "BACKSLASH \<notin> set v" "\<forall>c \<in> set v. \<not> path_control c" "''..'' \<notin> set (pure_parts v)" "posix_of (pure_parts v) = v" "w = v"
    using assms by (auto simp: validate_relative_path_def list_ex_iff split: if_splits)
  have "name_ok p" if "p \<in> set (pure_parts v)" for p
    using that v(1-3) in_split_on [of p "CHR ''/''" "[]" v]
    by (auto simp: name_ok_def pure_parts_def split_on_def list_all_iff)
  then show ?thesis using v by simp
qed

section \<open>The checksum list\<close>

lemma split_lines_word:
  "\<forall>c \<in> set w. \<not> line_end c \<Longrightarrow> split_lines acc (w @ NEWLINE # s) = (rev acc @ w) # split_lines [] s"
  by (induction w arbitrary: acc) (simp_all add: line_end_def NEWLINE_def)

definition entry_line :: "string \<times> string \<Rightarrow> string" where
  "entry_line p = snd p @ ''  '' @ fst p @ [NEWLINE]"

definition checksum_ok :: "string \<times> string \<Rightarrow> bool" where
  "checksum_ok p \<longleftrightarrow> validate_relative_path (fst p) = Inr (fst p) \<and> sha256_text (snd p) \<and> (\<forall>c \<in> set (fst p). \<not> line_end c)"

lemma checksum_lines_Inr:
  "checksum_lines ps = Inr ls \<Longrightarrow> ls = map entry_line ps \<and> (\<forall>p \<in> set ps. validate_relative_path (fst p) = Inr (fst p) \<and> sha256_text (snd p))"
proof (induction ps arbitrary: ls rule: checksum_lines.induct)
  case (2 path sha rest)
  then show ?case
    by (auto simp: checksum_line_def entry_line_def dest: validated_names split: sum.splits if_splits)
qed simp

lemma lower_hex_not_end: "lower_hex c \<Longrightarrow> \<not> line_end c"
  by (auto simp: lower_hex_def is_digit_def line_end_def Let_def)

lemma sha256_not_line_end: "sha256_text s \<Longrightarrow> \<forall>c \<in> set s. \<not> line_end c"
  using lower_hex_not_end by (auto simp: sha256_text_def list_all_iff)

lemma map_insort_key: "map f (insort_key f x xs) = insort (f x) (map f xs)"
  by (induction xs) auto

lemma sort_map_key: "sort (map f xs) = map f (sort_key f xs)"
  by (induction xs) (simp_all add: map_insort_key)

lemma add_checksums_line:
  assumes "checksum_ok (path, sha)" "map_of sums path = None"
  shows "add_checksums sums ((sha @ ''  '' @ path) # rest) = add_checksums (sums @ [(path, sha)]) rest"
proof -
  have "length sha = 64" "path \<noteq> []" using assms(1) by (auto simp: checksum_ok_def sha256_text_def validate_relative_path_def)
  then show ?thesis using assms by (cases path) (auto simp: checksum_ok_def)
qed

lemma parse_entries:
  "\<lbrakk> \<forall>p \<in> set ps. checksum_ok p; distinct (map fst (sums @ ps)) \<rbrakk>
   \<Longrightarrow> add_checksums sums (split_lines [] (concat (map entry_line ps))) = Inr (sums @ ps)"
proof (induction ps arbitrary: sums)
  case (Cons p ps)
  obtain path sha where p: "p = (path, sha)" by fastforce
  have ok: "checksum_ok (path, sha)" using Cons.prems(1) p by simp
  let ?w = "sha @ ''  '' @ path"
  have w: "\<forall>c \<in> set ?w. \<not> line_end c"
    using ok sha256_not_line_end [of sha] by (auto simp: checksum_ok_def line_end_def)
  have "concat (map entry_line (p # ps)) = ?w @ NEWLINE # concat (map entry_line ps)" by (simp add: entry_line_def p)
  then have lines: "split_lines [] (concat (map entry_line (p # ps))) = ?w # split_lines [] (concat (map entry_line ps))"
    using split_lines_word [OF w, of "[]"] by simp
  have "map_of sums path = None" using Cons.prems(2) p by (auto simp: map_of_eq_None_iff)
  then show ?case
    using add_checksums_line [OF ok] Cons.IH [of "sums @ [(path, sha)]"] Cons.prems p unfolding lines by simp
qed simp

text \<open>Reading the list gives every path its checksum, unless a path has the line end U+0085.\<close>

lemma checksums_roundtrip:
  assumes "write_checksums ps = Inr content" "distinct (map fst ps)" "\<forall>p \<in> set ps. \<forall>c \<in> set (fst p). \<not> line_end c"
  shows "\<exists>sums. parse_checksums content = Inr sums \<and> map_of sums = map_of ps"
proof -
  obtain ls where ls: "checksum_lines ps = Inr ls" "content = concat (sort ls)"
    using assms(1) by (auto simp: write_checksums_def split: sum.splits)
  note inr = checksum_lines_Inr [OF ls(1)]
  let ?qs = "sort_key entry_line ps"
  have "sort ls = map entry_line ?qs" using inr by (simp add: sort_map_key)
  moreover have "\<forall>p \<in> set ?qs. checksum_ok p" using inr assms(3) by (simp add: checksum_ok_def)
  moreover have dist: "distinct (map fst ?qs)" using assms(2) by (simp add: distinct_map)
  ultimately have "parse_checksums content = Inr ?qs"
    using parse_entries [of ?qs "[]"] ls(2) by (simp add: parse_checksums_def)
  moreover have "map_of ?qs = map_of ps" using assms(2) dist by (intro map_of_eqI) auto
  ultimately show ?thesis by blast
qed

end
