(* ===== verification/Restore_Swaps.thy ===== *)
theory Restore_Swaps
  imports Backup_Paths
begin

text \<open>
  The part of \<open>backups/restore.py\<close> that changes the live instance: \<open>apply_restore\<close> from the
  moment it writes its journal, the swaps of file roots and of the SQLite database, the
  import into a database server, and \<open>recover_restore\<close>.

  The disk is a map from paths to what is found there, a file or a whole directory; the
  paths of one restore do not contain each other. Every write to the disk is one step, and
  a schedule says how the steps go: a step works, fails with an \<open>OSError\<close>, takes effect but
  reports a failure, or the process dies before it or in the middle of it. The journal in
  memory is lost with the process.
\<close>

section \<open>The disk and its steps\<close>

type_synonym path = "string list"

record swap =
  sw_component :: string
  sw_target :: path
  sw_rollback :: path
  sw_staged :: "path option"
  sw_directory :: bool
  sw_had_original :: bool
  sw_old_moved :: bool
  sw_new_moved :: bool

record journal =
  jn_version :: int
  jn_restore_id :: string
  jn_backup_id :: string
  jn_staging_root :: path
  jn_phase :: string
  jn_components :: "string list"
  jn_swaps :: "swap list"
  jn_backend :: string
  jn_database_staged :: "path option"
  jn_committed :: bool
  jn_commit_started :: bool

datatype journal_file = No_journal | Unreadable_journal | Journal journal

datatype event = Works | Fails | Works_then_fails | Dies | Dies_midway

datatype restore_error = Process_died | Os_error | Restore_failed string | Recovery_required string

record machine =
  ws_files :: "path \<Rightarrow> string option"
  ws_journal :: journal_file
  ws_marker :: bool
  ws_history :: "string list"
  ws_server :: string
  ws_memory :: journal
  ws_events :: "event list"

text \<open>
  One write to the disk. A metadata file is written to a temporary file that replaces it, so
  it changes as a whole, and the synchronisation after it may still fail.
\<close>

definition write_step :: "(machine \<Rightarrow> machine) \<Rightarrow> machine \<Rightarrow> (restore_error, unit, machine) outcome" where
  "write_step f w = (case ws_events w of
     [] \<Rightarrow> (Inr (), f w)
   | Works # es \<Rightarrow> (Inr (), f (w\<lparr>ws_events := es\<rparr>))
   | Fails # es \<Rightarrow> (Inl Os_error, w\<lparr>ws_events := es\<rparr>)
   | Works_then_fails # es \<Rightarrow> (Inl Os_error, f (w\<lparr>ws_events := es\<rparr>))
   | Dies # es \<Rightarrow> (Inl Process_died, w\<lparr>ws_events := es\<rparr>)
   | Dies_midway # es \<Rightarrow> (Inl Process_died, f (w\<lparr>ws_events := es\<rparr>)))"

text \<open>
  \<open>os.replace\<close> is atomic: it does not fail after it took effect. It refuses a missing source,
  and a directory in the way of a directory.
\<close>

definition move :: "bool \<Rightarrow> path \<Rightarrow> path \<Rightarrow> machine \<Rightarrow> (restore_error, unit, machine) outcome" where
  "move directory p q w =
     (let f = (\<lambda>w. w\<lparr>ws_files := (ws_files w)(q := ws_files w p, p := None)\<rparr>) in
      if ws_files w p = None \<or> directory \<and> ws_files w q \<noteq> None then (Inl Os_error, w)
      else case ws_events w of
        Works_then_fails # es \<Rightarrow> (Inl Os_error, w\<lparr>ws_events := es\<rparr>)
      | _ \<Rightarrow> write_step f w)"

text \<open>
  \<open>_remove_path\<close>: a directory is removed file by file, so an interruption may leave a part of
  it. A file goes as a whole; the model also has the outcome that a part of it is left.
\<close>

definition remove_path :: "path \<Rightarrow> machine \<Rightarrow> (restore_error, unit, machine) outcome" where
  "remove_path p w =
     (if ws_files w p = None then (Inr (), w)
      else case ws_events w of
        [] \<Rightarrow> (Inr (), w\<lparr>ws_files := (ws_files w)(p := None)\<rparr>)
      | Works # es \<Rightarrow> (Inr (), w\<lparr>ws_files := (ws_files w)(p := None), ws_events := es\<rparr>)
      | Fails # es \<Rightarrow> (Inl Os_error, w\<lparr>ws_events := es\<rparr>)
      | Works_then_fails # es \<Rightarrow> (Inl Os_error, w\<lparr>ws_files := (ws_files w)(p \<mapsto> ''part''), ws_events := es\<rparr>)
      | Dies # es \<Rightarrow> (Inl Process_died, w\<lparr>ws_events := es\<rparr>)
      | Dies_midway # es \<Rightarrow> (Inl Process_died, w\<lparr>ws_files := (ws_files w)(p \<mapsto> ''part''), ws_events := es\<rparr>))"

definition write_restore_journal :: "machine \<Rightarrow> (restore_error, unit, machine) outcome" where
  "write_restore_journal = write_step (\<lambda>w. w\<lparr>ws_journal := Journal (ws_memory w)\<rparr>)"

definition write_restore_marker :: "machine \<Rightarrow> (restore_error, unit, machine) outcome" where
  "write_restore_marker = write_step (\<lambda>w. w\<lparr>ws_marker := True\<rparr>)"

definition clear_restore_markers :: "machine \<Rightarrow> (restore_error, unit, machine) outcome" where
  "clear_restore_markers w =
     and_then (write_step (\<lambda>w. w\<lparr>ws_marker := False\<rparr>) w) (\<lambda>_.
       write_step (\<lambda>w. w\<lparr>ws_journal := No_journal\<rparr>))"

text \<open>Changes of the journal in memory.\<close>

definition remember :: "(journal \<Rightarrow> journal) \<Rightarrow> machine \<Rightarrow> machine" where
  "remember f w = w\<lparr>ws_memory := f (ws_memory w)\<rparr>"

definition set_swap :: "nat \<Rightarrow> (swap \<Rightarrow> swap) \<Rightarrow> machine \<Rightarrow> machine" where
  "set_swap i f = remember (\<lambda>j. j\<lparr>jn_swaps := (jn_swaps j)[i := f (jn_swaps j ! i)]\<rparr>)"

definition add_swap :: "swap \<Rightarrow> machine \<Rightarrow> machine" where
  "add_swap e = remember (\<lambda>j. j\<lparr>jn_swaps := jn_swaps j @ [e]\<rparr>)"

definition set_phase :: "string \<Rightarrow> machine \<Rightarrow> machine" where
  "set_phase phase = remember (\<lambda>j. j\<lparr>jn_phase := phase\<rparr>)"

text \<open>
  The instance: its roots, the configured SQLite file, \<open>Path.resolve\<close>, and the paths whose
  ancestors are symlinks or whose parent is not a directory.
\<close>

record site =
  st_root :: "string \<Rightarrow> path"
  st_instance :: path
  st_tmp :: path
  st_database :: path
  st_resolve :: "path \<Rightarrow> path"
  st_unsafe :: "path \<Rightarrow> bool"

definition RESTORE_COMPONENTS :: "string list" where
  "RESTORE_COMPONENTS = [''config'', ''data'', ''themes'', ''plugins'', ''media'']"

definition RESTORE_ROLLBACK_PREFIX :: string where
  "RESTORE_ROLLBACK_PREFIX = ''.restore-rollback-''"

definition root_rollback :: "site \<Rightarrow> string \<Rightarrow> string \<Rightarrow> path" where
  "root_rollback st restore_id component =
     st_instance st @ [RESTORE_ROLLBACK_PREFIX @ restore_id @ ''-'' @ component]"

text \<open>\<open>target.with_name\<close>\<close>

definition file_rollback :: "string \<Rightarrow> path \<Rightarrow> path" where
  "file_rollback restore_id target =
     butlast target @ [''.'' @ last target @ RESTORE_ROLLBACK_PREFIX @ restore_id]"

definition add_suffix :: "path \<Rightarrow> string \<Rightarrow> path" where
  "add_suffix p sfx = butlast p @ [last p @ sfx]"

definition staged_database :: "site \<Rightarrow> string \<Rightarrow> path" where
  "staged_database st restore_id = st_instance st @ [''.restore-db-'' @ restore_id @ ''.tmp'']"

definition write_restore_history :: "site \<Rightarrow> string \<Rightarrow> machine \<Rightarrow> (restore_error, unit, machine) outcome" where
  "write_restore_history st result w =
     (if ws_files w (st_root st ''data'') = None
      then (Inl (Restore_failed ''Instance restore directory is not a real directory''), w)
      else write_step (\<lambda>w. w\<lparr>ws_history := ws_history w @ [result]\<rparr>) w)"

text \<open>A failure to remove the staging root is logged and ignored.\<close>

definition remove_staging_root :: "site \<Rightarrow> path \<Rightarrow> machine \<Rightarrow> (restore_error, unit, machine) outcome" where
  "remove_staging_root st root w =
     (let f = (\<lambda>w. w\<lparr>ws_files := (\<lambda>p. if prefix root p then None else ws_files w p)\<rparr>) in
      if \<not> prefix (st_resolve st (st_instance st)) (st_resolve st root) then (Inr (), w)
      else case ws_events w of
        [] \<Rightarrow> (Inr (), f w)
      | Works # es \<Rightarrow> (Inr (), f (w\<lparr>ws_events := es\<rparr>))
      | Dies # es \<Rightarrow> (Inl Process_died, w\<lparr>ws_events := es\<rparr>)
      | Dies_midway # es \<Rightarrow> (Inl Process_died, f (w\<lparr>ws_events := es\<rparr>))
      | _ # es \<Rightarrow> (Inr (), w\<lparr>ws_events := es\<rparr>))"

section \<open>Switching files\<close>

definition switch_path ::
  "site \<Rightarrow> bool \<Rightarrow> path \<Rightarrow> path \<Rightarrow> path \<Rightarrow> nat \<Rightarrow> machine \<Rightarrow> (restore_error, unit, machine) outcome" where
  "switch_path st directory staged target rollback i w =
     (if st_unsafe st target \<or> ws_files w rollback \<noteq> None
      then (Inl (Restore_failed ''Unsafe or pre-existing restore target/rollback path.''), w)
      else
        and_then (if sw_had_original (jn_swaps (ws_memory w) ! i)
            then and_then (move directory target rollback w) (\<lambda>_ w1.
              write_restore_journal (set_swap i (\<lambda>e. e\<lparr>sw_old_moved := True\<rparr>) w1))
            else (Inr (), w)) (\<lambda>_ w2.
        and_then (move directory staged target w2) (\<lambda>_ w3.
          write_restore_journal (set_swap i (\<lambda>e. e\<lparr>sw_new_moved := True\<rparr>) w3))))"

text \<open>What a restore works on: the plan and what was staged for it.\<close>

record restore_input =
  ri_restore_id :: string
  ri_backup_id :: string
  ri_staging_root :: path
  ri_components :: "string list"
  ri_backend :: string
  ri_import :: string

definition staged_root :: "restore_input \<Rightarrow> string \<Rightarrow> path" where
  "staged_root inp component = ri_staging_root inp @ [component]"

definition root_swap :: "site \<Rightarrow> restore_input \<Rightarrow> string \<Rightarrow> machine \<Rightarrow> swap" where
  "root_swap st inp component w =
     \<lparr>sw_component = component, sw_target = st_root st component,
      sw_rollback = root_rollback st (ri_restore_id inp) component, sw_staged = Some (staged_root inp component),
      sw_directory = True, sw_had_original = (ws_files w (st_root st component) \<noteq> None),
      sw_old_moved = False, sw_new_moved = False\<rparr>"

fun switch_roots ::
  "site \<Rightarrow> restore_input \<Rightarrow> string list \<Rightarrow> machine \<Rightarrow> (restore_error, unit, machine) outcome" where
  "switch_roots st inp [] w = (Inr (), w)"
| "switch_roots st inp (c # cs) w =
     (if c = ''database'' then switch_roots st inp cs w
      else
       (let e = root_swap st inp c w; i = length (jn_swaps (ws_memory w)) in
        and_then (write_restore_journal (add_swap e w)) (\<lambda>_ w1.
        and_then (switch_path st True (staged_root inp c) (sw_target e) (sw_rollback e) i w1) (\<lambda>_ w2.
          switch_roots st inp cs w2))))"

definition SIDECARS :: "string list" where
  "SIDECARS = [''-wal'', ''-shm'', ''-journal'']"

definition sidecar_swap :: "site \<Rightarrow> restore_input \<Rightarrow> string \<Rightarrow> swap" where
  "sidecar_swap st inp sfx =
     (let p = add_suffix (st_database st) sfx in
      \<lparr>sw_component = ''database'' @ sfx, sw_target = p, sw_rollback = file_rollback (ri_restore_id inp) p,
       sw_staged = None, sw_directory = False, sw_had_original = True, sw_old_moved = False, sw_new_moved = False\<rparr>)"

fun switch_sidecars ::
  "site \<Rightarrow> restore_input \<Rightarrow> string list \<Rightarrow> machine \<Rightarrow> (restore_error, unit, machine) outcome" where
  "switch_sidecars st inp [] w = (Inr (), w)"
| "switch_sidecars st inp (s # ss) w =
     (let e = sidecar_swap st inp s; i = length (jn_swaps (ws_memory w)) in
      if ws_files w (sw_target e) = None then switch_sidecars st inp ss w
      else if st_unsafe st (sw_target e)
      then (Inl (Restore_failed ''SQLite WAL/SHM sidecar is not a regular file.''), w)
      else
        and_then (write_restore_journal (add_swap e w)) (\<lambda>_ w1.
        and_then (move False (sw_target e) (sw_rollback e) w1) (\<lambda>_ w2.
        and_then (write_restore_journal (set_swap i (\<lambda>e. e\<lparr>sw_old_moved := True\<rparr>) w2)) (\<lambda>_ w3.
          switch_sidecars st inp ss w3))))"

definition database_swap :: "site \<Rightarrow> restore_input \<Rightarrow> machine \<Rightarrow> swap" where
  "database_swap st inp w =
     \<lparr>sw_component = ''database'', sw_target = st_database st,
      sw_rollback = file_rollback (ri_restore_id inp) (st_database st),
      sw_staged = Some (staged_database st (ri_restore_id inp)), sw_directory = False,
      sw_had_original = (ws_files w (st_database st) \<noteq> None), sw_old_moved = False, sw_new_moved = False\<rparr>"

definition switch_sqlite_database ::
  "site \<Rightarrow> restore_input \<Rightarrow> machine \<Rightarrow> (restore_error, unit, machine) outcome" where
  "switch_sqlite_database st inp w =
     (if st_unsafe st (st_database st)
      then (Inl (Restore_failed ''SQLite database target path must not contain symlinks.''), w)
      else and_then (switch_sidecars st inp SIDECARS w) (\<lambda>_ w1.
        (let e = database_swap st inp w1; i = length (jn_swaps (ws_memory w1)) in
         and_then (write_restore_journal (set_phase ''switching-sqlite-database'' (add_swap e w1))) (\<lambda>_ w2.
         and_then (switch_path st False (staged_database st (ri_restore_id inp)) (sw_target e) (sw_rollback e) i w2) (\<lambda>_ w3.
           write_restore_journal
             (set_phase ''sqlite-database-switched'' (remember (\<lambda>j. j\<lparr>jn_committed := True\<rparr>) w3)))))))"

text \<open>
  The import into a server runs in one transaction: a failure before the commit leaves the
  server as it was. After the commit come the counters of MariaDB and the schema check.
\<close>

definition import_database ::
  "restore_input \<Rightarrow> machine \<Rightarrow> (restore_error, unit, machine) outcome" where
  "import_database inp w =
     and_then (write_step (\<lambda>w. w) w) (\<lambda>_ w1.
     and_then (write_restore_journal (set_phase ''database-commit-started''
         (remember (\<lambda>j. j\<lparr>jn_commit_started := True\<rparr>) w1))) (\<lambda>_ w2.
     and_then (write_step (\<lambda>w. w\<lparr>ws_server := ri_import inp\<rparr>) w2) (\<lambda>_ w3.
     and_then (write_restore_journal (set_phase ''database-committed''
         (remember (\<lambda>j. j\<lparr>jn_committed := True\<rparr>) w3))) (\<lambda>_ w4.
       write_step (\<lambda>w. w) w4))))"

section \<open>Rolling back\<close>

definition is_restore_id :: "string \<Rightarrow> bool" where
  "is_restore_id s \<longleftrightarrow> length s = 32 \<and> list_all (\<lambda>c. is_digit c \<or> CHR ''a'' \<le> c \<and> c \<le> CHR ''f'') s"

definition staging_prefix :: "site \<Rightarrow> journal \<Rightarrow> string" where
  "staging_prefix st j =
     (if butlast (jn_staging_root j) = st_instance st then ''.'' else [])
       @ ''restore-'' @ jn_backup_id j @ ''-'' @ take 12 (jn_restore_id j) @ ''-''"

text \<open>\<open>None\<close> when the paths of a swap are those this instance would use.\<close>

definition invalid_swap :: "site \<Rightarrow> journal \<Rightarrow> swap \<Rightarrow> string option" where
  "invalid_swap st j e =
     (let c = sw_component e; root = jn_staging_root j in
      if c \<in> set RESTORE_COMPONENTS then
        (if \<not> sw_directory e then Some ''Restore journal component kind is invalid.''
         else if sw_target e \<noteq> st_root st c then Some ''Restore journal target does not match this instance.''
         else if sw_rollback e \<noteq> root_rollback st (jn_restore_id j) c
            \<or> butlast root \<notin> {st_instance st, st_tmp st} \<or> \<not> is_backup_id (jn_backup_id j)
            \<or> root = [] \<or> \<not> startswith (last root) (staging_prefix st j) \<or> sw_staged e \<noteq> Some (root @ [c])
            \<or> \<not> prefix (st_resolve st (st_instance st)) (st_resolve st root)
         then Some ''Restore rollback path escapes the instance root.''
         else None)
      else if startswith c ''database'' then
        (let sfx = drop (length ''database'') c in
         if sw_directory e then Some ''Restore journal database kind is invalid.''
         else if sfx \<notin> set ([] # SIDECARS) then Some ''Restore journal names an unknown database file.''
         else if sw_target e \<noteq> add_suffix (st_database st) sfx
         then Some ''Restore journal database target does not match config.''
         else if sw_rollback e \<noteq> file_rollback (jn_restore_id j) (sw_target e)
         then Some ''Database rollback path does not match its target.''
         else if c = ''database'' \<and> sw_staged e \<noteq> Some (staged_database st (jn_restore_id j))
         then Some ''Staged database path does not match this instance.''
         else None)
      else Some ''Restore journal names an unknown component.'')"

text \<open>The staged path is gone, so the new files may be live although the flag was not written.\<close>

definition staged_was_moved :: "swap \<Rightarrow> machine \<Rightarrow> bool" where
  "staged_was_moved e w \<longleftrightarrow> (case sw_staged e of None \<Rightarrow> False | Some s \<Rightarrow> ws_files w s = None)
     \<and> ws_files w (sw_target e) \<noteq> None \<and> (ws_files w (sw_rollback e) \<noteq> None \<or> \<not> sw_had_original e)"

definition rollback_swap :: "site \<Rightarrow> nat \<Rightarrow> machine \<Rightarrow> (restore_error, unit, machine) outcome" where
  "rollback_swap st i w =
     (let e = jn_swaps (ws_memory w) ! i in
      case invalid_swap st (ws_memory w) e of
        Some m \<Rightarrow> (Inl (Recovery_required m), w)
      | None \<Rightarrow>
          and_then (if sw_new_moved e \<or> staged_was_moved e w
            then and_then (remove_path (sw_target e) w) (\<lambda>_ w1.
              write_restore_journal (set_swap i (\<lambda>e. e\<lparr>sw_new_moved := False\<rparr>) w1))
            else (Inr (), w)) (\<lambda>_ w2.
          if sw_old_moved e \<or> ws_files w2 (sw_rollback e) \<noteq> None then
            (if ws_files w2 (sw_rollback e) = None then (Inl (Recovery_required ''Missing rollback path''), w2)
             else and_then (move (sw_directory e) (sw_rollback e) (sw_target e) w2) (\<lambda>_ w3.
               write_restore_journal (set_swap i (\<lambda>e. e\<lparr>sw_old_moved := False\<rparr>) w3)))
          else (Inr (), w2)))"

fun rollback_each :: "site \<Rightarrow> nat list \<Rightarrow> machine \<Rightarrow> (restore_error, unit, machine) outcome" where
  "rollback_each st [] w = (Inr (), w)"
| "rollback_each st (i # is) w = and_then (rollback_swap st i w) (\<lambda>_ w1. rollback_each st is w1)"

definition rollback_swaps :: "site \<Rightarrow> machine \<Rightarrow> (restore_error, unit, machine) outcome" where
  "rollback_swaps st w = rollback_each st (rev [0..<length (jn_swaps (ws_memory w))]) w"

fun cleanup_restore_swaps :: "swap list \<Rightarrow> machine \<Rightarrow> (restore_error, unit, machine) outcome" where
  "cleanup_restore_swaps [] w = (Inr (), w)"
| "cleanup_restore_swaps (e # es) w = and_then (remove_path (sw_rollback e) w) (\<lambda>_ w1. cleanup_restore_swaps es w1)"

section \<open>Applying and recovering\<close>

definition RESTORE_FORMAT_VERSION :: int where "RESTORE_FORMAT_VERSION = 1"

definition sqlite_selected :: "restore_input \<Rightarrow> bool" where
  "sqlite_selected inp \<longleftrightarrow> ''database'' \<in> set (ri_components inp) \<and> ri_backend inp = ''sqlite''"

definition new_journal :: "site \<Rightarrow> restore_input \<Rightarrow> journal" where
  "new_journal st inp =
     \<lparr>jn_version = RESTORE_FORMAT_VERSION, jn_restore_id = ri_restore_id inp, jn_backup_id = ri_backup_id inp,
      jn_staging_root = ri_staging_root inp, jn_phase = ''applying-files'', jn_components = ri_components inp,
      jn_swaps = [], jn_backend = ri_backend inp,
      jn_database_staged = (if sqlite_selected inp then Some (staged_database st (ri_restore_id inp)) else None),
      jn_committed = False, jn_commit_started = False\<rparr>"

definition remove_staged_database :: "path option \<Rightarrow> machine \<Rightarrow> (restore_error, unit, machine) outcome" where
  "remove_staged_database p w = (case p of None \<Rightarrow> (Inr (), w) | Some q \<Rightarrow> remove_path q w)"

text \<open>From the maintenance marker to the last switch.\<close>

definition switch_all :: "site \<Rightarrow> restore_input \<Rightarrow> machine \<Rightarrow> (restore_error, unit, machine) outcome" where
  "switch_all st inp w =
     and_then (switch_roots st inp (ri_components inp) w) (\<lambda>_ w1.
       if ''database'' \<notin> set (ri_components inp) then (Inr (), w1)
       else if ri_backend inp = ''sqlite''
       then and_then (switch_sqlite_database st inp w1) (\<lambda>_ w2. write_restore_journal w2)
       else import_database inp w1)"

definition roots_exist :: "site \<Rightarrow> restore_input \<Rightarrow> machine \<Rightarrow> bool" where
  "roots_exist st inp w \<longleftrightarrow>
     list_all (\<lambda>c. c = ''database'' \<or> ws_files w (st_root st c) \<noteq> None) (ri_components inp)"

definition finish_restore :: "site \<Rightarrow> restore_input \<Rightarrow> machine \<Rightarrow> (restore_error, unit, machine) outcome" where
  "finish_restore st inp w =
     (if \<not> roots_exist st inp w
      then (Inl (Recovery_required ''A restored file root failed its existence check.''), w)
      else
        and_then (write_restore_journal (set_phase ''complete'' w)) (\<lambda>_ w1.
        and_then (write_restore_history st ''success'' w1) (\<lambda>_ w2.
        and_then (cleanup_restore_swaps (jn_swaps (ws_memory w2)) w2) (\<lambda>_ w3.
        and_then (clear_restore_markers w3) (\<lambda>_ w4.
        and_then (remove_staged_database (jn_database_staged (ws_memory w4)) w4) (\<lambda>_ w5.
          remove_staging_root st (ri_staging_root inp) w5))))))"

definition run_restore :: "site \<Rightarrow> restore_input \<Rightarrow> machine \<Rightarrow> (restore_error, unit, machine) outcome" where
  "run_restore st inp w =
     and_then (write_restore_journal (remember (\<lambda>_. new_journal st inp) w)) (\<lambda>_ w1.
     and_then (write_restore_marker w1) (\<lambda>_ w2.
     and_then (switch_all st inp w2) (\<lambda>_ w3. finish_restore st inp w3)))"

text \<open>The handler of an exception, with the result it reports, before it raises again.\<close>

definition undo_restore :: "site \<Rightarrow> machine \<Rightarrow> (restore_error, string, machine) outcome" where
  "undo_restore st w =
     (let j = ws_memory w in
      if ws_marker w then
        (if jn_phase j = ''complete'' then (Inr ''recovery-required'', w)
         else if jn_backend j \<noteq> ''sqlite'' \<and> jn_commit_started j \<and> \<not> jn_committed j
         then (Inr ''recovery-required'', set_phase ''recovery-required-database-commit-uncertain'' w)
         else if jn_backend j \<noteq> ''sqlite'' \<and> jn_committed j
         then (Inr ''recovery-required'', set_phase ''recovery-required-after-database-commit'' w)
         else case rollback_swaps st w of
             (Inl Process_died, w1) \<Rightarrow> (Inl Process_died, w1)
           | (Inl _, w1) \<Rightarrow>
               and_then (write_restore_journal (set_phase ''recovery-required'' w1)) (\<lambda>_ w2. (Inr ''recovery-required'', w2))
           | (Inr _, w1) \<Rightarrow>
               and_then (write_restore_journal (set_phase ''rolled-back'' w1)) (\<lambda>_ w2.
               and_then (clear_restore_markers w2) (\<lambda>_ w3. (Inr ''rolled-back'', w3))))
      else and_then (write_step (\<lambda>w. w\<lparr>ws_journal := No_journal\<rparr>) w) (\<lambda>_ w1. (Inr ''failed'', w1)))"

text \<open>An error of the operating system leaves as a \<open>RestoreError\<close>.\<close>

definition reraised :: "restore_error \<Rightarrow> restore_error" where
  "reraised e = (case e of Os_error \<Rightarrow> Restore_failed ''Restore failed'' | _ \<Rightarrow> e)"

definition handle_failure ::
  "site \<Rightarrow> restore_input \<Rightarrow> restore_error \<Rightarrow> machine \<Rightarrow> (restore_error, unit, machine) outcome" where
  "handle_failure st inp e w =
     and_then (undo_restore st w) (\<lambda>result w1.
     and_then (write_restore_history st result w1) (\<lambda>_ w2.
       if result = ''recovery-required''
       then (Inl (Recovery_required ''The maintenance marker remains.''), w2)
       else
         and_then (remove_staged_database (jn_database_staged (ws_memory w2)) w2) (\<lambda>_ w3.
         and_then (remove_staging_root st (ri_staging_root inp) w3) (\<lambda>_ w4. (Inl (reraised e), w4)))))"

definition apply_restore :: "site \<Rightarrow> restore_input \<Rightarrow> machine \<Rightarrow> (restore_error, unit, machine) outcome" where
  "apply_restore st inp w =
     (if ws_journal w \<noteq> No_journal \<or> ws_marker w
      then (Inl (Recovery_required ''An incomplete restore is present''), w)
      else case run_restore st inp w of
        (Inr _, w1) \<Rightarrow> (Inr (), w1)
      | (Inl Process_died, w1) \<Rightarrow> (Inl Process_died, w1)
      | (Inl e, w1) \<Rightarrow> handle_failure st inp e w1)"

definition unsupported_journal :: "journal \<Rightarrow> bool" where
  "unsupported_journal j \<longleftrightarrow> jn_version j \<noteq> RESTORE_FORMAT_VERSION \<or> \<not> is_restore_id (jn_restore_id j)
     \<or> \<not> set (jn_components j) \<subseteq> set (''database'' # RESTORE_COMPONENTS)"

text \<open>What is left of a restore after its swaps were rolled back or completed.\<close>

definition close_recovery :: "site \<Rightarrow> string \<Rightarrow> machine \<Rightarrow> (restore_error, string, machine) outcome" where
  "close_recovery st result w =
     (let j = ws_memory w in
      and_then (cleanup_restore_swaps (jn_swaps j) w) (\<lambda>_ w1.
        if \<not> prefix (st_resolve st (st_instance st)) (st_resolve st (jn_staging_root j))
        then (Inl (Recovery_required ''Restore staging root escapes the active instance.''), w1)
        else
          and_then (remove_staging_root st (jn_staging_root j) w1) (\<lambda>_ w2.
            if jn_database_staged j \<notin> {None, Some (staged_database st (jn_restore_id j))}
            then (Inl (Recovery_required ''Staged database path does not match this instance.''), w2)
            else
              and_then (remove_staged_database (jn_database_staged j) w2) (\<lambda>_ w3.
              and_then (write_restore_history st result w3) (\<lambda>_ w4.
              and_then (clear_restore_markers w4) (\<lambda>_ w5. (Inr result, w5)))))))"

definition recover_restore :: "site \<Rightarrow> machine \<Rightarrow> (restore_error, string, machine) outcome" where
  "recover_restore st w = (case ws_journal w of
     No_journal \<Rightarrow> (Inl (Recovery_required ''Restore maintenance marker has no safe journal''), w)
   | Unreadable_journal \<Rightarrow> (Inl (Recovery_required ''Restore journal is unreadable''), w)
   | Journal j \<Rightarrow>
       (let w1 = remember (\<lambda>_. j) w in
        if unsupported_journal j then (Inl (Recovery_required ''Restore journal format is unsupported.''), w)
        else if jn_phase j \<noteq> ''complete'' \<and> jn_backend j \<noteq> ''sqlite'' \<and> (jn_committed j \<or> jn_commit_started j)
        then (Inl (Recovery_required ''automatic rollback is unsafe''), w)
        else case List.find (\<lambda>e. invalid_swap st j e \<noteq> None) (jn_swaps j) of
            Some e \<Rightarrow> (Inl (Recovery_required (the (invalid_swap st j e))), w)
          | None \<Rightarrow>
              if jn_phase j = ''complete'' then close_recovery st ''completed-cleanup'' w1
              else and_then (rollback_swaps st w1) (\<lambda>_ w2. close_recovery st ''rolled-back'' w2)))"

end
