(* ===== verification/Restore_Safety.thy ===== *)
theory Restore_Safety
  imports Restore_Swaps
begin

text \<open>
  What an interrupted restore leaves, and what recovery makes of it. An entry of the journal
  is in one of three states on the disk: untouched, with its original moved aside, or with
  the new files live. The flags of the journal may lag behind; recovery decides by what it
  finds on the disk.
\<close>

section \<open>The states of a swap\<close>

definition swap_paths :: "swap \<Rightarrow> path list" where
  "swap_paths e = sw_target e # sw_rollback e # (case sw_staged e of None \<Rightarrow> [] | Some s \<Rightarrow> [s])"

text \<open>What the program never changes in an entry.\<close>

definition swap_static :: "swap \<Rightarrow> string \<times> path \<times> path \<times> path option \<times> bool \<times> bool" where
  "swap_static e = (sw_component e, sw_target e, sw_rollback e, sw_staged e, sw_directory e, sw_had_original e)"

definition staged_gone :: "(path \<Rightarrow> string option) \<Rightarrow> swap \<Rightarrow> bool" where
  "staged_gone fs e \<longleftrightarrow> (case sw_staged e of None \<Rightarrow> False | Some s \<Rightarrow> fs s = None)"

text \<open>The disk is \<open>fs\<close>, and \<open>orig\<close> what it was before the restore.\<close>

definition untouched :: "(path \<Rightarrow> string option) \<Rightarrow> (path \<Rightarrow> string option) \<Rightarrow> swap \<Rightarrow> bool" where
  "untouched orig fs e \<longleftrightarrow> fs (sw_target e) = orig (sw_target e) \<and> fs (sw_rollback e) = None \<and> \<not> sw_new_moved e"

definition moved_aside :: "(path \<Rightarrow> string option) \<Rightarrow> (path \<Rightarrow> string option) \<Rightarrow> swap \<Rightarrow> bool" where
  "moved_aside orig fs e \<longleftrightarrow> fs (sw_target e) = None \<and> fs (sw_rollback e) = orig (sw_target e) \<and> sw_had_original e"

definition switched :: "(path \<Rightarrow> string option) \<Rightarrow> (path \<Rightarrow> string option) \<Rightarrow> swap \<Rightarrow> bool" where
  "switched orig fs e \<longleftrightarrow> fs (sw_target e) \<noteq> None \<and> fs (sw_rollback e) = orig (sw_target e)
     \<and> (sw_new_moved e \<or> staged_gone fs e) \<and> (sw_old_moved e \<longrightarrow> sw_had_original e)"

definition swap_ok :: "(path \<Rightarrow> string option) \<Rightarrow> (path \<Rightarrow> string option) \<Rightarrow> swap \<Rightarrow> bool" where
  "swap_ok orig fs e \<longleftrightarrow> sw_had_original e = (orig (sw_target e) \<noteq> None) \<and> distinct (swap_paths e)
     \<and> (untouched orig fs e \<and> \<not> sw_old_moved e \<or> moved_aside orig fs e \<or> switched orig fs e)"

text \<open>
  An original is never anywhere but in its place or aside. An interrupted rollback adds a
  state: the new files are removed and there was nothing before, but a flag is still set.
\<close>

definition emptied :: "(path \<Rightarrow> string option) \<Rightarrow> (path \<Rightarrow> string option) \<Rightarrow> swap \<Rightarrow> bool" where
  "emptied orig fs e \<longleftrightarrow> fs (sw_target e) = None \<and> fs (sw_rollback e) = None \<and> orig (sw_target e) = None"

definition swap_safe :: "(path \<Rightarrow> string option) \<Rightarrow> (path \<Rightarrow> string option) \<Rightarrow> swap \<Rightarrow> bool" where
  "swap_safe orig fs e \<longleftrightarrow> sw_had_original e = (orig (sw_target e) \<noteq> None) \<and> distinct (swap_paths e)
     \<and> (untouched orig fs e \<or> moved_aside orig fs e \<or> switched orig fs e \<or> emptied orig fs e)"

lemma swap_ok_safe: "swap_ok orig fs e \<Longrightarrow> swap_safe orig fs e"
  by (auto simp: swap_ok_def swap_safe_def)

lemma swap_safe_keeps:
  "\<lbrakk> swap_safe orig fs e; orig (sw_target e) = Some x \<rbrakk> \<Longrightarrow> fs (sw_target e) = Some x \<or> fs (sw_rollback e) = Some x"
  by (auto simp: swap_safe_def untouched_def moved_aside_def switched_def emptied_def)

lemma swap_agree:
  assumes "\<And>p. p \<in> set (swap_paths e) \<Longrightarrow> fs' p = fs p"
  shows "swap_ok orig fs' e = swap_ok orig fs e" "swap_safe orig fs' e = swap_safe orig fs e"
proof -
  have "fs' (sw_target e) = fs (sw_target e)" "fs' (sw_rollback e) = fs (sw_rollback e)" "staged_gone fs' e = staged_gone fs e"
    using assms by (auto simp: swap_paths_def staged_gone_def split: option.split)
  then show "swap_ok orig fs' e = swap_ok orig fs e" "swap_safe orig fs' e = swap_safe orig fs e"
    by (simp_all add: swap_ok_def swap_safe_def untouched_def moved_aside_def switched_def emptied_def)
qed

section \<open>Rolling back without an interruption\<close>

text \<open>What a swap looks like after its rollback.\<close>

definition settled :: "swap \<Rightarrow> swap" where
  "settled e = e\<lparr>sw_old_moved := False, sw_new_moved := False\<rparr>"

lemma settled_static [simp]: "swap_static (settled e) = swap_static e" "swap_paths (settled e) = swap_paths e"
  "sw_target (settled e) = sw_target e" "sw_rollback (settled e) = sw_rollback e"
  by (simp_all add: settled_def swap_static_def swap_paths_def)

text \<open>The validation of an entry reads the identifiers of the journal and what is static in the entry.\<close>

definition journal_head :: "journal \<Rightarrow> string \<times> string \<times> path" where
  "journal_head j = (jn_restore_id j, jn_backup_id j, jn_staging_root j)"

lemma invalid_swap_cong:
  assumes "swap_static e' = swap_static e" "journal_head j' = journal_head j"
  shows "invalid_swap st j' e' = invalid_swap st j e"
proof -
  have eqs: "sw_component e' = sw_component e" "sw_target e' = sw_target e" "sw_rollback e' = sw_rollback e"
    "sw_staged e' = sw_staged e" "sw_directory e' = sw_directory e" "jn_restore_id j' = jn_restore_id j"
    "jn_backup_id j' = jn_backup_id j" "jn_staging_root j' = jn_staging_root j"
    using assms by (simp_all add: swap_static_def journal_head_def)
  show ?thesis unfolding invalid_swap_def staging_prefix_def eqs by (rule refl)
qed

lemma calm_write: "ws_events w = [] \<Longrightarrow> write_step f w = (Inr (), f w)"
  by (simp add: write_step_def)

lemma calm_remove: "ws_events w = [] \<Longrightarrow> remove_path p w = (Inr (), w\<lparr>ws_files := (ws_files w)(p := None)\<rparr>)"
  by (cases w) (auto simp: remove_path_def fun_upd_idem)

lemma calm_move:
  "\<lbrakk> ws_events w = []; ws_files w p \<noteq> None; ws_files w q = None \<rbrakk>
   \<Longrightarrow> move d p q w = (Inr (), w\<lparr>ws_files := (ws_files w)(q := ws_files w p, p := None)\<rparr>)"
  by (simp add: move_def write_step_def Let_def)

lemmas calm = calm_write calm_remove calm_move write_restore_journal_def write_restore_marker_def

lemma swap_flags:
  "e\<lparr>sw_new_moved := a, sw_old_moved := b\<rparr> = e\<lparr>sw_old_moved := b, sw_new_moved := a\<rparr>"
  "\<not> sw_new_moved e \<Longrightarrow> e\<lparr>sw_new_moved := False\<rparr> = e" "\<not> sw_old_moved e \<Longrightarrow> e\<lparr>sw_old_moved := False\<rparr> = e"
  "\<not> sw_new_moved e \<Longrightarrow> e\<lparr>sw_old_moved := b, sw_new_moved := False\<rparr> = e\<lparr>sw_old_moved := b\<rparr>"
  "\<not> sw_old_moved e \<Longrightarrow> e\<lparr>sw_old_moved := False, sw_new_moved := a\<rparr> = e\<lparr>sw_new_moved := a\<rparr>"
  by (cases e; simp)+

text \<open>One swap is rolled back.\<close>

definition rolled_back :: "(path \<Rightarrow> string option) \<Rightarrow> nat \<Rightarrow> machine \<Rightarrow> machine \<Rightarrow> bool" where
  "rolled_back orig i w w' \<longleftrightarrow>
     ws_files w' = (ws_files w)(sw_target (jn_swaps (ws_memory w) ! i) := orig (sw_target (jn_swaps (ws_memory w) ! i)),
        sw_rollback (jn_swaps (ws_memory w) ! i) := None)
     \<and> ws_memory w' = (ws_memory w)\<lparr>jn_swaps := (jn_swaps (ws_memory w))[i := settled (jn_swaps (ws_memory w) ! i)]\<rparr>
     \<and> ws_marker w' = ws_marker w \<and> ws_history w' = ws_history w \<and> ws_server w' = ws_server w \<and> ws_events w' = []"

lemma rollback_swap_calm:
  assumes ev: "ws_events w = []" and i: "i < length (jn_swaps (ws_memory w))"
    and e: "e = jn_swaps (ws_memory w) ! i" and ok: "swap_ok orig (ws_files w) e"
    and valid: "invalid_swap st (ws_memory w) e = None"
  shows "\<exists>w'. rollback_swap st i w = (Inr (), w') \<and> rolled_back orig i w w'"
proof -
  have tr: "sw_target e \<noteq> sw_rollback e" using ok by (auto simp: swap_ok_def swap_paths_def)
  have had: "sw_had_original e = (orig (sw_target e) \<noteq> None)" using ok by (simp add: swap_ok_def)
  consider (a) "untouched orig (ws_files w) e" "\<not> sw_old_moved e" | (b) "moved_aside orig (ws_files w) e"
    | (c) "switched orig (ws_files w) e"
    using ok by (auto simp: swap_ok_def)
  then show ?thesis
  proof cases
    case a
    then have "\<not> staged_was_moved e w" using had by (auto simp: staged_was_moved_def untouched_def)
    moreover have "settled e = e" using a by (simp add: settled_def untouched_def swap_flags)
    moreover have "ws_files w = (ws_files w)(sw_target e := orig (sw_target e), sw_rollback e := None)"
      using a by (auto simp: untouched_def)
    ultimately show ?thesis
      using a ev i valid e
      by (auto simp: rollback_swap_def Let_def untouched_def rolled_back_def)
  next
    case b
    then show ?thesis
      using ev i valid e tr had
      by (auto simp: rollback_swap_def Let_def moved_aside_def rolled_back_def calm set_swap_def remember_def
          staged_was_moved_def settled_def swap_flags fun_eq_iff)
  next
    case c
    have "sw_new_moved e \<or> staged_was_moved e w"
      using c had by (auto simp: switched_def staged_was_moved_def staged_gone_def split: option.splits)
    then show ?thesis
      using c ev i valid e tr had
      by (cases "orig (sw_target e)")
        (auto simp: rollback_swap_def Let_def switched_def rolled_back_def calm set_swap_def remember_def
          settled_def swap_flags fun_eq_iff)
  qed
qed

text \<open>Swaps whose paths do not meet.\<close>

definition apart :: "swap list \<Rightarrow> bool" where
  "apart es \<longleftrightarrow> distinct (concat (map swap_paths es))"

lemma apart_nth:
  assumes "apart es" "i < length es" "k < length es" "i \<noteq> k"
  shows "set (swap_paths (es ! i)) \<inter> set (swap_paths (es ! k)) = {}"
proof -
  have "set (swap_paths (es ! a)) \<inter> set (swap_paths (es ! b)) = {}" if "a < b" "b < length es" for a b
  proof -
    have "es = take b es @ es ! b # drop (Suc b) es" using that by (simp add: id_take_nth_drop)
    then have "distinct (concat (map swap_paths (take b es)) @ swap_paths (es ! b) @ concat (map swap_paths (drop (Suc b) es)))"
      using assms(1) unfolding apart_def by (metis concat.simps(2) concat_append list.simps(9) map_append)
    moreover have "es ! a \<in> set (take b es)" using that by (auto simp: in_set_conv_nth)
    ultimately show ?thesis by auto
  qed
  then show ?thesis using assms(2-4) by (metis Int_commute linorder_neqE_nat)
qed

lemma swap_paths_static: "swap_static e' = swap_static e \<Longrightarrow> swap_paths e' = swap_paths e"
  by (simp add: swap_static_def swap_paths_def)

lemma swap_paths_of_static:
  "map swap_paths es = map (\<lambda>(c, t, r, s, d, h). t # r # (case s of None \<Rightarrow> [] | Some x \<Rightarrow> [x])) (map swap_static es)"
  by (simp add: swap_static_def swap_paths_def)

lemma apart_static: "map swap_static es' = map swap_static es \<Longrightarrow> apart es' = apart es"
  by (simp only: apart_def swap_paths_of_static)

lemma swap_paths_mem [simp]: "sw_target e \<in> set (swap_paths e)" "sw_rollback e \<in> set (swap_paths e)"
  by (simp_all add: swap_paths_def)

text \<open>The rollback of several swaps.\<close>

lemma rollback_each_calm:
  assumes "ws_events w = []" "distinct is" "\<forall>i \<in> set is. i < length (jn_swaps (ws_memory w))"
    "apart (jn_swaps (ws_memory w))"
    "\<forall>i \<in> set is. swap_ok orig (ws_files w) (jn_swaps (ws_memory w) ! i) \<and> invalid_swap st (ws_memory w) (jn_swaps (ws_memory w) ! i) = None"
  shows "\<exists>w'. rollback_each st is w = (Inr (), w') \<and> ws_events w' = [] \<and> ws_marker w' = ws_marker w
    \<and> ws_history w' = ws_history w \<and> ws_server w' = ws_server w
    \<and> map swap_static (jn_swaps (ws_memory w')) = map swap_static (jn_swaps (ws_memory w))
    \<and> ws_memory w' = (ws_memory w)\<lparr>jn_swaps := jn_swaps (ws_memory w')\<rparr>
    \<and> ws_files w' = (\<lambda>p. if \<exists>i \<in> set is. p = sw_target (jn_swaps (ws_memory w) ! i) then orig p
        else if \<exists>i \<in> set is. p = sw_rollback (jn_swaps (ws_memory w) ! i) then None else ws_files w p)"
  using assms
proof (induction "is" arbitrary: w)
  case Nil
  then show ?case by simp
next
  case (Cons i "is")
  let ?es = "jn_swaps (ws_memory w)"
  obtain w1 where w1: "rollback_swap st i w = (Inr (), w1)" "rolled_back orig i w w1"
    using Cons.prems rollback_swap_calm [of w i "?es ! i" orig st] by auto
  have mem: "jn_swaps (ws_memory w1) = ?es[i := settled (?es ! i)]"
    "ws_memory w1 = (ws_memory w)\<lparr>jn_swaps := ?es[i := settled (?es ! i)]\<rparr>"
    and fs: "ws_files w1 = (ws_files w)(sw_target (?es ! i) := orig (sw_target (?es ! i)), sw_rollback (?es ! i) := None)"
    and same: "ws_events w1 = []" "ws_marker w1 = ws_marker w" "ws_history w1 = ws_history w" "ws_server w1 = ws_server w"
    using w1(2) by (simp_all add: rolled_back_def)
  have stat: "map swap_static (jn_swaps (ws_memory w1)) = map swap_static ?es"
    by (simp add: mem map_update) (metis list_update_id map_update settled_static(1))
  have nth: "jn_swaps (ws_memory w1) ! k = ?es ! k" if "k \<in> set is" for k
    using that Cons.prems(2) by (cases "k = i") (auto simp: mem)
  have other: "ws_files w1 p = ws_files w p" if "k \<in> set is" "p \<in> set (swap_paths (?es ! k))" for k p
  proof -
    have "i \<noteq> k" using that Cons.prems(2) by auto
    then show ?thesis using that Cons.prems(3,4) apart_nth [of ?es i k] by (auto simp: fs swap_paths_def)
  qed
  have "\<exists>w'. rollback_each st is w1 = (Inr (), w') \<and> ws_events w' = [] \<and> ws_marker w' = ws_marker w1
    \<and> ws_history w' = ws_history w1 \<and> ws_server w' = ws_server w1
    \<and> map swap_static (jn_swaps (ws_memory w')) = map swap_static (jn_swaps (ws_memory w1))
    \<and> ws_memory w' = (ws_memory w1)\<lparr>jn_swaps := jn_swaps (ws_memory w')\<rparr>
    \<and> ws_files w' = (\<lambda>p. if \<exists>i \<in> set is. p = sw_target (jn_swaps (ws_memory w1) ! i) then orig p
        else if \<exists>i \<in> set is. p = sw_rollback (jn_swaps (ws_memory w1) ! i) then None else ws_files w1 p)"
  proof (rule Cons.IH)
    show "\<forall>k \<in> set is. swap_ok orig (ws_files w1) (jn_swaps (ws_memory w1) ! k)
        \<and> invalid_swap st (ws_memory w1) (jn_swaps (ws_memory w1) ! k) = None"
    proof
      fix k assume k: "k \<in> set is"
      then have "swap_ok orig (ws_files w1) (?es ! k)"
        using Cons.prems(5) other swap_agree(1) [of "?es ! k" "ws_files w1" "ws_files w" orig] by simp
      moreover have "invalid_swap st (ws_memory w1) (?es ! k) = invalid_swap st (ws_memory w) (?es ! k)"
        by (rule invalid_swap_cong) (simp_all add: mem journal_head_def)
      ultimately show "swap_ok orig (ws_files w1) (jn_swaps (ws_memory w1) ! k)
          \<and> invalid_swap st (ws_memory w1) (jn_swaps (ws_memory w1) ! k) = None"
        using Cons.prems(5) k nth by simp
    qed
    show "apart (jn_swaps (ws_memory w1))" using apart_static [OF stat] Cons.prems(4) by simp
  qed (use Cons.prems same in \<open>simp_all add: mem\<close>)
  then obtain w' where w': "rollback_each st is w1 = (Inr (), w')" "ws_events w' = []" "ws_marker w' = ws_marker w"
    "ws_history w' = ws_history w" "ws_server w' = ws_server w"
    "map swap_static (jn_swaps (ws_memory w')) = map swap_static ?es"
    "ws_memory w' = (ws_memory w1)\<lparr>jn_swaps := jn_swaps (ws_memory w')\<rparr>"
    "ws_files w' = (\<lambda>p. if \<exists>i \<in> set is. p = sw_target (jn_swaps (ws_memory w1) ! i) then orig p
        else if \<exists>i \<in> set is. p = sw_rollback (jn_swaps (ws_memory w1) ! i) then None else ws_files w1 p)"
    using same stat by auto
  have tr: "sw_target (?es ! i) \<noteq> sw_rollback (?es ! i)"
    using Cons.prems(5) by (auto simp: swap_ok_def swap_paths_def)
  have sep: "sw_target (?es ! i) \<noteq> sw_rollback (?es ! k) \<and> sw_rollback (?es ! i) \<noteq> sw_target (?es ! k)" if "k \<in> set is" for k
  proof -
    have "i \<noteq> k" using that Cons.prems(2) by auto
    then show ?thesis using that Cons.prems(3,4) apart_nth [of ?es i k] by (auto simp: swap_paths_def)
  qed
  have "ws_files w' = (\<lambda>p. if \<exists>k \<in> set (i # is). p = sw_target (?es ! k) then orig p
        else if \<exists>k \<in> set (i # is). p = sw_rollback (?es ! k) then None else ws_files w p)"
    unfolding w'(8) fs using tr sep nth by (auto simp: fun_eq_iff)
  then show ?case using w1(1) w' mem by simp
qed

section \<open>The plan of a restore\<close>

definition plan_components :: "restore_input \<Rightarrow> string list" where
  "plan_components inp = filter (\<lambda>c. c \<noteq> ''database'') (ri_components inp)
     @ (if sqlite_selected inp then map (\<lambda>s. ''database'' @ s) SIDECARS @ [''database''] else [])"

definition plan_target :: "site \<Rightarrow> string \<Rightarrow> path" where
  "plan_target st c = (if c \<in> set RESTORE_COMPONENTS then st_root st c
     else add_suffix (st_database st) (drop (length ''database'') c))"

definition plan_rollback :: "site \<Rightarrow> restore_input \<Rightarrow> string \<Rightarrow> path" where
  "plan_rollback st inp c = (if c \<in> set RESTORE_COMPONENTS then root_rollback st (ri_restore_id inp) c
     else file_rollback (ri_restore_id inp) (plan_target st c))"

definition plan_staged :: "site \<Rightarrow> restore_input \<Rightarrow> string \<Rightarrow> path option" where
  "plan_staged st inp c = (if c \<in> set RESTORE_COMPONENTS then Some (staged_root inp c)
     else if c = ''database'' then Some (staged_database st (ri_restore_id inp)) else None)"

definition plan_paths :: "site \<Rightarrow> restore_input \<Rightarrow> string \<Rightarrow> path list" where
  "plan_paths st inp c = plan_target st c # plan_rollback st inp c
     # (case plan_staged st inp c of None \<Rightarrow> [] | Some s \<Rightarrow> [s])"

text \<open>The disk after everything staged was removed, and with the restored files in place.\<close>

definition doomed :: "site \<Rightarrow> restore_input \<Rightarrow> path \<Rightarrow> bool" where
  "doomed st inp p \<longleftrightarrow> prefix (ri_staging_root inp) p \<or> sqlite_selected inp \<and> p = staged_database st (ri_restore_id inp)"

definition kept :: "site \<Rightarrow> restore_input \<Rightarrow> (path \<Rightarrow> string option) \<Rightarrow> path \<Rightarrow> string option" where
  "kept st inp fs p = (if doomed st inp p then None else fs p)"

definition installed :: "site \<Rightarrow> restore_input \<Rightarrow> (path \<Rightarrow> string option) \<Rightarrow> path \<Rightarrow> string option" where
  "installed st inp fs p = (case List.find (\<lambda>c. plan_target st c = p) (plan_components inp) of
     None \<Rightarrow> kept st inp fs p
   | Some c \<Rightarrow> Option.bind (plan_staged st inp c) fs)"

text \<open>
  What a restore starts from: no restore is open, and its paths do not meet. A plan that
  restores a directory together with a database inside it is outside this condition.
\<close>

definition flat_paths :: "path list \<Rightarrow> bool" where
  "flat_paths ps \<longleftrightarrow> list_all (\<lambda>p. list_all (\<lambda>q. prefix p q \<longrightarrow> p = q) ps) ps"

definition restore_ready :: "site \<Rightarrow> restore_input \<Rightarrow> machine \<Rightarrow> bool" where
  "restore_ready st inp w \<longleftrightarrow>
     ws_journal w = No_journal \<and> \<not> ws_marker w
     \<and> is_restore_id (ri_restore_id inp) \<and> is_backup_id (ri_backup_id inp)
     \<and> list_all (\<lambda>c. c = ''database'' \<or> c \<in> set RESTORE_COMPONENTS) (ri_components inp)
     \<and> (''database'' \<in> set (ri_components inp) \<longrightarrow> ri_backend inp = ''sqlite'')
     \<and> st_database st \<noteq> [] \<and> ri_staging_root inp \<noteq> []
     \<and> butlast (ri_staging_root inp) \<in> {st_instance st, st_tmp st}
     \<and> startswith (last (ri_staging_root inp)) (staging_prefix st (new_journal st inp))
     \<and> prefix (st_resolve st (st_instance st)) (st_resolve st (ri_staging_root inp))
     \<and> distinct (concat (map (plan_paths st inp) (plan_components inp)))
     \<and> flat_paths (concat (map (plan_paths st inp) (plan_components inp)))
     \<and> list_all (\<lambda>c. ws_files w (plan_rollback st inp c) = None
          \<and> \<not> prefix (ri_staging_root inp) (plan_rollback st inp c)
          \<and> \<not> prefix (ri_staging_root inp) (plan_target st c)) (plan_components inp)
     \<and> ws_files w (st_root st ''data'') \<noteq> None \<and> \<not> prefix (ri_staging_root inp) (st_root st ''data'')
     \<and> st_root st ''data'' \<noteq> staged_database st (ri_restore_id inp)
     \<and> (''data'' \<in> set (ri_components inp)
        \<or> st_root st ''data'' \<notin> set (concat (map (plan_paths st inp) (plan_components inp))))"

definition swap_shape :: "site \<Rightarrow> restore_input \<Rightarrow> swap \<Rightarrow> bool" where
  "swap_shape st inp e \<longleftrightarrow> (let c = sw_component e in
     c \<in> set (plan_components inp) \<and> sw_target e = plan_target st c \<and> sw_rollback e = plan_rollback st inp c
     \<and> sw_staged e = plan_staged st inp c \<and> sw_directory e = (c \<in> set RESTORE_COMPONENTS))"

lemma shape_paths: "swap_shape st inp e \<Longrightarrow> swap_paths e = plan_paths st inp (sw_component e)"
  by (simp add: swap_shape_def swap_paths_def plan_paths_def Let_def)

lemma shape_static: "\<lbrakk> swap_shape st inp e; swap_static e' = swap_static e \<rbrakk> \<Longrightarrow> swap_shape st inp e'"
  by (simp add: swap_shape_def swap_static_def Let_def)

lemma plan_component_cases:
  assumes "restore_ready st inp w" "c \<in> set (plan_components inp)"
  obtains "c \<in> set RESTORE_COMPONENTS" | s where "c = ''database'' @ s" "s \<in> set ([] # SIDECARS)" "c \<notin> set RESTORE_COMPONENTS"
proof -
  have "c \<in> set RESTORE_COMPONENTS \<or> (\<exists>s \<in> set ([] # SIDECARS). c = ''database'' @ s)"
    using assms by (auto simp: restore_ready_def plan_components_def list_all_iff split: if_splits)
  moreover have "\<forall>s \<in> set ([] # SIDECARS). ''database'' @ s \<notin> set RESTORE_COMPONENTS"
    by (simp add: SIDECARS_def RESTORE_COMPONENTS_def)
  ultimately show ?thesis using that by blast
qed

lemma shape_valid:
  assumes ready: "restore_ready st inp w" and shape: "swap_shape st inp e"
    and head: "journal_head j = (ri_restore_id inp, ri_backup_id inp, ri_staging_root inp)"
  shows "invalid_swap st j e = None"
proof -
  have j: "jn_restore_id j = ri_restore_id inp" "jn_backup_id j = ri_backup_id inp" "jn_staging_root j = ri_staging_root inp"
    using head by (simp_all add: journal_head_def)
  have "staging_prefix st (new_journal st inp) = staging_prefix st j"
    by (simp add: staging_prefix_def new_journal_def j)
  then have root: "ri_staging_root inp \<noteq> []" "butlast (ri_staging_root inp) \<in> {st_instance st, st_tmp st}"
    "startswith (last (ri_staging_root inp)) (staging_prefix st j)" "is_backup_id (ri_backup_id inp)"
    "prefix (st_resolve st (st_instance st)) (st_resolve st (ri_staging_root inp))"
    using ready by (simp_all add: restore_ready_def)
  have "sw_component e \<in> set (plan_components inp)" using shape by (simp add: swap_shape_def Let_def)
  with ready show ?thesis
  proof (cases rule: plan_component_cases)
    case 1
    then show ?thesis
      using shape root by (simp add: swap_shape_def Let_def invalid_swap_def plan_target_def plan_rollback_def
          plan_staged_def staged_root_def j)
  next
    case (2 s)
    then show ?thesis
      using shape by (simp add: swap_shape_def Let_def invalid_swap_def plan_target_def plan_rollback_def
          plan_staged_def j)
  qed
qed

section \<open>The disk while a restore is open\<close>

definition swaps_ok :: "(path \<Rightarrow> string option) \<Rightarrow> (path \<Rightarrow> string option) \<Rightarrow> swap list \<Rightarrow> bool" where
  "swaps_ok orig fs es \<longleftrightarrow> apart es \<and> (\<forall>e \<in> set es. swap_ok orig fs e)
     \<and> (\<forall>p. (\<forall>e \<in> set es. p \<notin> set (swap_paths e)) \<longrightarrow> fs p = orig p)"

text \<open>The fields of a journal that never change, and the journal of a restore that is open.\<close>

definition journal_fixed ::
  "journal \<Rightarrow> int \<times> string \<times> string \<times> path \<times> string list \<times> string \<times> path option" where
  "journal_fixed j = (jn_version j, jn_restore_id j, jn_backup_id j, jn_staging_root j, jn_components j,
     jn_backend j, jn_database_staged j)"

definition journal_open ::
  "site \<Rightarrow> restore_input \<Rightarrow> (path \<Rightarrow> string option) \<Rightarrow> (path \<Rightarrow> string option) \<Rightarrow> journal \<Rightarrow> bool" where
  "journal_open st inp orig fs j \<longleftrightarrow> journal_fixed j = journal_fixed (new_journal st inp) \<and> jn_phase j \<noteq> ''complete''
     \<and> \<not> jn_commit_started j \<and> (ri_backend inp \<noteq> ''sqlite'' \<longrightarrow> \<not> jn_committed j)
     \<and> (\<forall>e \<in> set (jn_swaps j). swap_shape st inp e) \<and> swaps_ok orig fs (jn_swaps j)"

definition restore_open :: "site \<Rightarrow> restore_input \<Rightarrow> (path \<Rightarrow> string option) \<Rightarrow> machine \<Rightarrow> bool" where
  "restore_open st inp orig w \<longleftrightarrow> (\<exists>j. ws_journal w = Journal j \<and> journal_open st inp orig (ws_files w) j)
     \<and> journal_open st inp orig (ws_files w) (ws_memory w)"

text \<open>A change on the paths of one entry, for a condition on entries that reads only their paths.\<close>

lemma swap_agree_all:
  "\<forall>e. (\<forall>p \<in> set (swap_paths e). fs' p = fs p) \<longrightarrow> swap_ok orig fs' e = swap_ok orig fs e"
  "\<forall>e. (\<forall>p \<in> set (swap_paths e). fs' p = fs p) \<longrightarrow> swap_safe orig fs' e = swap_safe orig fs e"
  using swap_agree by blast+

lemma entries_update:
  assumes apart: "apart es" and all: "\<forall>e \<in> set es. P fs e" and i: "i < length es"
    and st: "swap_static e' = swap_static (es ! i)" and e': "P fs' e'"
    and same: "\<forall>p. p \<notin> set (swap_paths (es ! i)) \<longrightarrow> fs' p = fs p"
    and agree: "\<forall>e. (\<forall>p \<in> set (swap_paths e). fs' p = fs p) \<longrightarrow> P fs' e = P fs e"
  shows "apart (es[i := e'])" "\<forall>e \<in> set (es[i := e']). P fs' e"
    "(\<forall>e \<in> set (es[i := e']). p \<notin> set (swap_paths e)) = (\<forall>e \<in> set es. p \<notin> set (swap_paths e))"
proof -
  have stat: "map swap_static (es[i := e']) = map swap_static es"
    using st i by (simp add: map_update list_update_same_conv)
  show "apart (es[i := e'])" using apart_static [OF stat] apart by simp
  show "\<forall>e \<in> set (es[i := e']). P fs' e"
  proof
    fix e assume "e \<in> set (es[i := e'])"
    then obtain k where k: "k < length es" "e = (es[i := e']) ! k" by (auto simp: in_set_conv_nth)
    show "P fs' e"
    proof (cases "k = i")
      case True
      then show ?thesis using k e' by simp
    next
      case False
      then have "fs' p = fs p" if "p \<in> set (swap_paths (es ! k))" for p
        using that apart i k apart_nth [of es i k] same by blast
      then have "P fs' (es ! k) = P fs (es ! k)" using agree by blast
      then show ?thesis using False k all by simp
    qed
  qed
  have paths: "map swap_paths (es[i := e']) = map swap_paths es" using stat swap_paths_of_static by metis
  have "(\<forall>e \<in> set xs. p \<notin> set (swap_paths e)) = (\<forall>ps \<in> set (map swap_paths xs). p \<notin> set ps)" for xs by simp
  then show "(\<forall>e \<in> set (es[i := e']). p \<notin> set (swap_paths e)) = (\<forall>e \<in> set es. p \<notin> set (swap_paths e))"
    by (simp only: paths)
qed

lemma swaps_ok_update:
  assumes ok: "swaps_ok orig fs es" and i: "i < length es" and st: "swap_static e' = swap_static (es ! i)"
    and e': "swap_ok orig fs' e'" and same: "\<And>p. p \<notin> set (swap_paths (es ! i)) \<Longrightarrow> fs' p = fs p"
  shows "swaps_ok orig fs' (es[i := e'])"
proof -
  have "apart es" "\<forall>e \<in> set es. swap_ok orig fs e" using ok by (simp_all add: swaps_ok_def)
  note new = entries_update [OF this i st e' _ swap_agree_all(1)]
  have off: "\<forall>p. p \<notin> set (swap_paths (es ! i)) \<longrightarrow> fs' p = fs p" using same by blast
  have "fs' p = orig p" if "\<forall>e \<in> set es. p \<notin> set (swap_paths e)" for p
    using that ok same i by (simp add: swaps_ok_def)
  then show ?thesis unfolding swaps_ok_def new(3) [OF off] using new(1,2) [OF off] by blast
qed

end
