(* ===== verification/Restore_Runs.thy ===== *)
theory Restore_Runs
  imports Restore_Safety
begin

text \<open>
  The run of a restore, step by step: whatever happens to a step, the journal on the disk
  describes the disk well enough for the recovery to put everything back, until the journal
  says that the restore is complete.
\<close>

section \<open>Outcomes and what they promise\<close>

definition ends :: "(restore_error, 'a, machine) outcome \<Rightarrow> (restore_error \<Rightarrow> machine \<Rightarrow> bool) \<Rightarrow> ('a \<Rightarrow> machine \<Rightarrow> bool) \<Rightarrow> bool" where
  "ends x E Q \<longleftrightarrow> (case x of (Inl e, w) \<Rightarrow> E e w | (Inr a, w) \<Rightarrow> Q a w)"

lemma ends_simps [simp]: "ends (Inl e, w) E Q = E e w" "ends (Inr a, w) E Q = Q a w"
  by (simp_all add: ends_def)

lemma ends_bind:
  assumes "ends x E P" "\<And>a w. P a w \<Longrightarrow> ends (f a w) E Q"
  shows "ends (and_then x f) E Q"
proof -
  obtain r w where x: "x = (r, w)" by (cases x)
  show ?thesis using assms by (cases r) (simp_all add: x)
qed

lemma and_then_assoc: "and_then (and_then x f) g = and_then x (\<lambda>a w. and_then (f a w) g)"
  by (simp add: and_then_def split: prod.split sum.split)

lemma ends_mono:
  assumes "ends x E P" "\<And>e w. E e w \<Longrightarrow> E' e w" "\<And>a w. P a w \<Longrightarrow> Q a w"
  shows "ends x E' Q"
  using assms by (auto simp: ends_def split: prod.splits sum.splits)

lemma ends_Inl: "\<lbrakk> ends x E Q; x = (Inl e, w) \<rbrakk> \<Longrightarrow> E e w"
  by (simp add: ends_def)

lemma ends_Inr: "\<lbrakk> ends x E Q; x = (Inr a, w) \<rbrakk> \<Longrightarrow> Q a w"
  by (simp add: ends_def)

section \<open>Open journals\<close>

definition synced :: "machine \<Rightarrow> bool" where
  "synced w \<longleftrightarrow> ws_journal w = Journal (ws_memory w)"

definition held :: "site \<Rightarrow> restore_input \<Rightarrow> (path \<Rightarrow> string option) \<Rightarrow> machine \<Rightarrow> bool" where
  "held st inp orig w \<longleftrightarrow> restore_open st inp orig w \<and> ws_marker w"

lemma held_events [simp]: "held st inp orig (w\<lparr>ws_events := es\<rparr>) = held st inp orig w"
  by (simp add: held_def restore_open_def)

lemma held_memory: "held st inp orig w \<Longrightarrow> journal_open st inp orig (ws_files w) (ws_memory w)"
  by (simp add: held_def restore_open_def)

lemma held_synced:
  "\<lbrakk> synced w; ws_marker w; journal_open st inp orig (ws_files w) (ws_memory w) \<rbrakk> \<Longrightarrow> held st inp orig w"
  by (simp add: held_def restore_open_def synced_def)

lemma held_remember:
  "\<lbrakk> held st inp orig w; journal_open st inp orig (ws_files w) (f (ws_memory w)) \<rbrakk> \<Longrightarrow> held st inp orig (remember f w)"
  by (simp add: held_def restore_open_def remember_def)

lemma write_journal_held:
  assumes "held st inp orig w"
  shows "ends (write_restore_journal w) (\<lambda>_. held st inp orig)
    (\<lambda>_ w'. held st inp orig w' \<and> synced w' \<and> ws_files w' = ws_files w \<and> ws_memory w' = ws_memory w)"
  using assms
  by (auto simp: write_restore_journal_def write_step_def held_def restore_open_def synced_def
      split: list.split event.split)

text \<open>A change of the disk on the paths of one entry, and a change of the flags of one entry.\<close>

lemma journal_open_files:
  assumes j: "journal_open st inp orig fs j" and i: "i < length (jn_swaps j)"
    and ok: "swap_ok orig fs' (jn_swaps j ! i)" and same: "\<And>p. p \<notin> set (swap_paths (jn_swaps j ! i)) \<Longrightarrow> fs' p = fs p"
  shows "journal_open st inp orig fs' j"
proof -
  have "swaps_ok orig fs' ((jn_swaps j)[i := jn_swaps j ! i])"
    using j by (intro swaps_ok_update [OF _ i _ ok same]) (auto simp: journal_open_def)
  then show ?thesis using j by (simp add: journal_open_def)
qed

lemma journal_open_flags:
  assumes j: "journal_open st inp orig fs j" and i: "i < length (jn_swaps j)"
    and st: "swap_static e' = swap_static (jn_swaps j ! i)" and ok: "swap_ok orig fs e'"
  shows "journal_open st inp orig fs (j\<lparr>jn_swaps := (jn_swaps j)[i := e']\<rparr>)"
proof -
  have "swaps_ok orig fs ((jn_swaps j)[i := e'])"
    using j by (intro swaps_ok_update [OF _ i st ok]) (auto simp: journal_open_def)
  moreover have "swap_shape st inp e'" using j i st by (auto simp: journal_open_def intro: shape_static)
  then have "\<forall>e \<in> set ((jn_swaps j)[i := e']). swap_shape st inp e"
    using j set_update_subset_insert [of "jn_swaps j" i e'] by (auto simp: journal_open_def)
  ultimately show ?thesis using j by (simp add: journal_open_def journal_fixed_def)
qed

lemma set_swap_held:
  assumes "held st inp orig w" "i < length (jn_swaps (ws_memory w))"
    "swap_static (f (jn_swaps (ws_memory w) ! i)) = swap_static (jn_swaps (ws_memory w) ! i)"
    "swap_ok orig (ws_files w) (f (jn_swaps (ws_memory w) ! i))"
  shows "held st inp orig (set_swap i f w)"
  unfolding set_swap_def by (rule held_remember [OF assms(1)]) (rule journal_open_flags [OF held_memory [OF assms(1)] assms(2-4)])

lemma move_held:
  assumes held: "held st inp orig w" and sync: "synced w" and i: "i < length (jn_swaps (ws_memory w))"
    and pq: "p \<in> set (swap_paths (jn_swaps (ws_memory w) ! i))" "q \<in> set (swap_paths (jn_swaps (ws_memory w) ! i))"
    and ok: "ws_files w p \<noteq> None \<Longrightarrow> (d \<Longrightarrow> ws_files w q = None)
      \<Longrightarrow> swap_ok orig ((ws_files w)(q := ws_files w p, p := None)) (jn_swaps (ws_memory w) ! i)"
  shows "ends (move d p q w) (\<lambda>_. held st inp orig)
    (\<lambda>_ w'. held st inp orig w' \<and> synced w' \<and> ws_memory w' = ws_memory w
       \<and> ws_files w p \<noteq> None \<and> ws_files w' = (ws_files w)(q := ws_files w p, p := None))"
proof (cases "ws_files w p = None \<or> d \<and> ws_files w q \<noteq> None")
  case True
  then show ?thesis using held by (auto simp: move_def)
next
  case False
  let ?fs = "(ws_files w)(q := ws_files w p, p := None)"
  have "journal_open st inp orig ?fs (ws_memory w)"
    using False pq by (intro journal_open_files [OF held_memory [OF held] i ok]) auto
  then have "held st inp orig (w\<lparr>ws_events := es, ws_files := ?fs\<rparr>)" "synced (w\<lparr>ws_events := es, ws_files := ?fs\<rparr>)"
    "held st inp orig (w\<lparr>ws_files := ?fs\<rparr>)" "synced (w\<lparr>ws_files := ?fs\<rparr>)" for es
    using sync held by (auto simp: held_def restore_open_def synced_def)
  then show ?thesis
    using False held by (auto simp: move_def write_step_def Let_def split: list.split event.split)
qed

section \<open>Switching one entry\<close>

lemma swap_paths_staged: "sw_staged e = Some s \<Longrightarrow> s \<in> set (swap_paths e)"
  by (simp add: swap_paths_def)

text \<open>What is on the disk once an entry has been switched.\<close>

definition landed :: "(path \<Rightarrow> string option) \<Rightarrow> (path \<Rightarrow> string option) \<Rightarrow> swap \<Rightarrow> bool" where
  "landed orig fs e \<longleftrightarrow> fs (sw_target e) = Option.bind (sw_staged e) orig"

definition statics :: "machine \<Rightarrow> (string \<times> path \<times> path \<times> path option \<times> bool \<times> bool) list" where
  "statics w = map swap_static (jn_swaps (ws_memory w))"

lemma statics_set_swap:
  "(\<And>e. swap_static (f e) = swap_static e) \<Longrightarrow> statics (set_swap i f w) = statics w"
  by (cases "i < length (jn_swaps (ws_memory w))")
    (simp_all add: statics_def set_swap_def remember_def map_update list_update_same_conv list_update_beyond)

text \<open>The entry moves from untouched to aside.\<close>

definition at_swap :: "site \<Rightarrow> restore_input \<Rightarrow> (path \<Rightarrow> string option) \<Rightarrow> nat \<Rightarrow> machine \<Rightarrow> machine \<Rightarrow> bool" where
  "at_swap st inp orig i w w' \<longleftrightarrow> held st inp orig w' \<and> synced w' \<and> statics w' = statics w
     \<and> i < length (jn_swaps (ws_memory w'))"

lemma at_swap_entry:
  assumes "at_swap st inp orig i w w'"
  shows "swap_ok orig (ws_files w') (jn_swaps (ws_memory w') ! i)" "i < length (jn_swaps (ws_memory w'))"
    "held st inp orig w'" "synced w'" "statics w' = statics w"
    "swap_static (jn_swaps (ws_memory w') ! i) = swap_static (jn_swaps (ws_memory w) ! i)"
proof -
  show i: "i < length (jn_swaps (ws_memory w'))" and "held st inp orig w'" "synced w'" and eq: "statics w' = statics w"
    using assms by (simp_all add: at_swap_def)
  then show "swap_ok orig (ws_files w') (jn_swaps (ws_memory w') ! i)"
    using held_memory [of st inp orig w'] by (simp add: journal_open_def swaps_ok_def)
  have "length (jn_swaps (ws_memory w')) = length (jn_swaps (ws_memory w))"
    using eq unfolding statics_def by (metis length_map)
  then show "swap_static (jn_swaps (ws_memory w') ! i) = swap_static (jn_swaps (ws_memory w) ! i)"
    using eq i unfolding statics_def by (metis nth_map)
qed

lemma move_aside:
  assumes at: "at_swap st inp orig i w0 w" and e: "e = jn_swaps (ws_memory w) ! i"
    and un: "untouched orig (ws_files w) e" and had: "sw_had_original e"
  shows "ends (and_then (move d (sw_target e) (sw_rollback e) w) (\<lambda>_ w1.
      write_restore_journal (set_swap i (\<lambda>e. e\<lparr>sw_old_moved := True\<rparr>) w1))) (\<lambda>_. held st inp orig)
    (\<lambda>_ w'. at_swap st inp orig i w0 w' \<and> moved_aside orig (ws_files w') (jn_swaps (ws_memory w') ! i)
       \<and> ws_files w' = (ws_files w)(sw_rollback e := orig (sw_target e), sw_target e := None))"
proof (rule ends_bind)
  note en = at_swap_entry [OF at]
  have ok: "swap_ok orig (ws_files w) e" using en(1) e by simp
  then have tr: "sw_target e \<noteq> sw_rollback e" by (auto simp: swap_ok_def swap_paths_def)
  let ?fs = "(ws_files w)(sw_rollback e := ws_files w (sw_target e), sw_target e := None)"
  have fs: "ws_files w (sw_target e) = orig (sw_target e)" using un by (simp add: untouched_def)
  have aside: "moved_aside orig ?fs e" using tr had fs by (simp add: moved_aside_def)
  then have "swap_ok orig ?fs e" using ok by (simp add: swap_ok_def)
  then show "ends (move d (sw_target e) (sw_rollback e) w) (\<lambda>_. held st inp orig)
    (\<lambda>_ w'. held st inp orig w' \<and> synced w' \<and> ws_memory w' = ws_memory w
       \<and> ws_files w (sw_target e) \<noteq> None \<and> ws_files w' = ?fs)"
    by (intro move_held [OF en(3) en(4) en(2)]) (simp_all add: e [symmetric])
  fix a w1 assume "held st inp orig w1 \<and> synced w1 \<and> ws_memory w1 = ws_memory w
       \<and> ws_files w (sw_target e) \<noteq> None \<and> ws_files w1 = ?fs"
  then have w1: "held st inp orig w1" "ws_memory w1 = ws_memory w" "ws_files w1 = ?fs" by simp_all
  let ?w2 = "set_swap i (\<lambda>e. e\<lparr>sw_old_moved := True\<rparr>) w1"
  have aside2: "moved_aside orig ?fs (e\<lparr>sw_old_moved := True\<rparr>)" using aside by (simp add: moved_aside_def)
  have held2: "held st inp orig ?w2"
    using en(2) ok aside2
    by (intro set_swap_held w1(1)) (auto simp: w1 e [symmetric] swap_static_def swap_ok_def swap_paths_def)
  have st2: "statics ?w2 = statics w0"
    using en(5) by (subst statics_set_swap) (simp_all add: swap_static_def statics_def w1)
  have mem2: "jn_swaps (ws_memory ?w2) = (jn_swaps (ws_memory w))[i := e\<lparr>sw_old_moved := True\<rparr>]" "ws_files ?w2 = ?fs"
    by (simp_all add: set_swap_def remember_def w1 e)
  show "ends (write_restore_journal ?w2) (\<lambda>_. held st inp orig)
    (\<lambda>_ w'. at_swap st inp orig i w0 w' \<and> moved_aside orig (ws_files w') (jn_swaps (ws_memory w') ! i)
       \<and> ws_files w' = (ws_files w)(sw_rollback e := orig (sw_target e), sw_target e := None))"
    by (rule ends_mono [OF write_journal_held [OF held2]])
      (use en(2) st2 mem2 aside2 fs in \<open>auto simp: at_swap_def statics_def\<close>)
qed

lemma move_in:
  assumes at: "at_swap st inp orig i w0 w" and e: "e = jn_swaps (ws_memory w) ! i" and s: "sw_staged e = Some s"
    and state: "moved_aside orig (ws_files w) e \<or> untouched orig (ws_files w) e \<and> \<not> sw_had_original e \<and> \<not> sw_old_moved e"
    and fs: "ws_files w s = orig s"
  shows "ends (and_then (move d s (sw_target e) w) (\<lambda>_ w1.
      write_restore_journal (set_swap i (\<lambda>e. e\<lparr>sw_new_moved := True\<rparr>) w1))) (\<lambda>_. held st inp orig)
    (\<lambda>_ w'. at_swap st inp orig i w0 w' \<and> ws_files w' = (ws_files w)(sw_target e := orig s, s := None))"
proof (rule ends_bind)
  note en = at_swap_entry [OF at]
  have ok: "swap_ok orig (ws_files w) e" using en(1) e by simp
  then have ne: "sw_target e \<noteq> s" "sw_rollback e \<noteq> s" "sw_target e \<noteq> sw_rollback e"
    by (auto simp: swap_ok_def swap_paths_def s)
  let ?fs = "(ws_files w)(sw_target e := ws_files w s, s := None)"
  have switched: "switched orig ?fs e" if "ws_files w s \<noteq> None"
    using state ne that ok by (auto simp: switched_def moved_aside_def untouched_def staged_gone_def s swap_ok_def)
  show "ends (move d s (sw_target e) w) (\<lambda>_. held st inp orig)
    (\<lambda>_ w'. held st inp orig w' \<and> synced w' \<and> ws_memory w' = ws_memory w \<and> ws_files w s \<noteq> None \<and> ws_files w' = ?fs)"
    using switched ok s
    by (intro move_held [OF en(3) en(4) en(2)]) (simp_all add: e [symmetric] swap_paths_staged swap_ok_def)
  fix a w1 assume "held st inp orig w1 \<and> synced w1 \<and> ws_memory w1 = ws_memory w
       \<and> ws_files w s \<noteq> None \<and> ws_files w1 = ?fs"
  then have w1: "held st inp orig w1" "ws_memory w1 = ws_memory w" "ws_files w1 = ?fs" and here: "ws_files w s \<noteq> None"
    by simp_all
  let ?w2 = "set_swap i (\<lambda>e. e\<lparr>sw_new_moved := True\<rparr>) w1"
  have "switched orig ?fs (e\<lparr>sw_new_moved := True\<rparr>)" using switched [OF here] by (simp add: switched_def)
  then have held2: "held st inp orig ?w2"
    using en(2) ok
    by (intro set_swap_held w1(1)) (auto simp: w1 e [symmetric] swap_static_def swap_ok_def swap_paths_def)
  have st2: "statics ?w2 = statics w0"
    using en(5) by (subst statics_set_swap) (simp_all add: swap_static_def statics_def w1)
  have mem2: "length (jn_swaps (ws_memory ?w2)) = length (jn_swaps (ws_memory w))" "ws_files ?w2 = ?fs"
    by (simp_all add: set_swap_def remember_def w1)
  show "ends (write_restore_journal ?w2) (\<lambda>_. held st inp orig)
    (\<lambda>_ w'. at_swap st inp orig i w0 w' \<and> ws_files w' = (ws_files w)(sw_target e := orig s, s := None))"
    by (rule ends_mono [OF write_journal_held [OF held2]])
      (use en(2) st2 mem2 fs in \<open>auto simp: at_swap_def statics_def\<close>)
qed

text \<open>\<open>_switch_path\<close> on an untouched entry.\<close>

lemma switch_path_held:
  assumes at: "at_swap st inp orig i w0 w" and e: "e = jn_swaps (ws_memory w) ! i" and s: "sw_staged e = Some s"
    and un: "untouched orig (ws_files w) e" "\<not> sw_old_moved e" and fs: "ws_files w s = orig s"
  shows "ends (switch_path st d s (sw_target e) (sw_rollback e) i w) (\<lambda>_. held st inp orig)
    (\<lambda>_ w'. at_swap st inp orig i w0 w'
       \<and> ws_files w' = (ws_files w)(sw_rollback e := orig (sw_target e), sw_target e := orig s, s := None))"
proof -
  note en = at_swap_entry [OF at]
  have ok: "swap_ok orig (ws_files w) e" using en(1) e by simp
  then have ne: "sw_target e \<noteq> s" "sw_rollback e \<noteq> s" "sw_target e \<noteq> sw_rollback e"
    by (auto simp: swap_ok_def swap_paths_def s)
  let ?P = "\<lambda>w'. at_swap st inp orig i w0 w'
     \<and> (let e' = jn_swaps (ws_memory w') ! i in swap_static e' = swap_static e
        \<and> (moved_aside orig (ws_files w') e' \<or> untouched orig (ws_files w') e' \<and> \<not> sw_had_original e' \<and> \<not> sw_old_moved e'))
     \<and> ws_files w' = (ws_files w)(sw_rollback e := orig (sw_target e), sw_target e := None)"
  have first: "ends (if sw_had_original e
        then and_then (move d (sw_target e) (sw_rollback e) w) (\<lambda>_ w1.
          write_restore_journal (set_swap i (\<lambda>e. e\<lparr>sw_old_moved := True\<rparr>) w1))
        else (Inr (), w)) (\<lambda>_. held st inp orig) (\<lambda>_. ?P)"
  proof (cases "sw_had_original e")
    case True
    show ?thesis
      unfolding if_P [OF True]
      by (rule ends_mono [OF move_aside [OF at e un(1) True]])
        (use at_swap_entry(6) en(6) e in \<open>auto simp: Let_def\<close>)
  next
    case False
    then have "orig (sw_target e) = None" using ok by (simp add: swap_ok_def)
    then have "ws_files w = (ws_files w)(sw_rollback e := orig (sw_target e), sw_target e := None)"
      using un by (auto simp: untouched_def fun_eq_iff)
    then show ?thesis using False at un by (simp add: e)
  qed
  show ?thesis
  proof (cases "st_unsafe st (sw_target e) \<or> ws_files w (sw_rollback e) \<noteq> None")
    case True
    then show ?thesis using en(3) by (simp add: switch_path_def)
  next
    case False
    have second: "ends (and_then (move d s (sw_target e) w2) (\<lambda>_ w3.
          write_restore_journal (set_swap i (\<lambda>e. e\<lparr>sw_new_moved := True\<rparr>) w3))) (\<lambda>_. held st inp orig)
        (\<lambda>_ w'. at_swap st inp orig i w0 w'
           \<and> ws_files w' = (ws_files w)(sw_rollback e := orig (sw_target e), sw_target e := orig s, s := None))"
      if P: "?P w2" for w2
    proof -
      let ?e = "jn_swaps (ws_memory w2) ! i"
      have eq: "sw_target ?e = sw_target e" "sw_staged ?e = Some s"
        using P s by (simp_all add: Let_def swap_static_def)
      show ?thesis
        unfolding eq(1) [symmetric]
        by (rule ends_mono [OF move_in [of st inp orig i w0 w2 ?e s]])
          (use P eq ne fs in \<open>auto simp: Let_def\<close>)
    qed
    show ?thesis
      unfolding switch_path_def if_not_P [OF False] e [symmetric]
      by (rule ends_bind [OF first second])
  qed
qed

section \<open>Adding entries\<close>

lemma distinct_concat_map:
  assumes "distinct (concat (map f xs))" "\<And>x. f x \<noteq> []"
  shows "distinct xs" "\<And>x y. \<lbrakk> x \<in> set xs; y \<in> set xs; x \<noteq> y \<rbrakk> \<Longrightarrow> set (f x) \<inter> set (f y) = {}"
proof -
  have "distinct xs \<and> (\<forall>x \<in> set xs. \<forall>y \<in> set xs. x \<noteq> y \<longrightarrow> set (f x) \<inter> set (f y) = {})"
    using assms(1)
  proof (induction xs)
    case (Cons a xs)
    have "a \<notin> set xs"
    proof
      assume "a \<in> set xs"
      then have "set (f a) \<subseteq> set (concat (map f xs))" by auto
      then show False using Cons.prems assms(2) [of a] by (cases "f a") auto
    qed
    then show ?case using Cons by fastforce
  qed simp
  then show "distinct xs" "\<And>x y. \<lbrakk> x \<in> set xs; y \<in> set xs; x \<noteq> y \<rbrakk> \<Longrightarrow> set (f x) \<inter> set (f y) = {}" by blast+
qed

lemma plan_distinct:
  assumes "restore_ready st inp w"
  shows "distinct (plan_components inp)"
    "\<lbrakk> c \<in> set (plan_components inp); c' \<in> set (plan_components inp); c \<noteq> c' \<rbrakk>
     \<Longrightarrow> set (plan_paths st inp c) \<inter> set (plan_paths st inp c') = {}"
    "c \<in> set (plan_components inp) \<Longrightarrow> distinct (plan_paths st inp c)"
proof -
  have d: "distinct (concat (map (plan_paths st inp) (plan_components inp)))"
    using assms unfolding restore_ready_def by (elim conjE)
  have ne: "plan_paths st inp x \<noteq> []" for x by (simp add: plan_paths_def)
  show "distinct (plan_components inp)" by (rule distinct_concat_map(1) [OF d ne])
  show "\<lbrakk> c \<in> set (plan_components inp); c' \<in> set (plan_components inp); c \<noteq> c' \<rbrakk>
     \<Longrightarrow> set (plan_paths st inp c) \<inter> set (plan_paths st inp c') = {}"
    by (rule distinct_concat_map(2) [OF d ne])
  show "c \<in> set (plan_components inp) \<Longrightarrow> distinct (plan_paths st inp c)"
    using d by (auto simp: distinct_concat_iff)
qed

lemma ready_rollback_free:
  "\<lbrakk> restore_ready st inp w; c \<in> set (plan_components inp) \<rbrakk> \<Longrightarrow> ws_files w (plan_rollback st inp c) = None"
  by (simp add: restore_ready_def list_all_iff)

lemma shape_component: "swap_shape st inp e \<Longrightarrow> sw_component e \<in> set (plan_components inp)"
  by (simp add: swap_shape_def Let_def)

text \<open>Where a run stands: the components it has dealt with, and that they have landed.\<close>

definition progress ::
  "site \<Rightarrow> restore_input \<Rightarrow> (path \<Rightarrow> string option) \<Rightarrow> string list \<Rightarrow> machine \<Rightarrow> bool" where
  "progress st inp orig dn w \<longleftrightarrow> held st inp orig w \<and> synced w
     \<and> (\<forall>e \<in> set (jn_swaps (ws_memory w)). sw_component e \<in> set dn \<and> landed orig (ws_files w) e)
     \<and> (\<forall>c \<in> set dn. c \<in> sw_component ` set (jn_swaps (ws_memory w))
          \<or> plan_staged st inp c = None \<and> ws_files w (plan_target st c) = None)"

lemma progress_held: "progress st inp orig dn w \<Longrightarrow> held st inp orig w"
  by (simp add: progress_def)

definition fresh_swap :: "site \<Rightarrow> restore_input \<Rightarrow> (path \<Rightarrow> string option) \<Rightarrow> swap \<Rightarrow> bool" where
  "fresh_swap st inp orig e \<longleftrightarrow> swap_shape st inp e \<and> \<not> sw_old_moved e \<and> \<not> sw_new_moved e
     \<and> sw_had_original e = (orig (sw_target e) \<noteq> None)"

lemma fresh_off_swaps:
  assumes ready: "restore_ready st inp w0" and p: "progress st inp orig dn w"
    and e: "swap_shape st inp e" "sw_component e \<notin> set dn"
  shows "\<forall>e' \<in> set (jn_swaps (ws_memory w)). set (swap_paths e') \<inter> set (swap_paths e) = {}"
    "q \<in> set (swap_paths e) \<Longrightarrow> ws_files w q = orig q"
proof -
  have open': "journal_open st inp orig (ws_files w) (ws_memory w)" using p by (simp add: progress_def held_memory)
  have "set (swap_paths e') \<inter> set (swap_paths e) = {}" if "e' \<in> set (jn_swaps (ws_memory w))" for e'
  proof -
    have sh: "swap_shape st inp e'" using open' that by (simp add: journal_open_def)
    moreover have "sw_component e' \<noteq> sw_component e" using p e that by (auto simp: progress_def)
    ultimately show ?thesis
      unfolding shape_paths [OF sh] shape_paths [OF e(1)]
      by (intro plan_distinct(2) [OF ready] shape_component [OF e(1)] shape_component [OF sh])
  qed
  then show all: "\<forall>e' \<in> set (jn_swaps (ws_memory w)). set (swap_paths e') \<inter> set (swap_paths e) = {}" by blast
  show "ws_files w q = orig q" if "q \<in> set (swap_paths e)"
  proof -
    have "\<forall>e' \<in> set (jn_swaps (ws_memory w)). q \<notin> set (swap_paths e')" using all that by blast
    then show ?thesis using open' by (simp add: journal_open_def swaps_ok_def)
  qed
qed

lemma apart_append: "apart (es @ [e]) \<longleftrightarrow> apart es \<and> distinct (swap_paths e) \<and> (\<forall>e' \<in> set es. set (swap_paths e') \<inter> set (swap_paths e) = {})"
  by (auto simp: apart_def)

lemma add_swap_held:
  assumes ready: "restore_ready st inp w0" and p: "progress st inp (ws_files w0) dn w"
    and e: "fresh_swap st inp (ws_files w0) e" "sw_component e \<notin> set dn"
  shows "held st inp (ws_files w0) (add_swap e w)" "untouched (ws_files w0) (ws_files w) e"
proof -
  have sh: "swap_shape st inp e" and comp: "sw_component e \<in> set (plan_components inp)"
    using e by (simp_all add: fresh_swap_def swap_shape_def Let_def)
  note off = fresh_off_swaps [OF ready p sh e(2)]
  have "ws_files w0 (sw_rollback e) = None"
    using ready_rollback_free [OF ready comp] sh by (simp add: swap_shape_def Let_def)
  then show un: "untouched (ws_files w0) (ws_files w) e"
    using off(2) e by (simp add: untouched_def fresh_swap_def)
  have dist: "distinct (swap_paths e)" using plan_distinct(3) [OF ready comp] sh by (simp add: shape_paths)
  have ok: "swap_ok (ws_files w0) (ws_files w) e" using e un dist by (simp add: swap_ok_def fresh_swap_def)
  have "journal_open st inp (ws_files w0) (ws_files w) (ws_memory w)" using p by (simp add: progress_def held_memory)
  then have "journal_open st inp (ws_files w0) (ws_files w) ((ws_memory w)\<lparr>jn_swaps := jn_swaps (ws_memory w) @ [e]\<rparr>)"
    using ok sh off(1) dist by (auto simp: journal_open_def swaps_ok_def apart_append journal_fixed_def)
  then show "held st inp (ws_files w0) (add_swap e w)"
    using p unfolding add_swap_def by (intro held_remember) (auto simp: progress_def)
qed

text \<open>Once the new entry is switched, the run stands one component further.\<close>

lemma swap_of_static:
  assumes "map swap_static es' = map swap_static es @ [swap_static e]" "e' \<in> set es'"
  shows "swap_static e' = swap_static e \<or> (\<exists>a \<in> set es. swap_static e' = swap_static a)"
proof -
  have "swap_static e' \<in> set (map swap_static es')" using assms(2) by simp
  then show ?thesis unfolding assms(1) by auto
qed

lemma landed_static: "swap_static e' = swap_static e \<Longrightarrow> landed orig fs e' = landed orig fs e"
  by (simp add: landed_def swap_static_def)

lemma swap_component_static: "swap_static e' = swap_static e \<Longrightarrow> sw_component e' = sw_component e"
  by (simp add: swap_static_def)

lemma progress_step:
  assumes ready: "restore_ready st inp w0" and p: "progress st inp orig dn w"
    and e: "swap_shape st inp e" "sw_component e \<notin> set dn"
    and w': "held st inp orig w'" "synced w'" "statics w' = statics w @ [swap_static e]"
    and same: "\<And>q. q \<notin> set (swap_paths e) \<Longrightarrow> ws_files w' q = ws_files w q" and land: "landed orig (ws_files w') e"
    and targets: "\<forall>c \<in> set dn. c \<in> set (plan_components inp)"
  shows "progress st inp orig (dn @ [sw_component e]) w'"
proof -
  let ?es = "jn_swaps (ws_memory w)" and ?es' = "jn_swaps (ws_memory w')"
  have st: "map swap_static ?es' = map swap_static ?es @ [swap_static e]" using w'(3) by (simp add: statics_def)
  have comps: "sw_component ` set ?es' = insert (sw_component e) (sw_component ` set ?es)"
  proof -
    have fst: "map fst (map swap_static xs) = map sw_component xs" for xs by (simp add: swap_static_def)
    have "map fst (map swap_static ?es') = map fst (map swap_static ?es @ [swap_static e])"
      by (rule arg_cong [OF st])
    then have "map sw_component ?es' = map sw_component ?es @ [sw_component e]"
      unfolding map_append fst by (simp add: swap_static_def)
    then have "set (map sw_component ?es') = set (map sw_component ?es @ [sw_component e])" by (rule arg_cong)
    then show ?thesis by simp
  qed
  have old: "sw_component a \<in> set dn \<and> landed orig (ws_files w') a" if "a \<in> set ?es" for a
  proof -
    have "sw_target a \<notin> set (swap_paths e)" using fresh_off_swaps(1) [OF ready p e] that by force
    then show ?thesis using p that same by (simp add: progress_def landed_def)
  qed
  have rest: "ws_files w' (plan_target st c) = ws_files w (plan_target st c)" if "c \<in> set dn" for c
  proof -
    have "sw_component e \<noteq> c" "c \<in> set (plan_components inp)" "sw_component e \<in> set (plan_components inp)"
      using that e targets by (auto simp: swap_shape_def Let_def)
    then have "set (plan_paths st inp c) \<inter> set (swap_paths e) = {}"
      using plan_distinct(2) [OF ready] shape_paths [OF e(1)] by simp
    then show ?thesis by (intro same) (auto simp: plan_paths_def)
  qed
  have "sw_component e' \<in> set (dn @ [sw_component e]) \<and> landed orig (ws_files w') e'" if "e' \<in> set ?es'" for e'
    using swap_of_static [OF st that]
  proof (elim disjE bexE)
    assume eq: "swap_static e' = swap_static e"
    show ?thesis using land by (simp add: landed_static [OF eq] swap_component_static [OF eq])
  next
    fix a assume a: "a \<in> set ?es" and eq: "swap_static e' = swap_static a"
    show ?thesis using old [OF a] by (simp add: landed_static [OF eq] swap_component_static [OF eq])
  qed
  moreover have "c \<in> sw_component ` set ?es' \<or> plan_staged st inp c = None \<and> ws_files w' (plan_target st c) = None"
    if "c \<in> set (dn @ [sw_component e])" for c
    using that p rest unfolding comps by (auto simp: progress_def)
  ultimately show ?thesis using w'(1,2) unfolding progress_def by blast
qed

section \<open>Switching everything\<close>

text \<open>The journal with the new entry is written.\<close>

lemma enter_swap:
  assumes "held st inp orig w1" "jn_swaps (ws_memory w1) = es @ [e]"
  shows "ends (write_restore_journal w1) (\<lambda>_. held st inp orig)
    (\<lambda>_ w2. at_swap st inp orig (length es) w1 w2 \<and> jn_swaps (ws_memory w2) ! length es = e \<and> ws_files w2 = ws_files w1)"
  by (rule ends_mono [OF write_journal_held [OF assms(1)]]) (use assms in \<open>auto simp: at_swap_def statics_def\<close>)

lemma switch_entry:
  assumes ready: "restore_ready st inp w0" and p: "progress st inp (ws_files w0) dn w"
    and e: "fresh_swap st inp (ws_files w0) e" "sw_component e \<notin> set dn" and s: "sw_staged e = Some s"
    and targets: "\<forall>c \<in> set dn. c \<in> set (plan_components inp)"
    and w1: "held st inp (ws_files w0) w1" "jn_swaps (ws_memory w1) = jn_swaps (ws_memory w) @ [e]" "ws_files w1 = ws_files w"
  shows "ends (and_then (write_restore_journal w1) (\<lambda>_ w2.
      switch_path st d s (sw_target e) (sw_rollback e) (length (jn_swaps (ws_memory w))) w2))
    (\<lambda>_. held st inp (ws_files w0)) (\<lambda>_. progress st inp (ws_files w0) (dn @ [sw_component e]))"
proof (rule ends_bind [OF enter_swap [OF w1(1,2)]])
  let ?i = "length (jn_swaps (ws_memory w))"
  have sh: "swap_shape st inp e" using e by (simp add: fresh_swap_def)
  note off = fresh_off_swaps [OF ready p sh e(2)]
  have un: "untouched (ws_files w0) (ws_files w) e" by (rule add_swap_held(2) [OF ready p e])
  have dist: "distinct (swap_paths e)"
    using plan_distinct(3) [OF ready shape_component [OF sh]] by (simp add: shape_paths [OF sh])
  fix a w2 assume "at_swap st inp (ws_files w0) ?i w1 w2 \<and> jn_swaps (ws_memory w2) ! ?i = e \<and> ws_files w2 = ws_files w1"
  then have w2: "at_swap st inp (ws_files w0) ?i w1 w2" "e = jn_swaps (ws_memory w2) ! ?i" "ws_files w2 = ws_files w"
    by (simp_all add: w1)
  have st: "ws_files w2 s = ws_files w0 s" using off(2) swap_paths_staged [OF s] by (simp add: w2)
  show "ends (switch_path st d s (sw_target e) (sw_rollback e) ?i w2) (\<lambda>_. held st inp (ws_files w0))
    (\<lambda>_. progress st inp (ws_files w0) (dn @ [sw_component e]))"
  proof (rule ends_mono [OF switch_path_held [OF w2(1,2) s _ _ st]])
    fix b w3
    assume w3: "at_swap st inp (ws_files w0) ?i w1 w3
       \<and> ws_files w3 = (ws_files w2)(sw_rollback e := ws_files w0 (sw_target e), sw_target e := ws_files w0 s, s := None)"
    show "progress st inp (ws_files w0) (dn @ [sw_component e]) w3"
    proof (rule progress_step [OF ready p sh e(2) _ _ _ _ _ targets])
      show "statics w3 = statics w @ [swap_static e]" using w3 by (simp add: at_swap_def statics_def w1)
      show "ws_files w3 q = ws_files w q" if "q \<notin> set (swap_paths e)" for q
        using w3 that by (simp add: swap_paths_def s w2(3))
      show "landed (ws_files w0) (ws_files w3) e"
        using w3 dist by (simp add: landed_def swap_paths_def s)
    qed (use w3 in \<open>simp_all add: at_swap_def\<close>)
  qed (use un e in \<open>simp_all add: w2(3) fresh_swap_def\<close>)
qed

lemma plan_root: "\<lbrakk> restore_ready st inp w; c \<in> set (ri_components inp); c \<noteq> ''database'' \<rbrakk> \<Longrightarrow> c \<in> set RESTORE_COMPONENTS"
  by (auto simp: restore_ready_def list_all_iff)

lemma root_swap_fresh:
  assumes ready: "restore_ready st inp w0" and p: "progress st inp (ws_files w0) dn w"
    and c: "c \<in> set (ri_components inp)" "c \<noteq> ''database''" "c \<notin> set dn"
  shows "fresh_swap st inp (ws_files w0) (root_swap st inp c w)"
proof -
  have root: "c \<in> set RESTORE_COMPONENTS" by (rule plan_root [OF ready c(1,2)])
  then have sh: "swap_shape st inp (root_swap st inp c w)"
    using c by (simp add: swap_shape_def root_swap_def plan_components_def plan_target_def plan_rollback_def plan_staged_def)
  have "ws_files w (st_root st c) = ws_files w0 (st_root st c)"
    using fresh_off_swaps(2) [OF ready p sh] c(3) by (simp add: root_swap_def swap_paths_def)
  then show ?thesis using sh by (simp add: fresh_swap_def root_swap_def)
qed

lemma switch_roots_held:
  assumes ready: "restore_ready st inp w0"
  shows "\<lbrakk> progress st inp (ws_files w0) dn w; set dn \<subseteq> set (plan_components inp); set cs \<subseteq> set (ri_components inp);
      distinct (dn @ filter (\<lambda>c. c \<noteq> ''database'') cs) \<rbrakk>
    \<Longrightarrow> ends (switch_roots st inp cs w) (\<lambda>_. held st inp (ws_files w0))
      (\<lambda>_. progress st inp (ws_files w0) (dn @ filter (\<lambda>c. c \<noteq> ''database'') cs))"
proof (induction cs arbitrary: dn w)
  case Nil
  then show ?case by simp
next
  case (Cons c cs)
  show ?case
  proof (cases "c = ''database''")
    case True
    then show ?thesis using Cons by simp
  next
    case False
    let ?e = "root_swap st inp c w" and ?i = "length (jn_swaps (ws_memory w))"
    have e: "fresh_swap st inp (ws_files w0) ?e" "sw_component ?e = c" "sw_staged ?e = Some (staged_root inp c)"
      using root_swap_fresh [OF ready Cons.prems(1), of c] Cons.prems(3,4) False by (simp_all add: root_swap_def)
    have one: "ends (and_then (write_restore_journal (add_swap ?e w)) (\<lambda>_ w2.
        switch_path st True (staged_root inp c) (sw_target ?e) (sw_rollback ?e) ?i w2))
      (\<lambda>_. held st inp (ws_files w0)) (\<lambda>_. progress st inp (ws_files w0) (dn @ [sw_component ?e]))"
    proof (rule switch_entry [OF ready Cons.prems(1) e(1) _ e(3)])
      show "held st inp (ws_files w0) (add_swap ?e w)"
        using Cons.prems(4) False e by (intro add_swap_held(1) [OF ready Cons.prems(1)]) simp_all
    qed (use Cons.prems False e in \<open>auto simp: add_swap_def remember_def\<close>)
    have rest: "ends (switch_roots st inp cs w1) (\<lambda>_. held st inp (ws_files w0))
        (\<lambda>_. progress st inp (ws_files w0) (dn @ filter (\<lambda>c. c \<noteq> ''database'') (c # cs)))"
      if "progress st inp (ws_files w0) (dn @ [sw_component ?e]) w1" for w1
    proof -
      have "c \<in> set (plan_components inp)" using Cons.prems(3) False by (simp add: plan_components_def)
      then show ?thesis
        using Cons.IH [of "dn @ [c]" w1] that Cons.prems False e by simp
    qed
    have eq: "switch_roots st inp (c # cs) w = and_then (and_then (write_restore_journal (add_swap ?e w)) (\<lambda>_ w2.
        switch_path st True (staged_root inp c) (sw_target ?e) (sw_rollback ?e) ?i w2)) (\<lambda>_. switch_roots st inp cs)"
      using False by (simp add: Let_def and_then_assoc)
    show ?thesis unfolding eq by (rule ends_bind [OF one rest])
  qed
qed

text \<open>The side files of the database: they are moved aside, and nothing takes their place.\<close>

lemma sidecar_component:
  assumes "sqlite_selected inp" "s \<in> set SIDECARS"
  shows "''database'' @ s \<in> set (plan_components inp)" "''database'' @ s \<notin> set RESTORE_COMPONENTS"
    "''database'' @ s \<noteq> ''database''"
  using assms by (auto simp: plan_components_def SIDECARS_def RESTORE_COMPONENTS_def)

lemma sidecar_shape:
  assumes "sqlite_selected inp" "s \<in> set SIDECARS"
  shows "swap_shape st inp (sidecar_swap st inp s)"
  using sidecar_component [OF assms]
  by (simp add: swap_shape_def sidecar_swap_def Let_def plan_target_def plan_rollback_def plan_staged_def)

lemma switch_sidecar:
  assumes ready: "restore_ready st inp w0" and p: "progress st inp (ws_files w0) dn w"
    and sel: "sqlite_selected inp" "s \<in> set SIDECARS" "''database'' @ s \<notin> set dn" and dn: "set dn \<subseteq> set (plan_components inp)"
    and e: "e = sidecar_swap st inp s" and there: "ws_files w (sw_target e) \<noteq> None"
  shows "ends (and_then (write_restore_journal (add_swap e w)) (\<lambda>_ w1.
      and_then (move False (sw_target e) (sw_rollback e) w1) (\<lambda>_ w2.
        write_restore_journal (set_swap (length (jn_swaps (ws_memory w))) (\<lambda>e. e\<lparr>sw_old_moved := True\<rparr>) w2))))
    (\<lambda>_. held st inp (ws_files w0)) (\<lambda>_. progress st inp (ws_files w0) (dn @ [''database'' @ s]))"
proof -
  let ?i = "length (jn_swaps (ws_memory w))"
  have sh: "swap_shape st inp e" unfolding e by (rule sidecar_shape [OF sel(1,2)])
  have c: "sw_component e = ''database'' @ s" "sw_staged e = None" "sw_had_original e" "\<not> sw_old_moved e" "\<not> sw_new_moved e"
    by (simp_all add: e sidecar_swap_def Let_def)
  have new: "sw_component e \<notin> set dn" using sel c by simp
  note off = fresh_off_swaps [OF ready p sh new]
  have fresh: "fresh_swap st inp (ws_files w0) e" using sh c there off(2) by (simp add: fresh_swap_def)
  have un: "untouched (ws_files w0) (ws_files w) e" by (rule add_swap_held(2) [OF ready p fresh new])
  have dist: "distinct (swap_paths e)"
    using plan_distinct(3) [OF ready shape_component [OF sh]] by (simp add: shape_paths [OF sh])
  have h1: "held st inp (ws_files w0) (add_swap e w)" by (rule add_swap_held(1) [OF ready p fresh new])
  have sw: "jn_swaps (ws_memory (add_swap e w)) = jn_swaps (ws_memory w) @ [e]" "ws_files (add_swap e w) = ws_files w"
    by (simp_all add: add_swap_def remember_def)
  show ?thesis
  proof (rule ends_bind [OF enter_swap [OF h1 sw(1)]])
    fix a w1 assume "at_swap st inp (ws_files w0) ?i (add_swap e w) w1 \<and> jn_swaps (ws_memory w1) ! ?i = e
      \<and> ws_files w1 = ws_files (add_swap e w)"
    then have w1: "at_swap st inp (ws_files w0) ?i (add_swap e w) w1" "e = jn_swaps (ws_memory w1) ! ?i"
      "ws_files w1 = ws_files w" by (simp_all add: sw)
    have un1: "untouched (ws_files w0) (ws_files w1) e" using un by (simp add: w1(3))
    show "ends (and_then (move False (sw_target e) (sw_rollback e) w1) (\<lambda>_ w2.
        write_restore_journal (set_swap ?i (\<lambda>e. e\<lparr>sw_old_moved := True\<rparr>) w2)))
      (\<lambda>_. held st inp (ws_files w0)) (\<lambda>_. progress st inp (ws_files w0) (dn @ [''database'' @ s]))"
    proof (rule ends_mono [OF move_aside [OF w1(1,2) un1 c(3)]])
      fix b w3
      assume w3: "at_swap st inp (ws_files w0) ?i (add_swap e w) w3
        \<and> moved_aside (ws_files w0) (ws_files w3) (jn_swaps (ws_memory w3) ! ?i)
        \<and> ws_files w3 = (ws_files w1)(sw_rollback e := ws_files w0 (sw_target e), sw_target e := None)"
      have "progress st inp (ws_files w0) (dn @ [sw_component e]) w3"
      proof (rule progress_step [OF ready p sh new])
        show "statics w3 = statics w @ [swap_static e]" using w3 by (simp add: at_swap_def statics_def sw)
        show "ws_files w3 q = ws_files w q" if "q \<notin> set (swap_paths e)" for q
          using w3 that by (simp add: swap_paths_def w1(3))
        show "landed (ws_files w0) (ws_files w3) e" using w3 by (simp add: landed_def c)
      qed (use w3 dn in \<open>auto simp: at_swap_def\<close>)
      then show "progress st inp (ws_files w0) (dn @ [''database'' @ s]) w3" by (simp add: c)
    qed simp
  qed
qed

lemma switch_sidecars_held:
  assumes ready: "restore_ready st inp w0" and sel: "sqlite_selected inp"
  shows "\<lbrakk> progress st inp (ws_files w0) dn w; set dn \<subseteq> set (plan_components inp); set ss \<subseteq> set SIDECARS;
      distinct (dn @ map (\<lambda>s. ''database'' @ s) ss) \<rbrakk>
    \<Longrightarrow> ends (switch_sidecars st inp ss w) (\<lambda>_. held st inp (ws_files w0))
      (\<lambda>_. progress st inp (ws_files w0) (dn @ map (\<lambda>s. ''database'' @ s) ss))"
proof (induction ss arbitrary: dn w)
  case Nil
  then show ?case by simp
next
  case (Cons s ss)
  let ?e = "sidecar_swap st inp s" and ?i = "length (jn_swaps (ws_memory w))" and ?c = "''database'' @ s"
  have s: "s \<in> set SIDECARS" "?c \<notin> set dn" using Cons.prems by auto
  have rest: "ends (switch_sidecars st inp ss w1) (\<lambda>_. held st inp (ws_files w0))
      (\<lambda>_. progress st inp (ws_files w0) (dn @ map (\<lambda>s. ''database'' @ s) (s # ss)))"
    if "progress st inp (ws_files w0) (dn @ [?c]) w1" for w1
    using Cons.IH [of "dn @ [?c]" w1] that Cons.prems sidecar_component(1) [OF sel s(1)] by simp
  show ?case
  proof (cases "ws_files w (sw_target ?e) = None")
    case True
    have "sw_target ?e = plan_target st ?c" using sidecar_shape [OF sel s(1), of st] by (simp add: swap_shape_def sidecar_swap_def Let_def)
    moreover have "plan_staged st inp ?c = None" using sidecar_component [OF sel s(1)] by (simp add: plan_staged_def)
    ultimately have "progress st inp (ws_files w0) (dn @ [?c]) w"
      using Cons.prems(1) True by (auto simp: progress_def)
    then show ?thesis using rest True by (simp add: Let_def)
  next
    case False
    show ?thesis
    proof (cases "st_unsafe st (sw_target ?e)")
      case True
      then have eq: "switch_sidecars st inp (s # ss) w = (Inl (Restore_failed ''SQLite WAL/SHM sidecar is not a regular file.''), w)"
        using False by (auto simp: Let_def)
      show ?thesis unfolding eq using progress_held [OF Cons.prems(1)] by simp
    next
      case safe: False
      have eq: "switch_sidecars st inp (s # ss) w = and_then (and_then (write_restore_journal (add_swap ?e w)) (\<lambda>_ w1.
          and_then (move False (sw_target ?e) (sw_rollback ?e) w1) (\<lambda>_ w2.
            write_restore_journal (set_swap ?i (\<lambda>e. e\<lparr>sw_old_moved := True\<rparr>) w2)))) (\<lambda>_. switch_sidecars st inp ss)"
        using False safe by (simp add: Let_def and_then_assoc del: not_None_eq)
      show ?thesis
        unfolding eq
        by (rule ends_bind [OF switch_sidecar [OF ready Cons.prems(1) sel s Cons.prems(2) refl False] rest])
    qed
  qed
qed

lemma journal_open_phase:
  "\<lbrakk> journal_open st inp orig fs j; ph \<noteq> ''complete'' \<rbrakk> \<Longrightarrow> journal_open st inp orig fs (j\<lparr>jn_phase := ph\<rparr>)"
  "\<lbrakk> journal_open st inp orig fs j; ri_backend inp = ''sqlite'' \<rbrakk> \<Longrightarrow> journal_open st inp orig fs (j\<lparr>jn_committed := True\<rparr>)"
  by (simp_all add: journal_open_def journal_fixed_def)

lemma set_phase_held: "\<lbrakk> held st inp orig w; ph \<noteq> ''complete'' \<rbrakk> \<Longrightarrow> held st inp orig (set_phase ph w)"
  unfolding set_phase_def by (intro held_remember journal_open_phase held_memory)

lemma progress_write:
  assumes "progress st inp orig dn w" "held st inp orig w1" "ws_files w1 = ws_files w"
    "jn_swaps (ws_memory w1) = jn_swaps (ws_memory w)"
  shows "ends (write_restore_journal w1) (\<lambda>_. held st inp orig) (\<lambda>_. progress st inp orig dn)"
  by (rule ends_mono [OF write_journal_held [OF assms(2)]]) (use assms in \<open>auto simp: progress_def\<close>)

lemma database_swap_fresh:
  assumes ready: "restore_ready st inp w0" and p: "progress st inp (ws_files w0) dn w"
    and sel: "sqlite_selected inp" "''database'' \<notin> set dn"
  shows "fresh_swap st inp (ws_files w0) (database_swap st inp w)"
proof -
  have "st_database st \<noteq> []" using ready by (simp add: restore_ready_def)
  then have "add_suffix (st_database st) [] = st_database st" by (simp add: add_suffix_def)
  moreover have "''database'' \<notin> set RESTORE_COMPONENTS" by (simp add: RESTORE_COMPONENTS_def)
  ultimately have sh: "swap_shape st inp (database_swap st inp w)"
    using sel by (simp add: swap_shape_def database_swap_def plan_components_def plan_target_def plan_rollback_def
        plan_staged_def)
  have "ws_files w (st_database st) = ws_files w0 (st_database st)"
    using fresh_off_swaps(2) [OF ready p sh] sel by (simp add: database_swap_def swap_paths_def)
  then show ?thesis using sh by (simp add: fresh_swap_def database_swap_def)
qed

lemma switch_sqlite_held:
  assumes ready: "restore_ready st inp w0" and p: "progress st inp (ws_files w0) dn w"
    and sel: "sqlite_selected inp" and dn: "dn @ map (\<lambda>s. ''database'' @ s) SIDECARS @ [''database''] = plan_components inp"
  shows "ends (switch_sqlite_database st inp w) (\<lambda>_. held st inp (ws_files w0))
    (\<lambda>_. progress st inp (ws_files w0) (plan_components inp))"
proof (cases "st_unsafe st (st_database st)")
  case True
  then show ?thesis using progress_held [OF p] by (simp add: switch_sqlite_database_def)
next
  case False
  let ?dn = "dn @ map (\<lambda>s. ''database'' @ s) SIDECARS"
  have dist: "distinct (dn @ map (\<lambda>s. ''database'' @ s) SIDECARS @ [''database''])"
    using plan_distinct(1) [OF ready] dn by simp
  have sub: "set dn \<subseteq> set (plan_components inp)" "\<forall>c \<in> set ?dn. c \<in> set (plan_components inp)"
    unfolding dn [symmetric] by auto
  have new: "''database'' \<notin> set ?dn" using dist by simp
  have sqlite: "ri_backend inp = ''sqlite''" using sel by (simp add: sqlite_selected_def)
  have side: "ends (switch_sidecars st inp SIDECARS w) (\<lambda>_. held st inp (ws_files w0)) (\<lambda>_. progress st inp (ws_files w0) ?dn)"
    using dist by (intro switch_sidecars_held [OF ready sel p sub(1)]) simp_all
  have rest: "ends (let e = database_swap st inp w1; i = length (jn_swaps (ws_memory w1)) in
      and_then (write_restore_journal (set_phase ''switching-sqlite-database'' (add_swap e w1))) (\<lambda>_ w2.
      and_then (switch_path st False (staged_database st (ri_restore_id inp)) (sw_target e) (sw_rollback e) i w2) (\<lambda>_ w3.
        write_restore_journal (set_phase ''sqlite-database-switched'' (remember (\<lambda>j. j\<lparr>jn_committed := True\<rparr>) w3)))))
    (\<lambda>_. held st inp (ws_files w0)) (\<lambda>_. progress st inp (ws_files w0) (plan_components inp))"
    if p1: "progress st inp (ws_files w0) ?dn w1" for w1
  proof -
    let ?e = "database_swap st inp w1" and ?i = "length (jn_swaps (ws_memory w1))"
    let ?w = "set_phase ''switching-sqlite-database'' (add_swap ?e w1)"
    have fresh: "fresh_swap st inp (ws_files w0) ?e" by (rule database_swap_fresh [OF ready p1 sel new])
    have e: "sw_component ?e = ''database''" "sw_component ?e \<notin> set ?dn" "sw_staged ?e = Some (staged_database st (ri_restore_id inp))"
      using new by (simp_all add: database_swap_def)
    have held: "held st inp (ws_files w0) ?w" by (intro set_phase_held add_swap_held(1) [OF ready p1 fresh e(2)]) simp
    have same: "jn_swaps (ws_memory ?w) = jn_swaps (ws_memory w1) @ [?e]" "ws_files ?w = ws_files w1"
      by (simp_all add: set_phase_def add_swap_def remember_def)
    have one: "ends (and_then (write_restore_journal ?w) (\<lambda>_ w2.
        switch_path st False (staged_database st (ri_restore_id inp)) (sw_target ?e) (sw_rollback ?e) ?i w2))
      (\<lambda>_. held st inp (ws_files w0)) (\<lambda>_. progress st inp (ws_files w0) (?dn @ [sw_component ?e]))"
      by (rule switch_entry [OF ready p1 fresh e(2,3) sub(2) held same])
    have two: "ends (write_restore_journal (set_phase ''sqlite-database-switched'' (remember (\<lambda>j. j\<lparr>jn_committed := True\<rparr>) w3)))
      (\<lambda>_. held st inp (ws_files w0)) (\<lambda>_. progress st inp (ws_files w0) (plan_components inp))"
      if p3: "progress st inp (ws_files w0) (?dn @ [sw_component ?e]) w3" for w3
    proof (rule progress_write)
      show "progress st inp (ws_files w0) (plan_components inp) w3" using p3 dn e(1) by simp
      show "held st inp (ws_files w0) (set_phase ''sqlite-database-switched'' (remember (\<lambda>j. j\<lparr>jn_committed := True\<rparr>) w3))"
        using held_memory [OF progress_held [OF p3]]
        by (intro set_phase_held held_remember [OF progress_held [OF p3]] journal_open_phase sqlite) simp_all
    qed (simp_all add: set_phase_def remember_def)
    have eq: "(let e = ?e; i = ?i in
      and_then (write_restore_journal (set_phase ''switching-sqlite-database'' (add_swap e w1))) (\<lambda>_ w2.
      and_then (switch_path st False (staged_database st (ri_restore_id inp)) (sw_target e) (sw_rollback e) i w2) (\<lambda>_ w3.
        write_restore_journal (set_phase ''sqlite-database-switched'' (remember (\<lambda>j. j\<lparr>jn_committed := True\<rparr>) w3)))))
      = and_then (and_then (write_restore_journal ?w) (\<lambda>_ w2.
        switch_path st False (staged_database st (ri_restore_id inp)) (sw_target ?e) (sw_rollback ?e) ?i w2))
        (\<lambda>_ w3. write_restore_journal (set_phase ''sqlite-database-switched'' (remember (\<lambda>j. j\<lparr>jn_committed := True\<rparr>) w3)))"
      by (simp add: Let_def and_then_assoc)
    show ?thesis unfolding eq by (rule ends_bind [OF one two])
  qed
  show ?thesis
    unfolding switch_sqlite_database_def if_not_P [OF False] by (rule ends_bind [OF side rest])
qed

text \<open>All switches of a plan without a database server.\<close>

lemma plan_list:
  assumes "restore_ready st inp w"
  shows "filter (\<lambda>c. c \<noteq> ''database'') (ri_components inp)
    @ (if ''database'' \<in> set (ri_components inp) then map (\<lambda>s. ''database'' @ s) SIDECARS @ [''database''] else [])
    = plan_components inp"
  using assms by (auto simp: plan_components_def sqlite_selected_def restore_ready_def)

lemma switch_all_held:
  assumes ready: "restore_ready st inp w0" and p: "progress st inp (ws_files w0) [] w"
  shows "ends (switch_all st inp w) (\<lambda>_. held st inp (ws_files w0)) (\<lambda>_. progress st inp (ws_files w0) (plan_components inp))"
  unfolding switch_all_def
proof (rule ends_bind)
  let ?dn = "filter (\<lambda>c. c \<noteq> ''database'') (ri_components inp)"
  note plan = plan_list [OF ready]
  have dist: "distinct ?dn" using plan_distinct(1) [OF ready] plan by (metis distinct_append)
  show "ends (switch_roots st inp (ri_components inp) w) (\<lambda>_. held st inp (ws_files w0)) (\<lambda>_. progress st inp (ws_files w0) ?dn)"
    using switch_roots_held [OF ready p, of "ri_components inp"] dist by simp
  fix a w1 assume p1: "progress st inp (ws_files w0) ?dn w1"
  show "ends (if ''database'' \<notin> set (ri_components inp) then (Inr (), w1)
       else if ri_backend inp = ''sqlite''
       then and_then (switch_sqlite_database st inp w1) (\<lambda>_ w2. write_restore_journal w2)
       else import_database inp w1) (\<lambda>_. held st inp (ws_files w0)) (\<lambda>_. progress st inp (ws_files w0) (plan_components inp))"
  proof (cases "''database'' \<in> set (ri_components inp)")
    case False
    then have "?dn = plan_components inp" using plan by simp
    then show ?thesis using False p1 by simp
  next
    case True
    then have backend: "ri_backend inp = ''sqlite''" using ready by (simp add: restore_ready_def)
    have sel: "sqlite_selected inp" using True backend by (simp add: sqlite_selected_def)
    have dn: "?dn @ map (\<lambda>s. ''database'' @ s) SIDECARS @ [''database''] = plan_components inp"
      using plan unfolding if_P [OF True] .
    have "ends (and_then (switch_sqlite_database st inp w1) (\<lambda>_ w2. write_restore_journal w2))
        (\<lambda>_. held st inp (ws_files w0)) (\<lambda>_. progress st inp (ws_files w0) (plan_components inp))"
      by (rule ends_bind [OF switch_sqlite_held [OF ready p1 sel dn]])
        (rule progress_write [OF _ progress_held refl refl])
    then show ?thesis using True backend by simp
  qed
qed

end
