(* ===== verification/Restore_Recovery.thy ===== *)
theory Restore_Recovery
  imports Restore_Runs
begin

text \<open>
  What the recovery makes of an interrupted restore: the journal that is not complete is
  rolled back, the complete one is cleaned up, and the next start of the program finds the
  old files or the new ones, never a mixture.
\<close>

section \<open>Closing a recovery without an interruption\<close>


lemma fixed_fields:
  assumes "journal_fixed j = journal_fixed (new_journal st inp)"
  shows "jn_restore_id j = ri_restore_id inp" "jn_backup_id j = ri_backup_id inp" "jn_staging_root j = ri_staging_root inp"
    "jn_version j = RESTORE_FORMAT_VERSION" "jn_components j = ri_components inp" "jn_backend j = ri_backend inp"
    "jn_database_staged j = (if sqlite_selected inp then Some (staged_database st (ri_restore_id inp)) else None)"
    "journal_head j = (ri_restore_id inp, ri_backup_id inp, ri_staging_root inp)"
  using assms by (simp_all add: journal_fixed_def new_journal_def journal_head_def)

definition closed_files :: "site \<Rightarrow> restore_input \<Rightarrow> machine \<Rightarrow> path \<Rightarrow> string option" where
  "closed_files st inp w p =
     (if p \<in> sw_rollback ` set (jn_swaps (ws_memory w)) \<or> doomed st inp p then None else ws_files w p)"


section \<open>The paths of a plan and of an open journal\<close>

lemma staged_doomed:
  assumes "c \<in> set (plan_components inp)" "plan_staged st inp c = Some s"
  shows "doomed st inp s"
proof (cases "c \<in> set RESTORE_COMPONENTS")
  case True
  then show ?thesis using assms by (auto simp: plan_staged_def staged_root_def doomed_def)
next
  case False
  then have "c = ''database''" "s = staged_database st (ri_restore_id inp)"
    using assms by (simp_all add: plan_staged_def split: if_splits)
  then show ?thesis using assms(1) by (auto simp: plan_components_def doomed_def split: if_splits)
qed

lemma off_swap_paths:
  assumes "swap_shape st inp e" "\<not> doomed st inp p" "p \<noteq> sw_target e" "p \<noteq> sw_rollback e"
  shows "p \<notin> set (swap_paths e)"
proof -
  have "sw_staged e \<noteq> Some p" using assms(1,2) staged_doomed by (auto simp: swap_shape_def Let_def)
  then show ?thesis using assms(3,4) by (auto simp: swap_paths_def split: option.split)
qed

lemma target_lasts:
  assumes ready: "restore_ready st inp w0" and c: "c \<in> set (plan_components inp)"
  shows "\<not> doomed st inp (plan_target st c)"
proof
  assume "doomed st inp (plan_target st c)"
  moreover have "\<not> prefix (ri_staging_root inp) (plan_target st c)"
    using ready c by (simp add: restore_ready_def list_all_iff)
  ultimately have sel: "sqlite_selected inp" and eq: "plan_target st c = staged_database st (ri_restore_id inp)"
    by (simp_all add: doomed_def)
  have db: "''database'' \<in> set (plan_components inp)" using sel by (simp add: plan_components_def)
  have paths: "plan_staged st inp ''database'' = Some (staged_database st (ri_restore_id inp))"
    by (simp add: plan_staged_def RESTORE_COMPONENTS_def)
  show False
  proof (cases "c = ''database''")
    case True
    then show False using plan_distinct(3) [OF ready db] eq paths by (simp add: plan_paths_def)
  next
    case False
    then show False using plan_distinct(2) [OF ready c db] eq paths by (simp add: plan_paths_def)
  qed
qed

lemma rollback_not_target:
  assumes ready: "restore_ready st inp w0" and c: "c \<in> set (plan_components inp)" "c' \<in> set (plan_components inp)"
  shows "plan_rollback st inp c \<noteq> plan_target st c'"
  using plan_distinct(2) [OF ready c] plan_distinct(3) [OF ready c(1)]
  by (cases "c = c'") (auto simp: plan_paths_def)

lemma data_root:
  assumes ready: "restore_ready st inp w0"
  shows "\<not> doomed st inp (st_root st ''data'')" "ws_files w0 (st_root st ''data'') \<noteq> None"
    "c \<in> set (plan_components inp) \<Longrightarrow> plan_rollback st inp c \<noteq> st_root st ''data''"
proof -
  show "\<not> doomed st inp (st_root st ''data'')" "ws_files w0 (st_root st ''data'') \<noteq> None"
    using ready by (simp_all add: restore_ready_def doomed_def)
  assume c: "c \<in> set (plan_components inp)"
  consider (in') "''data'' \<in> set (ri_components inp)"
    | (out) "st_root st ''data'' \<notin> set (concat (map (plan_paths st inp) (plan_components inp)))"
    using ready unfolding restore_ready_def by (elim conjE) blast
  then show "plan_rollback st inp c \<noteq> st_root st ''data''"
  proof cases
    case in'
    then have "''data'' \<in> set (plan_components inp)" "plan_target st ''data'' = st_root st ''data''"
      by (simp_all add: plan_components_def plan_target_def RESTORE_COMPONENTS_def)
    then show ?thesis using rollback_not_target [OF ready c] by metis
  next
    case out
    have "plan_rollback st inp c \<in> set (concat (map (plan_paths st inp) (plan_components inp)))"
      using c by (auto simp: plan_paths_def)
    then show ?thesis using out by metis
  qed
qed

section \<open>Recovering an open journal\<close>

lemma find_None: "\<forall>x \<in> set xs. \<not> P x \<Longrightarrow> List.find P xs = None"
  by (simp add: find_None_iff)


text \<open>Rolling back puts everything in its place, apart from what was staged.\<close>

lemma rollback_open:
  assumes ready: "restore_ready st inp w0" and ev: "ws_events w = []"
    and open': "journal_open st inp (ws_files w0) (ws_files w) (ws_memory w)"
  shows "\<exists>w1. rollback_swaps st w = (Inr (), w1) \<and> ws_events w1 = [] \<and> ws_marker w1 = ws_marker w
    \<and> ws_history w1 = ws_history w \<and> ws_server w1 = ws_server w
    \<and> journal_fixed (ws_memory w1) = journal_fixed (new_journal st inp)
    \<and> sw_rollback ` set (jn_swaps (ws_memory w1)) \<subseteq> plan_rollback st inp ` set (plan_components inp)
    \<and> (\<forall>p. \<not> doomed st inp p \<longrightarrow> ws_files w1 p = ws_files w0 p)"
proof -
  define j where "j = ws_memory w"
  have fixed: "journal_fixed j = journal_fixed (new_journal st inp)" and shapes: "\<forall>e \<in> set (jn_swaps j). swap_shape st inp e"
    and apart: "apart (jn_swaps j)" and ok: "\<forall>e \<in> set (jn_swaps j). swap_ok (ws_files w0) (ws_files w) e"
    and off: "\<And>p. (\<forall>e \<in> set (jn_swaps j). p \<notin> set (swap_paths e)) \<Longrightarrow> ws_files w p = ws_files w0 p"
    using open' by (auto simp: journal_open_def swaps_ok_def j_def)
  let ?is = "rev [0..<length (jn_swaps j)]"
  have valid: "invalid_swap st j e = None" if "e \<in> set (jn_swaps j)" for e
    using that shapes by (intro shape_valid [OF ready _ fixed_fields(8) [OF fixed]]) simp
  have "set (jn_swaps j) = (!) (jn_swaps j) ` set ?is" by (metis list.set_map map_nth set_rev)
  then have nth: "(\<exists>i \<in> set ?is. p = f (jn_swaps j ! i)) = (\<exists>e \<in> set (jn_swaps j). p = f e)"
    for p :: path and f :: "swap \<Rightarrow> path"
    by (simp only: bex_simps)
  have "\<exists>w'. rollback_each st ?is w = (Inr (), w') \<and> ws_events w' = [] \<and> ws_marker w' = ws_marker w
    \<and> ws_history w' = ws_history w \<and> ws_server w' = ws_server w
    \<and> map swap_static (jn_swaps (ws_memory w')) = map swap_static (jn_swaps (ws_memory w))
    \<and> ws_memory w' = (ws_memory w)\<lparr>jn_swaps := jn_swaps (ws_memory w')\<rparr>
    \<and> ws_files w' = (\<lambda>p. if \<exists>i \<in> set ?is. p = sw_target (jn_swaps (ws_memory w) ! i) then ws_files w0 p
        else if \<exists>i \<in> set ?is. p = sw_rollback (jn_swaps (ws_memory w) ! i) then None else ws_files w p)"
    by (rule rollback_each_calm) (use apart ok valid ev in \<open>simp_all add: j_def\<close>)
  then obtain w1 where w1: "rollback_each st ?is w = (Inr (), w1)" "ws_events w1 = []" "ws_marker w1 = ws_marker w"
    "ws_history w1 = ws_history w"
    "ws_server w1 = ws_server w" "map swap_static (jn_swaps (ws_memory w1)) = map swap_static (jn_swaps j)"
    "ws_memory w1 = j\<lparr>jn_swaps := jn_swaps (ws_memory w1)\<rparr>"
    "ws_files w1 = (\<lambda>p. if \<exists>e \<in> set (jn_swaps j). p = sw_target e then ws_files w0 p
        else if \<exists>e \<in> set (jn_swaps j). p = sw_rollback e then None else ws_files w p)"
    unfolding j_def [symmetric] nth [of _ sw_target] nth [of _ sw_rollback] by (elim exE conjE) (rule that, assumption+)
  have undone: "rollback_swaps st w = (Inr (), w1)" using w1(1) by (simp add: rollback_swaps_def j_def)
  have head: "journal_fixed (ws_memory w1) = journal_fixed (new_journal st inp)"
    using fixed by (subst w1(7)) (simp add: journal_fixed_def)
  have comp: "sw_component e \<in> set (plan_components inp)" "sw_target e = plan_target st (sw_component e)"
    "sw_rollback e = plan_rollback st inp (sw_component e)" if "e \<in> set (jn_swaps j)" for e
    using shapes that by (simp_all add: swap_shape_def Let_def)
  have rb: "sw_rollback ` set (jn_swaps (ws_memory w1)) \<subseteq> plan_rollback st inp ` set (plan_components inp)"
  proof -
    have "(\<lambda>(c, t, r, s). r) ` set (map swap_static es) = sw_rollback ` set es" for es
      by (simp add: image_image swap_static_def)
    then have "sw_rollback ` set (jn_swaps (ws_memory w1)) = sw_rollback ` set (jn_swaps j)" using w1(6) by metis
    then show ?thesis using comp by auto
  qed
  have "ws_files w1 p = ws_files w0 p" if p: "\<not> doomed st inp p" for p
  proof -
    have "ws_files w0 (sw_rollback e) = None" if "e \<in> set (jn_swaps j)" for e
      using comp [OF that] ready_rollback_free [OF ready] by simp
    moreover have "ws_files w p = ws_files w0 p" if "\<forall>e \<in> set (jn_swaps j). p \<noteq> sw_target e \<and> p \<noteq> sw_rollback e"
      using that off_swap_paths shapes p by (intro off ballI) metis
    ultimately show ?thesis unfolding w1(8) by (auto simp del: not_None_eq)
  qed
  then show ?thesis using undone head rb w1(2-5) by blast
qed



section \<open>A complete restore\<close>

definition journal_complete ::
  "site \<Rightarrow> restore_input \<Rightarrow> (path \<Rightarrow> string option) \<Rightarrow> (path \<Rightarrow> string option) \<Rightarrow> journal \<Rightarrow> bool" where
  "journal_complete st inp orig fs j \<longleftrightarrow> journal_fixed j = journal_fixed (new_journal st inp) \<and> jn_phase j = ''complete''
     \<and> (\<forall>e \<in> set (jn_swaps j). swap_shape st inp e)
     \<and> (\<forall>p. p \<notin> sw_rollback ` set (jn_swaps j) \<longrightarrow> \<not> doomed st inp p \<longrightarrow> fs p = installed st inp orig p)
     \<and> fs (st_root st ''data'') \<noteq> None"

lemma installed_target:
  assumes ready: "restore_ready st inp w0" and c: "c \<in> set (plan_components inp)"
  shows "installed st inp orig (plan_target st c) = Option.bind (plan_staged st inp c) orig"
proof -
  have "List.find (\<lambda>c'. plan_target st c' = plan_target st c) (plan_components inp) \<noteq> None"
    using c by (auto simp: find_None_iff)
  then obtain c' where c': "List.find (\<lambda>c'. plan_target st c' = plan_target st c) (plan_components inp) = Some c'" by blast
  then have "c' \<in> set (plan_components inp)" "plan_target st c' = plan_target st c"
    by (auto simp: find_Some_iff)
  then have "c' = c" using plan_distinct(2) [OF ready, of c' c] c by (auto simp: plan_paths_def)
  then show ?thesis using c' by (simp add: installed_def)
qed

lemma installed_other:
  "\<forall>c \<in> set (plan_components inp). plan_target st c \<noteq> p \<Longrightarrow> installed st inp orig p = kept st inp orig p"
  by (simp add: installed_def find_None)

lemma progress_complete:
  assumes ready: "restore_ready st inp w0" and p: "progress st inp (ws_files w0) (plan_components inp) w"
    and roots: "roots_exist st inp w"
  shows "journal_complete st inp (ws_files w0) (ws_files w) ((ws_memory w)\<lparr>jn_phase := ''complete''\<rparr>)"
proof -
  let ?es = "jn_swaps (ws_memory w)"
  have open': "journal_open st inp (ws_files w0) (ws_files w) (ws_memory w)"
    by (rule held_memory [OF progress_held [OF p]])
  then have fixed: "journal_fixed (ws_memory w) = journal_fixed (new_journal st inp)"
    and shapes: "\<forall>e \<in> set ?es. swap_shape st inp e"
    and off: "\<And>q. (\<forall>e \<in> set ?es. q \<notin> set (swap_paths e)) \<Longrightarrow> ws_files w q = ws_files w0 q"
    by (auto simp: journal_open_def swaps_ok_def)
  have shape: "sw_component e \<in> set (plan_components inp)" "sw_target e = plan_target st (sw_component e)"
    "sw_rollback e = plan_rollback st inp (sw_component e)" "sw_staged e = plan_staged st inp (sw_component e)"
    if "e \<in> set ?es" for e
    using shapes that by (simp_all add: swap_shape_def Let_def)
  have targets: "ws_files w (plan_target st c) = Option.bind (plan_staged st inp c) (ws_files w0)"
    if "c \<in> set (plan_components inp)" for c
  proof (cases "c \<in> sw_component ` set ?es")
    case True
    then obtain e where e: "e \<in> set ?es" "c = sw_component e" by blast
    then have "landed (ws_files w0) (ws_files w) e" using p by (simp add: progress_def)
    then show ?thesis using shape [OF e(1)] by (simp add: landed_def e(2))
  next
    case False
    then have "plan_staged st inp c = None" "ws_files w (plan_target st c) = None"
      using p that by (auto simp: progress_def)
    then show ?thesis by simp
  qed
  have inst: "ws_files w q = installed st inp (ws_files w0) q" if q: "q \<notin> sw_rollback ` set ?es" "\<not> doomed st inp q" for q
  proof (cases "\<exists>c \<in> set (plan_components inp). plan_target st c = q")
    case True
    then show ?thesis using targets installed_target [OF ready] by metis
  next
    case False
    then have "\<forall>e \<in> set ?es. q \<noteq> sw_target e" using shape by metis
    then have "ws_files w q = ws_files w0 q"
      using q shapes by (intro off ballI off_swap_paths) auto
    then show ?thesis using installed_other [of inp st q] False q by (simp add: kept_def)
  qed
  have "ws_files w (st_root st ''data'') \<noteq> None"
  proof (cases "''data'' \<in> set (ri_components inp)")
    case True
    then show ?thesis using roots by (auto simp: roots_exist_def list_all_iff)
  next
    case False
    then have "st_root st ''data'' \<notin> set (plan_paths st inp c)" if "c \<in> set (plan_components inp)" for c
      using ready that unfolding restore_ready_def by (elim conjE) auto
    then have "ws_files w (st_root st ''data'') = ws_files w0 (st_root st ''data'')"
      using shapes shape(1) shape_paths by (intro off ballI) metis
    then show ?thesis using data_root(2) [OF ready] by simp
  qed
  then show ?thesis
    using fixed shapes inst by (simp add: journal_complete_def journal_fixed_def)
qed

lemma complete_files:
  assumes ready: "restore_ready st inp w0" and j: "journal_complete st inp (ws_files w0) (ws_files w) (ws_memory w)"
  shows "closed_files st inp w = installed st inp (ws_files w0)"
proof
  fix p
  have rb: "\<exists>c \<in> set (plan_components inp). p = plan_rollback st inp c" if "p \<in> sw_rollback ` set (jn_swaps (ws_memory w))"
    using j that by (auto simp: journal_complete_def swap_shape_def Let_def)
  have none: "installed st inp (ws_files w0) p = None"
    if "p \<in> sw_rollback ` set (jn_swaps (ws_memory w)) \<or> doomed st inp p"
  proof -
    have "plan_target st c \<noteq> p" if "c \<in> set (plan_components inp)" for c
      using rb \<open>p \<in> _ \<or> _\<close> that rollback_not_target [OF ready] target_lasts [OF ready] by metis
    then have "installed st inp (ws_files w0) p = kept st inp (ws_files w0) p" by (intro installed_other) blast
    then show ?thesis using that rb ready_rollback_free [OF ready] by (auto simp: kept_def)
  qed
  show "closed_files st inp w p = installed st inp (ws_files w0) p"
    using none j by (auto simp: closed_files_def journal_complete_def)
qed


section \<open>The end of a run\<close>

definition disk_open :: "site \<Rightarrow> restore_input \<Rightarrow> (path \<Rightarrow> string option) \<Rightarrow> machine \<Rightarrow> bool" where
  "disk_open st inp orig w \<longleftrightarrow> (\<exists>j. ws_journal w = Journal j \<and> journal_open st inp orig (ws_files w) j)"

definition disk_complete :: "site \<Rightarrow> restore_input \<Rightarrow> (path \<Rightarrow> string option) \<Rightarrow> machine \<Rightarrow> bool" where
  "disk_complete st inp orig w \<longleftrightarrow>
     ws_journal w = Journal (ws_memory w) \<and> journal_complete st inp orig (ws_files w) (ws_memory w)"

text \<open>The journal is gone, and everything that lasts is as a state has it.\<close>

definition settled_disk :: "site \<Rightarrow> restore_input \<Rightarrow> (path \<Rightarrow> string option) \<Rightarrow> machine \<Rightarrow> bool" where
  "settled_disk st inp orig w \<longleftrightarrow> ws_journal w = No_journal \<and> (\<forall>p. \<not> doomed st inp p \<longrightarrow> ws_files w p = orig p)"

text \<open>What a step may leave once the phase \<open>complete\<close> is set.\<close>

definition finishing :: "site \<Rightarrow> restore_input \<Rightarrow> (path \<Rightarrow> string option) \<Rightarrow> machine \<Rightarrow> bool" where
  "finishing st inp orig w \<longleftrightarrow> jn_phase (ws_memory w) = ''complete''
     \<and> (disk_open st inp orig w \<or> disk_complete st inp orig w \<or> settled_disk st inp (installed st inp orig) w)"

definition finished :: "site \<Rightarrow> restore_input \<Rightarrow> (path \<Rightarrow> string option) \<Rightarrow> machine \<Rightarrow> bool" where
  "finished st inp orig w \<longleftrightarrow> ws_journal w = No_journal \<and> \<not> ws_marker w \<and> jn_phase (ws_memory w) = ''complete''
     \<and> journal_fixed (ws_memory w) = journal_fixed (new_journal st inp)
     \<and> (\<forall>p. \<not> doomed st inp p \<longrightarrow> ws_files w p = installed st inp orig p)"

lemma disk_complete_cong:
  "\<lbrakk> ws_journal w' = ws_journal w; ws_files w' = ws_files w; ws_memory w' = ws_memory w \<rbrakk>
   \<Longrightarrow> disk_complete st inp orig w' = disk_complete st inp orig w"
  by (simp add: disk_complete_def)

lemma write_complete:
  assumes "held st inp orig w" "journal_complete st inp orig (ws_files w) ((ws_memory w)\<lparr>jn_phase := ''complete''\<rparr>)"
  shows "ends (write_restore_journal (set_phase ''complete'' w)) (\<lambda>_. finishing st inp orig) (\<lambda>_. disk_complete st inp orig)"
  using assms
  by (auto simp: write_restore_journal_def write_step_def held_def restore_open_def set_phase_def remember_def
      finishing_def disk_open_def disk_complete_def split: list.split event.split)

lemma disk_complete_finishing: "disk_complete st inp orig w \<Longrightarrow> finishing st inp orig w"
  by (simp add: finishing_def disk_complete_def journal_complete_def)

lemma history_complete:
  assumes "disk_complete st inp orig w"
  shows "ends (write_restore_history st result w) (\<lambda>_. disk_complete st inp orig) (\<lambda>_. disk_complete st inp orig)"
proof -
  have "disk_complete st inp orig (w\<lparr>ws_events := es, ws_history := h\<rparr>)" "disk_complete st inp orig (w\<lparr>ws_events := es\<rparr>)"
    "disk_complete st inp orig (w\<lparr>ws_history := h\<rparr>)" for es h
    using assms by (simp_all add: disk_complete_def)
  then show ?thesis
    using assms by (auto simp: write_restore_history_def write_step_def split: list.split event.split)
qed

lemma remove_rollback_complete:
  assumes ready: "restore_ready st inp w0" and w: "disk_complete st inp (ws_files w0) w" and e: "e \<in> set (jn_swaps (ws_memory w))"
  shows "ends (remove_path (sw_rollback e) w) (\<lambda>_. disk_complete st inp (ws_files w0))
    (\<lambda>_ w'. disk_complete st inp (ws_files w0) w' \<and> ws_memory w' = ws_memory w \<and> ws_files w' = (ws_files w)(sw_rollback e := None))"
proof -
  have j: "journal_complete st inp (ws_files w0) (ws_files w) (ws_memory w)" using w by (simp add: disk_complete_def)
  have "sw_rollback e \<noteq> st_root st ''data''"
    using j e data_root(3) [OF ready] by (simp add: journal_complete_def swap_shape_def Let_def)
  then have "journal_complete st inp (ws_files w0) ((ws_files w)(sw_rollback e := x)) (ws_memory w)" for x
    using j e by (auto simp: journal_complete_def)
  then have all: "disk_complete st inp (ws_files w0) (w\<lparr>ws_files := (ws_files w)(sw_rollback e := x), ws_events := es\<rparr>)"
    "disk_complete st inp (ws_files w0) (w\<lparr>ws_files := (ws_files w)(sw_rollback e := x)\<rparr>)"
    "disk_complete st inp (ws_files w0) (w\<lparr>ws_events := es\<rparr>)" for x es
    using w by (simp_all add: disk_complete_def)
  show ?thesis
  proof (cases "ws_files w (sw_rollback e) = None")
    case True
    then show ?thesis using w by (auto simp: remove_path_def)
  next
    case False
    then show ?thesis
      using all by (auto simp: remove_path_def split: list.split event.split)
  qed
qed

lemma cleanup_complete:
  assumes ready: "restore_ready st inp w0"
  shows "\<lbrakk> disk_complete st inp (ws_files w0) w; set es \<subseteq> set (jn_swaps (ws_memory w)) \<rbrakk>
    \<Longrightarrow> ends (cleanup_restore_swaps es w) (\<lambda>_. disk_complete st inp (ws_files w0))
      (\<lambda>_ w'. disk_complete st inp (ws_files w0) w' \<and> ws_memory w' = ws_memory w
         \<and> ws_files w' = (\<lambda>p. if p \<in> sw_rollback ` set es then None else ws_files w p))"
proof (induction es arbitrary: w)
  case Nil
  then show ?case by simp
next
  case (Cons e es)
  have e: "e \<in> set (jn_swaps (ws_memory w))" using Cons.prems by simp
  show ?case
    unfolding cleanup_restore_swaps.simps
  proof (rule ends_bind [OF remove_rollback_complete [OF ready Cons.prems(1) e]])
    fix a w1 assume w1: "disk_complete st inp (ws_files w0) w1 \<and> ws_memory w1 = ws_memory w
      \<and> ws_files w1 = (ws_files w)(sw_rollback e := None)"
    show "ends (cleanup_restore_swaps es w1) (\<lambda>_. disk_complete st inp (ws_files w0))
      (\<lambda>_ w'. disk_complete st inp (ws_files w0) w' \<and> ws_memory w' = ws_memory w
         \<and> ws_files w' = (\<lambda>p. if p \<in> sw_rollback ` set (e # es) then None else ws_files w p))"
      by (rule ends_mono [OF Cons.IH]) (use w1 Cons.prems in \<open>auto simp: fun_eq_iff\<close>)
  qed
qed

lemma clear_complete:
  assumes "disk_complete st inp orig w" "\<And>p. \<not> doomed st inp p \<Longrightarrow> ws_files w p = installed st inp orig p"
  shows "ends (clear_restore_markers w) (\<lambda>_. finishing st inp orig) (\<lambda>_. finished st inp orig)"
proof -
  have phase: "jn_phase (ws_memory w) = ''complete''" "journal_fixed (ws_memory w) = journal_fixed (new_journal st inp)"
    using assms(1) by (simp_all add: disk_complete_def journal_complete_def)
  have keep: "finishing st inp orig (w\<lparr>ws_events := es, ws_marker := m\<rparr>)" "finishing st inp orig (w\<lparr>ws_events := es\<rparr>)"
    "finishing st inp orig (w\<lparr>ws_events := es, ws_marker := m, ws_events := es'\<rparr>)" for es es' m
    using assms(1) by (simp_all add: finishing_def disk_complete_def journal_complete_def)
  have gone: "finishing st inp orig (w'\<lparr>ws_journal := No_journal\<rparr>)"
    if "ws_memory w' = ws_memory w" "ws_files w' = ws_files w" for w'
    using that phase assms(2) by (simp add: finishing_def settled_disk_def)
  show ?thesis
    using keep phase assms(2)
    by (auto simp: clear_restore_markers_def write_step_def finished_def gone split: list.split event.split)
qed

lemma remove_staged_finished:
  assumes w: "finished st inp orig w" and p: "\<And>q. p = Some q \<Longrightarrow> doomed st inp q"
  shows "ends (remove_staged_database p w) (\<lambda>_. finishing st inp orig) (\<lambda>_. finished st inp orig)"
  using assms
  by (auto simp: remove_staged_database_def remove_path_def finishing_def finished_def settled_disk_def
      split: option.split list.split event.split)

lemma remove_root_finished:
  assumes w: "finished st inp orig w"
  shows "ends (remove_staging_root st (ri_staging_root inp) w) (\<lambda>_. finishing st inp orig) (\<lambda>_. finished st inp orig)"
  using assms
  by (auto simp: remove_staging_root_def Let_def finishing_def finished_def settled_disk_def doomed_def split: list.split event.split)

lemma finish_restore_ends:
  assumes ready: "restore_ready st inp w0" and p: "progress st inp (ws_files w0) (plan_components inp) w"
  shows "ends (finish_restore st inp w) (\<lambda>_ w'. held st inp (ws_files w0) w' \<or> finishing st inp (ws_files w0) w')
    (\<lambda>_. finished st inp (ws_files w0))"
proof (cases "roots_exist st inp w")
  case False
  then show ?thesis using progress_held [OF p] by (simp add: finish_restore_def)
next
  case True
  let ?E = "\<lambda>_. finishing st inp (ws_files w0)"
  note held = progress_held [OF p]
  have "ends (finish_restore st inp w) ?E (\<lambda>_. finished st inp (ws_files w0))"
    unfolding finish_restore_def if_not_P [OF iffD2 [OF not_not True]]
  proof (rule ends_bind [OF write_complete [OF held progress_complete [OF ready p True]]])
    fix a w1 assume w1: "disk_complete st inp (ws_files w0) w1"
    show "ends (and_then (write_restore_history st ''success'' w1) (\<lambda>_ w2.
        and_then (cleanup_restore_swaps (jn_swaps (ws_memory w2)) w2) (\<lambda>_ w3.
        and_then (clear_restore_markers w3) (\<lambda>_ w4.
        and_then (remove_staged_database (jn_database_staged (ws_memory w4)) w4) (\<lambda>_ w5.
          remove_staging_root st (ri_staging_root inp) w5))))) ?E (\<lambda>_. finished st inp (ws_files w0))"
    proof (rule ends_bind [OF ends_mono [OF history_complete [OF w1] disk_complete_finishing]])
      fix a w2 assume w2: "disk_complete st inp (ws_files w0) w2"
      show "ends (and_then (cleanup_restore_swaps (jn_swaps (ws_memory w2)) w2) (\<lambda>_ w3.
        and_then (clear_restore_markers w3) (\<lambda>_ w4.
        and_then (remove_staged_database (jn_database_staged (ws_memory w4)) w4) (\<lambda>_ w5.
          remove_staging_root st (ri_staging_root inp) w5)))) ?E (\<lambda>_. finished st inp (ws_files w0))"
      proof (rule ends_bind [OF ends_mono [OF cleanup_complete [OF ready w2 subset_refl] disk_complete_finishing]])
        fix a w3 assume w3: "disk_complete st inp (ws_files w0) w3 \<and> ws_memory w3 = ws_memory w2
          \<and> ws_files w3 = (\<lambda>p. if p \<in> sw_rollback ` set (jn_swaps (ws_memory w2)) then None else ws_files w2 p)"
        have "closed_files st inp w2 = installed st inp (ws_files w0)"
          using w2 by (intro complete_files [OF ready]) (simp add: disk_complete_def)
        then have "ws_files w3 q = installed st inp (ws_files w0) q" if "\<not> doomed st inp q" for q
          using w3 that by (auto simp: closed_files_def dest: fun_cong [of _ _ q])
        then show "ends (and_then (clear_restore_markers w3) (\<lambda>_ w4.
          and_then (remove_staged_database (jn_database_staged (ws_memory w4)) w4) (\<lambda>_ w5.
            remove_staging_root st (ri_staging_root inp) w5))) ?E (\<lambda>_. finished st inp (ws_files w0))"
        proof (intro ends_bind [OF clear_complete])
          fix a w4 assume w4: "finished st inp (ws_files w0) w4"
          have "doomed st inp q" if "jn_database_staged (ws_memory w4) = Some q" for q
            using w4 that fixed_fields(7) [of "ws_memory w4" st inp] by (auto simp: finished_def doomed_def split: if_splits)
          then show "ends (and_then (remove_staged_database (jn_database_staged (ws_memory w4)) w4) (\<lambda>_ w5.
              remove_staging_root st (ri_staging_root inp) w5)) ?E (\<lambda>_. finished st inp (ws_files w0))"
            by (intro ends_bind [OF remove_staged_finished [OF w4]] remove_root_finished)
        qed (use w3 in simp_all)
      qed
    qed
  qed
  then show ?thesis by (rule ends_mono) simp_all
qed

section \<open>A whole run\<close>

text \<open>Nothing has been moved: the first journal may not be written, the marker not set.\<close>

definition unstarted :: "site \<Rightarrow> restore_input \<Rightarrow> machine \<Rightarrow> machine \<Rightarrow> bool" where
  "unstarted st inp w0 w \<longleftrightarrow> ws_files w = ws_files w0 \<and> ws_memory w = new_journal st inp
     \<and> (ws_journal w = No_journal \<and> \<not> ws_marker w \<or> ws_journal w = Journal (new_journal st inp))"

lemma new_journal_open: "journal_open st inp orig orig (new_journal st inp)"
  by (simp add: journal_open_def new_journal_def journal_fixed_def swaps_ok_def apart_def)

lemma unstarted_progress:
  assumes "unstarted st inp w0 w" "ws_marker w"
  shows "progress st inp (ws_files w0) [] w"
proof -
  have w: "ws_files w = ws_files w0" "ws_memory w = new_journal st inp" "ws_journal w = Journal (new_journal st inp)"
    using assms by (auto simp: unstarted_def)
  have "synced w" by (simp add: synced_def w)
  moreover have "held st inp (ws_files w0) w"
    using assms(2) new_journal_open by (intro held_synced calculation) (simp_all add: w)
  ultimately show ?thesis by (simp add: progress_def w new_journal_def)
qed

definition stopped :: "site \<Rightarrow> restore_input \<Rightarrow> machine \<Rightarrow> machine \<Rightarrow> bool" where
  "stopped st inp w0 w \<longleftrightarrow> unstarted st inp w0 w \<or> held st inp (ws_files w0) w \<or> finishing st inp (ws_files w0) w"

lemma run_restore_ends:
  assumes ready: "restore_ready st inp w0"
  shows "ends (run_restore st inp w0) (\<lambda>_. stopped st inp w0) (\<lambda>_. finished st inp (ws_files w0))"
  unfolding run_restore_def
proof (rule ends_bind)
  show "ends (write_restore_journal (remember (\<lambda>_. new_journal st inp) w0)) (\<lambda>_. stopped st inp w0)
      (\<lambda>_ w. unstarted st inp w0 w \<and> ws_journal w \<noteq> No_journal)"
    using ready
    by (auto simp: write_restore_journal_def write_step_def remember_def stopped_def unstarted_def restore_ready_def
        split: list.split event.split)
  fix a w1 assume w1: "unstarted st inp w0 w1 \<and> ws_journal w1 \<noteq> No_journal"
  show "ends (and_then (write_restore_marker w1) (\<lambda>_ w2. and_then (switch_all st inp w2) (\<lambda>_ w3. finish_restore st inp w3)))
      (\<lambda>_. stopped st inp w0) (\<lambda>_. finished st inp (ws_files w0))"
  proof (rule ends_bind)
    show "ends (write_restore_marker w1) (\<lambda>_. stopped st inp w0) (\<lambda>_ w. progress st inp (ws_files w0) [] w)"
    proof -
      have un: "unstarted st inp w0 (w1\<lparr>ws_events := es\<rparr>)" "unstarted st inp w0 (w1\<lparr>ws_events := es, ws_marker := True\<rparr>)"
        "unstarted st inp w0 (w1\<lparr>ws_marker := True\<rparr>)" for es
        using w1 by (auto simp: unstarted_def)
      show ?thesis
        using un unstarted_progress [OF un(2)] unstarted_progress [OF un(3)]
        by (auto simp: write_restore_marker_def write_step_def stopped_def split: list.split event.split)
    qed
    fix b w2 assume w2: "progress st inp (ws_files w0) [] w2"
    show "ends (and_then (switch_all st inp w2) (\<lambda>_ w3. finish_restore st inp w3))
      (\<lambda>_. stopped st inp w0) (\<lambda>_. finished st inp (ws_files w0))"
    proof (rule ends_bind)
      show "ends (switch_all st inp w2) (\<lambda>_. stopped st inp w0) (\<lambda>_. progress st inp (ws_files w0) (plan_components inp))"
        by (rule ends_mono [OF switch_all_held [OF ready w2]]) (simp_all add: stopped_def)
      fix c w3 assume w3: "progress st inp (ws_files w0) (plan_components inp) w3"
      show "ends (finish_restore st inp w3) (\<lambda>_. stopped st inp w0) (\<lambda>_. finished st inp (ws_files w0))"
        by (rule ends_mono [OF finish_restore_ends [OF ready w3]]) (auto simp: stopped_def)
    qed
  qed
qed


text \<open>One instance, one theme directory, and a schedule: the input of the witnesses.\<close>

definition demo_restore_site :: site where
  "demo_restore_site = \<lparr>st_root = (\<lambda>c. [''srv'', c]), st_instance = [''srv''], st_tmp = [''tmp''],
     st_database = [''srv'', ''data'', ''app.db''], st_resolve = (\<lambda>p. p), st_unsafe = (\<lambda>_. False)\<rparr>"

definition demo_restore_input :: restore_input where
  "demo_restore_input = \<lparr>ri_restore_id = replicate 32 (CHR ''a''), ri_backup_id = ''20240101-000000'',
     ri_staging_root = [''srv'', ''.restore-20240101-000000-aaaaaaaaaaaa-x''], ri_components = [''themes''],
     ri_backend = ''sqlite'', ri_import = []\<rparr>"

definition demo_restore_machine :: "event list \<Rightarrow> machine" where
  "demo_restore_machine es = \<lparr>ws_files = (\<lambda>p. if p = [''srv'', ''themes''] then Some ''old''
        else if p = [''srv'', ''.restore-20240101-000000-aaaaaaaaaaaa-x'', ''themes''] then Some ''new''
        else if p = [''srv'', ''data''] then Some ''data'' else None),
     ws_journal = No_journal, ws_marker = False, ws_history = [], ws_server = [],
     ws_memory = new_journal demo_restore_site demo_restore_input, ws_events = es\<rparr>"

lemma demo_restore_ready: "restore_ready demo_restore_site demo_restore_input (demo_restore_machine es)"
  by code_simp


text \<open>
  C14. A restore that starts as \<open>restore_ready\<close> says and returns has put every path of its plan to
  what the backup has, and removed its journal, its marker and the files it had moved aside.
\<close>

theorem successful_restore_installs:
  assumes "restore_ready st inp w" "apply_restore st inp w = (Inr (), w1)" "\<not> doomed st inp p"
  shows "ws_files w1 p = installed st inp (ws_files w) p \<and> ws_journal w1 = No_journal \<and> \<not> ws_marker w1"
proof -
  have "handle_failure st inp e w' \<noteq> (Inr (), w1)" for e w'
    by (auto simp: handle_failure_def and_then_def split: prod.splits sum.splits if_splits)
  then have "run_restore st inp w = (Inr (), w1)"
    using assms(2) unfolding apply_restore_def
    by (auto split: if_splits prod.splits sum.splits restore_error.splits)
  then have "finished st inp (ws_files w) w1" by (rule ends_Inr [OF run_restore_ends [OF assms(1)]])
  then show ?thesis using assms(3) by (simp add: finished_def)
qed

lemma successful_restore_installs_witness:
  "\<exists>w1. apply_restore demo_restore_site demo_restore_input (demo_restore_machine []) = (Inr (), w1)
    \<and> ws_files w1 [''srv'', ''themes''] = Some ''new''"
proof -
  let ?x = "apply_restore demo_restore_site demo_restore_input (demo_restore_machine [])"
  have "fst ?x = Inr ()" by code_simp
  then have x: "?x = (Inr (), snd ?x)" by (metis prod.collapse)
  have "\<not> doomed demo_restore_site demo_restore_input [''srv'', ''themes'']" by code_simp
  moreover have "installed demo_restore_site demo_restore_input (ws_files (demo_restore_machine [])) [''srv'', ''themes''] = Some ''new''"
    by code_simp
  ultimately show ?thesis using x successful_restore_installs [OF demo_restore_ready x] by metis
qed

section \<open>A failure that the run handles itself\<close>

text \<open>The end of the handler: the history entry and what was staged.\<close>

lemma handle_failure_end:
  assumes ready: "restore_ready st inp w0" and ev: "ws_events w = []" and r: "result \<noteq> ''recovery-required''"
    and undo: "undo_restore st w = (Inr result, w1)" "ws_events w1 = []" "ws_journal w1 = No_journal" "\<not> ws_marker w1"
    and fixed: "journal_fixed (ws_memory w1) = journal_fixed (new_journal st inp)"
    and files: "\<forall>p. \<not> doomed st inp p \<longrightarrow> ws_files w1 p = ws_files w0 p"
  shows "\<exists>w2. handle_failure st inp e w = (Inl (reraised e), w2) \<and> ws_journal w2 = No_journal \<and> \<not> ws_marker w2
    \<and> ws_files w2 = kept st inp (ws_files w0) \<and> ws_history w2 = ws_history w1 @ [result]"
proof -
  have data: "ws_files w1 (st_root st ''data'') \<noteq> None" using files data_root(1,2) [OF ready] by simp
  have inside: "prefix (st_resolve st (st_instance st)) (st_resolve st (ri_staging_root inp))"
    using ready by (simp add: restore_ready_def)
  let ?h = "ws_history w1 @ [result]"
  have hist: "write_restore_history st result w1 = (Inr (), w1\<lparr>ws_history := ?h\<rparr>)"
    using data undo(2) by (simp add: write_restore_history_def calm_write)
  obtain f where staged: "remove_staged_database (jn_database_staged (ws_memory w1)) (w1\<lparr>ws_history := ?h\<rparr>)
      = (Inr (), w1\<lparr>ws_history := ?h, ws_files := f\<rparr>)"
    and f: "\<And>p. f p = (if sqlite_selected inp \<and> p = staged_database st (ri_restore_id inp) then None else ws_files w1 p)"
    using undo(2) that [of "ws_files w1"] that [of "(ws_files w1)(staged_database st (ri_restore_id inp) := None)"]
    by (cases "sqlite_selected inp") (simp_all add: fixed_fields(7) [OF fixed] remove_staged_database_def calm_remove)
  have root: "remove_staging_root st (ri_staging_root inp) (w1\<lparr>ws_history := ?h, ws_files := f\<rparr>)
      = (Inr (), w1\<lparr>ws_history := ?h, ws_files := \<lambda>p. if prefix (ri_staging_root inp) p then None else f p\<rparr>)"
    using inside undo(2) by (simp add: remove_staging_root_def Let_def cong: if_cong)
  have "(\<lambda>p. if prefix (ri_staging_root inp) p then None else f p) = kept st inp (ws_files w0)"
    using files by (auto simp: f kept_def doomed_def fun_eq_iff)
  then show ?thesis using r undo hist staged root by (simp add: handle_failure_def)
qed

text \<open>
  C13. Let a restore start as \<open>restore_ready\<close> says (paths that do not overlap, no import into a
  database server). If it fails before its phase is complete, otherwise than by the death of its
  process, and no file operation fails while it cleans up, it raises the error it met (an error of
  the operating system as a \<open>RestoreError\<close>) and leaves every path as it was, with the staged files,
  the journal and the maintenance marker removed.
\<close>

theorem failed_restore_undone:
  assumes ready: "restore_ready st inp w" and run: "run_restore st inp w = (Inl e, w1)" and e: "e \<noteq> Process_died"
    and calm: "ws_events w1 = []" and phase: "jn_phase (ws_memory w1) \<noteq> ''complete''"
  shows "\<exists>w2. apply_restore st inp w = (Inl (reraised e), w2) \<and> ws_journal w2 = No_journal \<and> \<not> ws_marker w2
    \<and> ws_files w2 = kept st inp (ws_files w)"
proof -
  have "stopped st inp w w1" by (rule ends_Inl [OF run_restore_ends [OF ready] run])
  then have un: "unstarted st inp w w1 \<or> held st inp (ws_files w) w1" using phase by (auto simp: stopped_def finishing_def)
  have open': "journal_open st inp (ws_files w) (ws_files w1) (ws_memory w1)"
    using un new_journal_open held_memory by (auto simp: unstarted_def)
  have handled: "\<exists>w2. handle_failure st inp e w1 = (Inl (reraised e), w2) \<and> ws_journal w2 = No_journal \<and> \<not> ws_marker w2
    \<and> ws_files w2 = kept st inp (ws_files w)"
  proof (cases "ws_marker w1")
    case False
    then have "ws_files w1 = ws_files w" "ws_memory w1 = new_journal st inp"
      using un by (auto simp: unstarted_def held_def)
    moreover have "undo_restore st w1 = (Inr ''failed'', w1\<lparr>ws_journal := No_journal\<rparr>)"
      using False calm by (simp add: undo_restore_def Let_def calm_write)
    ultimately show ?thesis
      using handle_failure_end [OF ready calm, of "''failed''" "w1\<lparr>ws_journal := No_journal\<rparr>" e] False calm by auto
  next
    case True
    obtain w3 where w3: "rollback_swaps st w1 = (Inr (), w3)" "ws_events w3 = []"
      "journal_fixed (ws_memory w3) = journal_fixed (new_journal st inp)"
      "\<forall>p. \<not> doomed st inp p \<longrightarrow> ws_files w3 p = ws_files w p"
      using rollback_open [OF ready calm open'] by (elim exE conjE) (rule that, assumption+)
    have server: "\<not> (jn_backend (ws_memory w1) \<noteq> ''sqlite'' \<and> jn_commit_started (ws_memory w1))"
      "\<not> (jn_backend (ws_memory w1) \<noteq> ''sqlite'' \<and> jn_committed (ws_memory w1))"
      using open' fixed_fields(6) [of "ws_memory w1" st inp] by (auto simp: journal_open_def)
    let ?w = "set_phase ''rolled-back'' w3"
    let ?fin = "?w\<lparr>ws_journal := No_journal, ws_marker := False\<rparr>"
    have ev: "ws_events ?w = []" using w3(2) by (simp add: set_phase_def remember_def)
    have "undo_restore st w1 = (Inr ''rolled-back'', ?fin)"
      using True phase server w3(1) ev
      by (auto simp: undo_restore_def Let_def write_restore_journal_def clear_restore_markers_def calm_write)
    then show ?thesis
      using handle_failure_end [OF ready calm, of "''rolled-back''" ?fin e] w3 ev
      by (auto simp: set_phase_def remember_def journal_fixed_def)
  qed
  moreover have "ws_journal w = No_journal" "\<not> ws_marker w" using ready by (simp_all add: restore_ready_def)
  ultimately show ?thesis using run e by (cases e) (simp_all add: apply_restore_def)
qed

lemma failed_restore_undone_witness:
  "\<exists>w2. apply_restore demo_restore_site demo_restore_input (demo_restore_machine (replicate 4 Works @ [Fails])) = (Inl (Restore_failed ''Restore failed''), w2)
    \<and> ws_files w2 = kept demo_restore_site demo_restore_input (ws_files (demo_restore_machine (replicate 4 Works @ [Fails])))"
proof -
  let ?x = "run_restore demo_restore_site demo_restore_input (demo_restore_machine (replicate 4 Works @ [Fails]))"
  have "fst ?x = Inl Os_error" by code_simp
  then have x: "?x = (Inl Os_error, snd ?x)" by (metis prod.collapse)
  have "ws_events (snd ?x) = []" "jn_phase (ws_memory (snd ?x)) \<noteq> ''complete''" by code_simp+
  then show ?thesis using failed_restore_undone [OF demo_restore_ready x] by (auto simp: reraised_def)
qed

end
