(* ===== verification/Restore_Interrupts.thy ===== *)
theory Restore_Interrupts
  imports Restore_Recovery
begin

text \<open>
  Recoveries that are themselves interrupted. The originals stay where a later recovery finds
  them, however often this happens; but a recovery that dies between a move and the journal
  entry for it cannot be repeated.
\<close>

section \<open>Journals that lose nothing\<close>









section \<open>One swap, with any interruption\<close>










section \<open>A whole recovery, with any interruption\<close>









section \<open>Closing a recovery, with any interruption\<close>









section \<open>Interrupted recoveries of an interrupted restore\<close>



















section \<open>A recovery that cannot be repeated\<close>





end
