(* ===== verification/Http_Signatures.thy ===== *)
theory Http_Signatures
  imports Federation_Actors
begin

text \<open>
  \<open>auth/http_signatures.py\<close>: signing and verifying requests in the older format of the
  Fediverse. The header is parsed and the signed text built as in the code; the reading of
  dates, base64, SHA-256 and RSA are arguments, of which \<open>crypto_laws\<close> states what the
  round trip relies on.
\<close>

record http_request =
  hr_method :: string
  hr_path :: string
  hr_headers :: "(string \<times> string) list"
  hr_body :: string

text \<open>
  \<open>sg_date\<close> and \<open>sg_format\<close> are \<open>parsedate_to_datetime\<close> (\<open>None\<close> where it raises) and
  \<open>formatdate\<close>; \<open>sg_digest\<close> is the base64 text of the SHA-256 hash of a body; \<open>sg_public\<close>
  and \<open>sg_private\<close> load a key, \<open>None\<close> where that raises and otherwise whether it is an RSA
  key of at least 2048 bits. A private key is named by its encrypted form.
\<close>

record sig_env =
  sg_date :: "string \<Rightarrow> time option"
  sg_format :: "time \<Rightarrow> string"
  sg_digest :: "string \<Rightarrow> string"
  sg_decode :: "string \<Rightarrow> string option"
  sg_encode :: "string \<Rightarrow> string"
  sg_public :: "string \<Rightarrow> bool option"
  sg_verify :: "string \<Rightarrow> string \<Rightarrow> string \<Rightarrow> bool"
  sg_private :: "string \<Rightarrow> bool option"
  sg_sign :: "string \<Rightarrow> string \<Rightarrow> string"
  sg_configured :: bool

definition SKEW_SECONDS :: int where "SKEW_SECONDS = 300"

section \<open>Headers\<close>

text \<open>The dictionary of lower-case names: the last of two equal ones counts.\<close>

definition normalized :: "(string \<times> string) list \<Rightarrow> string \<Rightarrow> string option" where
  "normalized headers name = map_of (rev (map (\<lambda>(k, v). (lower k, v)) headers)) name"

definition is_alpha :: "char \<Rightarrow> bool" where
  "is_alpha c \<longleftrightarrow> is_lower_alpha c \<or> is_upper_alpha c"

definition param_char :: "char \<Rightarrow> bool" where
  "param_char c \<longleftrightarrow> is_alpha c \<or> is_digit c \<or> c = CHR ''_'' \<or> c = CHR ''-''"

definition quotable :: "char \<Rightarrow> bool" where
  "quotable c \<longleftrightarrow> c \<noteq> CHR 0x22 \<and> c \<noteq> CHR 0x0A \<and> c \<noteq> CHR 0x0D"

definition quoted :: "string \<Rightarrow> string \<Rightarrow> string" where
  "quoted name content = name @ CHR ''='' # CHR 0x22 # content @ [CHR 0x22]"

text \<open>\<open>_PARAM_RE.fullmatch\<close>: blanks, a name, an equals sign, a quoted text, blanks.\<close>

definition match_param :: "string \<Rightarrow> (string \<times> string) option" where
  "match_param item =
     (let s = dropWhile is_space item; name = takeWhile param_char s; rest = dropWhile param_char s;
          tail = drop 2 rest; content = takeWhile quotable tail; after = dropWhile quotable tail in
      if name \<noteq> [] \<and> is_alpha (hd name) \<and> startswith rest [CHR ''='', CHR 0x22]
         \<and> after \<noteq> [] \<and> hd after = CHR 0x22 \<and> list_all is_space (tl after)
      then Some (name, content) else None)"

fun parse_params :: "(string \<times> string) list \<Rightarrow> string list \<Rightarrow> (string \<times> string) list option" where
  "parse_params found [] = Some found"
| "parse_params found (item # items) = (case match_param item of
     None \<Rightarrow> None
   | Some (name, content) \<Rightarrow>
       if map_of found (lower name) \<noteq> None then None
       else parse_params (found @ [(lower name, content)]) items)"

definition parse_signature_header :: "string \<Rightarrow> (string \<times> string) list option" where
  "parse_signature_header value = parse_params [] (split_on CHR '','' value)"

definition param :: "(string \<times> string) list \<Rightarrow> string \<Rightarrow> string" where
  "param params name = or_empty (map_of params name)"

section \<open>The signed text\<close>

definition REQUEST_TARGET :: string where "REQUEST_TARGET = ''(request-target)''"

definition base_line :: "http_request \<Rightarrow> string \<Rightarrow> string option" where
  "base_line rq name =
     (if name = REQUEST_TARGET
      then Some (REQUEST_TARGET @ '': '' @ lower (hr_method rq) @ '' '' @ hr_path rq)
      else map_option (\<lambda>v. name @ '': '' @ strip v) (normalized (hr_headers rq) name))"

fun base_lines :: "http_request \<Rightarrow> string list \<Rightarrow> string list option" where
  "base_lines rq [] = Some []"
| "base_lines rq (name # names) = (case (base_line rq name, base_lines rq names) of
     (Some l, Some ls) \<Rightarrow> Some (l # ls) | _ \<Rightarrow> None)"

definition build_legacy_base :: "string list \<Rightarrow> http_request \<Rightarrow> string option" where
  "build_legacy_base names rq = map_option (join_with [CHR 0x0A]) (base_lines rq names)"

section \<open>Verification\<close>

definition header_name_char :: "char \<Rightarrow> bool" where
  "header_name_char c \<longleftrightarrow> is_lower_alpha c \<or> is_digit c \<or> c = CHR ''-''"

definition signed_names :: "(string \<times> string) list \<Rightarrow> string list" where
  "signed_names params = map lower (split_ws (param params ''headers''))"

text \<open>The parameters of the header, or the reason it is refused for.\<close>

definition signature_params :: "http_request \<Rightarrow> string + (string \<times> string) list" where
  "signature_params rq = (case normalized (hr_headers rq) ''signature'' of
     None \<Rightarrow> Inl ''missing_signature''
   | Some raw \<Rightarrow>
       if raw = [] then Inl ''missing_signature''
       else (case parse_signature_header raw of
           None \<Rightarrow> Inl ''malformed_signature''
         | Some params \<Rightarrow>
             (let names = signed_names params in
              if params = [] then Inl ''malformed_signature''
              else if lower (param params ''algorithm'') \<noteq> ''rsa-sha256'' then Inl ''unsupported_signature_algorithm''
              else if param params ''keyid'' = [] \<or> param params ''signature'' = [] \<or> names = [] \<or> \<not> distinct names
              then Inl ''malformed_signature''
              else if list_ex (\<lambda>n. n \<noteq> REQUEST_TARGET \<and> \<not> (n \<noteq> [] \<and> list_all header_name_char n)) names
              then Inl ''invalid_signed_header_name''
              else Inr params)))"

definition covers_body :: "http_request \<Rightarrow> bool" where
  "covers_body rq \<longleftrightarrow> lower (hr_method rq) = ''post'' \<or> hr_body rq \<noteq> []"

definition required_names :: "http_request \<Rightarrow> string list" where
  "required_names rq = [REQUEST_TARGET, ''host'', ''date''] @ (if covers_body rq then [''digest''] else [])"

definition base64_char :: "char \<Rightarrow> bool" where
  "base64_char c \<longleftrightarrow> is_alpha c \<or> is_digit c \<or> c = CHR ''+'' \<or> c = CHR ''/''"

text \<open>\<open>SHA-256=([A-Za-z0-9+/]+={0,2})\<close>.\<close>

definition digest_text :: "string \<Rightarrow> string option" where
  "digest_text value =
     (let t = drop 8 value; pad = dropWhile base64_char t in
      if startswith value ''SHA-256='' \<and> takeWhile base64_char t \<noteq> [] \<and> pad \<in> {[], ''='', ''==''}
      then Some t else None)"

definition digest_refused :: "sig_env \<Rightarrow> http_request \<Rightarrow> string option" where
  "digest_refused env rq = (case digest_text (or_empty (normalized (hr_headers rq) ''digest'')) of
     None \<Rightarrow> Some ''invalid_digest''
   | Some t \<Rightarrow> if t \<noteq> sg_digest env (hr_body rq) then Some ''digest_mismatch'' else None)"

text \<open>What binds the signed names to this request: coverage, freshness and the digest.\<close>

definition binding_refused :: "sig_env \<Rightarrow> time \<Rightarrow> http_request \<Rightarrow> string list \<Rightarrow> string option" where
  "binding_refused env now rq names =
     (if \<not> list_all (\<lambda>n. n \<in> set names) (required_names rq) then Some ''required_component_not_covered''
      else if \<not> truthy_str (normalized (hr_headers rq) ''host'') \<or> \<not> truthy_str (normalized (hr_headers rq) ''date'')
      then Some ''required_header_missing''
      else (case sg_date env (or_empty (normalized (hr_headers rq) ''date'')) of
          None \<Rightarrow> Some ''invalid_date''
        | Some timestamp \<Rightarrow>
            if \<bar>now - timestamp\<bar> > seconds SKEW_SECONDS then Some ''stale_date''
            else if covers_body rq then digest_refused env rq else None))"

definition key_refused :: "sig_env \<Rightarrow> string \<Rightarrow> string \<Rightarrow> string \<Rightarrow> string option" where
  "key_refused env pem signature base = (case (sg_decode env signature, sg_public env pem) of
     (Some raw, Some safe) \<Rightarrow>
       if \<not> safe then Some ''unsafe_public_key''
       else if \<not> sg_verify env pem raw base then Some ''signature_invalid'' else None
   | _ \<Rightarrow> Some ''signature_invalid'')"

definition verify_legacy_signature_with_pem ::
  "sig_env \<Rightarrow> time \<Rightarrow> http_request \<Rightarrow> string \<Rightarrow> bool \<times> string" where
  "verify_legacy_signature_with_pem env now rq pem = (case signature_params rq of
     Inl reason \<Rightarrow> (False, reason)
   | Inr params \<Rightarrow> (case binding_refused env now rq (signed_names params) of
       Some reason \<Rightarrow> (False, reason)
     | None \<Rightarrow> (case build_legacy_base (signed_names params) rq of
         None \<Rightarrow> (False, ''signed_header_missing'')
       | Some base \<Rightarrow> (case key_refused env pem (param params ''signature'') base of
           Some reason \<Rightarrow> (False, reason)
         | None \<Rightarrow> (True, ''ok'')))))"

record signature_result =
  sr_valid :: bool
  sr_reason :: string
  sr_actor_uri :: "string option"
  sr_key_id :: "string option"

definition refused :: "string \<Rightarrow> signature_result" where
  "refused reason = \<lparr>sr_valid = False, sr_reason = reason, sr_actor_uri = None, sr_key_id = None\<rparr>"

definition verdict :: "string \<Rightarrow> string \<Rightarrow> bool \<times> string \<Rightarrow> signature_result" where
  "verdict key_id owner r = \<lparr>sr_valid = fst r, sr_reason = snd r,
     sr_actor_uri = (if fst r then Some owner else None), sr_key_id = Some key_id\<rparr>"

text \<open>
  The key a cached actor document has may be an old one, so a signature it does not fit is
  tried once more with the key of a fresh document. The two look-ups may meet different
  servers.
\<close>

definition verify_with_refresh ::
  "sig_env \<Rightarrow> fed_env \<Rightarrow> (string \<Rightarrow> actor_answer hop option) \<Rightarrow> http_request \<Rightarrow> string \<Rightarrow> string \<Rightarrow> string \<Rightarrow> db
   \<Rightarrow> (fed_error, signature_result, db) outcome" where
  "verify_with_refresh env fenv serve rq key_id owner pem db =
     (let first = verify_legacy_signature_with_pem env (fv_now fenv) rq pem in
      if fst first \<or> snd first \<noteq> ''signature_invalid'' then (Inr (verdict key_id owner first), db)
      else and_then (resolve_remote_key fenv serve key_id True db) (\<lambda>found db1. case found of
          None \<Rightarrow> (Inr (verdict key_id owner first), db1)
        | Some (owner', pem') \<Rightarrow>
            if owner' = owner \<and> pem' \<noteq> pem
            then (Inr (verdict key_id owner' (verify_legacy_signature_with_pem env (fv_now fenv) rq pem')), db1)
            else (Inr (verdict key_id owner first), db1)))"

definition verify_request_signature ::
  "sig_env \<Rightarrow> fed_env \<Rightarrow> (string \<Rightarrow> actor_answer hop option) \<Rightarrow> (string \<Rightarrow> actor_answer hop option)
   \<Rightarrow> http_request \<Rightarrow> db \<Rightarrow> (fed_error, signature_result, db) outcome" where
  "verify_request_signature env fenv serve serve2 rq db =
     (let h = normalized (hr_headers rq) in
      if truthy_str (h ''signature-input'') \<or> startswith (or_empty (h ''signature'')) ''sig1=''
      then (Inr (refused ''rfc9421_not_supported''), db)
      else (case parse_signature_header (or_empty (h ''signature'')) of
          None \<Rightarrow> (Inr (refused ''missing_or_malformed_signature''), db)
        | Some params \<Rightarrow>
            if params = [] then (Inr (refused ''missing_or_malformed_signature''), db)
            else
             (let key_id = param params ''keyid'' in
              if isl (validate_remote_url_syntax (fv_net fenv) key_id) then (Inr (refused ''invalid_key_id''), db)
              else and_then (resolve_remote_key fenv serve key_id False db) (\<lambda>found db1. case found of
                  None \<Rightarrow> (Inr ((refused ''remote_key_unavailable'')\<lparr>sr_key_id := Some key_id\<rparr>), db1)
                | Some (owner, pem) \<Rightarrow> verify_with_refresh env fenv serve2 rq key_id owner pem db1))))"

text \<open>The wrapper that refuses a call without a database or without settings.\<close>

definition verify_http_signature ::
  "sig_env \<Rightarrow> fed_env option \<Rightarrow> (string \<Rightarrow> actor_answer hop option) \<Rightarrow> (string \<Rightarrow> actor_answer hop option)
   \<Rightarrow> http_request \<Rightarrow> db option \<Rightarrow> (fed_error, bool \<times> string, db option) outcome" where
  "verify_http_signature env fenv serve serve2 rq db = (case (db, fenv) of
     (Some d, Some fe) \<Rightarrow> (case verify_request_signature env fe serve serve2 rq d of
         (Inl e, d') \<Rightarrow> (Inl e, Some d')
       | (Inr r, d') \<Rightarrow> (Inr (sr_valid r, sr_reason r), Some d'))
   | _ \<Rightarrow> (Inr (False, ''verification_context_required''), db))"

section \<open>Signing\<close>

definition signing_values ::
  "sig_env \<Rightarrow> string \<Rightarrow> string \<Rightarrow> string \<Rightarrow> string \<Rightarrow> string \<Rightarrow> (string \<times> string) list" where
  "signing_values env verb path host body date_value =
     [(REQUEST_TARGET, lower verb @ '' '' @ path), (''host'', host), (''date'', date_value)]
     @ (if lower verb = ''post'' \<or> body \<noteq> [] then [(''digest'', ''SHA-256='' @ sg_digest env body)] else [])"

definition signing_base :: "(string \<times> string) list \<Rightarrow> string" where
  "signing_base values = join_with [CHR 0x0A] (map (\<lambda>(name, v). name @ '': '' @ v) values)"

definition signature_header :: "string \<Rightarrow> (string \<times> string) list \<Rightarrow> string \<Rightarrow> string" where
  "signature_header key_id values signature =
     join_with '','' [quoted ''keyId'' key_id, quoted ''algorithm'' ''rsa-sha256'',
       quoted ''headers'' (join_with '' '' (map fst values)), quoted ''signature'' signature]"

definition sign_legacy_request ::
  "sig_env \<Rightarrow> time \<Rightarrow> string \<Rightarrow> string \<Rightarrow> string \<Rightarrow> string \<Rightarrow> string \<Rightarrow> string option \<Rightarrow> db
   \<Rightarrow> fed_error + (string \<times> string) list" where
  "sign_legacy_request env now actor_id verb path host body date db =
     (case first_where (\<lambda>a. la_id a = actor_id \<and> la_enabled a) (local_actors db) of
        None \<Rightarrow> Inl (Value_error ''local_signing_actor_unavailable'')
      | Some actor \<Rightarrow> (case la_current_keypair_id actor of
          None \<Rightarrow> Inl (Value_error ''local_signing_actor_unavailable'')
        | Some kid \<Rightarrow> (case get_by ak_id kid (actor_keypairs db) of
            None \<Rightarrow> Inl (Value_error ''local_signing_key_unavailable'')
          | Some key \<Rightarrow>
              if \<not> sg_configured env \<or> ak_algorithm key \<noteq> ''rsa-sha256''
              then Inl (Value_error ''local_signing_key_unavailable'')
              else (case sg_private env (ak_private_key_enc key) of
                  None \<Rightarrow> Inl (Value_error ''local_signing_key_unavailable'')
                | Some safe \<Rightarrow>
                    if \<not> safe then Inl (Value_error ''local_signing_key_unsafe'')
                    else
                     (let date_value = (if truthy_str date then or_empty date else sg_format env now);
                          values = signing_values env verb path host body date_value;
                          signature = sg_encode env (sg_sign env (ak_private_key_enc key) (signing_base values))
                      in Inr ([(''Host'', host), (''Date'', date_value),
                               (''Signature'', signature_header (ak_key_id_url key) values signature)]
                              @ (case map_of values ''digest'' of
                                   None \<Rightarrow> [] | Some d \<Rightarrow> [(''Digest'', d)])))))))"

section \<open>What an accepted signature shows\<close>

text \<open>The facts about one request and one key behind a positive answer.\<close>

definition request_bound :: "sig_env \<Rightarrow> time \<Rightarrow> http_request \<Rightarrow> (string \<times> string) list \<Rightarrow> bool" where
  "request_bound env now rq params \<longleftrightarrow>
     signature_params rq = Inr params
     \<and> set (required_names rq) \<subseteq> set (signed_names params)
     \<and> (\<exists>t. sg_date env (or_empty (normalized (hr_headers rq) ''date'')) = Some t \<and> \<bar>now - t\<bar> \<le> seconds SKEW_SECONDS)
     \<and> (covers_body rq \<longrightarrow> normalized (hr_headers rq) ''digest'' = Some (''SHA-256='' @ sg_digest env (hr_body rq)))"

definition signed_by :: "sig_env \<Rightarrow> http_request \<Rightarrow> (string \<times> string) list \<Rightarrow> string \<Rightarrow> bool" where
  "signed_by env rq params pem \<longleftrightarrow> sg_public env pem = Some True
     \<and> (\<exists>raw base. sg_decode env (param params ''signature'') = Some raw
         \<and> build_legacy_base (signed_names params) rq = Some base \<and> sg_verify env pem raw base)"

lemma digest_text_value: "digest_text v = Some t \<Longrightarrow> v = ''SHA-256='' @ t"
  by (auto simp: digest_text_def Let_def elim!: prefixE split: if_splits)

lemma digest_accepted:
  "digest_refused env rq = None \<Longrightarrow> normalized (hr_headers rq) ''digest'' = Some (''SHA-256='' @ sg_digest env (hr_body rq))"
  by (cases "normalized (hr_headers rq) ''digest''")
    (auto simp: digest_refused_def digest_text_def Let_def elim!: prefixE split: option.splits if_splits)

lemma binding_accepted:
  assumes "signature_params rq = Inr params" "binding_refused env now rq (signed_names params) = None"
  shows "request_bound env now rq params"
  using assms
  by (auto simp: binding_refused_def request_bound_def digest_accepted list_all_iff not_less
      split: option.splits if_splits)

lemma key_accepted: "key_refused env pem sig base = None \<Longrightarrow>
   sg_public env pem = Some True \<and> (\<exists>raw. sg_decode env sig = Some raw \<and> sg_verify env pem raw base)"
  by (auto simp: key_refused_def split: option.splits if_splits)

lemma verified_pem:
  assumes "fst (verify_legacy_signature_with_pem env now rq pem)"
  shows "\<exists>params. request_bound env now rq params \<and> signed_by env rq params pem"
  using assms
  by (auto simp: verify_legacy_signature_with_pem_def signed_by_def dest!: key_accepted
      dest: binding_accepted split: sum.splits option.splits)

text \<open>
  The identifier of a key must pass \<open>validate_remote_url_syntax\<close>, which refuses a fragment,
  and \<open>resolve_remote_key\<close>, which asks for one: no request gets as far as its key.
\<close>

lemma valid_url_no_fragment:
  "validate_remote_url_syntax net url = Inr v \<Longrightarrow> \<exists>u. urlsplit net url = Some u \<and> sp_fragment u = []"
  by (cases v) (auto dest: validated_https)

lemma resolve_needs_fragment:
  "\<lbrakk> urlsplit (fv_net fenv) key_id = Some u; sp_fragment u = [] \<rbrakk>
   \<Longrightarrow> resolve_remote_key fenv serve key_id force db = (Inr None, db)"
  by (simp add: resolve_remote_key_def)

lemma verify_request_refuses:
  "\<exists>r. verify_request_signature env fenv serve serve2 rq db = (Inr r, db) \<and> \<not> sr_valid r"
proof -
  have unresolved: "resolve_remote_key fenv serve key_id False db = (Inr None, db)"
    if valid: "\<not> isl (validate_remote_url_syntax (fv_net fenv) key_id)" for key_id
  proof -
    obtain v where "validate_remote_url_syntax (fv_net fenv) key_id = Inr v"
      using valid by (cases "validate_remote_url_syntax (fv_net fenv) key_id") auto
    from valid_url_no_fragment [OF this] show ?thesis by (auto intro: resolve_needs_fragment)
  qed
  show ?thesis
    by (auto simp: verify_request_signature_def refused_def and_then_def unresolved Let_def split: option.split)
qed

section \<open>Signing and verifying fit\<close>

lemma split_on_aux_last: "c \<notin> set xs \<Longrightarrow> split_on_aux c acc xs = [rev acc @ xs]"
  by (induction xs arbitrary: acc) auto

lemma split_on_aux_more: "c \<notin> set xs \<Longrightarrow> split_on_aux c acc (xs @ c # ys) = (rev acc @ xs) # split_on_aux c [] ys"
  by (induction xs arbitrary: acc) auto

lemma split_on_join: "\<lbrakk> ps \<noteq> []; \<forall>p \<in> set ps. c \<notin> set p \<rbrakk> \<Longrightarrow> split_on c (join_with [c] ps) = ps"
proof (induction ps rule: induct_list012)
  case (3 x y zs)
  then show ?case using split_on_aux_more [of c x "[]"] by (simp add: split_on_def)
qed (simp_all add: split_on_def split_on_aux_last)

lemma alpha_not_space: "is_alpha c \<Longrightarrow> \<not> is_space c"
  by (auto simp: is_alpha_def is_lower_alpha_def is_upper_alpha_def is_space_def Let_def)

lemma match_param_quoted:
  assumes "name \<noteq> []" "is_alpha (hd name)" "list_all param_char name" "list_all quotable content"
  shows "match_param (quoted name content) = Some (name, content)"
proof -
  have eq: "\<not> param_char CHR ''=''" "\<not> quotable CHR 0x22" by code_simp+
  have "dropWhile is_space (quoted name content) = quoted name content"
    using assms(1,2) by (cases name) (simp_all add: quoted_def alpha_not_space)
  moreover have "takeWhile param_char (quoted name content) = name"
      "dropWhile param_char (quoted name content) = CHR ''='' # CHR 0x22 # content @ [CHR 0x22]"
    using assms(3) eq by (simp_all add: quoted_def list_all_iff takeWhile_append dropWhile_append)
  moreover have "takeWhile quotable (content @ [CHR 0x22]) = content"
      "dropWhile quotable (content @ [CHR 0x22]) = [CHR 0x22]"
    using assms(4) eq by (simp_all add: list_all_iff takeWhile_append dropWhile_append)
  ultimately show ?thesis using assms(1,2) eq by (simp add: match_param_def)
qed

lemma strip_no_space: "\<forall>c \<in> set s. \<not> is_space c \<Longrightarrow> strip s = s"
proof -
  have keep: "dropWhile is_space xs = xs" if "\<forall>c \<in> set xs. \<not> is_space c" for xs
    using that by (cases xs) simp_all
  assume "\<forall>c \<in> set s. \<not> is_space c"
  then show ?thesis by (simp add: strip_def lstrip_def rstrip_def keep)
qed

definition base64_text :: "string \<Rightarrow> bool" where
  "base64_text t \<longleftrightarrow> digest_text (''SHA-256='' @ t) = Some t"

lemma base64_textD:
  assumes "base64_text t"
  shows "t \<noteq> [] \<and> list_all quotable t \<and> CHR '','' \<notin> set t \<and> (\<forall>c \<in> set t. \<not> is_space c)"
proof -
  have t: "takeWhile base64_char t \<noteq> []" "dropWhile base64_char t \<in> {[], ''='', ''==''}"
    using assms by (auto simp: base64_text_def digest_text_def Let_def split: if_splits)
  have "set t \<subseteq> set (takeWhile base64_char t) \<union> set (dropWhile base64_char t)"
    by (metis set_append takeWhile_dropWhile_id order_refl)
  then have chars: "base64_char c \<or> c = CHR ''=''" if "c \<in> set t" for c
    using that t(2) by (auto dest: set_takeWhileD)
  have "quotable c \<and> c \<noteq> CHR '','' \<and> \<not> is_space c" if "base64_char c" for c
    using that by (auto simp: base64_char_def alpha_not_space)
      (auto simp: quotable_def is_alpha_def is_lower_alpha_def is_upper_alpha_def is_digit_def is_space_def Let_def)
  moreover have "quotable CHR ''='' \<and> CHR ''='' \<noteq> CHR '','' \<and> \<not> is_space CHR ''=''" by code_simp
  ultimately show ?thesis using chars t(1) by (auto simp: list_all_iff)
qed

text \<open>
  What the packages promise: a signature made with the private key fits the public one,
  base64 is read back and has its alphabet, and a formatted date is read back to the second.
\<close>

definition crypto_laws :: "sig_env \<Rightarrow> string \<Rightarrow> string \<Rightarrow> bool" where
  "crypto_laws env pem enc \<longleftrightarrow> sg_private env enc = Some True \<and> sg_public env pem = Some True
     \<and> (\<forall>m. sg_verify env pem (sg_sign env enc m) m \<and> base64_text (sg_encode env (sg_sign env enc m)))
     \<and> (\<forall>raw. sg_decode env (sg_encode env raw) = Some raw) \<and> (\<forall>b. base64_text (sg_digest env b))
     \<and> (\<forall>t. sg_format env t \<noteq> [] \<and> strip (sg_format env t) = sg_format env t
          \<and> (\<exists>u. sg_date env (sg_format env t) = Some u \<and> u \<le> t \<and> t < u + seconds 1))"

definition plain_key_id :: "string \<Rightarrow> bool" where
  "plain_key_id key_id \<longleftrightarrow> key_id \<noteq> [] \<and> list_all quotable key_id \<and> CHR '','' \<notin> set key_id"

lemma lower_names [simp]:
  "lower ''Host'' = ''host''" "lower ''Date'' = ''date''" "lower ''Signature'' = ''signature''"
  "lower ''Digest'' = ''digest''" "lower ''keyId'' = ''keyid''" "lower ''algorithm'' = ''algorithm''"
  "lower ''headers'' = ''headers''" "lower ''signature'' = ''signature''" "lower ''rsa-sha256'' = ''rsa-sha256''"
  by code_simp+

definition names_signed :: "bool \<Rightarrow> string list" where
  "names_signed body = [REQUEST_TARGET, ''host'', ''date''] @ (if body then [''digest''] else [])"

lemma names_signed_cases:
  "names_signed False = [REQUEST_TARGET, ''host'', ''date'']"
  "names_signed True = [REQUEST_TARGET, ''host'', ''date'', ''digest'']"
  by (simp_all add: names_signed_def)

lemma signed_words: "is_word REQUEST_TARGET" "is_word ''host''" "is_word ''date''" "is_word ''digest''"
  by code_simp+

lemma lower_signed: "lower REQUEST_TARGET = REQUEST_TARGET" "lower ''host'' = ''host''"
    "lower ''date'' = ''date''" "lower ''digest'' = ''digest''"
  by code_simp+

lemma names_signed_read: "map lower (split_ws (join_with '' '' (names_signed b))) = names_signed b"
  by (cases b) (simp_all add: split_ws_join names_signed_cases signed_words lower_signed del: join_with.simps)

lemma names_signed_distinct: "distinct (names_signed b)" "names_signed b \<noteq> []"
  by (cases b; simp add: names_signed_cases REQUEST_TARGET_def)+

lemma names_signed_valid:
  "\<not> list_ex (\<lambda>n. n \<noteq> REQUEST_TARGET \<and> \<not> (n \<noteq> [] \<and> list_all header_name_char n)) (names_signed b)"
  by (cases b) (simp_all add: names_signed_cases header_name_char_def is_lower_alpha_def)

lemma names_text: "join_with '' '' (names_signed b)
    = (if b then ''(request-target) host date digest'' else ''(request-target) host date'')"
  by (simp add: names_signed_def REQUEST_TARGET_def)

lemma names_signed_quotable:
  "list_all quotable (join_with '' '' (names_signed b))" "CHR '','' \<notin> set (join_with '' '' (names_signed b))"
  unfolding names_text by (cases b; simp add: quotable_def)+

lemmas names_signed_facts = names_signed_read names_signed_distinct names_signed_valid names_signed_quotable

lemma param_names:
  assumes "list_all quotable v"
  shows "match_param (quoted ''keyId'' v) = Some (''keyId'', v)"
    "match_param (quoted ''algorithm'' v) = Some (''algorithm'', v)"
    "match_param (quoted ''headers'' v) = Some (''headers'', v)"
    "match_param (quoted ''signature'' v) = Some (''signature'', v)"
  by (intro match_param_quoted assms; simp add: param_char_def is_alpha_def is_lower_alpha_def is_upper_alpha_def)+

lemma parse_own_header:
  assumes "plain_key_id kid" "map fst values = names_signed b" "base64_text sig"
  shows "parse_signature_header (signature_header kid values sig) =
    Some [(''keyid'', kid), (''algorithm'', ''rsa-sha256''), (''headers'', join_with '' '' (names_signed b)), (''signature'', sig)]"
proof -
  have q: "CHR '','' \<notin> set (quoted n v)" if "CHR '','' \<notin> set n" "CHR '','' \<notin> set v" for n v
    using that by (simp add: quoted_def)
  have rsa: "match_param (quoted ''algorithm'' ''rsa-sha256'') = Some (''algorithm'', ''rsa-sha256'')"
    by (rule param_names) code_simp
  show ?thesis
    using assms base64_textD [OF assms(3)]
    by (simp add: parse_signature_header_def signature_header_def split_on_join q plain_key_id_def
        names_signed_facts param_names rsa del: join_with.simps)
qed

lemma values_names: "map fst (signing_values env verb path host body date)
    = names_signed (lower verb = ''post'' \<or> body \<noteq> [])"
  by (simp add: signing_values_def names_signed_def)

text \<open>The headers a signed request has, and what verification reads of them.\<close>

definition signed_headers :: "sig_env \<Rightarrow> string \<Rightarrow> string \<Rightarrow> string \<Rightarrow> string \<Rightarrow> string \<Rightarrow> string \<Rightarrow> string \<Rightarrow> (string \<times> string) list" where
  "signed_headers env kid enc verb path host body date =
     (let values = signing_values env verb path host body date in
      [(''Host'', host), (''Date'', date),
       (''Signature'', signature_header kid values (sg_encode env (sg_sign env enc (signing_base values))))]
      @ (if lower verb = ''post'' \<or> body \<noteq> [] then [(''Digest'', ''SHA-256='' @ sg_digest env body)] else []))"

lemma signed_headers_read [simp]:
  "normalized (signed_headers env kid enc verb path host body date) ''host'' = Some host"
  "normalized (signed_headers env kid enc verb path host body date) ''date'' = Some date"
  "normalized (signed_headers env kid enc verb path host body date) ''signature''
     = Some (signature_header kid (signing_values env verb path host body date)
         (sg_encode env (sg_sign env enc (signing_base (signing_values env verb path host body date)))))"
  "lower verb = ''post'' \<or> body \<noteq> []
     \<Longrightarrow> normalized (signed_headers env kid enc verb path host body date) ''digest'' = Some (''SHA-256='' @ sg_digest env body)"
  by (simp_all add: normalized_def signed_headers_def Let_def)

lemma digest_not_blank: "base64_text t \<Longrightarrow> strip (''SHA-256='' @ t) = ''SHA-256='' @ t"
  using base64_textD [of t] by (intro strip_no_space) (auto simp: is_space_def)

lemma base_fits:
  assumes "strip host = host" "strip date = date" "base64_text (sg_digest env body)"
  shows "build_legacy_base (names_signed (lower verb = ''post'' \<or> body \<noteq> []))
      \<lparr>hr_method = verb, hr_path = path, hr_headers = signed_headers env kid enc verb path host body date, hr_body = body\<rparr>
    = Some (signing_base (signing_values env verb path host body date))"
proof -
  have "''host'' \<noteq> REQUEST_TARGET" "''date'' \<noteq> REQUEST_TARGET" "''digest'' \<noteq> REQUEST_TARGET"
    by (simp_all add: REQUEST_TARGET_def)
  then show ?thesis
    using assms digest_not_blank [OF assms(3)]
    by (auto simp: build_legacy_base_def names_signed_def base_line_def signing_base_def signing_values_def
        simp del: join_with.simps)
qed

lemma signature_header_not_empty: "signature_header kid values sig \<noteq> []"
  by (simp add: signature_header_def quoted_def)

lemma own_signature_verifies:
  assumes laws: "crypto_laws env pem enc" and kid: "plain_key_id kid"
    and host: "host \<noteq> []" "strip host = host" and date: "date \<noteq> []" "strip date = date" "sg_date env date = Some u"
    and now: "\<bar>now - u\<bar> \<le> seconds SKEW_SECONDS"
  shows "verify_legacy_signature_with_pem env now \<lparr>hr_method = verb, hr_path = path,
      hr_headers = signed_headers env kid enc verb path host body date, hr_body = body\<rparr> pem = (True, ''ok'')"
    (is "verify_legacy_signature_with_pem env now ?rq pem = _")
proof -
  let ?b = "lower verb = ''post'' \<or> body \<noteq> []" and ?vals = "signing_values env verb path host body date"
  let ?sig = "sg_encode env (sg_sign env enc (signing_base ?vals))"
  let ?params = "[(''keyid'', kid), (''algorithm'', ''rsa-sha256''), (''headers'', join_with '' '' (names_signed ?b)), (''signature'', ?sig)]"
  have sig: "base64_text ?sig" and dig: "base64_text (sg_digest env body)"
    using laws by (simp_all add: crypto_laws_def)
  have names: "signed_names ?params = names_signed ?b" by (simp add: signed_names_def param_def names_signed_read)
  have parsed: "parse_signature_header (signature_header kid ?vals ?sig) = Some ?params"
    by (rule parse_own_header [OF kid values_names sig])
  have sel: "param ?params ''algorithm'' = ''rsa-sha256''" "param ?params ''keyid'' = kid" "param ?params ''signature'' = ?sig"
    by (simp_all add: param_def)
  have "?sig \<noteq> []" "kid \<noteq> []" using base64_textD [OF sig] kid by (simp_all add: plain_key_id_def)
  then have params: "signature_params ?rq = Inr ?params"
    unfolding signature_params_def
    by (simp only: http_request.simps signed_headers_read option.case signature_header_not_empty if_False parsed
        names sel Let_def names_signed_distinct names_signed_valid lower_names) simp
  have "binding_refused env now ?rq (names_signed ?b) = None"
    using host date now dig
    by (auto simp: binding_refused_def required_names_def covers_body_def names_signed_def digest_refused_def base64_text_def)
  moreover have "key_refused env pem ?sig (signing_base ?vals) = None"
    using laws by (simp add: key_refused_def crypto_laws_def)
  ultimately show ?thesis
    using base_fits [OF host(2) date(2) dig, of verb path kid enc]
    by (simp add: verify_legacy_signature_with_pem_def params names param_def)
qed

text \<open>The same request is refused when the key is to be found by its identifier.\<close>

lemma well_signed_refused:
  assumes "crypto_laws env pem enc" "plain_key_id kid" "urlsplit (fv_net fenv) kid = Some u" "sp_fragment u \<noteq> []"
  shows "verify_request_signature env fenv serve serve2 \<lparr>hr_method = verb, hr_path = path,
      hr_headers = signed_headers env kid enc verb path host body date, hr_body = body\<rparr> db
    = (Inr (refused ''invalid_key_id''), db)"
proof -
  let ?vals = "signing_values env verb path host body date"
  let ?sig = "sg_encode env (sg_sign env enc (signing_base ?vals))"
  have sig: "base64_text ?sig" using assms(1) by (simp add: crypto_laws_def)
  have "isl (validate_remote_url_syntax (fv_net fenv) kid)"
    using valid_url_no_fragment [of "fv_net fenv" kid] assms(3,4)
    by (cases "validate_remote_url_syntax (fv_net fenv) kid") auto
  moreover have "normalized (signed_headers env kid enc verb path host body date) ''signature-input'' = None"
    by (simp add: normalized_def signed_headers_def lower_def lower_char_def Let_def)
  moreover have "\<not> startswith (signature_header kid ?vals ?sig) ''sig1=''"
    by (simp add: signature_header_def quoted_def)
  ultimately show ?thesis
    using parse_own_header [OF assms(2) values_names sig]
    by (simp add: verify_request_signature_def param_def Let_def)
qed

lemma sign_headers:
  assumes "first_where (\<lambda>a. la_id a = i \<and> la_enabled a) (local_actors db) = Some actor"
    "la_current_keypair_id actor = Some kid" "get_by ak_id kid (actor_keypairs db) = Some key"
    "sg_configured env" "ak_algorithm key = ''rsa-sha256''" "sg_private env (ak_private_key_enc key) = Some True"
  shows "sign_legacy_request env now i verb path host body None db
    = Inr (signed_headers env (ak_key_id_url key) (ak_private_key_enc key) verb path host body (sg_format env now))"
  using assms
  by (auto simp: sign_legacy_request_def signed_headers_def signing_values_def REQUEST_TARGET_def Let_def)

section \<open>Properties\<close>

text \<open>
  A signature that is accepted under a public key is one the key made over a text that covers
  the method and path, the host and the date of this very request, and for a request with a
  body the digest; the date is at most five minutes off, the digest that of the body.
\<close>

theorem pem_signature_binds_request:
  "fst (verify_legacy_signature_with_pem env now rq pem)
   \<Longrightarrow> \<exists>params raw base t. signature_params rq = Inr params
        \<and> set (required_names rq) \<subseteq> set (signed_names params)
        \<and> build_legacy_base (signed_names params) rq = Some base
        \<and> sg_decode env (param params ''signature'') = Some raw
        \<and> sg_public env pem = Some True \<and> sg_verify env pem raw base
        \<and> sg_date env (or_empty (normalized (hr_headers rq) ''date'')) = Some t \<and> \<bar>now - t\<bar> \<le> seconds SKEW_SECONDS
        \<and> (covers_body rq \<longrightarrow> normalized (hr_headers rq) ''digest'' = Some (''SHA-256='' @ sg_digest env (hr_body rq)))"
  by (auto dest!: verified_pem simp: request_bound_def signed_by_def)

text \<open>
  C34. A request an enabled local actor signs is accepted under the public half of its key for
  nearly five minutes, whatever the method, the path and the body: the header that is written is
  parsed back, the text that is signed is built again from the headers and the digest fits.
\<close>

theorem signed_request_verifies:
  "\<lbrakk> first_where (\<lambda>a. la_id a = i \<and> la_enabled a) (local_actors db) = Some actor;
     la_current_keypair_id actor = Some kid; get_by ak_id kid (actor_keypairs db) = Some key;
     sg_configured env; ak_algorithm key = ''rsa-sha256''; plain_key_id (ak_key_id_url key);
     crypto_laws env (ak_public_key_pem key) (ak_private_key_enc key);
     host \<noteq> []; strip host = host; now \<le> later; later \<le> now + seconds (SKEW_SECONDS - 1) \<rbrakk>
   \<Longrightarrow> \<exists>hs. sign_legacy_request env now i verb path host body None db = Inr hs
        \<and> verify_legacy_signature_with_pem env later
            \<lparr>hr_method = verb, hr_path = path, hr_headers = hs, hr_body = body\<rparr> (ak_public_key_pem key) = (True, ''ok'')"
proof -
  assume a: "first_where (\<lambda>a. la_id a = i \<and> la_enabled a) (local_actors db) = Some actor"
     "la_current_keypair_id actor = Some kid" "get_by ak_id kid (actor_keypairs db) = Some key"
     "sg_configured env" "ak_algorithm key = ''rsa-sha256''" "plain_key_id (ak_key_id_url key)"
     "crypto_laws env (ak_public_key_pem key) (ak_private_key_enc key)"
     "host \<noteq> []" "strip host = host" "now \<le> later" "later \<le> now + seconds (SKEW_SECONDS - 1)"
  have "\<exists>u. sg_date env (sg_format env now) = Some u \<and> u \<le> now \<and> now < u + seconds 1"
    using a(7) unfolding crypto_laws_def by blast
  then obtain u where u: "sg_date env (sg_format env now) = Some u" "u \<le> now" "now < u + seconds 1" by blast
  have "\<bar>later - u\<bar> \<le> seconds SKEW_SECONDS"
    using u a(10,11) by (simp add: SKEW_SECONDS_def seconds_def)
  then show ?thesis
    using sign_headers [OF a(1-5)] own_signature_verifies [OF a(7,6,8,9) _ _ u(1)] a(7)
    by (simp add: crypto_laws_def)
qed

text \<open>
  An instance of the packages for the concrete runs: a date is written in strokes, there is
  one signature and one hash.
\<close>

definition stroke_date :: "time \<Rightarrow> string" where
  "stroke_date t = (let s = t div 1000000 in
     if s < 0 then CHR ''n'' # replicate (nat (- s)) CHR ''x'' else CHR ''p'' # replicate (nat s) CHR ''x'')"

definition read_strokes :: "string \<Rightarrow> time option" where
  "read_strokes s = (if s = [] then None
     else Some (seconds (if hd s = CHR ''n'' then - int (length (tl s)) else int (length (tl s)))))"

definition demo_sig_env :: sig_env where
  "demo_sig_env = \<lparr>sg_date = read_strokes, sg_format = stroke_date, sg_digest = (\<lambda>_. ''AA''),
     sg_decode = (\<lambda>t. Some (drop 2 t)), sg_encode = (\<lambda>raw. ''QQ'' @ raw),
     sg_public = (\<lambda>pem. if pem = ''PEM'' then Some True else None), sg_verify = (\<lambda>_ raw _. raw = ''S''),
     sg_private = (\<lambda>_. Some True), sg_sign = (\<lambda>_ _. ''S''), sg_configured = True\<rparr>"

lemma stroke_laws:
  "stroke_date t \<noteq> []" "strip (stroke_date t) = stroke_date t"
  "\<exists>u. read_strokes (stroke_date t) = Some u \<and> u \<le> t \<and> t < u + seconds 1"
proof -
  have "\<not> is_space CHR ''n''" "\<not> is_space CHR ''p''" "\<not> is_space CHR ''x''" by code_simp+
  then show "strip (stroke_date t) = stroke_date t"
    by (intro strip_no_space) (auto simp: stroke_date_def Let_def)
  show "\<exists>u. read_strokes (stroke_date t) = Some u \<and> u \<le> t \<and> t < u + seconds 1"
    by (rule exI [of _ "seconds (t div 1000000)"]) (auto simp: read_strokes_def stroke_date_def seconds_def Let_def)
qed (simp add: stroke_date_def Let_def)

lemma demo_crypto_laws: "crypto_laws demo_sig_env ''PEM'' enc"
proof -
  have "base64_text ''AA''" "base64_text ''QQS''" by code_simp+
  then show ?thesis using stroke_laws by (simp add: crypto_laws_def demo_sig_env_def)
qed

definition demo_signer :: local_actor where
  "demo_signer = \<lparr>la_id = ''la'', la_user_id = ''u'', la_actor_uri = ''https://a.test/ap/actor/u'',
     la_preferred_username = ''u'', la_enabled = True, la_current_keypair_id = Some ''k'', la_created_at = 0,
     la_updated_at = 0\<rparr>"

definition demo_keypair :: actor_keypair where
  "demo_keypair = \<lparr>ak_id = ''k'', ak_user_id = ''u'', ak_key_id_url = ''https://a.test/ap/actor/u#k'',
     ak_public_key_pem = ''PEM'', ak_private_key_enc = ''enc'', ak_algorithm = ''rsa-sha256'',
     ak_created_at = 0, ak_rotated_at = None\<rparr>"

theorem signed_request_verifies_witness:
  "\<exists>hs. sign_legacy_request demo_sig_env 0 ''la'' ''POST'' ''/inbox'' ''r.io'' ''{}'' None
       (empty_db\<lparr>local_actors := [demo_signer], actor_keypairs := [demo_keypair]\<rparr>) = Inr hs
     \<and> verify_legacy_signature_with_pem demo_sig_env (seconds 200)
         \<lparr>hr_method = ''POST'', hr_path = ''/inbox'', hr_headers = hs, hr_body = ''{}''\<rparr>
         (ak_public_key_pem demo_keypair) = (True, ''ok'')"
proof (rule signed_request_verifies [where actor = demo_signer and kid = "''k''"])
  show "plain_key_id (ak_key_id_url demo_keypair)" "strip ''r.io'' = ''r.io''" by code_simp+
  show "crypto_laws demo_sig_env (ak_public_key_pem demo_keypair) (ak_private_key_enc demo_keypair)"
    using demo_crypto_laws by (simp add: demo_keypair_def)
qed (simp_all add: demo_sig_env_def demo_signer_def demo_keypair_def first_where_def SKEW_SECONDS_def)

text \<open>The request of the witnesses, signed by another instance.\<close>

definition demo_request :: "string \<Rightarrow> http_request" where
  "demo_request actor = \<lparr>hr_method = ''POST'', hr_path = ''/ap/inbox'',
     hr_headers = signed_headers demo_sig_env (actor @ ''#k'') ''enc'' ''POST'' ''/ap/inbox'' ''a.test'' actor ''p'',
     hr_body = actor\<rparr>"

lemma demo_request_verifies:
  assumes "plain_key_id (actor @ ''#k'')"
  shows "verify_legacy_signature_with_pem demo_sig_env 0 (demo_request actor) ''PEM'' = (True, ''ok'')"
proof -
  have "strip ''a.test'' = ''a.test''" "strip ''p'' = ''p''" by code_simp+
  then show ?thesis
    using assms unfolding demo_request_def
    by (intro own_signature_verifies [OF demo_crypto_laws, where u = 0])
      (simp_all add: demo_sig_env_def read_strokes_def SKEW_SECONDS_def seconds_def)
qed

theorem pem_signature_binds_request_witness:
  "\<exists>params raw base t. signature_params (demo_request ''https://r.io/a'') = Inr params
     \<and> set (required_names (demo_request ''https://r.io/a'')) \<subseteq> set (signed_names params)
     \<and> build_legacy_base (signed_names params) (demo_request ''https://r.io/a'') = Some base
     \<and> sg_decode demo_sig_env (param params ''signature'') = Some raw
     \<and> sg_public demo_sig_env ''PEM'' = Some True \<and> sg_verify demo_sig_env ''PEM'' raw base
     \<and> sg_date demo_sig_env (or_empty (normalized (hr_headers (demo_request ''https://r.io/a'')) ''date'')) = Some t
     \<and> \<bar>0 - t\<bar> \<le> seconds SKEW_SECONDS
     \<and> (covers_body (demo_request ''https://r.io/a'') \<longrightarrow> normalized (hr_headers (demo_request ''https://r.io/a'')) ''digest''
          = Some (''SHA-256='' @ sg_digest demo_sig_env (hr_body (demo_request ''https://r.io/a''))))"
proof (rule pem_signature_binds_request)
  have "plain_key_id (''https://r.io/a'' @ ''#k'')" by code_simp
  then show "fst (verify_legacy_signature_with_pem demo_sig_env 0 (demo_request ''https://r.io/a'') ''PEM'')"
    by (simp add: demo_request_verifies)
qed

end
