(* ===== verification/Federation_Intake.thy ===== *)
theory Federation_Intake
  imports Http_Signatures
begin

text \<open>
  The inbox of \<open>web/routes/federation.py\<close>: what a request must be to be looked at, the
  reading and cleaning of the activity, the checks of its sender, and the row that is stored
  for the worker. The rate limits, the reading of JSON, SHA-256 and bleach are arguments.
\<close>

section \<open>Cleaning\<close>

definition ALLOWED_CONTEXTS :: "string list" where
  "ALLOWED_CONTEXTS = [''https://www.w3.org/ns/activitystreams'', ''https://w3id.org/security/v1'',
     ''https://www.w3.org/ns/activitystreams#'']"

definition as_contexts :: "json \<Rightarrow> json list" where
  "as_contexts item = (case as_list item of Some xs \<Rightarrow> xs | None \<Rightarrow> [item])"

definition allowed_context :: "json \<Rightarrow> bool" where
  "allowed_context c = (case as_str c of None \<Rightarrow> False | Some s \<Rightarrow> s \<in> set ALLOWED_CONTEXTS)"

text \<open>One entry of an object; \<open>go\<close> is the cleaning of what is below it.\<close>

definition sanitize_entry :: "(string \<Rightarrow> string) \<Rightarrow> (json \<Rightarrow> json) \<Rightarrow> string \<times> json \<Rightarrow> dict" where
  "sanitize_entry clean go entry = (case entry of (key, item) \<Rightarrow>
     if length key > 64 \<or> startswith key ''_'' then []
     else if key = ''@context'' then [(key, JList (filter allowed_context (take 4 (as_contexts item))))]
     else if key \<in> {''content'', ''summary''} \<and> as_str item \<noteq> None
     then [(key, JStr (clean (take 64000 (the (as_str item)))))]
     else [(key, go item)])"

text \<open>\<open>n\<close> is the number of levels left: nine at the top, where \<open>depth\<close> is 0.\<close>

primrec sanitize_at :: "(string \<Rightarrow> string) \<Rightarrow> nat \<Rightarrow> json \<Rightarrow> json" where
  "sanitize_at clean 0 value = JNull"
| "sanitize_at clean (Suc n) value = (case value of
     JObj d \<Rightarrow> JObj (concat (map (sanitize_entry clean (sanitize_at clean n)) (take 80 d)))
   | JList xs \<Rightarrow> JList (map (sanitize_at clean n) (take 100 xs))
   | JStr s \<Rightarrow> JStr (take 64000 s)
   | v \<Rightarrow> v)"

definition sanitize_activity :: "(string \<Rightarrow> string) \<Rightarrow> json \<Rightarrow> json" where
  "sanitize_activity clean value = sanitize_at clean 9 value"

section \<open>The request\<close>

record inbox_request =
  iq_http :: http_request
  iq_remote_addr :: "string option"
  iq_scheme :: string
  iq_host :: string
  iq_content_length :: "int option"
  iq_content_type :: string

text \<open>
  The environment of one request: \<open>in_allow\<close> answers \<open>check_rate_limit\<close>, \<open>in_json\<close> is
  \<open>json.loads\<close>, \<open>in_clean\<close> the cleaning of HTML with the tags of the route, \<open>in_serve\<close> and
  \<open>in_serve2\<close> are the servers the two look-ups of a key may meet.
\<close>

record intake_env =
  in_fed :: fed_env
  in_sig :: sig_env
  in_serve :: "string \<Rightarrow> actor_answer hop option"
  in_serve2 :: "string \<Rightarrow> actor_answer hop option"
  in_allow :: "string \<Rightarrow> string \<Rightarrow> bool"
  in_json :: "string \<Rightarrow> json_text"
  in_sha256 :: "string \<Rightarrow> string"
  in_clean :: "string \<Rightarrow> string"
  in_id :: string

datatype inbox_answer = Abort int | Reply string int

definition INBOX_LIMIT :: int where "INBOX_LIMIT = 262144"

definition SUPPORTED_INTAKE_TYPES :: "string list" where
  "SUPPORTED_INTAKE_TYPES = [''Follow'', ''Accept'', ''Reject'', ''Undo'', ''Create'', ''Update'', ''Delete'']"

definition ACCEPTED :: inbox_answer where "ACCEPTED = Reply ''accepted'' 202"
definition DUPLICATE :: inbox_answer where "DUPLICATE = Reply ''duplicate'' 202"
definition RATE_LIMITED :: inbox_answer where "RATE_LIMITED = Reply ''rate_limited'' 429"

definition media_type_of :: "string \<Rightarrow> string" where
  "media_type_of value = lower (strip (before_at CHR '';'' value))"

text \<open>The checks before the body is read as JSON; a mode that is no text cannot be looked up.\<close>

definition guard_request :: "intake_env \<Rightarrow> inbox_request \<Rightarrow> fed_error + inbox_answer option" where
  "guard_request env q =
     (let settings = fv_settings (in_fed env); mode = dget settings ''mode'' (JStr ''disabled'');
          body = hr_body (iq_http q);
          remote_ip = (if truthy_str (iq_remote_addr q) then or_empty (iq_remote_addr q) else ''unknown'') in
      if \<not> federation_is_enabled settings then Inr (Some (Abort 404))
      else if as_list mode \<noteq> None \<or> as_obj mode \<noteq> None then Inl Unexpected_failure
      else if mode \<in> {JStr ''outgoing_only'', JStr ''disabled''} then Inr (Some (Abort 405))
      else if \<not> in_allow env (''federation-inbox:'' @ remote_ip) ''30/minute'' then Inr (Some RATE_LIMITED)
      else if iq_scheme q \<noteq> ''https'' then Inr (Some (Abort 400))
      else if (case iq_content_length q of None \<Rightarrow> False | Some n \<Rightarrow> n > INBOX_LIMIT) then Inr (Some (Abort 413))
      else if media_type_of (iq_content_type q) \<notin> {''application/activity+json'', ''application/ld+json''}
      then Inr (Some (Abort 415))
      else if int (length body) > INBOX_LIMIT then Inr (Some (Abort 413))
      else if body = [] then Inr (Some (Abort 400))
      else Inr None)"

record read_activity =
  ay_payload :: dict
  ay_id :: string
  ay_type :: string
  ay_actor :: string
  ay_domain :: string
  ay_id_domain :: string

definition contexts_refused :: "json \<Rightarrow> bool" where
  "contexts_refused item =
     (let contexts = as_contexts item in
      list_ex (\<lambda>c. as_str c = None \<and> as_obj c = None) contexts
      \<or> list_ex (\<lambda>c. as_str c \<noteq> None \<and> \<not> allowed_context c) contexts
      \<or> length contexts > 4)"

text \<open>Every refusal of the payload is an answer 400.\<close>

definition parse_activity :: "intake_env \<Rightarrow> string \<Rightarrow> read_activity option" where
  "parse_activity env body = (case in_json env body of
     Malformed \<Rightarrow> None
   | Json j \<Rightarrow> (case as_obj j of
       None \<Rightarrow> None
     | Some payload \<Rightarrow>
         (case (as_str (dget payload ''actor'' JNull), as_str (dget payload ''id'' JNull),
                as_str (dget payload ''type'' JNull)) of
            (Some actor, Some i, Some kind) \<Rightarrow>
              if dhas payload ''@context'' \<and> contexts_refused (dget payload ''@context'' JNull) then None
              else if length i > 2048 \<or> length kind > 64 then None
              else (case (validate_remote_url_syntax (fv_net (in_fed env)) actor,
                          validate_remote_url_syntax (fv_net (in_fed env)) i) of
                  (Inr (domain, _), Inr (id_domain, _)) \<Rightarrow>
                    Some \<lparr>ay_payload = payload, ay_id = i, ay_type = kind, ay_actor = actor,
                      ay_domain = domain, ay_id_domain = id_domain\<rparr>
                | _ \<Rightarrow> None)
          | _ \<Rightarrow> None)))"

section \<open>The sender\<close>

definition SIGNATURE_FAILURE_CATEGORIES :: "string list" where
  "SIGNATURE_FAILURE_CATEGORIES =
    [''rfc9421_not_supported'', ''missing_or_malformed_signature'', ''invalid_key_id'',
     ''remote_key_unavailable'', ''missing_signature'', ''malformed_signature'',
     ''unsupported_signature_algorithm'', ''invalid_signed_header_name'',
     ''required_component_not_covered'', ''required_header_missing'', ''invalid_date'', ''stale_date'',
     ''invalid_digest'', ''digest_mismatch'', ''signed_header_missing'', ''unsafe_public_key'',
     ''signature_invalid'', ''actor_mismatch'']"

definition day_of :: "time \<Rightarrow> int" where
  "day_of t = t div days 1"

text \<open>
  \<open>record_signature_failure\<close> of \<open>federation/operations.py\<close>: one row per day and reason. An
  insertion another transaction wins is the increment of its row.
\<close>

definition record_signature_failure :: "time \<Rightarrow> string \<Rightarrow> db \<Rightarrow> db" where
  "record_signature_failure now reason db =
     (let category = (if reason \<in> set SIGNATURE_FAILURE_CATEGORIES then reason else ''other'');
          mine = (\<lambda>r. sf_date_bucket r = day_of now \<and> sf_category r = category)
      in if exists_where mine (signature_failures_daily db)
         then db\<lparr>signature_failures_daily := update_where mine
                (\<lambda>r. r\<lparr>sf_failure_count := sf_failure_count r + 1\<rparr>) (signature_failures_daily db)\<rparr>
         else db\<lparr>signature_failures_daily := add_row
                \<lparr>sf_id = int (length (signature_failures_daily db)), sf_date_bucket = day_of now,
                 sf_category = category, sf_failure_count = 1\<rparr> (signature_failures_daily db)\<rparr>)"

text \<open>
  The request as it is verified: the path with its query, without the question mark an
  empty query leaves.
\<close>

definition verified_request :: "inbox_request \<Rightarrow> http_request" where
  "verified_request q = (iq_http q)\<lparr>hr_path := rev (dropWhile (\<lambda>c. c = CHR ''?'') (rev (hr_path (iq_http q))))\<rparr>"

text \<open>
  \<open>None\<close> when the sender is who it says and may send. Only the answers 401 are committed;
  the others leave the database as it was before the request.
\<close>

definition check_sender ::
  "intake_env \<Rightarrow> inbox_request \<Rightarrow> read_activity \<Rightarrow> db \<Rightarrow> (fed_error, inbox_answer option, db) outcome" where
  "check_sender env q a db =
     (let fenv = in_fed env; net = fv_net fenv in
      case canonical_domain net (fv_cfg fenv) of
        Inl e \<Rightarrow> (Inl e, db)
      | Inr own \<Rightarrow>
          if ay_domain a = own then (Inr (Some (Abort 400)), db)
          else if \<not> domain_allowed net db (ay_domain a) (fv_settings fenv) then (Inr (Some (Abort 403)), db)
          else if \<not> in_allow env (''federation-domain:'' @ ay_domain a) ''120/minute'' then (Inr (Some RATE_LIMITED), db)
          else (case canonical_origin net (fv_cfg fenv) of
              Inl (Fetch_error _) \<Rightarrow> (Inr (Some (Abort 503)), db)
            | Inl e \<Rightarrow> (Inl e, db)
            | Inr origin \<Rightarrow>
                if Some (lower (iq_host q)) \<noteq> map_option (\<lambda>u. lower (sp_netloc u)) (urlsplit net origin)
                then (Inr (Some (Abort 400)), db)
                else (case verify_request_signature (in_sig env) fenv (in_serve env) (in_serve2 env)
                             (verified_request q) db of
                    (Inl e, db1) \<Rightarrow> (Inl e, db)
                  | (Inr r, db1) \<Rightarrow>
                      if \<not> sr_valid r
                      then (Inr (Some (Abort 401)), record_signature_failure (fv_now fenv) (sr_reason r) db1)
                      else if sr_actor_uri r \<noteq> Some (ay_actor a)
                      then (Inr (Some (Abort 401)), record_signature_failure (fv_now fenv) ''actor_mismatch'' db1)
                      else if \<not> in_allow env (''federation-actor:'' @ ay_actor a) ''60/minute''
                      then (Inr (Some RATE_LIMITED), db)
                      else if ay_id_domain a = own then (Inr (Some (Abort 400)), db)
                      else (Inr None, db1))))"

section \<open>The row\<close>

definition new_intake :: "intake_env \<Rightarrow> read_activity \<Rightarrow> local_actor option \<Rightarrow> string \<Rightarrow> inbox_activity" where
  "new_intake env a target body =
     \<lparr>ia_id = in_id env, ia_activity_uri = ay_id a, ia_activity_type = ay_type a, ia_actor_uri = ay_actor a,
      ia_target_actor_id = map_option la_id target, ia_source_domain = ay_domain a,
      ia_body_sha256 = in_sha256 env body,
      ia_payload_json = Json (sanitize_activity (in_clean env) (JObj (ay_payload a))),
      ia_processing_state = (if ay_type a \<in> set SUPPORTED_INTAKE_TYPES then ''received'' else ''ignored''),
      ia_attempt_count = 0, ia_last_error = None, ia_lease_owner = None, ia_lease_until = None,
      ia_received_at = fv_now (in_fed env), ia_processed_at = None\<rparr>"

text \<open>What a stored activity of the same identifier answers; the same after a lost race.\<close>

definition seen_before :: "inbox_activity \<Rightarrow> db \<Rightarrow> inbox_answer option" where
  "seen_before row db = (case get_by ia_activity_uri (ia_activity_uri row) (inbox_activities db) of
     None \<Rightarrow> None
   | Some other \<Rightarrow> Some (if ia_body_sha256 other = ia_body_sha256 row then DUPLICATE else Abort 409))"

text \<open>\<open>before\<close> is the database at the start of the request, to which a rollback leads.\<close>

definition store_intake :: "inbox_activity \<Rightarrow> db \<Rightarrow> db \<Rightarrow> inbox_answer \<times> db" where
  "store_intake row before db = (case seen_before row db of
     Some answer \<Rightarrow> (answer, before)
   | None \<Rightarrow> (ACCEPTED, db\<lparr>inbox_activities := add_row row (inbox_activities db)\<rparr>))"

definition receive_inbox ::
  "intake_env \<Rightarrow> inbox_request \<Rightarrow> local_actor option \<Rightarrow> db \<Rightarrow> (fed_error, inbox_answer, db) outcome" where
  "receive_inbox env q target db = (case guard_request env q of
     Inl e \<Rightarrow> (Inl e, db)
   | Inr (Some answer) \<Rightarrow> (Inr answer, db)
   | Inr None \<Rightarrow> (case parse_activity env (hr_body (iq_http q)) of
       None \<Rightarrow> (Inr (Abort 400), db)
     | Some a \<Rightarrow> and_then (check_sender env q a db) (\<lambda>refused db1. case refused of
         Some answer \<Rightarrow> (Inr answer, db1)
       | None \<Rightarrow> (case store_intake (new_intake env a target (hr_body (iq_http q))) db db1 of
           (answer, db2) \<Rightarrow> (Inr answer, db2)))))"

text \<open>The inbox of one actor, by the last segment of its URI, and the shared one.\<close>

definition load_local_actor :: "fed_env \<Rightarrow> string \<Rightarrow> db \<Rightarrow> fed_error + local_actor option" where
  "load_local_actor env name db = (case canonical_origin (fv_net env) (fv_cfg env) of
     Inl (Fetch_error _) \<Rightarrow> Inr None
   | Inl e \<Rightarrow> Inl e
   | Inr base \<Rightarrow>
       if (case get_by ii_id 1 (instance_identities db) of None \<Rightarrow> False | Some i \<Rightarrow> ii_canonical_origin i \<noteq> base)
       then Inr None
       else Inr (first_where (\<lambda>a. la_actor_uri a = base @ ''/ap/actor/'' @ name \<and> la_enabled a) (local_actors db)))"

definition ap_inbox :: "intake_env \<Rightarrow> string \<Rightarrow> inbox_request \<Rightarrow> db \<Rightarrow> (fed_error, inbox_answer, db) outcome" where
  "ap_inbox env handle q db = (case load_local_actor (in_fed env) handle db of
     Inl e \<Rightarrow> (Inl e, db)
   | Inr None \<Rightarrow> (Inr (Abort 404), db)
   | Inr (Some target) \<Rightarrow> receive_inbox env q (Some target) db)"

definition ap_shared_inbox :: "intake_env \<Rightarrow> inbox_request \<Rightarrow> db \<Rightarrow> (fed_error, inbox_answer, db) outcome" where
  "ap_shared_inbox env q db = receive_inbox env q None db"

section \<open>Properties\<close>

text \<open>
  The shape of a stored payload: bounded in depth and width, names short and not private,
  contexts known, and every HTML text one that the cleaner returned.
\<close>

primrec payload_ok :: "(string \<Rightarrow> string) \<Rightarrow> nat \<Rightarrow> json \<Rightarrow> bool" where
  "payload_ok clean 0 v \<longleftrightarrow> v = JNull"
| "payload_ok clean (Suc n) v \<longleftrightarrow> (case v of
     JObj d \<Rightarrow> length d \<le> 80 \<and> (\<forall>(key, x) \<in> set d. length key \<le> 64 \<and> \<not> startswith key ''_''
       \<and> (if key = ''@context'' then (\<exists>cs. x = JList cs \<and> length cs \<le> 4 \<and> list_all allowed_context cs)
          else if key \<in> {''content'', ''summary''} \<and> as_str x \<noteq> None then (\<exists>s. x = JStr (clean s))
          else payload_ok clean n x))
   | JList xs \<Rightarrow> length xs \<le> 100 \<and> (\<forall>x \<in> set xs. payload_ok clean n x)
   | JStr s \<Rightarrow> length s \<le> 64000
   | _ \<Rightarrow> True)"

lemma sanitized_str: "as_str (sanitize_at clean n v) \<noteq> None \<Longrightarrow> as_str v \<noteq> None"
  by (cases n; cases v) simp_all

lemma entry_ok:
  assumes "(key, x) \<in> set (sanitize_entry clean (sanitize_at clean n) e)" "\<And>v. payload_ok clean n (sanitize_at clean n v)"
  shows "length key \<le> 64 \<and> \<not> startswith key ''_''
     \<and> (if key = ''@context'' then (\<exists>cs. x = JList cs \<and> length cs \<le> 4 \<and> list_all allowed_context cs)
        else if key \<in> {''content'', ''summary''} \<and> as_str x \<noteq> None then (\<exists>s. x = JStr (clean s))
        else payload_ok clean n x)"
proof -
  obtain k item where e: "e = (k, item)" by force
  have "length (filter allowed_context (take 4 cs)) \<le> 4" for cs
    using length_filter_le [of allowed_context "take 4 cs"] by simp
  then show ?thesis
    using assms sanitized_str [of clean n item]
    by (auto simp: e sanitize_entry_def list_all_iff split: if_splits)
qed

lemma length_concat_le: "(\<And>x. x \<in> set xs \<Longrightarrow> length (f x) \<le> 1) \<Longrightarrow> length (concat (map f xs)) \<le> length xs"
  by (induction xs) force+

lemma sanitize_ok: "payload_ok clean n (sanitize_at clean n v)"
proof (induction n arbitrary: v)
  case (Suc n)
  show ?case
  proof (cases v)
    case (JObj d)
    let ?out = "concat (map (sanitize_entry clean (sanitize_at clean n)) (take 80 d))"
    have "length ?out \<le> length (take 80 d)"
      by (rule length_concat_le) (auto simp: sanitize_entry_def)
    then have short: "length ?out \<le> 80" by simp
    have entries: "(case e of (key, x) \<Rightarrow> length key \<le> 64 \<and> \<not> startswith key ''_''
       \<and> (if key = ''@context'' then (\<exists>cs. x = JList cs \<and> length cs \<le> 4 \<and> list_all allowed_context cs)
          else if key \<in> {''content'', ''summary''} \<and> as_str x \<noteq> None then (\<exists>s. x = JStr (clean s))
          else payload_ok clean n x))" if e: "e \<in> set ?out" for e
    proof -
      obtain key x where kx: "e = (key, x)" by force
      obtain e0 where "(key, x) \<in> set (sanitize_entry clean (sanitize_at clean n) e0)" using e kx by auto
      from entry_ok [OF this Suc.IH] show ?thesis unfolding kx prod.case .
    qed
    show ?thesis
      unfolding JObj sanitize_at.simps json.case payload_ok.simps
      using short entries by (intro conjI ballI)
  next
    case (JList xs)
    then show ?thesis using Suc.IH by auto
  qed simp_all
qed simp

text \<open>
  C35. What is stored of an activity is bounded and clean whatever was sent: at most nine levels,
  80 entries and 100 items wide, names of at most 64 characters that are not private, at most
  four contexts and only known ones, and every text under content or summary at any level is one
  the HTML cleaner returned.
\<close>

theorem stored_payload_ok:
  "\<exists>j. ia_payload_json (new_intake env a target body) = Json j \<and> payload_ok (in_clean env) 9 j"
  using sanitize_ok [of "in_clean env" 9 "JObj (ay_payload a)"] by (simp add: new_intake_def sanitize_activity_def)

lemma check_sender_refuses: "fst (check_sender env q a db) \<noteq> Inr None
   \<and> inbox_activities (snd (check_sender env q a db)) = inbox_activities db"
proof -
  obtain r where r: "verify_request_signature (in_sig env) (in_fed env) (in_serve env) (in_serve2 env) (verified_request q) db = (Inr r, db)"
    "\<not> sr_valid r"
    using verify_request_refuses by blast
  show ?thesis
    by (simp add: check_sender_def r record_signature_failure_def Let_def split: sum.split fed_error.split)
qed

text \<open>
  C31. The inbox takes in nothing: whatever request arrives, signed or not, the answer is not
  that it was accepted and no activity is stored, because the check of a signature refuses
  every identifier of a key, those with a fragment for it and the others for want of one.
\<close>

theorem inbox_accepts_nothing:
  "fst (receive_inbox env q target db) \<noteq> Inr ACCEPTED
   \<and> inbox_activities (snd (receive_inbox env q target db)) = inbox_activities db"
proof -
  have sender: "f \<noteq> Inr None \<and> inbox_activities d = inbox_activities db" if "check_sender env q a db = (f, d)" for a f d
    using check_sender_refuses [of env q a db] that by simp
  have guards: "guard_request env q \<noteq> Inr (Some ACCEPTED)" "fst (check_sender env q a db) \<noteq> Inr (Some ACCEPTED)" for a
    by (auto simp: guard_request_def check_sender_def ACCEPTED_def RATE_LIMITED_def Let_def
        split: sum.split fed_error.split prod.split)
  have answers: "f \<noteq> Inr (Some ACCEPTED)" if "check_sender env q a db = (f, d)" for a f d
    using guards(2) [of a] that by simp
  show ?thesis
    using guards(1)
    by (auto simp: receive_inbox_def and_then_def ACCEPTED_def [symmetric] split: sum.split option.split prod.split
        dest: sender answers) (simp_all add: ACCEPTED_def)
qed

end
