(* ===== verification/Federation_Inbox.thy ===== *)
theory Federation_Inbox
  imports Comments Federation_Intake
begin

text \<open>
  \<open>federation/inbox.py\<close>: the worker that claims stored activities and applies them, the
  handler of each type, and the answers to follow requests. A handler runs in a savepoint;
  an error of validation rejects the activity, any other puts it off.
\<close>

text \<open>\<open>ib_comments\<close> is the section of settings on comments, \<open>ib_uuid\<close> what \<open>uuid.UUID\<close> reads.\<close>

record inbox_env =
  ib_comment :: comment_env
  ib_comments :: dict
  ib_uuid :: "string \<Rightarrow> string option"

definition ib_fed :: "inbox_env \<Rightarrow> fed_env" where
  "ib_fed env = ce_fed (ib_comment env)"

definition ib_now :: "inbox_env \<Rightarrow> time" where
  "ib_now env = fv_now (ib_fed env)"

definition ib_audit :: "inbox_env \<Rightarrow> string \<Rightarrow> string option \<Rightarrow> string \<Rightarrow> string \<Rightarrow> db \<Rightarrow> db" where
  "ib_audit env event actor target detail db =
     audit (ce_cfg (ib_comment env)) (ib_now env) event ''success'' actor (Some target) detail db"

text \<open>\<open>scalar_one_or_none\<close> over columns that are not unique raises when it finds two rows.\<close>

definition one_or_none :: "'r list \<Rightarrow> fed_error + 'r option" where
  "one_or_none rows = (case rows of [] \<Rightarrow> Inr None | [r] \<Rightarrow> Inr (Some r) | _ \<Rightarrow> Inl Unexpected_failure)"

section \<open>Claims\<close>

definition INBOX_LEASE_SECONDS :: int where "INBOX_LEASE_SECONDS = 90"

definition inbox_due :: "time \<Rightarrow> inbox_activity \<Rightarrow> bool" where
  "inbox_due now a \<longleftrightarrow> ia_processing_state a = ''received'' \<and> ia_received_at a \<le> now
     \<or> ia_processing_state a = ''processing'' \<and> (case ia_lease_until a of None \<Rightarrow> False | Some u \<Rightarrow> u \<le> now)"

definition inbox_grab :: "string \<Rightarrow> time \<Rightarrow> inbox_activity \<Rightarrow> inbox_activity" where
  "inbox_grab worker now a = a\<lparr>ia_processing_state := ''processing'', ia_lease_owner := Some worker,
     ia_lease_until := Some (now + seconds INBOX_LEASE_SECONDS), ia_attempt_count := ia_attempt_count a + 1\<rparr>"

definition claim_inbox :: "string \<Rightarrow> time \<Rightarrow> db \<Rightarrow> string option \<times> db" where
  "claim_inbox worker now db =
     (case lease_claim ia_id (\<lambda>a. a) (inbox_due now) (\<lambda>a. (ia_received_at a, ia_id a)) (inbox_grab worker now)
             (inbox_activities db) of
        (j, rows) \<Rightarrow> (j, db\<lparr>inbox_activities := rows\<rparr>))"

section \<open>Following\<close>

definition target_actor_of :: "inbox_activity \<Rightarrow> json \<Rightarrow> db \<Rightarrow> fed_error + local_actor" where
  "target_actor_of intake obj db =
     (let named = (if truthy_str (ia_target_actor_id intake)
            then get_by la_id (or_empty (ia_target_actor_id intake)) (local_actors db) else None);
          target = (case named of Some a \<Rightarrow> Some a
            | None \<Rightarrow> (case as_str obj of None \<Rightarrow> None
                | Some uri \<Rightarrow> first_where (\<lambda>a. la_actor_uri a = uri \<and> la_enabled a) (local_actors db)))
      in case target of None \<Rightarrow> Inl (Inbox_error ''local_actor_unavailable'')
         | Some a \<Rightarrow> if la_enabled a then Inr a else Inl (Inbox_error ''local_actor_unavailable''))"

fun follow_value :: "follower_state \<Rightarrow> string" where
  "follow_value Follow_Pending = ''pending''"
| "follow_value Follow_Accepted = ''accepted''"
| "follow_value Follow_Rejected = ''rejected''"
| "follow_value Follow_Undone = ''undone''"

definition inbound_relations :: "string \<Rightarrow> string \<Rightarrow> db \<Rightarrow> follower list" where
  "inbound_relations user_id uri db = filter (\<lambda>f. fo_local_user_id f = user_id \<and> fo_remote_actor_uri f = uri
     \<and> fo_direction f = Dir_Inbound) (followers db)"

definition approval_needed :: "fed_env \<Rightarrow> bool" where
  "approval_needed env = truthy (dget (fv_settings env) ''require_approval_to_follow'' (JBool False))"

definition put_inbound :: "inbox_env \<Rightarrow> inbox_activity \<Rightarrow> remote_actor \<Rightarrow> string \<Rightarrow> follower_state \<Rightarrow> follower option \<Rightarrow> db \<Rightarrow> db" where
  "put_inbound env intake remote user_id state relation db = (case relation of
     None \<Rightarrow> db\<lparr>followers := add_row
       \<lparr>fo_id = fv_id (ib_fed env) ''relation'', fo_local_user_id = user_id, fo_remote_actor_uri = ra_actor_uri remote,
        fo_remote_display_name = ra_display_name remote, fo_remote_inbox_uri = Some (actor_inbox remote),
        fo_direction = Dir_Inbound, fo_state = state, fo_activity_id = Some (ia_activity_uri intake),
        fo_created_at = ib_now env, fo_updated_at = ib_now env\<rparr> (followers db)\<rparr>
   | Some f \<Rightarrow> put_follower (ib_now env) (fo_id f) (\<lambda>r. r\<lparr>fo_remote_display_name := ra_display_name remote,
        fo_remote_inbox_uri := Some (actor_inbox remote), fo_activity_id := Some (ia_activity_uri intake),
        fo_state := state\<rparr>) db)"

definition handle_follow :: "inbox_env \<Rightarrow> inbox_activity \<Rightarrow> dict \<Rightarrow> remote_actor \<Rightarrow> db \<Rightarrow> (fed_error, unit, db) outcome" where
  "handle_follow env intake payload remote db = (case as_str (dget payload ''object'' JNull) of
     None \<Rightarrow> (Inl (Inbox_error ''follow_object_invalid''), db)
   | Some target_uri \<Rightarrow> (case target_actor_of intake (JStr target_uri) db of
       Inl e \<Rightarrow> (Inl e, db)
     | Inr loc \<Rightarrow>
         if la_actor_uri loc \<noteq> target_uri then (Inl (Inbox_error ''follow_target_mismatch''), db)
         else (case get_by u_id (la_user_id loc) (users db) of
             None \<Rightarrow> (Inl (Inbox_error ''local_actor_unavailable''), db)
           | Some u \<Rightarrow> (case one_or_none (inbound_relations (u_id u) (ra_actor_uri remote) db) of
               Inl e \<Rightarrow> (Inl e, db)
             | Inr relation \<Rightarrow>
                 (let state = (if approval_needed (ib_fed env) then Follow_Pending else Follow_Accepted);
                      db1 = put_inbound env intake remote (u_id u) state relation db
                  in and_then (if state = Follow_Pending then (Inr (), db1)
                       else ignore_result (queue_follow_accept (ib_fed env) loc remote (ia_activity_uri intake) False db1))
                     (\<lambda>_ db2. (Inr (), ib_audit env ''federation.follow_received'' None (la_id loc)
                        (''remote_domain='' @ ra_domain remote @ '';state='' @ follow_value state) db2)))))))"

text \<open>The answer to a follow request of ours; \<open>actor_uri\<close> is that of the local follower, if it is one.\<close>

definition response_matches :: "json \<Rightarrow> string \<Rightarrow> json \<Rightarrow> remote_actor \<Rightarrow> bool" where
  "response_matches follow follow_id actor_uri remote \<longleftrightarrow>
     follow = JStr follow_id
     \<or> (case as_obj follow of None \<Rightarrow> False | Some d \<Rightarrow>
          dget d ''type'' JNull = JStr ''Follow'' \<and> dget d ''id'' JNull = JStr follow_id
          \<and> dget d ''actor'' JNull = actor_uri \<and> dget d ''object'' JNull = JStr (ra_actor_uri remote))"

definition handle_follow_response ::
  "inbox_env \<Rightarrow> inbox_activity \<Rightarrow> dict \<Rightarrow> remote_actor \<Rightarrow> db \<Rightarrow> (fed_error, unit, db) outcome" where
  "handle_follow_response env intake payload remote db =
     (let follow = dget payload ''object'' JNull;
          named = (case as_obj follow of Some d \<Rightarrow> dget d ''id'' JNull | None \<Rightarrow> follow) in
      case as_str named of
        None \<Rightarrow> (Inl (Inbox_error ''follow_response_object_invalid''), db)
      | Some follow_id \<Rightarrow>
          (case one_or_none (filter (\<lambda>f. fo_remote_actor_uri f = ra_actor_uri remote
                  \<and> fo_activity_id f = Some follow_id \<and> fo_direction f = Dir_Outbound) (followers db)) of
             Inl e \<Rightarrow> (Inl e, db)
           | Inr None \<Rightarrow> (Inl (Inbox_error ''follow_relation_not_found''), db)
           | Inr (Some relation) \<Rightarrow>
               (let loc = get_by la_user_id (fo_local_user_id relation) (local_actors db);
                    actor_uri = (case loc of None \<Rightarrow> JNull | Some a \<Rightarrow> JStr (la_actor_uri a));
                    outcome = (if dget payload ''type'' JNull = JStr ''Accept'' then Follow_Accepted else Follow_Rejected) in
                if \<not> response_matches follow follow_id actor_uri remote
                then (Inl (Inbox_error ''follow_response_binding_mismatch''), db)
                else if fo_state relation = Follow_Pending
                then (Inr (), put_follower (ib_now env) (fo_id relation) (\<lambda>r. r\<lparr>fo_state := outcome\<rparr>) db)
                else if fo_state relation \<noteq> outcome then (Inl (Inbox_error ''conflicting_follow_response''), db)
                else (Inr (), db))))"

definition handle_undo :: "inbox_env \<Rightarrow> inbox_activity \<Rightarrow> dict \<Rightarrow> remote_actor \<Rightarrow> db \<Rightarrow> (fed_error, unit, db) outcome" where
  "handle_undo env intake payload remote db = (case as_obj (dget payload ''object'' JNull) of
     None \<Rightarrow> (Inl (Inbox_error ''undo_follow_owner_mismatch''), db)
   | Some item \<Rightarrow>
       if dget item ''type'' JNull \<noteq> JStr ''Follow'' \<or> dget item ''actor'' JNull \<noteq> JStr (ra_actor_uri remote)
       then (Inl (Inbox_error ''undo_follow_owner_mismatch''), db)
       else (case (as_str (dget item ''id'' JNull), as_str (dget item ''object'' JNull)) of
           (Some follow_id, Some target_uri) \<Rightarrow> (case target_actor_of intake (JStr target_uri) db of
               Inl e \<Rightarrow> (Inl e, db)
             | Inr target \<Rightarrow> (case get_by u_id (la_user_id target) (users db) of
                 None \<Rightarrow> (Inl (Inbox_error ''local_actor_unavailable''), db)
               | Some u \<Rightarrow>
                   (case one_or_none (filter (\<lambda>f. fo_activity_id f = Some follow_id)
                           (inbound_relations (u_id u) (ra_actor_uri remote) db)) of
                      Inl e \<Rightarrow> (Inl e, db)
                    | Inr None \<Rightarrow> (Inr (), db)
                    | Inr (Some relation) \<Rightarrow>
                        (Inr (), put_follower (ib_now env) (fo_id relation) (\<lambda>r. r\<lparr>fo_state := Follow_Undone\<rparr>) db))))
         | _ \<Rightarrow> (Inl (Inbox_error ''undo_follow_invalid''), db)))"

section \<open>Comments from remote actors\<close>

text \<open>\<open>uri.rsplit(marker, 1)[1].split("/", 1)[0]\<close>, if the marker is in the URI.\<close>

fun after_last :: "string \<Rightarrow> string \<Rightarrow> string option" where
  "after_last marker [] = None"
| "after_last marker (c # s) = (case after_last marker s of
     Some rest \<Rightarrow> Some rest
   | None \<Rightarrow> if startswith (c # s) marker then Some (drop (length marker) (c # s)) else None)"

definition segment_after :: "string \<Rightarrow> string \<Rightarrow> string option" where
  "segment_after marker uri = map_option (before_at CHR ''/'') (after_last marker uri)"

definition object_short_id :: "string \<Rightarrow> string" where
  "object_short_id uri = or_empty (segment_after ''/ap/object/'' uri)"

definition comment_id_from_uri :: "inbox_env \<Rightarrow> string \<Rightarrow> string option" where
  "comment_id_from_uri env uri = Option.bind (segment_after ''/ap/comment/'' uri) (ib_uuid env)"

definition comment_text :: "inbox_env \<Rightarrow> json \<Rightarrow> int \<Rightarrow> fed_error + string" where
  "comment_text env value max_length = (case as_str value of
     None \<Rightarrow> Inl (Inbox_error ''remote_comment_too_large'')
   | Some s \<Rightarrow>
       if length s > 20000 then Inl (Inbox_error ''remote_comment_too_large'')
       else (let t = fv_plain (ib_fed env) s in
         if strip t = [] \<or> int (length t) > min max_length 20000
         then Inl (Inbox_error ''remote_comment_length_invalid'') else Inr t))"

definition comment_policy_of :: "inbox_env \<Rightarrow> string \<Rightarrow> db \<Rightarrow> fed_error + comment_policy" where
  "comment_policy_of env post_id db = (case get_by po_id post_id (posts db) of
     None \<Rightarrow> Inl (Inbox_error ''comment_post_missing'')
   | Some p \<Rightarrow> Inr (resolve_comment_policy (Some p) (ib_comments env)))"

text \<open>A URI that is stored, or made from the origin of the instance.\<close>

definition stored_or_own :: "inbox_env \<Rightarrow> string option \<Rightarrow> string \<Rightarrow> fed_error + string" where
  "stored_or_own env stored path = (if truthy_str stored then Inr (or_empty stored)
     else case canonical_origin (fv_net (ib_fed env)) (fv_cfg (ib_fed env)) of
       Inl e \<Rightarrow> Inl e | Inr origin \<Rightarrow> Inr (origin @ path))"

definition comment_parent_uri :: "inbox_env \<Rightarrow> comment \<Rightarrow> db \<Rightarrow> fed_error + string" where
  "comment_parent_uri env c db =
     (case (if truthy_str (co_parent_id c) then get_by co_id (or_empty (co_parent_id c)) (comments db) else None) of
        Some parent \<Rightarrow> stored_or_own env (co_remote_object_uri parent) (''/ap/comment/'' @ co_id parent)
      | None \<Rightarrow> (case get_by po_id (co_post_id c) (posts db) of
          None \<Rightarrow> Inr []
        | Some p \<Rightarrow> stored_or_own env (po_ap_object_id p) (''/ap/object/'' @ po_short_id p)))"

definition comment_by_uri :: "string \<Rightarrow> db \<Rightarrow> comment option" where
  "comment_by_uri uri db = first_where (\<lambda>c. co_remote_object_uri c = Some uri) (comments db)"

text \<open>An error of the comment service that is a \<open>ValueError\<close> becomes the given rejection.\<close>

definition or_rejected :: "string \<Rightarrow> (comment_error, 'a, db) outcome \<Rightarrow> (fed_error, unit, db) outcome" where
  "or_rejected reason r = (case r of
     (Inl (Federation_error Integrity_failure), db) \<Rightarrow> (Inl Integrity_failure, db)
   | (Inl (Federation_error Unexpected_failure), db) \<Rightarrow> (Inl Unexpected_failure, db)
   | (Inl _, db) \<Rightarrow> (Inl (Inbox_error reason), db)
   | (Inr _, db) \<Rightarrow> (Inr (), db))"

definition open_post :: "post \<Rightarrow> bool" where
  "open_post p \<longleftrightarrow> po_status p = Post_Published \<and> po_visibility p = Visibility_Public"

text \<open>The post a note replies to, and the comment if it replies to one.\<close>

definition reply_target :: "inbox_env \<Rightarrow> string \<Rightarrow> db \<Rightarrow> fed_error + (post \<times> string option)" where
  "reply_target env uri db =
     (case one_or_none (filter (\<lambda>p. (po_ap_object_id p = Some uri \<or> po_short_id p = object_short_id uri) \<and> open_post p)
             (posts db)) of
        Inl e \<Rightarrow> Inl e
      | Inr (Some p) \<Rightarrow> Inr (p, None)
      | Inr None \<Rightarrow>
          (let parent = (case comment_by_uri uri db of Some c \<Rightarrow> Some c
              | None \<Rightarrow> (case comment_id_from_uri env uri of None \<Rightarrow> None
                  | Some i \<Rightarrow> if i = [] then None else get_by co_id i (comments db)))
           in case parent of
                None \<Rightarrow> Inl (Inbox_error ''remote_reply_target_unavailable'')
              | Some c \<Rightarrow>
                  if co_status c \<noteq> Comment_Approved then Inl (Inbox_error ''remote_reply_target_unavailable'')
                  else (case get_by po_id (co_post_id c) (posts db) of
                      None \<Rightarrow> Inl (Inbox_error ''remote_reply_target_unavailable'')
                    | Some p \<Rightarrow> if open_post p then Inr (p, Some (co_id c))
                                else Inl (Inbox_error ''remote_reply_target_unavailable''))))"

definition display_of :: "remote_actor \<Rightarrow> string" where
  "display_of r = take 128 (if truthy_str (ra_display_name r) then or_empty (ra_display_name r)
     else if truthy_str (ra_preferred_username r) then or_empty (ra_preferred_username r) else ra_domain r)"

definition remote_request :: "remote_actor \<Rightarrow> string \<Rightarrow> string \<Rightarrow> string \<Rightarrow> string option \<Rightarrow> comment_request" where
  "remote_request remote uri intake_id body parent =
     \<lparr>rq_author_name = display_of remote, rq_author_email = None, rq_author_url = None, rq_body = body,
      rq_author_user = None, rq_remote_actor = Some remote, rq_remote_object_uri = Some uri,
      rq_inbox_activity_id = Some intake_id, rq_parent_id = parent, rq_quote_of_id = None, rq_spam = False,
      rq_ip_address = None, rq_user_agent = None, rq_country_code = None\<rparr>"

definition create_remote_comment ::
  "inbox_env \<Rightarrow> inbox_activity \<Rightarrow> dict \<Rightarrow> remote_actor \<Rightarrow> db \<Rightarrow> (fed_error, unit, db) outcome" where
  "create_remote_comment env intake obj remote db =
     (case (as_str (dget obj ''id'' JNull), as_str (dget obj ''inReplyTo'' JNull)) of
        (Some uri, Some in_reply_to) \<Rightarrow>
          if dget obj ''attributedTo'' (JStr (ia_actor_uri intake)) \<noteq> JStr (ia_actor_uri intake)
          then (Inl (Inbox_error ''remote_note_identity_invalid''), db)
          else (case validate_remote_url_syntax (fv_net (ib_fed env)) uri of
              Inl _ \<Rightarrow> (Inl (Inbox_error ''remote_object_uri_invalid''), db)
            | Inr (domain, _) \<Rightarrow>
                if domain \<noteq> ra_domain remote then (Inl (Inbox_error ''remote_object_owner_mismatch''), db)
                else (case comment_by_uri uri db of
                    Some existing \<Rightarrow>
                      if co_remote_actor_id existing \<noteq> Some (ra_id remote)
                      then (Inl (Inbox_error ''remote_object_owner_conflict''), db) else (Inr (), db)
                  | None \<Rightarrow> (case reply_target env in_reply_to db of
                      Inl e \<Rightarrow> (Inl e, db)
                    | Inr (p, parent) \<Rightarrow> (case comment_policy_of env (po_id p) db of
                        Inl e \<Rightarrow> (Inl e, db)
                      | Inr policy \<Rightarrow>
                          (case comment_text env (dget obj ''content'' JNull) (pl_max_comment_length policy) of
                             Inl e \<Rightarrow> (Inl e, db)
                           | Inr body \<Rightarrow> or_rejected ''remote_comment_rejected_by_policy''
                               (create_comment (ib_comment env) p policy
                                  (remote_request remote uri (ia_id intake) body parent) db))))))
      | _ \<Rightarrow> (Inl (Inbox_error ''remote_note_identity_invalid''), db))"

definition note_object :: "dict \<Rightarrow> dict option" where
  "note_object payload = (case as_obj (dget payload ''object'' JNull) of
     None \<Rightarrow> None | Some d \<Rightarrow> if dget d ''type'' JNull = JStr ''Note'' then Some d else None)"

definition handle_create :: "inbox_env \<Rightarrow> inbox_activity \<Rightarrow> dict \<Rightarrow> remote_actor \<Rightarrow> db \<Rightarrow> (fed_error, unit, db) outcome" where
  "handle_create env intake payload remote db = (case note_object payload of
     None \<Rightarrow> (Inl (Inbox_error ''unsupported_create_object''), db)
   | Some obj \<Rightarrow> create_remote_comment env intake obj remote db)"

text \<open>A comment of this very actor, under an identifier on the actor's domain.\<close>

definition owned_comment :: "inbox_env \<Rightarrow> string \<Rightarrow> remote_actor \<Rightarrow> db \<Rightarrow> comment option" where
  "owned_comment env uri remote db = (case comment_by_uri uri db of
     None \<Rightarrow> None | Some c \<Rightarrow> if co_remote_actor_id c = Some (ra_id remote) then Some c else None)"

definition identifier_refused :: "inbox_env \<Rightarrow> string \<Rightarrow> remote_actor \<Rightarrow> bool" where
  "identifier_refused env uri remote = (case validate_remote_url_syntax (fv_net (ib_fed env)) uri of
     Inl _ \<Rightarrow> True | Inr (domain, _) \<Rightarrow> domain \<noteq> ra_domain remote)"

definition handle_update :: "inbox_env \<Rightarrow> inbox_activity \<Rightarrow> dict \<Rightarrow> remote_actor \<Rightarrow> db \<Rightarrow> (fed_error, unit, db) outcome" where
  "handle_update env intake payload remote db = (case note_object payload of
     None \<Rightarrow> (Inl (Inbox_error ''unsupported_update_object''), db)
   | Some obj \<Rightarrow> (case as_str (dget obj ''id'' JNull) of
       None \<Rightarrow> (Inl (Inbox_error ''remote_comment_object_id_invalid''), db)
     | Some uri \<Rightarrow> (case owned_comment env uri remote db of
         None \<Rightarrow> (Inl (Inbox_error ''remote_comment_owner_mismatch''), db)
       | Some c \<Rightarrow>
           if dget obj ''attributedTo'' JNull \<noteq> JStr (ra_actor_uri remote)
           then (Inl (Inbox_error ''remote_comment_attribution_mismatch''), db)
           else if identifier_refused env uri remote
           then (Inl (Inbox_error ''remote_comment_object_id_invalid''), db)
           else (case comment_parent_uri env c db of
               Inl e \<Rightarrow> (Inl e, db)
             | Inr parent \<Rightarrow>
                 if dget obj ''inReplyTo'' JNull \<noteq> JStr parent
                 then (Inl (Inbox_error ''remote_comment_thread_changed''), db)
                 else (case comment_policy_of env (co_post_id c) db of
                     Inl e \<Rightarrow> (Inl e, db)
                   | Inr policy \<Rightarrow>
                       (case comment_text env (dget obj ''content'' JNull) (pl_max_comment_length policy) of
                          Inl e \<Rightarrow> (Inl e, db)
                        | Inr body \<Rightarrow> or_rejected ''remote_comment_revision_rejected''
                            (create_remote_comment_revision (ib_comment env) c (ra_id remote) body policy db)))))))"

definition handle_delete :: "inbox_env \<Rightarrow> inbox_activity \<Rightarrow> dict \<Rightarrow> remote_actor \<Rightarrow> db \<Rightarrow> (fed_error, unit, db) outcome" where
  "handle_delete env intake payload remote db =
     (let item = dget payload ''object'' JNull;
          named = (case as_obj item of Some d \<Rightarrow> dget d ''id'' JNull | None \<Rightarrow> item) in
      case as_str named of
        None \<Rightarrow> (Inl (Inbox_error ''remote_comment_object_id_invalid''), db)
      | Some uri \<Rightarrow> (case owned_comment env uri remote db of
          None \<Rightarrow> (Inl (Inbox_error ''remote_comment_owner_mismatch''), db)
        | Some c \<Rightarrow>
            if identifier_refused env uri remote then (Inl (Inbox_error ''remote_comment_object_id_invalid''), db)
            else if co_status c = Comment_Deleted then (Inr (), db)
            else (Inr (), ib_audit env ''federation_comment_remote_deleted'' None (co_id c) ''source=remote_actor''
              (put_comment (co_id c) (\<lambda>r. r\<lparr>co_status := Comment_Deleted, co_confirmation_token_hash := None,
                 co_confirmation_expires_at := None\<rparr>) db))))"

section \<open>Processing\<close>

definition handler_of ::
  "inbox_env \<Rightarrow> string \<Rightarrow> (inbox_activity \<Rightarrow> dict \<Rightarrow> remote_actor \<Rightarrow> db \<Rightarrow> (fed_error, unit, db) outcome) option" where
  "handler_of env kind =
     (if kind = ''Follow'' then Some (handle_follow env)
      else if kind \<in> {''Accept'', ''Reject''} then Some (handle_follow_response env)
      else if kind = ''Undo'' then Some (handle_undo env)
      else if kind = ''Create'' then Some (handle_create env)
      else if kind = ''Update'' then Some (handle_update env)
      else if kind = ''Delete'' then Some (handle_delete env)
      else None)"

text \<open>What a savepoint leaves after an error: the tables as before; the audit file is no table.\<close>

definition rolled_back :: "db \<Rightarrow> db \<Rightarrow> db" where
  "rolled_back before after = before\<lparr>audit_log := audit_log after\<rparr>"

definition in_savepoint :: "db \<Rightarrow> (fed_error, 'a, db) outcome \<Rightarrow> (fed_error, 'a, db) outcome" where
  "in_savepoint before r = (case r of (Inl e, after) \<Rightarrow> (Inl e, rolled_back before after) | _ \<Rightarrow> r)"

text \<open>The checks and the handler: the state the activity ends in, or the error.\<close>

definition apply_intake :: "inbox_env \<Rightarrow> inbox_activity \<Rightarrow> db \<Rightarrow> (fed_error, string, db) outcome" where
  "apply_intake env intake db =
     (let settings = fv_settings (ib_fed env) in
      if \<not> federation_is_enabled settings \<or> \<not> domain_allowed (fv_net (ib_fed env)) db (ia_source_domain intake) settings
      then (Inl (Inbox_error ''domain_not_allowed''), db)
      else (case ia_payload_json intake of
          Malformed \<Rightarrow> (Inl (Value_error ''json''), db)
        | Json j \<Rightarrow> (case as_obj j of
            None \<Rightarrow> (Inl (Inbox_error ''actor_binding_mismatch''), db)
          | Some payload \<Rightarrow>
              if dget payload ''actor'' JNull \<noteq> JStr (ia_actor_uri intake)
              then (Inl (Inbox_error ''actor_binding_mismatch''), db)
              else (case get_by ra_actor_uri (ia_actor_uri intake) (remote_actors db) of
                  None \<Rightarrow> (Inl (Inbox_error ''verified_actor_cache_missing''), db)
                | Some actor \<Rightarrow> (case handler_of env (ia_activity_type intake) of
                    None \<Rightarrow> (Inr ''ignored'', db)
                  | Some handle \<Rightarrow>
                      and_then (in_savepoint db (handle intake payload actor db)) (\<lambda>_ db1. (Inr ''processed'', db1)))))))"

definition put_intake :: "string \<Rightarrow> (inbox_activity \<Rightarrow> inbox_activity) \<Rightarrow> db \<Rightarrow> db" where
  "put_intake i f db = db\<lparr>inbox_activities := update_where (\<lambda>a. ia_id a = i) f (inbox_activities db)\<rparr>"

definition unlease_intake :: "inbox_activity \<Rightarrow> inbox_activity" where
  "unlease_intake a = a\<lparr>ia_lease_owner := None, ia_lease_until := None\<rparr>"

definition settle_intake :: "string \<Rightarrow> string option \<Rightarrow> time \<Rightarrow> inbox_activity \<Rightarrow> inbox_activity" where
  "settle_intake state error now a =
     a\<lparr>ia_processing_state := state, ia_last_error := error, ia_processed_at := Some now\<rparr>"

definition MAX_INBOX_ATTEMPTS :: int where "MAX_INBOX_ATTEMPTS = 5"

definition put_off_intake :: "time \<Rightarrow> inbox_activity \<Rightarrow> inbox_activity" where
  "put_off_intake now a =
     (let a1 = a\<lparr>ia_last_error := Some ''internal_processing_error''\<rparr> in
      if ia_attempt_count a < MAX_INBOX_ATTEMPTS
      then a1\<lparr>ia_processing_state := ''received'',
              ia_received_at := now + seconds (min 300 (2 ^ nat (ia_attempt_count a)))\<rparr>
      else a1\<lparr>ia_processing_state := ''failed''\<rparr>)"

definition after_result :: "time \<Rightarrow> fed_error + string \<Rightarrow> inbox_activity \<Rightarrow> inbox_activity" where
  "after_result now r = (case r of
     Inr state \<Rightarrow> settle_intake state None now
   | Inl (Inbox_error m) \<Rightarrow> settle_intake ''rejected'' (Some (take 512 m)) now
   | Inl _ \<Rightarrow> put_off_intake now)"

text \<open>
  One step of the model. The code reads the state and the owner of the lease first and
  writes and commits at the end without asking for them again, so two attempts at one activity
  that overlap, because the first outlasted its lease, are not represented.
\<close>

definition process_claimed :: "inbox_env \<Rightarrow> string \<Rightarrow> string \<Rightarrow> db \<Rightarrow> string \<times> db" where
  "process_claimed env worker i db = (case get_by ia_id i (inbox_activities db) of
     None \<Rightarrow> (''unavailable'', db)
   | Some intake \<Rightarrow>
       if ia_processing_state intake \<noteq> ''processing'' \<or> ia_lease_owner intake \<noteq> Some worker then (''unavailable'', db)
       else (case apply_intake env intake db of
           (r, db1) \<Rightarrow> (let final = (\<lambda>a. unlease_intake (after_result (ib_now env) r a)) in
             (ia_processing_state (final intake), put_intake i final db1))))"

text \<open>
  One round per environment; each claim and each activity is a transaction of its own. The
  number of activities processed is the result.
\<close>

fun inbox_rounds :: "string \<Rightarrow> inbox_env list \<Rightarrow> db \<Rightarrow> nat \<times> db" where
  "inbox_rounds worker [] db = (0, db)"
| "inbox_rounds worker (env # envs) db =
     (if \<not> federation_is_enabled (fv_settings (ib_fed env)) then (0, db)
      else case claim_inbox worker (ib_now env) db of
        (None, db1) \<Rightarrow> (0, db1)
      | (Some i, db1) \<Rightarrow> (case inbox_rounds worker envs (snd (process_claimed env worker i db1)) of
          (n, db2) \<Rightarrow> (n + 1, db2)))"

definition process_inbox_batch :: "string \<Rightarrow> int \<Rightarrow> (nat \<Rightarrow> inbox_env) \<Rightarrow> db \<Rightarrow> nat \<times> db" where
  "process_inbox_batch worker batch_size envs db =
     inbox_rounds worker (map envs [0..<nat (max 1 (min batch_size 100))]) db"

section \<open>Follow requests of the instance and its answers\<close>

definition unfollow_remote_actor ::
  "inbox_env \<Rightarrow> local_actor \<Rightarrow> remote_actor \<Rightarrow> db \<Rightarrow> (fed_error, string, db) outcome" where
  "unfollow_remote_actor env loc remote db =
     (let fenv = ib_fed env in
      if \<not> federation_is_enabled (fv_settings fenv)
         \<or> \<not> domain_allowed (fv_net fenv) db (ra_domain remote) (fv_settings fenv)
      then (Inl (Inbox_error ''federation_or_remote_domain_unavailable''), db)
      else if \<not> la_enabled loc then (Inl (Inbox_error ''local_actor_unavailable''), db)
      else (case get_by u_id (la_user_id loc) (users db) of
          None \<Rightarrow> (Inl (Inbox_error ''local_actor_unavailable''), db)
        | Some u \<Rightarrow>
            (case one_or_none (filter (\<lambda>f. fo_local_user_id f = u_id u \<and> fo_remote_actor_uri f = ra_actor_uri remote
                    \<and> fo_direction f = Dir_Outbound) (followers db)) of
               Inl e \<Rightarrow> (Inl e, db)
             | Inr None \<Rightarrow> (Inl (Inbox_error ''outbound_follow_not_found''), db)
             | Inr (Some relation) \<Rightarrow>
                 if \<not> truthy_str (fo_activity_id relation) then (Inl (Inbox_error ''outbound_follow_not_found''), db)
                 else if fo_state relation = Follow_Undone then (Inr (fo_id relation), db)
                 else
                  (let follow_id = or_empty (fo_activity_id relation);
                       db1 = put_follower (ib_now env) (fo_id relation) (\<lambda>r. r\<lparr>fo_state := Follow_Undone\<rparr>) db
                   in and_then (enqueue_activity fenv loc ''Undo''
                        (JObj [(''id'', JStr follow_id), (''type'', JStr ''Follow''), (''actor'', JStr (la_actor_uri loc)),
                           (''object'', JStr (ra_actor_uri remote))])
                        ''follow-undo'' (fo_id relation) follow_id [(actor_inbox remote, ra_domain remote)] False db1)
                      (\<lambda>_ db2. (Inr (fo_id relation), ib_audit env ''federation.follow_removed'' (Some (u_id u))
                         (fo_id relation) (''remote_domain='' @ ra_domain remote) db2))))))"

definition respond_inbound_follow ::
  "inbox_env \<Rightarrow> string \<Rightarrow> bool \<Rightarrow> db \<Rightarrow> (fed_error, string, db) outcome" where
  "respond_inbound_follow env follower_id accept db = (case get_by fo_id follower_id (followers db) of
     None \<Rightarrow> (Inl (Inbox_error ''pending_inbound_follow_not_found''), db)
   | Some relation \<Rightarrow>
       if fo_direction relation \<noteq> Dir_Inbound \<or> fo_state relation \<noteq> Follow_Pending
       then (Inl (Inbox_error ''pending_inbound_follow_not_found''), db)
       else (case (first_where (\<lambda>a. la_user_id a = fo_local_user_id relation \<and> la_enabled a) (local_actors db),
                   get_by ra_actor_uri (fo_remote_actor_uri relation) (remote_actors db)) of
           (Some loc, Some remote) \<Rightarrow>
             if \<not> truthy_str (fo_activity_id relation) then (Inl (Inbox_error ''follow_actor_unavailable''), db)
             else
              (let db1 = put_follower (ib_now env) follower_id
                     (\<lambda>r. r\<lparr>fo_state := (if accept then Follow_Accepted else Follow_Rejected)\<rparr>) db
               in and_then (queue_follow_accept (ib_fed env) loc remote (or_empty (fo_activity_id relation)) (\<not> accept) db1)
                  (\<lambda>_ db2. (Inr follower_id, ib_audit env
                     (if accept then ''federation.follow_accepted'' else ''federation.follow_rejected'') None
                     follower_id (''remote_domain='' @ ra_domain remote) db2)))
         | _ \<Rightarrow> (Inl (Inbox_error ''follow_actor_unavailable''), db)))"

section \<open>Operators\<close>

text \<open>\<open>federation/operations.py\<close>.\<close>

definition retry_delivery :: "fed_env \<Rightarrow> string \<Rightarrow> db \<Rightarrow> (fed_error, string, db) outcome" where
  "retry_delivery env i db = (case get_by dl_id i (deliveries db) of
     None \<Rightarrow> (Inl (Value_error ''delivery_not_retryable''), db)
   | Some d \<Rightarrow>
       if dl_status d \<notin> {''dead'', ''retry''} then (Inl (Value_error ''delivery_not_retryable''), db)
       else (case (validate_remote_url_syntax (fv_net env) (dl_target_inbox d), normalize_domain (fv_net env) (dl_domain d)) of
           (Inl e, _) \<Rightarrow> (Inl e, db)
         | (_, Inl e) \<Rightarrow> (Inl e, db)
         | (Inr (host, _), Inr domain) \<Rightarrow>
             if host \<noteq> domain \<or> \<not> domain_allowed (fv_net env) db domain (fv_settings env)
             then (Inl (Value_error ''delivery_domain_blocked''), db)
             else (case validate_remote_url (fv_net env) (dl_target_inbox d) of
                 Inl e \<Rightarrow> (Inl e, db)
               | Inr _ \<Rightarrow> (Inr i, put_delivery (fv_now env) i (\<lambda>r. (unlease_delivery r)\<lparr>dl_status := ''pending'',
                   dl_attempts := 0, dl_next_attempt_at := fv_now env, dl_response_status := None, dl_last_error := None\<rparr>) db))))"

definition cancel_delivery :: "time \<Rightarrow> string \<Rightarrow> db \<Rightarrow> (fed_error, string, db) outcome" where
  "cancel_delivery now i db = (case get_by dl_id i (deliveries db) of
     None \<Rightarrow> (Inl (Value_error ''delivery_not_cancellable''), db)
   | Some d \<Rightarrow>
       if dl_status d \<in> {''delivered'', ''cancelled''} then (Inl (Value_error ''delivery_not_cancellable''), db)
       else (Inr i, put_delivery now i (\<lambda>r. (unlease_delivery r)\<lparr>dl_status := ''cancelled''\<rparr>) db))"

definition reprocess_inbox :: "time \<Rightarrow> string \<Rightarrow> db \<Rightarrow> (fed_error, string, db) outcome" where
  "reprocess_inbox now i db = (case get_by ia_id i (inbox_activities db) of
     None \<Rightarrow> (Inl (Value_error ''inbox_item_not_reprocessable''), db)
   | Some a \<Rightarrow>
       if ia_processing_state a \<noteq> ''failed'' \<or> ia_last_error a \<noteq> Some ''internal_processing_error''
       then (Inl (Value_error ''inbox_item_not_reprocessable''), db)
       else (Inr i, put_intake i (\<lambda>r. (unlease_intake r)\<lparr>ia_processing_state := ''received'', ia_attempt_count := 0,
         ia_received_at := now, ia_last_error := None, ia_processed_at := None\<rparr>) db))"

definition refresh_remote_actor ::
  "fed_env \<Rightarrow> (string \<Rightarrow> fed_error option) \<Rightarrow> (string \<Rightarrow> actor_answer hop option) \<Rightarrow> string \<Rightarrow> string option \<Rightarrow> db
   \<Rightarrow> (fed_error, remote_actor, db) outcome" where
  "refresh_remote_actor env sign serve i signing_actor db = (case get_by ra_id i (remote_actors db) of
     None \<Rightarrow> (Inl (Value_error ''remote_actor_not_found''), db)
   | Some actor \<Rightarrow>
       if (case signing_actor of None \<Rightarrow> False
           | Some s \<Rightarrow> (case get_by la_id s (local_actors db) of None \<Rightarrow> True
               | Some a \<Rightarrow> \<not> la_enabled a \<or> la_current_keypair_id a = None))
       then (Inl (Value_error ''signed_fetch_actor_unavailable''), db)
       else fetch_remote_actor env (if signing_actor = None then (\<lambda>_. None) else sign) serve (ra_actor_uri actor) True db)"

record cleanup_counts =
  cc_delivered :: nat
  cc_dead :: nat
  cc_payloads :: nat
  cc_local_keys :: nat
  cc_remote_keys :: nat
  cc_summaries :: nat

definition EMPTY_PAYLOAD :: json_text where "EMPTY_PAYLOAD = Json (JObj [])"

definition cleanup_transport_metadata :: "time \<Rightarrow> int \<Rightarrow> int \<Rightarrow> int \<Rightarrow> db \<Rightarrow> cleanup_counts \<times> db" where
  "cleanup_transport_metadata now delivered_days dead_days payload_days db =
     (let delivered_before = now - days (max 30 (min delivered_days 3650));
          dead_before = now - days (max 180 (min dead_days 3650));
          payload_before = now - days (max 7 (min payload_days 3650));
          old_delivered = (\<lambda>d. dl_status d = ''delivered'' \<and>
            (case dl_delivered_at d of None \<Rightarrow> False | Some t \<Rightarrow> t < delivered_before));
          old_dead = (\<lambda>d. dl_status d \<in> {''dead'', ''cancelled''} \<and> dl_updated_at d < dead_before);
          old_payload = (\<lambda>a. ia_processing_state a \<in> {''processed'', ''ignored''} \<and> ia_received_at a < payload_before
            \<and> ia_payload_json a \<noteq> EMPTY_PAYLOAD);
          old_key = (\<lambda>k. kh_retired_at k < now - days 365);
          expired_key = (\<lambda>k. rk_expires_at k < now - days 30);
          old_summary = (\<lambda>r. sf_date_bucket r < day_of now - 90)
      in (\<lparr>cc_delivered = rowcount old_delivered (deliveries db), cc_dead = rowcount old_dead (deliveries db),
           cc_payloads = rowcount old_payload (inbox_activities db), cc_local_keys = rowcount old_key (key_histories db),
           cc_remote_keys = rowcount expired_key (remote_keys db),
           cc_summaries = rowcount old_summary (signature_failures_daily db)\<rparr>,
          db\<lparr>inbox_activities := update_where old_payload (\<lambda>a. a\<lparr>ia_payload_json := EMPTY_PAYLOAD\<rparr>) (inbox_activities db),
             deliveries := delete_where (\<lambda>d. old_delivered d \<or> old_dead d) (deliveries db),
             key_histories := delete_where old_key (key_histories db),
             remote_keys := delete_where expired_key (remote_keys db),
             signature_failures_daily := delete_where old_summary (signature_failures_daily db)\<rparr>))"

end
