(* ===== verification/Federation_Effects.thy ===== *)
theory Federation_Effects
  imports Federation_Inbox
begin

text \<open>
  What the inbox does to the other tables: each handler changes only what belongs to the
  sender, an activity is applied once over any run of claims, attempts, repeated requests,
  reprocessing and clean-ups, and a clean-up makes the deletion of old posts unknown to the
  servers that have them.
\<close>

section \<open>The queue of activities\<close>

definition inbox_held :: "inbox_activity \<Rightarrow> (string \<times> time) option" where
  "inbox_held a = (if ia_processing_state a = ''processing''
     then (case (ia_lease_owner a, ia_lease_until a) of (Some w, Some u) \<Rightarrow> Some (w, u) | _ \<Rightarrow> None) else None)"

interpretation intakes: lease_rows ia_id "\<lambda>_ a. a" inbox_due "\<lambda>a. (ia_received_at a, ia_id a)" inbox_grab
  inbox_held "seconds INBOX_LEASE_SECONDS" "\<lambda>_. True"
proof (unfold_locales, goal_cases)
  case 1
  show ?case by (simp add: INBOX_LEASE_SECONDS_def)
next
  case (3 w t r)
  show ?case by (simp add: inbox_grab_def)
next
  case (4 w t r)
  show ?case by (simp add: inbox_grab_def inbox_held_def)
next
  case (7 r t w u)
  then show ?case by (auto simp: inbox_held_def inbox_due_def split: option.splits if_splits)
qed simp_all

section \<open>What a handler may change\<close>

text \<open>
  The comments of an actor are those that name its cached row. An activity may change the
  relations with its sender and the sender's comments, and adds to five further tables:
  revisions of the sender's comments, automatic decisions about them, accepted follow requests
  and their deliveries to the sender's inbox, and audit events. All others stay as they are.
\<close>

definition comment_of :: "string \<Rightarrow> db \<Rightarrow> comment \<Rightarrow> bool" where
  "comment_of uri db c \<longleftrightarrow> (\<exists>a \<in> set (remote_actors db). ra_actor_uri a = uri \<and> co_remote_actor_id c = Some (ra_id a))"

definition frozen :: "db \<Rightarrow> db" where
  "frozen db = db\<lparr>followers := [], comments := [], comment_revisions := [], inbox_activities := [], outbox_activities := [],
     deliveries := [], moderation_decisions := [], audit_events := [], audit_log := []\<rparr>"

definition appended :: "('r \<Rightarrow> bool) \<Rightarrow> 'r list \<Rightarrow> 'r list \<Rightarrow> bool" where
  "appended P rows rows' \<longleftrightarrow> (\<exists>new. rows' = rows @ new \<and> list_all P new)"

lemma appended_refl [simp]: "appended P rows rows"
  by (simp add: appended_def)

lemma appended_add [simp]: "appended P rows (rows @ new) \<longleftrightarrow> list_all P new"
  by (simp add: appended_def)

lemma appended_trans: "\<lbrakk> appended P rows rows'; appended P rows' rows'' \<rbrakk> \<Longrightarrow> appended P rows rows''"
  by (auto simp: appended_def)

definition revises :: "string \<Rightarrow> db \<Rightarrow> comment_revision \<Rightarrow> bool" where
  "revises uri db r \<longleftrightarrow> (\<exists>c \<in> set (comments db). co_id c = cr_comment_id r \<and> comment_of uri db c)"

text \<open>The comment may be the new one, which \<open>db'\<close> has.\<close>

definition decides :: "string \<Rightarrow> db \<Rightarrow> db \<Rightarrow> moderation_decision \<Rightarrow> bool" where
  "decides uri db db' d \<longleftrightarrow> mo_decision_source d = ''automated'' \<and> mo_actor_user_id d = None \<and> mo_target_type d = ''comment''
     \<and> (\<exists>c \<in> set (comments db'). co_id c = mo_target_id d \<and> comment_of uri db c)"

definition accepts :: "db \<Rightarrow> outbox_activity \<Rightarrow> bool" where
  "accepts db a \<longleftrightarrow> oa_activity_type a = ''Accept'' \<and> \<not> oa_audience_public a
     \<and> (\<exists>l \<in> set (local_actors db). oa_actor_uri a = la_actor_uri l)"

definition answers :: "string \<Rightarrow> db \<Rightarrow> delivery \<Rightarrow> bool" where
  "answers uri db d \<longleftrightarrow> (\<exists>a \<in> set (remote_actors db). ra_actor_uri a = uri \<and> dl_target_inbox d = take 2048 (actor_inbox a))"

definition sender_only :: "string \<Rightarrow> db \<Rightarrow> db \<Rightarrow> bool" where
  "sender_only uri db db' \<longleftrightarrow>
     frozen db' = frozen db
     \<and> filter (\<lambda>f. fo_remote_actor_uri f \<noteq> uri) (followers db') = filter (\<lambda>f. fo_remote_actor_uri f \<noteq> uri) (followers db)
     \<and> filter (\<lambda>c. \<not> comment_of uri db c) (comments db') = filter (\<lambda>c. \<not> comment_of uri db c) (comments db)
     \<and> appended (revises uri db) (comment_revisions db) (comment_revisions db')
     \<and> appended (decides uri db db') (moderation_decisions db) (moderation_decisions db')
     \<and> appended (accepts db) (outbox_activities db) (outbox_activities db')
     \<and> appended (answers uri db) (deliveries db) (deliveries db')
     \<and> appended (\<lambda>_. True) (audit_events db) (audit_events db')
     \<and> appended (\<lambda>_. True) (audit_log db) (audit_log db')"

definition handled :: "string \<Rightarrow> db \<Rightarrow> db \<Rightarrow> bool" where
  "handled uri db db' \<longleftrightarrow> sender_only uri db db' \<and> inbox_activities db' = inbox_activities db"

lemma frozen_simps [simp]:
  "frozen (db\<lparr>followers := fs\<rparr>) = frozen db" "frozen (db\<lparr>comments := cs\<rparr>) = frozen db"
  "frozen (db\<lparr>comment_revisions := rs\<rparr>) = frozen db" "frozen (db\<lparr>inbox_activities := is\<rparr>) = frozen db"
  "frozen (db\<lparr>outbox_activities := os\<rparr>) = frozen db" "frozen (db\<lparr>deliveries := ds\<rparr>) = frozen db"
  "frozen (db\<lparr>moderation_decisions := ms\<rparr>) = frozen db" "frozen (db\<lparr>audit_events := es\<rparr>) = frozen db"
  "frozen (db\<lparr>audit_log := ls\<rparr>) = frozen db"
  by (simp_all add: frozen_def)

lemma frozenD:
  assumes "frozen db' = frozen db"
  shows "remote_actors db' = remote_actors db" "local_actors db' = local_actors db" "domain_rules db' = domain_rules db"
  using assms [THEN arg_cong, of remote_actors] assms [THEN arg_cong, of local_actors] assms [THEN arg_cong, of domain_rules]
  by (simp_all add: frozen_def)

lemma handled_refl [simp]: "handled uri db db"
  by (simp add: handled_def sender_only_def)

text \<open>An operation that only writes audit events.\<close>

definition quiet :: "db \<Rightarrow> db \<Rightarrow> bool" where
  "quiet db db' \<longleftrightarrow> db'\<lparr>audit_events := [], audit_log := []\<rparr> = db\<lparr>audit_events := [], audit_log := []\<rparr>
     \<and> appended (\<lambda>_. True) (audit_events db) (audit_events db') \<and> appended (\<lambda>_. True) (audit_log db) (audit_log db')"

lemma quietD:
  assumes "quiet db db'"
  shows "frozen db' = frozen db" "followers db' = followers db" "comments db' = comments db"
    "comment_revisions db' = comment_revisions db" "inbox_activities db' = inbox_activities db"
    "outbox_activities db' = outbox_activities db" "deliveries db' = deliveries db"
    "moderation_decisions db' = moderation_decisions db"
proof -
  let ?f = "\<lambda>d :: db. d\<lparr>audit_events := [], audit_log := []\<rparr>"
  have eq: "?f db' = ?f db" using assms by (simp add: quiet_def)
  show "frozen db' = frozen db" using arg_cong [OF eq, of frozen] by simp
  show "followers db' = followers db" using arg_cong [OF eq, of followers] by simp
  show "comments db' = comments db" using arg_cong [OF eq, of comments] by simp
  show "comment_revisions db' = comment_revisions db" using arg_cong [OF eq, of comment_revisions] by simp
  show "inbox_activities db' = inbox_activities db" using arg_cong [OF eq, of inbox_activities] by simp
  show "outbox_activities db' = outbox_activities db" using arg_cong [OF eq, of outbox_activities] by simp
  show "deliveries db' = deliveries db" using arg_cong [OF eq, of deliveries] by simp
  show "moderation_decisions db' = moderation_decisions db" using arg_cong [OF eq, of moderation_decisions] by simp
qed

lemma handled_quiet:
  assumes "handled uri db db'" "quiet db' db''"
  shows "handled uri db db''"
proof -
  have "decides uri db db'' = decides uri db db'" by (simp add: decides_def fun_eq_iff quietD [OF assms(2)])
  moreover have "appended (\<lambda>_. True) (audit_events db) (audit_events db'')" "appended (\<lambda>_. True) (audit_log db) (audit_log db'')"
    using assms appended_trans by (auto simp: handled_def sender_only_def quiet_def)
  ultimately show ?thesis using assms(1) by (simp add: handled_def sender_only_def quietD [OF assms(2)])
qed

lemma quiet_audit [simp]: "quiet db (audit cfg now et oc ai ti dt db)"
  "quiet db (write_audit_event cfg now et oc ip ai an ti ua detail ses db)"
  by (simp_all add: quiet_def audit_def write_audit_event_def add_row_def Let_def)

text \<open>An accepted follow request, sent to the inbox of the sender.\<close>

lemma chosen_inboxes_subset: "set (map fst (chosen_inboxes env db seen rs)) \<subseteq> set (map fst rs)"
  by (induction env db seen rs rule: chosen_inboxes.induct) (auto split: option.splits)

lemma handled_accept:
  assumes "handled uri db db'" "remote \<in> set (remote_actors db)" "ra_actor_uri remote = uri" "loc \<in> set (local_actors db)"
  shows "handled uri db (snd (queue_follow_accept env loc remote i False db'))"
proof -
  let ?rs = "[(actor_inbox remote, ra_domain remote)]"
  define db'' where "db'' = snd (queue_follow_accept env loc remote i False db')"
  consider "db'' = db'"
    | a ds where "accepts db a" "list_all (answers uri db) ds"
        "db'' = db'\<lparr>outbox_activities := outbox_activities db' @ [a], deliveries := deliveries db' @ ds\<rparr>"
  proof (cases "db'' = db'")
    case False
    then obtain obj st si rv u where db'': "db'' = add_deliveries env (oa_id (new_activity env loc ''Accept'' obj st si rv False u)) []
        (take 1000 ?rs) (db'\<lparr>outbox_activities := add_row (new_activity env loc ''Accept'' obj st si rv False u) (outbox_activities db')\<rparr>)"
      using enqueue_activity_cases [of env loc "''Accept''" _ _ _ _ ?rs False db']
      unfolding db''_def queue_follow_accept_def Let_def by simp metis
    let ?a = "new_activity env loc ''Accept'' obj st si rv False u"
    let ?cs = "chosen_inboxes env (db'\<lparr>outbox_activities := add_row ?a (outbox_activities db')\<rparr>) [] (take 1000 ?rs)"
    have "fst p = actor_inbox remote" if "p \<in> set ?cs" for p
    proof -
      have "fst p \<in> set (map fst ?cs)" using that by simp
      then show ?thesis
        using chosen_inboxes_subset [of env "db'\<lparr>outbox_activities := add_row ?a (outbox_activities db')\<rparr>" "[]" "take 1000 ?rs"] by auto
    qed
    then have "list_all (answers uri db) (map (\<lambda>(inbox, name). new_delivery env (oa_id ?a) inbox name) ?cs)"
      using assms(2,3) by (auto simp: list_all_iff answers_def new_delivery_def case_prod_beta)
    moreover have "accepts db ?a" using assms(4) by (auto simp: accepts_def new_activity_def)
    ultimately show ?thesis using db'' by (intro that(2)) (simp_all add: add_deliveries_eq add_row_def)
  qed
  then have "handled uri db db''"
  proof cases
    case (2 a ds)
    have "appended (accepts db) (outbox_activities db) (outbox_activities db'')"
      using assms(1) 2 by (auto simp: handled_def sender_only_def appended_def)
    moreover have "appended (answers uri db) (deliveries db) (deliveries db'')"
      using assms(1) 2 by (auto simp: handled_def sender_only_def appended_def)
    moreover have "decides uri db db'' = decides uri db db'" by (simp add: fun_eq_iff decides_def 2(3))
    ultimately show ?thesis using assms(1) by (simp add: handled_def sender_only_def 2(3))
  qed (use assms(1) in simp)
  then show ?thesis by (simp add: db''_def)
qed

text \<open>An automatic decision about a comment of the sender.\<close>

lemma new_decision_cases:
  obtains (refused) "snd (new_decision cenv q db) = db"
  | (recorded) d where "mo_decision_source d = dq_source q" "mo_actor_user_id d = dq_actor q"
      "mo_target_type d = dq_target_type q" "mo_target_id d = dq_target_id q"
      "snd (new_decision cenv q db) = db\<lparr>moderation_decisions := moderation_decisions db @ [d]\<rparr>"
proof -
  let ?d = "\<lparr>mo_id = ce_decision_id cenv, mo_target_type = dq_target_type q, mo_target_id = dq_target_id q,
    mo_actor_user_id = dq_actor q, mo_outcome = dq_outcome q, mo_reason_code = dq_reason q,
    mo_human_reason = dq_human_reason q, mo_rule_reference = or_none (strip (or_empty (dq_rule_reference q))),
    mo_restriction_type = dq_restriction q, mo_decision_source = dq_source q,
    mo_created_at = ce_now cenv, mo_supersedes_decision_id = dq_supersedes q\<rparr>"
  have "snd (new_decision cenv q db) = db
      \<or> snd (new_decision cenv q db) = db\<lparr>moderation_decisions := moderation_decisions db @ [?d]\<rparr>"
    unfolding new_decision_def Let_def add_row_def by (simp only: if_distrib [of snd] snd_conv) (simp split: if_split)
  then show ?thesis
  proof
    assume "snd (new_decision cenv q db) = db\<lparr>moderation_decisions := moderation_decisions db @ [?d]\<rparr>"
    then show ?thesis by (rule recorded [rotated 4]) simp_all
  qed (rule refused)
qed

lemma handled_decision:
  assumes "handled uri db db'" "c \<in> set (comments db')" "comment_of uri db c"
  shows "handled uri db (snd (record_automatic_decision cenv (co_id c) oc reason db'))"
proof -
  define db'' where "db'' = snd (record_automatic_decision cenv (co_id c) oc reason db')"
  consider "db'' = db'"
    | d where "mo_decision_source d = ''automated''" "mo_actor_user_id d = None" "mo_target_type d = ''comment''"
        "mo_target_id d = co_id c" "db'' = db'\<lparr>moderation_decisions := moderation_decisions db' @ [d]\<rparr>"
  proof (cases "map_of REASON_CATALOG reason = None")
    case True
    then show ?thesis by (intro that(1)) (simp add: db''_def record_automatic_decision_def)
  next
    case False
    then have eq: "db'' = snd (new_decision cenv \<lparr>dq_target_type = ''comment'', dq_target_id = co_id c, dq_actor = None,
        dq_outcome = oc, dq_reason = reason, dq_human_reason = None, dq_rule_reference = None,
        dq_restriction = (if oc = ''spam'' then ''marked_spam'' else ''none''), dq_source = ''automated'',
        dq_supersedes = None\<rparr> db')" (is "_ = snd (new_decision _ ?q _)")
      by (simp only: db''_def record_automatic_decision_def if_False)
    show ?thesis
    proof (cases rule: new_decision_cases [of cenv ?q db'])
      case refused
      then show ?thesis using eq that(1) by simp
    next
      case (recorded d)
      then show ?thesis using eq by (intro that(2) [of d]) simp_all
    qed
  qed
  then have "handled uri db db''"
  proof cases
    case (2 d)
    have "decides uri db db'' = decides uri db db'" by (simp add: fun_eq_iff decides_def 2(5))
    moreover have "decides uri db db' d" using 2(1-4) assms(2,3) by (auto simp: decides_def)
    then have "appended (decides uri db db') (moderation_decisions db) (moderation_decisions db'')"
      using assms(1) 2(5) by (auto simp: handled_def sender_only_def appended_def)
    ultimately show ?thesis using assms(1) by (simp add: handled_def sender_only_def 2(5))
  qed (use assms(1) in simp)
  then show ?thesis by (simp add: db''_def)
qed

lemma filter_update_where:
  "(\<And>r. \<lbrakk> r \<in> set rs; P r \<rbrakk> \<Longrightarrow> \<not> Q r \<and> \<not> Q (f r)) \<Longrightarrow> filter Q (update_where P f rs) = filter Q rs"
  by (induction rs) (auto simp: update_where_def)

lemma one_or_none_SomeD: "one_or_none rows = Inr (Some r) \<Longrightarrow> r \<in> set rows"
  by (auto simp: one_or_none_def split: list.splits)

lemma touch_follower_keeps: "(\<And>r. fo_remote_actor_uri (f r) = fo_remote_actor_uri r)
  \<Longrightarrow> fo_remote_actor_uri (touch_follower now f r) = fo_remote_actor_uri r"
  by (simp add: touch_follower_def)

lemma handled_put_follower:
  assumes "unique_key fo_id (followers db)" "g \<in> set (followers db)" "fo_remote_actor_uri g = uri"
    "\<And>r. fo_remote_actor_uri (f r) = fo_remote_actor_uri r"
  shows "handled uri db (put_follower now (fo_id g) f db)"
proof -
  have "fo_remote_actor_uri r = uri" if "r \<in> set (followers db)" "fo_id r = fo_id g" for r
    using unique_keyD [OF assms(1) that(1) assms(2) that(2)] assms(3) by simp
  then have "filter (\<lambda>f. fo_remote_actor_uri f \<noteq> uri)
      (update_where (\<lambda>r. fo_id r = fo_id g) (touch_follower now f) (followers db))
    = filter (\<lambda>f. fo_remote_actor_uri f \<noteq> uri) (followers db)"
    using assms(4) by (intro filter_update_where) (simp add: touch_follower_keeps)
  then show ?thesis by (simp add: handled_def sender_only_def put_follower_def)
qed

lemma handled_put_comment:
  assumes "unique_key co_id (comments db)" "c \<in> set (comments db)" "comment_of uri db c"
    "\<And>r. co_remote_actor_id (f r) = co_remote_actor_id r"
  shows "handled uri db (put_comment (co_id c) f db)"
proof -
  have "r = c" if "r \<in> set (comments db)" "co_id r = co_id c" for r
    using unique_keyD [OF assms(1) that(1) assms(2) that(2)] .
  then have "filter (\<lambda>c. \<not> comment_of uri db c) (update_where (\<lambda>r. co_id r = co_id c) f (comments db))
    = filter (\<lambda>c. \<not> comment_of uri db c) (comments db)"
    using assms(3,4) by (intro filter_update_where) (auto simp: comment_of_def)
  then show ?thesis by (simp add: handled_def sender_only_def put_comment_def)
qed

text \<open>The handlers, one by one. \<open>keyed\<close> are the primary keys they rely on.\<close>

definition keyed :: "db \<Rightarrow> bool" where
  "keyed db \<longleftrightarrow> unique_key fo_id (followers db) \<and> unique_key co_id (comments db)"

definition cached_actor :: "db \<Rightarrow> remote_actor \<Rightarrow> bool" where
  "cached_actor db a \<longleftrightarrow> a \<in> set (remote_actors db)"

lemma ib_audit_handled: "handled uri db db' \<Longrightarrow> handled uri db (ib_audit env ev actor target detail db')"
  by (simp add: ib_audit_def handled_quiet)

lemma handled_put_inbound:
  assumes "keyed db" "\<forall>f. relation = Some f \<longrightarrow> f \<in> set (followers db) \<and> fo_remote_actor_uri f = ra_actor_uri remote"
  shows "handled (ra_actor_uri remote) db (put_inbound env intake remote user_id state relation db)"
proof (cases relation)
  case None
  then show ?thesis
    by (simp add: put_inbound_def handled_def sender_only_def add_row_def)
next
  case (Some f)
  then show ?thesis
    using assms by (auto simp: put_inbound_def keyed_def intro!: handled_put_follower)
qed

lemma inbound_relation_found:
  "one_or_none (inbound_relations u uri db) = Inr relation
   \<Longrightarrow> \<forall>f. relation = Some f \<longrightarrow> f \<in> set (followers db) \<and> fo_remote_actor_uri f = uri"
  by (auto dest!: one_or_none_SomeD simp: inbound_relations_def)

lemma handled_outcome:
  assumes "handled uri db (snd r)" "\<And>a d. handled uri db d \<Longrightarrow> handled uri db (snd (f a d))"
  shows "handled uri db (snd (and_then r f))"
  using assms by (cases r) (auto simp: and_then_def split: sum.split)

lemma snd_ignore_result [simp]: "snd (ignore_result r) = snd r"
  by (simp add: ignore_result_def and_then_def split: prod.split sum.split)

lemma target_actor_local: "target_actor_of intake j db = Inr loc \<Longrightarrow> loc \<in> set (local_actors db)"
  by (auto simp: target_actor_of_def Let_def dest: get_by_SomeD first_where_SomeD split: option.splits if_splits)

lemma handle_follow_handled:
  assumes "keyed db" "cached_actor db remote"
  shows "handled (ra_actor_uri remote) db (snd (handle_follow env intake payload remote db))"
proof -
  have put: "handled (ra_actor_uri remote) db (put_inbound env intake remote u state relation db)"
    if "one_or_none (inbound_relations u (ra_actor_uri remote) db) = Inr relation" for state u relation
    using handled_put_inbound [OF assms(1) inbound_relation_found [OF that]] .
  have accepted: "handled (ra_actor_uri remote) db (snd (and_then
      (ignore_result (queue_follow_accept fenv loc remote i False (put_inbound env intake remote u state relation db)))
      (\<lambda>_ db2. (Inr (), ib_audit env ev None t det db2))))"
    if "one_or_none (inbound_relations u (ra_actor_uri remote) db) = Inr relation" "loc \<in> set (local_actors db)"
    for state u relation fenv loc i ev t det
    using handled_accept [OF put [OF that(1)] _ refl that(2)] assms(2)
    by (intro handled_outcome) (simp_all add: ib_audit_handled cached_actor_def)
  show ?thesis
    unfolding handle_follow_def Let_def
    by (auto simp: put ib_audit_handled split: option.split sum.split dest: target_actor_local intro!: accepted)
qed

lemma handle_follow_response_handled:
  assumes "keyed db"
  shows "handled (ra_actor_uri remote) db (snd (handle_follow_response env intake payload remote db))"
  using assms unfolding handle_follow_response_def Let_def
  by (auto simp: keyed_def split: option.split sum.split dest!: one_or_none_SomeD intro!: handled_put_follower)

lemma handle_undo_handled:
  assumes "keyed db"
  shows "handled (ra_actor_uri remote) db (snd (handle_undo env intake payload remote db))"
  using assms unfolding handle_undo_def Let_def
  by (auto simp: keyed_def inbound_relations_def split: option.split sum.split
      dest!: one_or_none_SomeD intro!: handled_put_follower)

lemma owned_commentD: "\<lbrakk> owned_comment env uri remote db = Some c; cached_actor db remote \<rbrakk>
   \<Longrightarrow> c \<in> set (comments db) \<and> comment_of (ra_actor_uri remote) db c"
  by (auto simp: owned_comment_def comment_by_uri_def comment_of_def cached_actor_def
      dest!: first_where_SomeD split: option.splits if_splits)

lemma handle_delete_handled:
  assumes "keyed db" "cached_actor db remote"
  shows "handled (ra_actor_uri remote) db (snd (handle_delete env intake payload remote db))"
  using assms unfolding handle_delete_def Let_def
  by (auto simp: keyed_def split: option.split dest!: owned_commentD
      intro!: ib_audit_handled handled_put_comment)

lemma snd_or_rejected [simp]: "snd (or_rejected m r) = snd r"
  by (auto simp: or_rejected_def split: prod.split sum.split comment_error.split fed_error.split)

lemma remote_revision_handled:
  assumes "c \<in> set (comments db)" "comment_of uri db c"
  shows "handled uri db (snd (create_remote_comment_revision cenv c i body policy db))"
proof -
  have "handled uri db (db\<lparr>comment_revisions := add_row (new_revision cenv c None body False False db) (comment_revisions db)\<rparr>)"
    using assms by (auto simp: handled_def sender_only_def add_row_def revises_def new_revision_def decides_def)
  from handled_quiet [OF this quiet_audit(1)] show ?thesis
    by (simp add: create_remote_comment_revision_def Let_def)
qed

lemma handle_update_handled:
  assumes "cached_actor db remote"
  shows "handled (ra_actor_uri remote) db (snd (handle_update env intake payload remote db))"
  using assms unfolding handle_update_def Let_def
  by (auto split: option.split sum.split dest!: owned_commentD intro!: remote_revision_handled)

lemma remote_comment_handled:
  assumes "cached_actor db remote"
  shows "handled (ra_actor_uri remote) db (snd (create_comment cenv p policy (remote_request remote uri i body parent) db))"
proof -
  define q where "q = remote_request remote uri i body parent"
  have q: "rq_author_user q = None" "rq_remote_actor q = Some remote" by (simp_all add: q_def remote_request_def)
  let ?db1 = "db\<lparr>comments := add_row (new_comment cenv p policy q db) (comments db)\<rparr>"
  have "comment_of (ra_actor_uri remote) db (new_comment cenv p policy q db)"
    using assms q by (auto simp: comment_of_def cached_actor_def new_comment_def Let_def)
  then have added: "handled (ra_actor_uri remote) db ?db1"
    by (simp add: handled_def sender_only_def add_row_def)
  have new: "comment_of (ra_actor_uri remote) db (new_comment cenv p policy q db)"
    using assms q by (auto simp: comment_of_def cached_actor_def new_comment_def Let_def)
  have dec: "handled (ra_actor_uri remote) db (snd (record_automatic_decision cenv (co_id (new_comment cenv p policy q db)) oc r ?db1))" for oc r
    using handled_decision [OF added _ new] by (simp add: add_row_def)
  have audits: "handled (ra_actor_uri remote) db (write_audit_event cfg now et oc ip ai an ti ua detail ses d)"
      "handled (ra_actor_uri remote) db (audit cfg now et oc ai ti dt d)"
    if "handled (ra_actor_uri remote) db d" for cfg now et oc ip ai an ti ua detail ses d dt
    using that by (auto intro: handled_quiet)
  have "handled (ra_actor_uri remote) db (snd (create_comment cenv p policy q db))"
    using added unfolding create_comment_def Let_def
    by (auto simp: q dec audits split: option.split intro!: handled_outcome)
  then show ?thesis by (simp add: q_def)
qed

lemma handle_create_handled:
  assumes "cached_actor db remote"
  shows "handled (ra_actor_uri remote) db (snd (handle_create env intake payload remote db))"
  using remote_comment_handled [OF assms]
  unfolding handle_create_def create_remote_comment_def
  by (simp split: option.split sum.split)

lemma handler_handled:
  assumes "keyed db" "cached_actor db remote" "handler_of env kind = Some handle"
  shows "handled (ra_actor_uri remote) db (snd (handle intake payload remote db))"
  using assms
  by (auto simp: handler_of_def handle_follow_handled handle_follow_response_handled handle_undo_handled
      handle_create_handled handle_update_handled handle_delete_handled split: if_splits)

text \<open>No handler writes the inbox, whatever the keys.\<close>

lemma enqueue_inbox [simp]:
  "inbox_activities (snd (enqueue_activity env actor kind obj st si rv rs public db)) = inbox_activities db"
  using enqueue_activity_cases [of env actor kind obj st si rv rs public db] by (auto simp: add_deliveries_eq Let_def)

lemma put_inbox [simp]:
  "inbox_activities (put_follower now i f db) = inbox_activities db"
  "inbox_activities (put_comment j g db) = inbox_activities db"
  "inbox_activities (put_inbound env intake remote u state relation db) = inbox_activities db"
  "inbox_activities (ib_audit env ev actor target detail db) = inbox_activities db"
  by (simp_all add: put_follower_def put_comment_def put_inbound_def ib_audit_def split: option.split)

lemma and_then_inbox:
  "\<lbrakk> inbox_activities (snd r) = rows; \<And>a d. inbox_activities d = rows \<Longrightarrow> inbox_activities (snd (f a d)) = rows \<rbrakk>
   \<Longrightarrow> inbox_activities (snd (and_then r f)) = rows"
  by (auto simp: and_then_def split: prod.split sum.split)

lemma decision_inbox [simp]:
  "inbox_activities (snd (record_automatic_decision cenv target oc reason db)) = inbox_activities db"
  by (simp add: record_automatic_decision_def new_decision_def Let_def)

lemma create_remote_inbox:
  assumes "rq_author_user q = None"
  shows "inbox_activities (snd (create_comment cenv p policy q db)) = inbox_activities db"
  unfolding create_comment_def Let_def
  by (auto simp: assms split: option.split intro!: and_then_inbox)

lemma revision_inbox [simp]:
  "inbox_activities (snd (create_remote_comment_revision cenv c i body policy db)) = inbox_activities db"
  by (simp add: create_remote_comment_revision_def Let_def)

lemma handler_inbox:
  assumes "handler_of env kind = Some handle"
  shows "inbox_activities (snd (handle intake payload remote db)) = inbox_activities db"
proof -
  have "inbox_activities (snd (handle_follow env intake payload remote db)) = inbox_activities db"
    unfolding handle_follow_def Let_def
    by (auto simp: queue_follow_accept_def split: option.split sum.split intro!: and_then_inbox)
  moreover have "inbox_activities (snd (handle_follow_response env intake payload remote db)) = inbox_activities db"
    by (auto simp: handle_follow_response_def Let_def split: option.split sum.split)
  moreover have "inbox_activities (snd (handle_undo env intake payload remote db)) = inbox_activities db"
    by (auto simp: handle_undo_def split: option.split sum.split)
  moreover have "inbox_activities (snd (handle_create env intake payload remote db)) = inbox_activities db"
    by (auto simp: handle_create_def create_remote_comment_def create_remote_inbox remote_request_def
        split: option.split sum.split)
  moreover have "inbox_activities (snd (handle_update env intake payload remote db)) = inbox_activities db"
    by (auto simp: handle_update_def split: option.split sum.split)
  moreover have "inbox_activities (snd (handle_delete env intake payload remote db)) = inbox_activities db"
    by (auto simp: handle_delete_def Let_def split: option.split)
  ultimately show ?thesis using assms by (auto simp: handler_of_def split: if_splits)
qed

text \<open>Everything but the inbox itself and the audit file.\<close>

definition other_tables :: "db \<Rightarrow> db" where
  "other_tables db = db\<lparr>inbox_activities := [], audit_log := []\<rparr>"

lemma other_tables_simps [simp]:
  "other_tables (db\<lparr>inbox_activities := rows\<rparr>) = other_tables db"
  "other_tables (rolled_back db db') = other_tables db"
  "other_tables (put_intake i f db) = other_tables db"
  by (simp_all add: other_tables_def rolled_back_def put_intake_def)

lemma rolled_back_inbox [simp]: "inbox_activities (rolled_back db db') = inbox_activities db"
  by (simp add: rolled_back_def)

text \<open>An activity is applied by its handler, or leaves no trace.\<close>

lemma apply_intake_cases:
  obtains (applied) handle payload actor where "handler_of env (ia_activity_type intake) = Some handle"
      "get_by ra_actor_uri (ia_actor_uri intake) (remote_actors db) = Some actor"
      "apply_intake env intake db = (Inr ''processed'', snd (handle intake payload actor db))"
  | (no_trace) r db1 where "apply_intake env intake db = (r, db1)" "r \<noteq> Inr ''processed''"
      "\<forall>state. r = Inr state \<longrightarrow> state = ''ignored''"
      "other_tables db1 = other_tables db" "inbox_activities db1 = inbox_activities db"
      "db1 = db \<or> (\<exists>handle payload actor. handler_of env (ia_activity_type intake) = Some handle
        \<and> get_by ra_actor_uri (ia_actor_uri intake) (remote_actors db) = Some actor
        \<and> db1 = rolled_back db (snd (handle intake payload actor db)))"
proof -
  have savepoint: "(\<exists>e. and_then (in_savepoint db x) (\<lambda>_ db1. (Inr ''processed'', db1)) = (Inl e, rolled_back db (snd x)))
     \<or> and_then (in_savepoint db x) (\<lambda>_ db1. (Inr ''processed'', db1)) = (Inr ''processed'', snd x)"
    for x :: "(fed_error, unit, db) outcome"
    by (cases x; cases "fst x") (auto simp: in_savepoint_def)
  show ?thesis
  proof (cases "\<exists>e. apply_intake env intake db = (Inl e, db) \<or> apply_intake env intake db = (Inr ''ignored'', db)")
    case True
    then show ?thesis by (elim exE disjE) (erule no_trace; simp)+
  next
    case False
    then obtain payload actor handle where h: "handler_of env (ia_activity_type intake) = Some handle"
        "get_by ra_actor_uri (ia_actor_uri intake) (remote_actors db) = Some actor"
        "apply_intake env intake db = and_then (in_savepoint db (handle intake payload actor db)) (\<lambda>_ db1. (Inr ''processed'', db1))"
      unfolding apply_intake_def Let_def
      by (simp split: json_text.split_asm option.split_asm if_split_asm)
    show ?thesis using savepoint [of "handle intake payload actor db"]
    proof (elim disjE exE)
      fix e assume "and_then (in_savepoint db (handle intake payload actor db)) (\<lambda>_ db1. (Inr ''processed'', db1))
        = (Inl e, rolled_back db (snd (handle intake payload actor db)))"
      then show ?thesis using h by (intro no_trace [of "Inl e" "rolled_back db (snd (handle intake payload actor db))"]) auto
    next
      assume "and_then (in_savepoint db (handle intake payload actor db)) (\<lambda>_ db1. (Inr ''processed'', db1))
        = (Inr ''processed'', snd (handle intake payload actor db))"
      then show ?thesis using h by (intro applied) simp_all
    qed
  qed
qed

lemma apply_intake_inbox: "inbox_activities (snd (apply_intake env intake db)) = inbox_activities db"
  by (rule apply_intake_cases [of env intake db]) (simp_all add: handler_inbox)

lemma apply_intake_undone:
  assumes "fst (apply_intake env intake db) \<noteq> Inr ''processed''"
  shows "other_tables (snd (apply_intake env intake db)) = other_tables db"
  using assms by (cases rule: apply_intake_cases [of env intake db]) simp_all

lemma apply_intake_states: "fst (apply_intake env intake db) = Inr state \<Longrightarrow> state \<in> {''processed'', ''ignored''}"
  by (cases rule: apply_intake_cases [of env intake db]) simp_all

lemma handled_rolled_back: "handled uri db d \<Longrightarrow> handled uri db (rolled_back db d)"
  by (simp add: handled_def sender_only_def rolled_back_def)

lemma apply_intake_sender:
  assumes "keyed db"
  shows "sender_only (ia_actor_uri intake) db (snd (apply_intake env intake db))"
proof -
  have handler: "handled (ia_actor_uri intake) db (snd (handle intake payload actor db))"
    if "handler_of env (ia_activity_type intake) = Some handle"
      "get_by ra_actor_uri (ia_actor_uri intake) (remote_actors db) = Some actor" for handle payload actor
    using handler_handled [OF assms _ that(1), of actor intake payload] get_by_SomeD [OF that(2)]
    by (simp add: cached_actor_def)
  show ?thesis
  proof (cases rule: apply_intake_cases [of env intake db])
    case (applied handle payload actor)
    then show ?thesis using handler [OF applied(1,2)] by (simp add: handled_def)
  next
    case (no_trace r db1)
    then have "handled (ia_actor_uri intake) db db1" using handler handled_rolled_back by auto
    then show ?thesis using no_trace(1) by (simp add: handled_def)
  qed
qed

section \<open>Runs of the inbox\<close>

text \<open>
  What happens to the inbox over time, in any order: workers claim and process, requests
  store activities, operators reprocess failed ones and clean up.
\<close>

datatype inbox_step =
    Claims string time
  | Processes inbox_env string string
  | Stores inbox_activity
  | Reprocesses time string
  | Cleans time int int int

text \<open>A row whose identifier exists cannot be stored; the transaction is rolled back.\<close>

fun inbox_after :: "inbox_step \<Rightarrow> db \<Rightarrow> db" where
  "inbox_after (Claims worker now) db = snd (claim_inbox worker now db)"
| "inbox_after (Processes env worker i) db = snd (process_claimed env worker i db)"
| "inbox_after (Stores row) db = (if exists_where (\<lambda>a. ia_id a = ia_id row) (inbox_activities db) then db
     else snd (store_intake row db db))"
| "inbox_after (Reprocesses now i) db = snd (reprocess_inbox now i db)"
| "inbox_after (Cleans now n m k) db = snd (cleanup_transport_metadata now n m k db)"

fun inbox_trace :: "inbox_step list \<Rightarrow> db \<Rightarrow> (db \<times> inbox_step \<times> db) list" where
  "inbox_trace [] db = []"
| "inbox_trace (s # steps) db = (db, s, inbox_after s db) # inbox_trace steps (inbox_after s db)"

text \<open>A step that processes an activity with the identifier \<open>uri\<close> and changes more than the inbox.\<close>

fun takes_effect :: "string \<Rightarrow> db \<times> inbox_step \<times> db \<Rightarrow> bool" where
  "takes_effect uri (before, Processes env worker i, after) \<longleftrightarrow>
     map_option ia_activity_uri (get_by ia_id i (inbox_activities before)) = Some uri
     \<and> other_tables after \<noteq> other_tables before"
| "takes_effect uri (before, _, after) \<longleftrightarrow> False"

definition inbox_keys :: "db \<Rightarrow> bool" where
  "inbox_keys db \<longleftrightarrow> unique_key ia_id (inbox_activities db) \<and> unique_key ia_activity_uri (inbox_activities db)"

definition terminal :: "inbox_activity \<Rightarrow> bool" where
  "terminal a \<longleftrightarrow> ia_processing_state a \<in> {''processed'', ''ignored'', ''rejected''}"

definition settled :: "string \<Rightarrow> db \<Rightarrow> bool" where
  "settled uri db \<longleftrightarrow> (\<exists>a \<in> set (inbox_activities db). ia_activity_uri a = uri \<and> terminal a)"

lemma settled_update:
  assumes "settled uri db" "\<And>a. ia_activity_uri (f a) = ia_activity_uri a"
    "\<And>a. \<lbrakk> a \<in> set (inbox_activities db); P a; terminal a \<rbrakk> \<Longrightarrow> terminal (f a)"
    "inbox_activities db' = update_where P f (inbox_activities db)"
  shows "settled uri db'"
proof -
  obtain a where a: "a \<in> set (inbox_activities db)" "ia_activity_uri a = uri" "terminal a"
    using assms(1) by (auto simp: settled_def)
  have "(if P a then f a else a) \<in> set (inbox_activities db')"
    unfolding assms(4) set_update_where using a(1) by (rule imageI)
  moreover have "ia_activity_uri (if P a then f a else a) = uri" "terminal (if P a then f a else a)"
    using a assms(2,3) by simp_all
  ultimately show ?thesis unfolding settled_def by blast
qed

lemma keys_update:
  assumes "inbox_keys db" "\<And>a. ia_activity_uri (f a) = ia_activity_uri a" "\<And>a. ia_id (f a) = ia_id a"
    "inbox_activities db' = update_where P f (inbox_activities db)"
  shows "inbox_keys db'"
  using assms by (simp add: inbox_keys_def unique_key_update_where)

lemma terminal_not_due: "terminal a \<Longrightarrow> \<not> inbox_due now a"
  by (auto simp: inbox_due_def terminal_def)

lemma claim_inbox_update:
  "\<exists>P. (\<forall>a. P a \<longrightarrow> inbox_due now a) \<and> inbox_activities (snd (claim_inbox worker now db))
     = update_where P (inbox_grab worker now) (inbox_activities db)"
proof (cases "min_by (\<lambda>a. (ia_received_at a, ia_id a)) (filter (inbox_due now) (inbox_activities db))")
  case None
  then show ?thesis
    by (intro exI [of _ "\<lambda>_. False"]) (simp add: claim_inbox_def lease_claim_def update_where_def)
next
  case (Some c)
  then show ?thesis
    by (intro exI [of _ "\<lambda>r. ia_id r = ia_id c \<and> inbox_due now r"]) (simp add: claim_inbox_def lease_claim_def Let_def)
qed

lemma process_claimed_cases:
  obtains (unavailable) "process_claimed env worker i db = (''unavailable'', db)"
  | (run) intake r db1 where "get_by ia_id i (inbox_activities db) = Some intake" "ia_processing_state intake = ''processing''"
      "apply_intake env intake db = (r, db1)"
      "process_claimed env worker i db = (ia_processing_state (after_result (ib_now env) r intake),
         put_intake i (\<lambda>a. unlease_intake (after_result (ib_now env) r a)) db1)"
proof (cases "get_by ia_id i (inbox_activities db)")
  case None
  then show ?thesis using unavailable by (simp add: process_claimed_def)
next
  case (Some a)
  show ?thesis
  proof (cases "ia_processing_state a \<noteq> ''processing'' \<or> ia_lease_owner a \<noteq> Some worker")
    case True
    then show ?thesis using Some unavailable by (simp add: process_claimed_def)
  next
    case False
    obtain r db1 where r: "apply_intake env a db = (r, db1)" by force
    have "process_claimed env worker i db = (ia_processing_state (after_result (ib_now env) r a),
        put_intake i (\<lambda>a. unlease_intake (after_result (ib_now env) r a)) db1)"
      using Some False r by (simp add: process_claimed_def unlease_intake_def Let_def)
    then show ?thesis using Some False r by (intro run) simp_all
  qed
qed

lemma after_result_keeps [simp]:
  "ia_id (after_result now r a) = ia_id a" "ia_activity_uri (after_result now r a) = ia_activity_uri a"
  by (auto simp: after_result_def settle_intake_def put_off_intake_def Let_def split: sum.split fed_error.split)

lemma unlease_keeps [simp]:
  "ia_id (unlease_intake a) = ia_id a" "ia_activity_uri (unlease_intake a) = ia_activity_uri a"
  "ia_processing_state (unlease_intake a) = ia_processing_state a"
  by (simp_all add: unlease_intake_def)

lemma grab_keeps [simp]:
  "ia_id (inbox_grab worker now a) = ia_id a" "ia_activity_uri (inbox_grab worker now a) = ia_activity_uri a"
  by (simp_all add: inbox_grab_def)

lemma applied_inbox: "apply_intake env intake db = (r, db1) \<Longrightarrow> inbox_activities db1 = inbox_activities db"
  using apply_intake_inbox [of env intake db] by (simp del: apply_intake_inbox)

text \<open>An activity that processing works on is not settled.\<close>

lemma working_not_terminal:
  assumes "inbox_keys db" "get_by ia_id i (inbox_activities db) = Some x" "\<not> terminal x"
    "a \<in> set (inbox_activities db)" "ia_id a = i"
  shows "\<not> terminal a"
proof -
  have "a = x" using assms get_by_SomeD [OF assms(2)] unique_keyD [of ia_id "inbox_activities db" a x]
    by (simp add: inbox_keys_def)
  then show ?thesis using assms(3) by simp
qed

lemma settled_process:
  assumes "inbox_keys db" "settled uri db"
  shows "settled uri (snd (process_claimed env worker j db))"
proof (cases rule: process_claimed_cases [of env worker j db])
  case unavailable
  then show ?thesis using assms by simp
next
  case (run x r db1)
  have "\<not> terminal x" using run(2) by (simp add: terminal_def)
  note not_terminal = working_not_terminal [OF assms(1) run(1) this]
  show ?thesis
    by (rule settled_update [OF assms(2), where P = "\<lambda>a. ia_id a = j" and f = "\<lambda>a. unlease_intake (after_result (ib_now env) r a)"])
      (use not_terminal in \<open>auto simp: run(4) put_intake_def applied_inbox [OF run(3)]\<close>)
qed

lemma reprocess_cases:
  "snd (reprocess_inbox now j db) = db
   \<or> (\<exists>x f. get_by ia_id j (inbox_activities db) = Some x \<and> \<not> terminal x
        \<and> (\<forall>a. ia_id (f a) = ia_id a \<and> ia_activity_uri (f a) = ia_activity_uri a)
        \<and> snd (reprocess_inbox now j db) = put_intake j f db)"
proof (cases "get_by ia_id j (inbox_activities db)")
  case (Some x)
  show ?thesis
  proof (cases "ia_processing_state x = ''failed'' \<and> ia_last_error x = Some ''internal_processing_error''")
    case True
    then show ?thesis
      using Some by (intro disjI2 exI [of _ x] exI [of _ "\<lambda>r. (unlease_intake r)\<lparr>ia_processing_state := ''received'',
          ia_attempt_count := 0, ia_received_at := now, ia_last_error := None, ia_processed_at := None\<rparr>"])
        (simp add: reprocess_inbox_def terminal_def)
  next
    case False
    then show ?thesis using Some by (auto simp: reprocess_inbox_def)
  qed
qed (simp add: reprocess_inbox_def)

lemma cleanup_update:
  "\<exists>P. inbox_activities (snd (cleanup_transport_metadata now n m k db))
     = update_where P (\<lambda>a. a\<lparr>ia_payload_json := EMPTY_PAYLOAD\<rparr>) (inbox_activities db)"
  by (auto simp: cleanup_transport_metadata_def Let_def)

lemma store_cases:
  "inbox_activities (inbox_after (Stores row) db) = inbox_activities db
   \<or> inbox_activities (inbox_after (Stores row) db) = add_row row (inbox_activities db)
      \<and> ia_id row \<notin> ia_id ` set (inbox_activities db) \<and> ia_activity_uri row \<notin> ia_activity_uri ` set (inbox_activities db)"
  by (auto simp: store_intake_def seen_before_def get_by_None exists_where_iff split: option.splits if_splits)

lemma settled_step:
  assumes "inbox_keys db" "settled uri db"
  shows "settled uri (inbox_after s db)"
proof (cases s)
  case (Claims worker now)
  obtain P where P: "\<forall>a. P a \<longrightarrow> inbox_due now a" "inbox_activities (snd (claim_inbox worker now db))
     = update_where P (inbox_grab worker now) (inbox_activities db)"
    using claim_inbox_update by blast
  then show ?thesis
    using Claims terminal_not_due by (auto intro!: settled_update [OF assms(2) _ _ P(2)])
next
  case (Stores row)
  then show ?thesis
    using store_cases [of row db] assms(2) by (auto simp: settled_def set_add_row)
next
  case (Reprocesses now j)
  show ?thesis using reprocess_cases [of now j db]
  proof (elim disjE exE conjE)
    fix x f assume f: "get_by ia_id j (inbox_activities db) = Some x" "\<not> terminal x"
      "\<forall>a. ia_id (f a) = ia_id a \<and> ia_activity_uri (f a) = ia_activity_uri a" "snd (reprocess_inbox now j db) = put_intake j f db"
    have "settled uri (put_intake j f db)"
      by (rule settled_update [OF assms(2), where P = "\<lambda>a. ia_id a = j" and f = f])
        (use f(3) working_not_terminal [OF assms(1) f(1,2)] in \<open>auto simp: put_intake_def\<close>)
    then show ?thesis using Reprocesses f(4) by simp
  qed (use Reprocesses assms(2) in simp)
next
  case (Cleans now n m k)
  obtain P where "inbox_activities (snd (cleanup_transport_metadata now n m k db))
     = update_where P (\<lambda>a. a\<lparr>ia_payload_json := EMPTY_PAYLOAD\<rparr>) (inbox_activities db)"
    using cleanup_update by blast
  from settled_update [OF assms(2) _ _ this] show ?thesis using Cleans by (simp add: terminal_def)
qed (simp add: settled_process [OF assms])

lemma keys_step:
  assumes "inbox_keys db"
  shows "inbox_keys (inbox_after s db)"
proof (cases s)
  case (Claims worker now)
  obtain P where "inbox_activities (snd (claim_inbox worker now db)) = update_where P (inbox_grab worker now) (inbox_activities db)"
    using claim_inbox_update by blast
  from keys_update [OF assms _ _ this] show ?thesis using Claims by simp
next
  case (Processes env worker j)
  show ?thesis
  proof (cases rule: process_claimed_cases [of env worker j db])
    case (run x r db1)
    then show ?thesis
      using keys_update [OF assms, of "\<lambda>a. unlease_intake (after_result (ib_now env) r a)" _ "\<lambda>a. ia_id a = j"]
      by (simp add: Processes put_intake_def applied_inbox [OF run(3)])
  qed (use Processes assms in simp)
next
  case (Stores row)
  then show ?thesis
    using store_cases [of row db] assms by (auto simp: inbox_keys_def unique_key_add_row)
next
  case (Reprocesses now j)
  show ?thesis using reprocess_cases [of now j db]
  proof (elim disjE exE conjE)
    fix x f assume "\<forall>a. ia_id (f a) = ia_id a \<and> ia_activity_uri (f a) = ia_activity_uri a"
      "snd (reprocess_inbox now j db) = put_intake j f db"
    then show ?thesis
      using keys_update [OF assms, of f "put_intake j f db" "\<lambda>a. ia_id a = j"] Reprocesses by (simp add: put_intake_def)
  qed (use Reprocesses assms in simp)
next
  case (Cleans now n m k)
  obtain P where "inbox_activities (snd (cleanup_transport_metadata now n m k db))
     = update_where P (\<lambda>a. a\<lparr>ia_payload_json := EMPTY_PAYLOAD\<rparr>) (inbox_activities db)"
    using cleanup_update by blast
  from keys_update [OF assms _ _ this] show ?thesis using Cleans by simp
qed

text \<open>An attempt that changes other tables settles its activity; a settled one is not worked on.\<close>

lemma effect_settles:
  assumes "get_by ia_id i (inbox_activities db) = Some a"
    "other_tables (snd (process_claimed env worker i db)) \<noteq> other_tables db"
  shows "settled (ia_activity_uri a) (snd (process_claimed env worker i db))"
proof (cases rule: process_claimed_cases [of env worker i db])
  case unavailable
  then show ?thesis using assms by simp
next
  case (run x r db1)
  then have "r = Inr ''processed''" using assms(2) apply_intake_undone [of env x db] by auto
  moreover have "a \<in> set (inbox_activities db)" "ia_id a = i" using get_by_SomeD [OF assms(1)] by auto
  moreover from this have "(if ia_id a = i then unlease_intake (after_result (ib_now env) r a) else a)
      \<in> set (inbox_activities (snd (process_claimed env worker i db)))"
    unfolding run(4) put_intake_def by (simp add: applied_inbox [OF run(3)] set_update_where)
  ultimately have "unlease_intake (settle_intake ''processed'' None (ib_now env) a)
      \<in> set (inbox_activities (snd (process_claimed env worker i db)))"
    by (simp add: after_result_def)
  then show ?thesis
    unfolding settled_def by (rule bexI [rotated]) (simp add: terminal_def settle_intake_def)
qed

lemma settled_no_effect:
  assumes "inbox_keys db" "settled uri db"
  shows "\<not> takes_effect uri (db, s, inbox_after s db)"
proof (cases s)
  case (Processes env worker i)
  show ?thesis
  proof (cases rule: process_claimed_cases [of env worker i db])
    case (run x r db1)
    obtain a where a: "a \<in> set (inbox_activities db)" "ia_activity_uri a = uri" "terminal a"
      using assms(2) by (auto simp: settled_def)
    have "x \<in> set (inbox_activities db)" "\<not> terminal x" using get_by_SomeD [OF run(1)] run(2) by (simp_all add: terminal_def)
    then have "ia_activity_uri x \<noteq> uri"
      using a assms(1) unique_keyD [of ia_activity_uri "inbox_activities db" x a] by (auto simp: inbox_keys_def)
    then show ?thesis using Processes run(1) by simp
  qed (use Processes in simp)
qed simp_all

lemma settled_trace: "\<lbrakk> inbox_keys db; settled uri db \<rbrakk> \<Longrightarrow> filter (takes_effect uri) (inbox_trace steps db) = []"
  by (induction steps arbitrary: db) (simp_all add: settled_no_effect settled_step keys_step del: inbox_after.simps)

lemma effects_once: "inbox_keys db \<Longrightarrow> length (filter (takes_effect uri) (inbox_trace steps db)) \<le> 1"
proof (induction steps arbitrary: db)
  case (Cons s steps)
  show ?case
  proof (cases "takes_effect uri (db, s, inbox_after s db)")
    case True
    then have "settled uri (inbox_after s db)" by (cases s) (auto dest: effect_settles)
    then show ?thesis using keys_step [OF Cons.prems, of s] by (simp add: settled_trace)
  next
    case False
    then show ?thesis using Cons.IH [OF keys_step [OF Cons.prems, of s]] by simp
  qed
qed simp

section \<open>Properties\<close>

text \<open>
  C32. Whatever its payload says, processing an activity changes and removes only follow
  relations with its sender and comments of its sender. What it adds elsewhere is: revisions of
  the sender's comments, automatic decisions about them, \<open>Accept\<close> activities of local actors
  with deliveries to the sender's own inbox, and audit events; the rows these tables had stay.
  All other tables, accounts, sessions, posts, tokens, votes, appeals, notifications, mail and
  settings among them, and the other activities of the inbox are as before.
\<close>

theorem inbox_touches_sender_only:
  "\<lbrakk> unique_key fo_id (followers db); unique_key co_id (comments db);
     get_by ia_id i (inbox_activities db) = Some intake \<rbrakk>
   \<Longrightarrow> sender_only (ia_actor_uri intake) db (snd (process_claimed env worker i db))
      \<and> filter (\<lambda>a. ia_id a \<noteq> i) (inbox_activities (snd (process_claimed env worker i db)))
          = filter (\<lambda>a. ia_id a \<noteq> i) (inbox_activities db)"
proof -
  assume a: "unique_key fo_id (followers db)" "unique_key co_id (comments db)"
    "get_by ia_id i (inbox_activities db) = Some intake"
  show ?thesis
  proof (cases rule: process_claimed_cases [of env worker i db])
    case unavailable
    then show ?thesis using handled_refl [of "ia_actor_uri intake" db] unfolding handled_def by simp
  next
    case (run x r db1)
    have "sender_only (ia_actor_uri intake) db db1"
      using apply_intake_sender [of db x env] a run(1,3) by (simp add: keyed_def)
    moreover have "decides uri db (db1\<lparr>inbox_activities := rows\<rparr>) = decides uri db db1" for uri rows
      by (simp add: fun_eq_iff decides_def)
    ultimately show ?thesis
      by (simp add: run(4) put_intake_def sender_only_def applied_inbox [OF run(3)] filter_update_where)
  qed
qed

text \<open>
  C33. However claims, workers, repeated requests, reprocessing and clean-ups interleave, the
  activity of one identifier takes effect at most once: at most one attempt at it leaves more
  than a mark in its own row and in the audit file.
\<close>

theorem activity_takes_effect_once:
  "\<lbrakk> unique_key ia_id (inbox_activities db); unique_key ia_activity_uri (inbox_activities db) \<rbrakk>
   \<Longrightarrow> length (filter (takes_effect uri) (inbox_trace steps db)) \<le> 1"
  by (rule effects_once) (simp add: inbox_keys_def)

text \<open>A follow request in the inbox for the concrete runs.\<close>

definition demo_inbox_env :: "time \<Rightarrow> inbox_env" where
  "demo_inbox_env t = \<lparr>ib_comment = \<lparr>ce_now = t, ce_cfg = demo_config, ce_id = ''c'', ce_decision_id = ''d'', ce_token = ''t'',
     ce_hash = (\<lambda>s. s), ce_fed = demo_fed_env\<lparr>fv_now := t\<rparr>,
     ce_notify = \<lparr>nv_now = t, nv_id = ''n'', nv_delivery_id = (\<lambda>s. s), nv_mail_env = demo_env, nv_mail_settings = [],
       nv_mail_id = ''m'', nv_rendered = None\<rparr>\<rparr>, ib_comments = [], ib_uuid = (\<lambda>_. None)\<rparr>"

definition demo_follow :: inbox_activity where
  "demo_follow = \<lparr>ia_id = ''i'', ia_activity_uri = ''https://r.io/1'', ia_activity_type = ''Follow'',
     ia_actor_uri = ''https://r.io/a'', ia_target_actor_id = Some ''la'', ia_source_domain = ''r.io'', ia_body_sha256 = ''h'',
     ia_payload_json = Json (JObj [(''actor'', JStr ''https://r.io/a''), (''type'', JStr ''Follow''),
        (''object'', JStr ''https://a.test/ap/actor/u'')]),
     ia_processing_state = ''received'', ia_attempt_count = 0, ia_last_error = None, ia_lease_owner = None,
     ia_lease_until = None, ia_received_at = 0, ia_processed_at = None\<rparr>"

definition demo_inbox_db :: db where
  "demo_inbox_db = empty_db\<lparr>users := [demo_user ''u'' Role_Author], local_actors := [demo_local],
     remote_actors := [demo_cached], inbox_activities := [demo_follow]\<rparr>"

definition demo_claimed :: db where
  "demo_claimed = demo_inbox_db\<lparr>inbox_activities := [inbox_grab ''w'' 0 demo_follow]\<rparr>"

lemma demo_intake_claim: "claim_inbox ''w'' 0 demo_inbox_db = (Some ''i'', demo_claimed)"
  by (simp add: claim_inbox_def lease_claim_def demo_inbox_db_def demo_claimed_def demo_follow_def inbox_due_def
      update_where_def rowcount_def)

lemma demo_processed:
  "map fo_state (followers (snd (process_claimed (demo_inbox_env 1) ''w'' ''i'' demo_claimed))) = [Follow_Accepted]"
  by code_simp

theorem inbox_touches_sender_only_witness:
  "map fo_state (followers (snd (process_claimed (demo_inbox_env 1) ''w'' ''i'' demo_claimed))) = [Follow_Accepted]
   \<and> sender_only (ia_actor_uri (inbox_grab ''w'' 0 demo_follow)) demo_claimed
        (snd (process_claimed (demo_inbox_env 1) ''w'' ''i'' demo_claimed))
   \<and> filter (\<lambda>a. ia_id a \<noteq> ''i'') (inbox_activities (snd (process_claimed (demo_inbox_env 1) ''w'' ''i'' demo_claimed)))
        = filter (\<lambda>a. ia_id a \<noteq> ''i'') (inbox_activities demo_claimed)"
proof (intro conjI [OF demo_processed] inbox_touches_sender_only)
  show "get_by ia_id ''i'' (inbox_activities demo_claimed) = Some (inbox_grab ''w'' 0 demo_follow)"
    by (simp add: demo_claimed_def demo_follow_def)
qed (simp_all add: demo_claimed_def demo_inbox_db_def unique_key_def)

definition demo_inbox_steps :: "inbox_step list" where
  "demo_inbox_steps = [Claims ''w'' 0, Processes (demo_inbox_env 1) ''w'' ''i'', Stores (demo_follow\<lparr>ia_id := ''j''\<rparr>),
     Claims ''v'' (seconds 100), Processes (demo_inbox_env (seconds 100)) ''v'' ''i'', Cleans (days 100) 90 365 30]"

theorem activity_takes_effect_once_witness:
  "length (filter (takes_effect ''https://r.io/1'') (inbox_trace demo_inbox_steps demo_inbox_db)) \<le> 1"
  by (rule activity_takes_effect_once) (simp_all add: demo_inbox_db_def unique_key_def)

text \<open>The inboxes a deletion goes to are those of the deliveries that are kept.\<close>

lemma delete_without_targets:
  assumes "\<forall>d \<in> set (deliveries db). \<forall>a \<in> set (outbox_activities db). oa_id a = dl_activity_id d
      \<and> oa_source_type a = ''post'' \<and> oa_source_id a = po_id p \<longrightarrow> oa_activity_type a \<notin> {''Create'', ''Update''}"
  shows "deliveries (snd (enqueue_post_delete env p db)) = deliveries db"
proof -
  have targets: "[(dl_target_inbox d, dl_domain d). d \<leftarrow> deliveries db, a \<leftarrow> outbox_activities db,
      oa_id a = dl_activity_id d \<and> oa_source_type a = ''post'' \<and> oa_source_id a = po_id p
        \<and> oa_activity_type a \<in> {''Create'', ''Update''}] = []"
    using assms by (auto simp: concat_eq_Nil_conv)
  have none: "deliveries (snd (some_activity (enqueue_activity env actor kind obj st si rv [] public db))) = deliveries db"
    for actor kind obj st si rv public
    using enqueue_deliveries [of env actor kind obj st si rv "[]" public db]
    by (auto simp: some_activity_def and_then_def split: prod.split sum.split)
  show ?thesis
    unfolding enqueue_post_delete_def targets Let_def
    by (simp add: none split: list.split)
qed

text \<open>
  The deletion of a post is sent to the inboxes that deliveries of the post are kept for.
  The clean-up removes those that were delivered more than 90 days ago: after it, deleting the
  post sends nothing to the servers that hold a copy.
\<close>

theorem cleaned_post_stays_remote:
  "\<lbrakk> \<forall>d \<in> set (deliveries db). \<forall>a \<in> set (outbox_activities db). oa_id a = dl_activity_id d
        \<and> oa_source_type a = ''post'' \<and> oa_source_id a = po_id p
        \<longrightarrow> dl_status d = ''delivered'' \<and> (\<exists>t. dl_delivered_at d = Some t \<and> t < now - days 90);
     clean = snd (cleanup_transport_metadata now 90 365 30 db) \<rbrakk>
   \<Longrightarrow> deliveries (snd (enqueue_post_delete env p clean)) = deliveries clean"
proof (rule delete_without_targets, intro ballI impI)
  fix d a
  assume a: "\<forall>d \<in> set (deliveries db). \<forall>a \<in> set (outbox_activities db). oa_id a = dl_activity_id d
        \<and> oa_source_type a = ''post'' \<and> oa_source_id a = po_id p
        \<longrightarrow> dl_status d = ''delivered'' \<and> (\<exists>t. dl_delivered_at d = Some t \<and> t < now - days 90)"
    "clean = snd (cleanup_transport_metadata now 90 365 30 db)"
  assume d: "d \<in> set (deliveries clean)" "a \<in> set (outbox_activities clean)"
    "oa_id a = dl_activity_id d \<and> oa_source_type a = ''post'' \<and> oa_source_id a = po_id p"
  have "\<not> (dl_status d = ''delivered'' \<and> (\<exists>t. dl_delivered_at d = Some t \<and> t < now - days 90))"
    using d(1) by (auto simp: a(2) cleanup_transport_metadata_def Let_def set_delete_where)
  moreover have "d \<in> set (deliveries db)" "a \<in> set (outbox_activities db)"
    using d(1,2) by (auto simp: a(2) cleanup_transport_metadata_def Let_def set_delete_where)
  ultimately show "oa_activity_type a \<notin> {''Create'', ''Update''}" using a(1) d(3) by blast
qed

text \<open>A post that was delivered once; before the clean-up its deletion is delivered too.\<close>

definition demo_public_post :: post where
  "demo_public_post = demo_post\<lparr>po_ap_object_id := Some ''https://a.test/ap/object/p''\<rparr>"

definition demo_delivered :: db where
  "demo_delivered = empty_db\<lparr>local_actors := [demo_local],
     post_authors := [\<lparr>pa_id = ''x'', pa_post_id = ''p'', pa_user_id = ''u'', pa_role = Authorship_Primary, pa_position = 0,
       pa_created_at = 0, pa_added_by_user_id = None\<rparr>],
     outbox_activities := [new_activity demo_fed_env demo_local ''Create'' (JObj []) ''post'' ''p'' ''1'' True ''https://a.test/1''],
     deliveries := [(new_delivery demo_fed_env ''row:post:p:1'' ''https://r.io/i'' ''r.io'')
       \<lparr>dl_status := ''delivered'', dl_delivered_at := Some 0\<rparr>]\<rparr>"

lemma demo_delete_before:
  "map dl_target_inbox (deliveries (snd (enqueue_post_delete demo_fed_env demo_public_post demo_delivered)))
     = [''https://r.io/i'', ''https://r.io/i'']"
  by code_simp

theorem cleaned_post_stays_remote_witness:
  "map dl_target_inbox (deliveries (snd (enqueue_post_delete demo_fed_env demo_public_post demo_delivered)))
     = [''https://r.io/i'', ''https://r.io/i'']
   \<and> deliveries (snd (enqueue_post_delete demo_fed_env demo_public_post
        (snd (cleanup_transport_metadata (days 91) 90 365 30 demo_delivered))))
     = deliveries (snd (cleanup_transport_metadata (days 91) 90 365 30 demo_delivered))"
  by (rule conjI [OF demo_delete_before], rule cleaned_post_stays_remote [where db = demo_delivered and now = "days 91"])
    (simp_all add: demo_delivered_def new_delivery_def days_def seconds_def)

end
