(* ===== verification/Backup_Archives.thy ===== *)
theory Backup_Archives
  imports Backup_Paths "HOL-Library.Word" "HOL-Library.AList"
begin

text \<open>
  The file components of a backup: \<open>backups/archive.py\<close> scans a directory, partitions the media
  files and writes the members of the archives, \<open>_verify_tar\<close> of \<open>backups/verify.py\<close> checks an
  archive, and \<open>_extract_archive\<close> of \<open>backups/restore.py\<close> puts it into a staging directory.

  A directory is the list of its entries in the order of their names, which is the order the
  scan sorts them into; its files do not change while they are copied. An archive is the list
  of its members; times of modification, the compression and the encryption are left out.
\<close>

unbundle bit_operations_syntax

section \<open>Directories\<close>

type_synonym mode = "12 word"

datatype fs_node =
    FDir mode "(string \<times> fs_node) list"
  | FFile mode string
  | FLink mode string
  | FSpecial

datatype entry_kind = Directory_entry | File_entry string | Symlink_entry string

record archive_entry =
  ae_path :: "string list"
  ae_kind :: entry_kind
  ae_mode :: mode

text \<open>
  \<open>sv_link\<close> says whether the target of a link in a directory resolves to a place inside the
  component, \<open>None\<close> where the resolution raises.
\<close>

record scan_env =
  sv_ignored :: "string list \<Rightarrow> bool"
  sv_link :: "string list \<Rightarrow> string \<Rightarrow> bool option"

definition scan_link :: "scan_env \<Rightarrow> string list \<Rightarrow> string \<Rightarrow> backup_error + unit" where
  "scan_link env rel target =
     (if is_absolute target then Inl (Unsafe_entry ''Absolute symlink is not backup-safe'')
      else case sv_link env rel target of
        None \<Rightarrow> Inl (Unsafe_entry ''Could not safely resolve symlink'')
      | Some inside \<Rightarrow> if inside then Inr () else Inl (Unsafe_entry ''Symlink escapes component root''))"

definition and_entries ::
  "backup_error + archive_entry list \<Rightarrow> backup_error + archive_entry list \<Rightarrow> backup_error + archive_entry list" where
  "and_entries r1 r2 = (case r1 of Inl e \<Rightarrow> Inl e | Inr es \<Rightarrow> (case r2 of Inl e \<Rightarrow> Inl e | Inr es' \<Rightarrow> Inr (es @ es')))"

text \<open>The function \<open>visit\<close> of \<open>scan_tree\<close> on the remaining entries of the directory \<open>rel\<close>.\<close>

function scan_dir :: "scan_env \<Rightarrow> string list \<Rightarrow> (string \<times> fs_node) list \<Rightarrow> backup_error + archive_entry list" where
  "scan_dir env rel [] = Inr []"
| "scan_dir env rel ((name, nd) # cs) =
     (let p = rel @ [name] in
      if sv_ignored env p then scan_dir env rel cs
      else and_entries (case nd of
          FDir m ch \<Rightarrow> and_entries (Inr [\<lparr>ae_path = p, ae_kind = Directory_entry, ae_mode = m\<rparr>]) (scan_dir env p ch)
        | FFile m content \<Rightarrow> Inr [\<lparr>ae_path = p, ae_kind = File_entry content, ae_mode = m\<rparr>]
        | FLink m target \<Rightarrow> (case scan_link env rel target of Inl e \<Rightarrow> Inl e
            | Inr _ \<Rightarrow> Inr [\<lparr>ae_path = p, ae_kind = Symlink_entry target, ae_mode = m\<rparr>])
        | FSpecial \<Rightarrow> Inl (Unsafe_entry ''Unsupported special file in backup component''))
        (scan_dir env rel cs))"
  by pat_completeness auto
termination
  by (relation "measure (\<lambda>(env, rel, cs). size_list (size_prod (\<lambda>_. 0) size) cs)") auto

definition scan_tree :: "scan_env \<Rightarrow> fs_node option \<Rightarrow> backup_error + archive_entry list" where
  "scan_tree env root = (case root of
     None \<Rightarrow> Inr []
   | Some (FDir m ch) \<Rightarrow> scan_dir env [] ch
   | Some _ \<Rightarrow> Inl Other_error)"

section \<open>Archives\<close>

definition file_size :: "archive_entry \<Rightarrow> nat option" where
  "file_size e = (case ae_kind e of File_entry content \<Rightarrow> Some (length content) | _ \<Rightarrow> None)"

text \<open>One step of the loop: the closed groups, the open one and the bytes of its files.\<close>

definition partition_step ::
  "nat \<Rightarrow> archive_entry list list \<times> archive_entry list \<times> nat \<Rightarrow> archive_entry
   \<Rightarrow> archive_entry list list \<times> archive_entry list \<times> nat" where
  "partition_step target st e = (case st of (groups, current, n) \<Rightarrow>
     (case file_size e of
        None \<Rightarrow> (groups, current @ [e], n)
      | Some k \<Rightarrow>
          if k > target then ((if current \<noteq> [] then groups @ [current] else groups) @ [[e]], [], if current \<noteq> [] then 0 else n)
          else if current \<noteq> [] \<and> n + k > target then (groups @ [current], [e], k)
          else (groups, current @ [e], n + k)))"

definition partition_media :: "nat \<Rightarrow> archive_entry list \<Rightarrow> archive_entry list list" where
  "partition_media target es =
     (if es = [] then [[]]
      else case foldl (partition_step target) ([], [], 0) es of (groups, current, n) \<Rightarrow>
        (let all_groups = (if current \<noteq> [] then groups @ [current] else groups)
         in if all_groups = [] then [[]] else all_groups))"

datatype tar_type = Tar_dir | Tar_file string | Tar_link string | Tar_hard_link | Tar_other

record tar_member =
  tm_name :: string
  tm_type :: tar_type
  tm_mode :: mode

definition tar_info :: "archive_entry \<Rightarrow> backup_error + tar_member" where
  "tar_info e = (case validate_relative_path (posix_of (ae_path e)) of
     Inl x \<Rightarrow> Inl x
   | Inr name \<Rightarrow> Inr \<lparr>tm_name = name,
       tm_type = (case ae_kind e of Directory_entry \<Rightarrow> Tar_dir | File_entry c \<Rightarrow> Tar_file c | Symlink_entry t \<Rightarrow> Tar_link t),
       tm_mode = ae_mode e\<rparr>)"

record backup_archive =
  ba_contents :: "tar_member list"
  ba_members :: nat
  ba_member_paths :: "string list"
  ba_uncompressed_size :: nat
  ba_segment :: "nat option"

fun tar_infos :: "archive_entry list \<Rightarrow> backup_error + tar_member list" where
  "tar_infos [] = Inr []"
| "tar_infos (e # es) = (case tar_info e of Inl x \<Rightarrow> Inl x
     | Inr m \<Rightarrow> (case tar_infos es of Inl x \<Rightarrow> Inl x | Inr ms \<Rightarrow> Inr (m # ms)))"

definition write_archive :: "nat option \<Rightarrow> archive_entry list \<Rightarrow> backup_error + backup_archive" where
  "write_archive segment es = (case tar_infos es of
     Inl x \<Rightarrow> Inl x
   | Inr ms \<Rightarrow> Inr \<lparr>ba_contents = ms, ba_members = length es,
       ba_member_paths = map (\<lambda>e. posix_of (ae_path e)) es,
       ba_uncompressed_size = sum_list (List.map_filter file_size es), ba_segment = segment\<rparr>)"

fun write_archives :: "bool \<Rightarrow> nat \<Rightarrow> archive_entry list list \<Rightarrow> backup_error + backup_archive list" where
  "write_archives media i [] = Inr []"
| "write_archives media i (g # gs) = (case write_archive (if media then Some i else None) g of
     Inl x \<Rightarrow> Inl x
   | Inr a \<Rightarrow> (case write_archives media (i + 1) gs of Inl x \<Rightarrow> Inl x | Inr as \<Rightarrow> Inr (a # as)))"

definition create_component_archives ::
  "scan_env \<Rightarrow> bool \<Rightarrow> nat \<Rightarrow> fs_node option \<Rightarrow> backup_error + backup_archive list" where
  "create_component_archives env media segment_size root =
     (if segment_size < 1 then Inl (Value_error ''Media segment size must be positive'')
      else case scan_tree env root of
        Inl x \<Rightarrow> Inl x
      | Inr es \<Rightarrow> write_archives media 1 (if media then partition_media segment_size es else [es]))"

section \<open>Verification\<close>

definition strip_slashes :: "string \<Rightarrow> string" where
  "strip_slashes s = rev (dropWhile (\<lambda>c. c = CHR ''/'') (rev s))"

text \<open>The loop of \<open>_verify_tar\<close>: the names so far and the bytes of the files.\<close>

fun verify_members :: "string list \<Rightarrow> nat \<Rightarrow> tar_member list \<Rightarrow> backup_error + string list \<times> nat" where
  "verify_members names n [] = Inr (names, n)"
| "verify_members names n (m # ms) =
     (case validate_relative_path (strip_slashes (tm_name m)) of
        Inl x \<Rightarrow> Inl x
      | Inr name \<Rightarrow>
          if name \<in> set names then Inl (Verification_error ''Duplicate TAR member path'')
          else case tm_type m of
            Tar_hard_link \<Rightarrow> Inl (Verification_error ''Hard links are not supported in backup archives'')
          | Tar_link target \<Rightarrow> (case validate_archive_symlink name target of Inl x \<Rightarrow> Inl x
              | Inr _ \<Rightarrow> verify_members (names @ [name]) n ms)
          | Tar_dir \<Rightarrow> verify_members (names @ [name]) n ms
          | Tar_file content \<Rightarrow> verify_members (names @ [name]) (n + length content) ms
          | Tar_other \<Rightarrow> Inl (Verification_error ''Unsupported TAR member type''))"

definition verify_archive :: "backup_archive \<Rightarrow> backup_error + unit" where
  "verify_archive a = (case verify_members [] 0 (ba_contents a) of
     Inl x \<Rightarrow> Inl x
   | Inr (names, n) \<Rightarrow>
       if length names \<noteq> ba_members a then Inl (Verification_error ''TAR member count mismatch'')
       else if ba_member_paths a \<noteq> names then Inl (Verification_error ''TAR member inventory mismatch'')
       else if n \<noteq> ba_uncompressed_size a then Inl (Verification_error ''TAR size mismatch'')
       else Inr ())"

section \<open>Extraction\<close>

text \<open>The staging directory of a component: what is at which path below it.\<close>

datatype staged = SDir mode | SFile mode string | SLink string

type_synonym staging = "(string list \<times> staged) list"

text \<open>\<open>stat.S_IMODE(mode) & ~0o6000\<close> and what follows, in the twelve bits of a mode.\<close>

definition safe_mode :: "bool \<Rightarrow> bool \<Rightarrow> mode \<Rightarrow> mode" where
  "safe_mode config directory m =
     (let m1 = m AND NOT 0xC00; m2 = (if config then m1 AND NOT 0x3F else m1)
      in if directory then m2 OR 0x1C0 else m2 OR 0x180)"

definition validate_member_path :: "string \<Rightarrow> backup_error + string" where
  "validate_member_path v = (case validate_relative_path (strip_slashes v) of
     Inl x \<Rightarrow> Inl x
   | Inr path \<Rightarrow> if CHR '':'' \<in> set path \<or> BACKSLASH \<in> set v
       then Inl (Unsafe_entry ''Unsafe archive member path'') else Inr path)"

fun ensure_parent :: "staging \<Rightarrow> string list \<Rightarrow> string list \<Rightarrow> backup_error + staging" where
  "ensure_parent t current [] = Inr t"
| "ensure_parent t current (part # parts) =
     (let here = current @ [part] in
      case map_of t here of
        Some (SLink _) \<Rightarrow> Inl (Unsafe_entry ''Archive member traverses a staged symlink'')
      | Some (SFile _ _) \<Rightarrow> Inl (Unsafe_entry ''Archive member traverses a non-directory path'')
      | Some (SDir _) \<Rightarrow> ensure_parent t here parts
      | None \<Rightarrow> ensure_parent (AList.update here (SDir 0x1C0) t) here parts)"

text \<open>
  One member. A directory member never meets a link: the path of a link is among those seen,
  and a second member of one path is refused. \<open>destination.parent\<close> is not below
  \<open>destination\<close>, so \<open>relative_to\<close> raises for the member that is the destination itself.
\<close>

definition place_member :: "bool \<Rightarrow> staging \<Rightarrow> string \<Rightarrow> tar_member \<Rightarrow> backup_error + staging" where
  "place_member config t name m =
     (let p = pure_parts name; conflict = Inl (Unsafe_entry ''Conflicting archive path'') in
      case tm_type m of
        Tar_dir \<Rightarrow> (case map_of t p of
            Some (SFile _ _) \<Rightarrow> conflict
          | Some (SLink _) \<Rightarrow> conflict
          | _ \<Rightarrow> Inr (AList.update p (SDir (safe_mode config True (tm_mode m))) t))
      | Tar_link target \<Rightarrow> (case validate_symlink_target name target of
            Inl x \<Rightarrow> Inl x
          | Inr _ \<Rightarrow> if map_of t p \<noteq> None then conflict else Inr (AList.update p (SLink target) t))
      | Tar_file content \<Rightarrow>
          if map_of t p \<noteq> None then conflict
          else Inr (AList.update p (SFile (safe_mode config False (tm_mode m)) content) t)
      | _ \<Rightarrow> Inl (Unsafe_entry ''Unsupported archive member type''))"

definition extract_member ::
  "bool \<Rightarrow> staging \<times> string list \<Rightarrow> tar_member \<Rightarrow> backup_error + staging \<times> string list" where
  "extract_member config st m = (case st of (t, seen) \<Rightarrow>
     (case validate_member_path (tm_name m) of
        Inl x \<Rightarrow> Inl x
      | Inr name \<Rightarrow>
          if name \<in> set seen then Inl (Unsafe_entry ''Duplicate archive member'')
          else if tm_type m = Tar_hard_link \<or> tm_type m = Tar_other then Inl (Unsafe_entry ''Unsupported TAR member type'')
          else if pure_parts name = [] then Inl (Value_error ''not in the subpath'')
          else (case ensure_parent t [] (butlast (pure_parts name)) of
              Inl x \<Rightarrow> Inl x
            | Inr t1 \<Rightarrow> (case place_member config t1 name m of
                Inl x \<Rightarrow> Inl x
              | Inr t2 \<Rightarrow> Inr (t2, seen @ [name])))))"

fun extract_members ::
  "bool \<Rightarrow> staging \<times> string list \<Rightarrow> tar_member list \<Rightarrow> backup_error + staging \<times> string list" where
  "extract_members config st [] = Inr st"
| "extract_members config st (m # ms) = (case extract_member config st m of
     Inl x \<Rightarrow> Inl x | Inr st' \<Rightarrow> extract_members config st' ms)"

definition extract_archive ::
  "bool \<Rightarrow> staging \<times> string list \<Rightarrow> backup_archive \<Rightarrow> backup_error + staging \<times> string list" where
  "extract_archive config st a = (case extract_members config st (ba_contents a) of
     Inl x \<Rightarrow> Inl x
   | Inr st' \<Rightarrow> if length (snd st') - length (snd st) \<noteq> ba_members a
       then Inl (Verification_error ''TAR member count does not match the manifest'') else Inr st')"

fun extract_archives ::
  "bool \<Rightarrow> staging \<times> string list \<Rightarrow> backup_archive list \<Rightarrow> backup_error + staging \<times> string list" where
  "extract_archives config st [] = Inr st"
| "extract_archives config st (a # as) = (case extract_archive config st a of
     Inl x \<Rightarrow> Inl x | Inr st' \<Rightarrow> extract_archives config st' as)"

definition staged_member_paths :: "staging \<Rightarrow> string set" where
  "staged_member_paths t = set (map (\<lambda>e. posix_of (fst e)) t)"

definition stage_component :: "bool \<Rightarrow> backup_archive list \<Rightarrow> backup_error + staging" where
  "stage_component config as = (case extract_archives config ([], []) as of
     Inl x \<Rightarrow> Inl x
   | Inr (t, seen) \<Rightarrow>
       if staged_member_paths t \<noteq> set (concat (map ba_member_paths as))
       then Inl (Verification_error ''Staged inventory does not match its manifest'') else Inr t)"

end
