(* ===== verification/Backup_Roundtrip.thy ===== *)
theory Backup_Roundtrip
  imports Backup_Archives
begin

text \<open>
  A component that is backed up and restored: the scan of a directory, its partition into
  archives and their extraction give the directory back. Whatever an archive holds, its
  extraction goes through no link and overwrites no file.
\<close>

section \<open>Extraction of any archive\<close>

text \<open>
  Every path is made of names, every entry stands below directories only, and the target of
  every link stays inside by its letters.
\<close>

definition ancestors :: "string list \<Rightarrow> string list list" where
  "ancestors p = map (\<lambda>k. take k p) [1..<length p]"

definition is_dir_at :: "staging \<Rightarrow> string list \<Rightarrow> bool" where
  "is_dir_at t p \<longleftrightarrow> (\<exists>m. map_of t p = Some (SDir m))"

definition staging_ok :: "staging \<Rightarrow> bool" where
  "staging_ok t \<longleftrightarrow> (\<forall>p s. map_of t p = Some s \<longrightarrow> p \<noteq> [] \<and> list_all name_ok p \<and> (\<forall>q \<in> set (ancestors p). is_dir_at t q)
     \<and> (\<forall>target. s = SLink target \<longrightarrow> \<not> is_absolute target \<and> \<not> outside (link_resolved (posix_of p) target)))"

text \<open>Nothing but directories changes between two staging directories, and none goes away.\<close>

definition preserved :: "staging \<Rightarrow> staging \<Rightarrow> bool" where
  "preserved t t' \<longleftrightarrow> (\<forall>p s. map_of t p = Some s \<longrightarrow> map_of t' p = Some s \<or> is_dir_at t p \<and> is_dir_at t' p)"

lemma preserved_refl [simp]: "preserved t t"
  by (simp add: preserved_def)

lemma preserved_dir: "preserved t t' \<Longrightarrow> is_dir_at t p \<Longrightarrow> is_dir_at t' p"
  by (auto simp: preserved_def is_dir_at_def)

lemma preserved_trans:
  assumes "preserved t t'" "preserved t' t''"
  shows "preserved t t''"
  unfolding preserved_def
proof (intro allI impI)
  fix p s assume "map_of t p = Some s"
  then have "map_of t' p = Some s \<or> is_dir_at t p \<and> is_dir_at t' p" using assms(1) by (simp add: preserved_def)
  then show "map_of t'' p = Some s \<or> is_dir_at t p \<and> is_dir_at t'' p"
    using assms(2) preserved_dir [OF assms(2), of p] \<open>map_of t p = Some s\<close> by (auto simp: preserved_def is_dir_at_def)
qed

lemma map_of_update [simp]: "map_of (AList.update k v t) = (map_of t)(k \<mapsto> v)"
  by (simp add: update_conv')

lemma is_dir_update: "is_dir_at (AList.update p s t) q \<longleftrightarrow> (if q = p then (\<exists>m. s = SDir m) else is_dir_at t q)"
  by (simp add: is_dir_at_def)

lemma ancestors_snoc: "ancestors (p @ [x]) = (if p = [] then [] else ancestors p @ [p])"
proof -
  have "map (\<lambda>k. take k (p @ [x])) [1..<length p] = map (\<lambda>k. take k p) [1..<length p]" by simp
  then show ?thesis by (cases p) (auto simp: ancestors_def upt_Suc)
qed

lemma preserved_update:
  assumes "map_of t p = None \<or> is_dir_at t p \<and> (\<exists>m. s = SDir m)"
  shows "preserved t (AList.update p s t)"
  using assms by (auto simp: preserved_def is_dir_at_def)

lemma staging_ok_update:
  assumes "staging_ok t" "p \<noteq> []" "list_all name_ok p" "\<forall>q \<in> set (ancestors p). is_dir_at t q" "map_of t p = None \<or> is_dir_at t p \<and> (\<exists>m. s = SDir m)"
    "\<And>target. s = SLink target \<Longrightarrow> validate_symlink_target (posix_of p) target = Inr ()"
  shows "staging_ok (AList.update p s t)"
proof -
  have "is_dir_at (AList.update p s t) q" if "is_dir_at t q" for q
    using that assms(5) by (auto simp: is_dir_update is_dir_at_def)
  moreover have "\<not> is_absolute target \<and> \<not> outside (link_resolved (posix_of p) target)" if "s = SLink target" for target
    using assms(6) [OF that] by (auto simp: validate_symlink_target_def is_absolute_def split: if_splits)
  ultimately show ?thesis using assms(1-4) unfolding staging_ok_def by simp
qed

lemma ensure_parent_ok:
  assumes "ensure_parent t current parts = Inr t'" "staging_ok t" "current = [] \<or> is_dir_at t current \<and> (\<forall>q \<in> set (ancestors current). is_dir_at t q)"
    "list_all name_ok (current @ parts)"
  shows "staging_ok t' \<and> preserved t t' \<and> (current @ parts = [] \<or> is_dir_at t' (current @ parts) \<and> (\<forall>q \<in> set (ancestors (current @ parts)). is_dir_at t' q))"
  using assms
proof (induction t current parts rule: ensure_parent.induct)
  case (1 t current)
  then show ?case by auto
next
  case (2 t current part parts)
  let ?here = "current @ [part]"
  have up: "\<forall>q \<in> set (ancestors ?here). is_dir_at t q" using "2.prems"(3) by (auto simp: ancestors_snoc)
  show ?case
  proof (cases "map_of t ?here")
    case None
    let ?t = "AList.update ?here (SDir 0x1C0) t"
    have g: "preserved t ?t" using None by (intro preserved_update) simp
    have ok: "staging_ok ?t" using None up "2.prems"(2,4) by (intro staging_ok_update) auto
    have "?here = [] \<or> is_dir_at ?t ?here \<and> (\<forall>q \<in> set (ancestors ?here). is_dir_at ?t q)"
      using preserved_dir [OF g] up by (auto simp: is_dir_update)
    from "2.IH"(1) [OF refl None _ ok this] show ?thesis
      using "2.prems"(1,4) None preserved_trans [OF g] by (simp add: Let_def)
  next
    case (Some s)
    then obtain m where s: "s = SDir m" using "2.prems"(1) by (cases s) (auto simp: Let_def)
    have "?here = [] \<or> is_dir_at t ?here \<and> (\<forall>q \<in> set (ancestors ?here). is_dir_at t q)"
      using Some s up by (auto simp: is_dir_at_def)
    from "2.IH"(2) [OF refl Some s _ "2.prems"(2) this] show ?thesis
      using "2.prems"(1,4) Some s by (simp add: Let_def)
  qed
qed

lemma extract_member_ok:
  assumes "extract_member config (t, seen) m = Inr (t', seen')" "staging_ok t"
  shows "staging_ok t' \<and> preserved t t'"
proof -
  obtain name t1 where name: "validate_member_path (tm_name m) = Inr name" "pure_parts name \<noteq> []"
    and t1: "ensure_parent t [] (butlast (pure_parts name)) = Inr t1" and t': "place_member config t1 name m = Inr t'"
    using assms(1) by (auto simp: extract_member_def split: sum.splits if_splits)
  let ?p = "pure_parts name"
  have p: "?p = butlast ?p @ [last ?p]" using name(2) by simp
  have nm: "posix_of ?p = name \<and> list_all name_ok ?p"
    using name(1) by (auto simp: validate_member_path_def list_all_iff dest: validated_names split: sum.splits if_splits)
  then have "list_all name_ok ([] @ butlast ?p)" by (auto simp: list_all_iff dest: in_set_butlastD)
  from ensure_parent_ok [OF t1 assms(2) _ this]
  have ok1: "staging_ok t1" and g1: "preserved t t1" and up: "\<forall>q \<in> set (ancestors ?p). is_dir_at t1 q"
    by (simp_all) (subst p, auto simp: ancestors_snoc)
  obtain s where s: "t' = AList.update ?p s t1" "map_of t1 ?p = None \<or> is_dir_at t1 ?p \<and> (\<exists>m. s = SDir m)"
    "\<And>target. s = SLink target \<Longrightarrow> validate_symlink_target name target = Inr ()"
    using t' by (auto simp: place_member_def Let_def is_dir_at_def split: tar_type.splits option.splits staged.splits sum.splits if_splits)
  have "staging_ok t'" unfolding s(1) using s(3) nm by (intro staging_ok_update ok1 name(2) up s(2)) auto
  moreover have "preserved t1 t'" unfolding s(1) using s(2) by (rule preserved_update)
  ultimately show ?thesis using preserved_trans [OF g1] by blast
qed

lemma extract_members_ok:
  "\<lbrakk> extract_members config st ms = Inr st'; staging_ok (fst st) \<rbrakk> \<Longrightarrow> staging_ok (fst st') \<and> preserved (fst st) (fst st')"
proof (induction config st ms rule: extract_members.induct)
  case (2 config st m ms)
  obtain st1 where st1: "extract_member config st m = Inr st1" "extract_members config st1 ms = Inr st'"
    using "2.prems"(1) by (auto split: sum.splits)
  then have "staging_ok (fst st1) \<and> preserved (fst st) (fst st1)"
    using extract_member_ok [of config "fst st" "snd st" m "fst st1" "snd st1"] "2.prems"(2) by simp
  then show ?case using "2.IH" [OF st1(1,2)] preserved_trans by blast
qed simp

lemma extract_archives_ok:
  "\<lbrakk> extract_archives config st as = Inr st'; staging_ok (fst st) \<rbrakk> \<Longrightarrow> staging_ok (fst st') \<and> preserved (fst st) (fst st')"
proof (induction config st as rule: extract_archives.induct)
  case (2 config st a as)
  obtain st1 where st1: "extract_archive config st a = Inr st1" "extract_archives config st1 as = Inr st'"
    using "2.prems"(1) by (auto split: sum.splits)
  then have "staging_ok (fst st1) \<and> preserved (fst st) (fst st1)"
    using extract_members_ok "2.prems"(2) by (auto simp: extract_archive_def split: sum.splits if_splits)
  then show ?case using "2.IH" [OF st1(1,2)] preserved_trans by blast
qed simp

section \<open>A directory and its entries\<close>

fun lookup_node :: "(string \<times> fs_node) list \<Rightarrow> string list \<Rightarrow> fs_node option" where
  "lookup_node cs [] = None"
| "lookup_node cs [n] = map_of cs n"
| "lookup_node cs (n # m # ps) = (case map_of cs n of Some (FDir _ ch) \<Rightarrow> lookup_node ch (m # ps) | _ \<Rightarrow> None)"

fun staged_node :: "bool \<Rightarrow> fs_node \<Rightarrow> staged option" where
  "staged_node config (FDir m ch) = Some (SDir (safe_mode config True m))"
| "staged_node config (FFile m content) = Some (SFile (safe_mode config False m) content)"
| "staged_node config (FLink m target) = Some (SLink target)"
| "staged_node config FSpecial = None"

definition portable_name :: "string \<Rightarrow> bool" where
  "portable_name n \<longleftrightarrow> name_ok n \<and> CHR '':'' \<notin> set n"

text \<open>Names without colons, backslashes and control characters, and links that stay inside.\<close>

function tree_ok :: "string list \<Rightarrow> (string \<times> fs_node) list \<Rightarrow> bool" where
  "tree_ok rel [] \<longleftrightarrow> True"
| "tree_ok rel ((name, nd) # cs) \<longleftrightarrow> portable_name name \<and> name \<notin> set (map fst cs) \<and> tree_ok rel cs
     \<and> (case nd of
          FDir m ch \<Rightarrow> tree_ok (rel @ [name]) ch
        | FFile m content \<Rightarrow> True
        | FLink m target \<Rightarrow> validate_symlink_target (posix_of (rel @ [name])) target = Inr ()
        | FSpecial \<Rightarrow> False)"
  by pat_completeness auto
termination
  by (relation "measure (\<lambda>(rel, cs). size_list (size_prod (\<lambda>_. 0) size) cs)") auto

definition entry_staged :: "bool \<Rightarrow> archive_entry \<Rightarrow> staged" where
  "entry_staged config e = (case ae_kind e of
     Directory_entry \<Rightarrow> SDir (safe_mode config True (ae_mode e))
   | File_entry content \<Rightarrow> SFile (safe_mode config False (ae_mode e)) content
   | Symlink_entry target \<Rightarrow> SLink target)"

definition staged_entries :: "bool \<Rightarrow> archive_entry list \<Rightarrow> staging" where
  "staged_entries config es = map (\<lambda>e. (ae_path e, entry_staged config e)) es"

definition entry_ok :: "archive_entry \<Rightarrow> bool" where
  "entry_ok e \<longleftrightarrow> ae_path e \<noteq> [] \<and> list_all portable_name (ae_path e)
     \<and> (\<forall>target. ae_kind e = Symlink_entry target \<longrightarrow> validate_symlink_target (posix_of (ae_path e)) target = Inr ())"

text \<open>The directories above every entry come before it, or are among \<open>dirs\<close>.\<close>

fun placed :: "string list list \<Rightarrow> archive_entry list \<Rightarrow> bool" where
  "placed dirs [] \<longleftrightarrow> True"
| "placed dirs (e # es) \<longleftrightarrow> set (ancestors (ae_path e)) \<subseteq> set dirs
     \<and> placed (if ae_kind e = Directory_entry then ae_path e # dirs else dirs) es"

lemma placed_mono: "\<lbrakk> placed dirs es; set dirs \<subseteq> set dirs' \<rbrakk> \<Longrightarrow> placed dirs' es"
proof (induction dirs es arbitrary: dirs' rule: placed.induct)
  case (2 dirs e es)
  have "set (if ae_kind e = Directory_entry then ae_path e # dirs else dirs)
      \<subseteq> set (if ae_kind e = Directory_entry then ae_path e # dirs' else dirs')" using "2.prems"(2) by auto
  then show ?case using "2.IH" "2.prems" by auto
qed simp

lemma placed_append: "\<lbrakk> placed dirs es; placed dirs es' \<rbrakk> \<Longrightarrow> placed dirs (es @ es')"
proof (induction dirs es rule: placed.induct)
  case (2 dirs e es)
  have "placed (if ae_kind e = Directory_entry then ae_path e # dirs else dirs) es'"
    using "2.prems"(2) by (rule placed_mono) auto
  then show ?case using "2.IH" "2.prems"(1) by simp
qed simp

lemma placed_front: "placed dirs (es @ es') \<Longrightarrow> placed dirs es"
  by (induction dirs es rule: placed.induct) auto

lemma scan_Cons:
  assumes "scan_dir env rel ((name, nd) # cs) = Inr es"
  obtains (ignored) "sv_ignored env (rel @ [name])" "scan_dir env rel cs = Inr es"
  | (dir) m ch es1 es2 where "\<not> sv_ignored env (rel @ [name])" "nd = FDir m ch" "scan_dir env (rel @ [name]) ch = Inr es1"
      "scan_dir env rel cs = Inr es2" "es = \<lparr>ae_path = rel @ [name], ae_kind = Directory_entry, ae_mode = m\<rparr> # es1 @ es2"
  | (reg) m content es2 where "\<not> sv_ignored env (rel @ [name])" "nd = FFile m content" "scan_dir env rel cs = Inr es2"
      "es = \<lparr>ae_path = rel @ [name], ae_kind = File_entry content, ae_mode = m\<rparr> # es2"
  | (lnk) m target es2 where "\<not> sv_ignored env (rel @ [name])" "nd = FLink m target" "scan_dir env rel cs = Inr es2"
      "es = \<lparr>ae_path = rel @ [name], ae_kind = Symlink_entry target, ae_mode = m\<rparr> # es2"
proof (cases "sv_ignored env (rel @ [name])")
  case True
  then show ?thesis using assms ignored by (simp add: Let_def)
next
  case False
  show ?thesis
  proof (cases nd)
    case (FDir m ch)
    then show ?thesis using assms False dir [OF False FDir] by (auto simp: and_entries_def Let_def split: sum.splits)
  next
    case (FFile m content)
    then show ?thesis using assms False reg [OF False FFile] by (auto simp: and_entries_def Let_def split: sum.splits)
  next
    case (FLink m target)
    then show ?thesis using assms False lnk [OF False FLink] by (auto simp: and_entries_def Let_def split: sum.splits)
  next
    case FSpecial
    then show ?thesis using assms False by (simp add: and_entries_def Let_def)
  qed
qed

text \<open>Induction along a scan that lists its entries.\<close>

lemma scan_induct [consumes 1, case_names Nil ignored dir reg lnk]:
  assumes "scan_dir env rel cs = Inr es"
    "\<And>rel. P rel [] []"
    "\<And>rel name nd cs es. \<lbrakk> sv_ignored env (rel @ [name]); scan_dir env rel cs = Inr es; P rel cs es \<rbrakk> \<Longrightarrow> P rel ((name, nd) # cs) es"
    "\<And>rel name m ch cs es1 es2. \<lbrakk> \<not> sv_ignored env (rel @ [name]); scan_dir env (rel @ [name]) ch = Inr es1; scan_dir env rel cs = Inr es2;
        P (rel @ [name]) ch es1; P rel cs es2 \<rbrakk>
      \<Longrightarrow> P rel ((name, FDir m ch) # cs) (\<lparr>ae_path = rel @ [name], ae_kind = Directory_entry, ae_mode = m\<rparr> # es1 @ es2)"
    "\<And>rel name m content cs es2. \<lbrakk> \<not> sv_ignored env (rel @ [name]); scan_dir env rel cs = Inr es2; P rel cs es2 \<rbrakk>
      \<Longrightarrow> P rel ((name, FFile m content) # cs) (\<lparr>ae_path = rel @ [name], ae_kind = File_entry content, ae_mode = m\<rparr> # es2)"
    "\<And>rel name m target cs es2. \<lbrakk> \<not> sv_ignored env (rel @ [name]); scan_dir env rel cs = Inr es2; P rel cs es2 \<rbrakk>
      \<Longrightarrow> P rel ((name, FLink m target) # cs) (\<lparr>ae_path = rel @ [name], ae_kind = Symlink_entry target, ae_mode = m\<rparr> # es2)"
  shows "P rel cs es"
  using assms
proof (induction env rel cs arbitrary: es rule: scan_dir.induct)
  case (1 env rel)
  then show ?case by simp
next
  case (2 env rel name nd cs)
  note rules = "2.prems"(2-6)
  from "2.prems"(1) show ?case
  proof (cases rule: scan_Cons)
    case ignored
    then show ?thesis using rules(2) "2.IH"(1) [OF refl ignored(1) ignored(2) rules] by blast
  next
    case (dir m ch es1 es2)
    have "P (rel @ [name]) ch es1" using "2.IH"(2) [OF refl dir(1,2,3) rules] .
    moreover have "P rel cs es2" using "2.IH"(3) [OF refl dir(1,4) rules] .
    ultimately show ?thesis using rules(3) dir by blast
  next
    case (reg m content es2)
    then show ?thesis using rules(4) "2.IH"(3) [OF refl reg(1,3) rules] by blast
  next
    case (lnk m target es2)
    then show ?thesis using rules(5) "2.IH"(3) [OF refl lnk(1,3) rules] by blast
  qed
qed

lemma scan_paths:
  "scan_dir env rel cs = Inr es \<Longrightarrow> \<forall>e \<in> set es. \<exists>n q. ae_path e = rel @ n # q \<and> n \<in> set (map fst cs)"
proof (induction rule: scan_induct)
  case (dir rel name m ch cs es1 es2)
  then show ?case by fastforce
qed fastforce+

lemma scan_below:
  "\<lbrakk> scan_dir env (rel @ [name]) ch = Inr es; e \<in> set es \<rbrakk> \<Longrightarrow> \<exists>x q. ae_path e = rel @ name # x # q"
  using scan_paths [of env "rel @ [name]" ch es] by fastforce

lemma scan_aside:
  "\<lbrakk> scan_dir env rel cs = Inr es; name \<notin> set (map fst cs); e \<in> set es \<rbrakk> \<Longrightarrow> \<exists>n q. ae_path e = rel @ n # q \<and> n \<noteq> name"
  using scan_paths [of env rel cs es] by fastforce

lemma scan_entries_ok:
  "\<lbrakk> scan_dir env rel cs = Inr es; tree_ok rel cs; list_all portable_name rel \<rbrakk>
   \<Longrightarrow> list_all entry_ok es \<and> distinct (map ae_path es)"
proof (induction rule: scan_induct)
  case (dir rel name m ch cs es1 es2)
  let ?e = "\<lparr>ae_path = rel @ [name], ae_kind = Directory_entry, ae_mode = m\<rparr>"
  have "rel @ [name] \<noteq> ae_path e" if "e \<in> set es1" for e using scan_below [OF dir(2) that] by auto
  moreover have "rel @ [name] \<noteq> ae_path e" if "e \<in> set es2" for e
    using scan_aside [OF dir(3) _ that, of name] dir.prems by auto
  moreover have "ae_path e1 \<noteq> ae_path e2" if "e1 \<in> set es1" "e2 \<in> set es2" for e1 e2
    using scan_below [OF dir(2) that(1)] scan_aside [OF dir(3) _ that(2), of name] dir.prems by auto
  ultimately have "distinct (map ae_path (?e # es1 @ es2))" using dir.IH dir.prems by auto
  moreover have "entry_ok ?e" using dir.prems by (simp add: entry_ok_def)
  then have "list_all entry_ok (?e # es1 @ es2)" using dir.IH dir.prems by simp
  ultimately show ?case by blast
next
  case (reg rel name m content cs es2)
  have "rel @ [name] \<noteq> ae_path e" if "e \<in> set es2" for e
    using scan_aside [OF reg(2) _ that, of name] reg.prems by auto
  then show ?case using reg.IH reg.prems by (auto simp: entry_ok_def)
next
  case (lnk rel name m target cs es2)
  have "rel @ [name] \<noteq> ae_path e" if "e \<in> set es2" for e
    using scan_aside [OF lnk(2) _ that, of name] lnk.prems by auto
  then show ?case using lnk.IH lnk.prems by (auto simp: entry_ok_def)
qed simp_all

lemma staged_entries_simps [simp]:
  "staged_entries config [] = []"
  "staged_entries config (e # es) = (ae_path e, entry_staged config e) # staged_entries config es"
  "staged_entries config (es @ es') = staged_entries config es @ staged_entries config es'"
  by (simp_all add: staged_entries_def)

lemma staged_None: "p \<notin> ae_path ` set es \<Longrightarrow> map_of (staged_entries config es) p = None"
  by (induction es) auto

lemma lookup_node_Cons:
  "lookup_node ((n, nd) # cs) (n # q) = (if q = [] then Some nd else case nd of FDir _ ch \<Rightarrow> lookup_node ch q | _ \<Rightarrow> None)"
  "x \<noteq> n \<Longrightarrow> lookup_node ((n, nd) # cs) (x # q) = lookup_node cs (x # q)"
  by (cases q; simp split: fs_node.splits)+

lemma lookup_node_Nil [simp]: "lookup_node [] q = None"
  by (cases q rule: remdups_adj.cases) simp_all

lemma scan_aside_None:
  assumes "scan_dir env rel cs = Inr es" "name \<notin> set (map fst cs)"
  shows "map_of (staged_entries config es) (rel @ name # q) = None"
proof -
  have "rel @ name # q \<notin> ae_path ` set es" using scan_aside [OF assms] by fastforce
  then show ?thesis by (rule staged_None)
qed

lemma scan_below_None:
  assumes "scan_dir env (rel @ [name]) ch = Inr es" "x \<noteq> name"
  shows "map_of (staged_entries config es) (rel @ x # q) = None"
proof -
  have "rel @ x # q \<notin> ae_path ` set es" using scan_below [OF assms(1)] assms(2) by fastforce
  then show ?thesis by (rule staged_None)
qed

lemma scan_own_None:
  assumes "scan_dir env rel cs = Inr es"
  shows "map_of (staged_entries config es) rel = None"
proof -
  have "rel \<notin> ae_path ` set es" using scan_paths [OF assms] by fastforce
  then show ?thesis by (rule staged_None)
qed

lemma scan_lookup:
  "\<lbrakk> scan_dir env rel cs = Inr es; tree_ok rel cs; \<forall>p. \<not> sv_ignored env p \<rbrakk>
   \<Longrightarrow> map_of (staged_entries config es) (rel @ q) = Option.bind (lookup_node cs q) (staged_node config)"
proof (induction arbitrary: q rule: scan_induct)
  case (dir rel name m ch cs es1 es2)
  have IH1: "map_of (staged_entries config es1) (rel @ name # q') = Option.bind (lookup_node ch q') (staged_node config)" for q'
    using dir.IH(1) [of q'] dir.prems by simp
  have IH2: "map_of (staged_entries config es2) (rel @ q) = Option.bind (lookup_node cs q) (staged_node config)"
    using dir.IH(2) [of q] dir.prems by simp
  show ?case
  proof (cases q)
    case Nil
    have "map_of (staged_entries config es1) rel = None"
      using scan_below [OF dir(2)] by (intro staged_None) fastforce
    then show ?thesis using Nil scan_own_None [OF dir(3)] by (simp add: map_add_def)
  next
    case (Cons x q')
    show ?thesis
    proof (cases "x = name")
      case True
      then show ?thesis using Cons IH1 [of q'] scan_aside_None [OF dir(3), of name config q'] dir.prems
        by (auto simp: lookup_node_Cons entry_staged_def map_add_def split: option.splits)
    next
      case False
      then show ?thesis using Cons IH2 scan_below_None [OF dir(2) False, of config q']
        by (auto simp: lookup_node_Cons map_add_def split: option.splits)
    qed
  qed
next
  case (reg rel name m content cs es2)
  show ?case
  proof (cases q)
    case (Cons x q')
    then show ?thesis using reg.IH [of q] reg.prems scan_aside_None [OF reg(2), of name]
      by (cases "x = name") (auto simp: lookup_node_Cons entry_staged_def)
  qed (use scan_own_None [OF reg(2)] in simp)
next
  case (lnk rel name m target cs es2)
  show ?case
  proof (cases q)
    case (Cons x q')
    then show ?thesis using lnk.IH [of q] lnk.prems scan_aside_None [OF lnk(2), of name]
      by (cases "x = name") (auto simp: lookup_node_Cons entry_staged_def)
  qed (use scan_own_None [OF lnk(2)] in simp)
qed simp_all

lemma scan_placed:
  "\<lbrakk> scan_dir env rel cs = Inr es; rel = [] \<or> rel \<in> set dirs \<and> set (ancestors rel) \<subseteq> set dirs \<rbrakk> \<Longrightarrow> placed dirs es"
proof (induction arbitrary: dirs rule: scan_induct)
  case (dir rel name m ch cs es1 es2)
  have up: "set (ancestors (rel @ [name])) \<subseteq> set dirs" using dir.prems by (auto simp: ancestors_snoc)
  then have "placed ((rel @ [name]) # dirs) es1" by (intro dir.IH(1)) auto
  moreover have "placed ((rel @ [name]) # dirs) es2" using dir.IH(2) [of "(rel @ [name]) # dirs"] dir.prems by auto
  ultimately show ?case using up by (simp add: placed_append)
qed (auto simp: ancestors_snoc)

section \<open>Archives of well-formed entries\<close>

definition tar_of :: "archive_entry \<Rightarrow> tar_member" where
  "tar_of e = \<lparr>tm_name = posix_of (ae_path e),
     tm_type = (case ae_kind e of Directory_entry \<Rightarrow> Tar_dir | File_entry c \<Rightarrow> Tar_file c | Symlink_entry t \<Rightarrow> Tar_link t),
     tm_mode = ae_mode e\<rparr>"

lemma entry_path:
  assumes "entry_ok e"
  shows "validate_relative_path (posix_of (ae_path e)) = Inr (posix_of (ae_path e))"
    "pure_parts (posix_of (ae_path e)) = ae_path e" "ae_path e \<noteq> []"
  using assms valid_names [of "ae_path e"] by (auto simp: entry_ok_def list_all_iff portable_name_def)

lemma strip_slashes_same: "s \<noteq> [] \<Longrightarrow> last s \<noteq> CHR ''/'' \<Longrightarrow> strip_slashes s = s"
  by (cases s rule: rev_cases) (simp_all add: strip_slashes_def)

lemma join_chars:
  "c \<in> set (join_with ''/'' ps) \<Longrightarrow> c = CHR ''/'' \<or> (\<exists>p \<in> set ps. c \<in> set p)"
  using set_join [of ps] by blast

lemma last_join: "\<lbrakk> ps \<noteq> []; \<forall>p \<in> set ps. p \<noteq> [] \<rbrakk> \<Longrightarrow> join_with ''/'' ps \<noteq> [] \<and> last (join_with ''/'' ps) = last (last ps)"
  by (induction ps rule: induct_list012) auto

lemma portable_nameD:
  "portable_name p \<Longrightarrow> p \<noteq> [] \<and> CHR ''/'' \<notin> set p \<and> BACKSLASH \<notin> set p \<and> CHR '':'' \<notin> set p"
  by (auto simp: portable_name_def name_ok_def list_all_iff)

lemma colon_plain [simp]: "CHR '':'' \<noteq> BACKSLASH" "BACKSLASH \<noteq> CHR '':''"
  by (simp_all add: BACKSLASH_def)

lemma entry_member_path:
  assumes "entry_ok e"
  shows "strip_slashes (posix_of (ae_path e)) = posix_of (ae_path e)"
    "validate_member_path (posix_of (ae_path e)) = Inr (posix_of (ae_path e))"
proof -
  let ?ps = "ae_path e"
  have ps: "?ps \<noteq> []" "\<forall>p \<in> set ?ps. portable_name p" using assms by (simp_all add: entry_ok_def list_all_iff)
  then have lst: "portable_name (last ?ps)" by simp
  then have "last (last ?ps) \<noteq> CHR ''/''" using portable_nameD [OF lst] last_in_set by metis
  moreover have ne: "\<forall>p \<in> set ?ps. p \<noteq> []" using ps(2) portable_nameD by blast
  ultimately show strip: "strip_slashes (posix_of ?ps) = posix_of ?ps"
    using last_join [OF ps(1) ne] ps(1) by (simp add: posix_of_def strip_slashes_same)
  have plain: "c \<noteq> CHR '':'' \<and> c \<noteq> BACKSLASH" if "c \<in> set (posix_of ?ps)" for c
  proof -
    have "c \<in> set (join_with ''/'' ?ps)" using that ps(1) by (simp add: posix_of_def)
    then consider "c = CHR ''/''" | p where "p \<in> set ?ps" "c \<in> set p" using join_chars by blast
    then show ?thesis
    proof cases
      case (2 p)
      then have "portable_name p" using ps(2) by blast
      then show ?thesis using 2 portable_nameD by blast
    qed simp
  qed
  have "CHR '':'' \<notin> set (posix_of ?ps)" "BACKSLASH \<notin> set (posix_of ?ps)" using plain by blast+
  then show "validate_member_path (posix_of ?ps) = Inr (posix_of ?ps)"
    using entry_path(1) [OF assms] strip by (simp add: validate_member_path_def)
qed

lemma tar_infos_ok: "list_all entry_ok es \<Longrightarrow> tar_infos es = Inr (map tar_of es)"
  by (induction es) (simp_all add: tar_info_def tar_of_def entry_path)

lemma posix_inj: "\<lbrakk> entry_ok e; entry_ok e'; posix_of (ae_path e) = posix_of (ae_path e') \<rbrakk> \<Longrightarrow> ae_path e = ae_path e'"
  using entry_path(2) by metis

text \<open>The target of a link that may be staged also passes the verification.\<close>

lemma staged_link_verifies: "validate_symlink_target name target = Inr () \<Longrightarrow> validate_archive_symlink name target = Inr ()"
  by (simp add: validate_symlink_target_def validate_archive_symlink_def split: if_splits)

lemma verify_tar_of:
  assumes "entry_ok e" "posix_of (ae_path e) \<notin> set names"
  shows "verify_members names n (tar_of e # ms)
    = verify_members (names @ [posix_of (ae_path e)]) (n + (case file_size e of None \<Rightarrow> 0 | Some k \<Rightarrow> k)) ms"
proof -
  have nm: "validate_relative_path (strip_slashes (tm_name (tar_of e))) = Inr (posix_of (ae_path e))"
    using entry_member_path(1) [OF assms(1)] entry_path(1) [OF assms(1)] by (simp add: tar_of_def)
  show ?thesis
  proof (cases "ae_kind e")
    case (Symlink_entry target)
    then have "validate_archive_symlink (posix_of (ae_path e)) target = Inr ()"
      using assms(1) staged_link_verifies by (simp add: entry_ok_def)
    then show ?thesis using nm assms(2) Symlink_entry by (simp add: tar_of_def file_size_def)
  qed (use nm assms(2) in \<open>simp_all add: tar_of_def file_size_def\<close>)
qed

lemma new_names:
  assumes "list_all entry_ok (e # es)" "distinct (map ae_path (e # es))" "x \<in> set es"
  shows "posix_of (ae_path x) \<noteq> posix_of (ae_path e)"
proof
  assume "posix_of (ae_path x) = posix_of (ae_path e)"
  then have "ae_path x = ae_path e" using assms by (intro posix_inj) (simp_all add: list_all_iff)
  moreover have "ae_path x \<in> ae_path ` set es" using assms(3) by (rule imageI)
  ultimately show False using assms(2) by simp
qed

lemma sum_sizes_Cons:
  "sum_list (List.map_filter file_size (e # es)) = (case file_size e of None \<Rightarrow> 0 | Some k \<Rightarrow> k) + sum_list (List.map_filter file_size es)"
  by (simp add: List.map_filter_simps split: option.splits)

lemma verify_entries:
  "\<lbrakk> list_all entry_ok es; distinct (map ae_path es); \<forall>e \<in> set es. posix_of (ae_path e) \<notin> set names \<rbrakk>
   \<Longrightarrow> verify_members names n (map tar_of es)
     = Inr (names @ map (\<lambda>e. posix_of (ae_path e)) es, n + sum_list (List.map_filter file_size es))"
proof (induction es arbitrary: names n)
  case (Cons e es)
  have e: "entry_ok e" "posix_of (ae_path e) \<notin> set names" using Cons.prems by simp_all
  have "\<forall>x \<in> set es. posix_of (ae_path x) \<notin> set (names @ [posix_of (ae_path e)])"
    using Cons.prems(3) new_names [OF Cons.prems(1,2)] by simp
  from Cons.IH [OF _ _ this] show ?case
    using Cons.prems(1,2) by (simp add: verify_tar_of [OF e] del: verify_members.simps split: option.splits)
qed (simp add: List.map_filter_simps)

lemma write_archive_ok:
  assumes "list_all entry_ok es" "distinct (map ae_path es)"
  shows "write_archive segment es = Inr \<lparr>ba_contents = map tar_of es, ba_members = length es,
      ba_member_paths = map (\<lambda>e. posix_of (ae_path e)) es, ba_uncompressed_size = sum_list (List.map_filter file_size es),
      ba_segment = segment\<rparr>"
    "write_archive segment es = Inr a \<Longrightarrow> verify_archive a = Inr ()"
proof -
  show w: "write_archive segment es = Inr \<lparr>ba_contents = map tar_of es, ba_members = length es,
      ba_member_paths = map (\<lambda>e. posix_of (ae_path e)) es, ba_uncompressed_size = sum_list (List.map_filter file_size es),
      ba_segment = segment\<rparr>"
    using tar_infos_ok [OF assms(1)] by (simp add: write_archive_def)
  show "verify_archive a = Inr ()" if "write_archive segment es = Inr a"
    using that w verify_entries [OF assms, of "[]" 0] by (auto simp: verify_archive_def)
qed

section \<open>Extraction of what was written\<close>

lemma ensure_parent_dirs:
  "\<forall>k \<in> {1..length parts}. is_dir_at t (current @ take k parts) \<Longrightarrow> ensure_parent t current parts = Inr t"
proof (induction parts arbitrary: current)
  case (Cons part parts)
  have "is_dir_at t (current @ [part])" using bspec [OF Cons.prems, of 1] by simp
  moreover have "\<forall>k \<in> {1..length parts}. is_dir_at t ((current @ [part]) @ take k parts)"
  proof
    fix k assume "k \<in> {1..length parts}"
    then show "is_dir_at t ((current @ [part]) @ take k parts)" using bspec [OF Cons.prems, of "Suc k"] by simp
  qed
  ultimately show ?case using Cons.IH [of "current @ [part]"] by (auto simp: is_dir_at_def Let_def)
qed simp

lemma parents_there:
  assumes "\<forall>q \<in> set (ancestors p). is_dir_at t q"
  shows "ensure_parent t [] (butlast p) = Inr t"
proof (rule ensure_parent_dirs, rule ballI)
  fix k assume k: "k \<in> {1..length (butlast p)}"
  then have "take k p \<in> set (ancestors p)" by (auto simp: ancestors_def)
  moreover have "take k (butlast p) = take k p" using k by (intro take_butlast) auto
  ultimately show "is_dir_at t ([] @ take k (butlast p))" using assms by simp
qed

lemma update_new: "map_of t p = None \<Longrightarrow> AList.update p s t = t @ [(p, s)]"
  by (induction t) (auto split: if_splits)

lemma extract_tar_of:
  assumes "entry_ok e" "map_of t (ae_path e) = None" "\<forall>q \<in> set (ancestors (ae_path e)). is_dir_at t q"
    "posix_of (ae_path e) \<notin> set seen"
  shows "extract_member config (t, seen) (tar_of e) = Inr (t @ [(ae_path e, entry_staged config e)], seen @ [posix_of (ae_path e)])"
proof -
  let ?name = "posix_of (ae_path e)"
  have "place_member config t ?name (tar_of e) = Inr (t @ [(ae_path e, entry_staged config e)])"
  proof (cases "ae_kind e")
    case (Symlink_entry target)
    then have "validate_symlink_target ?name target = Inr ()" using assms(1) by (simp add: entry_ok_def)
    then show ?thesis using assms(2) Symlink_entry entry_path(2) [OF assms(1)]
      by (simp add: place_member_def tar_of_def entry_staged_def update_new)
  qed (use assms(2) entry_path(2) [OF assms(1)] in \<open>simp_all add: place_member_def tar_of_def entry_staged_def update_new\<close>)
  moreover have "tm_type (tar_of e) \<noteq> Tar_hard_link" "tm_type (tar_of e) \<noteq> Tar_other"
    by (cases "ae_kind e"; simp add: tar_of_def)+
  moreover have "validate_member_path (tm_name (tar_of e)) = Inr ?name"
    using entry_member_path(2) [OF assms(1)] by (simp add: tar_of_def)
  ultimately show ?thesis using assms(4) entry_path(2,3) [OF assms(1)] parents_there [OF assms(3)]
    by (simp add: extract_member_def)
qed

definition dirs_of :: "archive_entry list \<Rightarrow> string list list" where
  "dirs_of es = map ae_path (filter (\<lambda>e. ae_kind e = Directory_entry) es)"

lemma placed_rest: "placed (dirs_of es0) (es @ es') \<Longrightarrow> placed (dirs_of (es0 @ es)) es'"
proof (induction es arbitrary: es0)
  case (Cons e es)
  have "placed (dirs_of (es0 @ [e])) (es @ es')"
    using Cons.prems by (auto simp: dirs_of_def elim: placed_mono)
  then show ?case using Cons.IH [of "es0 @ [e]"] by simp
qed simp

lemma staged_dirs:
  assumes "distinct (map ae_path es)" "q \<in> set (dirs_of es)"
  shows "is_dir_at (staged_entries config es) q"
proof -
  obtain e where e: "e \<in> set es" "ae_kind e = Directory_entry" "ae_path e = q" using assms(2) by (auto simp: dirs_of_def)
  then have "(q, entry_staged config e) \<in> set (staged_entries config es)" by (auto simp: staged_entries_def)
  moreover have "distinct (map fst (staged_entries config es))" using assms(1) by (simp add: staged_entries_def comp_def)
  ultimately show ?thesis using e(2) by (simp add: is_dir_at_def entry_staged_def)
qed

definition names_of :: "archive_entry list \<Rightarrow> string list" where
  "names_of es = map (\<lambda>e. posix_of (ae_path e)) es"

lemma names_of_simps [simp]:
  "names_of [] = []" "names_of (e # es) = posix_of (ae_path e) # names_of es"
  "names_of (es @ es') = names_of es @ names_of es'" "length (names_of es) = length es"
  by (simp_all add: names_of_def)

lemma distinct_names: "\<lbrakk> list_all entry_ok es; distinct (map ae_path es) \<rbrakk> \<Longrightarrow> distinct (names_of es)"
proof (induction es)
  case (Cons e es)
  have "posix_of (ae_path e) \<notin> set (names_of es)" using new_names [OF Cons.prems] by (force simp: names_of_def)
  then show ?case using Cons by simp
qed simp

lemma extract_entries:
  "\<lbrakk> list_all entry_ok (es0 @ es); distinct (map ae_path (es0 @ es)); placed (dirs_of es0) es \<rbrakk>
   \<Longrightarrow> extract_members config (staged_entries config es0, names_of es0) (map tar_of es)
     = Inr (staged_entries config (es0 @ es), names_of (es0 @ es))"
proof (induction es arbitrary: es0)
  case (Cons e es)
  let ?t = "staged_entries config es0"
  have e: "entry_ok e" using Cons.prems(1) by simp
  have "\<forall>q \<in> set (ancestors (ae_path e)). is_dir_at ?t q"
    using Cons.prems(2,3) staged_dirs [of es0] by auto
  moreover have "map_of ?t (ae_path e) = None" using Cons.prems(2) by (intro staged_None) auto
  moreover have "posix_of (ae_path e) \<notin> set (names_of es0)"
    using distinct_names [OF Cons.prems(1,2)] by simp
  ultimately have "extract_member config (?t, names_of es0) (tar_of e)
      = Inr (staged_entries config (es0 @ [e]), names_of (es0 @ [e]))"
    using extract_tar_of [OF e] by simp
  moreover have "placed (dirs_of (es0 @ [e])) es" using placed_rest [of es0 "[e]" es] Cons.prems(3) by simp
  ultimately show ?case using Cons.IH [of "es0 @ [e]"] Cons.prems(1,2) by simp
qed simp

section \<open>The archives of a component\<close>

fun groups_size :: "archive_entry list \<Rightarrow> nat" where
  "groups_size es = sum_list (List.map_filter file_size es)"

text \<open>The closed groups and the open one hold the entries so far, and the open one has \<open>n\<close> bytes.\<close>

definition group_ok :: "nat \<Rightarrow> archive_entry list \<Rightarrow> bool" where
  "group_ok target g \<longleftrightarrow> groups_size g \<le> target \<or> (\<exists>e. g = [e])"

definition partition_ok :: "nat \<Rightarrow> archive_entry list \<Rightarrow> archive_entry list list \<times> archive_entry list \<times> nat \<Rightarrow> bool" where
  "partition_ok target es st = (case st of (groups, current, n) \<Rightarrow>
     concat groups @ current = es \<and> list_all (group_ok target) groups \<and> groups_size current = n \<and> n \<le> target)"

lemma partition_step_ok:
  "partition_ok target es st \<Longrightarrow> partition_ok target (es @ [e]) (partition_step target st e)"
  by (cases st; cases "file_size e")
     (auto simp: partition_ok_def partition_step_def group_ok_def list_all_iff Let_def map_filter_def)

lemma partition_fold_ok:
  "partition_ok target es st \<Longrightarrow> partition_ok target (es @ es') (foldl (partition_step target) st es')"
proof (induction es' arbitrary: es st)
  case (Cons e es')
  then show ?case using Cons.IH [OF partition_step_ok [OF Cons.prems, of e]] by simp
qed simp

lemma partition_media_ok:
  "concat (partition_media target es) = es \<and> list_all (group_ok target) (partition_media target es)"
proof (cases "es = []")
  case True
  then show ?thesis by (simp add: partition_media_def group_ok_def map_filter_def)
next
  case False
  obtain groups current n where st: "foldl (partition_step target) ([], [], 0) es = (groups, current, n)"
    by (cases "foldl (partition_step target) ([], [], 0) es") 
  have "partition_ok target [] ([], [], 0)" by (simp add: partition_ok_def map_filter_def)
  from partition_fold_ok [OF this, of es] have "partition_ok target es (groups, current, n)" using st by simp
  then show ?thesis using False st
    by (auto simp: partition_media_def partition_ok_def group_ok_def Let_def map_filter_def)
qed

lemma write_archives_ok:
  "\<lbrakk> list_all entry_ok (es0 @ concat gs); distinct (map ae_path (es0 @ concat gs)); placed (dirs_of es0) (concat gs) \<rbrakk>
   \<Longrightarrow> \<exists>as. write_archives media i gs = Inr as \<and> (\<forall>a \<in> set as. verify_archive a = Inr ())
       \<and> concat (map ba_member_paths as) = names_of (concat gs)
       \<and> extract_archives config (staged_entries config es0, names_of es0) as
         = Inr (staged_entries config (es0 @ concat gs), names_of (es0 @ concat gs))"
proof (induction gs arbitrary: i es0)
  case (Cons g gs)
  have g: "list_all entry_ok g" "distinct (map ae_path g)" using Cons.prems(1,2) by simp_all
  let ?seg = "if media then Some i else None"
  obtain a where a: "write_archive ?seg g = Inr a" "verify_archive a = Inr ()" "ba_member_paths a = names_of g"
      "ba_contents a = map tar_of g" "ba_members a = length g"
    using write_archive_ok(1) [OF g, of ?seg] write_archive_ok(2) [OF g, of ?seg] by (auto simp: names_of_def)
  have pl: "placed (dirs_of es0) (g @ concat gs)" using Cons.prems(3) by simp
  then have "placed (dirs_of es0) g" by (rule placed_front)
  moreover have "list_all entry_ok (es0 @ g)" "distinct (map ae_path (es0 @ g))" using Cons.prems(1,2) by auto
  ultimately have "extract_members config (staged_entries config es0, names_of es0) (ba_contents a)
      = Inr (staged_entries config (es0 @ g), names_of (es0 @ g))"
    unfolding a(4) by (intro extract_entries)
  then have "extract_archive config (staged_entries config es0, names_of es0) a
      = Inr (staged_entries config (es0 @ g), names_of (es0 @ g))"
    using a(5) by (simp add: extract_archive_def)
  moreover obtain as where "write_archives media (i + 1) gs = Inr as" "\<forall>a \<in> set as. verify_archive a = Inr ()"
      "concat (map ba_member_paths as) = names_of (concat gs)"
      "extract_archives config (staged_entries config (es0 @ g), names_of (es0 @ g)) as
        = Inr (staged_entries config ((es0 @ g) @ concat gs), names_of ((es0 @ g) @ concat gs))"
    using Cons.IH [of "es0 @ g" "i + 1"] Cons.prems(1,2) placed_rest [OF pl] by auto
  ultimately show ?case using a(1-3) by simp
qed simp

lemma tree_archives:
  assumes "tree_ok [] ch" "scan_dir env [] ch = Inr es" "0 < segment_size"
  obtains as where "create_component_archives env media segment_size (Some (FDir m ch)) = Inr as"
    "\<forall>a \<in> set as. verify_archive a = Inr ()" "stage_component config as = Inr (staged_entries config es)"
proof -
  let ?gs = "if media then partition_media segment_size es else [es]"
  have gs: "concat ?gs = es" using partition_media_ok by simp
  have ok: "list_all entry_ok es" "distinct (map ae_path es)" using scan_entries_ok [OF assms(2,1)] by simp_all
  have "placed (dirs_of []) (concat ?gs)" unfolding gs using scan_placed [OF assms(2)] by simp
  then obtain as where as: "write_archives media 1 ?gs = Inr as" "\<forall>a \<in> set as. verify_archive a = Inr ()"
      "concat (map ba_member_paths as) = names_of es"
      "extract_archives config ([], []) as = Inr (staged_entries config es, names_of es)"
    using write_archives_ok [of "[]" ?gs media 1 config] ok gs by auto
  have "staged_member_paths (staged_entries config es) = set (names_of es)"
    by (simp add: staged_member_paths_def staged_entries_def names_of_def comp_def)
  then have "stage_component config as = Inr (staged_entries config es)"
    using as(3,4) by (simp add: stage_component_def)
  moreover have "create_component_archives env media segment_size (Some (FDir m ch)) = Inr as"
    using assms(2,3) as(1) by (simp add: create_component_archives_def scan_tree_def)
  ultimately show ?thesis using as(2) that by blast
qed

section \<open>Properties\<close>

text \<open>
  C16. Take a component in which nothing is ignored, no two entries of a directory have one name,
  names have no colon, backslash or control character, and the targets of links stay inside
  (\<open>tree_ok\<close>). If it can be scanned, its backup gives archives that pass the verification, and staging
  them for a restore gives the directory back, every file with its content and every mode as the
  restore limits it: the staging directory has an entry at a path exactly when the component has
  one there.
\<close>

theorem backup_restores_tree:
  assumes "tree_ok [] ch" "scan_tree env (Some (FDir m ch)) = Inr es" "\<forall>p. \<not> sv_ignored env p" "0 < segment_size"
  shows "\<exists>as t. create_component_archives env media segment_size (Some (FDir m ch)) = Inr as
    \<and> (\<forall>a \<in> set as. verify_archive a = Inr ()) \<and> stage_component config as = Inr t
    \<and> (\<forall>p. map_of t p = Option.bind (lookup_node ch p) (staged_node config))"
proof -
  have scan: "scan_dir env [] ch = Inr es" using assms(2) by (simp add: scan_tree_def)
  have "map_of (staged_entries config es) p = Option.bind (lookup_node ch p) (staged_node config)" for p
    using scan_lookup [OF scan assms(1,3), of config p] by simp
  then show ?thesis using tree_archives [OF assms(1) scan assms(4), of media m config] by metis
qed

definition demo_env :: scan_env where
  "demo_env = \<lparr>sv_ignored = \<lambda>_. False, sv_link = \<lambda>_ _. Some True\<rparr>"

definition demo_tree :: "(string \<times> fs_node) list" where
  "demo_tree = [(''a'', FDir 0x1FF [(''b'', FFile 0x9FF ''text'')]), (''c'', FLink 0x1FF ''a/b'')]"

lemma backup_restores_tree_witness:
  "\<exists>as t. create_component_archives demo_env True 3 (Some (FDir 0x1C0 demo_tree)) = Inr as
    \<and> (\<forall>a \<in> set as. verify_archive a = Inr ()) \<and> stage_component False as = Inr t
    \<and> (\<forall>p. map_of t p = Option.bind (lookup_node demo_tree p) (staged_node False))"
proof -
  have tree: "tree_ok [] demo_tree" by code_simp
  obtain es where "scan_tree demo_env (Some (FDir 0x1C0 demo_tree)) = Inr es"
    by (simp add: scan_tree_def demo_env_def demo_tree_def and_entries_def scan_link_def is_absolute_def Let_def)
  from backup_restores_tree [OF tree this, of 3] show ?thesis by (simp add: demo_env_def)
qed

text \<open>
  C17. Whatever the archives hold, their extraction keeps the staging directory well formed:
  the path of every entry is made of names only, so it has no \<open>..\<close>, and everything
  above it is a directory, never a link, so nothing is written through one; the target of every
  link is relative and stays inside by its letters. What an earlier member put there is kept:
  no file and no link is overwritten or removed by a later one.
\<close>

theorem extraction_stays_inside:
  assumes "extract_archives config (t, seen) as = Inr (t', seen')" "staging_ok t"
  shows "staging_ok t' \<and> preserved t t'"
  using extract_archives_ok [OF assms(1)] assms(2) by simp

definition demo_members :: "tar_member list" where
  "demo_members = [\<lparr>tm_name = ''d/x'', tm_type = Tar_file ''text'', tm_mode = 0x1A4\<rparr>,
     \<lparr>tm_name = ''d/'', tm_type = Tar_dir, tm_mode = 0x1ED\<rparr>, \<lparr>tm_name = ''l'', tm_type = Tar_link ''d/x'', tm_mode = 0x1FF\<rparr>]"

definition demo_archive :: backup_archive where
  "demo_archive = \<lparr>ba_contents = demo_members, ba_members = 3, ba_member_paths = [''d/x'', ''d'', ''l''],
     ba_uncompressed_size = 4, ba_segment = None\<rparr>"

definition demo_staging :: staging where
  "demo_staging = (case extract_archives True ([], []) [demo_archive] of Inr st \<Rightarrow> fst st | Inl _ \<Rightarrow> [])"

lemma extraction_stays_inside_witness: "map_of demo_staging [''d'', ''x''] = Some (SFile 0x180 ''text'') \<and> staging_ok demo_staging"
proof -
  have "extract_archives True ([], []) [demo_archive] = Inr (demo_staging, [''d/x'', ''d'', ''l''])" by code_simp
  from extraction_stays_inside [OF this] have "staging_ok demo_staging" by (simp add: staging_ok_def)
  moreover have "map_of demo_staging [''d'', ''x''] = Some (SFile 0x180 ''text'')" by code_simp
  ultimately show ?thesis by blast
qed

text \<open>
  The media files are divided into archives without losing, repeating or reordering an
  entry, and the files of an archive are not larger than the size of a segment together, unless
  the archive is one single file.
\<close>

theorem media_segments_bounded:
  "concat (partition_media target es) = es
   \<and> list_all (\<lambda>g. sum_list (List.map_filter file_size g) \<le> target \<or> (\<exists>e. g = [e])) (partition_media target es)"
  using partition_media_ok [of target es] by (simp add: group_ok_def list_all_iff)

text \<open>
  C18. A file whose name has a colon is backed up, and the archives pass the verification, but
  no restore stages them: the extraction refuses the member.
\<close>

theorem colon_name_never_restored:
  assumes "name_ok n" "CHR '':'' \<in> set n" "\<not> sv_ignored env [n]" "0 < segment_size"
  shows "\<exists>as. create_component_archives env media segment_size (Some (FDir m [(n, FFile k content)])) = Inr as
    \<and> (\<forall>a \<in> set as. verify_archive a = Inr ())
    \<and> stage_component config as = Inl (Unsafe_entry ''Unsafe archive member path'')"
proof -
  let ?e = "\<lparr>ae_path = [n], ae_kind = File_entry content, ae_mode = k\<rparr>"
  have n: "validate_relative_path n = Inr n" using valid_names [of "[n]"] assms(1) by (simp add: posix_of_def)
  have gs: "concat (partition_media segment_size [?e]) = [?e]" using partition_media_ok by blast
  have "\<exists>g. (if media then partition_media segment_size [?e] else [[?e]]) = [[?e]]"
    by (simp add: partition_media_def partition_step_def file_size_def)
  then have gs: "(if media then partition_media segment_size [?e] else [[?e]]) = [[?e]]" by simp
  have "last n \<noteq> CHR ''/''" "n \<noteq> []" using name_okD [OF assms(1)] last_in_set by metis+
  then have strip: "strip_slashes n = n" by (intro strip_slashes_same)
  have scan: "scan_tree env (Some (FDir m [(n, FFile k content)])) = Inr [?e]"
    using assms(3) by (simp add: scan_tree_def and_entries_def)
  show ?thesis
    using assms(2,4) n strip
    by (simp add: create_component_archives_def scan gs write_archive_def tar_info_def posix_of_def verify_archive_def
        file_size_def List.map_filter_simps stage_component_def extract_archive_def extract_member_def validate_member_path_def)
qed

lemma colon_name_never_restored_witness:
  "\<exists>as. create_component_archives demo_env True 100 (Some (FDir 0x1C0 [(''12:30.jpg'', FFile 0x1A4 ''image'')])) = Inr as
    \<and> (\<forall>a \<in> set as. verify_archive a = Inr ())
    \<and> stage_component False as = Inl (Unsafe_entry ''Unsafe archive member path'')"
proof -
  have "name_ok ''12:30.jpg''" by code_simp
  from colon_name_never_restored [OF this, of demo_env 100] show ?thesis by (simp add: demo_env_def)
qed

text \<open>
  The targets of links are judged one by one and by their letters. Here \<open>e\<close> leads through
  \<open>p/q/d\<close>, which is the component itself, to what is beside it, and is staged.
\<close>

lemma chained_links_staged:
  "stage_component False [\<lparr>ba_contents =
       [\<lparr>tm_name = ''p'', tm_type = Tar_dir, tm_mode = 0\<rparr>, \<lparr>tm_name = ''p/q'', tm_type = Tar_dir, tm_mode = 0\<rparr>,
        \<lparr>tm_name = ''p/q/d'', tm_type = Tar_link ''../..'', tm_mode = 0\<rparr>,
        \<lparr>tm_name = ''e'', tm_type = Tar_link ''p/q/d/../x'', tm_mode = 0\<rparr>],
      ba_members = 4, ba_member_paths = [''p'', ''p/q'', ''p/q/d'', ''e''], ba_uncompressed_size = 0, ba_segment = None\<rparr>]
   = Inr [([''p''], SDir 0x1C0), ([''p'', ''q''], SDir 0x1C0), ([''p'', ''q'', ''d''], SLink ''../..''), ([''e''], SLink ''p/q/d/../x'')]"
  by code_simp

end
