(* ===== verification/Backup_Retention.thy ===== *)
theory Backup_Retention
  imports Database Backup_Paths "HOL-Library.AList" "HOL-Library.Product_Lexorder" "HOL-Library.Multiset"
begin

text \<open>
  Retention of backup sets (\<open>backups/retention.py\<close>): pins, the plan of a prune, pruning and the
  clean-up of abandoned staging directories, with the directory look-up of \<open>backups/service.py\<close>.

  The state is the backup root with its directory entries and the files of the retention state.
  What the integrity check says of a set is an attribute of its entry; the lock, the clock and
  what a failing removal leaves behind come from the environment.
\<close>

section \<open>State\<close>

text \<open>
  \<open>verify_backup_set\<close> and the manifest it read: the identifier and the instant of creation, an
  exception the callers expect, or another one.
\<close>

datatype set_check = Valid_set string time | Invalid_set | Check_crashes

record set_entry =
  be_name :: string
  be_symlink :: bool
  be_dir :: bool
  be_check :: set_check
  be_mtime :: "time option"
  be_inside :: bool

datatype pin_file = Pin_directory | Pin_special | Pin_unreadable | Pin_state dict

record retention =
  rt_root_symlink :: bool
  rt_root_exists :: bool
  rt_root_real :: bool
  rt_sets :: "set_entry list"
  rt_state_safe :: bool
  rt_pins :: "(string \<times> pin_file) list"

record retention_env =
  rv_lock_free :: bool
  rv_now :: time
  rv_min :: time
  rv_left :: "set_entry \<Rightarrow> set_entry option"

datatype retention_error =
  Bad_value | Unsafe_root | Locked | Out_of_range | Set_missing | Set_invalid | Check_crash | Io_failure

record prune_plan =
  pp_backup_ids :: "string list"
  pp_kept_ids :: "string list"
  pp_pinned_ids :: "string list"
  pp_dry_run :: bool

section \<open>Names\<close>

definition incomplete_name :: "string \<Rightarrow> bool" where
  "incomplete_name s \<longleftrightarrow>
     startswith s ''.incomplete-'' \<and> length s \<ge> 12 + 33 \<and>
     (let r = drop 12 s; n = length r - 33 in
        is_backup_id (take n r) \<and> r ! n = CHR ''-'' \<and> list_all lower_hex (drop (n + 1) r))"

section \<open>Pins\<close>

definition is_pinned :: "retention \<Rightarrow> string \<Rightarrow> bool" where
  "is_pinned st i = (case map_of (rt_pins st) i of
     None \<Rightarrow> False
   | Some (Pin_state d) \<Rightarrow> dget d ''backup_id'' JNull \<noteq> JStr i \<or> dget d ''pinned'' JNull \<noteq> JBool False
   | Some _ \<Rightarrow> True)"

definition backup_directory :: "string \<Rightarrow> retention \<Rightarrow> retention_error + set_entry" where
  "backup_directory i st =
     (if \<not> is_backup_id i then Inl Bad_value
      else if \<not> rt_root_real st then Inl Unsafe_root
      else case get_by be_name i (rt_sets st) of
        None \<Rightarrow> Inl Set_missing
      | Some e \<Rightarrow> if \<not> be_dir e \<or> be_symlink e then Inl Set_missing else Inr e)"

text \<open>Replacing a directory with the new state file raises.\<close>

definition pin_backup :: "retention_env \<Rightarrow> string \<Rightarrow> bool \<Rightarrow> retention \<Rightarrow> (retention_error, unit, retention) outcome" where
  "pin_backup env i pinned st =
     (if \<not> rv_lock_free env then (Inl Locked, st)
      else case backup_directory i st of
        Inl e \<Rightarrow> (Inl e, st)
      | Inr d \<Rightarrow> (case be_check d of
          Invalid_set \<Rightarrow> (Inl Set_invalid, st)
        | Check_crashes \<Rightarrow> (Inl Check_crash, st)
        | Valid_set _ _ \<Rightarrow>
            if \<not> rt_state_safe st then (Inl Unsafe_root, st)
            else if map_of (rt_pins st) i = Some Pin_directory then (Inl Io_failure, st)
            else (Inr (), st\<lparr>rt_pins := AList.update i
              (Pin_state [(''backup_id'', JStr i), (''pinned'', JBool pinned)]) (rt_pins st)\<rparr>)))"

section \<open>The plan of a prune\<close>

fun prune_candidates :: "set_entry list \<Rightarrow> retention_error + (string \<times> time) list" where
  "prune_candidates [] = Inr []"
| "prune_candidates (e # es) =
     (if be_symlink e \<or> \<not> be_dir e \<or> startswith (be_name e) ''.'' \<or> \<not> is_backup_id (be_name e)
      then prune_candidates es
      else case be_check e of
        Check_crashes \<Rightarrow> Inl Check_crash
      | Invalid_set \<Rightarrow> prune_candidates es
      | Valid_set i created \<Rightarrow>
          if i \<noteq> be_name e then prune_candidates es
          else (case prune_candidates es of Inl x \<Rightarrow> Inl x | Inr cs \<Rightarrow> Inr ((be_name e, created) # cs)))"

definition newest_first :: "(string \<times> time) list \<Rightarrow> (string \<times> time) list" where
  "newest_first cs = rev (sort_key (\<lambda>(i, created). (created, i)) cs)"

definition prune_protected :: "retention_env \<Rightarrow> int option \<Rightarrow> int option \<Rightarrow> retention \<Rightarrow> (string \<times> time) list \<Rightarrow> string list" where
  "prune_protected env keep_last keep_days st cs =
     (case keep_last of Some n \<Rightarrow> if n \<noteq> 0 then map fst (take (nat n) cs) else [] | None \<Rightarrow> [])
     @ (case keep_days of Some d \<Rightarrow> map fst (filter (\<lambda>(_, created). created \<ge> rv_now env - days d) cs) | None \<Rightarrow> [])
     @ filter (is_pinned st) (map fst cs)
     @ (if cs \<noteq> [] then [fst (hd cs)] else [])"

definition plan_prune ::
  "retention_env \<Rightarrow> int option \<Rightarrow> int option \<Rightarrow> retention \<Rightarrow> retention_error + prune_plan" where
  "plan_prune env keep_last keep_days st =
     (if keep_last = None \<and> keep_days = None then Inl Bad_value
      else if case_option False (\<lambda>n. n < 0) keep_last then Inl Bad_value
      else if case_option False (\<lambda>d. d < 0) keep_days then Inl Bad_value
      else if rt_root_symlink st then Inl Unsafe_root
      else if \<not> rt_root_exists st then Inr \<lparr>pp_backup_ids = [], pp_kept_ids = [], pp_pinned_ids = [], pp_dry_run = True\<rparr>
      else if \<not> rt_root_real st then Inl Unsafe_root
      else case prune_candidates (rt_sets st) of
        Inl x \<Rightarrow> Inl x
      | Inr found \<Rightarrow>
          (let cs = newest_first found in
           if case_option False (\<lambda>d. rv_now env - days d < rv_min env) keep_days then Inl Out_of_range
           else if cs \<noteq> [] \<and> \<not> rt_state_safe st then Inl Unsafe_root
           else let guarded = set (prune_protected env keep_last keep_days st cs)
             in Inr \<lparr>pp_backup_ids = filter (\<lambda>i. i \<notin> guarded) (map fst cs),
               pp_kept_ids = filter (\<lambda>i. i \<in> guarded) (map fst cs),
               pp_pinned_ids = sort (filter (is_pinned st) (map fst cs)), pp_dry_run = True\<rparr>))"

section \<open>Removal\<close>

text \<open>\<open>shutil.rmtree\<close>: all of a set, or the part of it the environment says when it fails.\<close>

definition remove_set :: "retention_env \<Rightarrow> set_entry \<Rightarrow> retention \<Rightarrow> (retention_error, unit, retention) outcome" where
  "remove_set env e st = (case rv_left env e of
     None \<Rightarrow> (Inr (), st\<lparr>rt_sets := delete_where (\<lambda>f. be_name f = be_name e) (rt_sets st)\<rparr>)
   | Some e' \<Rightarrow> (Inl Io_failure,
       st\<lparr>rt_sets := update_where (\<lambda>f. be_name f = be_name e) (\<lambda>_. e'\<lparr>be_name := be_name e\<rparr>) (rt_sets st)\<rparr>))"

definition prune_set :: "retention_env \<Rightarrow> string \<Rightarrow> retention \<Rightarrow> (retention_error, unit, retention) outcome" where
  "prune_set env i st = (case get_by be_name i (rt_sets st) of
     None \<Rightarrow> (Inl Unsafe_root, st)
   | Some e \<Rightarrow>
       if be_symlink e \<or> \<not> be_dir e \<or> \<not> be_inside e then (Inl Unsafe_root, st)
       else and_then (remove_set env e st) (\<lambda>_ st1.
         (if \<not> rt_state_safe st1 then (Inl Unsafe_root, st1)
          else (Inr (), st1\<lparr>rt_pins := AList.delete i (rt_pins st1)\<rparr>))))"

fun prune_sets :: "retention_env \<Rightarrow> string list \<Rightarrow> retention \<Rightarrow> (retention_error, unit, retention) outcome" where
  "prune_sets env [] st = (Inr (), st)"
| "prune_sets env (i # is) st = and_then (prune_set env i st) (\<lambda>_. prune_sets env is)"

definition prune_backups ::
  "retention_env \<Rightarrow> int option \<Rightarrow> int option \<Rightarrow> bool \<Rightarrow> retention \<Rightarrow> (retention_error, prune_plan, retention) outcome" where
  "prune_backups env keep_last keep_days dry_run st =
     (if \<not> rv_lock_free env then (Inl Locked, st)
      else case plan_prune env keep_last keep_days st of
        Inl x \<Rightarrow> (Inl x, st)
      | Inr plan \<Rightarrow>
          if dry_run then (Inr plan, st)
          else if \<not> rt_root_exists st then (Inl Io_failure, st)
          else and_then (prune_sets env (pp_backup_ids plan) st) (\<lambda>_ st1. (Inr (plan\<lparr>pp_dry_run := dry_run\<rparr>), st1)))"

section \<open>Abandoned staging directories\<close>

definition abandoned :: "retention_env \<Rightarrow> time \<Rightarrow> set_entry \<Rightarrow> bool" where
  "abandoned env older_than e \<longleftrightarrow> \<not> be_symlink e \<and> be_dir e \<and> incomplete_name (be_name e)
     \<and> (case be_mtime e of None \<Rightarrow> False | Some t \<Rightarrow> t \<le> rv_now env - older_than \<and> be_inside e)"

fun remove_abandoned :: "retention_env \<Rightarrow> set_entry list \<Rightarrow> retention \<Rightarrow> (retention_error, unit, retention) outcome" where
  "remove_abandoned env [] st = (Inr (), st)"
| "remove_abandoned env (e # es) st = and_then (remove_set env e st) (\<lambda>_. remove_abandoned env es)"

definition cleanup_incomplete ::
  "retention_env \<Rightarrow> time \<Rightarrow> bool \<Rightarrow> retention \<Rightarrow> (retention_error, string list, retention) outcome" where
  "cleanup_incomplete env older_than dry_run st =
     (if older_than < hours 24 then (Inl Bad_value, st)
      else if \<not> rv_lock_free env then (Inl Locked, st)
      else if rt_root_symlink st then (Inl Unsafe_root, st)
      else if \<not> rt_root_exists st then (Inr [], st)
      else if \<not> rt_root_real st then (Inl Unsafe_root, st)
      else let found = filter (abandoned env older_than) (rt_sets st); names = sort (map be_name found) in
        if dry_run then (Inr names, st)
        else and_then (remove_abandoned env found st) (\<lambda>_ st1. (Inr names, st1)))"

section \<open>What a prune leaves\<close>

lemma remove_set_others:
  "\<lbrakk> remove_set env e st = (r, st'); f \<in> set (rt_sets st); be_name f \<noteq> be_name e \<rbrakk> \<Longrightarrow> f \<in> set (rt_sets st')"
  by (auto simp: remove_set_def table_simps image_iff split: option.splits)

lemma prune_set_others:
  "\<lbrakk> prune_set env i st = (r, st'); f \<in> set (rt_sets st); be_name f \<noteq> i \<rbrakk> \<Longrightarrow> f \<in> set (rt_sets st')"
  using remove_set_others
  by (fastforce simp: prune_set_def and_then_def dest: get_by_SomeD split: option.splits if_splits prod.splits sum.splits)

lemma prune_sets_others:
  "\<lbrakk> prune_sets env is st = (r, st'); f \<in> set (rt_sets st); be_name f \<notin> set is \<rbrakk> \<Longrightarrow> f \<in> set (rt_sets st')"
proof (induction "is" arbitrary: st)
  case (Cons i "is")
  obtain r1 st1 where step: "prune_set env i st = (r1, st1)" by fastforce
  then have "f \<in> set (rt_sets st1)" using prune_set_others Cons.prems(2,3) by fastforce
  then show ?case using Cons step by (cases r1) auto
qed simp

definition set_created :: "set_entry \<Rightarrow> time option" where
  "set_created e =
     (if be_symlink e \<or> \<not> be_dir e \<or> startswith (be_name e) ''.'' \<or> \<not> is_backup_id (be_name e) then None
      else case be_check e of Valid_set i created \<Rightarrow> if i = be_name e then Some created else None | _ \<Rightarrow> None)"

definition newer :: "set_entry \<Rightarrow> set_entry \<Rightarrow> bool" where
  "newer f e = (case (set_created f, set_created e) of
     (Some later, Some earlier) \<Rightarrow> (earlier, be_name e) < (later, be_name f) | _ \<Rightarrow> False)"

lemma prune_candidates_set:
  "\<lbrakk> prune_candidates es = Inr cs; distinct (map be_name es) \<rbrakk>
   \<Longrightarrow> distinct (map fst cs) \<and> set cs = {(be_name e, c) | e c. e \<in> set es \<and> set_created e = Some c}"
proof (induction es arbitrary: cs rule: prune_candidates.induct)
  case (2 e es)
  show ?case
  proof (cases "set_created e")
    case None
    then have "prune_candidates es = Inr cs" "distinct (map fst cs) \<and> set cs = {(be_name e, c) | e c. e \<in> set es \<and> set_created e = Some c}"
      using "2.prems" "2.IH" by (auto simp: set_created_def split: if_splits set_check.splits sum.splits)
    then show ?thesis using None by auto
  next
    case (Some c)
    then obtain cs' where cs': "prune_candidates es = Inr cs'" "cs = (be_name e, c) # cs'"
      "distinct (map fst cs') \<and> set cs' = {(be_name e, c) | e c. e \<in> set es \<and> set_created e = Some c}"
      using "2.prems" "2.IH" by (auto simp: set_created_def split: if_splits set_check.splits sum.splits)
    then show ?thesis using Some "2.prems"(2) by auto
  qed
qed simp

abbreviation set_key :: "string \<times> time \<Rightarrow> time \<times> string" where
  "set_key p \<equiv> (snd p, fst p)"

lemma newest_first_sorted:
  assumes "i < j" "j < length (newest_first cs)"
  shows "set_key (newest_first cs ! j) \<le> set_key (newest_first cs ! i)"
proof -
  let ?xs = "sort_key set_key cs"
  have nf: "newest_first cs = rev ?xs" by (simp add: newest_first_def case_prod_beta')
  have "sorted (map set_key ?xs)" by simp
  then have "map set_key ?xs ! (length cs - Suc j) \<le> map set_key ?xs ! (length cs - Suc i)"
    using assms nf by (intro sorted_nth_mono) auto
  then show ?thesis using assms nf by (simp add: rev_nth)
qed

lemma newest_first_set [simp]: "set (newest_first cs) = set cs" "length (newest_first cs) = length cs"
  "distinct (map fst (newest_first cs)) \<longleftrightarrow> distinct (map fst cs)"
proof -
  show "set (newest_first cs) = set cs" "length (newest_first cs) = length cs" by (simp_all add: newest_first_def)
  have "mset (newest_first cs) = mset cs" by (simp add: newest_first_def)
  then have "mset (map fst (newest_first cs)) = mset (map fst cs)" by (simp only: mset_map)
  then show "distinct (map fst (newest_first cs)) \<longleftrightarrow> distinct (map fst cs)" using mset_eq_imp_distinct_iff by blast
qed

lemma plan_prune_Inr:
  assumes "plan_prune env keep_last keep_days st = Inr plan" "i \<in> set (pp_backup_ids plan)"
  obtains found where "prune_candidates (rt_sets st) = Inr found" "i \<in> fst ` set found"
    "i \<notin> set (prune_protected env keep_last keep_days st (newest_first found))"
  using assms by (auto simp: plan_prune_def Let_def split: if_splits sum.splits)

lemma guarded_prefix:
  assumes "i \<notin> set (prune_protected env keep_last keep_days st cs)" "i \<in> set (map fst cs)"
  shows "i \<notin> set (map fst (take (max 1 (case_option 0 nat keep_last)) cs))"
proof
  let ?k = "max 1 (case_option 0 nat keep_last)"
  assume "i \<in> set (map fst (take ?k cs))"
  moreover have "cs \<noteq> []" using assms(2) by auto
  then have "take 1 cs = [hd cs]" by (cases cs) simp_all
  ultimately show False
    using assms(1) by (auto simp: prune_protected_def max_def split: option.splits if_splits)
qed

text \<open>The sets at the head of the plan stay, and are newer than what follows.\<close>

lemma newer_remain:
  assumes found: "prune_candidates (rt_sets st) = Inr found" and names: "distinct (map be_name (rt_sets st))"
    and keep: "\<forall>f \<in> set (rt_sets st). be_name f \<in> set (map fst (take k (newest_first found))) \<longrightarrow> f \<in> set (rt_sets st')"
    and e: "e \<in> set (rt_sets st)" "set_created e = Some c" "be_name e \<notin> set (map fst (take k (newest_first found)))"
  shows "k \<le> length (filter (\<lambda>f. newer f e) (rt_sets st'))"
proof -
  let ?cs = "newest_first found" and ?new = "filter (\<lambda>f. newer f e) (rt_sets st')"
  note cands = prune_candidates_set [OF found names]
  have "(be_name e, c) \<in> set ?cs" using cands e by auto
  then obtain j where j: "j < length ?cs" "?cs ! j = (be_name e, c)" unfolding in_set_conv_nth by blast
  have kj: "k \<le> j"
  proof (rule ccontr)
    assume "\<not> k \<le> j"
    then have "?cs ! j \<in> set (take k ?cs)" using j(1) by (auto simp: in_set_conv_nth intro!: exI [of _ j])
    then have "be_name e \<in> fst ` set (take k ?cs)" using j(2) by force
    then show False using e(3) by simp
  qed
  have "x \<in> be_name ` set ?new" if x: "x \<in> set (map fst (take k ?cs))" for x
  proof -
    from x obtain i where i: "i < k" "i < length ?cs" "x = fst (?cs ! i)" by (auto simp: in_set_conv_nth)
    have "?cs ! i \<in> set found" using i(2) nth_mem newest_first_set(1) by metis
    then obtain f c' where f: "f \<in> set (rt_sets st)" "set_created f = Some c'" "?cs ! i = (be_name f, c')"
      using cands by auto
    have "i < j" using i(1) kj by simp
    then have le: "(c, be_name e) \<le> (c', be_name f)" using newest_first_sorted [of i j found] j f(3) by simp
    have "x = be_name f" using i(3) f(3) by simp
    then have "be_name f \<noteq> be_name e" using x e(3) by metis
    then have "newer f e" using le f(2) e(2) by (auto simp: newer_def)
    moreover have "f \<in> set (rt_sets st')" using keep f(1,3) x i(3) by simp
    ultimately show ?thesis using i(3) f(3) by auto
  qed
  then have "card (set (map fst (take k ?cs))) \<le> card (be_name ` set ?new)" by (intro card_mono) auto
  also have "\<dots> \<le> length ?new" using card_image_le card_length le_trans by blast
  finally have "card (set (map fst (take k ?cs))) \<le> length ?new" .
  moreover have "distinct (map fst (take k ?cs))" using cands by (simp add: take_map [symmetric])
  then have "card (set (map fst (take k ?cs))) = k" using distinct_card [of "map fst (take k ?cs)"] kj j(1) by simp
  ultimately show ?thesis by simp
qed

text \<open>
  C19. A backup set that is gone after a prune, or damaged because its removal failed half way,
  was a valid set and not pinned, it is older than the days to keep, and at least as many newer
  valid sets as are to be kept, and always one, are still there untouched. A dry run removes
  nothing.
\<close>

theorem prune_spares_guarded:
  assumes "prune_backups env keep_last keep_days dry_run st = (r, st')" "distinct (map be_name (rt_sets st))"
    "e \<in> set (rt_sets st)" "e \<notin> set (rt_sets st')"
  shows "\<not> dry_run \<and> \<not> is_pinned st (be_name e)
    \<and> (\<exists>created. set_created e = Some created \<and> (\<forall>d. keep_days = Some d \<longrightarrow> created < rv_now env - days d))
    \<and> max 1 (case_option 0 nat keep_last) \<le> length (filter (\<lambda>f. newer f e) (rt_sets st'))"
proof -
  obtain plan r' where plan: "plan_prune env keep_last keep_days st = Inr plan" "\<not> dry_run"
    and run: "prune_sets env (pp_backup_ids plan) st = (r', st')"
    using assms(1,3,4) by (auto simp: prune_backups_def and_then_def split: sum.splits if_splits prod.splits)
  have gone: "be_name e \<in> set (pp_backup_ids plan)" using prune_sets_others [OF run assms(3)] assms(4) by blast
  from plan(1) gone obtain found where found: "prune_candidates (rt_sets st) = Inr found" "be_name e \<in> fst ` set found"
    and free: "be_name e \<notin> set (prune_protected env keep_last keep_days st (newest_first found))"
    by (rule plan_prune_Inr)
  note cands = prune_candidates_set [OF found(1) assms(2)]
  obtain p where p: "p \<in> set found" "fst p = be_name e" using found(2) by auto
  then have "p \<in> {(be_name e, c) | e c. e \<in> set (rt_sets st) \<and> set_created e = Some c}" using cands by blast
  then obtain f c where f: "f \<in> set (rt_sets st)" "be_name f = be_name e" "set_created f = Some c" "(be_name f, c) \<in> set found"
    using p by auto
  have "f = e" using assms(2,3) f(1,2) by (simp add: distinct_map inj_on_def)
  then have c: "set_created e = Some c" "(be_name e, c) \<in> set found" using f(3,4) by simp_all
  let ?k = "max 1 (case_option 0 nat keep_last)"
  have pre: "be_name e \<notin> set (map fst (take ?k (newest_first found)))"
    using found(2) by (intro guarded_prefix [OF free]) simp
  have keep: "\<forall>f \<in> set (rt_sets st). be_name f \<in> set (map fst (take ?k (newest_first found))) \<longrightarrow> f \<in> set (rt_sets st')"
  proof (intro ballI impI)
    fix f assume f: "f \<in> set (rt_sets st)" "be_name f \<in> set (map fst (take ?k (newest_first found)))"
    have "be_name f \<notin> set (pp_backup_ids plan)"
    proof
      assume gone: "be_name f \<in> set (pp_backup_ids plan)"
      from plan(1) gone obtain found' where "prune_candidates (rt_sets st) = Inr found'" "be_name f \<in> fst ` set found'"
        "be_name f \<notin> set (prune_protected env keep_last keep_days st (newest_first found'))"
        by (rule plan_prune_Inr)
      then show False using guarded_prefix [of "be_name f" env keep_last keep_days st "newest_first found"] f(2) found(1) by simp
    qed
    then show "f \<in> set (rt_sets st')" using prune_sets_others [OF run f(1)] by blast
  qed
  have pin: "\<not> is_pinned st (be_name e)" using free found(2) by (simp add: prune_protected_def)
  have "c < rv_now env - days d" if d: "keep_days = Some d" for d
  proof (rule ccontr)
    assume "\<not> c < rv_now env - days d"
    then have "(be_name e, c) \<in> {p \<in> set found. snd p \<ge> rv_now env - days d}" using c(2) by simp
    then have "be_name e \<in> fst ` {p \<in> set found. snd p \<ge> rv_now env - days d}" by (rule rev_image_eqI) simp
    then show False using free d by (simp add: prune_protected_def case_prod_beta)
  qed
  then show ?thesis using pin plan(2) c(1) newer_remain [OF found(1) assms(2) keep assms(3) c(1) pre] by blast
qed

text \<open>The clean-up of staging directories removes no backup set.\<close>

lemma incomplete_not_id: "incomplete_name s \<Longrightarrow> \<not> is_backup_id s"
  by (cases s) (auto simp: incomplete_name_def is_backup_id_def digits_def is_digit_def)

lemma remove_abandoned_others:
  "\<lbrakk> remove_abandoned env es st = (r, st'); f \<in> set (rt_sets st); be_name f \<notin> be_name ` set es \<rbrakk> \<Longrightarrow> f \<in> set (rt_sets st')"
proof (induction es arbitrary: st)
  case (Cons e es)
  obtain r1 st1 where step: "remove_set env e st = (r1, st1)" by fastforce
  then have "f \<in> set (rt_sets st1)" using remove_set_others Cons.prems(2,3) by fastforce
  then show ?case using Cons step by (cases r1) auto
qed simp

lemma cleanup_spares_sets:
  assumes "cleanup_incomplete env older_than dry_run st = (r, st')" "f \<in> set (rt_sets st)" "f \<notin> set (rt_sets st')"
  shows "\<not> dry_run \<and> hours 24 \<le> older_than \<and> set_created f = None"
proof -
  obtain r' where run: "\<not> dry_run" "hours 24 \<le> older_than" "remove_abandoned env (filter (abandoned env older_than) (rt_sets st)) st = (r', st')"
    using assms by (auto simp: cleanup_incomplete_def Let_def and_then_def split: if_splits prod.splits sum.splits)
  then have "be_name f \<in> be_name ` set (filter (abandoned env older_than) (rt_sets st))"
    using remove_abandoned_others [OF run(3) assms(2)] assms(3) by blast
  then have "incomplete_name (be_name f)" by (auto simp: abandoned_def)
  then show ?thesis using run incomplete_not_id by (simp add: set_created_def)
qed

lemma pin_backup_pins:
  "pin_backup env i pinned st = (Inr (), st') \<Longrightarrow> (is_pinned st' i \<longleftrightarrow> pinned) \<and> rt_sets st' = rt_sets st"
  by (auto simp: pin_backup_def is_pinned_def update_conv' dget_def split: if_splits sum.splits set_check.splits)

definition demo_set :: "string \<Rightarrow> time \<Rightarrow> set_entry" where
  "demo_set i created = \<lparr>be_name = i, be_symlink = False, be_dir = True, be_check = Valid_set i created,
     be_mtime = Some created, be_inside = True\<rparr>"

definition demo_retention :: retention where
  "demo_retention = \<lparr>rt_root_symlink = False, rt_root_exists = True, rt_root_real = True,
     rt_sets = [demo_set ''20260101-000000'' 0, demo_set ''20260102-000000'' (days 1), demo_set ''20260103-000000'' (days 2)],
     rt_state_safe = True, rt_pins = []\<rparr>"

definition demo_retention_env :: retention_env where
  "demo_retention_env = \<lparr>rv_lock_free = True, rv_now = days 10, rv_min = - days 1000, rv_left = \<lambda>_. None\<rparr>"

lemma prune_spares_guarded_witness:
  "2 \<le> length (filter (\<lambda>f. newer f (demo_set ''20260101-000000'' 0))
     (rt_sets (snd (prune_backups demo_retention_env (Some 2) None False demo_retention))))"
proof -
  have st': "rt_sets (snd (prune_backups demo_retention_env (Some 2) None False demo_retention))
      = [demo_set ''20260102-000000'' (days 1), demo_set ''20260103-000000'' (days 2)]" by code_simp
  then have "demo_set ''20260101-000000'' 0 \<notin> set (rt_sets (snd (prune_backups demo_retention_env (Some 2) None False demo_retention)))"
    by (simp add: demo_set_def)
  from prune_spares_guarded [OF prod.collapse [symmetric] _ _ this] show ?thesis
    by (simp add: demo_retention_def demo_set_def)
qed

end
