(* ===== verification/Spec2Isabelle.thy ===== *)
theory Spec2Isabelle
  imports Sessions OAuth_Server Mail_Queue Plugin_Jobs Comment_Runs Restore_Interrupts Federation_Effects
    Backup_Roundtrip Backup_Retention
begin

text \<open>
  ArborPress is a web publishing server: accounts with passkeys and step-up grants, an
  OAuth and OpenID provider, a mail outbox, plugins in child processes, federation over
  ActivityPub, comments with moderation, notifications and backups. Its operations are
  coroutines that read and conditionally update rows of one SQL database; workers share
  that database through leases, and the web process keeps its per-session state in a
  signed cookie.

  \<^bold>\<open>The state.\<close> \<open>Models_User\<close>, \<open>Models_Content\<close> and \<open>Models_Federation\<close> hold one record per
  table of \<open>models/*.py\<close>, with the columns the operations use, and \<open>Database\<close> the record
  \<open>db\<close> of all tables, with \<open>write_audit_event\<close> of \<open>core/audit.py\<close>. A table is the list of
  its rows in the order of insertion. \<open>Prelude\<close> has what SQLAlchemy does with one:
  \<open>get_by\<close>, \<open>first_where\<close>, \<open>update_where\<close> with its \<open>rowcount\<close>, \<open>delete_where\<close>, \<open>add_row\<close>;
  time is an \<open>int\<close> of microseconds, Python's \<open>int\<close> an \<open>int\<close>, a \<open>str\<close> a \<open>string\<close>, a JSON value
  the datatype \<open>json\<close>. An operation returns an \<open>outcome\<close>: an error or a result, with the
  database it leaves. What an operation takes from outside the repository (the clock,
  new identifiers and tokens, hash functions, the answers of remote servers, DNS) is an
  argument of it, collected in an environment record.

  \<^bold>\<open>Interfaces.\<close> \<open>Contracts\<close> states three contracts as locales. \<open>one_shot\<close> (a conditional
  update consumes an item at most once, whatever is interleaved) is interpreted on step-up
  grants, pending ceremonies, authorization codes, refresh tokens, socket tickets and the
  links of guests; \<open>lease_rows\<close>, with its sublocale into \<open>lease_queue\<close>, on federation and
  push deliveries and on the rows of the inbox, \<open>lease_queue\<close> itself on the mail outbox; \<open>grant_store\<close> on the
  capabilities of plugins. \<open>Restore_Interrupts\<close> has a locale of its own, \<open>closing\<close> (what a
  recovery does after the last swap), interpreted on an undone and on a completed restore.

  \<^bold>\<open>Components.\<close>
  \<^item> \<open>Stepup\<close>: \<open>auth/stepup.py\<close>. A sensitive operation is paid for by exactly one recent grant.
  \<^item> \<open>Pending\<close>: \<open>auth/pending.py\<close>. A ceremony is consumed once.
  \<^item> \<open>Sessions\<close>: \<open>auth/sessions.py\<close>. Login and recovery exclude each other; a refreshed
    cookie names a live identity.
  \<^item> \<open>Permissions\<close>: \<open>auth/roles.py\<close>, \<open>auth/permissions.py\<close>; \<open>Auth_Policy\<close>: \<open>auth/policy.py\<close>,
    \<open>auth/mfa.py\<close> and the guards of \<open>web/routes/auth.py\<close>, \<open>web/routes/api.py\<close>,
    \<open>web/routes/admin.py\<close> and \<open>cli/main.py\<close>. No sequence of requests removes the last
    passkey or the last administrator; overlapping ones can.
  \<^item> \<open>OAuth_Server\<close>: \<open>auth/oauth_server.py\<close> with the token and revocation endpoints of
    \<open>web/routes/oauth_provider.py\<close>. Codes and refresh tokens are used once; reuse ends the family.
  \<^item> \<open>Mail_Queue\<close>: \<open>mail/queue.py\<close>, \<open>mail/delivery.py\<close>, the validators of \<open>mail/smtp.py\<close>. Attempts are
    bounded, what was sent is not sent again, and claims of one message are a lease apart
    unless its worker settled it.
  \<^item> \<open>Notifications\<close>: \<open>notifications/service.py\<close>, \<open>notifications/push.py\<close>, the ticket route.
  \<^item> \<open>Plugins\<close>: \<open>plugins/capabilities.py\<close>, \<open>state.py\<close>, \<open>supervisor.py\<close> and the start of
    \<open>process.py\<close>; restarts are bounded when launches fail and unbounded when they crash later.
  \<^item> \<open>Plugin_Services\<close>: \<open>plugins/services.py\<close>, \<open>rpc.py\<close>, \<open>jobs.py\<close>. \<open>Plugin_Isolation\<close>: a plugin is
    served from its own rows and public content only, and a revision is overwritten once.
    \<open>Plugin_Jobs\<close>: runs of requests and workers; quotas hold and a job is run boundedly often.
  \<^item> \<open>Federation_Policy\<close>, \<open>Federation_Actors\<close>, \<open>Federation_Outbox\<close>: \<open>federation/policy.py\<close>,
    \<open>security.py\<close>, \<open>remote.py\<close>, \<open>actors.py\<close>, \<open>services.py\<close>. A key comes from its owner's document,
    and a delivery goes where the policy allows it.
  \<^item> \<open>Http_Signatures\<close>: \<open>auth/http_signatures.py\<close>, signing and verifying requests.
    \<open>Federation_Intake\<close>: the inbox endpoints of \<open>web/routes/federation.py\<close> up to the stored
    row. As routed they accept nothing, since the key identifier they compare keeps no
    fragment; so the worker is modelled from any stored row on. \<open>Federation_Inbox\<close>:
    \<open>federation/inbox.py\<close> and \<open>federation/operations.py\<close>. \<open>Federation_Effects\<close>: an activity changes
    its sender's rows only, adds decisions, revisions and answers that concern the sender, and
    takes effect once, across leases, failures and retries; an attempt is one step.
  \<^item> \<open>Comment_Threads\<close>: \<open>comments/threads.py\<close>. The forest holds every comment once, and a link for
    exactly those replies whose references end. \<open>Comments\<close>, \<open>Moderation\<close>: the rest of
    \<open>comments/*.py\<close>; \<open>Comment_Runs\<close> composes their operations to runs of transactions and
    relates them to the abstract life cycle.
  \<^item> \<open>Backup_Paths\<close>: the paths, identifiers and checksum lines of \<open>backups/manifest.py\<close> and the
    check of a link's target. \<open>Backup_Archives\<close>: \<open>backups/archive.py\<close>, \<open>_verify_tar\<close> of
    \<open>backups/verify.py\<close> and the staging of a component in \<open>backups/restore.py\<close>; a directory is a
    tree, an archive the list of its members, a staging directory a list of paths.
    \<open>Backup_Roundtrip\<close>: what is backed up is staged again, and no archive is written through a
    link or over a file. \<open>Backup_Retention\<close>: \<open>backups/retention.py\<close>; a prune spares what is to be
    kept, wherever it fails.
  \<^item> \<open>Restore_Swaps\<close>: \<open>backups/restore.py\<close> from \<open>apply_restore\<close> on, with \<open>recover_restore\<close>. The
    disk is a map from paths to what is there, the journal a list of swaps; every file
    operation takes the next event of a machine: it works, fails, works and then fails, or
    the process dies before, in the middle of or after it. \<open>Restore_Safety\<close> names the states a
    swap can be in, \<open>Restore_Runs\<close> has the rules about outcomes and the run of the switches,
    \<open>Restore_Recovery\<close> a recovery that is not interrupted, \<open>Restore_Interrupts\<close> any number of
    recoveries that are: what a component had is never lost. The theorems assume \<open>restore_ready\<close>:
    paths that do not overlap (so a plan that restores a directory together with a
    database file inside it is outside of them) and no import into a server database.

  \<^bold>\<open>Fuel and bounds.\<close> The walk over parents is a \<open>function\<close> that ends because it only visits
  rows it has not seen; the reading of a forest has fuel, and is proved to return with as much
  as there are comments. Redirects are followed at most \<open>MAX_REDIRECTS\<close> times, as in the code.

  \<^bold>\<open>Not modelled.\<close> The HTML routes and templates, cipher and signature algorithms, SMTP,
  HTTP and DNS transports, compression, the manifest file and the database stream of a backup,
  the processes of plugins, themes and migrations: they are input and output or wrap third-party packages.
  Log lines are left out, audit events are not.
\<close>

end
